(* ===== verification/Prelude.thy ===== *)
theory Prelude
  imports Main "HOL-Library.Word"
begin

text \<open>
  Shared vocabulary of the development: the machine integers of Go, the byte strings and the
  functions of Go's package \<^verbatim>\<open>strings\<close> that the sources call, association lists for Go maps
  whose iteration order matters, results with an error value, and the generic lemmas that the
  component theories share.

  A Go string is a sequence of bytes, so it is a \<^typ>\<open>string\<close> here (a \<^typ>\<open>char\<close> is one byte).
\<close>

named_theorems go_strings \<open>definitions of the Go string functions\<close>
named_theorems go_words \<open>facts on 64-bit integers\<close>

section \<open>Machine integers\<close>

text \<open>
  Go's \<^verbatim>\<open>uint64\<close> and \<^verbatim>\<open>int64\<close> are both 64-bit words. An \<^verbatim>\<open>int64\<close> is read with \<^const>\<open>sint\<close>,
  and the conversion \<^verbatim>\<open>uint64(v)\<close> keeps the word.
\<close>

type_synonym uint64 = "64 word"
type_synonym int64 = "64 word"

abbreviation MaxUint64 :: uint64 where "MaxUint64 \<equiv> - 1"
abbreviation MaxInt64 :: int64 where "MaxInt64 \<equiv> 9223372036854775807"

lemma unat_MaxUint64 [go_words]: "unat MaxUint64 = 18446744073709551615"
  by (simp add: unsigned_minus_1_eq_mask mask_eq_exp_minus_1)

lemma unat64_bound: "unat (x :: uint64) \<le> 18446744073709551615"
  using unsigned_less [of x, where ?'a = nat] by simp

lemma sint_nonneg_unat:
  assumes "0 \<le> sint (v :: int64)"
  shows "sint v = int (unat v)"
proof -
  have "sint v < 2 ^ 63"
    using sint_lt [of v] by simp
  with assms have "take_bit 64 (sint v) = sint v"
    by (simp add: take_bit_int_eq_self)
  then show ?thesis
    using uint_sint [of v] by simp
qed

section \<open>Results and errors\<close>

text \<open>A Go function that returns \<^verbatim>\<open>(value, error)\<close> returns \<open>Inr value\<close> or \<open>Inl error\<close>.\<close>

fun is_ok :: "'e + 'a \<Rightarrow> bool" where
  "is_ok (Inr _) = True"
| "is_ok (Inl _) = False"

definition bind_res :: "'e + 'a \<Rightarrow> ('a \<Rightarrow> 'e + 'b) \<Rightarrow> 'e + 'b" where
  "bind_res r f = (case r of Inl e \<Rightarrow> Inl e | Inr x \<Rightarrow> f x)"

lemma bind_res_simps [simp]:
  "bind_res (Inl e) f = Inl e"
  "bind_res (Inr x) f = f x"
  by (simp_all add: bind_res_def)

lemma bind_res_eq_Inr [simp]:
  "bind_res r f = Inr y \<longleftrightarrow> (\<exists>x. r = Inr x \<and> f x = Inr y)"
  by (cases r) auto

text \<open>The loop \<^verbatim>\<open>for _, v := range values { if err := check(v); err != nil { return err } }\<close>.\<close>

fun check_all :: "('a \<Rightarrow> 'e option) \<Rightarrow> 'a list \<Rightarrow> 'e option" where
  "check_all chk [] = None"
| "check_all chk (x # xs) = (case chk x of Some e \<Rightarrow> Some e | None \<Rightarrow> check_all chk xs)"

lemma check_all_None_iff [simp]: "check_all chk xs = None \<longleftrightarrow> (\<forall>x\<in>set xs. chk x = None)"
  by (induction xs) (auto split: option.splits)

lemma check_all_Some: "check_all chk xs = Some e \<Longrightarrow> \<exists>x\<in>set xs. chk x = Some e"
  by (induction xs) (auto split: option.splits)

section \<open>Byte strings\<close>

definition hasPrefix :: "string \<Rightarrow> string \<Rightarrow> bool" where
  [go_strings]: "hasPrefix s p \<longleftrightarrow> take (length p) s = p"

definition hasSuffix :: "string \<Rightarrow> string \<Rightarrow> bool" where
  [go_strings]: "hasSuffix s p \<longleftrightarrow> length p \<le> length s \<and> drop (length s - length p) s = p"

definition trimPrefix :: "string \<Rightarrow> string \<Rightarrow> string" where
  [go_strings]: "trimPrefix s p = (if hasPrefix s p then drop (length p) s else s)"

definition trimSuffix :: "string \<Rightarrow> string \<Rightarrow> string" where
  [go_strings]: "trimSuffix s p = (if hasSuffix s p then take (length s - length p) s else s)"

lemma hasPrefix_append [simp]: "hasPrefix (p @ s) p"
  by (simp add: hasPrefix_def)

lemma hasPrefix_iff: "hasPrefix s p \<longleftrightarrow> (\<exists>t. s = p @ t)"
  unfolding hasPrefix_def by (metis append_eq_conv_conj append_take_drop_id)

lemma hasSuffix_append [simp]: "hasSuffix (s @ p) p"
  by (simp add: hasSuffix_def)

lemma hasSuffix_iff: "hasSuffix s p \<longleftrightarrow> (\<exists>t. s = t @ p)"
  unfolding hasSuffix_def
  by (metis append_eq_conv_conj append_take_drop_id le_add2 length_append diff_add_inverse2)

text \<open>\<^verbatim>\<open>strings.Cut(s, sep)\<close> for a one-byte separator: \<^const>\<open>None\<close> when it is absent.\<close>

fun cut :: "char \<Rightarrow> string \<Rightarrow> (string \<times> string) option" where
  "cut c [] = None"
| "cut c (x # xs) = (if x = c then Some ([], xs)
     else map_option (\<lambda>(a, b). (x # a, b)) (cut c xs))"

lemma cut_Some: "cut c s = Some (a, b) \<Longrightarrow> s = a @ c # b \<and> c \<notin> set a"
  by (induction s arbitrary: a) (auto split: if_splits)

lemma cut_None_iff [simp]: "cut c s = None \<longleftrightarrow> c \<notin> set s"
  by (induction s) auto

lemma cut_absent [simp]: "c \<notin> set s \<Longrightarrow> cut c s = None"
  by simp

text \<open>\<^verbatim>\<open>strings.Split(s, sep)\<close> for a one-byte separator.\<close>

fun split_on :: "char \<Rightarrow> string \<Rightarrow> string list" where
  "split_on c [] = [[]]"
| "split_on c (x # xs) =
     (if x = c then [] # split_on c xs
      else (case split_on c xs of [] \<Rightarrow> [[x]] | y # ys \<Rightarrow> (x # y) # ys))"

fun join_with :: "string \<Rightarrow> string list \<Rightarrow> string" where
  "join_with sep [] = []"
| "join_with sep [x] = x"
| "join_with sep (x # y # ys) = x @ sep @ join_with sep (y # ys)"

lemma split_on_nonempty [simp]: "split_on c s \<noteq> []"
  by (induction s) (auto split: list.splits)

lemma split_on_no_sep: "x \<in> set (split_on c s) \<Longrightarrow> c \<notin> set x"
proof (induction s arbitrary: x)
  case (Cons a s)
  then show ?case by (cases "split_on c s") (auto split: if_splits)
qed simp

lemma join_with_split_on: "join_with [c] (split_on c s) = s"
proof (induction s)
  case (Cons a s)
  then show ?case
    by (cases "split_on c s"; cases "tl (split_on c s)") (auto simp: neq_Nil_conv)
qed simp

lemma join_with_Cons: "xs \<noteq> [] \<Longrightarrow> join_with sep (x # xs) = x @ sep @ join_with sep xs"
  by (cases xs) auto

lemma split_on_no_char: "c \<notin> set s \<Longrightarrow> split_on c s = [s]"
  by (induction s) auto

lemma split_on_append: "c \<notin> set a \<Longrightarrow> split_on c (a @ c # b) = a # split_on c b"
  by (induction a) auto

lemma split_on_join_with:
  "xs \<noteq> [] \<Longrightarrow> (\<And>x. x \<in> set xs \<Longrightarrow> c \<notin> set x) \<Longrightarrow> split_on c (join_with [c] xs) = xs"
proof (induction xs)
  case (Cons x xs)
  then show ?case
    by (cases xs) (auto simp: split_on_no_char split_on_append)
qed simp

text \<open>
  \<^verbatim>\<open>strings.TrimSpace\<close> and \<^verbatim>\<open>bytes.TrimSpace\<close> remove the white space of Unicode from both
  ends. \<open>space_tokens\<close> lists the UTF-8 encodings of the code points of \<^verbatim>\<open>unicode.IsSpace\<close>.
\<close>

definition byte :: "nat \<Rightarrow> char" where
  "byte n = (char_of n :: char)"

definition space_tokens :: "string list" where
  "space_tokens =
     map (\<lambda>n. [byte n]) [9, 10, 11, 12, 13, 32]
     @ [[byte 194, byte 133], [byte 194, byte 160], [byte 225, byte 154, byte 128]]
     @ map (\<lambda>n. [byte 226, byte 128, byte n])
         [128, 129, 130, 131, 132, 133, 134, 135, 136, 137, 138, 168, 169, 175]
     @ [[byte 226, byte 129, byte 159], [byte 227, byte 128, byte 128]]"

lemma space_tokens_nonempty: "t \<in> set space_tokens \<Longrightarrow> t \<noteq> []"
  by (auto simp: space_tokens_def)

function trim_left_tokens :: "string list \<Rightarrow> string \<Rightarrow> string" where
  "trim_left_tokens ts s =
     (case find (\<lambda>t. t \<noteq> [] \<and> hasPrefix s t) ts of
        None \<Rightarrow> s
      | Some t \<Rightarrow> trim_left_tokens ts (drop (length t) s))"
  by pat_completeness auto
termination
proof (relation "measure (\<lambda>(ts, s). length s)", goal_cases)
  case (2 ts s t)
  then have "t \<noteq> []" and "hasPrefix s t"
    by (auto simp: find_Some_iff)
  then show ?case
    by (cases t; cases s) (auto simp: hasPrefix_def)
qed simp

declare trim_left_tokens.simps [simp del]

definition trimSpace :: "string \<Rightarrow> string" where
  "trimSpace s = rev (trim_left_tokens (map rev space_tokens)
                   (rev (trim_left_tokens space_tokens s)))"

definition lower_char :: "char \<Rightarrow> char" where
  "lower_char c = (let n = (of_char c :: nat) in
     if 65 \<le> n \<and> n \<le> 90 then char_of (n + 32) else c)"

text \<open>The verb \<^verbatim>\<open>%q\<close>, for text that has nothing to escape.\<close>

definition quoted :: "string \<Rightarrow> string" where
  "quoted s = byte 34 # s @ [byte 34]"

section \<open>Lists\<close>

text \<open>The idiom \<^verbatim>\<open>seen := map[string]bool{}\<close> with an error on the second occurrence.\<close>

fun first_duplicate :: "'a list \<Rightarrow> 'a list \<Rightarrow> 'a option" where
  "first_duplicate seen [] = None"
| "first_duplicate seen (x # xs) =
     (if x \<in> set seen then Some x else first_duplicate (x # seen) xs)"

lemma first_duplicate_None_iff [simp]:
  "first_duplicate seen xs = None \<longleftrightarrow> distinct xs \<and> set xs \<inter> set seen = {}"
  by (induction xs arbitrary: seen) auto

text \<open>A Go map as an association list: one entry per key.\<close>

abbreviation lookup :: "('k \<times> 'v) list \<Rightarrow> 'k \<Rightarrow> 'v option" where
  "lookup m k \<equiv> map_of m k"

definition wf_map :: "('k \<times> 'v) list \<Rightarrow> bool" where
  "wf_map m \<longleftrightarrow> distinct (map fst m)"

fun upsert :: "'k \<Rightarrow> 'v \<Rightarrow> ('k \<times> 'v) list \<Rightarrow> ('k \<times> 'v) list" where
  "upsert k v [] = [(k, v)]"
| "upsert k v ((k', v') # m) = (if k' = k then (k, v) # m else (k', v') # upsert k v m)"

definition remove_key :: "'k \<Rightarrow> ('k \<times> 'v) list \<Rightarrow> ('k \<times> 'v) list" where
  "remove_key k m = filter (\<lambda>(k', _). k' \<noteq> k) m"

lemma lookup_upsert [simp]: "lookup (upsert k v m) k' = (if k' = k then Some v else lookup m k')"
  by (induction m) auto

lemma keys_upsert [simp]: "fst ` set (upsert k v m) = insert k (fst ` set m)"
proof (induction m)
  case (Cons a m)
  then show ?case by (cases a; cases "fst a = k") (simp_all add: insert_commute)
qed simp

lemma wf_map_upsert [simp]: "wf_map m \<Longrightarrow> wf_map (upsert k v m)"
  unfolding wf_map_def
proof (induction m)
  case (Cons a m)
  then show ?case by (cases a; cases "fst a = k") simp_all
qed simp

lemma length_upsert: "length (upsert k v m) = (if k \<in> fst ` set m then length m else Suc (length m))"
proof (induction m)
  case (Cons a m)
  then show ?case by (cases a; cases "fst a = k") simp_all
qed simp

lemma lookup_remove_key [simp]: "lookup (remove_key k m) k' = (if k' = k then None else lookup m k')"
  unfolding remove_key_def by (induction m) auto

lemma keys_remove_key [simp]: "fst ` set (remove_key k m) = fst ` set m - {k}"
  unfolding remove_key_def by force

lemma wf_map_remove_key [simp]: "wf_map m \<Longrightarrow> wf_map (remove_key k m)"
  unfolding wf_map_def remove_key_def by (induction m) auto

lemma length_remove_key_le: "length (remove_key k m) \<le> length m"
  unfolding remove_key_def by simp

lemma length_remove_key:
  "wf_map m \<Longrightarrow> k \<in> fst ` set m \<Longrightarrow> length (remove_key k m) = length m - 1"
proof (induction m)
  case (Cons a m)
  have drop: "k \<notin> fst ` set m \<Longrightarrow> remove_key k m = m" for m :: "('a \<times> 'b) list"
    unfolding remove_key_def by (induction m) auto
  show ?case
  proof (cases "fst a = k")
    case True
    with Cons.prems have "k \<notin> fst ` set m" by (simp add: wf_map_def)
    with True show ?thesis by (cases a) (simp add: remove_key_def drop [unfolded remove_key_def])
  next
    case False
    with Cons have "length (remove_key k m) = length m - 1" and "m \<noteq> []"
      by (auto simp: wf_map_def)
    with False show ?thesis by (cases a) (simp add: remove_key_def)
  qed
qed simp

end
