(* ===== verification/Interfaces.thy ===== *)
theory Interfaces
  imports Prelude
begin

text \<open>
  The contracts that several components share, stated once as locales: a state machine with an
  inductive invariant, a refinement between two state machines, a consumer of a byte stream that
  does not depend on how the stream is cut into reads, and a commutative accumulator. The
  component theories interpret them on their own definitions.
\<close>

section \<open>State machines\<close>

inductive reachable :: "('s \<Rightarrow> bool) \<Rightarrow> ('s \<Rightarrow> 's \<Rightarrow> bool) \<Rightarrow> 's \<Rightarrow> bool"
  for init :: "'s \<Rightarrow> bool" and step :: "'s \<Rightarrow> 's \<Rightarrow> bool" where
  reachable_init: "init s \<Longrightarrow> reachable init step s"
| reachable_step: "reachable init step s \<Longrightarrow> step s t \<Longrightarrow> reachable init step t"

locale state_machine =
  fixes init :: "'s \<Rightarrow> bool"
    and step :: "'s \<Rightarrow> 's \<Rightarrow> bool"
    and inv :: "'s \<Rightarrow> bool"
  assumes inv_init: "init s \<Longrightarrow> inv s"
    and inv_step: "inv s \<Longrightarrow> step s t \<Longrightarrow> inv t"
begin

lemma reachable_inv: "reachable init step s \<Longrightarrow> inv s"
  by (induction rule: reachable.induct) (auto intro: inv_init inv_step)

lemma reachable_inv_step:
  "reachable init step s \<Longrightarrow> step s t \<Longrightarrow> inv s \<and> inv t"
  using reachable_inv inv_step by blast

end

text \<open>
  A machine that refines an abstract one: each of its steps is matched by some number of
  abstract steps (none included) between the abstracted states.
\<close>

locale refinement = state_machine init step inv
  for init :: "'s \<Rightarrow> bool" and step :: "'s \<Rightarrow> 's \<Rightarrow> bool" and inv :: "'s \<Rightarrow> bool" +
  fixes ainit :: "'a \<Rightarrow> bool"
    and astep :: "'a \<Rightarrow> 'a \<Rightarrow> bool"
    and abstr :: "'s \<Rightarrow> 'a"
  assumes abstr_init: "init s \<Longrightarrow> ainit (abstr s)"
    and abstr_step: "inv s \<Longrightarrow> step s t \<Longrightarrow> astep\<^sup>*\<^sup>* (abstr s) (abstr t)"
begin

lemma reachable_rtranclp: "reachable ainit astep a \<Longrightarrow> astep\<^sup>*\<^sup>* a b \<Longrightarrow> reachable ainit astep b"
  by (rotate_tac, induction rule: rtranclp_induct) (auto intro: reachable_step)

lemma reachable_abstr: "reachable init step s \<Longrightarrow> reachable ainit astep (abstr s)"
proof (induction rule: reachable.induct)
  case (reachable_init s)
  then show ?case by (blast intro: reachable.reachable_init abstr_init)
next
  case (reachable_step s t)
  then show ?case by (meson abstr_step reachable_inv reachable_rtranclp)
qed

end

section \<open>Consumers of a chunked byte stream\<close>

text \<open>
  A reader sees the bytes of a stream in chunks whose boundaries are an accident of the network.
  The law says that one chunk may be split anywhere; the lemmas say that the final state is a
  function of the bytes alone.
\<close>

locale chunked =
  fixes feed :: "'s \<Rightarrow> 'b list \<Rightarrow> 's"
  assumes feed_append: "feed s (xs @ ys) = feed (feed s xs) ys"
    and feed_empty: "feed s [] = s"
begin

lemma feed_chunks: "foldl feed s cs = feed s (concat cs)"
  by (induction cs arbitrary: s) (simp_all add: feed_append feed_empty)

lemma rechunk: "concat cs = concat ds \<Longrightarrow> foldl feed s cs = foldl feed s ds"
  by (simp add: feed_chunks)

end

section \<open>Commutative accumulators\<close>

text \<open>
  Counters that are added in any order and any grouping give the same total.
\<close>

locale accumulator =
  fixes add :: "'c \<Rightarrow> 'c \<Rightarrow> 'c"
    and zero :: 'c
  assumes add_assoc: "add (add a b) c = add a (add b c)"
    and add_commute: "add a b = add b a"
    and add_zero: "add zero a = a"
begin

lemma add_left_commute: "add a (add b c) = add b (add a c)"
  by (metis add_assoc add_commute)

lemma foldl_add: "foldl add (add a b) xs = add a (foldl add b xs)"
  by (induction xs arbitrary: b) (simp_all add: add_assoc)

lemma foldl_add_append: "foldl add zero (xs @ ys) = add (foldl add zero xs) (foldl add zero ys)"
  by (metis add_commute add_zero foldl_add foldl_append)

text \<open>
  Merging a batch of keyed counters into a keyed table, one event at a time, leaves under every
  key the sum of the counters that carry that key.
\<close>

lemma fold_upsert_lookup:
  "lookup (foldl (\<lambda>m (k, c). upsert k (add (case lookup m k of None \<Rightarrow> zero | Some d \<Rightarrow> d) c) m)
     m0 evs) k =
   (if k \<in> fst ` set evs \<or> lookup m0 k \<noteq> None
    then Some (foldl add (case lookup m0 k of None \<Rightarrow> zero | Some d \<Rightarrow> d)
                 (map snd (filter (\<lambda>e. fst e = k) evs)))
    else None)"
  by (induction evs arbitrary: m0) (auto split: option.splits)

end

end
