(* ===== verification/Scheduler.thy ===== *)
theory Scheduler
  imports Interfaces
begin

text \<open>
  The allocation scheduler of the gateway (\<^verbatim>\<open>internal/gateway/scheduler.go\<close>): one goroutine owns
  the state, and clients reach it over channels. Each local variable of \<^verbatim>\<open>run\<close> is a field of
  \<open>sched\<close>, each closure (\<^verbatim>\<open>prune\<close>, \<^verbatim>\<open>start\<close>, \<^verbatim>\<open>stop\<close>, \<^verbatim>\<open>finish\<close>, \<^verbatim>\<open>progress\<close>) and each case of its
  \<^verbatim>\<open>select\<close> is one definition, and what a step sends on a channel or starts in a goroutine is a
  list of effects. The world around the goroutine (leases held by clients, releases in flight,
  the running lifecycle call, the resident backends) is the record \<open>world\<close>, and \<open>world_step\<close>
  interleaves the goroutine with its clients and with the lifecycle.
\<close>

section \<open>Data\<close>

type_synonym allocation = string

definition AllocationLlamaCPP :: allocation where
  "AllocationLlamaCPP = ''llama-cpp''"

datatype alloc_state =
  StateUnloaded | StateStarting | StateReady | StateDraining | StateStopping | StateFailed

text \<open>
  Error values: the two sentinels, a canceled context, a plain text, the cleanup failure of
  \<^verbatim>\<open>lifecycle.go\<close>, \<^verbatim>\<open>fmt.Errorf("prefix%w", err)\<close> and \<^verbatim>\<open>errors.Join\<close>, and a
  controlled failure of \<^verbatim>\<open>controlerr.go\<close> with its exit status.
\<close>

datatype gerror =
    ErrQueueFull
  | ErrShuttingDown
  | ContextCanceled
  | ErrorText string
  | BackendCleanup gerror
  | Wrapped string gerror
  | Joined gerror gerror
  | ControlError string int

fun errText :: "gerror \<Rightarrow> string" where
  "errText ErrQueueFull = ''gateway request queue is full''"
| "errText ErrShuttingDown = ''gateway is shutting down''"
| "errText ContextCanceled = ''context canceled''"
| "errText (ErrorText t) = t"
| "errText (BackendCleanup e) = errText e"
| "errText (Wrapped p e) = p @ errText e"
| "errText (Joined e f) = errText e @ ''\<newline>'' @ errText f"
| "errText (ControlError t _) = t"

text \<open>\<^verbatim>\<open>errors.As(err, &cleanupFailure)\<close> searches the wrapped errors.\<close>

fun asCleanup :: "gerror \<Rightarrow> bool" where
  "asCleanup (BackendCleanup _) = True"
| "asCleanup (Wrapped _ e) = asCleanup e"
| "asCleanup (Joined e f) = (asCleanup e \<or> asCleanup f)"
| "asCleanup _ = False"

record lease_event =
  le_allocation :: allocation
  le_generation :: uint64

record lease =
  l_upstream :: "string option"
  l_allocation :: allocation
  l_generation :: uint64
  l_released :: bool
  l_failed :: bool

record waiter =
  wt_id :: uint64
  wt_allocation :: allocation

datatype op_kind = OpStart | OpStop

record op_result =
  or_kind :: op_kind
  or_allocation :: allocation
  or_generation :: uint64
  or_upstream :: "string option"
  or_err :: "gerror option"

record status_reply =
  st_allocation :: allocation
  st_state :: alloc_state
  st_active :: nat
  st_queued :: nat
  st_lastError :: string
  st_upstream :: string

record sched =
  sc_queueMax :: nat
  sc_limits :: "(allocation \<times> nat) list"
  sc_state :: alloc_state
  sc_current :: allocation
  sc_upstream :: "string option"
  sc_generation :: uint64
  sc_active :: nat
  sc_queue :: "waiter list"
  sc_operation :: bool
  sc_operationCancel :: bool
  sc_shuttingDown :: bool
  sc_shutdownReplies :: "nat list"
  sc_lastError :: string
  sc_cleanupError :: "gerror option"
  sc_done :: bool

text \<open>
  What a step does besides changing the state. A \<open>Reply\<close> is a send that the client received;
  where the select took the branch of the client's context instead, it is \<open>Dropped\<close>.
\<close>

datatype effect =
    Reply uint64 "gerror + lease"
  | Dropped uint64
  | GoStart allocation uint64
  | GoStop allocation uint64
  | CancelOperation
  | ReplyStatus nat status_reply
  | ReplyShutdown nat "gerror option"
  | CloseDone

text \<open>
  The clients as one iteration of the loop sees them: whose context is still live when the queue
  is pruned, and whose receive wins the select against the context.
\<close>

record client_env =
  ctxLive :: "uint64 \<Rightarrow> bool"
  receives :: "uint64 \<Rightarrow> bool"

section \<open>Operations\<close>

definition NewScheduler ::
  "bool \<Rightarrow> int \<Rightarrow> (allocation \<times> int) list \<Rightarrow> gerror + sched" where
  "NewScheduler lifecycleNil queueMax limits =
     (if lifecycleNil \<or> queueMax < 1
      then Inl (ErrorText ''invalid gateway scheduler configuration'')
      else case find (\<lambda>(a, l). a = [] \<or> l < 0) limits of
        Some (a, l) \<Rightarrow> Inl (ErrorText (''invalid concurrency limit for '' @ quoted a))
      | None \<Rightarrow> Inr
         \<lparr>sc_queueMax = nat queueMax, sc_limits = map (\<lambda>(a, l). (a, nat l)) limits,
          sc_state = StateUnloaded, sc_current = [], sc_upstream = None, sc_generation = 0,
          sc_active = 0, sc_queue = [], sc_operation = False, sc_operationCancel = False,
          sc_shuttingDown = False, sc_shutdownReplies = [], sc_lastError = [],
          sc_cleanupError = None, sc_done = False\<rparr>)"

text \<open>\<^verbatim>\<open>Acquire\<close>: the configuration check, then the outcome of its two selects.\<close>

definition acquire_allowed :: "sched \<Rightarrow> allocation \<Rightarrow> bool" where
  "acquire_allowed s a \<longleftrightarrow> a = AllocationLlamaCPP \<or> lookup (sc_limits s) a \<noteq> None"

datatype 'r acquire_select = Proceeds 'r | CtxDone gerror | SchedulerDone

definition Acquire ::
  "sched \<Rightarrow> allocation \<Rightarrow> uint64 \<Rightarrow> unit acquire_select \<Rightarrow> (gerror + lease) acquire_select
     \<Rightarrow> (gerror + lease) \<times> uint64 list" where
  "Acquire s a rid send recv =
     (if \<not> acquire_allowed s a then (Inl (ErrorText (''unknown gateway allocation '' @ quoted a)), [])
      else case send of
        CtxDone e \<Rightarrow> (Inl e, [])
      | SchedulerDone \<Rightarrow> (Inl ErrShuttingDown, [])
      | Proceeds _ \<Rightarrow>
          (case recv of
             Proceeds r \<Rightarrow> (r, [])
           | CtxDone e \<Rightarrow> (Inl e, [rid])
           | SchedulerDone \<Rightarrow> (Inl ErrShuttingDown, [])))"

text \<open>
  \<^verbatim>\<open>Status\<close> and \<^verbatim>\<open>Shutdown\<close> as their callers see them; \<open>None\<close> is the zero \<^verbatim>\<open>SchedulerStatus\<close>. When
  \<^verbatim>\<open>Shutdown\<close> sees the closed \<^verbatim>\<open>done\<close> channel, a reply that is already buffered still counts.
\<close>

definition unloaded_status :: status_reply where
  "unloaded_status = \<lparr>st_allocation = [], st_state = StateUnloaded, st_active = 0, st_queued = 0,
     st_lastError = [], st_upstream = []\<rparr>"

definition Status ::
  "unit acquire_select \<Rightarrow> status_reply acquire_select \<Rightarrow> status_reply option \<times> gerror option" where
  "Status send recv = (case send of
     CtxDone e \<Rightarrow> (None, Some e)
   | SchedulerDone \<Rightarrow> (Some unloaded_status, Some ErrShuttingDown)
   | Proceeds _ \<Rightarrow> (case recv of
       Proceeds status \<Rightarrow> (Some status, None)
     | CtxDone e \<Rightarrow> (None, Some e)
     | SchedulerDone \<Rightarrow> (Some unloaded_status, Some ErrShuttingDown)))"

definition Shutdown ::
  "unit acquire_select \<Rightarrow> gerror option acquire_select \<Rightarrow> gerror option option \<Rightarrow> gerror option" where
  "Shutdown send recv buffered = (case send of
     SchedulerDone \<Rightarrow> None
   | CtxDone e \<Rightarrow> Some e
   | Proceeds _ \<Rightarrow> (case recv of
       Proceeds err \<Rightarrow> err
     | SchedulerDone \<Rightarrow> (case buffered of Some err \<Rightarrow> err | None \<Rightarrow> None)
     | CtxDone e \<Rightarrow> Some e))"

text \<open>\<^verbatim>\<open>Release\<close> and \<^verbatim>\<open>Fail\<close> send at most once per lease; a nil lease sends nothing.\<close>

definition lease_key :: "lease \<Rightarrow> lease_event" where
  "lease_key l = \<lparr>le_allocation = l_allocation l, le_generation = l_generation l\<rparr>"

fun Release :: "lease option \<Rightarrow> lease option \<times> lease_event list" where
  "Release None = (None, [])"
| "Release (Some l) = (if l_released l then (Some l, [])
     else (Some (l\<lparr>l_released := True\<rparr>), [lease_key l]))"

fun Fail :: "lease option \<Rightarrow> gerror option \<Rightarrow> lease option \<times> (lease_event \<times> gerror) list" where
  "Fail None e = (None, [])"
| "Fail (Some l) None = (Some l, [])"
| "Fail (Some l) (Some e) = (if l_failed l then (Some l, [])
     else (Some (l\<lparr>l_failed := True\<rparr>), [(lease_key l, e)]))"

text \<open>\<^verbatim>\<open>failWaiter\<close>, for one waiter and for a whole queue.\<close>

definition failWaiter :: "client_env \<Rightarrow> gerror \<Rightarrow> waiter \<Rightarrow> effect list" where
  "failWaiter env e w = (if receives env (wt_id w) then [Reply (wt_id w) (Inl e)] else [Dropped (wt_id w)])"

definition failAll :: "client_env \<Rightarrow> gerror \<Rightarrow> waiter list \<Rightarrow> effect list" where
  "failAll env e ws = concat (map (failWaiter env e) ws)"

definition prune :: "client_env \<Rightarrow> sched \<Rightarrow> sched" where
  "prune env s = s\<lparr>sc_queue := filter (\<lambda>w. ctxLive env (wt_id w)) (sc_queue s)\<rparr>"

definition start :: "allocation \<Rightarrow> sched \<Rightarrow> sched \<times> effect list" where
  "start a s =
     (s\<lparr>sc_operation := True, sc_state := StateStarting, sc_current := a,
        sc_generation := sc_generation s + 1, sc_operationCancel := True\<rparr>,
      [GoStart a (sc_generation s + 1)])"

definition stop :: "sched \<Rightarrow> sched \<times> effect list" where
  "stop s =
     (s\<lparr>sc_operation := True, sc_state := StateStopping, sc_operationCancel := False\<rparr>,
      [GoStop (sc_current s) (sc_generation s)])"

definition finish :: "gerror option \<Rightarrow> sched \<Rightarrow> sched \<times> effect list" where
  "finish err s =
     (s\<lparr>sc_done := True\<rparr>,
      map (\<lambda>r. ReplyShutdown r err) (sc_shutdownReplies s) @ [CloseDone])"

text \<open>The loop of \<^verbatim>\<open>progress\<close> that hands out leases to the head of the queue.\<close>

fun serve ::
  "client_env \<Rightarrow> lease \<Rightarrow> nat \<Rightarrow> waiter list \<Rightarrow> nat \<Rightarrow> waiter list \<times> nat \<times> effect list" where
  "serve env l limit [] active = ([], active, [])"
| "serve env l limit (w # ws) active =
     (if wt_allocation w = l_allocation l \<and> (limit = 0 \<or> active < limit) then
        (if receives env (wt_id w) then
           (case serve env l limit ws (Suc active) of
              (q, n, es) \<Rightarrow> (q, n, Reply (wt_id w) (Inr l) # es))
         else
           (case serve env l limit ws active of
              (q, n, es) \<Rightarrow> (q, n, Dropped (wt_id w) # es)))
      else (w # ws, active, []))"

definition limit_of :: "sched \<Rightarrow> allocation \<Rightarrow> nat" where
  "limit_of s a = (case lookup (sc_limits s) a of None \<Rightarrow> 0 | Some n \<Rightarrow> n)"

definition new_lease :: "sched \<Rightarrow> lease" where
  "new_lease s = \<lparr>l_upstream = sc_upstream s, l_allocation = sc_current s,
     l_generation = sc_generation s, l_released = False, l_failed = False\<rparr>"

definition progress_shutdown :: "client_env \<Rightarrow> sched \<Rightarrow> sched \<times> effect list \<times> bool" where
  "progress_shutdown env s =
     (let fails = failAll env ErrShuttingDown (sc_queue s); s = s\<lparr>sc_queue := []\<rparr> in
      if sc_operation s \<or> sc_active s > 0 then
        (if sc_active s > 0 \<and> \<not> sc_operation s then s\<lparr>sc_state := StateDraining\<rparr> else s,
         fails, False)
      else if sc_current s \<noteq> [] then
        (case stop s of (s, es) \<Rightarrow> (s, fails @ es, False))
      else (case finish None s of (s, es) \<Rightarrow> (s, fails @ es, True)))"

definition progress_serve :: "client_env \<Rightarrow> sched \<Rightarrow> sched \<times> effect list \<times> bool" where
  "progress_serve env s =
     (let s = s\<lparr>sc_state := StateReady\<rparr> in
      case serve env (new_lease s) (limit_of s (sc_current s)) (sc_queue s) (sc_active s) of
        (q, n, es) \<Rightarrow>
          (let s = s\<lparr>sc_queue := q, sc_active := n\<rparr> in
           (if q \<noteq> [] \<and> wt_allocation (hd q) \<noteq> sc_current s
            then s\<lparr>sc_state := StateDraining\<rparr> else s, es, False)))"

definition progress :: "client_env \<Rightarrow> sched \<Rightarrow> sched \<times> effect list \<times> bool" where
  "progress env s0 =
     (let s = prune env s0 in
      if sc_shuttingDown s then progress_shutdown env s
      else if sc_operation s then (s, [], False)
      else if sc_cleanupError s \<noteq> None then (s, [], False)
      else if sc_state s = StateFailed \<and> sc_current s \<noteq> [] then
        (if sc_active s = 0 then (case stop s of (s, es) \<Rightarrow> (s, es, False)) else (s, [], False))
      else if sc_current s = [] then
        (let s = s\<lparr>sc_state := StateUnloaded\<rparr> in
         case sc_queue s of
           [] \<Rightarrow> (s, [], False)
         | w # _ \<Rightarrow> (case start (wt_allocation w) s of (s, es) \<Rightarrow> (s, es, False)))
      else (case sc_queue s of
          [] \<Rightarrow> (s\<lparr>sc_state := StateReady\<rparr>, [], False)
        | w # _ \<Rightarrow>
            (if wt_allocation w \<noteq> sc_current s then
               (let s = s\<lparr>sc_state := StateDraining\<rparr> in
                if sc_active s = 0 then (case stop s of (s, es) \<Rightarrow> (s, es, False))
                else (s, [], False))
             else progress_serve env s)))"

subsection \<open>The cases of the select\<close>

definition onRequest :: "client_env \<Rightarrow> waiter \<Rightarrow> sched \<Rightarrow> sched \<times> effect list" where
  "onRequest env w s =
     (if sc_shuttingDown s then (s, failWaiter env ErrShuttingDown w)
      else case sc_cleanupError s of
        Some e \<Rightarrow> (s, failWaiter env e w)
      | None \<Rightarrow>
          if length (sc_queue s) \<ge> sc_queueMax s then (s, failWaiter env ErrQueueFull w)
          else (s\<lparr>sc_queue := sc_queue s @ [w]\<rparr>, []))"

fun drop_first :: "uint64 \<Rightarrow> waiter list \<Rightarrow> waiter list" where
  "drop_first i [] = []"
| "drop_first i (w # ws) = (if wt_id w = i then ws else w # drop_first i ws)"

definition onCancel :: "uint64 \<Rightarrow> sched \<Rightarrow> sched" where
  "onCancel i s = s\<lparr>sc_queue := drop_first i (sc_queue s)\<rparr>"

definition key :: "sched \<Rightarrow> lease_event" where
  "key s = \<lparr>le_allocation = sc_current s, le_generation = sc_generation s\<rparr>"

definition onRelease :: "lease_event \<Rightarrow> sched \<Rightarrow> sched" where
  "onRelease ev s =
     (if ev = key s \<and> sc_active s > 0 then s\<lparr>sc_active := sc_active s - 1\<rparr> else s)"

definition onFailure :: "lease_event \<Rightarrow> gerror \<Rightarrow> sched \<Rightarrow> sched" where
  "onFailure ev err s =
     (if ev = key s \<and> sc_cleanupError s = None
      then s\<lparr>sc_state := StateFailed, sc_lastError := errText err\<rparr> else s)"

definition onStartFailed :: "client_env \<Rightarrow> gerror \<Rightarrow> sched \<Rightarrow> sched \<times> effect list" where
  "onStartFailed env err s =
     (let s = s\<lparr>sc_lastError := errText err\<rparr>;
          wrapped = Wrapped (''start '' @ sc_current s @ '': '') err in
      if asCleanup err then
        (s\<lparr>sc_state := StateFailed, sc_cleanupError := Some wrapped, sc_queue := []\<rparr>,
         failAll env wrapped (sc_queue s))
      else
        (s\<lparr>sc_current := [], sc_upstream := None, sc_state := StateUnloaded,
           sc_queue := filter (\<lambda>w. wt_allocation w \<noteq> sc_current s) (sc_queue s)\<rparr>,
         failAll env wrapped (filter (\<lambda>w. wt_allocation w = sc_current s) (sc_queue s))))"

definition onStarted :: "string \<Rightarrow> sched \<Rightarrow> sched" where
  "onStarted url s =
     s\<lparr>sc_upstream := Some url, sc_state := StateReady, sc_lastError := []\<rparr>"

definition onStopFailed ::
  "client_env \<Rightarrow> gerror \<Rightarrow> sched \<Rightarrow> sched \<times> effect list \<times> bool" where
  "onStopFailed env err s =
     (let wrapped = Wrapped (''stop '' @ sc_current s @ '': '') err;
          fails = failAll env wrapped (sc_queue s);
          s = s\<lparr>sc_state := StateFailed, sc_lastError := errText err,
                sc_cleanupError := Some wrapped, sc_queue := []\<rparr> in
      if sc_shuttingDown s
      then (case finish (Some err) s of (s, es) \<Rightarrow> (s, fails @ es, True))
      else (s, fails, False))"

definition onStopped :: "sched \<Rightarrow> sched" where
  "onStopped s = s\<lparr>sc_current := [], sc_upstream := None, sc_state := StateUnloaded,
                   sc_cleanupError := None\<rparr>"

definition onResult :: "client_env \<Rightarrow> op_result \<Rightarrow> sched \<Rightarrow> sched \<times> effect list \<times> bool" where
  "onResult env r s0 =
     (let cancel = (if sc_operationCancel s0 then [CancelOperation] else []);
          s = s0\<lparr>sc_operation := False, sc_operationCancel := False\<rparr> in
      if or_generation r \<noteq> sc_generation s \<or> or_allocation r \<noteq> sc_current s
      then (s, cancel, False)
      else case or_kind r of
        OpStart \<Rightarrow>
          (case (or_err r, or_upstream r) of
             (None, Some url) \<Rightarrow> (onStarted url s, cancel, False)
           | (None, None) \<Rightarrow>
               (case onStartFailed env (ErrorText ''backend returned no upstream URL'') s of
                  (s, es) \<Rightarrow> (s, cancel @ es, False))
           | (Some e, _) \<Rightarrow>
               (case onStartFailed env e s of (s, es) \<Rightarrow> (s, cancel @ es, False)))
      | OpStop \<Rightarrow>
          (case or_err r of
             Some e \<Rightarrow>
               (case onStopFailed env e s of (s, es, ret) \<Rightarrow> (s, cancel @ es, ret))
           | None \<Rightarrow> (onStopped s, cancel, False)))"

definition onStatus :: "nat \<Rightarrow> sched \<Rightarrow> effect list" where
  "onStatus r s =
     [ReplyStatus r \<lparr>st_allocation = sc_current s, st_state = sc_state s,
        st_active = sc_active s, st_queued = length (sc_queue s),
        st_lastError = sc_lastError s,
        st_upstream = (case sc_upstream s of None \<Rightarrow> [] | Some u \<Rightarrow> u)\<rparr>]"

definition onShutdown :: "nat \<Rightarrow> sched \<Rightarrow> sched \<times> effect list" where
  "onShutdown r s =
     (let s = s\<lparr>sc_shutdownReplies := sc_shutdownReplies s @ [r]\<rparr> in
      if sc_shuttingDown s then (s, [])
      else (s\<lparr>sc_shuttingDown := True\<rparr>,
            if sc_operationCancel s then [CancelOperation] else []))"

datatype event =
    EvRequest waiter
  | EvCancel uint64
  | EvRelease lease_event
  | EvFailure lease_event gerror
  | EvResult op_result
  | EvStatus nat
  | EvShutdown nat

fun handle :: "client_env \<Rightarrow> event \<Rightarrow> sched \<Rightarrow> sched \<times> effect list \<times> bool" where
  "handle env (EvRequest w) s = (case onRequest env w s of (s, es) \<Rightarrow> (s, es, False))"
| "handle env (EvCancel i) s = (onCancel i s, [], False)"
| "handle env (EvRelease ev) s = (onRelease ev s, [], False)"
| "handle env (EvFailure ev e) s = (onFailure ev e s, [], False)"
| "handle env (EvResult r) s = onResult env r s"
| "handle env (EvStatus i) s = (s, onStatus i s, False)"
| "handle env (EvShutdown i) s = (case onShutdown i s of (s, es) \<Rightarrow> (s, es, False))"

text \<open>
  \<^verbatim>\<open>run\<close> over a given sequence of received messages: \<open>progress\<close>, then one case of the select.
\<close>

fun run :: "sched \<Rightarrow> (client_env \<times> event) list \<Rightarrow> sched \<times> effect list" where
  "run s [] = (s, [])"
| "run s ((env, ev) # evs) =
     (case progress env s of
        (s1, es1, True) \<Rightarrow> (s1, es1)
      | (s1, es1, False) \<Rightarrow>
          (case handle env ev s1 of
             (s2, es2, True) \<Rightarrow> (s2, es1 @ es2)
           | (s2, es2, False) \<Rightarrow>
               (case run s2 evs of (s3, es3) \<Rightarrow> (s3, es1 @ es2 @ es3))))"

end
