(* ===== verification/SchedulerWorld.thy ===== *)
theory SchedulerWorld
  imports Scheduler
begin

text \<open>
  The scheduler goroutine together with the clients and the backend lifecycle, as one state
  machine whose steps interleave freely. The steps of the goroutine are the definitions of
  \<open>Scheduler\<close>; the lifecycle calls may return any result that the documented contract of the
  interface \<^verbatim>\<open>Lifecycle\<close> allows. The theory proves the invariant of the whole system and
  that it refines a small abstract machine.
\<close>

section \<open>The system\<close>

datatype pc = AtProgress | AtSelect | Returned

text \<open>
  \<open>w_leases\<close>: every lease a client received; \<open>w_releases\<close>: release messages sent and not yet
  received; \<open>w_cancels\<close>: cancellations posted by clients whose context ended (\<^verbatim>\<open>Acquire\<close> posts one
  whenever it leaves by its context) and not yet received; \<open>w_calls\<close>: lifecycle calls in flight; \<open>w_resident\<close>: backends that may occupy the
  accelerator, from the call of \<^verbatim>\<open>Start\<close> until a call returns with the promise that the
  backend is gone.
\<close>

record world =
  w_sched :: sched
  w_pc :: pc
  w_leases :: "lease list"
  w_releases :: "lease_event list"
  w_cancels :: "uint64 list"
  w_calls :: "(op_kind \<times> allocation \<times> uint64) list"
  w_resident :: "allocation list"

fun apply_effect :: "effect \<Rightarrow> world \<Rightarrow> world" where
  "apply_effect (Reply _ (Inr l)) w = w\<lparr>w_leases := w_leases w @ [l]\<rparr>"
| "apply_effect (Dropped i) w = w\<lparr>w_cancels := w_cancels w @ [i]\<rparr>"
| "apply_effect (GoStart a g) w =
     w\<lparr>w_calls := w_calls w @ [(OpStart, a, g)], w_resident := w_resident w @ [a]\<rparr>"
| "apply_effect (GoStop a g) w = w\<lparr>w_calls := w_calls w @ [(OpStop, a, g)]\<rparr>"
| "apply_effect _ w = w"

abbreviation apply_effects :: "effect list \<Rightarrow> world \<Rightarrow> world" where
  "apply_effects es w \<equiv> fold apply_effect es w"

text \<open>
  The contract of the interface \<^verbatim>\<open>Lifecycle\<close>: a failed start leaves no backend unless it
  returns a cleanup error, and a stop that returns no error removed the backend.
\<close>

fun lifecycle_contract ::
  "op_kind \<Rightarrow> string option \<Rightarrow> gerror option \<Rightarrow> bool \<Rightarrow> bool" where
  "lifecycle_contract OpStart (Some _) None resident = resident"
| "lifecycle_contract OpStart None None resident = (\<not> resident)"
| "lifecycle_contract OpStart _ (Some e) resident = (asCleanup e \<or> \<not> resident)"
| "lifecycle_contract OpStop _ None resident = (\<not> resident)"
| "lifecycle_contract OpStop _ (Some e) resident = True"

definition resume :: "bool \<Rightarrow> pc" where
  "resume ret = (if ret then Returned else AtProgress)"

inductive world_step :: "world \<Rightarrow> world \<Rightarrow> bool" where
  ws_progress:
    "w_pc w = AtProgress \<Longrightarrow> progress env (w_sched w) = (s, es, ret) \<Longrightarrow>
     world_step w (apply_effects es
       (w\<lparr>w_sched := s, w_pc := (if ret then Returned else AtSelect)\<rparr>))"
| ws_request:
    "w_pc w = AtSelect \<Longrightarrow> acquire_allowed (w_sched w) (wt_allocation r) \<Longrightarrow>
     wt_id r \<notin> wt_id ` set (sc_queue (w_sched w)) \<Longrightarrow>
     handle env (EvRequest r) (w_sched w) = (s, es, ret) \<Longrightarrow>
     world_step w (apply_effects es (w\<lparr>w_sched := s, w_pc := resume ret\<rparr>))"
| ws_cancel:
    "w_pc w = AtSelect \<Longrightarrow> w_cancels w = xs @ i # ys \<Longrightarrow>
     handle env (EvCancel i) (w_sched w) = (s, es, ret) \<Longrightarrow>
     world_step w (apply_effects es
       (w\<lparr>w_sched := s, w_pc := resume ret, w_cancels := xs @ ys\<rparr>))"
| ws_client_cancel:
    "world_step w (w\<lparr>w_cancels := w_cancels w @ [i]\<rparr>)"
| ws_client_release:
    "i < length (w_leases w) \<Longrightarrow> Release (Some (w_leases w ! i)) = (Some l, evs) \<Longrightarrow>
     world_step w (w\<lparr>w_leases := (w_leases w)[i := l], w_releases := w_releases w @ evs\<rparr>)"
| ws_release:
    "w_pc w = AtSelect \<Longrightarrow> w_releases w = xs @ ev # ys \<Longrightarrow>
     handle env (EvRelease ev) (w_sched w) = (s, es, ret) \<Longrightarrow>
     world_step w (apply_effects es
       (w\<lparr>w_sched := s, w_pc := resume ret, w_releases := xs @ ys\<rparr>))"
| ws_failure:
    "w_pc w = AtSelect \<Longrightarrow> handle env (EvFailure ev e) (w_sched w) = (s, es, ret) \<Longrightarrow>
     world_step w (apply_effects es (w\<lparr>w_sched := s, w_pc := resume ret\<rparr>))"
| ws_result:
    "w_pc w = AtSelect \<Longrightarrow> w_calls w = xs @ (or_kind r, or_allocation r, or_generation r) # ys \<Longrightarrow>
     lifecycle_contract (or_kind r) (or_upstream r) (or_err r) resident \<Longrightarrow>
     handle env (EvResult r) (w_sched w) = (s, es, ret) \<Longrightarrow>
     world_step w (apply_effects es
       (w\<lparr>w_sched := s, w_pc := resume ret, w_calls := xs @ ys,
          w_resident := (if resident then w_resident w
                         else remove1 (or_allocation r) (w_resident w))\<rparr>))"
| ws_status:
    "w_pc w = AtSelect \<Longrightarrow> handle env (EvStatus i) (w_sched w) = (s, es, ret) \<Longrightarrow>
     world_step w (apply_effects es (w\<lparr>w_sched := s, w_pc := resume ret\<rparr>))"
| ws_shutdown:
    "w_pc w = AtSelect \<Longrightarrow> handle env (EvShutdown i) (w_sched w) = (s, es, ret) \<Longrightarrow>
     world_step w (apply_effects es (w\<lparr>w_sched := s, w_pc := resume ret\<rparr>))"

definition init_world :: "world \<Rightarrow> bool" where
  "init_world w \<longleftrightarrow> (\<exists>queueMax limits s. NewScheduler False queueMax limits = Inr s \<and>
     w = \<lparr>w_sched = s, w_pc = AtProgress, w_leases = [], w_releases = [], w_cancels = [], w_calls = [],
          w_resident = []\<rparr>)"

abbreviation reachable_world :: "world \<Rightarrow> bool" where
  "reachable_world \<equiv> reachable init_world world_step"

section \<open>The invariant\<close>

definition held :: "world \<Rightarrow> lease list" where
  "held w = filter (\<lambda>l. \<not> l_released l) (w_leases w)"

text \<open>The leases that count against the current backend: held, or released and still in flight.\<close>

definition outstanding :: "world \<Rightarrow> lease_event list" where
  "outstanding w = map lease_key (held w) @ w_releases w"

definition sched_inv :: "sched \<Rightarrow> bool" where
  "sched_inv s \<longleftrightarrow>
     (limit_of s (sc_current s) = 0 \<or> sc_active s \<le> limit_of s (sc_current s)) \<and>
     length (sc_queue s) \<le> sc_queueMax s \<and>
     distinct (map wt_id (sc_queue s)) \<and>
     (\<forall>w\<in>set (sc_queue s). wt_allocation w \<noteq> []) \<and>
     lookup (sc_limits s) [] = None \<and>
     (sc_current s = [] \<longrightarrow> sc_upstream s = None \<and> sc_active s = 0 \<and> \<not> sc_operation s
        \<and> sc_cleanupError s = None) \<and>
     (sc_operation s \<longrightarrow> sc_active s = 0) \<and>
     (sc_cleanupError s \<noteq> None \<longrightarrow> sc_active s = 0 \<and> sc_queue s = []) \<and>
     (sc_current s \<noteq> [] \<and> \<not> sc_operation s \<and> sc_cleanupError s = None \<longrightarrow> sc_upstream s \<noteq> None) \<and>
     (sc_operationCancel s \<longrightarrow> sc_operation s \<and> sc_cleanupError s = None) \<and>
     (sc_done s \<longrightarrow> sc_queue s = [])"

definition op_in_flight :: "sched \<Rightarrow> op_kind" where
  "op_in_flight s = (if sc_operationCancel s then OpStart else OpStop)"

definition world_inv :: "world \<Rightarrow> bool" where
  "world_inv w \<longleftrightarrow>
     (let s = w_sched w in
      sched_inv s \<and>
      length (outstanding w) = sc_active s \<and>
      (\<forall>e\<in>set (outstanding w). e = key s) \<and>
      (\<forall>l\<in>set (held w). l_upstream l = sc_upstream s) \<and>
      w_calls w = (if sc_operation s then [(op_in_flight s, sc_current s, sc_generation s)] else []) \<and>
      (w_resident w = [] \<or> w_resident w = [sc_current s] \<and> sc_current s \<noteq> []) \<and>
      (w_pc w = Returned \<longleftrightarrow> sc_done s))"

text \<open>No client waits for nothing: something that will wake the goroutine is on its way.\<close>

definition wake_inv :: "world \<Rightarrow> bool" where
  "wake_inv w \<longleftrightarrow> (let s = w_sched w in
     w_pc w = AtSelect \<longrightarrow> sc_operation s \<or> sc_active s > 0 \<or>
       \<not> sc_shuttingDown s \<and> (sc_queue s = [] \<or> w_cancels w \<noteq> []))"


section \<open>Effects on the world\<close>

definition leases_of :: "effect list \<Rightarrow> lease list" where
  "leases_of es = concat (map (\<lambda>e. case e of Reply _ (Inr l) \<Rightarrow> [l] | _ \<Rightarrow> []) es)"

definition calls_of :: "effect list \<Rightarrow> (op_kind \<times> allocation \<times> uint64) list" where
  "calls_of es = concat (map (\<lambda>e. case e of GoStart a g \<Rightarrow> [(OpStart, a, g)]
                                 | GoStop a g \<Rightarrow> [(OpStop, a, g)] | _ \<Rightarrow> []) es)"

definition drops_of :: "effect list \<Rightarrow> uint64 list" where
  "drops_of es = concat (map (\<lambda>e. case e of Dropped i \<Rightarrow> [i] | _ \<Rightarrow> []) es)"

definition starts_of :: "(op_kind \<times> allocation \<times> uint64) list \<Rightarrow> allocation list" where
  "starts_of cs = map (fst \<circ> snd) (filter (\<lambda>c. fst c = OpStart) cs)"

lemma effect_summaries [simp]:
  "leases_of [] = []" "calls_of [] = []" "starts_of [] = []" "drops_of [] = []"
  "leases_of (es @ fs) = leases_of es @ leases_of fs"
  "calls_of (es @ fs) = calls_of es @ calls_of fs"
  "leases_of (Reply i (Inr l) # es) = l # leases_of es"
  "leases_of (Reply i (Inl e) # es) = leases_of es"
  "leases_of (Dropped i # es) = leases_of es"
  "drops_of (es @ fs) = drops_of es @ drops_of fs"
  "drops_of (Dropped i # es) = i # drops_of es" "drops_of (Reply i r # es) = drops_of es"
  "drops_of (GoStart a g # es) = drops_of es" "drops_of (GoStop a g # es) = drops_of es"
  "drops_of (CancelOperation # es) = drops_of es" "drops_of (ReplyStatus k st # es) = drops_of es"
  "drops_of (ReplyShutdown k eo # es) = drops_of es" "drops_of (CloseDone # es) = drops_of es"
  "calls_of (Dropped i # es) = calls_of es"
  "leases_of (GoStart a g # es) = leases_of es"
  "leases_of (GoStop a g # es) = leases_of es"
  "leases_of (CancelOperation # es) = leases_of es"
  "leases_of (ReplyStatus k st # es) = leases_of es"
  "leases_of (ReplyShutdown k eo # es) = leases_of es"
  "leases_of (CloseDone # es) = leases_of es"
  "calls_of (Reply i r # es) = calls_of es"
  "calls_of (GoStart a g # es) = (OpStart, a, g) # calls_of es"
  "calls_of (GoStop a g # es) = (OpStop, a, g) # calls_of es"
  "calls_of (CancelOperation # es) = calls_of es"
  "calls_of (ReplyStatus k st # es) = calls_of es"
  "calls_of (ReplyShutdown k eo # es) = calls_of es"
  "calls_of (CloseDone # es) = calls_of es"
  "starts_of ((OpStart, a, g) # cs) = a # starts_of cs"
  "starts_of ((OpStop, a, g) # cs) = starts_of cs"
  by (simp_all add: leases_of_def calls_of_def starts_of_def drops_of_def)

lemma quiet_failWaiter [simp]:
  "leases_of (failWaiter env e w) = []" "calls_of (failWaiter env e w) = []"
  by (simp_all add: failWaiter_def)

lemma quiet_failAll [simp]:
  "leases_of (failAll env e ws) = []" "calls_of (failAll env e ws) = []"
  unfolding failAll_def by (induction ws) simp_all

lemma quiet_ReplyShutdown [simp]:
  "leases_of (map (\<lambda>r. ReplyShutdown r e) rs) = []" "calls_of (map (\<lambda>r. ReplyShutdown r e) rs) = []"
  by (induction rs) simp_all

lemma apply_effects_eq:
  "apply_effects es w =
     w\<lparr>w_leases := w_leases w @ leases_of es, w_cancels := w_cancels w @ drops_of es, w_calls := w_calls w @ calls_of es,
       w_resident := w_resident w @ starts_of (calls_of es)\<rparr>"
proof (induction es arbitrary: w)
  case (Cons e es)
  then show ?case
    by (cases "(e, w)" rule: apply_effect.cases) simp_all
qed simp

section \<open>Steps of the goroutine\<close>

text \<open>
  What one step of the goroutine may do as seen from outside: hand out leases of the current
  generation, call \<^verbatim>\<open>Start\<close> when nothing is allocated, or call \<^verbatim>\<open>Stop\<close> on an idle backend.
\<close>

definition local_step :: "sched \<Rightarrow> effect list \<Rightarrow> sched \<Rightarrow> bool" where
  "local_step s es s' \<longleftrightarrow>
     (\<exists>n. leases_of es = replicate n (new_lease s) \<and> calls_of es = [] \<and> key s' = key s
        \<and> sc_operation s' = sc_operation s \<and> op_in_flight s' = op_in_flight s
        \<and> sc_active s' = sc_active s + n
        \<and> sc_upstream s' = sc_upstream s \<and> (n > 0 \<longrightarrow> sc_upstream s \<noteq> None)) \<or>
     (leases_of es = [] \<and> calls_of es = [(OpStart, sc_current s', sc_generation s')]
        \<and> sc_current s = [] \<and> sc_current s' \<noteq> [] \<and> \<not> sc_operation s \<and> sc_operation s'
        \<and> op_in_flight s' = OpStart \<and> sc_active s' = 0) \<or>
     (leases_of es = [] \<and> calls_of es = [(OpStop, sc_current s, sc_generation s)]
        \<and> key s' = key s \<and> sc_current s \<noteq> [] \<and> \<not> sc_operation s \<and> sc_operation s'
        \<and> op_in_flight s' = OpStop \<and> sc_active s = 0 \<and> sc_active s' = 0
        \<and> sc_upstream s' = sc_upstream s)"

lemma local_step_quiet:
  "leases_of es = [] \<Longrightarrow> calls_of es = [] \<Longrightarrow> key s' = key s \<Longrightarrow>
   sc_operation s' = sc_operation s \<Longrightarrow> op_in_flight s' = op_in_flight s \<Longrightarrow>
   sc_active s' = sc_active s \<Longrightarrow> sc_upstream s' = sc_upstream s \<Longrightarrow> local_step s es s'"
  by (auto simp: local_step_def intro!: exI [of _ 0])

subsection \<open>Serving the queue\<close>

lemma serve_leases:
  "serve env l limit ws n = (q, m, es) \<Longrightarrow>
     leases_of es = replicate (m - n) l \<and> calls_of es = [] \<and> n \<le> m"
proof (induction ws arbitrary: n q m es)
  case (Cons w ws)
  then show ?case
    by (fastforce split: if_splits prod.splits simp: Suc_diff_le replicate_append_same
        simp flip: replicate_Suc)
qed simp

lemma serve_limit:
  "serve env l limit ws n = (q, m, es) \<Longrightarrow> limit = 0 \<or> n \<le> limit \<Longrightarrow> limit = 0 \<or> m \<le> limit"
proof (induction ws arbitrary: n q m es)
  case (Cons w ws)
  then show ?case by (fastforce split: if_splits prod.splits)
qed simp

lemma serve_suffix:
  "serve env l limit ws n = (q, m, es) \<Longrightarrow> \<exists>p. ws = p @ q \<and> (\<forall>w\<in>set p. wt_allocation w = l_allocation l)"
proof (induction ws arbitrary: n q m es)
  case (Cons w ws)
  show ?case
  proof (cases "wt_allocation w = l_allocation l \<and> (limit = 0 \<or> n < limit)")
    case True
    then obtain n' es' where "serve env l limit ws n' = (q, m, es')"
      using Cons.prems by (auto split: if_splits prod.splits)
    then obtain p where "ws = p @ q" and "\<forall>w\<in>set p. wt_allocation w = l_allocation l"
      using Cons.IH by blast
    with True show ?thesis by (intro exI [of _ "w # p"]) simp
  next
    case False
    with Cons.prems show ?thesis by (auto split: if_splits)
  qed
qed simp

lemma new_lease_simps [simp]:
  "new_lease (s\<lparr>sc_state := st\<rparr>) = new_lease s" "l_allocation (new_lease s) = sc_current s"
  "l_upstream (new_lease s) = sc_upstream s" "l_generation (new_lease s) = sc_generation s"
  "new_lease (s\<lparr>sc_queue := q\<rparr>) = new_lease s" "\<not> l_released (new_lease s)"
  by (simp_all add: new_lease_def)

lemma limit_of_update [simp]:
  "limit_of (s\<lparr>sc_state := st\<rparr>) a = limit_of s a" "limit_of (s\<lparr>sc_queue := q\<rparr>) a = limit_of s a"
  "limit_of (s\<lparr>sc_active := n\<rparr>) a = limit_of s a" "limit_of (s\<lparr>sc_lastError := e\<rparr>) a = limit_of s a"
  "limit_of (s\<lparr>sc_operation := b\<rparr>) a = limit_of s a" "limit_of (s\<lparr>sc_done := b\<rparr>) a = limit_of s a"
  "limit_of (s\<lparr>sc_operationCancel := b\<rparr>) a = limit_of s a"
  "limit_of (s\<lparr>sc_shuttingDown := b\<rparr>) a = limit_of s a"
  "limit_of (s\<lparr>sc_shutdownReplies := rs\<rparr>) a = limit_of s a"
  "limit_of (s\<lparr>sc_current := c\<rparr>) a = limit_of s a" "limit_of (s\<lparr>sc_upstream := u\<rparr>) a = limit_of s a"
  "limit_of (s\<lparr>sc_generation := g\<rparr>) a = limit_of s a"
  "limit_of (s\<lparr>sc_cleanupError := ce\<rparr>) a = limit_of s a"
  by (simp_all add: limit_of_def)

lemma op_in_flight_update [simp]:
  "op_in_flight (s\<lparr>sc_state := st\<rparr>) = op_in_flight s" "op_in_flight (s\<lparr>sc_queue := q\<rparr>) = op_in_flight s"
  "op_in_flight (s\<lparr>sc_active := n\<rparr>) = op_in_flight s" "op_in_flight (s\<lparr>sc_lastError := e\<rparr>) = op_in_flight s"
  "op_in_flight (s\<lparr>sc_done := b\<rparr>) = op_in_flight s"
  "op_in_flight (s\<lparr>sc_operationCancel := b\<rparr>) = (if b then OpStart else OpStop)"
  "op_in_flight (s\<lparr>sc_shuttingDown := b\<rparr>) = op_in_flight s"
  "op_in_flight (s\<lparr>sc_shutdownReplies := rs\<rparr>) = op_in_flight s"
  "op_in_flight (prune env s) = op_in_flight s"
  by (simp_all add: op_in_flight_def prune_def)

lemma key_update [simp]:
  "key (s\<lparr>sc_state := st\<rparr>) = key s" "key (s\<lparr>sc_queue := q\<rparr>) = key s"
  "key (s\<lparr>sc_active := n\<rparr>) = key s" "key (s\<lparr>sc_lastError := e\<rparr>) = key s"
  "key (s\<lparr>sc_operation := b\<rparr>) = key s" "key (s\<lparr>sc_done := b\<rparr>) = key s"
  "key (s\<lparr>sc_operationCancel := b\<rparr>) = key s" "key (s\<lparr>sc_shuttingDown := b\<rparr>) = key s"
  "key (s\<lparr>sc_shutdownReplies := rs\<rparr>) = key s" "key (s\<lparr>sc_upstream := u\<rparr>) = key s"
  "key (s\<lparr>sc_cleanupError := ce\<rparr>) = key s"
  by (simp_all add: key_def)


subsection \<open>Preservation, one operation at a time\<close>

definition keeps_inv :: "sched \<Rightarrow> sched \<times> effect list \<times> bool \<Rightarrow> bool" where
  "keeps_inv s r \<longleftrightarrow> (case r of (s', es, ret) \<Rightarrow>
     sched_inv s' \<and> local_step s es s' \<and> (ret \<longleftrightarrow> sc_done s') \<and>
     sc_limits s' = sc_limits s \<and> sc_cleanupError s' = sc_cleanupError s \<and>
     (sc_shuttingDown s \<longrightarrow> sc_shuttingDown s'))"

lemma prune_simps [simp]:
  "sc_current (prune env s) = sc_current s" "sc_generation (prune env s) = sc_generation s"
  "sc_active (prune env s) = sc_active s" "sc_operation (prune env s) = sc_operation s"
  "sc_upstream (prune env s) = sc_upstream s" "sc_done (prune env s) = sc_done s"
  "sc_state (prune env s) = sc_state s" "sc_cleanupError (prune env s) = sc_cleanupError s"
  "sc_shuttingDown (prune env s) = sc_shuttingDown s" "key (prune env s) = key s"
  "new_lease (prune env s) = new_lease s" "sc_limits (prune env s) = sc_limits s"
  "sc_queueMax (prune env s) = sc_queueMax s"
  by (simp_all add: prune_def)

lemma sched_inv_filter:
  "sched_inv s \<Longrightarrow> sched_inv (s\<lparr>sc_queue := filter p (sc_queue s)\<rparr>)"
  unfolding sched_inv_def
  by (auto simp: distinct_map_filter intro: order_trans [OF length_filter_le])

lemma sched_inv_prune: "sched_inv s \<Longrightarrow> sched_inv (prune env s)"
  unfolding prune_def by (rule sched_inv_filter)

lemma sched_inv_state [simp]: "sched_inv (s\<lparr>sc_state := st\<rparr>) = sched_inv s"
  by (simp add: sched_inv_def)

lemma keeps_inv_stop:
  assumes "sched_inv s" "\<not> sc_done s" "sc_active s = 0" "sc_current s \<noteq> []" "\<not> sc_operation s"
    and "leases_of es = []" "calls_of es = []"
  shows "keeps_inv s (case stop s of (s, fs) \<Rightarrow> (s, es @ fs, False))"
  using assms by (simp add: keeps_inv_def stop_def sched_inv_def local_step_def)

lemma keeps_inv_progress_shutdown:
  assumes "sched_inv s" "\<not> sc_done s"
  shows "keeps_inv s (progress_shutdown env s)"
proof -
  have empty: "sched_inv (s\<lparr>sc_queue := []\<rparr>)"
    using assms by (simp add: sched_inv_def)
  show ?thesis
  proof (cases "sc_operation s \<or> sc_active s > 0")
    case True
    then show ?thesis
      using assms empty
      by (auto simp: progress_shutdown_def keeps_inv_def Let_def intro!: local_step_quiet)
  next
    case idle: False
    show ?thesis
    proof (cases "sc_current s = []")
      case True
      with idle assms empty show ?thesis
        by (auto simp: progress_shutdown_def keeps_inv_def finish_def sched_inv_def
            intro!: local_step_quiet)
    next
      case False
      with idle assms empty show ?thesis
        by (simp add: progress_shutdown_def keeps_inv_def stop_def sched_inv_def local_step_def key_def)
    qed
  qed
qed

lemma keeps_inv_progress_serve:
  assumes inv: "sched_inv s" and "\<not> sc_done s" "\<not> sc_operation s" "sc_current s \<noteq> []"
    and "sc_cleanupError s = None"
  shows "keeps_inv s (progress_serve env s)"
proof -
  obtain q m es where serve:
    "serve env (new_lease s) (limit_of s (sc_current s)) (sc_queue s) (sc_active s) = (q, m, es)"
    by (metis prod_cases3)
  from serve_suffix [OF serve] obtain p where q: "sc_queue s = p @ q" by auto
  have up: "sc_upstream s \<noteq> None" using assms by (simp add: sched_inv_def)
  have lim: "limit_of s (sc_current s) = 0 \<or> m \<le> limit_of s (sc_current s)"
    using serve_limit [OF serve] inv by (simp add: sched_inv_def)
  have inv': "sched_inv (s\<lparr>sc_state := st, sc_queue := q, sc_active := m\<rparr>)" for st
    using assms lim up q by (auto simp: sched_inv_def)
  have loc: "local_step s es (s\<lparr>sc_state := st, sc_queue := q, sc_active := m\<rparr>)" for st
    using serve_leases [OF serve] up
    by (auto simp: local_step_def intro!: exI [of _ "m - sc_active s"])
  have commute: "s\<lparr>sc_queue := q, sc_active := m, sc_state := st\<rparr> =
      s\<lparr>sc_state := st, sc_queue := q, sc_active := m\<rparr>" for st
    by simp
  show ?thesis
    using serve inv' loc inv' [of "sc_state s"] assms(2)
    by (simp add: progress_serve_def keeps_inv_def Let_def commute)
qed

lemma local_step_prune: "local_step (prune env s) es s' \<longleftrightarrow> local_step s es s'"
  by (simp add: local_step_def)

lemma keeps_inv_progress:
  assumes inv: "sched_inv s" and "\<not> sc_done s"
  shows "keeps_inv s (progress env s)"
proof -
  let ?p = "prune env s"
  have inv': "sched_inv ?p" using inv by (rule sched_inv_prune)
  have lift: "keeps_inv ?p r \<Longrightarrow> keeps_inv s r" for r
    by (simp add: keeps_inv_def local_step_prune split: prod.splits)
  have state: "keeps_inv ?p (?p\<lparr>sc_state := st\<rparr>, [], False)" for st
    using inv' assms(2) by (auto simp: keeps_inv_def intro!: local_step_quiet)
  have same: "keeps_inv ?p (?p, [], False)"
    using inv' assms(2) by (auto simp: keeps_inv_def intro!: local_step_quiet)
  have stop: "sc_active s = 0 \<Longrightarrow> sc_current s \<noteq> [] \<Longrightarrow> \<not> sc_operation s \<Longrightarrow>
      keeps_inv ?p (case stop (?p\<lparr>sc_state := st\<rparr>) of (s, es) \<Rightarrow> (s, es, False))" for st
    using inv' assms(2) by (simp add: keeps_inv_def stop_def sched_inv_def local_step_def key_def)
  have start: "sc_queue ?p = w # ws \<Longrightarrow> sc_current s = [] \<Longrightarrow>
      keeps_inv ?p (case start (wt_allocation w) (?p\<lparr>sc_state := st\<rparr>) of (s, es) \<Rightarrow> (s, es, False))"
    for w ws st
    using inv' assms(2) by (simp add: keeps_inv_def start_def sched_inv_def local_step_def)
  have "?p\<lparr>sc_state := sc_state s\<rparr> = ?p" by (simp add: prune_def)
  with stop [of "sc_state s"] have stop': "sc_active s = 0 \<Longrightarrow> sc_current s \<noteq> [] \<Longrightarrow> \<not> sc_operation s \<Longrightarrow>
      keeps_inv ?p (case stop ?p of (s, es) \<Rightarrow> (s, es, False))" by simp
  have "keeps_inv ?p (progress env s)"
    using keeps_inv_progress_shutdown [OF inv', of env] keeps_inv_progress_serve [OF inv', of env]
      state same stop stop' start assms(2)
    by (simp add: progress_def Let_def split: list.split)
  then show ?thesis by (rule lift)
qed


lemma keeps_inv_onRequest:
  assumes "sched_inv s" "\<not> sc_done s" "acquire_allowed s (wt_allocation w)"
    and "wt_id w \<notin> wt_id ` set (sc_queue s)"
  shows "keeps_inv s (handle env (EvRequest w) s)"
proof -
  have "wt_allocation w \<noteq> []"
    using assms by (auto simp: acquire_allowed_def AllocationLlamaCPP_def sched_inv_def)
  with assms have "sc_cleanupError s = None \<Longrightarrow> length (sc_queue s) < sc_queueMax s \<Longrightarrow>
      sched_inv (s\<lparr>sc_queue := sc_queue s @ [w]\<rparr>)"
    by (auto simp: sched_inv_def)
  with assms show ?thesis
    by (auto simp: keeps_inv_def onRequest_def split: option.splits intro!: local_step_quiet)
qed

lemma drop_first_queue:
  "set (drop_first i ws) \<subseteq> set ws" "length (drop_first i ws) \<le> length ws"
  "distinct (map wt_id ws) \<Longrightarrow> distinct (map wt_id (drop_first i ws))"
proof -
  show sub: "set (drop_first i ws) \<subseteq> set ws" by (induction ws) auto
  show "length (drop_first i ws) \<le> length ws" by (induction ws) auto
  have "wt_id ` set (drop_first i vs) \<subseteq> wt_id ` set vs" for vs :: "waiter list"
    by (induction vs) auto
  then show "distinct (map wt_id ws) \<Longrightarrow> distinct (map wt_id (drop_first i ws))"
    by (induction ws) (auto simp: subset_iff)
qed

lemma keeps_inv_onCancel:
  assumes "sched_inv s" "\<not> sc_done s"
  shows "keeps_inv s (handle env (EvCancel i) s)"
proof -
  have "sched_inv (s\<lparr>sc_queue := drop_first i (sc_queue s)\<rparr>)"
    using assms drop_first_queue [where i = i and ws = "sc_queue s"]
    by (auto simp: sched_inv_def subset_iff)
  with assms show ?thesis
    by (auto simp: keeps_inv_def onCancel_def intro!: local_step_quiet)
qed

lemma keeps_inv_onFailure:
  assumes "sched_inv s" "\<not> sc_done s"
  shows "keeps_inv s (handle env (EvFailure ev e) s)"
  using assms
  by (auto simp: keeps_inv_def onFailure_def sched_inv_def intro!: local_step_quiet)

lemma keeps_inv_onStatus:
  assumes "sched_inv s" "\<not> sc_done s"
  shows "keeps_inv s (handle env (EvStatus i) s)"
  using assms by (auto simp: keeps_inv_def onStatus_def intro!: local_step_quiet)

lemma keeps_inv_onShutdown:
  assumes "sched_inv s" "\<not> sc_done s"
  shows "keeps_inv s (handle env (EvShutdown i) s)"
  using assms
  by (auto simp: keeps_inv_def onShutdown_def Let_def sched_inv_def intro!: local_step_quiet)

subsection \<open>A lifecycle call returns\<close>


definition op_done :: "sched \<Rightarrow> bool \<Rightarrow> sched \<times> effect list \<times> bool \<Rightarrow> bool" where
  "op_done s resident r \<longleftrightarrow> (case r of (s', es, ret) \<Rightarrow>
     sched_inv s' \<and> leases_of es = [] \<and> calls_of es = [] \<and> \<not> sc_operation s' \<and>
     sc_active s' = 0 \<and> (ret \<longleftrightarrow> sc_done s') \<and> sc_generation s' = sc_generation s \<and>
     sc_limits s' = sc_limits s \<and> sc_shuttingDown s' = sc_shuttingDown s \<and>
     (sc_current s' = sc_current s \<or> sc_current s' = [] \<and> \<not> resident))"

abbreviation op_over :: "sched \<Rightarrow> sched" where
  "op_over s \<equiv> s\<lparr>sc_operation := False, sc_operationCancel := False\<rparr>"

lemma op_done_onStartFailed:
  assumes "sched_inv s" "\<not> sc_done s" "sc_operation s" "asCleanup e \<or> \<not> resident"
    and "sc_operationCancel s" "leases_of pre = []" "calls_of pre = []"
  shows "op_done s resident (case onStartFailed env e (op_over s) of (s', es) \<Rightarrow> (s', pre @ es, False))"
proof -
  have "length (filter P (sc_queue s)) \<le> sc_queueMax s"
    and "distinct (map wt_id (filter P (sc_queue s)))" for P
    using assms(1) by (auto simp: sched_inv_def distinct_map_filter intro: order_trans [OF length_filter_le])
  with assms show ?thesis
    by (auto simp: op_done_def onStartFailed_def Let_def sched_inv_def limit_of_def)
qed

lemma op_done_onStopFailed:
  assumes "sched_inv s" "\<not> sc_done s" "sc_operation s" "leases_of pre = []" "calls_of pre = []"
  shows "op_done s resident
    (case onStopFailed env e (op_over s) of (s', es, ret) \<Rightarrow> (s', pre @ es, ret))"
  using assms by (auto simp: op_done_def onStopFailed_def finish_def Let_def sched_inv_def)

lemma op_done_onResult:
  assumes inv: "sched_inv s" "\<not> sc_done s" "sc_operation s"
    and match: "or_allocation r = sc_current s" "or_generation r = sc_generation s"
    and kind: "or_kind r = op_in_flight s"
    and contract: "lifecycle_contract (or_kind r) (or_upstream r) (or_err r) resident"
  shows "op_done s resident (onResult env r s)"
proof -
  let ?c = "if sc_operationCancel s then [CancelOperation] else []"
  have quiet: "leases_of ?c = []" "calls_of ?c = []" by simp_all
  have started: "op_done s resident (onStarted u (op_over s), ?c, False)" for u
    using inv by (auto simp: op_done_def onStarted_def sched_inv_def)
  have stopped: "\<not> resident \<Longrightarrow> op_done s resident (onStopped (op_over s), ?c, False)"
    using inv by (auto simp: op_done_def onStopped_def sched_inv_def limit_of_def)
  note failed = op_done_onStartFailed [OF inv _ _ quiet] op_done_onStopFailed [OF inv quiet]
  show ?thesis
    using match kind contract started stopped failed
    by (cases "or_kind r"; cases "or_err r"; cases "or_upstream r")
      (simp_all add: onResult_def Let_def op_in_flight_def split: if_splits)
qed

section \<open>The invariant holds in every reachable state\<close>

lemma outstanding_simps [simp]:
  "outstanding (w\<lparr>w_sched := s\<rparr>) = outstanding w" "outstanding (w\<lparr>w_pc := p\<rparr>) = outstanding w"
  "outstanding (w\<lparr>w_calls := cs\<rparr>) = outstanding w" "outstanding (w\<lparr>w_resident := rs\<rparr>) = outstanding w"
  by (simp_all add: outstanding_def held_def)

lemma world_inv_cancels [simp]: "world_inv (w\<lparr>w_cancels := cs\<rparr>) = world_inv w"
  by (simp add: world_inv_def outstanding_def held_def)

text \<open>A step of the goroutine that \<open>keeps_inv\<close> describes keeps the invariant of the system.\<close>

lemma world_inv_local:
  assumes inv: "world_inv w" and keeps: "keeps_inv (w_sched w) (s', es, ret)"
    and pc: "p = Returned \<longleftrightarrow> ret"
  shows "world_inv (apply_effects es (w\<lparr>w_sched := s', w_pc := p\<rparr>))"
proof -
  let ?s = "w_sched w"
  from keeps consider
    (grant) n where "leases_of es = replicate n (new_lease ?s)" "calls_of es = []" "key s' = key ?s"
      "sc_operation s' = sc_operation ?s" "op_in_flight s' = op_in_flight ?s"
      "sc_active s' = sc_active ?s + n" "sc_upstream s' = sc_upstream ?s"
  | (start) "leases_of es = []" "calls_of es = [(OpStart, sc_current s', sc_generation s')]"
      "sc_current ?s = []" "sc_current s' \<noteq> []" "\<not> sc_operation ?s" "sc_operation s'"
      "op_in_flight s' = OpStart" "sc_active s' = 0"
  | (stop) "leases_of es = []" "calls_of es = [(OpStop, sc_current ?s, sc_generation ?s)]"
      "key s' = key ?s" "\<not> sc_operation ?s" "sc_operation s'" "op_in_flight s' = OpStop"
      "sc_active ?s = 0" "sc_active s' = 0" "sc_upstream s' = sc_upstream ?s"
    by (auto simp: keeps_inv_def local_step_def)
  then show ?thesis
  proof cases
    case grant
    then show ?thesis
      using inv keeps pc
      by (auto simp: apply_effects_eq world_inv_def keeps_inv_def Let_def key_def outstanding_def
          held_def lease_key_def)
  next
    case start
    then have "sc_active ?s = 0" using inv by (simp add: world_inv_def sched_inv_def Let_def)
    then have "outstanding w = []" "held w = []"
      using inv by (simp_all add: world_inv_def outstanding_def Let_def)
    with start show ?thesis
      using inv keeps pc
      by (simp add: apply_effects_eq world_inv_def keeps_inv_def Let_def held_def outstanding_def)
  next
    case stop
    then show ?thesis
      using inv keeps pc
      by (auto simp: apply_effects_eq world_inv_def keeps_inv_def Let_def key_def held_def outstanding_def)
  qed
qed


lemma world_inv_client_release:
  assumes inv: "world_inv w" and "i < length (w_leases w)"
    and rel: "Release (Some (w_leases w ! i)) = (Some l, evs)"
  shows "world_inv (w\<lparr>w_leases := (w_leases w)[i := l], w_releases := w_releases w @ evs\<rparr>)"
proof (cases "l_released (w_leases w ! i)")
  case True
  with rel have "l = w_leases w ! i" "evs = []" by auto
  with inv show ?thesis by (simp add: world_inv_def outstanding_def held_def)
next
  case False
  let ?ls = "w_leases w" and ?held = "filter (\<lambda>l. \<not> l_released l)"
  from False rel have l: "l_released l" and evs: "evs = [lease_key (?ls ! i)]" by auto
  have split: "?ls = take i ?ls @ ?ls ! i # drop (Suc i) ?ls"
    using assms(2) by (rule id_take_nth_drop)
  have upd: "?ls[i := l] = take i ?ls @ l # drop (Suc i) ?ls"
    using assms(2) by (rule upd_conv_take_nth_drop)
  have "?held ?ls = ?held (take i ?ls) @ ?ls ! i # ?held (drop (Suc i) ?ls)"
    using False by (subst split) simp
  moreover have "?held (?ls[i := l]) = ?held (take i ?ls) @ ?held (drop (Suc i) ?ls)"
    using l by (simp add: upd)
  ultimately show ?thesis
    using inv evs by (auto simp: world_inv_def outstanding_def held_def Let_def)
qed

lemma world_inv_release:
  assumes inv: "world_inv w" and pc: "w_pc w = AtSelect" and ev: "w_releases w = xs @ ev # ys"
  shows "world_inv (w\<lparr>w_sched := onRelease ev (w_sched w), w_pc := AtProgress,
                      w_releases := xs @ ys\<rparr>)"
proof -
  let ?s = "w_sched w"
  have "ev = key ?s" and act: "sc_active ?s = Suc (length (map lease_key (held w)) + length (xs @ ys))"
    using inv ev by (auto simp: world_inv_def outstanding_def Let_def)
  then have step: "onRelease ev ?s = ?s\<lparr>sc_active := sc_active ?s - 1\<rparr>"
    by (simp add: onRelease_def)
  have si: "sched_inv ?s" and "\<not> sc_operation ?s" and "sc_cleanupError ?s = None"
    using inv act by (auto simp: world_inv_def sched_inv_def Let_def)
  then have "sched_inv (?s\<lparr>sc_active := sc_active ?s - 1\<rparr>)"
    by (auto simp: sched_inv_def)
  then show ?thesis
    using inv pc ev act step
    by (auto simp: world_inv_def outstanding_def held_def Let_def)
qed

lemma world_inv_result:
  assumes inv: "world_inv w" and pc: "w_pc w = AtSelect"
    and call: "w_calls w = xs @ (or_kind r, or_allocation r, or_generation r) # ys"
    and contract: "lifecycle_contract (or_kind r) (or_upstream r) (or_err r) resident"
    and res: "onResult env r (w_sched w) = (s', es, ret)"
  shows "world_inv (apply_effects es
       (w\<lparr>w_sched := s', w_pc := resume ret, w_calls := xs @ ys,
          w_resident := (if resident then w_resident w
                         else remove1 (or_allocation r) (w_resident w))\<rparr>))"
proof -
  let ?s = "w_sched w"
  have op: "sc_operation ?s" and calls: "xs = []" "ys = []"
    and r: "or_kind r = op_in_flight ?s" "or_allocation r = sc_current ?s"
      "or_generation r = sc_generation ?s"
    using inv call by (auto simp: world_inv_def Let_def append_eq_Cons_conv split: if_splits)
  have s: "sched_inv ?s" "\<not> sc_done ?s" "sc_active ?s = 0"
    using inv pc op by (auto simp: world_inv_def sched_inv_def Let_def)
  have "op_done ?s resident (s', es, ret)"
    using op_done_onResult [OF s(1,2) op r(2,3,1) contract, of env] res by simp
  moreover have "outstanding w = []"
    using inv s(3) by (simp add: world_inv_def Let_def)
  ultimately show ?thesis
    using inv calls r
    by (auto simp: op_done_def apply_effects_eq world_inv_def Let_def resume_def outstanding_def
        held_def)
qed

lemma world_inv_handle:
  assumes "world_inv w" "keeps_inv (w_sched w) (handle env ev (w_sched w))"
    and "handle env ev (w_sched w) = (s, es, ret)"
  shows "world_inv (apply_effects es (w\<lparr>w_sched := s, w_pc := resume ret\<rparr>))"
  using assms by (intro world_inv_local) (auto simp: resume_def)

lemma world_inv_select:
  "world_inv w \<Longrightarrow> w_pc w \<noteq> Returned \<Longrightarrow> sched_inv (w_sched w) \<and> \<not> sc_done (w_sched w)"
  by (simp add: world_inv_def Let_def)

lemma world_inv_step:
  assumes inv: "world_inv w" and step: "world_step w w'"
  shows "world_inv w'"
  using step
proof cases
  case (ws_progress env s es ret)
  then have "keeps_inv (w_sched w) (s, es, ret)"
    using keeps_inv_progress world_inv_select [OF inv] by (metis pc.distinct(3))
  then show ?thesis
    unfolding ws_progress by (intro world_inv_local inv) auto
next
  case (ws_request r env s es ret)
  with world_inv_select [OF inv] show ?thesis
    unfolding ws_request(1)
    by (intro world_inv_handle [OF inv keeps_inv_onRequest ws_request(5)]) auto
next
  case (ws_cancel xs i ys env s es ret)
  have "keeps_inv (w_sched w) (handle env (EvCancel i) (w_sched w))"
    using world_inv_select [OF inv] ws_cancel(2) keeps_inv_onCancel by (metis pc.distinct(5))
  then show ?thesis
    using world_inv_handle [OF inv, of env "EvCancel i" s es ret] ws_cancel by simp
next
  case (ws_client_cancel i)
  then show ?thesis using inv by simp
next
  case (ws_client_release i l evs)
  then show ?thesis using inv world_inv_client_release by simp
next
  case (ws_release xs ev ys env s es ret)
  then show ?thesis
    using world_inv_release [OF inv] by (auto simp: resume_def)
next
  case (ws_failure env ev e s es ret)
  with world_inv_select [OF inv] show ?thesis
    unfolding ws_failure(1)
    by (intro world_inv_handle [OF inv keeps_inv_onFailure ws_failure(3)]) auto
next
  case (ws_result xs r ys resident env s es ret)
  then show ?thesis using world_inv_result [OF inv] by simp
next
  case (ws_status env i s es ret)
  with world_inv_select [OF inv] show ?thesis
    unfolding ws_status(1)
    by (intro world_inv_handle [OF inv keeps_inv_onStatus ws_status(3)]) auto
next
  case (ws_shutdown env i s es ret)
  with world_inv_select [OF inv] show ?thesis
    unfolding ws_shutdown(1)
    by (intro world_inv_handle [OF inv keeps_inv_onShutdown ws_shutdown(3)]) auto
qed

lemma world_inv_init: "init_world w \<Longrightarrow> world_inv w"
proof -
  assume "init_world w"
  then obtain queueMax limits s where new: "NewScheduler False queueMax limits = Inr s"
    and w: "w = \<lparr>w_sched = s, w_pc = AtProgress, w_leases = [], w_releases = [], w_cancels = [], w_calls = [],
                w_resident = []\<rparr>"
    by (auto simp: init_world_def)
  have "find (\<lambda>(a, l). a = [] \<or> l < 0) limits = None"
    using new by (auto simp: NewScheduler_def split: if_splits option.splits)
  then have "lookup (map (\<lambda>(a, l). (a, nat l)) limits) [] = None"
    by (fastforce simp: find_None_iff map_of_eq_None_iff)
  with new show ?thesis
    by (auto simp: w world_inv_def sched_inv_def outstanding_def held_def NewScheduler_def
        limit_of_def split: if_splits option.splits)
qed

interpretation gateway: state_machine init_world world_step world_inv
  by unfold_locales (fact world_inv_init, fact world_inv_step)

section \<open>No lost wakeups\<close>

text \<open>
  After the head of the queue was served, whoever is still queued waits for a lease to be released
  or for a cancellation that the served client owes.
\<close>

lemma serve_progress:
  "serve env l limit ws n = (q, m, es) \<Longrightarrow> n \<le> m \<and>
     (q \<noteq> [] \<longrightarrow> (limit > 0 \<and> m \<ge> limit) \<or> wt_allocation (hd q) \<noteq> l_allocation l) \<and>
     (n < m \<or> drops_of es \<noteq> [] \<or> q = ws)"
proof (induction ws arbitrary: n q m es)
  case (Cons w ws)
  show ?case
  proof (cases "wt_allocation w = l_allocation l \<and> (limit = 0 \<or> n < limit)")
    case True
    then show ?thesis using Cons by (fastforce split: if_splits prod.splits)
  next
    case False
    then show ?thesis using Cons.prems by (auto split: if_splits)
  qed
qed simp

definition awaited :: "sched \<times> effect list \<times> bool \<Rightarrow> bool" where
  "awaited r \<longleftrightarrow> (case r of (s, es, ret) \<Rightarrow> ret \<or> sc_operation s \<or> sc_active s > 0 \<or>
     \<not> sc_shuttingDown s \<and> (sc_queue s = [] \<or> drops_of es \<noteq> []))"

lemma awaited_progress_shutdown: "awaited (progress_shutdown env s)"
  by (simp add: awaited_def progress_shutdown_def Let_def stop_def finish_def)

lemma awaited_progress_serve:
  assumes "sc_queue s = w # ws" "wt_allocation w = sc_current s" "\<not> sc_shuttingDown s"
    and "limit_of s (sc_current s) = 0 \<or> sc_active s \<le> limit_of s (sc_current s)"
  shows "awaited (progress_serve env s)"
proof -
  obtain q m es where serve:
    "serve env (new_lease s) (limit_of s (sc_current s)) (sc_queue s) (sc_active s) = (q, m, es)"
    by (metis prod_cases3)
  from serve_progress [OF serve] have "m > 0 \<or> q = [] \<or> drops_of es \<noteq> []"
    using assms(1,2) by (cases "m > 0") auto
  with serve assms(3) show ?thesis
    by (auto simp: awaited_def progress_serve_def Let_def)
qed

lemma awaited_progress:
  assumes "sched_inv s"
  shows "awaited (progress env s)"
proof -
  have inv: "sched_inv (prune env s)" using assms by (rule sched_inv_prune)
  note serve = awaited_progress_serve [of "prune env s", where env = env]
  show ?thesis
    using inv serve awaited_progress_shutdown [of env "prune env s"]
    by (auto simp: progress_def Let_def awaited_def [of "(_, _, _)"] stop_def start_def
        sched_inv_def split: list.split)
qed

lemma wake_inv_step:
  assumes "world_inv w \<and> wake_inv w" "world_step w w'"
  shows "world_inv w' \<and> wake_inv w'"
proof
  show "world_inv w'" using assms world_inv_step by blast
  show "wake_inv w'" using assms(2)
  proof cases
    case (ws_progress env s es ret)
    then have "awaited (s, es, ret)"
      using assms(1) awaited_progress [of "w_sched w" env] by (simp add: world_inv_def Let_def)
    with ws_progress show ?thesis
      by (auto simp: wake_inv_def awaited_def apply_effects_eq)
  qed (use assms(1) in \<open>auto simp: wake_inv_def apply_effects_eq resume_def Let_def\<close>)
qed

interpretation wakeful: state_machine init_world world_step "\<lambda>w. world_inv w \<and> wake_inv w"
proof
  show "init_world w \<Longrightarrow> world_inv w \<and> wake_inv w" for w
    using world_inv_init by (auto simp: wake_inv_def init_world_def)
qed (fact wake_inv_step)

end
