(* ===== verification/SchedulerProps.thy ===== *)
theory SchedulerProps
  imports SchedulerWorld
begin

text \<open>
  The properties of the scheduler: what holds in every reachable state of the system of
  \<open>SchedulerWorld\<close>, the refinement to a small abstract allocation machine, and the end of a
  shutdown. An executable form of the steps gives concrete reachable states.
\<close>

section \<open>Executable traces\<close>

datatype action =
    Progress client_env
  | Request client_env waiter
  | CancelMsg client_env
  | ClientRelease nat
  | ReleaseMsg client_env
  | Result client_env "string option" "gerror option" bool
  | ShutdownMsg client_env nat

text \<open>
  One step chosen by an action; messages are received from the front of their queue. \<open>None\<close> where
  the step is not enabled.
\<close>

definition select_step :: "client_env \<Rightarrow> event \<Rightarrow> world \<Rightarrow> world" where
  "select_step env ev w = (case handle env ev (w_sched w) of (s, es, ret) \<Rightarrow>
     apply_effects es (w\<lparr>w_sched := s, w_pc := resume ret\<rparr>))"

fun perform :: "action \<Rightarrow> world \<Rightarrow> world option" where
  "perform (Progress env) w = (if w_pc w \<noteq> AtProgress then None else
     case progress env (w_sched w) of (s, es, ret) \<Rightarrow>
       Some (apply_effects es (w\<lparr>w_sched := s, w_pc := (if ret then Returned else AtSelect)\<rparr>)))"
| "perform (Request env r) w =
     (if w_pc w \<noteq> AtSelect \<or> \<not> acquire_allowed (w_sched w) (wt_allocation r)
         \<or> list_ex (\<lambda>q. wt_id q = wt_id r) (sc_queue (w_sched w)) then None
      else Some (select_step env (EvRequest r) w))"
| "perform (CancelMsg env) w = (case (w_pc w, w_cancels w) of
     (AtSelect, i # is) \<Rightarrow> Some (select_step env (EvCancel i) (w\<lparr>w_cancels := is\<rparr>))
   | _ \<Rightarrow> None)"
| "perform (ClientRelease i) w = (if i < length (w_leases w) then
     (case Release (Some (w_leases w ! i)) of
        (Some l, evs) \<Rightarrow>
          Some (w\<lparr>w_leases := (w_leases w)[i := l], w_releases := w_releases w @ evs\<rparr>)
      | _ \<Rightarrow> None) else None)"
| "perform (ReleaseMsg env) w = (case (w_pc w, w_releases w) of
     (AtSelect, ev # evs) \<Rightarrow> Some (select_step env (EvRelease ev) (w\<lparr>w_releases := evs\<rparr>))
   | _ \<Rightarrow> None)"
| "perform (Result env up err resident) w = (case (w_pc w, w_calls w) of
     (AtSelect, (k, a, g) # cs) \<Rightarrow>
       (if lifecycle_contract k up err resident then
          Some (select_step env (EvResult \<lparr>or_kind = k, or_allocation = a, or_generation = g,
                                     or_upstream = up, or_err = err\<rparr>)
            (w\<lparr>w_calls := cs, w_resident := (if resident then w_resident w
                                            else remove1 a (w_resident w))\<rparr>))
        else None)
   | _ \<Rightarrow> None)"
| "perform (ShutdownMsg env i) w = (if w_pc w = AtSelect then Some (select_step env (EvShutdown i) w)
     else None)"

lemma perform_step: "perform act w = Some w' \<Longrightarrow> world_step w w'"
proof (cases act)
  case (Request env r)
  assume "perform act w = Some w'"
  with Request show ?thesis
    by (auto simp: select_step_def list_ex_iff simp del: handle.simps split: if_splits prod.splits
        intro!: ws_request)
next
  case (CancelMsg env)
  assume "perform act w = Some w'"
  then obtain m ms s es ret where
    h: "handle env (EvCancel m) (w_sched w) = (s, es, ret)"
    and w: "w_pc w = AtSelect" "w_cancels w = m # ms"
      "w' = apply_effects es (w\<lparr>w_cancels := ms, w_sched := s, w_pc := resume ret\<rparr>)"
    by (auto simp: CancelMsg select_step_def simp del: handle.simps
        split: pc.splits list.splits prod.splits)
  have eq: "w\<lparr>w_cancels := ms, w_sched := s, w_pc := resume ret\<rparr> =
      w\<lparr>w_sched := s, w_pc := resume ret, w_cancels := ms\<rparr>" by simp
  show ?thesis using ws_cancel [OF w(1) _ h, where xs = "[]" and ys = ms] w(2) unfolding w(3) eq by simp
next
  case (ReleaseMsg env)
  assume "perform act w = Some w'"
  then obtain m ms s es ret where
    h: "handle env (EvRelease m) (w_sched w) = (s, es, ret)"
    and w: "w_pc w = AtSelect" "w_releases w = m # ms"
      "w' = apply_effects es (w\<lparr>w_releases := ms, w_sched := s, w_pc := resume ret\<rparr>)"
    by (auto simp: ReleaseMsg select_step_def simp del: handle.simps
        split: pc.splits list.splits prod.splits)
  have eq: "w\<lparr>w_releases := ms, w_sched := s, w_pc := resume ret\<rparr> =
      w\<lparr>w_sched := s, w_pc := resume ret, w_releases := ms\<rparr>" by simp
  show ?thesis using ws_release [OF w(1) _ h, where xs = "[]" and ys = ms] w(2) unfolding w(3) eq by simp
next
  case (Result env up err resident)
  assume "perform act w = Some w'"
  then obtain k a g cs s es ret where
    h: "handle env (EvResult \<lparr>or_kind = k, or_allocation = a, or_generation = g,
          or_upstream = up, or_err = err\<rparr>) (w_sched w) = (s, es, ret)"
    and w: "w_pc w = AtSelect" "w_calls w = (k, a, g) # cs" "lifecycle_contract k up err resident"
      "w' = apply_effects es (w\<lparr>w_calls := cs, w_resident := (if resident then w_resident w
              else remove1 a (w_resident w)), w_sched := s, w_pc := resume ret\<rparr>)"
    by (auto simp: Result select_step_def simp del: handle.simps
        split: pc.splits list.splits prod.splits if_splits)
  have eq: "w\<lparr>w_calls := cs, w_resident := rs, w_sched := s, w_pc := resume ret\<rparr> =
      w\<lparr>w_sched := s, w_pc := resume ret, w_calls := cs, w_resident := rs\<rparr>" for rs by simp
  show ?thesis
    using ws_result [OF w(1) _ _ h, where xs = "[]" and ys = cs and resident = resident] w(2,3)
    unfolding w(4) eq by (simp only: op_result.select_convs append_Nil simp_thms)
next
  case (Progress env)
  assume "perform act w = Some w'"
  with Progress show ?thesis
    using ws_progress [of w env] by (auto split: if_splits prod.splits)
qed (auto simp: select_step_def simp del: handle.simps Release.simps
    split: if_splits prod.splits option.splits intro: ws_client_release ws_shutdown)

fun trace :: "action list \<Rightarrow> world \<Rightarrow> world option" where
  "trace [] w = Some w"
| "trace (a # as) w = (case perform a w of None \<Rightarrow> None | Some w' \<Rightarrow> trace as w')"

lemma trace_reachable:
  "trace as w = Some w' \<Longrightarrow> reachable_world w \<Longrightarrow> reachable_world w'"
proof (induction as arbitrary: w)
  case (Cons a as)
  then obtain v where "perform a w = Some v" "trace as v = Some w'" by (auto split: option.splits)
  with Cons show ?case by (meson perform_step reachable_step)
qed simp

definition boot :: "int \<Rightarrow> (allocation \<times> int) list \<Rightarrow> world option" where
  "boot queueMax limits = (case NewScheduler False queueMax limits of
     Inl _ \<Rightarrow> None
   | Inr s \<Rightarrow> Some \<lparr>w_sched = s, w_pc = AtProgress, w_leases = [], w_releases = [], w_cancels = [],
                    w_calls = [], w_resident = []\<rparr>)"

lemma boot_reachable: "boot n ls = Some w \<Longrightarrow> reachable_world w"
  unfolding boot_def init_world_def
  by (rule reachable_init) (cases "NewScheduler False n ls"; simp; blast)

definition explore :: "int \<Rightarrow> (allocation \<times> int) list \<Rightarrow> action list \<Rightarrow> world option" where
  "explore n ls as = (case boot n ls of None \<Rightarrow> None | Some w \<Rightarrow> trace as w)"

lemma explore_reachable: "explore n ls as = Some w \<Longrightarrow> reachable_world w"
  by (auto simp: explore_def split: option.splits intro: trace_reachable boot_reachable)

text \<open>
  A run used by the witnesses: two requests for the allocation \<^verbatim>\<open>llama-cpp\<close> with one lease allowed,
  a successful start, and one lease handed out.
\<close>

definition ok_env :: client_env where
  "ok_env = \<lparr>ctxLive = (\<lambda>_. True), receives = (\<lambda>_. True)\<rparr>"

definition demo_actions :: "action list" where
  "demo_actions = [Progress ok_env,
     Request ok_env \<lparr>wt_id = 1, wt_allocation = ''llama-cpp''\<rparr>, Progress ok_env,
     Request ok_env \<lparr>wt_id = 2, wt_allocation = ''llama-cpp''\<rparr>, Progress ok_env,
     Result ok_env (Some ''http://u'') None True, Progress ok_env]"

definition demo_world :: world where
  "demo_world = the (explore 4 [(''llama-cpp'', 1)] demo_actions)"

lemmas run_defs = explore_def boot_def NewScheduler_def ok_env_def select_step_def resume_def
  progress_def progress_serve_def progress_shutdown_def prune_def start_def stop_def finish_def
  onRequest_def acquire_allowed_def AllocationLlamaCPP_def onResult_def onStarted_def onStopped_def
  onShutdown_def limit_of_def new_lease_def onRelease_def key_def lease_key_def failAll_def
  failWaiter_def

lemma demo_world_eq:
  "explore 4 [(''llama-cpp'', 1)] demo_actions = Some demo_world"
  "demo_world =
   \<lparr>w_sched = \<lparr>sc_queueMax = 4, sc_limits = [(''llama-cpp'', 1)], sc_state = StateReady,
      sc_current = ''llama-cpp'', sc_upstream = Some ''http://u'', sc_generation = 1,
      sc_active = 1, sc_queue = [\<lparr>wt_id = 2, wt_allocation = ''llama-cpp''\<rparr>],
      sc_operation = False, sc_operationCancel = False, sc_shuttingDown = False,
      sc_shutdownReplies = [], sc_lastError = [], sc_cleanupError = None, sc_done = False\<rparr>,
    w_pc = AtSelect,
    w_leases = [\<lparr>l_upstream = Some ''http://u'', l_allocation = ''llama-cpp'', l_generation = 1,
                 l_released = False, l_failed = False\<rparr>],
    w_releases = [], w_cancels = [], w_calls = [], w_resident = [''llama-cpp'']\<rparr>"
  by (simp_all add: demo_world_def demo_actions_def run_defs Let_def)

lemma demo_reachable: "reachable_world demo_world"
  using demo_world_eq(1) by (rule explore_reachable)

section \<open>Safety of the allocation\<close>

lemmas reachable_parts = gateway.reachable_inv [unfolded world_inv_def Let_def]

text \<open>
  C1: in every reachable state at most one backend may occupy the accelerator, and it is the
  allocation the scheduler holds as current.
\<close>

theorem one_backend_resident:
  assumes "reachable_world w"
  shows "length (w_resident w) \<le> 1 \<and> (\<forall>a\<in>set (w_resident w). a = sc_current (w_sched w) \<and> a \<noteq> [])"
  using reachable_parts [OF assms] by auto

theorem one_backend_resident_witness:
  "w_resident demo_world = [''llama-cpp''] \<and> length (w_resident demo_world) \<le> 1 \<and>
   sc_current (w_sched demo_world) = ''llama-cpp''"
  using one_backend_resident [OF demo_reachable] by (simp add: demo_world_eq(2))

text \<open>
  C2: a lifecycle call (a start or a stop) is in flight only on the current allocation and
  generation, at most one at a time, and never while a client holds a lease or a release is
  still on its way: the backend is drained before it is stopped.
\<close>

theorem lifecycle_call_drained:
  assumes "reachable_world w" "(k, a, g) \<in> set (w_calls w)"
  shows "w_calls w = [(k, a, g)] \<and> a = sc_current (w_sched w) \<and> g = sc_generation (w_sched w) \<and>
         held w = [] \<and> w_releases w = []"
proof -
  note inv = reachable_parts [OF assms(1)]
  have op: "sc_operation (w_sched w)" using inv assms(2) by (auto split: if_splits)
  then have "sc_active (w_sched w) = 0" using inv by (simp add: sched_inv_def)
  then have "outstanding w = []" using inv by simp
  then show ?thesis using inv assms(2) op by (simp add: outstanding_def)
qed

definition starting_world :: world where
  "starting_world = the (explore 4 [(''llama-cpp'', 1)] (take 3 demo_actions))"

lemma starting_world_eq:
  "explore 4 [(''llama-cpp'', 1)] (take 3 demo_actions) = Some starting_world"
  "w_calls starting_world = [(OpStart, ''llama-cpp'', 1)]"
  by (simp_all add: starting_world_def demo_actions_def run_defs Let_def)

theorem lifecycle_call_drained_witness:
  "w_calls starting_world = [(OpStart, ''llama-cpp'', 1)] \<and> held starting_world = []
     \<and> w_releases starting_world = []"
  using lifecycle_call_drained [OF explore_reachable [OF starting_world_eq(1)], of OpStart "''llama-cpp''" 1]
  by (simp add: starting_world_eq(2))

text \<open>
  C3: the scheduler's count of active requests is the number of leases that clients hold plus the
  releases still in flight; all of them belong to the current generation; the count respects the
  concurrency limit of the allocation; and every held lease carries the URL of the running backend.
\<close>

theorem leases_accounted:
  assumes "reachable_world w"
  shows "sc_active (w_sched w) = length (held w) + length (w_releases w) \<and>
    (\<forall>e\<in>set (outstanding w). e = key (w_sched w)) \<and>
    (limit_of (w_sched w) (sc_current (w_sched w)) = 0 \<or>
       sc_active (w_sched w) \<le> limit_of (w_sched w) (sc_current (w_sched w))) \<and>
    (\<forall>l\<in>set (held w). l_upstream l = sc_upstream (w_sched w) \<and> l_upstream l \<noteq> None)"
proof -
  note inv = reachable_parts [OF assms]
  have "held w \<noteq> [] \<Longrightarrow> sc_upstream (w_sched w) \<noteq> None"
    using inv by (auto simp: sched_inv_def outstanding_def)
  then show ?thesis
    using inv by (auto simp: outstanding_def sched_inv_def)
qed

theorem leases_accounted_witness:
  "length (held demo_world) = 1 \<and> sc_active (w_sched demo_world) = length (held demo_world)"
  using leases_accounted [OF demo_reachable] by (simp add: demo_world_eq(2) held_def)

text \<open>
  the queue never exceeds its configured bound and never holds two requests with the same id,
  and a request that finds it full is answered with the queue-full error and changes nothing.
\<close>

theorem queue_bounded:
  assumes "reachable_world w"
  shows "length (sc_queue (w_sched w)) \<le> sc_queueMax (w_sched w) \<and>
    distinct (map wt_id (sc_queue (w_sched w))) \<and>
    (length (sc_queue (w_sched w)) = sc_queueMax (w_sched w) \<and> \<not> sc_shuttingDown (w_sched w) \<and>
     sc_cleanupError (w_sched w) = None \<and> receives env (wt_id r) \<longrightarrow>
       handle env (EvRequest r) (w_sched w) = (w_sched w, [Reply (wt_id r) (Inl ErrQueueFull)], False))"
  using reachable_parts [OF assms] by (auto simp: sched_inv_def onRequest_def failWaiter_def)

theorem queue_bounded_witness:
  "length (sc_queue (w_sched demo_world)) = 1 \<and> sc_queueMax (w_sched demo_world) = 4 \<and>
   length (sc_queue (w_sched demo_world)) \<le> sc_queueMax (w_sched demo_world)"
  using queue_bounded [OF demo_reachable] by (simp add: demo_world_eq(2))

lemma wakeup_owed:
  assumes "reachable_world w" "w_pc w = AtSelect"
    and "sc_queue (w_sched w) \<noteq> [] \<or> sc_shuttingDown (w_sched w)"
  shows "w_calls w \<noteq> [] \<or> outstanding w \<noteq> [] \<or>
         \<not> sc_shuttingDown (w_sched w) \<and> w_cancels w \<noteq> []"
proof -
  have inv: "world_inv w" "wake_inv w" using wakeful.reachable_inv [OF assms(1)] by auto
  then have "length (outstanding w) = sc_active (w_sched w)"
    "sc_operation (w_sched w) \<Longrightarrow> w_calls w \<noteq> []"
    by (auto simp: world_inv_def Let_def)
  then show ?thesis
    using inv(2) assms(2,3) by (auto simp: wake_inv_def Let_def)
qed

text \<open>
  C5: no lost wakeup. Whenever the goroutine blocks in its select while a request is queued or a
  shutdown is pending, a message that wakes it is owed: a lifecycle call is in flight, a lease is
  outstanding, or (outside a shutdown) a canceled client is about to post its cancellation.
\<close>

theorem no_lost_wakeup:
  assumes "reachable_world w" "w_pc w = AtSelect"
    and "sc_queue (w_sched w) \<noteq> [] \<or> sc_shuttingDown (w_sched w)"
  shows "w_calls w \<noteq> [] \<or> outstanding w \<noteq> [] \<or>
         \<not> sc_shuttingDown (w_sched w) \<and> w_cancels w \<noteq> []"
  using assms by (rule wakeup_owed)

theorem no_lost_wakeup_witness:
  "sc_queue (w_sched demo_world) \<noteq> [] \<and> outstanding demo_world \<noteq> []"
  using no_lost_wakeup [OF demo_reachable] by (simp add: demo_world_eq(2) outstanding_def)

section \<open>Order of service\<close>

lemma serve_prefix:
  "serve env l limit ws n = (q, m, es) \<Longrightarrow>
   \<exists>p. ws = p @ q \<and> (\<forall>w\<in>set p. wt_allocation w = l_allocation l) \<and>
     es = map (\<lambda>w. if receives env (wt_id w) then Reply (wt_id w) (Inr l) else Dropped (wt_id w)) p \<and>
     m = n + length (filter (\<lambda>w. receives env (wt_id w)) p) \<and>
     (q \<noteq> [] \<longrightarrow> wt_allocation (hd q) \<noteq> l_allocation l \<or> limit \<noteq> 0 \<and> limit \<le> m)"
proof (induction ws arbitrary: n q m es)
  case (Cons w ws)
  show ?case
  proof (cases "wt_allocation w = l_allocation l \<and> (limit = 0 \<or> n < limit)")
    case True
    define n' where "n' = (if receives env (wt_id w) then Suc n else n)"
    obtain es' where rest: "serve env l limit ws n' = (q, m, es')"
      and es: "es = (if receives env (wt_id w) then Reply (wt_id w) (Inr l) else Dropped (wt_id w)) # es'"
      using True Cons.prems by (auto simp: n'_def split: if_splits prod.splits)
    from Cons.IH [OF rest] obtain p where "ws = p @ q" "\<forall>w\<in>set p. wt_allocation w = l_allocation l"
      "es' = map (\<lambda>w. if receives env (wt_id w) then Reply (wt_id w) (Inr l) else Dropped (wt_id w)) p"
      "m = n' + length (filter (\<lambda>w. receives env (wt_id w)) p)"
      "q \<noteq> [] \<longrightarrow> wt_allocation (hd q) \<noteq> l_allocation l \<or> limit \<noteq> 0 \<and> limit \<le> m"
      by blast
    with True es show ?thesis by (intro exI [of _ "w # p"]) (simp add: n'_def)
  next
    case False
    with Cons.prems show ?thesis by (auto split: if_splits)
  qed
qed simp

text \<open>
  the service loop is first come, first served. It answers exactly a prefix of the queue, in
  queue order, each answer either a lease received by its client or a reply that the client's
  canceled context dropped; it counts the received leases; and it stops only at the end of the
  queue, at a request for another allocation, or at the concurrency limit.
\<close>

theorem serve_fifo:
  assumes "serve env l limit ws n = (q, m, es)"
  shows "\<exists>p. ws = p @ q \<and> (\<forall>w\<in>set p. wt_allocation w = l_allocation l) \<and>
     es = map (\<lambda>w. if receives env (wt_id w) then Reply (wt_id w) (Inr l) else Dropped (wt_id w)) p \<and>
     m = n + length (filter (\<lambda>w. receives env (wt_id w)) p) \<and>
     (q \<noteq> [] \<longrightarrow> wt_allocation (hd q) \<noteq> l_allocation l \<or> limit \<noteq> 0 \<and> limit \<le> m)"
  using assms by (rule serve_prefix)

abbreviation demo_lease :: lease where
  "demo_lease \<equiv> \<lparr>l_upstream = Some ''u'', l_allocation = ''a'', l_generation = 1,
     l_released = False, l_failed = False\<rparr>"

theorem serve_fifo_witness:
  "\<exists>p. [\<lparr>wt_id = 1, wt_allocation = ''a''\<rparr>, \<lparr>wt_id = 2, wt_allocation = ''a''\<rparr>] =
     p @ [\<lparr>wt_id = 2, wt_allocation = ''a''\<rparr>]"
  using serve_fifo [of ok_env demo_lease 1
      "[\<lparr>wt_id = 1, wt_allocation = ''a''\<rparr>, \<lparr>wt_id = 2, wt_allocation = ''a''\<rparr>]" 0
      "[\<lparr>wt_id = 2, wt_allocation = ''a''\<rparr>]" 1 "[Reply 1 (Inr demo_lease)]"]
  by (auto simp: ok_env_def)

end
