(* ===== verification/AllocationSpec.thy ===== *)
theory AllocationSpec
  imports SchedulerProps
begin

text \<open>
  What the scheduler promises, as an abstract machine over the phases of one allocation slot, the
  refinement of the system of \<open>SchedulerWorld\<close> to it, and the properties of a shutdown and of a
  failed cleanup.
\<close>

section \<open>The abstract allocation machine\<close>

datatype phase =
    Vacant
  | Loading allocation
  | Serving allocation nat
  | Unloading allocation
  | Stuck allocation

type_synonym slot = "(allocation \<times> nat) list \<times> phase"

definition slot_limit :: "(allocation \<times> nat) list \<Rightarrow> allocation \<Rightarrow> nat" where
  "slot_limit lims a = (case lookup lims a of None \<Rightarrow> 0 | Some n \<Rightarrow> n)"

inductive slot_step :: "slot \<Rightarrow> slot \<Rightarrow> bool" where
  load: "a \<noteq> [] \<Longrightarrow> slot_step (lims, Vacant) (lims, Loading a)"
| loaded: "slot_step (lims, Loading a) (lims, Serving a 0)"
| load_failed: "slot_step (lims, Loading a) (lims, Vacant)"
| load_stuck: "slot_step (lims, Loading a) (lims, Stuck a)"
| grant: "slot_limit lims a = 0 \<or> n < slot_limit lims a \<Longrightarrow>
    slot_step (lims, Serving a n) (lims, Serving a (Suc n))"
| give_back: "slot_step (lims, Serving a (Suc n)) (lims, Serving a n)"
| unload: "slot_step (lims, Serving a 0) (lims, Unloading a)"
| unloaded: "slot_step (lims, Unloading a) (lims, Vacant)"
| unload_stuck: "slot_step (lims, Unloading a) (lims, Stuck a)"
| retry: "slot_step (lims, Stuck a) (lims, Unloading a)"

definition slot_init :: "slot \<Rightarrow> bool" where
  "slot_init x \<longleftrightarrow> snd x = Vacant"

definition phase_of :: "sched \<Rightarrow> phase" where
  "phase_of s =
     (if sc_current s = [] then Vacant
      else if sc_operation s then
        (if sc_operationCancel s then Loading (sc_current s) else Unloading (sc_current s))
      else if sc_cleanupError s \<noteq> None then Stuck (sc_current s)
      else Serving (sc_current s) (sc_active s))"

definition slot_of :: "world \<Rightarrow> slot" where
  "slot_of w = (sc_limits (w_sched w), phase_of (w_sched w))"

lemma grants:
  "slot_limit lims a = 0 \<or> n + k \<le> slot_limit lims a \<Longrightarrow>
   slot_step\<^sup>*\<^sup>* (lims, Serving a n) (lims, Serving a (n + k))"
proof (induction k)
  case (Suc k)
  then have "slot_step\<^sup>*\<^sup>* (lims, Serving a n) (lims, Serving a (n + k))" by auto
  moreover have "slot_step (lims, Serving a (n + k)) (lims, Serving a (Suc (n + k)))"
    using Suc.prems by (intro grant) auto
  ultimately show ?case by (simp add: rtranclp.rtrancl_into_rtrancl)
qed simp

lemma slot_limit_of: "slot_limit (sc_limits s) a = limit_of s a"
  by (simp add: slot_limit_def limit_of_def)

lemma phase_of_apply [simp]: "w_sched (apply_effects es w) = w_sched w"
  by (simp add: apply_effects_eq)

lemma op_in_flight_cancel: "op_in_flight s = OpStart \<longleftrightarrow> sc_operationCancel s"
  by (simp add: op_in_flight_def)

lemma slot_steps_local:
  assumes "keeps_inv s (s', es, ret)" "sched_inv s"
  shows "slot_step\<^sup>*\<^sup>* (sc_limits s, phase_of s) (sc_limits s', phase_of s')"
proof -
  have lim: "sc_limits s' = sc_limits s" and ce: "sc_cleanupError s' = sc_cleanupError s"
    and inv': "sched_inv s'" and loc: "local_step s es s'"
    using assms(1) by (auto simp: keeps_inv_def)
  from loc consider
    (grant) n where "key s' = key s" "sc_operation s' = sc_operation s"
      "op_in_flight s' = op_in_flight s" "sc_active s' = sc_active s + n"
  | (start) "sc_current s = []" "sc_current s' \<noteq> []" "sc_operation s'" "op_in_flight s' = OpStart"
  | (stop) "key s' = key s" "sc_current s \<noteq> []" "\<not> sc_operation s" "sc_operation s'"
      "op_in_flight s' = OpStop" "sc_active s = 0"
    by (auto simp: local_step_def)
  then show ?thesis
  proof cases
    case grant
    have limit: "slot_limit (sc_limits s) (sc_current s) = 0 \<or>
        sc_active s + n \<le> slot_limit (sc_limits s) (sc_current s)"
      using inv' grant(1,4) lim by (auto simp: sched_inv_def slot_limit_def limit_of_def key_def)
    have "sc_operationCancel s' = sc_operationCancel s"
      using grant(3) by (metis op_in_flight_cancel)
    then show ?thesis
      using grants [OF limit] grant lim ce by (simp add: phase_of_def key_def)
  next
    case start
    then have "phase_of s = Vacant" "phase_of s' = Loading (sc_current s')"
      using op_in_flight_cancel [of s'] by (auto simp: phase_of_def)
    then show ?thesis using start lim by (auto intro: load)
  next
    case stop
    then have "phase_of s' = Unloading (sc_current s)"
      using op_in_flight_cancel [of s'] by (auto simp: phase_of_def key_def)
    then show ?thesis
      using stop lim by (auto simp: phase_of_def intro: unload retry)
  qed
qed

lemma slot_step_onResult:
  assumes "sched_inv s" "sc_operation s" "or_allocation r = sc_current s"
    "or_generation r = sc_generation s" "or_kind r = op_in_flight s"
    and "onResult env r s = (s', es, ret)"
  shows "slot_step (sc_limits s, phase_of s) (sc_limits s', phase_of s')"
proof -
  have cur: "sc_current s \<noteq> []" and idle: "sc_active s = 0"
    using assms(1,2) by (auto simp: sched_inv_def)
  show ?thesis
  proof (cases "sc_operationCancel s")
    case True
    then have "sc_cleanupError s = None" using assms(1) by (simp add: sched_inv_def)
    with True assms(2-) cur idle show ?thesis
      by (auto simp: onResult_def Let_def op_in_flight_def phase_of_def onStarted_def
          onStartFailed_def split: option.splits if_splits
          intro: loaded load_failed load_stuck)
  next
    case False
    with assms(2-) cur idle show ?thesis
      by (auto simp: onResult_def Let_def op_in_flight_def phase_of_def onStopFailed_def
          onStopped_def finish_def split: option.splits if_splits
          intro: unloaded unload_stuck)
  qed
qed

text \<open>The four kinds of steps of the system, as far as the goroutine's own state is concerned.\<close>

lemma world_step_kinds:
  assumes inv: "world_inv w" and step: "world_step w w'"
  obtains
    (client) "w_sched w' = w_sched w"
  | (local) es ret where "keeps_inv (w_sched w) (w_sched w', es, ret)"
  | (release) "sc_active (w_sched w) > 0" "\<not> sc_operation (w_sched w)"
      "w_sched w' = (w_sched w)\<lparr>sc_active := sc_active (w_sched w) - 1\<rparr>"
  | (result) r env es ret where "sc_operation (w_sched w)"
      "or_allocation r = sc_current (w_sched w)" "or_generation r = sc_generation (w_sched w)"
      "or_kind r = op_in_flight (w_sched w)" "onResult env r (w_sched w) = (w_sched w', es, ret)"
  using step
proof cases
  case (ws_progress env s es ret)
  then have "keeps_inv (w_sched w) (s, es, ret)"
    using keeps_inv_progress world_inv_select [OF inv] by (metis pc.distinct(3))
  then show thesis using ws_progress by (intro local) simp
next
  case (ws_request r env s es ret)
  then show thesis
    using keeps_inv_onRequest [of "w_sched w" r env] world_inv_select [OF inv]
    by (intro local [of es ret]) simp
next
  case (ws_cancel xs i ys env s es ret)
  then show thesis
    using keeps_inv_onCancel [of "w_sched w" env i] world_inv_select [OF inv]
    by (intro local [of es ret]) simp
next
  case (ws_release xs ev ys env s es ret)
  have "ev = key (w_sched w)" "sc_active (w_sched w) > 0"
    using inv ws_release(3) by (auto simp: world_inv_def outstanding_def Let_def)
  moreover from this have "\<not> sc_operation (w_sched w)"
    using inv by (auto simp: world_inv_def sched_inv_def Let_def)
  ultimately show thesis using ws_release by (intro release) (auto simp: onRelease_def)
next
  case (ws_failure env ev e s es ret)
  then show thesis
    using keeps_inv_onFailure [of "w_sched w" env ev e] world_inv_select [OF inv]
    by (intro local [of es ret]) simp
next
  case (ws_result xs r ys resident env s es ret)
  then show thesis
    using inv by (intro result [of r env es ret])
      (auto simp: world_inv_def Let_def append_eq_Cons_conv split: if_splits)
next
  case (ws_status env i s es ret)
  then show thesis by (intro client) auto
next
  case (ws_shutdown env i s es ret)
  then show thesis
    using keeps_inv_onShutdown [of "w_sched w" env i] world_inv_select [OF inv]
    by (intro local [of es ret]) simp
qed (auto intro: client)

lemma slot_of_step:
  assumes inv: "world_inv w" and step: "world_step w w'"
  shows "slot_step\<^sup>*\<^sup>* (slot_of w) (slot_of w')"
proof -
  have s: "sched_inv (w_sched w)" using inv by (simp add: world_inv_def Let_def)
  from inv step show ?thesis
  proof (cases rule: world_step_kinds)
    case client
    then show ?thesis by (simp add: slot_of_def)
  next
    case (local es ret)
    then show ?thesis using slot_steps_local s by (simp add: slot_of_def)
  next
    case release
    obtain n where n: "sc_active (w_sched w) = Suc n" using release(1) by (cases "sc_active (w_sched w)") auto
    have "phase_of (w_sched w) = Serving (sc_current (w_sched w)) (Suc n)"
      using s release(2) n by (auto simp: sched_inv_def phase_of_def)
    moreover from this have "phase_of (w_sched w') = Serving (sc_current (w_sched w)) n"
      using release(3) n by (auto simp: phase_of_def split: if_splits)
    ultimately show ?thesis using release(3) by (auto simp: slot_of_def intro: give_back)
  next
    case (result r env es ret)
    then show ?thesis using slot_step_onResult [OF s] by (auto simp: slot_of_def)
  qed
qed

lemma slot_of_init: "init_world w \<Longrightarrow> slot_init (slot_of w)"
  by (auto simp: init_world_def slot_init_def slot_of_def phase_of_def NewScheduler_def
      split: if_splits option.splits)

interpretation slot: refinement init_world world_step world_inv slot_init slot_step slot_of
  by unfold_locales (fact slot_of_init, fact slot_of_step)



section \<open>Shutdown\<close>

text \<open>
  How many releases and results a pending shutdown still waits for, weighted so that a backend
  that is still to be stopped counts for its stop.
\<close>

definition shutdown_rank :: "sched \<Rightarrow> nat" where
  "shutdown_rank s = 4 * sc_active s +
     (if sc_operation s then (if sc_operationCancel s then 3 else 1)
      else if sc_current s \<noteq> [] then 2 else 0)"

definition rank_kept :: "sched \<Rightarrow> sched \<times> effect list \<times> bool \<Rightarrow> bool" where
  "rank_kept s r \<longleftrightarrow> (case r of (s', es, ret) \<Rightarrow>
     sc_shuttingDown s' \<and> (ret \<or> shutdown_rank s' \<le> shutdown_rank s))"

lemma rank_progress:
  assumes "sc_shuttingDown s"
  shows "rank_kept s (progress env s)"
proof -
  have shut: "progress env s = progress_shutdown env (prune env s)"
    using assms by (simp add: progress_def)
  have "rank_kept s (progress_shutdown env p)"
    if "sc_shuttingDown p" "sc_operation p = sc_operation s" "sc_active p = sc_active s"
      "sc_current p = sc_current s" "sc_operationCancel p = sc_operationCancel s" for p
    using that
    by (cases "sc_operation s"; cases "sc_active s > 0"; cases "sc_current s = []")
      (simp_all add: rank_kept_def progress_shutdown_def Let_def stop_def finish_def shutdown_rank_def)
  then show ?thesis using assms unfolding shut by (simp add: prune_def)
qed

lemma rank_quiet:
  assumes "sc_shuttingDown s"
  shows "rank_kept s (handle env (EvRequest r) s)" "rank_kept s (handle env (EvCancel i) s)"
    "rank_kept s (handle env (EvFailure ev e) s)" "rank_kept s (handle env (EvShutdown k) s)"
  using assms
  by (simp_all add: rank_kept_def shutdown_rank_def onRequest_def onCancel_def onFailure_def
      onShutdown_def Let_def)

lemma rank_result:
  assumes "sched_inv s" "sc_shuttingDown s" "sc_operation s" "or_allocation r = sc_current s"
    "or_generation r = sc_generation s" "or_kind r = op_in_flight s"
    and "onResult env r s = (s', es, ret)"
  shows "sc_shuttingDown s' \<and> (ret \<or> shutdown_rank s' < shutdown_rank s)"
proof -
  have "sc_active s = 0" using assms(1,3) by (simp add: sched_inv_def)
  with assms show ?thesis
    by (auto simp: onResult_def Let_def op_in_flight_def shutdown_rank_def onStarted_def
        onStartFailed_def onStopFailed_def onStopped_def finish_def split: option.splits if_splits)
qed

definition rank_step :: "world \<Rightarrow> world \<Rightarrow> bool" where
  "rank_step w w' \<longleftrightarrow> sc_shuttingDown (w_sched w') \<and>
     (w_pc w' = Returned \<or>
      shutdown_rank (w_sched w') \<le> shutdown_rank (w_sched w) \<and>
      (length (w_releases w') < length (w_releases w) \<or> length (w_calls w') < length (w_calls w) \<longrightarrow>
       shutdown_rank (w_sched w') < shutdown_rank (w_sched w)))"

lemma rank_step_select:
  assumes "rank_kept (w_sched w) (s, es, ret)" "w_releases v = w_releases w" "w_calls v = w_calls w"
    and "w_sched v = s" "w_pc v = resume ret"
  shows "rank_step w (apply_effects es v)"
  using assms by (auto simp: rank_step_def rank_kept_def apply_effects_eq resume_def)

lemmas rank_step_silent = rank_step_select [where es = "[]", simplified]

lemma shutdown_rank_step:
  assumes inv: "world_inv w" and shut: "sc_shuttingDown (w_sched w)" and step: "world_step w w'"
  shows "rank_step w w'"
  using step
proof cases
  case (ws_progress env s es ret)
  then have "rank_kept (w_sched w) (s, es, ret)" using rank_progress [OF shut, of env] by simp
  with ws_progress show ?thesis by (auto simp: rank_step_def rank_kept_def apply_effects_eq)
next
  case (ws_request r env s es ret)
  then show ?thesis using rank_quiet(1) [OF shut, of env r] by (auto intro!: rank_step_select)
next
  case (ws_cancel xs i ys env s es ret)
  then show ?thesis using rank_quiet(2) [OF shut, of env i] by (auto intro!: rank_step_silent)
next
  case (ws_release xs ev ys env s es ret)
  have "ev = key (w_sched w)" "sc_active (w_sched w) > 0"
    using inv ws_release(3) by (auto simp: world_inv_def outstanding_def Let_def)
  then show ?thesis
    using ws_release shut by (auto simp: rank_step_def onRelease_def shutdown_rank_def)
next
  case (ws_failure env ev e s es ret)
  then show ?thesis using rank_quiet(3) [OF shut, of env ev e] by (auto intro!: rank_step_silent)
next
  case (ws_result xs r ys resident env s es ret)
  have si: "sched_inv (w_sched w)" using inv by (simp add: world_inv_def Let_def)
  have "sc_operation (w_sched w)" "or_allocation r = sc_current (w_sched w)"
    "or_generation r = sc_generation (w_sched w)" "or_kind r = op_in_flight (w_sched w)"
    using inv ws_result(3) by (auto simp: world_inv_def Let_def append_eq_Cons_conv split: if_splits)
  then have "sc_shuttingDown s \<and> (ret \<or> shutdown_rank s < shutdown_rank (w_sched w))"
    using rank_result [OF si shut] ws_result(5) by simp
  with ws_result(1) show ?thesis by (auto simp: rank_step_def resume_def apply_effects_eq)
next
  case (ws_shutdown env i s es ret)
  then show ?thesis using rank_quiet(4) [OF shut, of env i] by (auto intro!: rank_step_select)
qed (use shut in \<open>auto simp: rank_step_def rank_kept_def onStatus_def\<close>)

text \<open>
  after a shutdown was requested, every step keeps it pending and never raises the rank, and
  each received release and each returned lifecycle call strictly lowers it or ends the
  goroutine: with a fair lifecycle and clients that give their leases back, the shutdown ends.
\<close>

theorem shutdown_rank_decreases:
  assumes "reachable_world w" "sc_shuttingDown (w_sched w)" "world_step w w'"
  shows "sc_shuttingDown (w_sched w') \<and>
     (w_pc w' = Returned \<or>
      shutdown_rank (w_sched w') \<le> shutdown_rank (w_sched w) \<and>
      (length (w_releases w') < length (w_releases w) \<or> length (w_calls w') < length (w_calls w) \<longrightarrow>
       shutdown_rank (w_sched w') < shutdown_rank (w_sched w)))"
  using shutdown_rank_step [OF gateway.reachable_inv [OF assms(1)] assms(2,3)]
  by (simp add: rank_step_def)

definition closing_world :: world where
  "closing_world = the (trace [ShutdownMsg ok_env 7, Progress ok_env, ClientRelease 0] demo_world)"

lemma closing_world_eq:
  "trace [ShutdownMsg ok_env 7, Progress ok_env, ClientRelease 0] demo_world = Some closing_world"
  "sc_shuttingDown (w_sched closing_world)" "w_pc closing_world = AtSelect"
  "w_releases closing_world = [\<lparr>le_allocation = ''llama-cpp'', le_generation = 1\<rparr>]"
  "perform (ReleaseMsg ok_env) closing_world = Some (the (perform (ReleaseMsg ok_env) closing_world))"
  "w_pc (the (perform (ReleaseMsg ok_env) closing_world)) = AtProgress"
  "w_releases (the (perform (ReleaseMsg ok_env) closing_world)) = []"
  by (simp_all add: closing_world_def demo_world_eq(2) run_defs Let_def)

theorem shutdown_rank_decreases_witness:
  "shutdown_rank (w_sched (the (perform (ReleaseMsg ok_env) closing_world)))
     < shutdown_rank (w_sched closing_world)"
  using shutdown_rank_decreases [OF trace_reachable [OF closing_world_eq(1) demo_reachable]
      closing_world_eq(2) perform_step [OF closing_world_eq(5)]]
  by (simp add: closing_world_eq(3,4,6,7) del: perform.simps)

lemma progress_return_or_select:
  assumes "reachable_world w" "sc_shuttingDown (w_sched w)" "w_pc w = AtProgress"
  shows "\<exists>w'. world_step w w' \<and> (w_pc w' = Returned \<or> w_pc w' = AtSelect)"
proof -
  obtain s es ret where p: "progress ok_env (w_sched w) = (s, es, ret)" by (metis prod_cases3)
  show ?thesis
    by (rule exI, rule conjI, rule ws_progress [OF assms(3) p]) (simp add: apply_effects_eq)
qed

text \<open>A blocked goroutine with a shutdown pending can always be woken, and the rank then falls.\<close>

lemma select_lowers_rank:
  assumes reach: "reachable_world w" and shut: "sc_shuttingDown (w_sched w)" and pc: "w_pc w = AtSelect"
  shows "\<exists>w'. world_step\<^sup>*\<^sup>* w w' \<and>
    (w_pc w' = Returned \<or> shutdown_rank (w_sched w') < shutdown_rank (w_sched w))"
proof -
  note inv = gateway.reachable_inv [OF reach]
  have receive: "\<exists>v'. world_step v v' \<and> shutdown_rank (w_sched v') < shutdown_rank (w_sched v)"
    if "world_inv v" "w_pc v = AtSelect" "sc_shuttingDown (w_sched v)" "w_releases v = ev # evs" for v ev evs
  proof -
    have step: "world_step v (select_step ok_env (EvRelease ev) (v\<lparr>w_releases := evs\<rparr>))"
      (is "world_step v ?v") using that by (intro perform_step [of "ReleaseMsg ok_env"]) simp
    have "w_releases ?v = evs" "w_pc ?v = AtProgress" by (simp_all add: select_step_def resume_def)
    with shutdown_rank_step [OF that(1,3) step] that(4) step show ?thesis
      by (auto simp: rank_step_def)
  qed
  from wakeup_owed [OF reach pc] shut consider
    (call) "w_calls w \<noteq> []" | (lease) l where "l \<in> set (held w)" | (release) ev evs where "w_releases w = ev # evs"
    by (cases "held w"; cases "w_releases w") (auto simp: outstanding_def)
  then show ?thesis
  proof cases
    case call
    then have op: "sc_operation (w_sched w)"
      and calls: "w_calls w = [(op_in_flight (w_sched w), sc_current (w_sched w), sc_generation (w_sched w))]"
      using inv by (auto simp: world_inv_def Let_def split: if_splits)
    define r where "r = \<lparr>or_kind = op_in_flight (w_sched w), or_allocation = sc_current (w_sched w),
      or_generation = sc_generation (w_sched w), or_upstream = None, or_err = Some (BackendCleanup ContextCanceled)\<rparr>"
    obtain s es ret where h: "onResult ok_env r (w_sched w) = (s, es, ret)" by (metis prod_cases3)
    have "lifecycle_contract (or_kind r) (or_upstream r) (or_err r) True"
      by (cases "op_in_flight (w_sched w)") (simp_all add: r_def)
    then have "world_step w (apply_effects es (w\<lparr>w_sched := s, w_pc := resume ret, w_calls := [],
        w_resident := w_resident w\<rparr>))" (is "world_step w ?v")
      using ws_result [OF pc _ _ _, of "[]" r "[]" True ok_env s es ret] calls h by (simp add: r_def)
    moreover have "ret \<or> shutdown_rank s < shutdown_rank (w_sched w)"
      using rank_result [OF _ shut op _ _ _ h] inv by (simp add: r_def world_inv_def Let_def)
    then have "w_pc ?v = Returned \<or> shutdown_rank (w_sched ?v) < shutdown_rank (w_sched w)"
      by (auto simp: apply_effects_eq resume_def)
    ultimately show ?thesis by blast
  next
    case release
    then show ?thesis using receive [OF inv pc shut] by (meson r_into_rtranclp)
  next
    case lease
    then obtain i where i: "i < length (w_leases w)" "l = w_leases w ! i" "\<not> l_released l"
      by (auto simp: held_def in_set_conv_nth)
    define v where "v = w\<lparr>w_leases := (w_leases w)[i := l\<lparr>l_released := True\<rparr>],
      w_releases := w_releases w @ [lease_key l]\<rparr>"
    have step: "world_step w v"
      using i unfolding v_def by (intro ws_client_release) simp_all
    obtain ev evs where "w_releases v = ev # evs" by (cases "w_releases v") (auto simp: v_def)
    with receive [of v ev evs] world_inv_step [OF inv step] pc shut
    obtain v' where "world_step v v'" "shutdown_rank (w_sched v') < shutdown_rank (w_sched w)"
      by (auto simp: v_def)
    with step show ?thesis by (meson converse_rtranclp_into_rtranclp r_into_rtranclp)
  qed
qed


lemma shutdown_path:
  "reachable_world w \<Longrightarrow> sc_shuttingDown (w_sched w) \<Longrightarrow>
   \<exists>w'. world_step\<^sup>*\<^sup>* w w' \<and> w_pc w' = Returned"
proof (induction "shutdown_rank (w_sched w)" arbitrary: w rule: less_induct)
  case less
  have down: "world_step\<^sup>*\<^sup>* v v' \<Longrightarrow> reachable_world v \<Longrightarrow> sc_shuttingDown (w_sched v) \<Longrightarrow>
      reachable_world v' \<and> sc_shuttingDown (w_sched v')" for v v'
    by (induction rule: rtranclp_induct)
      (auto intro: reachable_step dest: shutdown_rank_step [OF gateway.reachable_inv] simp: rank_step_def)
  have select: "\<exists>w'. world_step\<^sup>*\<^sup>* v w' \<and> w_pc w' = Returned"
    if v: "reachable_world v" "sc_shuttingDown (w_sched v)" "w_pc v = AtSelect"
      "shutdown_rank (w_sched v) \<le> shutdown_rank (w_sched w)" for v
  proof -
    obtain v' where path: "world_step\<^sup>*\<^sup>* v v'"
      and "w_pc v' = Returned \<or> shutdown_rank (w_sched v') < shutdown_rank (w_sched v)"
      using select_lowers_rank [OF v(1-3)] by blast
    then show ?thesis
      using less.hyps [of v'] down [OF path v(1,2)] v(4) rtranclp_trans [OF path] by fastforce
  qed
  show ?case
  proof (cases "w_pc w")
    case AtProgress
    then obtain v where v: "world_step w v" "w_pc v = Returned \<or> w_pc v = AtSelect"
      using progress_return_or_select less.prems by blast
    then have "w_pc v = Returned \<or> shutdown_rank (w_sched v) \<le> shutdown_rank (w_sched w)"
      using shutdown_rank_step [OF gateway.reachable_inv] less.prems by (auto simp: rank_step_def)
    with v select [of v] down [of w v] less.prems show ?thesis
      by (meson converse_rtranclp_into_rtranclp r_into_rtranclp)
  qed (use select [of w] less.prems in auto)
qed

text \<open>
  C6: a pending shutdown can always be completed: from every reachable state in which a shutdown
  was requested there is a run of the system, in which clients return their leases and lifecycle
  calls return (even with errors), that ends with the goroutine returned.
\<close>

theorem shutdown_completes:
  assumes "reachable_world w" "sc_shuttingDown (w_sched w)"
  shows "\<exists>w'. world_step\<^sup>*\<^sup>* w w' \<and> w_pc w' = Returned"
  using assms by (rule shutdown_path)

theorem shutdown_completes_witness:
  "w_pc closing_world = AtSelect \<and> (\<exists>w'. world_step\<^sup>*\<^sup>* closing_world w' \<and> w_pc w' = Returned)"
  using shutdown_completes [OF trace_reachable [OF closing_world_eq(1) demo_reachable]
      closing_world_eq(2)] closing_world_eq(3) by blast

section \<open>A failed cleanup\<close>

definition closed_inv :: "world \<Rightarrow> bool" where
  "closed_inv w \<longleftrightarrow> (sc_cleanupError (w_sched w) \<noteq> None \<and> \<not> sc_shuttingDown (w_sched w) \<longrightarrow>
     \<not> sc_operation (w_sched w))"

lemma progress_closed:
  "sc_cleanupError s \<noteq> None \<Longrightarrow> \<not> sc_shuttingDown s \<Longrightarrow> progress env s = (prune env s, [], False)"
  by (simp add: progress_def Let_def)

lemma handle_closed:
  assumes "sc_cleanupError s = Some e" "\<not> sc_shuttingDown s" "\<And>r. ev \<noteq> EvResult r"
    and "handle env ev s = (s', es, ret)"
  shows "sc_cleanupError s' = Some e \<and> sc_operation s' = sc_operation s \<and> leases_of es = [] \<and>
         calls_of es = []"
  using assms by (cases ev)
    (auto simp: onRequest_def onCancel_def onRelease_def onFailure_def onStatus_def onShutdown_def Let_def
      split: if_splits)

lemma closed_step:
  assumes inv: "world_inv w" "closed_inv w" and step: "world_step w w'"
    and fail: "sc_cleanupError (w_sched w) = Some e" "\<not> sc_shuttingDown (w_sched w)"
  shows "sc_cleanupError (w_sched w') = Some e \<and> w_calls w' = [] \<and> length (w_leases w') = length (w_leases w)
    \<and> w_resident w' = w_resident w \<and> \<not> sc_operation (w_sched w')"
proof -
  have idle: "\<not> sc_operation (w_sched w)" "w_calls w = []"
    using inv fail by (auto simp: closed_inv_def world_inv_def Let_def)
  note handled = handle_closed [OF fail]
  show ?thesis using step
  proof cases
    case (ws_progress env s es ret)
    then show ?thesis using progress_closed [of "w_sched w" env] fail idle by auto
  next
    case (ws_request r env s es ret)
    then show ?thesis using handled [OF _ ws_request(5)] idle by (simp add: apply_effects_eq)
  next
    case (ws_cancel xs i ys env s es ret)
    then show ?thesis using handled [OF _ ws_cancel(4)] idle by (simp add: apply_effects_eq)
  next
    case (ws_release xs ev ys env s es ret)
    then show ?thesis using handled [OF _ ws_release(4)] idle by (simp add: apply_effects_eq)
  next
    case (ws_failure env ev er s es ret)
    then show ?thesis using handled [OF _ ws_failure(3)] idle by (simp add: apply_effects_eq)
  next
    case (ws_status env i s es ret)
    then show ?thesis using handled [OF _ ws_status(3)] idle by (simp add: apply_effects_eq)
  next
    case (ws_shutdown env i s es ret)
    then show ?thesis using handled [OF _ ws_shutdown(3)] idle by (simp add: apply_effects_eq)
  qed (use fail idle in simp_all)
qed

lemma onResult_idle: "\<not> sc_operation (fst (onResult env r s))"
  by (auto simp: onResult_def Let_def onStarted_def onStopped_def onStartFailed_def onStopFailed_def
      finish_def split: option.split op_kind.split)

lemma closed_inv_step:
  assumes "world_inv w \<and> closed_inv w" "world_step w w'"
  shows "world_inv w' \<and> closed_inv w'"
proof
  show "world_inv w'" using assms world_inv_step by blast
  have inv: "world_inv w" using assms(1) by simp
  show "closed_inv w'"
  proof (cases "sc_cleanupError (w_sched w) = None \<or> sc_shuttingDown (w_sched w)")
    case False
    then show ?thesis
      using closed_step [of w w'] assms by (auto simp: closed_inv_def)
  next
    case True
    from inv assms(2) show ?thesis
    proof (cases rule: world_step_kinds)
      case client
      then show ?thesis using assms(1) by (simp add: closed_inv_def)
    next
      case (local es ret)
      then show ?thesis using True by (auto simp: keeps_inv_def closed_inv_def)
    next
      case release
      then show ?thesis using True by (auto simp: closed_inv_def)
    next
      case (result r env es ret)
      then show ?thesis
        using onResult_idle [of env r "w_sched w"] by (simp add: closed_inv_def)
    qed
  qed
qed

interpretation closed: state_machine init_world world_step "\<lambda>w. world_inv w \<and> closed_inv w"
proof
  show "init_world w \<Longrightarrow> world_inv w \<and> closed_inv w" for w
    using world_inv_init
    by (auto simp: closed_inv_def init_world_def NewScheduler_def split: if_splits option.splits)
qed (fact closed_inv_step)

text \<open>
  C7: the gateway fails closed. Once a backend could not be confirmed removed, no step before a
  shutdown clears the error, starts or stops a backend, or hands out a lease, and every client is
  answered with that error.
\<close>

theorem cleanup_failure_fails_closed:
  assumes "reachable_world w" "sc_cleanupError (w_sched w) = Some e" "\<not> sc_shuttingDown (w_sched w)"
  shows "(\<forall>w'. world_step w w' \<longrightarrow> sc_cleanupError (w_sched w') = Some e \<and> w_calls w' = [] \<and>
            length (w_leases w') = length (w_leases w) \<and> w_resident w' = w_resident w) \<and>
         held w = [] \<and> sc_queue (w_sched w) = [] \<and>
         (\<forall>env r. receives env (wt_id r) \<longrightarrow>
            handle env (EvRequest r) (w_sched w) = (w_sched w, [Reply (wt_id r) (Inl e)], False))"
proof -
  have inv: "world_inv w" "closed_inv w" using closed.reachable_inv [OF assms(1)] by auto
  have "sc_active (w_sched w) = 0" "sc_queue (w_sched w) = []"
    using inv(1) assms(2) by (auto simp: world_inv_def sched_inv_def Let_def)
  moreover have "length (held w) \<le> sc_active (w_sched w)"
    using inv(1) by (auto simp: world_inv_def outstanding_def Let_def)
  ultimately show ?thesis
    using closed_step [OF inv] assms(2,3) by (auto simp: onRequest_def failWaiter_def)
qed

definition stuck_world :: world where
  "stuck_world = the (trace [Result ok_env None (Some (BackendCleanup (ErrorText ''busy''))) True]
     starting_world)"

lemma stuck_world_eq:
  "trace [Result ok_env None (Some (BackendCleanup (ErrorText ''busy''))) True] starting_world
     = Some stuck_world"
  "sc_cleanupError (w_sched stuck_world) =
     Some (Wrapped ''start llama-cpp: '' (BackendCleanup (ErrorText ''busy'')))"
  "\<not> sc_shuttingDown (w_sched stuck_world)"
  by (simp_all add: stuck_world_def starting_world_def demo_actions_def run_defs onStartFailed_def Let_def)

theorem cleanup_failure_fails_closed_witness:
  "held stuck_world = [] \<and> sc_queue (w_sched stuck_world) = []"
  using cleanup_failure_fails_closed [OF trace_reachable [OF stuck_world_eq(1)
        explore_reachable [OF starting_world_eq(1)]] stuck_world_eq(2,3)] by blast

end
