(* ===== verification/Paths.thy ===== *)
theory Paths
  imports Prelude
begin

text \<open>
  Lexical paths: the functions of Go's \<^verbatim>\<open>path\<close> and \<^verbatim>\<open>path/filepath\<close> that the sources use, on Unix
  paths, and the path safety of the program: the managed layout and \<^verbatim>\<open>ValidateManagedParent\<close> of
  \<^verbatim>\<open>internal/storage/layout.go\<close> and the relative paths of the catalog (\<^verbatim>\<open>safeRelative\<close> of
  \<^verbatim>\<open>internal/catalog/catalog.go\<close>).
\<close>

section \<open>Lexical operations\<close>

abbreviation SL :: char where "SL \<equiv> CHR ''/''"

definition IsAbs :: "string \<Rightarrow> bool" where
  "IsAbs p = hasPrefix p ''/''"

text \<open>\<^verbatim>\<open>path.Clean\<close> over components: a stack of kept components, \<^verbatim>\<open>..\<close> removes the last proper one.\<close>

definition clean_step :: "bool \<Rightarrow> string list \<Rightarrow> string \<Rightarrow> string list" where
  "clean_step rooted out c =
     (if c = [] \<or> c = ''.'' then out
      else if c = ''..'' then
        (if out = [] then (if rooted then [] else [''..''])
         else if last out = ''..'' then out @ [''..''] else butlast out)
      else out @ [c])"

definition clean_parts :: "bool \<Rightarrow> string \<Rightarrow> string list" where
  "clean_parts rooted p = foldl (clean_step rooted) [] (split_on SL p)"

definition render_path :: "bool \<Rightarrow> string list \<Rightarrow> string" where
  "render_path rooted parts =
     (if rooted then SL # join_with ''/'' parts
      else if parts = [] then ''.'' else join_with ''/'' parts)"

definition Clean :: "string \<Rightarrow> string" where
  "Clean p = render_path (IsAbs p) (clean_parts (IsAbs p) p)"

definition Join :: "string list \<Rightarrow> string" where
  "Join elems = (let es = filter (\<lambda>e. e \<noteq> []) elems in
     if es = [] then [] else Clean (join_with ''/'' es))"

definition Dir :: "string \<Rightarrow> string" where
  "Dir p = Clean (rev (dropWhile (\<lambda>c. c \<noteq> SL) (rev p)))"

definition Abs :: "string \<Rightarrow> string \<Rightarrow> string" where
  "Abs cwd p = (if IsAbs p then Clean p else Join [cwd, p])"

text \<open>\<^verbatim>\<open>filepath.Rel\<close> between absolute paths.\<close>

fun strip_common :: "string list \<Rightarrow> string list \<Rightarrow> string list \<times> string list" where
  "strip_common (x # xs) (y # ys) = (if x = y then strip_common xs ys else (x # xs, y # ys))"
| "strip_common xs ys = (xs, ys)"

definition Rel :: "string \<Rightarrow> string \<Rightarrow> string" where
  "Rel base targ =
     (case strip_common (clean_parts True base) (clean_parts True targ) of
        (b, t) \<Rightarrow> (let parts = map (\<lambda>_. ''..'') b @ t in
          if parts = [] then ''.'' else join_with ''/'' parts))"

section \<open>Clean components\<close>

definition proper :: "string \<Rightarrow> bool" where
  "proper c \<longleftrightarrow> c \<noteq> [] \<and> c \<noteq> ''.'' \<and> c \<noteq> ''..'' \<and> SL \<notin> set c"

definition dotdot :: "string \<Rightarrow> bool" where
  "dotdot c \<longleftrightarrow> c = ''..''"

text \<open>Kept components are first only \<^verbatim>\<open>..\<close> (none in a rooted path) and then only proper ones.\<close>

definition clean_shape :: "bool \<Rightarrow> string list \<Rightarrow> bool" where
  "clean_shape rooted parts \<longleftrightarrow>
     (\<exists>n ps. parts = replicate n ''..'' @ ps \<and> (\<forall>c\<in>set ps. proper c) \<and> (rooted \<longrightarrow> n = 0))"

lemma clean_step_dotdot:
  "\<not> rooted \<Longrightarrow> clean_step rooted (replicate n ''..'') ''..'' = replicate (Suc n) ''..''"
  by (cases "n = 0") (simp_all add: clean_step_def last_replicate replicate_append_same)

lemma clean_shapeI:
  "\<forall>c\<in>set ps. proper c \<Longrightarrow> (rooted \<Longrightarrow> n = 0) \<Longrightarrow> clean_shape rooted (replicate n ''..'' @ ps)"
  unfolding clean_shape_def by blast

lemma clean_shape_step:
  assumes "clean_shape rooted out" "SL \<notin> set c"
  shows "clean_shape rooted (clean_step rooted out c)"
proof -
  obtain n ps where out: "out = replicate n ''..'' @ ps" and ps: "\<forall>c\<in>set ps. proper c"
    and n: "rooted \<longrightarrow> n = 0"
    using assms(1) by (auto simp: clean_shape_def)
  consider (skip) "c = [] \<or> c = ''.''" | (up) "c = ''..''" | (keep) "proper c"
    using assms(2) by (auto simp: proper_def)
  then show ?thesis
  proof cases
    case skip
    then show ?thesis using assms(1) by (auto simp: clean_step_def)
  next
    case keep
    then have "clean_step rooted out c = replicate n ''..'' @ (ps @ [c])"
      by (auto simp: clean_step_def proper_def out)
    with keep ps n show ?thesis unfolding clean_shape_def by fastforce
  next
    case up
    show ?thesis
    proof (cases ps rule: rev_cases)
      case Nil
      show ?thesis
      proof (cases rooted)
        case True
        then show ?thesis using n Nil clean_shapeI [of "[]" True 0] by (simp add: clean_step_def up out)
      next
        case False
        then show ?thesis
          using clean_shapeI [of "[]" rooted "Suc n"] by (simp add: up out Nil clean_step_dotdot)
      qed
    next
      case (snoc qs q)
      then have "clean_step rooted out c = replicate n ''..'' @ qs"
        using ps by (simp add: clean_step_def up out proper_def butlast_append)
      with snoc ps n show ?thesis unfolding clean_shape_def by fastforce
    qed
  qed
qed

lemma clean_shape_parts: "clean_shape rooted (clean_parts rooted p)"
proof -
  have "clean_shape rooted (foldl (clean_step rooted) out cs)"
    if "clean_shape rooted out" "\<And>c. c \<in> set cs \<Longrightarrow> SL \<notin> set c" for out cs
    using that by (induction cs arbitrary: out) (auto intro: clean_shape_step)
  moreover have "clean_shape rooted []" by (auto simp: clean_shape_def intro!: exI [of _ 0])
  ultimately show ?thesis unfolding clean_parts_def using split_on_no_sep by blast
qed

lemma clean_step_proper: "proper c \<Longrightarrow> clean_step rooted out c = out @ [c]"
  by (auto simp: clean_step_def proper_def)

lemma fold_clean_proper: "\<forall>c\<in>set cs. proper c \<Longrightarrow> foldl (clean_step rooted) out cs = out @ cs"
  by (induction cs arbitrary: out) (simp_all add: clean_step_proper)

lemma fold_clean_shape:
  assumes "clean_shape rooted parts"
  shows "foldl (clean_step rooted) [] parts = parts"
proof -
  obtain n ps where parts: "parts = replicate n ''..'' @ ps" and ps: "\<forall>c\<in>set ps. proper c"
    and n: "rooted \<longrightarrow> n = 0"
    using assms by (auto simp: clean_shape_def)
  have "foldl (clean_step rooted) [] (replicate n ''..'') = replicate n ''..''"
    using n
  proof (induction n)
    case (Suc n)
    then have "foldl (clean_step rooted) [] (replicate n ''..'' @ [''..'']) = replicate (Suc n) ''..''"
      using clean_step_dotdot [of rooted n] by (simp del: replicate_Suc)
    then show ?case by (simp only: replicate_append_same replicate_Suc)
  qed simp
  then show ?thesis using ps by (simp add: parts fold_clean_proper)
qed

lemma clean_shape_no_slash:
  assumes "clean_shape rooted parts" "c \<in> set parts"
  shows "SL \<notin> set c"
proof -
  obtain n ps where "parts = replicate n ''..'' @ ps" "\<forall>c\<in>set ps. proper c"
    using assms(1) unfolding clean_shape_def by blast
  with assms(2) consider "c = ''..''" | "proper c" by (auto simp del: replicate_append_same)
  then show ?thesis by cases (simp_all add: proper_def)
qed

lemma split_join_parts:
  "clean_shape rooted parts \<Longrightarrow> parts \<noteq> [] \<Longrightarrow> split_on SL (join_with ''/'' parts) = parts"
  using split_on_join_with [of parts SL] clean_shape_no_slash [of rooted parts] by metis

lemma clean_parts_split: "clean_shape rooted parts \<Longrightarrow> parts \<noteq> [] \<Longrightarrow>
    clean_parts rooted (join_with ''/'' parts) = parts"
  by (simp add: clean_parts_def split_join_parts fold_clean_shape)

lemma clean_parts_empty [simp]: "clean_parts rooted [] = []" "clean_parts rooted ''.'' = []"
  by (simp_all add: clean_parts_def clean_step_def)

lemma clean_parts_slash: "clean_parts rooted (SL # p) = clean_parts rooted p"
  by (simp add: clean_parts_def clean_step_def)

lemma join_relative:
  assumes "clean_shape rooted parts" "parts \<noteq> []"
  shows "\<not> IsAbs (join_with ''/'' parts)"
proof
  assume "IsAbs (join_with ''/'' parts)"
  then obtain r where "join_with ''/'' parts = SL # r" by (auto simp: IsAbs_def hasPrefix_iff)
  then have "[] \<in> set parts"
    using split_join_parts [OF assms] by (metis list.set_intros(1) split_on.simps(2))
  moreover obtain n ps where "parts = replicate n ''..'' @ ps" "\<forall>c\<in>set ps. proper c"
    using assms(1) unfolding clean_shape_def by blast
  ultimately have "[] = ''..'' \<or> proper []" by (auto simp del: replicate_append_same)
  then show False by (simp add: proper_def)
qed

lemma Clean_clean:
  "clean_parts (IsAbs p) p = clean_parts (IsAbs (Clean p)) (Clean p) \<and> IsAbs (Clean p) = IsAbs p"
proof (cases "IsAbs p")
  case True
  let ?ps = "clean_parts True p"
  have "clean_parts True (SL # join_with ''/'' ?ps) = ?ps"
    using clean_parts_split [OF clean_shape_parts [of True p]]
    by (cases "?ps = []") (simp_all add: clean_parts_slash)
  with True show ?thesis by (simp add: Clean_def render_path_def IsAbs_def hasPrefix_def)
next
  case False
  let ?ps = "clean_parts False p"
  show ?thesis
  proof (cases "?ps = []")
    case True
    then show ?thesis using False by (simp add: Clean_def render_path_def IsAbs_def hasPrefix_def)
  next
    case ne: False
    have shape: "clean_shape False ?ps" by (rule clean_shape_parts)
    from ne False show ?thesis
      using clean_parts_split [OF shape ne] join_relative [OF shape ne]
      by (simp add: Clean_def render_path_def)
  qed
qed

lemma Clean_idem: "Clean (Clean p) = Clean p"
proof -
  have "Clean (Clean p) = render_path (IsAbs p) (clean_parts (IsAbs p) p)"
    using Clean_clean [of p] by (simp only: Clean_def [of "Clean p"])
  then show ?thesis by (simp only: Clean_def [of p])
qed

section \<open>Relative paths of the catalog\<close>

text \<open>\<^verbatim>\<open>strings.Contains\<close>\<close>

fun contains_sub :: "string \<Rightarrow> string \<Rightarrow> bool" where
  "contains_sub [] sub = (sub = [])"
| "contains_sub (c # s) sub = (hasPrefix (c # s) sub \<or> contains_sub s sub)"

definition safeRelative :: "string \<Rightarrow> bool" where
  "safeRelative v \<longleftrightarrow> \<not> (v = [] \<or> hasPrefix v ''/'' \<or> Clean v \<noteq> v \<or> v = ''.'' \<or>
     hasPrefix v ''../'' \<or> contains_sub v ''/../'')"

lemma safeRelative_parts:
  assumes "safeRelative v" "v \<noteq> ''..''"
  shows "split_on SL v = clean_parts False v \<and> (\<forall>c\<in>set (clean_parts False v). proper c) \<and>
         clean_parts False v \<noteq> []"
proof -
  let ?ps = "clean_parts False v"
  have rel: "\<not> IsAbs v" and clean: "Clean v = v" and v: "v \<noteq> ''.''" "\<not> hasPrefix v ''../''"
    using assms by (auto simp: safeRelative_def IsAbs_def)
  then have ne: "?ps \<noteq> []" and join: "join_with ''/'' ?ps = v" by (auto simp: Clean_def render_path_def split: if_splits)
  have shape: "clean_shape False ?ps" by (rule clean_shape_parts)
  then obtain n qs where ps: "?ps = replicate n ''..'' @ qs" and qs: "\<forall>c\<in>set qs. proper c"
    unfolding clean_shape_def by blast
  have "n = 0"
  proof (rule ccontr)
    assume "n \<noteq> 0"
    then obtain rest where "?ps = ''..'' # rest" using ps by (cases n) auto
    then show False
      using join v(2) assms(2) by (cases rest) (auto simp: hasPrefix_def)
  qed
  with ps qs ne split_join_parts [OF shape ne] join show ?thesis by simp
qed

text \<open>A rooted directory extended by proper components.\<close>

lemma Join_parts:
  assumes "IsAbs root" "v \<noteq> []" "split_on SL v = vs" "\<forall>c\<in>set vs. proper c"
  shows "clean_parts True (Join [root, v]) = clean_parts True root @ vs \<and> IsAbs (Join [root, v])"
proof -
  let ?p = "root @ SL # v"
  have abs: "IsAbs ?p" "root \<noteq> []" using assms(1) by (cases root; simp add: IsAbs_def hasPrefix_def)+
  have split: "split_on SL (u @ SL # v) = split_on SL u @ vs" for u
    using assms(3) by (induction u) (auto split: list.splits)
  have "clean_parts True ?p = clean_parts True root @ vs"
    unfolding clean_parts_def split by (simp add: fold_clean_proper [OF assms(4)])
  moreover have "Join [root, v] = Clean ?p" using assms(2) abs(2) by (simp add: Join_def)
  ultimately show ?thesis using Clean_clean [of ?p] abs(1) by simp
qed

lemma strip_common_spec:
  "strip_common xs ys = (b, u) \<Longrightarrow> \<exists>p. xs = p @ b \<and> ys = p @ u \<and> (b = [] \<or> u = [] \<or> hd b \<noteq> hd u)"
proof (induction xs ys rule: strip_common.induct)
  case (1 x xs y ys)
  show ?case
  proof (cases "x = y")
    case True
    with 1 obtain p where "xs = p @ b \<and> ys = p @ u \<and> (b = [] \<or> u = [] \<or> hd b \<noteq> hd u)" by auto
    with True show ?thesis by (intro exI [of _ "x # p"]) simp
  next
    case False
    with 1(2) show ?thesis by (intro exI [of _ "[]"]) auto
  qed
qed simp_all

lemma strip_common_prefix:
  assumes "strip_common xs ys = (b, u)"
  shows "b = [] \<longleftrightarrow> (\<exists>zs. ys = xs @ zs)"
proof -
  obtain p where p: "xs = p @ b" "ys = p @ u" "b = [] \<or> u = [] \<or> hd b \<noteq> hd u"
    using strip_common_spec [OF assms] by blast
  then show ?thesis by (cases b) auto
qed


text \<open>
  a path that the catalog accepts as a safe relative path, other than \<^verbatim>\<open>..\<close>, has only proper
  components, and joining it to any absolute directory gives a path whose components are those of
  the directory followed by its own: it cannot leave the directory.
\<close>

theorem safeRelative_stays_inside:
  assumes "safeRelative v" "v \<noteq> ''..''" "IsAbs root"
  shows "(\<forall>c\<in>set (split_on SL v). c \<noteq> ''..'' \<and> c \<noteq> ''.'' \<and> c \<noteq> []) \<and>
         clean_parts True (Join [root, v]) = clean_parts True root @ split_on SL v"
proof -
  have parts: "split_on SL v = clean_parts False v" "\<forall>c\<in>set (clean_parts False v). proper c"
    using safeRelative_parts [OF assms(1,2)] by auto
  have "v \<noteq> []" using assms(1) by (auto simp: safeRelative_def)
  from Join_parts [OF assms(3) this parts] parts show ?thesis by (auto simp: proper_def)
qed

theorem safeRelative_stays_inside_witness:
  "clean_parts True (Join [''/data'', ''models/a'']) = [''data'', ''models'', ''a'']"
  using safeRelative_stays_inside [of "''models/a''" "''/data''"]
  by (simp add: safeRelative_def Clean_def render_path_def clean_parts_def clean_step_def IsAbs_def hasPrefix_def)

text \<open>
  the check accepts the path \<^verbatim>\<open>..\<close> itself, and joining it to a managed directory gives the parent
  of that directory.
\<close>

theorem safeRelative_accepts_parent:
  "safeRelative ''..'' \<and> Join [''/data/models'', ''..''] = ''/data''"
  by (simp add: safeRelative_def Clean_def render_path_def clean_parts_def clean_step_def IsAbs_def
      hasPrefix_def Join_def)

section \<open>The managed layout\<close>

definition within :: "string \<Rightarrow> string \<Rightarrow> bool" where
  "within candidate root \<longleftrightarrow> Rel root candidate \<noteq> ''..'' \<and> \<not> hasPrefix (Rel root candidate) ''../''"

lemma within_iff: "within c r \<longleftrightarrow> (\<exists>zs. clean_parts True c = clean_parts True r @ zs)"
proof -
  obtain b u where bu: "strip_common (clean_parts True r) (clean_parts True c) = (b, u)" by fastforce
  obtain p where p: "clean_parts True c = p @ u" using strip_common_spec [OF bu] by blast
  have "\<forall>x\<in>set (clean_parts True c). proper x"
    using clean_shape_parts [of True c] by (auto simp: clean_shape_def)
  then have proper_u: "\<forall>x\<in>set u. proper x" unfolding p by simp
  have "within c r \<longleftrightarrow> b = []"
  proof (cases b)
    case Nil
    have "\<not> hasPrefix (join_with ''/'' u) ''../'' \<and> join_with ''/'' u \<noteq> ''..''" if "u \<noteq> []"
    proof -
      have "split_on SL (join_with ''/'' u) = u"
        using split_on_join_with [OF that, of SL] proper_u by (auto simp: proper_def)
      moreover have "hd (split_on SL (''../'' @ s)) = ''..''" "split_on SL ''..'' = [''..'']" for s
        by (simp_all split: list.splits)
      ultimately have "hd u = ''..''" if "hasPrefix (join_with ''/'' u) ''../'' \<or> join_with ''/'' u = ''..''"
        using that by (auto simp: hasPrefix_iff)
      then show ?thesis using proper_u that by (cases u) (auto simp: proper_def)
    qed
    then show ?thesis by (auto simp: within_def Rel_def bu Nil Let_def hasPrefix_def)
  next
    case (Cons x xs)
    then show ?thesis
      by (cases xs; cases u) (auto simp: within_def Rel_def bu Let_def hasPrefix_def)
  qed
  then show ?thesis using strip_common_prefix [OF bu] by simp
qed

record Layout = Root :: string

definition StateNamespace :: string where "StateNamespace = ''paracetamol''"

definition Application :: "Layout \<Rightarrow> string \<Rightarrow> string" where
  "Application l name = Join [Root l, ''apps'', name]"

definition ComfyModels :: "Layout \<Rightarrow> string" where
  "ComfyModels l = Join [Root l, ''content'', ''comfyui'', ''models'']"

definition LlamaModels :: "Layout \<Rightarrow> string" where
  "LlamaModels l = Join [Root l, ''content'', ''llama-cpp'', ''models'']"

definition CuratedWorkflows :: "Layout \<Rightarrow> string" where
  "CuratedWorkflows l = Join [Application l ''comfyui'', ''user'', ''default'', ''workflows'', ''curated'']"

definition ImportedWorkflows :: "Layout \<Rightarrow> string" where
  "ImportedWorkflows l = Join [Application l ''comfyui'', ''user'', ''default'', ''workflows'', ''imported'']"

definition VerificationReceipt :: "Layout \<Rightarrow> string" where
  "VerificationReceipt l = Join [Root l, ''content'', ''.'' @ StateNamespace, ''verification.json'']"

definition Staging :: "Layout \<Rightarrow> string" where
  "Staging l = Join [Root l, ''staging'']"

definition LlamaBenchmarks :: "Layout \<Rightarrow> string" where
  "LlamaBenchmarks l = Join [Application l ''llama-cpp'', ''benchmarks'']"

definition ComfyBenchmarks :: "Layout \<Rightarrow> string" where
  "ComfyBenchmarks l = Join [Application l ''comfyui'', ''benchmarks'']"

definition AcceptanceResults :: "Layout \<Rightarrow> string" where
  "AcceptanceResults l = Join [Application l ''acceptance'', ''results'']"

text \<open>The directories that \<^verbatim>\<open>PrepareRuntime\<close> and \<^verbatim>\<open>PrepareDownloads\<close> create, in order.\<close>

definition PrepareRuntime :: "Layout \<Rightarrow> string \<Rightarrow> string list" where
  "PrepareRuntime l application = [Application l application] @
     (if application = ''comfyui'' then [ComfyModels l]
      else if application = ''llama-cpp'' then [LlamaModels l] else [])"

definition PrepareDownloads :: "Layout \<Rightarrow> string list" where
  "PrepareDownloads l = [Join [Staging l, ''.home''], Join [Staging l, ''.cache'', ''huggingface'']]"

datatype entry = Missing | StatError | Symlink | Directory | OtherFile

datatype path_error = Escapes | CannotInspect string | SymlinkedComponent string | NotDirectory string

fun path_components :: "string \<Rightarrow> string list \<Rightarrow> string list" where
  "path_components current [] = []"
| "path_components current (part # parts) =
     Join [current, part] # path_components (Join [current, part]) parts"

fun check_components :: "(string \<Rightarrow> entry) \<Rightarrow> string list \<Rightarrow> path_error option" where
  "check_components lstat [] = None"
| "check_components lstat (c # cs) = (case lstat c of
     Missing \<Rightarrow> None
   | StatError \<Rightarrow> Some (CannotInspect c)
   | Symlink \<Rightarrow> Some (SymlinkedComponent c)
   | OtherFile \<Rightarrow> Some (NotDirectory c)
   | Directory \<Rightarrow> check_components lstat cs)"

definition managed_components :: "string \<Rightarrow> string \<Rightarrow> string list" where
  "managed_components data candidate =
     (let relative = Rel data (Dir candidate) in
      data # (if relative \<noteq> ''.'' then path_components data (split_on SL relative) else []))"

definition ValidateManagedParent ::
  "string \<Rightarrow> (string \<Rightarrow> entry) \<Rightarrow> string \<Rightarrow> string \<Rightarrow> string \<Rightarrow> path_error option" where
  "ValidateManagedParent cwd lstat path managedRoot dataRoot =
     (let data = Abs cwd dataRoot; root = Abs cwd managedRoot; candidate = Abs cwd path in
      if \<not> within root data \<or> \<not> within candidate root then Some Escapes
      else check_components lstat (managed_components data candidate))"

lemma check_components_None:
  "check_components lstat cs = None \<Longrightarrow> c \<in> set (takeWhile (\<lambda>c. lstat c \<noteq> Missing) cs) \<Longrightarrow> lstat c = Directory"
  by (induction cs) (auto split: entry.splits if_splits)

text \<open>
  a path that passes \<^verbatim>\<open>ValidateManagedParent\<close> lies lexically below its managed root and the managed
  root below the data root, and every component from the data root to the parent, as far as they
  exist, is a real directory and not a symbolic link.
\<close>

theorem managed_parent_safe:
  assumes "ValidateManagedParent cwd lstat p managedRoot dataRoot = None"
  shows "(\<exists>zs. clean_parts True (Abs cwd p) = clean_parts True (Abs cwd managedRoot) @ zs) \<and>
    (\<exists>zs. clean_parts True (Abs cwd managedRoot) = clean_parts True (Abs cwd dataRoot) @ zs) \<and>
    (\<forall>c\<in>set (takeWhile (\<lambda>c. lstat c \<noteq> Missing) (managed_components (Abs cwd dataRoot) (Abs cwd p))).
       lstat c = Directory)"
proof -
  have "within (Abs cwd managedRoot) (Abs cwd dataRoot)" "within (Abs cwd p) (Abs cwd managedRoot)"
    and "check_components lstat (managed_components (Abs cwd dataRoot) (Abs cwd p)) = None"
    using assms by (auto simp: ValidateManagedParent_def Let_def split: if_splits)
  then show ?thesis using check_components_None by (simp add: within_iff)
qed

lemma managed_parent_example:
  "ValidateManagedParent ''/'' (\<lambda>_. Directory) ''/d/m/x'' ''/d/m'' ''/d'' = None"
  by (simp add: ValidateManagedParent_def Let_def Abs_def IsAbs_def hasPrefix_def Clean_def render_path_def
      clean_parts_def clean_step_def within_def Rel_def managed_components_def Dir_def Join_def)

theorem managed_parent_safe_witness:
  "\<exists>zs. clean_parts True (Abs ''/'' ''/d/m/x'') = clean_parts True (Abs ''/'' ''/d/m'') @ zs"
  using managed_parent_safe [OF managed_parent_example] by blast

end
