(* ===== verification/Config.thy ===== *)
theory Config
  imports Paths
begin

text \<open>
  The host configuration (\<^verbatim>\<open>internal/config/parser.go\<close>, \<^verbatim>\<open>config.go\<close> and \<^verbatim>\<open>credentials.go\<close>): the closed
  TOML subset, its validation, the precedence of flags, environment and file, and the gateway
  keys. Line numbers of error messages are kept; texts are shortened to their distinguishing part.
\<close>

section \<open>Data\<close>

record Configuration =
  cfg_DataDir :: "string option"
  cfg_Applications :: "string list"
  cfg_Profile :: "string option"
  cfg_RenderNodes :: "string list"
  cfg_Listen :: "string option"
  cfg_Port :: "int option"
  cfg_StartupTimeout :: "string option"
  cfg_APIKeyFile :: "string option"
  cfg_ClientURL :: "string option"
  cfg_ClientAPIKeyFile :: "string option"
  cfg_Backend :: "string option"
  cfg_ModelsMax :: "int option"
  cfg_Slots :: "int option"
  cfg_StatisticsEnabled :: "bool option"
  cfg_RetentionDays :: "int option"
  cfg_Path :: string
  cfg_Loaded :: bool

definition empty_configuration :: Configuration where
  "empty_configuration = \<lparr>cfg_DataDir = None, cfg_Applications = [], cfg_Profile = None,
     cfg_RenderNodes = [], cfg_Listen = None, cfg_Port = None, cfg_StartupTimeout = None,
     cfg_APIKeyFile = None, cfg_ClientURL = None, cfg_ClientAPIKeyFile = None, cfg_Backend = None,
     cfg_ModelsMax = None, cfg_Slots = None, cfg_StatisticsEnabled = None, cfg_RetentionDays = None,
     cfg_Path = [], cfg_Loaded = False\<rparr>"

datatype config_error =
    NotUTF8
  | AtLine nat config_error
  | UnterminatedQuote
  | MalformedSection string
  | UnknownSection string
  | DuplicateSection string
  | ExpectedKeyValue
  | OutsideSection string
  | UnknownSetting string
  | DuplicateSetting string
  | InvalidValue string string
  | Rejected string string
  | UsageError string
  | FileError string

abbreviation QT :: char where "QT \<equiv> CHR 0x22"
abbreviation AP :: char where "AP \<equiv> CHR 0x27"
abbreviation BS :: char where "BS \<equiv> CHR 0x5C"
abbreviation TAB :: char where "TAB \<equiv> CHR 0x09"
abbreviation NL :: char where "NL \<equiv> CHR 0x0A"

section \<open>Text\<close>

definition code :: "char \<Rightarrow> nat" where
  "code c = of_char c"

text \<open>\<^verbatim>\<open>utf8.Valid\<close> and the encoding of one code point.\<close>

definition cont_byte :: "char \<Rightarrow> bool" where
  "cont_byte c \<longleftrightarrow> 128 \<le> code c \<and> code c \<le> 191"

fun utf8_valid :: "string \<Rightarrow> bool" where
  "utf8_valid [] = True"
| "utf8_valid (a # s) =
     (if code a < 128 then utf8_valid s
      else if 194 \<le> code a \<and> code a \<le> 223 then
        (case s of b # s2 \<Rightarrow> cont_byte b \<and> utf8_valid s2 | _ \<Rightarrow> False)
      else if 224 \<le> code a \<and> code a \<le> 239 then
        (case s of b # c # s3 \<Rightarrow> cont_byte b \<and> cont_byte c \<and>
            (code a = 224 \<longrightarrow> 160 \<le> code b) \<and> (code a = 237 \<longrightarrow> code b \<le> 159) \<and> utf8_valid s3
         | _ \<Rightarrow> False)
      else if 240 \<le> code a \<and> code a \<le> 244 then
        (case s of b # c # d # s4 \<Rightarrow> cont_byte b \<and> cont_byte c \<and> cont_byte d \<and>
            (code a = 240 \<longrightarrow> 144 \<le> code b) \<and> (code a = 244 \<longrightarrow> code b \<le> 143) \<and> utf8_valid s4
         | _ \<Rightarrow> False)
      else False)"

definition utf8_encode :: "nat \<Rightarrow> string" where
  "utf8_encode n =
     (if n < 128 then [char_of n]
      else if n < 2048 then [char_of (192 + n div 64), char_of (128 + n mod 64)]
      else if n < 65536 then [char_of (224 + n div 4096), char_of (128 + n div 64 mod 64),
                              char_of (128 + n mod 64)]
      else [char_of (240 + n div 262144), char_of (128 + n div 4096 mod 64),
            char_of (128 + n div 64 mod 64), char_of (128 + n mod 64)])"

definition disallowed_control :: "char \<Rightarrow> bool" where
  "disallowed_control c \<longleftrightarrow> code c < 32 \<and> c \<noteq> TAB \<or> code c = 127"

definition hasDisallowedStringControl :: "string \<Rightarrow> bool" where
  "hasDisallowedStringControl v = list_ex disallowed_control v"

definition hex_digit :: "char \<Rightarrow> bool" where
  "hex_digit c \<longleftrightarrow> 48 \<le> code c \<and> code c \<le> 57 \<or> 97 \<le> code c \<and> code c \<le> 102 \<or> 65 \<le> code c \<and> code c \<le> 70"

definition isHexadecimal :: "string \<Rightarrow> bool" where
  "isHexadecimal v \<longleftrightarrow> v \<noteq> [] \<and> list_all hex_digit v"

definition hex_value :: "char \<Rightarrow> nat" where
  "hex_value c = (if code c \<le> 57 then code c - 48 else if code c \<le> 70 then code c - 55 else code c - 87)"

section \<open>Values\<close>

text \<open>
  \<^verbatim>\<open>validateConfigurationBasicString\<close>, on the text between the quotes: \<open>None\<close> when it is valid.
\<close>

function validateConfigurationBasicString :: "string \<Rightarrow> string option" where
  "validateConfigurationBasicString s =
     (case s of
        [] \<Rightarrow> None
      | c # r \<Rightarrow>
          if c = QT then Some ''unescaped quote''
          else if c \<noteq> BS then
            (if disallowed_control c then Some ''disallowed control character''
             else validateConfigurationBasicString r)
          else (case r of
              [] \<Rightarrow> Some ''unterminated escape sequence''
            | e # r2 \<Rightarrow>
                if e \<in> {CHR ''b'', CHR ''t'', CHR ''n'', CHR ''f'', CHR ''r'', QT, BS}
                then validateConfigurationBasicString r2
                else if e = CHR ''u'' \<or> e = CHR ''U'' then
                  (let digits = (if e = CHR ''U'' then 8 else 4) in
                   if length r2 < digits \<or> \<not> isHexadecimal (take digits r2)
                   then Some ''invalid Unicode escape sequence''
                   else validateConfigurationBasicString (drop digits r2))
                else Some ''unsupported escape sequence''))"
  by pat_completeness auto
termination by (relation "measure length") auto

declare validateConfigurationBasicString.simps [simp del]

text \<open>
  \<^verbatim>\<open>strconv.Unquote\<close> on the text between the quotes, for the escapes that the validation lets
  through; a Unicode escape must denote a code point that is no surrogate.
\<close>

definition escaped_char :: "char \<Rightarrow> char" where
  "escaped_char e = (if e = CHR ''b'' then CHR 0x08 else if e = CHR ''t'' then TAB
     else if e = CHR ''n'' then NL else if e = CHR ''f'' then CHR 0x0C
     else if e = CHR ''r'' then CHR 0x0D else e)"

definition valid_rune :: "nat \<Rightarrow> bool" where
  "valid_rune n \<longleftrightarrow> n < 55296 \<or> 57344 \<le> n \<and> n \<le> 1114111"

function unquote :: "string \<Rightarrow> string option" where
  "unquote s =
     (case s of
        [] \<Rightarrow> Some []
      | c # r \<Rightarrow>
          if c = QT \<or> c = NL then None
          else if c \<noteq> BS then map_option ((#) c) (unquote r)
          else (case r of
              [] \<Rightarrow> None
            | e # r2 \<Rightarrow>
                if e = CHR ''u'' \<or> e = CHR ''U'' then
                  (let digits = (if e = CHR ''U'' then 8 else 4);
                       n = foldl (\<lambda>a d. a * 16 + hex_value d) 0 (take digits r2) in
                   if length r2 < digits \<or> \<not> valid_rune n then None
                   else map_option ((@) (utf8_encode n)) (unquote (drop digits r2)))
                else if e \<in> {CHR ''b'', CHR ''t'', CHR ''n'', CHR ''f'', CHR ''r'', QT, BS}
                then map_option ((#) (escaped_char e)) (unquote r2)
                else None))"
  by pat_completeness auto
termination by (relation "measure length") auto

declare unquote.simps [simp del]

definition parseConfigurationString :: "string \<Rightarrow> string + string" where
  "parseConfigurationString raw0 =
     (let raw = trimSpace raw0; body = butlast (tl raw) in
      if length raw < 2 then Inl ''expected a quoted string''
      else if hd raw = AP then
        (if last raw \<noteq> AP \<or> AP \<in> set body then Inl ''malformed literal string''
         else if hasDisallowedStringControl body then Inl ''disallowed control character''
         else Inr body)
      else if hd raw = QT then
        (if last raw \<noteq> QT then Inl ''unterminated basic string''
         else case validateConfigurationBasicString body of
           Some e \<Rightarrow> Inl e
         | None \<Rightarrow> (case unquote body of None \<Rightarrow> Inl ''malformed basic string'' | Some v \<Rightarrow> Inr v))
      else Inl ''expected a quoted string'')"

text \<open>Arrays of strings. \<open>scan_element\<close> finds the end of one quoted element.\<close>

definition array_space :: "char \<Rightarrow> bool" where
  "array_space c \<longleftrightarrow> c = CHR '' '' \<or> c = TAB \<or> c = CHR 0x0D"

text \<open>
  The scan after the opening quote: the consumed text and the rest. \<open>None\<close> when a backslash is the
  last byte, where the source steps past the end.
\<close>

fun scan_element :: "char \<Rightarrow> string \<Rightarrow> (string \<times> string) option" where
  "scan_element q [] = Some ([], [])"
| "scan_element q (c # s) =
     (if q = QT \<and> c = BS then
        (case s of [] \<Rightarrow> None | d # r \<Rightarrow> map_option (\<lambda>(a, b). (c # d # a, b)) (scan_element q r))
      else if c = q then Some ([c], s)
      else map_option (\<lambda>(a, b). (c # a, b)) (scan_element q s))"

lemma scan_element_length: "scan_element q s = Some (a, b) \<Longrightarrow> length b \<le> length s"
proof (induction q s arbitrary: a rule: scan_element.induct)
  case (2 q c s)
  then show ?case by (fastforce split: if_splits list.splits)
qed simp

function array_elements :: "string \<Rightarrow> string + string list" where
  "array_elements body =
     (case dropWhile array_space body of
        [] \<Rightarrow> Inr []
      | q # s \<Rightarrow>
          if q \<noteq> QT \<and> q \<noteq> AP then Inl ''array element must be a quoted string''
          else (case scan_element q s of
              None \<Rightarrow> Inl ''unterminated string array element''
            | Some (a, rest) \<Rightarrow>
                if last (q # a) \<noteq> q then Inl ''unterminated string array element''
                else bind_res (parseConfigurationString (q # a)) (\<lambda>v.
                  case dropWhile array_space rest of
                    [] \<Rightarrow> Inr [v]
                  | c # rest2 \<Rightarrow>
                      if c \<noteq> CHR '','' then Inl ''expected a comma between array elements''
                      else bind_res (array_elements rest2) (\<lambda>vs. Inr (v # vs)))))"
  by pat_completeness auto
termination
proof (relation "measure length", goal_cases)
  case (2 body q s t a rest v c rest2)
  have "length (dropWhile array_space body) \<le> length body" by (rule length_dropWhile_le)
  moreover have "length (dropWhile array_space rest) \<le> length rest" by (rule length_dropWhile_le)
  ultimately show ?case using 2 scan_element_length by fastforce
qed simp

declare array_elements.simps [simp del]

definition parseConfigurationStringArray :: "string \<Rightarrow> string + string list" where
  "parseConfigurationStringArray raw0 =
     (let raw = trimSpace raw0 in
      if length raw < 2 \<or> hd raw \<noteq> CHR ''['' \<or> last raw \<noteq> CHR '']''
      then Inl ''expected a one-line string array''
      else array_elements (butlast (tl raw)))"

text \<open>Decimal integers: an optional sign, digits grouped by single underscores, no leading zero.\<close>

definition is_digit :: "char \<Rightarrow> bool" where
  "is_digit c \<longleftrightarrow> 48 \<le> code c \<and> code c \<le> 57"

definition decimal :: "string \<Rightarrow> int" where
  "decimal s = foldl (\<lambda>a d. a * 10 + int (code d - 48)) 0 s"

definition parseInt64 :: "string \<Rightarrow> int option" where
  "parseInt64 s =
     (let neg = hasPrefix s ''-''; ds = (if neg \<or> hasPrefix s ''+'' then tl s else s);
          n = (if neg then - decimal ds else decimal ds) in
      if ds = [] \<or> \<not> list_all is_digit ds \<or> n < - (2 ^ 63) \<or> 2 ^ 63 \<le> n then None else Some n)"

definition parseConfigurationInteger :: "string \<Rightarrow> string + int" where
  "parseConfigurationInteger raw0 =
     (let raw = trimSpace raw0 in
      if raw = [] then Inl ''expected a decimal integer''
      else
        (let digits = (if hd raw = CHR ''+'' \<or> hd raw = CHR ''-'' then tl raw else raw) in
         if digits = [] then Inl ''expected a decimal integer''
         else if list_ex (\<lambda>i. \<not> is_digit (digits ! i) \<and>
                (digits ! i \<noteq> CHR ''_'' \<or> i = 0 \<or> i = length digits - 1 \<or>
                 digits ! (i - 1) = CHR ''_'' \<or> digits ! (i + 1) = CHR ''_'')) [0..<length digits]
         then Inl ''expected a decimal integer''
         else
           (let normalized = filter (\<lambda>c. c \<noteq> CHR ''_'') raw;
                unsigned = trimPrefix (trimPrefix normalized ''+'') ''-'' in
            if 1 < length unsigned \<and> hd unsigned = CHR ''0''
            then Inl ''decimal integer has a leading zero''
            else (case parseInt64 normalized of
                None \<Rightarrow> Inl ''expected a decimal integer''
              | Some n \<Rightarrow> Inr n))))"

section \<open>Lines, sections and settings\<close>

fun strip_from :: "char option \<Rightarrow> bool \<Rightarrow> string \<Rightarrow> string option" where
  "strip_from quote escaped [] = (if quote \<noteq> None \<or> escaped then None else Some [])"
| "strip_from quote escaped (c # s) =
     (if quote = Some QT \<and> escaped then map_option ((#) c) (strip_from quote False s)
      else if quote = Some QT \<and> c = BS then map_option ((#) c) (strip_from quote True s)
      else if quote \<noteq> None then
        map_option ((#) c) (strip_from (if quote = Some c then None else quote) escaped s)
      else if c = QT \<or> c = AP then map_option ((#) c) (strip_from (Some c) escaped s)
      else if c = CHR ''#'' then Some []
      else map_option ((#) c) (strip_from quote escaped s))"

definition stripConfigurationComment :: "string \<Rightarrow> config_error + string" where
  "stripConfigurationComment line =
     (case strip_from None False line of None \<Rightarrow> Inl UnterminatedQuote | Some l \<Rightarrow> Inr l)"

definition parseConfigurationSection :: "string \<Rightarrow> config_error + string" where
  "parseConfigurationSection line =
     (if \<not> hasSuffix line '']'' \<or> hasPrefix line ''[['' \<or> hasSuffix line '']]''
      then Inl (MalformedSection line)
      else
        (let section = trimSpace (butlast (tl line)) in
         if section \<in> {''storage'', ''gateway'', ''gateway.client'', ''gateway.llama-cpp'',
                        ''gateway.statistics''}
         then Inr section else Inl (UnknownSection section)))"

definition with_value :: "string \<Rightarrow> string + 'a \<Rightarrow> ('a \<Rightarrow> Configuration) \<Rightarrow> config_error + Configuration" where
  "with_value setting r f = (case r of Inl e \<Rightarrow> Inl (InvalidValue setting e) | Inr v \<Rightarrow> Inr (f v))"

definition applyConfigurationSetting ::
  "Configuration \<Rightarrow> string \<Rightarrow> string \<Rightarrow> string \<Rightarrow> config_error + Configuration" where
  "applyConfigurationSetting cfg section key rawValue =
     (let setting = section @ ''.'' @ key;
          str = with_value setting (parseConfigurationString rawValue);
          arr = with_value setting (parseConfigurationStringArray rawValue);
          num = with_value setting (parseConfigurationInteger rawValue) in
      if setting = ''storage.data_dir'' then str (\<lambda>v. cfg\<lparr>cfg_DataDir := Some v\<rparr>)
      else if setting = ''gateway.applications'' then arr (\<lambda>v. cfg\<lparr>cfg_Applications := v\<rparr>)
      else if setting = ''gateway.profile'' then str (\<lambda>v. cfg\<lparr>cfg_Profile := Some v\<rparr>)
      else if setting = ''gateway.render_nodes'' then arr (\<lambda>v. cfg\<lparr>cfg_RenderNodes := v\<rparr>)
      else if setting = ''gateway.listen'' then str (\<lambda>v. cfg\<lparr>cfg_Listen := Some v\<rparr>)
      else if setting = ''gateway.port'' then num (\<lambda>v. cfg\<lparr>cfg_Port := Some v\<rparr>)
      else if setting = ''gateway.startup_timeout'' then str (\<lambda>v. cfg\<lparr>cfg_StartupTimeout := Some v\<rparr>)
      else if setting = ''gateway.client.url'' then str (\<lambda>v. cfg\<lparr>cfg_ClientURL := Some v\<rparr>)
      else if setting = ''gateway.api_key_file'' \<or> setting = ''gateway.client.api_key_file'' then
        (if section = ''gateway'' then str (\<lambda>v. cfg\<lparr>cfg_APIKeyFile := Some v\<rparr>)
         else str (\<lambda>v. cfg\<lparr>cfg_ClientAPIKeyFile := Some v\<rparr>))
      else if setting = ''gateway.llama-cpp.backend'' then str (\<lambda>v. cfg\<lparr>cfg_Backend := Some v\<rparr>)
      else if setting = ''gateway.llama-cpp.models_max'' then num (\<lambda>v. cfg\<lparr>cfg_ModelsMax := Some v\<rparr>)
      else if setting = ''gateway.llama-cpp.slots'' then num (\<lambda>v. cfg\<lparr>cfg_Slots := Some v\<rparr>)
      else if setting = ''gateway.statistics.enabled'' then
        (if rawValue \<noteq> ''true'' \<and> rawValue \<noteq> ''false''
         then Inl (InvalidValue setting ''expected a boolean (true or false)'')
         else Inr (cfg\<lparr>cfg_StatisticsEnabled := Some (rawValue = ''true'')\<rparr>))
      else if setting = ''gateway.statistics.retention_days'' then
        num (\<lambda>v. cfg\<lparr>cfg_RetentionDays := Some v\<rparr>)
      else Inl (UnknownSetting setting))"

text \<open>The variables of the loop over the lines.\<close>

record parse_state =
  ps_configuration :: Configuration
  ps_section :: string
  ps_seenSections :: "string list"
  ps_seenSettings :: "string list"

definition parse_line :: "string \<Rightarrow> parse_state \<Rightarrow> config_error + parse_state" where
  "parse_line rawLine ps =
     bind_res (stripConfigurationComment rawLine) (\<lambda>stripped.
       (let line = trimSpace stripped in
        if line = [] then Inr ps
        else if hasPrefix line ''['' then
          bind_res (parseConfigurationSection line) (\<lambda>section.
            if section \<in> set (ps_seenSections ps) then Inl (DuplicateSection section)
            else Inr (ps\<lparr>ps_section := section, ps_seenSections := section # ps_seenSections ps\<rparr>))
        else (case cut (CHR ''='') line of
            None \<Rightarrow> Inl ExpectedKeyValue
          | Some (key0, raw0) \<Rightarrow>
              (let key = trimSpace key0; rawValue = trimSpace raw0;
                   setting = ps_section ps @ ''.'' @ key in
               if key = [] \<or> rawValue = [] then Inl ExpectedKeyValue
               else if ps_section ps = [] then Inl (OutsideSection key)
               else if CHR ''.'' \<in> set key then Inl (UnknownSetting setting)
               else if setting \<in> set (ps_seenSettings ps) then Inl (DuplicateSetting setting)
               else bind_res (applyConfigurationSetting (ps_configuration ps) (ps_section ps) key rawValue)
                 (\<lambda>cfg. Inr (ps\<lparr>ps_configuration := cfg,
                               ps_seenSettings := setting # ps_seenSettings ps\<rparr>))))))"

fun parse_lines :: "nat \<Rightarrow> string list \<Rightarrow> parse_state \<Rightarrow> config_error + parse_state" where
  "parse_lines n [] ps = Inr ps"
| "parse_lines n (l # ls) ps =
     (case parse_line l ps of Inl e \<Rightarrow> Inl (AtLine n e) | Inr ps2 \<Rightarrow> parse_lines (n + 1) ls ps2)"

definition initial_parse :: parse_state where
  "initial_parse = \<lparr>ps_configuration = empty_configuration, ps_section = [], ps_seenSections = [],
     ps_seenSettings = []\<rparr>"

definition parseConfiguration :: "string \<Rightarrow> config_error + Configuration" where
  "parseConfiguration contents =
     (if \<not> utf8_valid contents then Inl NotUTF8
      else bind_res (parse_lines 1 (split_on NL contents) initial_parse)
        (\<lambda>ps. Inr (ps_configuration ps)))"

section \<open>Environment, files and precedence\<close>

type_synonym environment = "string \<rightharpoonup> string"

definition env_get :: "environment \<Rightarrow> string \<Rightarrow> string" where
  "env_get environment name = (case environment name of None \<Rightarrow> [] | Some v \<Rightarrow> v)"

definition CommandName :: string where "CommandName = ''paracetamol''"

definition upper_char :: "char \<Rightarrow> char" where
  "upper_char c = (if 97 \<le> code c \<and> code c \<le> 122 then char_of (code c - 32) else c)"

definition is_letter :: "char \<Rightarrow> bool" where
  "is_letter c \<longleftrightarrow> 97 \<le> code c \<and> code c \<le> 122 \<or> 65 \<le> code c \<and> code c \<le> 90"

text \<open>The prefix that is derived from the (ASCII) command name when no build sets one.\<close>

definition EnvironmentPrefix :: string where
  "EnvironmentPrefix =
     map (\<lambda>c. if is_letter c \<or> is_digit c then upper_char c else CHR ''_'') CommandName"

definition EnvironmentValue :: "environment \<Rightarrow> string \<Rightarrow> string \<Rightarrow> string" where
  "EnvironmentValue environment name fallback =
     (case environment (EnvironmentPrefix @ ''_'' @ name) of Some v \<Rightarrow> v | None \<Rightarrow> fallback)"

record Selection =
  sel_Path :: string
  sel_Disabled :: bool

definition ConfigFile :: "environment \<Rightarrow> config_error + (string \<times> bool)" where
  "ConfigFile environment =
     (let xdg = env_get environment ''XDG_CONFIG_HOME''; home = env_get environment ''HOME'' in
      if xdg = [] \<and> home = [] then Inr ([], False)
      else
        (let root = (if xdg = [] then Join [home, ''.config''] else xdg) in
         if \<not> IsAbs root then Inl (FileError ''XDG_CONFIG_HOME must be an absolute path'')
         else Inr (Join [root, StateNamespace, ''config.toml''], True)))"

text \<open>
  \<^verbatim>\<open>filepath.Abs\<close> asks for the working directory of the process when the path is relative;
  \<open>cwd = None\<close> stands for a failure of that call. The result is path, available, explicit.
\<close>

definition ResolveFile ::
  "string option \<Rightarrow> environment \<Rightarrow> Selection \<Rightarrow> config_error + (string \<times> bool \<times> bool)" where
  "ResolveFile cwd environment selection =
     (if sel_Disabled selection \<and> sel_Path selection \<noteq> []
      then Inl (UsageError ''configuration path and disabled configuration are mutually exclusive'')
      else if sel_Disabled selection then Inr ([], False, False)
      else if sel_Path selection \<noteq> [] then
        (if \<not> IsAbs (sel_Path selection) \<and> cwd = None then Inl (FileError ''resolve configuration path'')
         else Inr (Clean (Abs (case cwd of None \<Rightarrow> [] | Some d \<Rightarrow> d) (sel_Path selection)), True, True))
      else bind_res (ConfigFile environment) (\<lambda>(path, available). Inr (path, available, False)))"

text \<open>What \<^verbatim>\<open>os.Lstat\<close> and \<^verbatim>\<open>os.ReadFile\<close> find at a path.\<close>

datatype host_file = Absent | Uninspectable | Irregular | RegularFile (hf_size: int) (hf_contents: "string option")

text \<open>The part of a parsed URL that the program reads, and the parser as a parameter.\<close>

record URL =
  url_Opaque :: string
  url_Scheme :: string
  url_Hostname :: string
  url_Host :: string
  url_User :: bool
  url_RawQuery :: string
  url_ForceQuery :: bool
  url_Fragment :: string
  url_Port :: string
  url_EscapedPath :: string
  url_Path :: string

record url_library =
  url_Parse :: "string \<Rightarrow> URL option"
  url_render :: "URL \<Rightarrow> string \<Rightarrow> string"

definition control_tokens :: "string list" where
  "control_tokens = map (\<lambda>n. [byte n]) ([0..<32] @ [127]) @ map (\<lambda>n. [byte 194, byte n]) [128..<160]"

definition has_space_or_control :: "string \<Rightarrow> bool" where
  "has_space_or_control v \<longleftrightarrow> list_ex (contains_sub v) (space_tokens @ control_tokens)"

definition NormalizeGatewayURL :: "url_library \<Rightarrow> string \<Rightarrow> string + string" where
  "NormalizeGatewayURL lib value =
     (if value = [] \<or> has_space_or_control value
      then Inl ''gateway URL must not be empty or contain whitespace''
      else (case url_Parse lib value of
          None \<Rightarrow> Inl ''gateway URL must be a credential-free HTTP(S) URL without a query or fragment''
        | Some u \<Rightarrow>
            if url_Opaque u \<noteq> [] \<or> (url_Scheme u \<noteq> ''http'' \<and> url_Scheme u \<noteq> ''https'') \<or>
               url_Hostname u = [] \<or> url_User u \<or> url_RawQuery u \<noteq> [] \<or> url_ForceQuery u \<or>
               url_Fragment u \<noteq> []
            then Inl ''gateway URL must be a credential-free HTTP(S) URL without a query or fragment''
            else if hasSuffix (url_Host u) '':'' then Inl ''invalid gateway URL port''
            else if url_Port u \<noteq> [] \<and>
              (case parseInt64 (url_Port u) of None \<Rightarrow> True | Some n \<Rightarrow> n < 1 \<or> 65535 < n)
            then Inl ''invalid gateway URL port''
            else if rev (dropWhile (\<lambda>c. c = SL) (rev (url_EscapedPath u))) \<noteq> ''/v1''
            then Inl ''gateway URL path must be /v1''
            else Inr (url_render lib u ''/v1'')))"

definition bad_path :: "string option \<Rightarrow> bool" where
  "bad_path v \<longleftrightarrow> (case v of None \<Rightarrow> False | Some p \<Rightarrow> p = [] \<or> \<not> IsAbs p)"

definition blank :: "string option \<Rightarrow> bool" where
  "blank v \<longleftrightarrow> (case v of None \<Rightarrow> False | Some p \<Rightarrow> trimSpace p = [])"

definition outside :: "int option \<Rightarrow> int \<Rightarrow> int \<Rightarrow> bool" where
  "outside v lo hi \<longleftrightarrow> (case v of None \<Rightarrow> False | Some n \<Rightarrow> n < lo \<or> hi < n)"

text \<open>The checks in the order of the source; the first that fails names its setting.\<close>

definition validateConfiguration :: "url_library \<Rightarrow> Configuration \<Rightarrow> string \<Rightarrow> config_error option" where
  "validateConfiguration lib cfg path =
     check_all (\<lambda>(failed, setting). if failed then Some (Rejected setting path) else None)
      [(list_ex (\<lambda>a. a \<noteq> ''llama-cpp'') (cfg_Applications cfg), ''[gateway].applications''),
       (bad_path (cfg_APIKeyFile cfg), ''[gateway].api_key_file''),
       (bad_path (cfg_ClientAPIKeyFile cfg), ''[gateway.client].api_key_file''),
       (bad_path (cfg_DataDir cfg), ''[storage].data_dir''),
       (blank (cfg_Profile cfg), ''[gateway].profile''),
       (blank (cfg_Listen cfg), ''[gateway].listen''),
       (blank (cfg_StartupTimeout cfg), ''[gateway].startup_timeout''),
       (blank (cfg_ClientURL cfg), ''[gateway.client].url''),
       (blank (cfg_Backend cfg), ''[gateway.llama-cpp].backend''),
       (outside (cfg_Port cfg) 1 65535, ''[gateway].port''),
       ((case cfg_ModelsMax cfg of None \<Rightarrow> False | Some n \<Rightarrow> n < 1), ''[gateway.llama-cpp].models_max''),
       (outside (cfg_Slots cfg) 1 64, ''[gateway.llama-cpp].slots''),
       (outside (cfg_RetentionDays cfg) 30 365, ''[gateway.statistics].retention_days''),
       ((case cfg_ClientURL cfg of None \<Rightarrow> False | Some u \<Rightarrow> \<not> is_ok (NormalizeGatewayURL lib u)),
        ''[gateway.client].url'')]"

definition maxFileSize :: int where "maxFileSize = 64 * 1024"

definition Load ::
  "url_library \<Rightarrow> string option \<Rightarrow> (string \<Rightarrow> host_file) \<Rightarrow> environment \<Rightarrow> Selection \<Rightarrow>
   config_error + Configuration" where
  "Load lib cwd files environment selection =
     bind_res (ResolveFile cwd environment selection) (\<lambda>(path, available, explicit).
       if \<not> available then Inr empty_configuration
       else (case files path of
           Absent \<Rightarrow> if explicit then Inl (FileError ''configuration does not exist'')
                     else Inr empty_configuration
         | Uninspectable \<Rightarrow> Inl (FileError ''cannot inspect configuration'')
         | Irregular \<Rightarrow> Inl (FileError ''configuration is not a regular file'')
         | RegularFile sz contents \<Rightarrow>
             if maxFileSize < sz then Inl (FileError ''configuration is unexpectedly large'')
             else (case contents of
                 None \<Rightarrow> Inl (FileError ''cannot read configuration'')
               | Some bytes \<Rightarrow>
                   bind_res (parseConfiguration bytes) (\<lambda>cfg.
                     case validateConfiguration lib cfg path of
                       Some e \<Rightarrow> Inl e
                     | None \<Rightarrow> Inr (cfg\<lparr>cfg_Path := path, cfg_Loaded := True\<rparr>)))))"

definition DefaultDataDirWithConfiguration :: "environment \<Rightarrow> Configuration \<Rightarrow> config_error + string" where
  "DefaultDataDirWithConfiguration environment cfg =
     (case cfg_DataDir cfg of
        Some d \<Rightarrow> Inr d
      | None \<Rightarrow>
          (let xdg = env_get environment ''XDG_DATA_HOME''; home = env_get environment ''HOME'' in
           if xdg = [] \<and> home = [] then Inl (FileError ''HOME is not set'')
           else
             (let root = (if xdg = [] then Join [home, ''.local'', ''share''] else xdg) in
              if \<not> IsAbs root then Inl (FileError ''XDG_DATA_HOME must be an absolute path'')
              else Inr (Join [root, StateNamespace]))))"

definition DefaultDataDir ::
  "url_library \<Rightarrow> string option \<Rightarrow> (string \<Rightarrow> host_file) \<Rightarrow> environment \<Rightarrow> config_error + string" where
  "DefaultDataDir lib cwd files environment =
     bind_res (Load lib cwd files environment \<lparr>sel_Path = [], sel_Disabled = False\<rparr>)
       (DefaultDataDirWithConfiguration environment)"

definition SelectDataDir :: "string \<Rightarrow> environment \<Rightarrow> Configuration \<Rightarrow> config_error + string" where
  "SelectDataDir flagValue environment cfg =
     (if flagValue \<noteq> [] then Inr flagValue
      else
        (let value = EnvironmentValue environment ''DATA_DIR'' [] in
         if value \<noteq> [] then Inr value else DefaultDataDirWithConfiguration environment cfg))"

definition DefaultGatewayURL :: string where "DefaultGatewayURL = ''http://127.0.0.1:7455/v1''"

definition SelectGatewayClientURL ::
  "url_library \<Rightarrow> string \<Rightarrow> environment \<Rightarrow> Configuration \<Rightarrow> string + string" where
  "SelectGatewayClientURL lib flagValue environment cfg =
     (let configured = (case cfg_ClientURL cfg of None \<Rightarrow> [] | Some u \<Rightarrow> u);
          candidates = [flagValue, EnvironmentValue environment ''GATEWAY_URL'' [], configured,
                        DefaultGatewayURL] in
      NormalizeGatewayURL lib (hd (filter (\<lambda>c. c \<noteq> []) candidates)))"

definition ValidatePort :: "string \<Rightarrow> config_error + int" where
  "ValidatePort value =
     (if value = [] \<or> \<not> list_all is_digit value then Inl (UsageError ''port must be an integer'')
      else (case parseInt64 value of
          None \<Rightarrow> Inl (UsageError ''port must be an integer'')
        | Some port \<Rightarrow>
            if port < 1 \<or> 65535 < port then Inl (UsageError ''port must be between 1 and 65535'')
            else Inr port))"

section \<open>Gateway keys\<close>

text \<open>What opening a key file without following a link yields: the mode of the opened file and its bytes.\<close>

datatype key_file =
    CannotOpen
  | Opened (kf_regular: "bool option") (kf_perm: nat) (kf_bytes: "string option")

definition key_char :: "char \<Rightarrow> bool" where
  "key_char c \<longleftrightarrow> is_letter c \<or> is_digit c \<or> c \<in> set ''-._~+/=''"

definition ValidateGatewayKey :: "string \<Rightarrow> string option" where
  "ValidateGatewayKey key =
     (if length key < 32 \<or> 512 < length key
      then Some ''gateway API key must contain 32 to 512 token characters''
      else if \<not> list_all key_char key
      then Some ''gateway API key must use only letters, digits or -._~+/=''
      else None)"

definition read_key :: "key_file \<Rightarrow> string + string" where
  "read_key f =
     (case f of
        CannotOpen \<Rightarrow> Inl ''cannot open gateway API-key file''
      | Opened regular perm bytes \<Rightarrow>
          if regular \<noteq> Some True then Inl ''gateway API-key file must be a regular file''
          else if perm mod 64 \<noteq> 0 then Inl ''gateway API-key file must be private (chmod 600)''
          else (case map_option (take 1025) bytes of
              None \<Rightarrow> Inl ''gateway API-key file is unreadable or too large''
            | Some contents \<Rightarrow>
                if 1024 < length contents then Inl ''gateway API-key file is unreadable or too large''
                else
                  (let key = trimSuffix (trimSuffix contents [NL]) [CHR 0x0D] in
                   case ValidateGatewayKey key of Some e \<Rightarrow> Inl e | None \<Rightarrow> Inr key)))"

definition selectGatewayKey ::
  "(string \<Rightarrow> key_file) \<Rightarrow> string \<Rightarrow> environment \<Rightarrow> string \<Rightarrow> string option \<Rightarrow> string + string" where
  "selectGatewayKey files flagPath environment name configured =
     bind_res
       (if flagPath \<noteq> [] then Inr flagPath
        else (case environment (EnvironmentPrefix @ ''_'' @ name) of
            Some v \<Rightarrow> if v = [] then Inl ''must name a private key file'' else Inr v
          | None \<Rightarrow> (case configured of
                None \<Rightarrow> Inr []
              | Some p \<Rightarrow> if p = [] then Inl ''configured gateway API-key file must not be empty''
                          else Inr p)))
       (\<lambda>path.
          if path = [] then Inr []
          else if \<not> IsAbs path then Inl ''gateway API-key file must be an absolute path''
          else read_key (files path))"

definition SelectGatewayServerKey ::
  "(string \<Rightarrow> key_file) \<Rightarrow> string \<Rightarrow> environment \<Rightarrow> Configuration \<Rightarrow> string + string" where
  "SelectGatewayServerKey files flagPath environment cfg =
     selectGatewayKey files flagPath environment ''GATEWAY_API_KEY_FILE'' (cfg_APIKeyFile cfg)"

definition SelectGatewayClientKey ::
  "(string \<Rightarrow> key_file) \<Rightarrow> string \<Rightarrow> environment \<Rightarrow> Configuration \<Rightarrow> string + string" where
  "SelectGatewayClientKey files flagPath environment cfg =
     selectGatewayKey files flagPath environment ''GATEWAY_CLIENT_API_KEY_FILE'' (cfg_ClientAPIKeyFile cfg)"

end
