(* ===== verification/Platform.thy ===== *)
theory Platform
  imports Config "HOL-Library.List_Lexorder" "HOL-Library.Char_ord"
begin

text \<open>
  Accelerator profiles and device selection: \<^verbatim>\<open>internal/platform/platform.go\<close>, \<^verbatim>\<open>amd_linux.go\<close> and
  \<^verbatim>\<open>model_profile_linux.go\<close>. What the file system shows (device nodes, the KFD topology) is an
  argument of the definitions. Strings are ordered by their bytes, as \<^verbatim>\<open>sort.Strings\<close> does.
\<close>

section \<open>Profiles\<close>

record Profile =
  pf_ID :: string
  pf_Vendor :: string
  pf_Architectures :: "string list"

definition VendorAMD :: string where "VendorAMD = ''amd''"

definition profiles :: "(string \<times> Profile) list" where
  "profiles =
    [(''rdna4'', \<lparr>pf_ID = ''rdna4'', pf_Vendor = VendorAMD, pf_Architectures = [''gfx1200'', ''gfx1201'']\<rparr>),
     (''strix-halo'', \<lparr>pf_ID = ''strix-halo'', pf_Vendor = VendorAMD, pf_Architectures = [''gfx1151'']\<rparr>),
     (''strix-point'', \<lparr>pf_ID = ''strix-point'', pf_Vendor = VendorAMD, pf_Architectures = [''gfx1150'']\<rparr>)]"

definition ProfileIDs :: "string list" where
  "ProfileIDs = [''rdna4'', ''strix-halo'', ''strix-point'']"

definition AllowedProfiles :: "string list" where
  "AllowedProfiles = [''auto'', ''rdna4'', ''strix-halo'', ''strix-point'', ''cpu'']"

definition LookupProfile :: "string \<Rightarrow> Profile option" where
  "LookupProfile identifier = lookup profiles identifier"

definition ProfileForArchitecture :: "string \<Rightarrow> Profile option" where
  "ProfileForArchitecture architecture =
     (case find (\<lambda>i. case lookup profiles i of
                   None \<Rightarrow> False | Some p \<Rightarrow> architecture \<in> set (pf_Architectures p)) ProfileIDs of
        None \<Rightarrow> None
      | Some identifier \<Rightarrow> LookupProfile identifier)"

definition ValidateProfile :: "string \<Rightarrow> bool" where
  "ValidateProfile identifier \<longleftrightarrow> identifier \<in> set AllowedProfiles"

definition SupportedArchitectures :: "string list" where
  "SupportedArchitectures = sort (concat (map (\<lambda>(_, p). pf_Architectures p) profiles))"

section \<open>Render nodes\<close>

datatype platform_error =
    ListExpected
  | NoRenderNodes
  | ManyRenderNodes "string list"
  | DuplicateNode
  | BadNode
  | NodeMissing string
  | NodeUninspectable string
  | NoAccess string
  | TopologyError string

definition RequestedRenderNodes ::
  "string list \<Rightarrow> bool \<Rightarrow> environment \<Rightarrow> platform_error + string list" where
  "RequestedRenderNodes values explicitlySet environment =
     (if explicitlySet then Inr values
      else (case environment (EnvironmentPrefix @ ''_RENDER_NODES'') of
          Some plural \<Rightarrow>
            (let parts = map trimSpace (split_on (CHR '','') plural) in
             if [] \<in> set parts then Inl ListExpected else Inr parts)
        | None \<Rightarrow>
            (let singular = env_get environment (EnvironmentPrefix @ ''_RENDER_NODE'') in
             if singular \<noteq> [] then Inr [singular] else Inr [])))"

definition render_prefix :: string where "render_prefix = ''/dev/dri/renderD''"

text \<open>The pattern \<^verbatim>\<open>^/dev/dri/renderD[0-9]+$\<close>.\<close>

definition renderNodePattern :: "string \<Rightarrow> bool" where
  "renderNodePattern node \<longleftrightarrow> hasPrefix node render_prefix \<and>
     drop (length render_prefix) node \<noteq> [] \<and> list_all is_digit (drop (length render_prefix) node)"

datatype node_status = Exists | Missing | Unreadable

fun check_nodes :: "(string \<Rightarrow> node_status) \<Rightarrow> string list \<Rightarrow> string list \<Rightarrow> platform_error option" where
  "check_nodes stat seen [] = None"
| "check_nodes stat seen (node # nodes) =
     (if node \<in> set seen then Some DuplicateNode
      else if \<not> renderNodePattern node then Some BadNode
      else (case stat node of
          Missing \<Rightarrow> Some (NodeMissing node)
        | Unreadable \<Rightarrow> Some (NodeUninspectable node)
        | Exists \<Rightarrow> check_nodes stat (node # seen) nodes))"

text \<open>\<open>globbed\<close> is what \<^verbatim>\<open>filepath.Glob\<close> finds.\<close>

definition SelectRenderNodes ::
  "string list \<Rightarrow> (string \<Rightarrow> node_status) \<Rightarrow> string list \<Rightarrow> platform_error + string list" where
  "SelectRenderNodes globbed stat requested =
     bind_res
       (if requested \<noteq> [] then Inr requested
        else (let nodes = sort globbed in
          if nodes = [] then Inl NoRenderNodes
          else if 1 < length nodes then Inl (ManyRenderNodes nodes)
          else Inr nodes))
       (\<lambda>selected. case check_nodes stat [] selected of Some e \<Rightarrow> Inl e | None \<Rightarrow> Inr selected)"

definition CheckDeviceAccess ::
  "(string \<Rightarrow> node_status) \<Rightarrow> (string \<Rightarrow> bool) \<Rightarrow> string \<Rightarrow> platform_error option" where
  "CheckDeviceAccess stat access device =
     (case stat device of
        Missing \<Rightarrow> Some (NodeMissing device)
      | Unreadable \<Rightarrow> Some (NodeUninspectable device)
      | Exists \<Rightarrow> if access device then None else Some (NoAccess device))"

definition CheckAMDDeviceAccess ::
  "(string \<Rightarrow> node_status) \<Rightarrow> (string \<Rightarrow> bool) \<Rightarrow> string list \<Rightarrow> platform_error option" where
  "CheckAMDDeviceAccess stat access renderNodes =
     check_all (CheckDeviceAccess stat access) (''/dev/kfd'' # renderNodes)"

section \<open>The model profile of the selected devices\<close>

text \<open>\<^verbatim>\<open>strings.Fields\<close>: \<open>acc\<close> is the field being read, reversed.\<close>

function fields_from :: "string \<Rightarrow> string \<Rightarrow> string list" where
  "fields_from acc s =
     (case s of
        [] \<Rightarrow> if acc = [] then [] else [rev acc]
      | c # r \<Rightarrow>
          (case find (\<lambda>t. t \<noteq> [] \<and> hasPrefix s t) space_tokens of
             Some t \<Rightarrow> (if acc = [] then [] else [rev acc]) @ fields_from [] (drop (length t) s)
           | None \<Rightarrow> fields_from (c # acc) r))"
  by pat_completeness auto
termination
proof (relation "measure (\<lambda>(a, s). length s)", goal_cases)
  case (3 acc s c r t)
  then show ?case by (auto simp: find_Some_iff)
qed auto

declare fields_from.simps [simp del]

definition Fields :: "string \<Rightarrow> string list" where
  "Fields s = fields_from [] s"

fun base_digits :: "nat \<Rightarrow> nat \<Rightarrow> string" where
  "base_digits b n =
     (if b < 2 \<or> n < b then [char_of (if n < 10 then 48 + n else 87 + n)]
      else base_digits b (n div b) @ [char_of (if n mod b < 10 then 48 + n mod b else 87 + n mod b)])"

declare base_digits.simps [simp del]

text \<open>The numbers of one \<^verbatim>\<open>properties\<close> file: \<^verbatim>\<open>drm_render_minor\<close> and \<^verbatim>\<open>gfx_target_version\<close>.\<close>

fun read_properties :: "(string \<times> int) list \<Rightarrow> string list \<Rightarrow> ((string \<times> int) list) option" where
  "read_properties values [] = Some values"
| "read_properties values (line # lines) =
     (let fs = Fields line in
      if length fs \<noteq> 2 \<or> (fs ! 0 \<noteq> ''drm_render_minor'' \<and> fs ! 0 \<noteq> ''gfx_target_version'')
      then read_properties values lines
      else (case parseInt64 (fs ! 1) of
          None \<Rightarrow> None
        | Some v \<Rightarrow>
            if lookup values (fs ! 0) \<noteq> None \<or> v < 0 then None
            else read_properties ((fs ! 0, v) # values) lines))"

definition property_value :: "(string \<times> int) list \<Rightarrow> string \<Rightarrow> int" where
  "property_value values name = (case lookup values name of None \<Rightarrow> 0 | Some v \<Rightarrow> v)"

definition architecture_name :: "int \<Rightarrow> string" where
  "architecture_name target = ''gfx'' @ base_digits 10 (nat (target div 10000))
     @ base_digits 16 (nat (target div 100 mod 100)) @ base_digits 16 (nat (target mod 100))"

fun read_topology ::
  "(string \<Rightarrow> string option) \<Rightarrow> string list \<Rightarrow> (int \<times> string) list \<Rightarrow> platform_error + (int \<times> string) list" where
  "read_topology properties [] byMinor = Inr byMinor"
| "read_topology properties (entry # entries) byMinor =
     (case properties entry of
        None \<Rightarrow> Inl (TopologyError ''read'')
      | Some contents \<Rightarrow>
          (case read_properties [] (split_on NL contents) of
             None \<Rightarrow> Inl (TopologyError ''invalid KFD topology property'')
           | Some values \<Rightarrow>
               (let minor = property_value values ''drm_render_minor'';
                    target = property_value values ''gfx_target_version'' in
                if minor = 0 \<and> target = 0 then read_topology properties entries byMinor
                else if minor < 128 \<or> target = 0 then Inl (TopologyError ''incomplete KFD GPU topology'')
                else if lookup byMinor minor \<noteq> None then Inl (TopologyError ''ambiguous KFD render node'')
                else read_topology properties entries ((minor, architecture_name target) # byMinor))))"

text \<open>The value of \<^verbatim>\<open>strconv.Atoi\<close> on digits, its error ignored: out of range it is the largest number.\<close>

definition atoi_digits :: "string \<Rightarrow> int" where
  "atoi_digits s = (case parseInt64 s of None \<Rightarrow> 2 ^ 63 - 1 | Some n \<Rightarrow> n)"

fun common_profile ::
  "(int \<times> string) list \<Rightarrow> string list \<Rightarrow> string \<Rightarrow> string list \<Rightarrow> platform_error + string" where
  "common_profile byMinor seen selected [] = Inr selected"
| "common_profile byMinor seen selected (node # nodes) =
     (if \<not> renderNodePattern node \<or> node \<in> set seen
      then Inl (TopologyError ''invalid selected render node'')
      else
        (let minor = atoi_digits (trimPrefix node render_prefix);
             architecture = (case lookup byMinor minor of None \<Rightarrow> [] | Some a \<Rightarrow> a) in
         case ProfileForArchitecture architecture of
           None \<Rightarrow> Inl (TopologyError ''selected devices have unknown or mixed profiles'')
         | Some profile \<Rightarrow>
             if selected \<noteq> [] \<and> selected \<noteq> pf_ID profile
             then Inl (TopologyError ''selected devices have unknown or mixed profiles'')
             else common_profile byMinor (node # seen) (pf_ID profile) nodes))"

definition detectModelProfile ::
  "string list option \<Rightarrow> (string \<Rightarrow> string option) \<Rightarrow> string list \<Rightarrow> platform_error + string" where
  "detectModelProfile entries properties renderNodes =
     (if renderNodes = [] then Inl (TopologyError ''no selected render nodes'')
      else (case entries of
          None \<Rightarrow> Inl (TopologyError ''read'')
        | Some es \<Rightarrow>
            bind_res (read_topology properties es []) (\<lambda>byMinor. common_profile byMinor [] [] renderNodes)))"

definition ModelProfile ::
  "string list option \<Rightarrow> (string \<Rightarrow> string option) \<Rightarrow> string \<Rightarrow> string list \<Rightarrow> string" where
  "ModelProfile entries properties profile renderNodes =
     (if profile \<noteq> ''auto'' then profile
      else (case detectModelProfile entries properties renderNodes of
          Inl _ \<Rightarrow> ''auto'' | Inr detected \<Rightarrow> detected))"

section \<open>A detected profile is the profile of every selected device\<close>

lemma ProfileForArchitecture_id:
  "ProfileForArchitecture a = Some p \<Longrightarrow> a \<in> set (pf_Architectures p) \<and> pf_ID p \<in> set ProfileIDs"
  by (auto simp: ProfileForArchitecture_def LookupProfile_def ProfileIDs_def profiles_def split: if_splits)

text \<open>The device of a node: the architecture that the topology gives for its minor number.\<close>

definition node_architecture :: "(int \<times> string) list \<Rightarrow> string \<Rightarrow> string" where
  "node_architecture byMinor node =
     (case lookup byMinor (atoi_digits (trimPrefix node render_prefix)) of None \<Rightarrow> [] | Some a \<Rightarrow> a)"

lemma common_profile_sound:
  assumes "common_profile byMinor seen selected nodes = Inr p"
  shows "(\<forall>n\<in>set nodes. renderNodePattern n \<and>
            (\<exists>q. ProfileForArchitecture (node_architecture byMinor n) = Some q \<and> pf_ID q = p)) \<and>
         distinct nodes \<and> set nodes \<inter> set seen = {} \<and> (selected \<noteq> [] \<longrightarrow> p = selected)"
  using assms
proof (induction byMinor seen selected nodes rule: common_profile.induct)
  case (2 byMinor seen selected node nodes)
  let ?a = "node_architecture byMinor node"
  obtain q where q: "renderNodePattern node" "node \<notin> set seen" "ProfileForArchitecture ?a = Some q"
    "selected = [] \<or> selected = pf_ID q" "common_profile byMinor (node # seen) (pf_ID q) nodes = Inr p"
    using "2.prems" by (auto simp: Let_def node_architecture_def split: if_splits option.splits)
  have "pf_ID q \<noteq> []"
    using ProfileForArchitecture_id [OF q(3)] by (auto simp: ProfileIDs_def)
  moreover have "(\<forall>n\<in>set nodes. renderNodePattern n \<and>
            (\<exists>q. ProfileForArchitecture (node_architecture byMinor n) = Some q \<and> pf_ID q = p)) \<and>
         distinct nodes \<and> set nodes \<inter> set (node # seen) = {} \<and> (pf_ID q \<noteq> [] \<longrightarrow> p = pf_ID q)"
    using "2.IH" q by (auto simp: node_architecture_def Let_def)
  ultimately show ?case using q by auto
qed simp

end
