(* ===== verification/BuildPlan.thy ===== *)
theory BuildPlan
  imports Platform
begin

text \<open>
  The application registry (\<^verbatim>\<open>internal/application/registry.go\<close>) and the build plan
  (\<^verbatim>\<open>internal/buildplan/build.go\<close>): the closed tables of applications and build units, their
  validation, the closure of build dependencies in build order, and the podman command of each
  step.
\<close>

section \<open>The registry\<close>

record Action =
  ac_Arguments :: "string list"
  ac_Description :: string

record Spec =
  sp_ID :: string
  sp_DisplayName :: string
  sp_Summary :: string
  sp_Image :: string
  sp_ContainerName :: string
  sp_Build :: string
  sp_Port :: int
  sp_RuntimeFamily :: string
  sp_Modes :: "string list"
  sp_Shell :: bool
  sp_Logs :: bool
  sp_MultiGPU :: bool
  sp_PyTorchBase :: bool
  sp_AfterBuild :: "Action list"
  sp_AfterContent :: "Action list"

record BuildUnit =
  bu_ID :: string
  bu_DisplayName :: string
  bu_Target :: string
  bu_Image :: string
  bu_Prerequisites :: "string list"
  bu_Application :: string

definition ImageNamespace :: string where "ImageNamespace = ''localhost/paracetamol''"
definition Image :: "string \<Rightarrow> string" where "Image tag = ImageNamespace @ '':'' @ tag"
definition Container :: "string \<Rightarrow> string" where "Container suffix = StateNamespace @ ''-'' @ suffix"

definition ActionCommand :: "Action \<Rightarrow> string" where
  "ActionCommand action = join_with '' '' ((''./'' @ CommandName) # ac_Arguments action)"

definition comfyui_spec :: Spec where
  "comfyui_spec = \<lparr>sp_ID = ''comfyui'', sp_DisplayName = ''ComfyUI'',
     sp_Summary = ''image and video generation with curated workflows'',
     sp_Image = Image ''comfyui-ubuntu26.04-rocm10.1-0.28.0-r14'',
     sp_ContainerName = Container ''comfyui'', sp_Build = ''comfyui'', sp_Port = 8188,
     sp_RuntimeFamily = ''rocm'', sp_Modes = [''server''], sp_Shell = True, sp_Logs = True,
     sp_MultiGPU = True, sp_PyTorchBase = True,
     sp_AfterBuild = [\<lparr>ac_Arguments = [''content'', ''install'', ''comfyui''],
       ac_Description = ''choose a reviewed ComfyUI recipe''\<rparr>],
     sp_AfterContent = [\<lparr>ac_Arguments = [''run'', ''comfyui''],
       ac_Description = ''start the private web application''\<rparr>]\<rparr>"

definition llama_cpp_spec :: Spec where
  "llama_cpp_spec = \<lparr>sp_ID = ''llama-cpp'', sp_DisplayName = ''llama.cpp'',
     sp_Summary = ''local GGUF inference, routing, and native throughput tests'',
     sp_Image = Image ''llama-cpp-ubuntu26.04-rocm10.1-740251a-r71'',
     sp_ContainerName = Container ''llama-cpp'', sp_Build = ''llama-cpp'', sp_Port = 8080,
     sp_RuntimeFamily = ''rocm'', sp_Modes = [''server'', ''cli''], sp_Shell = True, sp_Logs = True,
     sp_MultiGPU = True, sp_PyTorchBase = False,
     sp_AfterBuild = [\<lparr>ac_Arguments = [''content'', ''install'', ''llama-cpp'', ''qwen3.8-flash-next''],
       ac_Description = ''install the recommended Qwen3.8 Flash-Next DFlash2 selection''\<rparr>],
     sp_AfterContent = [\<lparr>ac_Arguments = [''run'', ''llama-cpp'', ''server'', ''--preset'',
         ''unsloth-qwen3.8-flash-next-125b-a6b-ud-q4-k-xl-dflash2''],
       ac_Description = ''start the default direct-model server''\<rparr>]\<rparr>"

definition specs :: "Spec list" where
  "specs = [comfyui_spec, llama_cpp_spec]"

definition units :: "BuildUnit list" where
  "units =
    [\<lparr>bu_ID = ''runtime'', bu_DisplayName = ''minimal ROCm runtime'', bu_Target = ''rocm-runtime'',
      bu_Image = Image ''runtime-ubuntu26.04-rocm10.1-r5'', bu_Prerequisites = [], bu_Application = []\<rparr>,
     \<lparr>bu_ID = ''pytorch-base'', bu_DisplayName = ''ROCm/PyTorch base'', bu_Target = ''rocm-base'',
      bu_Image = Image ''base-ubuntu26.04-rocm10.1-torch2.14-r8'', bu_Prerequisites = [''runtime''],
      bu_Application = []\<rparr>,
     \<lparr>bu_ID = ''content-tools'', bu_DisplayName = ''content tools'', bu_Target = ''content-tools'',
      bu_Image = Image ''content-ubuntu26.04-huggingface2.4-r2'', bu_Prerequisites = [],
      bu_Application = []\<rparr>,
     \<lparr>bu_ID = ''comfyui'', bu_DisplayName = ''ComfyUI'', bu_Target = ''comfyui'',
      bu_Image = sp_Image comfyui_spec, bu_Prerequisites = [''pytorch-base''],
      bu_Application = ''comfyui''\<rparr>,
     \<lparr>bu_ID = ''llama-cpp'', bu_DisplayName = ''llama.cpp'', bu_Target = ''llama-cpp'',
      bu_Image = sp_Image llama_cpp_spec, bu_Prerequisites = [''runtime''],
      bu_Application = ''llama-cpp''\<rparr>]"

definition ByID :: "string \<Rightarrow> Spec option" where
  "ByID v = find (\<lambda>spec. sp_ID spec = v) specs"

definition BuildUnitByID :: "BuildUnit list \<Rightarrow> string \<Rightarrow> BuildUnit option" where
  "BuildUnitByID us v = find (\<lambda>u. bu_ID u = v) us"

section \<open>The closure of build dependencies\<close>

datatype build_error =
    UnknownUnit string
  | DependencyCycle string
  | Registry string string
  | PlanError string

text \<open>
  \<^verbatim>\<open>BuildClosure\<close> marks a unit 1 while its prerequisites are visited and 2 when it is appended to
  the order. A failed visit ends the whole call, so the units marked 1 are exactly the units on the
  call stack (\<open>path\<close>) and those marked 2 are the ones in \<open>ordered\<close>. The index is a map built from
  the table, so a later unit would replace an earlier one of the same id.
\<close>

definition unit_index :: "BuildUnit list \<Rightarrow> string \<Rightarrow> BuildUnit option" where
  "unit_index us v = find (\<lambda>u. bu_ID u = v) (rev us)"

definition unvisited :: "BuildUnit list \<Rightarrow> string list \<Rightarrow> nat" where
  "unvisited us path = card (bu_ID ` set us - set path)"

lemma unit_index_Some: "unit_index us v = Some u \<Longrightarrow> u \<in> set us \<and> bu_ID u = v"
  by (metis (mono_tags, lifting) find_Some_iff nth_mem set_rev unit_index_def)

lemma unvisited_less:
  assumes "unit_index us v = Some u" "v \<notin> set path"
  shows "unvisited us (v # path) < unvisited us path"
proof -
  have "v \<in> bu_ID ` set us - set path"
    using unit_index_Some [OF assms(1)] assms(2) by auto
  moreover have "bu_ID ` set us - set (v # path) = (bu_ID ` set us - set path) - {v}" by auto
  ultimately show ?thesis unfolding unvisited_def by (metis card_Diff1_less finite_Diff finite_imageI List.finite_set)
qed

function visit :: "BuildUnit list \<Rightarrow> string list \<Rightarrow> string \<Rightarrow> BuildUnit list \<Rightarrow> build_error + BuildUnit list"
  and visit_all :: "BuildUnit list \<Rightarrow> string list \<Rightarrow> string list \<Rightarrow> BuildUnit list \<Rightarrow> build_error + BuildUnit list"
where
  "visit us path v ordered =
     (case unit_index us v of
        None \<Rightarrow> Inl (UnknownUnit v)
      | Some u \<Rightarrow>
          if v \<in> bu_ID ` set ordered then Inr ordered
          else if v \<in> set path then Inl (DependencyCycle v)
          else (case visit_all us (v # path) (bu_Prerequisites u) ordered of
              Inl e \<Rightarrow> Inl e
            | Inr ordered2 \<Rightarrow> Inr (ordered2 @ [u])))"
| "visit_all us path [] ordered = Inr ordered"
| "visit_all us path (v # vs) ordered =
     (case visit us path v ordered of Inl e \<Rightarrow> Inl e | Inr ordered2 \<Rightarrow> visit_all us path vs ordered2)"
  by pat_completeness auto

termination
  by (relation "inv_image (less_than <*lex*> less_than)
      (\<lambda>x. case x of Inl (us, path, v, ord) \<Rightarrow> (unvisited us path, 0)
                   | Inr (us, path, vs, ord) \<Rightarrow> (unvisited us path, Suc (length vs)))")
    (auto intro: unvisited_less)

declare visit.simps [simp del]

definition BuildClosure :: "BuildUnit list \<Rightarrow> string list \<Rightarrow> build_error + BuildUnit list" where
  "BuildClosure us targets = visit_all us [] targets []"

text \<open>An order in which every unit follows its prerequisites.\<close>

definition build_order :: "BuildUnit list \<Rightarrow> bool" where
  "build_order us \<longleftrightarrow> distinct (map bu_ID us) \<and>
     (\<forall>i < length us. set (bu_Prerequisites (us ! i)) \<subseteq> bu_ID ` set (take i us))"

lemma build_order_empty: "build_order []"
  by (simp add: build_order_def)

lemma build_order_snoc:
  "build_order us \<Longrightarrow> bu_ID u \<notin> bu_ID ` set us \<Longrightarrow> set (bu_Prerequisites u) \<subseteq> bu_ID ` set us \<Longrightarrow>
   build_order (us @ [u])"
  by (auto simp: build_order_def nth_append less_Suc_eq)

text \<open>The dependency relation of a table, and what a successful visit establishes.\<close>

definition depends :: "BuildUnit list \<Rightarrow> (string \<times> string) set" where
  "depends us = {(v, w). \<exists>u. unit_index us v = Some u \<and> w \<in> set (bu_Prerequisites u)}"

definition extends :: "BuildUnit list \<Rightarrow> string list \<Rightarrow> BuildUnit list \<Rightarrow> string list \<Rightarrow> BuildUnit list \<Rightarrow> bool" where
  "extends us path before vs after \<longleftrightarrow>
     build_order after \<and> set vs \<subseteq> bu_ID ` set after \<and>
     (\<exists>new. after = before @ new \<and>
       (\<forall>u\<in>set new. bu_ID u \<notin> set path \<and> unit_index us (bu_ID u) = Some u \<and>
          bu_ID u \<in> (depends us)\<^sup>* `` set vs))"

lemma extends_trans:
  "extends us path a [v] b \<Longrightarrow> extends us path b vs c \<Longrightarrow> extends us path a (v # vs) c"
  unfolding extends_def by (elim conjE exE) (auto simp: Image_def; blast)

lemma depends_step: "unit_index us v = Some u \<Longrightarrow> (depends us)\<^sup>* `` set (bu_Prerequisites u) \<subseteq> (depends us)\<^sup>* `` {v}"
  unfolding depends_def by (auto intro: converse_rtrancl_into_rtrancl)

lemma extends_unit:
  assumes ext: "extends us (v # path) ordered (bu_Prerequisites u) o2"
    and u: "unit_index us v = Some u" and v: "v \<notin> bu_ID ` set ordered" "v \<notin> set path"
  shows "extends us path ordered [v] (o2 @ [u])"
proof -
  have id: "bu_ID u = v" using unit_index_Some [OF u] by simp
  obtain new where new: "o2 = ordered @ new" "\<forall>w\<in>set new. bu_ID w \<notin> set (v # path) \<and>
      unit_index us (bu_ID w) = Some w \<and> bu_ID w \<in> (depends us)\<^sup>* `` set (bu_Prerequisites u)"
    using ext by (auto simp: extends_def)
  have "build_order (o2 @ [u])"
    by (rule build_order_snoc) (use ext v new id in \<open>auto simp: extends_def\<close>)
  moreover have "\<forall>w\<in>set (new @ [u]). bu_ID w \<notin> set path \<and> unit_index us (bu_ID w) = Some w \<and>
      bu_ID w \<in> (depends us)\<^sup>* `` set [v]"
    using new(2) depends_step [OF u] u v(2) id by auto
  ultimately show ?thesis unfolding extends_def using new(1) id by auto
qed

lemma visit_extends:
  "build_order ordered \<Longrightarrow> visit us path v ordered = Inr after \<Longrightarrow> extends us path ordered [v] after"
  "build_order ordered \<Longrightarrow> visit_all us path vs ordered = Inr after \<Longrightarrow> extends us path ordered vs after"
proof (induction us path v ordered and us path vs ordered arbitrary: after and after rule: visit_visit_all.induct)
  case (1 us path v ordered)
  from "1.prems"(2) obtain u where u: "unit_index us v = Some u"
    by (auto simp: visit.simps split: option.splits)
  show ?case
  proof (cases "v \<in> bu_ID ` set ordered")
    case True
    with "1.prems" u show ?thesis by (auto simp: visit.simps extends_def)
  next
    case False
    then obtain o2 where o2: "v \<notin> set path" "visit_all us (v # path) (bu_Prerequisites u) ordered = Inr o2"
      "after = o2 @ [u]"
      using "1.prems"(2) u by (auto simp: visit.simps split: if_splits sum.splits)
    have "extends us (v # path) ordered (bu_Prerequisites u) o2"
      using "1.IH" [OF u False o2(1) "1.prems"(1) o2(2)] .
    then show ?thesis using extends_unit u False o2 by blast
  qed
next
  case (3 us path v vs ordered)
  then obtain o1 where o1: "visit us path v ordered = Inr o1" "visit_all us path vs o1 = Inr after"
    by (auto split: sum.splits)
  have e1: "extends us path ordered [v] o1" using 3 o1(1) by blast
  then have "extends us path o1 vs after" using 3 o1 by (auto simp: extends_def)
  with e1 show ?case by (rule extends_trans)
qed (simp add: extends_def)

text \<open>What an error means: the named unit is reached and is unknown or lies on a cycle.\<close>

definition explains :: "BuildUnit list \<Rightarrow> string set \<Rightarrow> build_error \<Rightarrow> bool" where
  "explains us vs e = (case e of
      UnknownUnit w \<Rightarrow> unit_index us w = None \<and> w \<in> (depends us)\<^sup>* `` vs
    | DependencyCycle w \<Rightarrow> (w, w) \<in> (depends us)\<^sup>+ \<and> w \<in> (depends us)\<^sup>* `` vs
    | _ \<Rightarrow> False)"

lemma explains_mono: "explains us vs e \<Longrightarrow> (depends us)\<^sup>* `` vs \<subseteq> (depends us)\<^sup>* `` ws \<Longrightarrow> explains us ws e"
  by (auto simp: explains_def split: build_error.splits)

lemma visit_explains:
  "(\<And>p. p \<in> set path \<Longrightarrow> (p, v) \<in> (depends us)\<^sup>+) \<Longrightarrow>
   visit us path v ordered = Inl e \<Longrightarrow> explains us {v} e"
  "(\<And>p w. p \<in> set path \<Longrightarrow> w \<in> set vs \<Longrightarrow> (p, w) \<in> (depends us)\<^sup>+) \<Longrightarrow>
   visit_all us path vs ordered = Inl e \<Longrightarrow> explains us (set vs) e"
proof (induction us path v ordered and us path vs ordered rule: visit_visit_all.induct)
  case (1 us path v ordered)
  show ?case
  proof (cases "unit_index us v")
    case None
    with "1.prems"(2) show ?thesis by (auto simp: visit.simps explains_def)
  next
    case (Some u)
    show ?thesis
    proof (cases "v \<in> set path")
      case True
      with Some 1 show ?thesis by (auto simp: visit.simps explains_def split: if_splits)
    next
      case False
      have v: "v \<notin> bu_ID ` set ordered" "visit_all us (v # path) (bu_Prerequisites u) ordered = Inl e"
        using "1.prems"(2) Some False by (auto simp: visit.simps split: if_splits sum.splits)
      have "(p, w) \<in> (depends us)\<^sup>+" if "p \<in> set (v # path)" "w \<in> set (bu_Prerequisites u)" for p w
      proof -
        have "(v, w) \<in> depends us" using that(2) Some by (auto simp: depends_def)
        then show ?thesis using that(1) "1.prems"(1) by (auto intro: trancl_into_trancl)
      qed
      then have "explains us (set (bu_Prerequisites u)) e"
        using "1.IH" [OF Some v(1) False _ v(2)] by blast
      then show ?thesis using depends_step [OF Some] by (rule explains_mono)
    qed
  qed
next
  case (3 us path v vs ordered)
  show ?case
  proof (cases "visit us path v ordered")
    case (Inl e2)
    with 3 have "explains us {v} e" by auto
    then show ?thesis by (rule explains_mono) auto
  next
    case (Inr o1)
    with 3 have "explains us (set vs) e" by auto
    then show ?thesis by (rule explains_mono) auto
  qed
qed simp

lemma build_order_closed:
  assumes "build_order ordered" and "\<And>u. u \<in> set ordered \<Longrightarrow> unit_index us (bu_ID u) = Some u"
    and "set vs \<subseteq> bu_ID ` set ordered"
  shows "(depends us)\<^sup>* `` set vs \<subseteq> bu_ID ` set ordered"
proof -
  have "depends us `` (bu_ID ` set ordered) \<subseteq> bu_ID ` set ordered"
  proof
    fix w assume "w \<in> depends us `` (bu_ID ` set ordered)"
    then obtain u where u: "u \<in> set ordered" "w \<in> set (bu_Prerequisites u)"
      using assms(2) by (auto simp: depends_def)
    then obtain i where "i < length ordered" "ordered ! i = u" by (auto simp: in_set_conv_nth)
    with assms(1) u(2) have "w \<in> bu_ID ` set (take i ordered)" by (auto simp: build_order_def)
    then show "w \<in> bu_ID ` set ordered" using set_take_subset by fastforce
  qed
  then have "(depends us)\<^sup>* `` (bu_ID ` set ordered) = bu_ID ` set ordered"
    by (rule Image_closed_trancl)
  then show ?thesis using assms(3) by (metis Image_mono order_refl)
qed

text \<open>
  C13: The closure of build targets over any table of units. On success it lists the targets and
  everything they depend on, nothing else, each unit once and after all its prerequisites. It
  fails only when a unit that the targets reach is unknown or lies on a dependency cycle, and names it.
\<close>

theorem build_closure_correct:
  "case BuildClosure us targets of
     Inr ordered \<Rightarrow> build_order ordered \<and> bu_ID ` set ordered = (depends us)\<^sup>* `` set targets
   | Inl e \<Rightarrow> explains us (set targets) e"
proof (cases "BuildClosure us targets")
  case (Inl e)
  then show ?thesis using visit_explains(2) [of "[]" targets us "[]" e] by (simp add: BuildClosure_def)
next
  case (Inr ordered)
  then have ext: "extends us [] [] targets ordered"
    using visit_extends(2) [OF build_order_empty] by (simp add: BuildClosure_def)
  then have "(depends us)\<^sup>* `` set targets \<subseteq> bu_ID ` set ordered"
    by (intro build_order_closed) (auto simp: extends_def)
  with ext Inr show ?thesis by (auto simp: extends_def)
qed

section \<open>Validation of the registry\<close>

definition incomplete_spec :: "Spec \<Rightarrow> bool" where
  "incomplete_spec s \<longleftrightarrow> sp_ID s = [] \<or> sp_DisplayName s = [] \<or> sp_Summary s = [] \<or> sp_Image s = [] \<or>
     sp_ContainerName s = [] \<or> sp_Build s = [] \<or> sp_Port s < 1 \<or> sp_RuntimeFamily s = [] \<or> sp_Modes s = []"

fun validate_modes :: "string \<Rightarrow> string list \<Rightarrow> string list \<Rightarrow> build_error option" where
  "validate_modes app seen [] = None"
| "validate_modes app seen (mode # modes) =
     (if mode \<noteq> ''server'' \<and> mode \<noteq> ''cli'' \<or> mode \<in> set seen
      then Some (Registry app ''invalid or duplicate mode'')
      else validate_modes app (mode # seen) modes)"

text \<open>The first loop, over the applications; \<open>seen\<close> holds the earlier ones.\<close>

fun validate_specs :: "Spec list \<Rightarrow> Spec list \<Rightarrow> build_error option" where
  "validate_specs seen [] = None"
| "validate_specs seen (s # ss) =
     (if incomplete_spec s then Some (Registry (sp_ID s) ''incomplete application registry entry'')
      else if sp_ID s \<in> sp_ID ` set seen \<or> sp_ContainerName s \<in> sp_ContainerName ` set seen \<or>
              sp_Image s \<in> sp_Image ` set seen
      then Some (Registry (sp_ID s) ''duplicate application identity'')
      else (case validate_modes (sp_ID s) [] (sp_Modes s) of
          Some e \<Rightarrow> Some e
        | None \<Rightarrow>
            if list_ex (\<lambda>a. ac_Arguments a = [] \<or> ac_Description a = []) (sp_AfterBuild s @ sp_AfterContent s)
            then Some (Registry (sp_ID s) ''incomplete guide action'')
            else validate_specs (s # seen) ss))"

text \<open>The second loop, over the build units.\<close>

fun validate_units :: "Spec list \<Rightarrow> BuildUnit list \<Rightarrow> BuildUnit list \<Rightarrow> build_error option" where
  "validate_units ss seen [] = None"
| "validate_units ss seen (u # us) =
     (if bu_ID u = [] \<or> bu_Target u = [] \<or> bu_Image u = [] then Some (Registry (bu_ID u) ''incomplete build unit'')
      else if bu_ID u \<in> bu_ID ` set seen \<or> bu_Target u \<in> bu_Target ` set seen
      then Some (Registry (bu_ID u) ''duplicate build-unit identity'')
      else if bu_Application u \<noteq> [] \<and> bu_Application u \<notin> sp_ID ` set ss
      then Some (Registry (bu_ID u) ''references unknown application'')
      else if bu_Application u \<noteq> [] \<and> bu_Application u \<in> bu_Application ` set seen
      then Some (Registry (bu_Application u) ''maps to multiple build units'')
      else validate_units ss (u # seen) us)"

text \<open>The third loop: an application and its build unit agree.\<close>

definition validate_agreement :: "BuildUnit list \<Rightarrow> Spec \<Rightarrow> build_error option" where
  "validate_agreement us s =
     (case BuildUnitByID us (sp_Build s) of
        None \<Rightarrow> Some (Registry (sp_ID s) ''references unknown build unit'')
      | Some u \<Rightarrow>
          if bu_Application u \<noteq> sp_ID s \<or> bu_Image u \<noteq> sp_Image s
          then Some (Registry (sp_ID s) ''application and build unit disagree'')
          else if sp_PyTorchBase s \<and> ''pytorch-base'' \<notin> set (bu_Prerequisites u)
          then Some (Registry (sp_ID s) ''PyTorch without the PyTorch base prerequisite'')
          else None)"

definition Validate :: "Spec list \<Rightarrow> BuildUnit list \<Rightarrow> build_error option" where
  "Validate ss us =
     (case validate_specs [] ss of
        Some e \<Rightarrow> Some e
      | None \<Rightarrow> (case validate_units ss [] us of
          Some e \<Rightarrow> Some e
        | None \<Rightarrow> (case check_all (validate_agreement us) ss of
            Some e \<Rightarrow> Some e
          | None \<Rightarrow> (case BuildClosure us (map bu_ID us) of Inl e \<Rightarrow> Some e | Inr _ \<Rightarrow> None))))"

section \<open>The build plan\<close>

definition CacheDir :: "environment \<Rightarrow> build_error + string" where
  "CacheDir environment =
     (let xdg = env_get environment ''XDG_CACHE_HOME''; home = env_get environment ''HOME'' in
      bind_res
        (if xdg \<noteq> [] then Inr xdg
         else if home = [] then Inl (PlanError ''HOME is not set'')
         else if \<not> IsAbs home then Inl (PlanError ''HOME must be an absolute path'')
         else Inr (Join [home, ''.cache'']))
        (\<lambda>root. if \<not> IsAbs root then Inl (PlanError ''XDG_CACHE_HOME must be an absolute path'')
                else Inr (Join [Clean root, StateNamespace, ''build''])))"

datatype cache_entry = CacheAbsent | CacheError | CacheLink | CacheFile | CacheDirectory

definition check_cache_entry :: "(string \<Rightarrow> cache_entry) \<Rightarrow> string \<Rightarrow> build_error option" where
  "check_cache_entry lstat candidate =
     (case lstat candidate of
        CacheAbsent \<Rightarrow> None
      | CacheError \<Rightarrow> Some (PlanError ''inspect build cache'')
      | CacheLink \<Rightarrow> Some (PlanError ''refusing symlinked build cache path'')
      | CacheFile \<Rightarrow> Some (PlanError ''build cache path is not a directory'')
      | CacheDirectory \<Rightarrow> None)"

text \<open>\<open>created\<close> tells whether \<^verbatim>\<open>os.MkdirAll\<close> succeeds.\<close>

definition PreparePipCache :: "(string \<Rightarrow> cache_entry) \<Rightarrow> bool \<Rightarrow> environment \<Rightarrow> build_error + string" where
  "PreparePipCache lstat created environment =
     bind_res (CacheDir environment) (\<lambda>root.
       (let cache = Join [root, ''pip''] in
        case check_all (check_cache_entry lstat) [Dir root, root, cache] of
          Some e \<Rightarrow> Inl e
        | None \<Rightarrow> if created then Inr cache else Inl (PlanError ''create pip build cache'')))"

record Options =
  op_ProjectRoot :: string
  op_Image :: string
  op_Target :: string
  op_BaseImage :: string
  op_RuntimeImage :: string
  op_PipCache :: string
  op_VolumeSuffix :: string
  op_NoLayerCache :: bool

record Request =
  rq_ProjectRoot :: string
  rq_Targets :: "string list"
  rq_ImageOverride :: string
  rq_PipCache :: string
  rq_VolumeSuffix :: string
  rq_NoLayerCache :: bool
  rq_NoCache :: bool

record Step =
  st_Unit :: BuildUnit
  st_Image :: string
  st_Command :: "string list"
  st_Cold :: bool

definition pipCacheContainerPath :: string where
  "pipCacheContainerPath = ''/var/cache/paracetamol/pip''"

definition Command :: "Options \<Rightarrow> build_error + string list" where
  "Command options =
     (let base = [''podman'', ''build'', ''--tag'', op_Image options, ''--file'',
                  Join [op_ProjectRoot options, ''Containerfile''], ''--target'', op_Target options]
            @ (if op_BaseImage options \<noteq> []
               then [''--build-arg'', ''ROCM_BASE_IMAGE='' @ op_BaseImage options, ''--pull=never''] else [])
            @ (if op_RuntimeImage options \<noteq> []
               then [''--build-arg'', ''ROCM_RUNTIME_IMAGE='' @ op_RuntimeImage options, ''--pull=never''] else []) in
      bind_res
        (if op_PipCache options = [] then Inr base
         else if \<not> IsAbs (op_PipCache options) then Inl (PlanError ''pip build cache path must be absolute'')
         else if CHR '':'' \<in> set (op_PipCache options) \<or> NL \<in> set (op_PipCache options)
         then Inl (PlanError ''pip build cache path cannot contain a colon or a newline'')
         else if op_VolumeSuffix options \<noteq> '':rw'' \<and> op_VolumeSuffix options \<noteq> '':rw,Z''
         then Inl (PlanError ''unsupported build-cache volume suffix'')
         else Inr (base @ [''--build-arg'', ''PIP_NO_CACHE_DIR='', ''--build-arg'',
             ''PIP_CACHE_DIR='' @ pipCacheContainerPath, ''--volume'',
             op_PipCache options @ '':'' @ pipCacheContainerPath @ op_VolumeSuffix options]))
        (\<lambda>args. Inr (args @ (if op_NoLayerCache options then [''--no-cache''] else [])
                        @ [op_ProjectRoot options])))"

definition plan_image :: "BuildUnit list \<Rightarrow> Request \<Rightarrow> string \<Rightarrow> string" where
  "plan_image us request v =
     (if rq_ImageOverride request \<noteq> [] \<and> v = hd (rq_Targets request) then rq_ImageOverride request
      else (case unit_index us v of None \<Rightarrow> [] | Some u \<Rightarrow> bu_Image u))"

definition plan_step :: "BuildUnit list \<Rightarrow> Request \<Rightarrow> BuildUnit \<Rightarrow> build_error + Step" where
  "plan_step us request u =
     (let prerequisite = (\<lambda>v. if v \<in> set (bu_Prerequisites u) then plan_image us request v else []);
          cold = (rq_NoCache request \<or> rq_NoLayerCache request \<and> bu_ID u \<in> set (rq_Targets request)) in
      bind_res
        (Command \<lparr>op_ProjectRoot = rq_ProjectRoot request, op_Image = plan_image us request (bu_ID u),
           op_Target = bu_Target u, op_BaseImage = prerequisite ''pytorch-base'',
           op_RuntimeImage = prerequisite ''runtime'',
           op_PipCache = (if rq_NoCache request then [] else rq_PipCache request),
           op_VolumeSuffix = rq_VolumeSuffix request, op_NoLayerCache = cold\<rparr>)
        (\<lambda>command. Inr \<lparr>st_Unit = u, st_Image = plan_image us request (bu_ID u),
                        st_Command = command, st_Cold = cold\<rparr>))"

fun map_res :: "('a \<Rightarrow> 'e + 'b) \<Rightarrow> 'a list \<Rightarrow> 'e + 'b list" where
  "map_res f [] = Inr []"
| "map_res f (x # xs) = bind_res (f x) (\<lambda>y. bind_res (map_res f xs) (\<lambda>ys. Inr (y # ys)))"

definition Plan :: "BuildUnit list \<Rightarrow> Request \<Rightarrow> build_error + Step list" where
  "Plan us request =
     (if rq_Targets request = [] then Inl (PlanError ''build plan requires at least one target'')
      else if rq_NoLayerCache request \<and> rq_NoCache request
      then Inl (PlanError ''no-layer-cache and no-cache are mutually exclusive'')
      else if rq_ImageOverride request \<noteq> [] \<and> length (rq_Targets request) \<noteq> 1
      then Inl (PlanError ''image override requires exactly one build target'')
      else bind_res (BuildClosure us (rq_Targets request)) (map_res (plan_step us request)))"

section \<open>Every step builds on an earlier one\<close>

lemma map_res_Inr: "map_res f xs = Inr ys \<Longrightarrow> length ys = length xs \<and> (\<forall>i<length xs. f (xs ! i) = Inr (ys ! i))"
proof (induction xs arbitrary: ys)
  case (Cons x xs)
  then obtain z zs where z: "f x = Inr z" "map_res f xs = Inr zs" "ys = z # zs" by auto
  with Cons.IH [OF z(2)] show ?case by (auto simp: less_Suc_eq_0_disj)
qed simp

lemma plan_step_fields:
  assumes "plan_step us request u = Inr st"
  shows "st_Unit st = u \<and> st_Image st = plan_image us request (bu_ID u) \<and>
    (''runtime'' \<in> set (bu_Prerequisites u) \<longrightarrow> plan_image us request ''runtime'' \<noteq> [] \<longrightarrow>
       ''ROCM_RUNTIME_IMAGE='' @ plan_image us request ''runtime'' \<in> set (st_Command st)) \<and>
    (''pytorch-base'' \<in> set (bu_Prerequisites u) \<longrightarrow> plan_image us request ''pytorch-base'' \<noteq> [] \<longrightarrow>
       ''ROCM_BASE_IMAGE='' @ plan_image us request ''pytorch-base'' \<in> set (st_Command st))"
  using assms by (auto simp: plan_step_def Let_def Command_def split: if_splits)

lemma build_order_earlier:
  assumes "build_order us" "i < length us" "v \<in> set (bu_Prerequisites (us ! i))"
  obtains j where "j < i" "bu_ID (us ! j) = v"
proof -
  have "v \<in> bu_ID ` set (take i us)" using assms by (auto simp: build_order_def)
  then obtain j where "j < length (take i us)" "bu_ID (take i us ! j) = v"
    by (metis (no_types, lifting) image_iff in_set_conv_nth)
  with assms(2) that show thesis by auto
qed

text \<open>The image of the prerequisite that a step names on its command line.\<close>

definition image_argument :: "string \<Rightarrow> string \<Rightarrow> string" where
  "image_argument v img = (if v = ''runtime'' then ''ROCM_RUNTIME_IMAGE='' else ''ROCM_BASE_IMAGE='') @ img"

definition built_before :: "Step list \<Rightarrow> nat \<Rightarrow> string \<Rightarrow> bool" where
  "built_before steps i v \<longleftrightarrow>
     (\<exists>j<i. bu_ID (st_Unit (steps ! j)) = v \<and>
        (st_Image (steps ! j) \<noteq> [] \<longrightarrow> image_argument v (st_Image (steps ! j)) \<in> set (st_Command (steps ! i))))"

text \<open>
  In a build plan every step that needs the runtime or the PyTorch base names on its command
  line exactly the image that an earlier step of the plan builds, also when a target's image is
  overridden.
\<close>

theorem plan_prerequisites_built:
  assumes "Plan us request = Inr steps" and "i < length steps"
    and "v \<in> set (bu_Prerequisites (st_Unit (steps ! i)))" and "v = ''runtime'' \<or> v = ''pytorch-base''"
  shows "built_before steps i v"
proof -
  obtain ordered where o: "BuildClosure us (rq_Targets request) = Inr ordered"
    "map_res (plan_step us request) ordered = Inr steps"
    using assms(1) by (auto simp: Plan_def split: if_splits)
  have order: "build_order ordered"
    using visit_extends(2) [OF build_order_empty] o(1) by (auto simp: BuildClosure_def extends_def)
  have len: "length steps = length ordered" and st: "\<And>k. k < length ordered \<Longrightarrow>
      plan_step us request (ordered ! k) = Inr (steps ! k)"
    using map_res_Inr [OF o(2)] by auto
  have unit: "st_Unit (steps ! k) = ordered ! k" "st_Image (steps ! k) = plan_image us request (bu_ID (ordered ! k))"
    if "k < length ordered" for k
    using plan_step_fields [OF st [OF that]] by auto
  obtain j where j: "j < i" "bu_ID (ordered ! j) = v"
    using build_order_earlier [OF order, of i v] assms(2,3) len unit(1) by auto
  then have "st_Image (steps ! j) = plan_image us request v" "bu_ID (st_Unit (steps ! j)) = v"
    using unit assms(2) len by auto
  moreover have "image_argument v (plan_image us request v) \<in> set (st_Command (steps ! i))"
    if "plan_image us request v \<noteq> []"
    using plan_step_fields [OF st, of i] assms that len unit(1) by (auto simp: image_argument_def)
  ultimately show ?thesis using j(1) unfolding built_before_def by auto
qed

definition llama_request :: Request where
  "llama_request = \<lparr>rq_ProjectRoot = ''/p'', rq_Targets = [''llama-cpp''], rq_ImageOverride = ''x'',
     rq_PipCache = [], rq_VolumeSuffix = [], rq_NoLayerCache = False, rq_NoCache = False\<rparr>"

lemma llama_plan:
  "case Plan units llama_request of
     Inl _ \<Rightarrow> False
   | Inr steps \<Rightarrow> length steps = 2 \<and> bu_Prerequisites (st_Unit (steps ! 1)) = [''runtime'']"
  by code_simp

theorem plan_prerequisites_built_witness:
  "case Plan units llama_request of Inl _ \<Rightarrow> False | Inr steps \<Rightarrow> built_before steps 1 ''runtime''"
proof (cases "Plan units llama_request")
  case (Inr steps)
  with llama_plan have "length steps = 2" "bu_Prerequisites (st_Unit (steps ! 1)) = [''runtime'']" by simp_all
  then have "built_before steps 1 ''runtime''"
    by (intro plan_prerequisites_built [OF Inr]) simp_all
  with Inr show ?thesis by simp
qed (use llama_plan in simp)

text \<open>The shipped registry passes its own validation.\<close>

lemma shipped_registry_valid: "Validate specs units = None"
  by code_simp

end
