(* ===== verification/Float64.thy ===== *)
theory Float64
  imports Prelude Complex_Main
begin

text \<open>
  Go's \<^verbatim>\<open>float64\<close> as the 64 bits of an IEEE 754 binary64 number, with the operations that the
  statistics code uses: comparison, addition, subtraction, multiplication and division rounded to
  nearest even, and the conversion from \<^verbatim>\<open>uint64\<close>. Finite values are rationals.
\<close>

unbundle bit_operations_syntax

type_synonym float64 = "64 word"

definition fl_negative :: "float64 \<Rightarrow> bool" where
  "fl_negative b = bit b 63"

definition fl_exponent :: "float64 \<Rightarrow> int" where
  "fl_exponent b = uint (drop_bit 52 b AND 2047)"

definition fl_mantissa :: "float64 \<Rightarrow> int" where
  "fl_mantissa b = uint (b AND 4503599627370495)"

definition IsNaN :: "float64 \<Rightarrow> bool" where
  "IsNaN b \<longleftrightarrow> fl_exponent b = 2047 \<and> fl_mantissa b \<noteq> 0"

definition IsInf :: "float64 \<Rightarrow> bool" where
  "IsInf b \<longleftrightarrow> fl_exponent b = 2047 \<and> fl_mantissa b = 0"

text \<open>The magnitude of a finite number in units of the smallest positive one, and its value.\<close>

definition fl_units :: "float64 \<Rightarrow> int" where
  "fl_units b = (if fl_exponent b = 0 then fl_mantissa b
     else (4503599627370496 + fl_mantissa b) * 2 ^ nat (fl_exponent b - 1))"

definition fl_val :: "float64 \<Rightarrow> rat" where
  "fl_val b = (if fl_negative b then - 1 else 1) * (of_int (fl_units b) / 2 ^ 1074)"

abbreviation fl_zero :: float64 where "fl_zero \<equiv> 0"
abbreviation fl_inf :: float64 where "fl_inf \<equiv> 9218868437227405312"
abbreviation fl_nan :: float64 where "fl_nan \<equiv> 9221120237041090561"
abbreviation MaxFloat64 :: float64 where "MaxFloat64 \<equiv> 9218868437227405311"

definition fl_sign :: "bool \<Rightarrow> float64 \<Rightarrow> float64" where
  "fl_sign neg b = (if neg then b + 9223372036854775808 else b)"

definition fl_neg :: "float64 \<Rightarrow> float64" where
  "fl_neg b = b XOR 9223372036854775808"

text \<open>Rounding a non-negative number of units: halve until 53 bits are left, then to nearest even.\<close>

definition nearest_even :: "rat \<Rightarrow> int" where
  "nearest_even x = (let f = \<lfloor>x\<rfloor>; d = x - of_int f in
     if d < 1 / 2 then f else if d > 1 / 2 then f + 1 else if even f then f else f + 1)"

function halvings :: "int \<Rightarrow> nat" where
  "halvings n = (if n < 9007199254740992 then 0 else Suc (halvings (n div 2)))"
  by pat_completeness auto
termination by (relation "measure nat") auto

declare halvings.simps [simp del]

definition fl_of_units :: "rat \<Rightarrow> float64" where
  "fl_of_units u = (let k = halvings \<lfloor>u\<rfloor>;
       bits = nearest_even (u / 2 ^ k) + int k * 4503599627370496 in
     if bits \<ge> 9218868437227405312 then fl_inf else of_int bits)"

definition fl_of_rat :: "rat \<Rightarrow> float64" where
  "fl_of_rat x = fl_sign (x < 0) (fl_of_units (\<bar>x\<bar> * 2 ^ 1074))"

definition fl_add :: "float64 \<Rightarrow> float64 \<Rightarrow> float64" where
  "fl_add a b =
     (if IsNaN a \<or> IsNaN b then fl_nan
      else if IsInf a then (if IsInf b \<and> a \<noteq> b then fl_nan else a)
      else if IsInf b then b
      else if fl_val a + fl_val b = 0 \<and> fl_negative a \<and> fl_negative b then fl_neg fl_zero
      else fl_of_rat (fl_val a + fl_val b))"

definition fl_sub :: "float64 \<Rightarrow> float64 \<Rightarrow> float64" where
  "fl_sub a b = fl_add a (fl_neg b)"

definition fl_mul :: "float64 \<Rightarrow> float64 \<Rightarrow> float64" where
  "fl_mul a b =
     (let neg = (fl_negative a \<noteq> fl_negative b) in
      if IsNaN a \<or> IsNaN b then fl_nan
      else if IsInf a \<or> IsInf b then
        (if fl_val a = 0 \<and> \<not> IsInf a \<or> fl_val b = 0 \<and> \<not> IsInf b then fl_nan else fl_sign neg fl_inf)
      else fl_sign neg (fl_of_units (\<bar>fl_val a * fl_val b\<bar> * 2 ^ 1074)))"

definition fl_div :: "float64 \<Rightarrow> float64 \<Rightarrow> float64" where
  "fl_div a b =
     (let neg = (fl_negative a \<noteq> fl_negative b) in
      if IsNaN a \<or> IsNaN b \<or> IsInf a \<and> IsInf b then fl_nan
      else if IsInf a then fl_sign neg fl_inf
      else if IsInf b then fl_sign neg fl_zero
      else if fl_val b = 0 then (if fl_val a = 0 then fl_nan else fl_sign neg fl_inf)
      else fl_sign neg (fl_of_units (\<bar>fl_val a / fl_val b\<bar> * 2 ^ 1074)))"

definition fl_less :: "float64 \<Rightarrow> float64 \<Rightarrow> bool" where
  "fl_less a b \<longleftrightarrow> \<not> IsNaN a \<and> \<not> IsNaN b \<and> a \<noteq> b \<and>
     (if IsInf a then fl_negative a else if IsInf b then \<not> fl_negative b
      else fl_val a < fl_val b)"

definition float_of_uint64 :: "64 word \<Rightarrow> float64" where
  "float_of_uint64 n = fl_of_rat (of_int (uint n))"

end
