(* ===== verification/Catalog.thy ===== *)
theory Catalog
  imports BuildPlan Float64
begin

text \<open>
  The catalog of pinned content (\<^verbatim>\<open>internal/catalog/catalog.go\<close>): its raw and validated data, the
  loaders of each kind of entry, the checks between entries, and the queries on presets and bundles.

  A \<^verbatim>\<open>json.RawMessage\<close> is represented by what \<^verbatim>\<open>decodeStrict\<close> makes of it: \<open>None\<close> when decoding
  fails. Maps are association lists, so that the order of a list stands for the order in which Go
  happens to iterate. Sizes are the integers of 64-bit values.
\<close>

section \<open>Data\<close>

definition SchemaVersion :: int where "SchemaVersion = 31"

definition LlamaModelLoadResident :: string where "LlamaModelLoadResident = ''resident''"
definition LlamaModelLoadMMapLazyTokenEmbedding :: string where
  "LlamaModelLoadMMapLazyTokenEmbedding = ''mmap-lazy-token-embedding''"
definition LlamaModelLoadStreamTokenEmbedding :: string where
  "LlamaModelLoadStreamTokenEmbedding = ''stream-token-embedding''"

datatype catalog_error = CatalogError string string

type_synonym 'v table = "(string \<times> 'v) list"

text \<open>A JSON value of a sampling setting: a number with its conversion to a float, or anything else.\<close>

datatype json_value = JNumber "float64 option" | JFloat float64 | JOther

record License =
  li_SPDX :: string
  li_Status :: string
  li_URL :: string
  li_Warning :: string
  li_UpstreamRepository :: string
  li_UpstreamLicense :: string
  li_UpstreamLicenseURL :: string

record Agreement =
  ag_ID :: string
  ag_Name :: string
  ag_URL :: string
  ag_Summary :: string

record Source =
  so_Provider :: string
  so_Repository :: string
  so_Revision :: string
  so_Path :: string
  so_ModelID :: int
  so_ModelVersionID :: int
  so_RequiresAuth :: bool
  so_ProviderHost :: string
  so_DownloadURL :: string
  so_ArchiveMember :: string
  so_ArchiveMaxSize :: int

record Artifact =
  ar_ID :: string
  ar_Description :: string
  ar_Source :: Source
  ar_Destination :: string
  ar_Size :: int
  ar_SHA256 :: string
  ar_License :: License
  ar_Agreements :: "string list"
  ar_Target :: string

record Bundle =
  bn_ID :: string
  bn_Description :: string
  bn_Application :: string
  bn_Artifacts :: "string list"
  bn_Workflow :: string
  bn_Groups :: "string list"

record Workflow =
  wf_ID :: string
  wf_Description :: string
  wf_Destination :: string
  wf_SourcePackage :: string
  wf_SourceVersion :: string
  wf_SourceRevision :: string
  wf_SourceResource :: string
  wf_SourceSHA256 :: string
  wf_RenderedSHA256 :: string
  wf_Renderer :: string
  wf_License :: string
  wf_LicenseURL :: string

record Benchmark =
  bm_Bundle :: string
  bm_Resource :: string
  bm_SHA256 :: string
  bm_Renderer :: string
  bm_RenderedSHA256 :: string

record SamplingPolicy =
  sm_ID :: string
  sm_Thinking :: "json_value table"
  sm_NonThinking :: "json_value table"

record LlamaPreset =
  lp_ID :: string
  lp_Bundle :: string
  lp_Artifact :: string
  lp_Backends :: "string list"
  lp_BackendProfiles :: "string list table"
  lp_DefaultContext :: int
  lp_SpeculativeType :: string
  lp_DraftTokens :: int
  lp_DraftTokensByBackend :: "int table"
  lp_DraftArtifact :: string
  lp_MMProjArtifact :: string
  lp_ContextOverrideArchitectures :: "string list"
  lp_Jinja :: bool
  lp_AgentTools :: bool
  lp_ReasoningControl :: string
  lp_ReasoningLevels :: "string list"
  lp_ReasoningDefault :: string
  lp_ReasoningOff :: bool
  lp_ReasoningPreserve :: bool
  lp_ChatTemplate :: string
  lp_SamplingPolicy :: string
  lp_FlashAttention :: "string table"
  lp_KVCache :: "string table"
  lp_ModelLoad :: "string table"

record Catalog =
  ct_Agreements :: "Agreement table"
  ct_Artifacts :: "Artifact table"
  ct_Bundles :: "Bundle table"
  ct_Workflows :: "Workflow table"
  ct_Benchmarks :: "Benchmark table"
  ct_SamplingPolicies :: "SamplingPolicy table"
  ct_LlamaPresets :: "LlamaPreset table"

section \<open>The raw document\<close>

record rawAgreement =
  ra_Name :: string
  ra_URL :: string
  ra_Summary :: string

record rawArchive =
  rv_Member :: string
  rv_MaxSize :: int

record rawSource =
  rs_Provider :: string
  rs_Repository :: string
  rs_Revision :: string
  rs_Path :: string
  rs_ModelID :: int
  rs_ModelVersionID :: int
  rs_RequiresAuth :: bool
  rs_Host :: string
  rs_DownloadURL :: string
  rs_Filename :: string
  rs_Archive :: "rawArchive option"

text \<open>The raw license has the fields of the validated one.\<close>

type_synonym rawLicense = License

record rawArtifact =
  rw_Description :: string
  rw_Source :: rawSource
  rw_Destination :: string
  rw_Size :: int
  rw_SHA256 :: string
  rw_License :: rawLicense
  rw_Agreements :: "string list"
  rw_Target :: string

record rawArchiveMember =
  rm_Description :: string
  rm_Member :: string
  rm_Destination :: string
  rm_Target :: string
  rm_Size :: int
  rm_SHA256 :: string

record rawArchiveCollection =
  rc_Source :: rawSource
  rc_Archive :: rawArchive
  rc_License :: rawLicense
  rc_Agreements :: "string list"
  rc_Target :: string
  rc_RawMembers :: "rawArchiveMember option table"

record rawBundle =
  rb_Description :: string
  rb_Application :: string
  rb_Artifacts :: "string list"
  rb_Workflow :: string
  rb_Groups :: "string list"

text \<open>
  A raw workflow, benchmark, policy or preset has the fields of the validated one except its id, so
  it is that record with an id that the loader ignores; the default level of reasoning is optional.
\<close>

record rawLlamaPreset =
  rp_Preset :: LlamaPreset
  rp_ReasoningDefault :: "string option"

record document =
  dc_SchemaVersion :: int
  dc_Agreements :: "rawAgreement option table option"
  dc_Artifacts :: "rawArtifact option table option"
  dc_ArchiveGroups :: "rawArchiveCollection option table option"
  dc_Bundles :: "rawBundle option table option"
  dc_Workflows :: "Workflow option table option"
  dc_Benchmarks :: "Benchmark option table option"
  dc_SamplingPolicies :: "SamplingPolicy option table option"
  dc_LlamaPresets :: "rawLlamaPreset option table option"

section \<open>Queries\<close>

text \<open>\<^verbatim>\<open>maps.Clone\<close> keeps the entries.\<close>

definition Defaults :: "SamplingPolicy \<Rightarrow> bool \<Rightarrow> json_value table" where
  "Defaults policy thinking = (if thinking then sm_Thinking policy else sm_NonThinking policy)"

definition DraftTokensForBackend :: "LlamaPreset \<Rightarrow> string \<Rightarrow> int" where
  "DraftTokensForBackend preset backend =
     (case lookup (lp_DraftTokensByBackend preset) backend of Some v \<Rightarrow> v | None \<Rightarrow> lp_DraftTokens preset)"

definition SupportsBackend :: "LlamaPreset \<Rightarrow> string \<Rightarrow> bool" where
  "SupportsBackend preset backend \<longleftrightarrow> lp_Backends preset = [] \<or> backend \<in> set (lp_Backends preset)"

definition SupportsRuntime :: "LlamaPreset \<Rightarrow> string \<Rightarrow> string \<Rightarrow> bool" where
  "SupportsRuntime preset backend profile \<longleftrightarrow> SupportsBackend preset backend \<and>
     (case lookup (lp_BackendProfiles preset) backend of None \<Rightarrow> True | Some ps \<Rightarrow> profile \<in> set ps)"

definition RuntimeBackends :: "LlamaPreset \<Rightarrow> string \<Rightarrow> string list" where
  "RuntimeBackends preset profile =
     filter (\<lambda>b. SupportsRuntime preset b profile)
       (if lp_Backends preset = [] then [''rocm'', ''vulkan''] else lp_Backends preset)"

text \<open>A missing key of a Go map reads as the zero value.\<close>

definition artifact_at :: "Catalog \<Rightarrow> string \<Rightarrow> (string \<times> int)" where
  "artifact_at catalog i = (case lookup (ct_Artifacts catalog) i of
     None \<Rightarrow> ([], 0) | Some a \<Rightarrow> (ar_SHA256 a, ar_Size a))"

definition wrap64 :: "int \<Rightarrow> int" where
  "wrap64 n = (n + 2 ^ 63) mod 2 ^ 64 - 2 ^ 63"

definition BundleSize :: "Catalog \<Rightarrow> Bundle \<Rightarrow> int" where
  "BundleSize catalog bundle =
     (let unique = foldl (\<lambda>m i. upsert (fst (artifact_at catalog i)) (snd (artifact_at catalog i)) m)
                     [] (bn_Artifacts bundle) in
      foldl (\<lambda>total sz. wrap64 (total + sz)) 0 (map snd unique))"

definition empty_agreement :: Agreement where
  "empty_agreement = \<lparr>ag_ID = [], ag_Name = [], ag_URL = [], ag_Summary = []\<rparr>"

definition BundleAgreements :: "Catalog \<Rightarrow> Bundle \<Rightarrow> Agreement list" where
  "BundleAgreements catalog bundle =
     (let ids = concat (map (\<lambda>i. case lookup (ct_Artifacts catalog) i of
                    None \<Rightarrow> [] | Some a \<Rightarrow> ar_Agreements a) (bn_Artifacts bundle)) in
      map (\<lambda>i. case lookup (ct_Agreements catalog) i of None \<Rightarrow> empty_agreement | Some a \<Rightarrow> a)
        (snd (foldl (\<lambda>(seen, out) i. if i \<in> set seen then (seen, out) else (i # seen, out @ [i]))
           ([], []) ids)))"

definition SortedBundleIDs :: "Catalog \<Rightarrow> string list" where
  "SortedBundleIDs catalog = sort (map fst (ct_Bundles catalog))"

section \<open>Patterns\<close>

definition ident_start :: "char \<Rightarrow> bool" where
  "ident_start c \<longleftrightarrow> 97 \<le> code c \<and> code c \<le> 122 \<or> is_digit c"

definition identifierPattern :: "string \<Rightarrow> bool" where
  "identifierPattern v = (case v of [] \<Rightarrow> False
     | c # r \<Rightarrow> ident_start c \<and> list_all (\<lambda>d. ident_start d \<or> d \<in> set ''._-'') r)"

definition architecturePattern :: "string \<Rightarrow> bool" where
  "architecturePattern v = (case v of [] \<Rightarrow> False
     | c # r \<Rightarrow> ident_start c \<and> list_all (\<lambda>d. ident_start d \<or> d \<in> set ''_-'') r)"

definition hex_lower :: "char \<Rightarrow> bool" where
  "hex_lower c \<longleftrightarrow> is_digit c \<or> 97 \<le> code c \<and> code c \<le> 102"

definition revisionPattern :: "string \<Rightarrow> bool" where
  "revisionPattern v \<longleftrightarrow> length v = 40 \<and> list_all hex_lower v"

definition sha256Pattern :: "string \<Rightarrow> bool" where
  "sha256Pattern v \<longleftrightarrow> length v = 64 \<and> list_all hex_lower v"

definition selectorGroups :: "string list" where
  "selectorGroups = [''all'', ''comfyui'', ''qwen'', ''wan'', ''ltx'', ''ltx-camera'', ''hunyuan'',
     ''krea'', ''llama'']"

definition validIdentifier :: "string \<Rightarrow> string \<Rightarrow> catalog_error option" where
  "validIdentifier v field =
     (if identifierPattern v then None else Some (CatalogError field ''invalid identifier''))"

fun unique_from :: "string \<Rightarrow> string list \<Rightarrow> string list \<Rightarrow> catalog_error option" where
  "unique_from field seen [] = None"
| "unique_from field seen (v # vs) =
     (case validIdentifier v field of
        Some e \<Rightarrow> Some e
      | None \<Rightarrow> if v \<in> set seen then Some (CatalogError field ''duplicate'') else unique_from field (v # seen) vs)"

definition uniqueIdentifiers :: "string list \<Rightarrow> string \<Rightarrow> catalog_error option" where
  "uniqueIdentifiers vs field = unique_from field [] vs"

definition isHTTPS :: "url_library \<Rightarrow> string \<Rightarrow> bool" where
  "isHTTPS lib v = (case url_Parse lib v of None \<Rightarrow> False
     | Some u \<Rightarrow> url_Scheme u = ''https'' \<and> url_Host u \<noteq> [] \<and> \<not> url_User u)"

definition numeric :: "json_value \<Rightarrow> float64 option" where
  "numeric v = (case v of JNumber f \<Rightarrow> f | JFloat f \<Rightarrow> Some f | JOther \<Rightarrow> None)"

text \<open>\<^verbatim>\<open>path.Base\<close>\<close>

definition Base :: "string \<Rightarrow> string" where
  "Base p = (let s = rev (dropWhile (\<lambda>c. c = SL) (rev p)) in
     if p = [] then ''.'' else if s = [] then ''/''
     else rev (takeWhile (\<lambda>c. c \<noteq> SL) (rev s)))"

definition format_int :: "int \<Rightarrow> string" where
  "format_int n = (if n < 0 then CHR ''-'' # base_digits 10 (nat (- n)) else base_digits 10 (nat n))"

section \<open>Loading entries\<close>

definition or_default :: "string \<Rightarrow> string \<Rightarrow> string" where
  "or_default v d = (if v = [] then d else v)"

abbreviation reject :: "string \<Rightarrow> string \<Rightarrow> catalog_error + 'a" where
  "reject i message \<equiv> Inl (CatalogError i message)"

definition loadSource :: "url_library \<Rightarrow> string \<Rightarrow> rawSource \<Rightarrow> catalog_error + Source" where
  "loadSource lib i raw =
     (let provider = or_default (rs_Provider raw) ''huggingface'' in
      if provider = ''huggingface'' then
        (if rs_Repository raw = [] \<or> \<not> revisionPattern (rs_Revision raw)
         then reject i ''Hugging Face source requires repository and full commit revision''
         else if \<not> safeRelative (rs_Path raw) then reject i ''source.path must be a safe relative path''
         else Inr \<lparr>so_Provider = provider, so_Repository = rs_Repository raw, so_Revision = rs_Revision raw,
             so_Path = rs_Path raw, so_ModelID = 0, so_ModelVersionID = 0, so_RequiresAuth = False,
             so_ProviderHost = [], so_DownloadURL = [], so_ArchiveMember = [], so_ArchiveMaxSize = 0\<rparr>)
      else if provider \<noteq> ''civitai'' then reject i ''unsupported source provider''
      else if rs_ModelID raw \<le> 0 \<or> rs_ModelVersionID raw \<le> 0
      then reject i ''Civitai source requires positive model IDs''
      else
        (let host = or_default (rs_Host raw) ''civitai.com'';
             downloadPath = ''/api/download/models/'' @ format_int (rs_ModelVersionID raw);
             downloadURL = or_default (rs_DownloadURL raw) (''https://'' @ host @ downloadPath);
             filename = rs_Filename raw in
         if host \<noteq> ''civitai.com'' \<and> host \<noteq> ''civitai.red'' then reject i ''unsupported Civitai host''
         else if \<not> safeRelative filename \<or> Base filename \<noteq> filename
         then reject i ''Civitai filename must not contain directories''
         else if (case url_Parse lib downloadURL of
               None \<Rightarrow> True
             | Some u \<Rightarrow> url_Scheme u \<noteq> ''https'' \<or> url_Hostname u \<noteq> host \<or> url_User u \<or>
                 url_Port u \<noteq> [] \<or> url_Path u \<noteq> downloadPath \<or> url_Fragment u \<noteq> [])
         then reject i ''invalid Civitai download URL''
         else
           (let source = \<lparr>so_Provider = provider,
                  so_Repository = host @ ''/models/'' @ format_int (rs_ModelID raw),
                  so_Revision = format_int (rs_ModelVersionID raw), so_Path = filename,
                  so_ModelID = rs_ModelID raw, so_ModelVersionID = rs_ModelVersionID raw,
                  so_RequiresAuth = rs_RequiresAuth raw, so_ProviderHost = host,
                  so_DownloadURL = downloadURL, so_ArchiveMember = [], so_ArchiveMaxSize = 0\<rparr> in
            case rs_Archive raw of
              None \<Rightarrow> Inr source
            | Some archive \<Rightarrow>
                if \<not> safeRelative (rv_Member archive) \<or> rv_MaxSize archive \<le> 0
                then reject i ''archive requires safe member and positive max_size''
                else Inr (source\<lparr>so_ArchiveMember := rv_Member archive,
                                 so_ArchiveMaxSize := rv_MaxSize archive\<rparr>))))"

definition loadLicense :: "url_library \<Rightarrow> string \<Rightarrow> rawLicense \<Rightarrow> catalog_error + License" where
  "loadLicense lib i raw =
     (if li_Status raw \<noteq> ''verified'' \<and> li_Status raw \<noteq> ''unverified''
      then reject i ''license status must be verified or unverified''
      else if li_SPDX raw = [] \<or> \<not> isHTTPS lib (li_URL raw) then reject i ''license requires SPDX and HTTPS URL''
      else if li_Status raw = ''verified'' \<and> (li_SPDX raw = ''NOASSERTION'' \<or> li_Warning raw \<noteq> [])
      then reject i ''verified license cannot use NOASSERTION or warning''
      else if li_Status raw = ''unverified'' \<and> (li_SPDX raw \<noteq> ''NOASSERTION'' \<or> li_Warning raw = [] \<or>
             li_UpstreamRepository raw = [] \<or> li_UpstreamLicense raw = [])
      then reject i ''unverified license requires NOASSERTION, warning, and upstream lineage''
      else if li_UpstreamLicenseURL raw \<noteq> [] \<and> \<not> isHTTPS lib (li_UpstreamLicenseURL raw)
      then reject i ''upstream license URL must use HTTPS''
      else Inr raw)"

text \<open>\<open>after\<close> continues with a value when a check has found no error.\<close>

definition after :: "'e option \<Rightarrow> 'e + 'a \<Rightarrow> 'e + 'a" where
  "after err k = (case err of Some e \<Rightarrow> Inl e | None \<Rightarrow> k)"

lemma after_eq_Inr [simp]: "after err k = Inr x \<longleftrightarrow> err = None \<and> k = Inr x"
  by (cases err) (auto simp: after_def)

definition decoded :: "string \<Rightarrow> 'r option \<Rightarrow> ('r \<Rightarrow> catalog_error + 'a) \<Rightarrow> catalog_error + 'a" where
  "decoded i v k = (case v of None \<Rightarrow> reject i ''cannot decode'' | Some raw \<Rightarrow> k raw)"

lemma decoded_eq_Inr [simp]: "decoded i v k = Inr x \<longleftrightarrow> (\<exists>raw. v = Some raw \<and> k raw = Inr x)"
  by (cases v) (auto simp: decoded_def)

definition loadAgreement :: "url_library \<Rightarrow> string \<Rightarrow> rawAgreement option \<Rightarrow> catalog_error + Agreement" where
  "loadAgreement lib i v =
     after (validIdentifier i ''agreement'') (decoded i v (\<lambda>entry.
       if ra_Name entry = [] \<or> ra_Summary entry = [] \<or> \<not> isHTTPS lib (ra_URL entry)
       then reject i ''requires a name, HTTPS URL, and summary''
       else Inr \<lparr>ag_ID = i, ag_Name = ra_Name entry, ag_URL = ra_URL entry, ag_Summary = ra_Summary entry\<rparr>))"

definition loadArtifact :: "url_library \<Rightarrow> string \<Rightarrow> rawArtifact option \<Rightarrow> catalog_error + Artifact" where
  "loadArtifact lib i v =
     after (validIdentifier i ''artifact'') (decoded i v (\<lambda>raw.
       if rw_Description raw = [] \<or> rw_Size raw \<le> 0 \<or> \<not> sha256Pattern (rw_SHA256 raw)
       then reject i ''requires description, positive size, and lowercase SHA-256''
       else if \<not> safeRelative (rw_Destination raw) then reject i ''destination must be a safe relative path''
       else
         (let target = or_default (rw_Target raw) ''models'' in
          if target \<noteq> ''models'' \<and> target \<noteq> ''llama-models'' \<and> target \<noteq> ''workflows''
          then reject i ''unsupported target''
          else if target = ''workflows'' \<and> \<not> hasSuffix (rw_Destination raw) ''.json''
          then reject i ''destination must end in .json''
          else
            bind_res (loadSource lib i (rw_Source raw)) (\<lambda>source.
            bind_res (loadLicense lib i (rw_License raw)) (\<lambda>license.
            after (uniqueIdentifiers (rw_Agreements raw) i)
              (Inr \<lparr>ar_ID = i, ar_Description = rw_Description raw, ar_Source = source,
                    ar_Destination = rw_Destination raw, ar_Size = rw_Size raw, ar_SHA256 = rw_SHA256 raw,
                    ar_License = license, ar_Agreements = rw_Agreements raw, ar_Target = target\<rparr>))))))"

text \<open>
  A member of an archive collection becomes a raw artifact that is encoded and decoded again, which
  keeps its fields.
\<close>

definition member_artifact :: "rawArchiveCollection \<Rightarrow> rawArchiveMember \<Rightarrow> rawArtifact" where
  "member_artifact raw member =
     \<lparr>rw_Description = rm_Description member,
      rw_Source = (rc_Source raw)\<lparr>rs_Archive :=
        Some \<lparr>rv_Member = rm_Member member, rv_MaxSize = rv_MaxSize (rc_Archive raw)\<rparr>\<rparr>,
      rw_Destination = rm_Destination member, rw_Size = rm_Size member, rw_SHA256 = rm_SHA256 member,
      rw_License = rc_License raw, rw_Agreements = rc_Agreements raw,
      rw_Target = or_default (rm_Target member) (rc_Target raw)\<rparr>"

text \<open>Loading every entry of a table with one loader.\<close>

definition load_table :: "(string \<Rightarrow> 'r \<Rightarrow> catalog_error + 'a) \<Rightarrow> 'r table \<Rightarrow> catalog_error + 'a table" where
  "load_table f entries = map_res (\<lambda>(i, v). bind_res (f i v) (\<lambda>x. Inr (i, x))) entries"

definition expandArchiveCollection ::
  "url_library \<Rightarrow> string \<Rightarrow> rawArchiveCollection option \<Rightarrow> catalog_error + Artifact table" where
  "expandArchiveCollection lib i v =
     after (validIdentifier i ''archive collection'') (decoded i v (\<lambda>raw.
       if rc_RawMembers raw = [] \<or> rv_MaxSize (rc_Archive raw) \<le> 0
       then reject i ''requires members and positive max_size''
       else load_table (\<lambda>memberID member. decoded i member (\<lambda>m.
              loadArtifact lib memberID (Some (member_artifact raw m)))) (rc_RawMembers raw)))"

fun groups_from :: "string \<Rightarrow> string list \<Rightarrow> string list \<Rightarrow> catalog_error option" where
  "groups_from i seen [] = (if ''all'' \<in> set seen then None
     else Some (CatalogError i ''must belong to the all selector group''))"
| "groups_from i seen (g # gs) =
     (if g \<notin> set selectorGroups then Some (CatalogError i ''unsupported group'')
      else if g \<in> set seen then Some (CatalogError i ''duplicate group'')
      else groups_from i (g # seen) gs)"

definition loadBundle :: "string \<Rightarrow> rawBundle option \<Rightarrow> catalog_error + Bundle" where
  "loadBundle i v =
     after (validIdentifier i ''bundle'') (decoded i v (\<lambda>raw.
       if rb_Description raw = [] \<or> rb_Artifacts raw = [] \<or> rb_Groups raw = []
       then reject i ''requires description, artifacts, and selector groups''
       else if ByID (rb_Application raw) = None then reject i ''unknown application''
       else after (uniqueIdentifiers (rb_Artifacts raw) i)
         (after (if rb_Workflow raw = [] then None else validIdentifier (rb_Workflow raw) i)
           (after (groups_from i [] (rb_Groups raw))
             (Inr \<lparr>bn_ID = i, bn_Description = rb_Description raw, bn_Application = rb_Application raw,
                   bn_Artifacts = rb_Artifacts raw, bn_Workflow = rb_Workflow raw,
                   bn_Groups = rb_Groups raw\<rparr>)))))"

definition loadWorkflow :: "url_library \<Rightarrow> string \<Rightarrow> Workflow option \<Rightarrow> catalog_error + Workflow" where
  "loadWorkflow lib i v =
     after (validIdentifier i ''workflow'') (decoded i v (\<lambda>raw.
       if \<not> safeRelative (wf_Destination raw) \<or> \<not> hasSuffix (wf_Destination raw) ''.json''
       then reject i ''destination must be a safe .json path''
       else if \<not> safeRelative (wf_SourceResource raw)
       then reject i ''source_resource must be a safe relative path''
       else if wf_Description raw = [] \<or> wf_SourcePackage raw = [] \<or> wf_SourceVersion raw = [] \<or>
          \<not> revisionPattern (wf_SourceRevision raw) \<or> \<not> sha256Pattern (wf_SourceSHA256 raw) \<or>
          \<not> sha256Pattern (wf_RenderedSHA256 raw) \<or> wf_Renderer raw = [] \<or> wf_License raw = [] \<or>
          \<not> isHTTPS lib (wf_LicenseURL raw)
       then reject i ''invalid provenance''
       else Inr (raw\<lparr>wf_ID := i\<rparr>)))"

definition loadBenchmark :: "string \<Rightarrow> Benchmark option \<Rightarrow> catalog_error + Benchmark" where
  "loadBenchmark i v =
     after (validIdentifier i ''benchmark bundle'') (decoded i v (\<lambda>raw.
       if \<not> safeRelative (bm_Resource raw) \<or> \<not> sha256Pattern (bm_SHA256 raw)
       then reject i ''requires safe resource and SHA-256''
       else if bm_RenderedSHA256 raw \<noteq> [] \<and> \<not> sha256Pattern (bm_RenderedSHA256 raw)
       then reject i ''invalid rendered SHA-256''
       else Inr (raw\<lparr>bm_Bundle := i, bm_Renderer := or_default (bm_Renderer raw) ''identity''\<rparr>)))"

definition sampling_keys :: "string list" where
  "sampling_keys = [''temperature'', ''top_p'', ''top_k'', ''min_p'', ''presence_penalty'', ''repeat_penalty'']"

definition sampling_in_range :: "string \<Rightarrow> float64 \<Rightarrow> bool" where
  "sampling_in_range key number =
     (let x = fl_val number in
      if key = ''temperature'' then 0 \<le> x
      else if key = ''top_p'' \<or> key = ''min_p'' then 0 \<le> x \<and> x \<le> 1
      else if key = ''top_k'' then 0 \<le> x \<and> x \<le> 2147483647 \<and> of_int \<lfloor>x\<rfloor> = x
      else if key = ''repeat_penalty'' then 0 < x
      else True)"

definition check_sampling :: "string \<Rightarrow> json_value table \<Rightarrow> catalog_error option" where
  "check_sampling i settings =
     (if settings = [] then Some (CatalogError i ''requires settings'')
      else check_all (\<lambda>(key, v).
        if key \<notin> set sampling_keys then Some (CatalogError i ''unsupported setting'')
        else (case numeric v of
            None \<Rightarrow> Some (CatalogError i ''must be numeric'')
          | Some number \<Rightarrow>
              if IsNaN number \<or> IsInf number then Some (CatalogError i ''must be numeric'')
              else if \<not> sampling_in_range key number then Some (CatalogError i ''out of range'')
              else None)) settings)"

definition loadSamplingPolicy :: "string \<Rightarrow> SamplingPolicy option \<Rightarrow> catalog_error + SamplingPolicy" where
  "loadSamplingPolicy i v =
     after (validIdentifier i ''sampling policy'') (decoded i v (\<lambda>raw.
       after (check_sampling i (sm_Thinking raw))
         (after (check_sampling i (sm_NonThinking raw)) (Inr (raw\<lparr>sm_ID := i\<rparr>)))))"

section \<open>Presets\<close>

definition backend_name :: "string \<Rightarrow> bool" where
  "backend_name b \<longleftrightarrow> b = ''rocm'' \<or> b = ''vulkan''"

definition known_profile :: "string \<Rightarrow> bool" where
  "known_profile profile \<longleftrightarrow> LookupProfile profile \<noteq> None"

definition map_string :: "string table \<Rightarrow> string \<Rightarrow> string" where
  "map_string m k = (case lookup m k of None \<Rightarrow> [] | Some v \<Rightarrow> v)"

definition effective_default :: "rawLlamaPreset \<Rightarrow> string" where
  "effective_default raw =
     (case rp_ReasoningDefault raw of
        Some d \<Rightarrow> d
      | None \<Rightarrow>
          if lp_ReasoningControl (rp_Preset raw) = ''toggle'' then ''on''
          else if lp_ReasoningLevels (rp_Preset raw) \<noteq> [] then hd (lp_ReasoningLevels (rp_Preset raw))
          else ''off'')"

fun architectures_from :: "string \<Rightarrow> string list \<Rightarrow> string list \<Rightarrow> catalog_error option" where
  "architectures_from i seen [] = None"
| "architectures_from i seen (a # as) =
     (if \<not> architecturePattern a then Some (CatalogError i ''unsupported context architecture'')
      else if a \<in> set seen then Some (CatalogError i ''duplicate context architecture'')
      else architectures_from i (a # seen) as)"

definition check_reasoning :: "string \<Rightarrow> rawLlamaPreset \<Rightarrow> catalog_error option" where
  "check_reasoning i raw =
     (let p = rp_Preset raw; d = effective_default raw; control = lp_ReasoningControl p;
          levels = lp_ReasoningLevels p in
      if control \<notin> {[], ''toggle'', ''effort'', ''strength''}
      then Some (CatalogError i ''unsupported reasoning_control'')
      else (case uniqueIdentifiers levels i of
          Some e \<Rightarrow> Some e
        | None \<Rightarrow>
            if d \<noteq> ''off'' \<and> d \<noteq> ''on'' \<and> d \<notin> set levels
            then Some (CatalogError i ''invalid reasoning_default'')
            else if control = ''toggle'' \<and> (levels \<noteq> [] \<or> d \<noteq> ''on'' \<or> \<not> lp_ReasoningOff p)
            then Some (CatalogError i ''inconsistent toggle reasoning settings'')
            else if (control = ''effort'' \<or> control = ''strength'') \<and> levels = []
            then Some (CatalogError i ''reasoning levels are required'')
            else if lp_ReasoningPreserve p \<and> \<not> lp_AgentTools p
            then Some (CatalogError i ''reasoning_preserve requires agent_tools'')
            else None))"

definition check_flash :: "string \<Rightarrow> string \<times> string \<Rightarrow> catalog_error option" where
  "check_flash i entry = (case entry of (profile, setting) \<Rightarrow>
     if \<not> known_profile profile \<or> setting \<notin> {''on'', ''off'', ''auto''}
     then Some (CatalogError i ''invalid flash_attention policy'') else None)"

definition check_kv :: "string \<Rightarrow> LlamaPreset \<Rightarrow> string \<times> string \<Rightarrow> catalog_error option" where
  "check_kv i p entry = (case entry of (profile, setting) \<Rightarrow>
     if \<not> known_profile profile \<or> setting \<notin> {''f16'', ''q8_0'', ''q4_0''}
     then Some (CatalogError i ''invalid kv_cache policy'')
     else if setting \<noteq> ''f16'' \<and> map_string (lp_FlashAttention p) profile \<noteq> ''on''
     then Some (CatalogError i ''quantized KV cache requires flash attention'')
     else None)"

definition check_model_load :: "string \<Rightarrow> LlamaPreset \<Rightarrow> string \<times> string \<Rightarrow> catalog_error option" where
  "check_model_load i p entry = (case entry of (profile, policy) \<Rightarrow>
     if (profile \<noteq> ''strix-halo'' \<and> profile \<noteq> ''strix-point'') \<or>
        policy \<notin> {LlamaModelLoadResident, LlamaModelLoadMMapLazyTokenEmbedding, LlamaModelLoadStreamTokenEmbedding}
     then Some (CatalogError i ''invalid model_load policy'')
     else if policy \<noteq> LlamaModelLoadStreamTokenEmbedding then None
     else if profile \<noteq> ''strix-halo'' \<or> map_string (lp_FlashAttention p) profile \<noteq> ''on'' \<or>
             map_string (lp_KVCache p) profile \<noteq> ''f16''
     then Some (CatalogError i ''streaming requires Strix Halo, Flash Attention and F16 KV'')
     else if lp_SpeculativeType p \<noteq> [] \<and>
        (lp_SpeculativeType p \<noteq> ''draft-dflash'' \<or> lp_DraftTokens p \<noteq> 3 \<or>
         lp_DraftTokensByBackend p \<noteq> [] \<or> lp_DraftArtifact p = [] \<or> lp_Backends p \<noteq> [''rocm''])
     then Some (CatalogError i ''streaming speculation requires ROCm-only DFlash at depth 3 with a separate draft'')
     else if (lp_Backends p = [] \<or> ''rocm'' \<in> set (lp_Backends p)) \<and>
        (case lookup (lp_BackendProfiles p) ''rocm'' of None \<Rightarrow> True | Some ps \<Rightarrow> ps \<noteq> [''strix-halo''])
     then Some (CatalogError i ''streaming ROCm policy requires an explicit Strix Halo backend restriction'')
     else None)"

definition check_backend_profiles :: "string \<Rightarrow> LlamaPreset \<Rightarrow> string \<times> string list \<Rightarrow> catalog_error option" where
  "check_backend_profiles i p entry = (case entry of (backend, ps) \<Rightarrow>
     if \<not> backend_name backend \<or> (lp_Backends p \<noteq> [] \<and> backend \<notin> set (lp_Backends p)) \<or> ps = []
     then Some (CatalogError i ''invalid backend_profiles restriction'')
     else (case uniqueIdentifiers ps i of
         Some e \<Rightarrow> Some e
       | None \<Rightarrow> check_all (\<lambda>profile. if known_profile profile then None
                     else Some (CatalogError i ''unsupported backend profile'')) ps))"

text \<open>The checks of \<^verbatim>\<open>loadLlamaPreset\<close> in their order.\<close>

definition preset_checks :: "string \<Rightarrow> rawLlamaPreset \<Rightarrow> catalog_error option list" where
  "preset_checks i raw =
     (let p = rp_Preset raw in
      [if lp_DefaultContext p \<le> 0 \<or> lp_DefaultContext p mod 1024 \<noteq> 0
       then Some (CatalogError i ''default_context must be a positive multiple of 1024'') else None,
       if lp_SpeculativeType p \<notin> {[], ''draft-mtp'', ''draft-dflash''}
       then Some (CatalogError i ''unsupported speculative_type'') else None,
       if lp_DraftTokens p < 0 then Some (CatalogError i ''draft_tokens cannot be negative'') else None,
       check_all (\<lambda>(b, n). if \<not> backend_name b \<or> n \<le> 0
           then Some (CatalogError i ''invalid backend draft tokens'') else None) (lp_DraftTokensByBackend p),
       architectures_from i [] (lp_ContextOverrideArchitectures p),
       check_reasoning i raw,
       check_all (check_flash i) (lp_FlashAttention p),
       check_all (check_kv i p) (lp_KVCache p),
       check_all (check_model_load i p) (lp_ModelLoad p),
       uniqueIdentifiers (lp_Backends p) i,
       check_all (\<lambda>b. if backend_name b then None else Some (CatalogError i ''unsupported backend'')) (lp_Backends p),
       check_all (check_backend_profiles i p) (lp_BackendProfiles p)])"

definition loadLlamaPreset :: "string \<Rightarrow> rawLlamaPreset option \<Rightarrow> catalog_error + LlamaPreset" where
  "loadLlamaPreset i v =
     after (validIdentifier i ''llama.cpp preset'') (decoded i v (\<lambda>raw.
       after (check_all (\<lambda>e. e) (preset_checks i raw))
         (Inr ((rp_Preset raw)\<lparr>lp_ID := i, lp_ReasoningDefault := effective_default raw\<rparr>))))"

section \<open>Relationships between entries\<close>

text \<open>The first loop: agreements exist, destinations are unique, a digest has one size.\<close>

fun check_artifacts ::
  "Agreement table \<Rightarrow> string table \<Rightarrow> int table \<Rightarrow> Artifact table \<Rightarrow> catalog_error option" where
  "check_artifacts agreements destinations blobs [] = None"
| "check_artifacts agreements destinations blobs ((i, a) # rest) =
     (if list_ex (\<lambda>g. lookup agreements g = None) (ar_Agreements a)
      then Some (CatalogError i ''references unknown agreement'')
      else
        (let key = ar_Target a @ [CHR 0x00] @ ar_Destination a in
         if lookup destinations key \<noteq> None then Some (CatalogError i ''shared destination'')
         else if (case lookup blobs (ar_SHA256 a) of None \<Rightarrow> False | Some previous \<Rightarrow> previous \<noteq> ar_Size a)
         then Some (CatalogError i ''inconsistent sizes'')
         else check_artifacts agreements (upsert key i destinations)
                (upsert (ar_SHA256 a) (ar_Size a) blobs) rest))"

definition check_bundle :: "Catalog \<Rightarrow> string \<times> Bundle \<Rightarrow> catalog_error option" where
  "check_bundle c entry = (case entry of (i, b) \<Rightarrow>
     if list_ex (\<lambda>a. lookup (ct_Artifacts c) a = None) (bn_Artifacts b)
     then Some (CatalogError i ''references unknown artifact'')
     else if bn_Workflow b \<noteq> [] \<and> lookup (ct_Workflows c) (bn_Workflow b) = None
     then Some (CatalogError i ''references unknown workflow'')
     else None)"

definition gguf :: "string \<Rightarrow> bool" where
  "gguf d \<longleftrightarrow> hasSuffix (map lower_char d) ''.gguf''"

text \<open>A model file of a preset: a known artifact of the bundle that is placed with the models.\<close>

definition model_artifact :: "Catalog \<Rightarrow> Bundle \<Rightarrow> string \<Rightarrow> bool" where
  "model_artifact c b i = (case lookup (ct_Artifacts c) i of None \<Rightarrow> False
     | Some a \<Rightarrow> i \<in> set (bn_Artifacts b) \<and> ar_Target a = ''llama-models'' \<and> gguf (ar_Destination a))"

definition check_preset :: "Catalog \<Rightarrow> string \<times> LlamaPreset \<Rightarrow> catalog_error option" where
  "check_preset c entry = (case entry of (i, p) \<Rightarrow>
     (case lookup (ct_Bundles c) (lp_Bundle p) of
        None \<Rightarrow> Some (CatalogError i ''invalid bundle'')
      | Some b \<Rightarrow>
          if bn_Application b \<noteq> ''llama-cpp'' then Some (CatalogError i ''invalid bundle'')
          else if \<not> model_artifact c b (lp_Artifact p) then Some (CatalogError i ''invalid model artifact'')
          else if lp_DraftArtifact p \<noteq> [] \<and>
             (lp_DraftArtifact p = lp_Artifact p \<or> \<not> model_artifact c b (lp_DraftArtifact p))
          then Some (CatalogError i ''invalid draft artifact'')
          else if lp_MMProjArtifact p \<noteq> [] \<and>
             (lp_MMProjArtifact p = lp_Artifact p \<or> lp_MMProjArtifact p = lp_DraftArtifact p \<or>
              \<not> model_artifact c b (lp_MMProjArtifact p))
          then Some (CatalogError i ''invalid multimodal projector artifact'')
          else if lp_SamplingPolicy p \<noteq> [] \<and> lookup (ct_SamplingPolicies c) (lp_SamplingPolicy p) = None
          then Some (CatalogError i ''unknown sampling policy'')
          else None))"

definition validateRelationships :: "Catalog \<Rightarrow> catalog_error option" where
  "validateRelationships c =
     check_all (\<lambda>e. e)
      [check_artifacts (ct_Agreements c) [] [] (ct_Artifacts c),
       check_all (check_bundle c) (ct_Bundles c),
       check_all (\<lambda>(i, _). if lookup (ct_Bundles c) i = None
           then Some (CatalogError i ''benchmark references unknown bundle'') else None) (ct_Benchmarks c),
       check_all (\<lambda>(i, b). if bn_Workflow b \<noteq> [] \<and> lookup (ct_Benchmarks c) i = None
           then Some (CatalogError i ''workflow bundle has no managed benchmark'') else None) (ct_Bundles c),
       check_all (check_preset c) (ct_LlamaPresets c)]"

section \<open>Loading the document\<close>

text \<open>Each archive collection is expanded and its members are added to the artifacts.\<close>

fun load_archives ::
  "url_library \<Rightarrow> Artifact table \<Rightarrow> rawArchiveCollection option table \<Rightarrow> catalog_error + Artifact table" where
  "load_archives lib artifacts [] = Inr artifacts"
| "load_archives lib artifacts ((i, v) # rest) =
     bind_res (expandArchiveCollection lib i v) (\<lambda>members.
       case find (\<lambda>(m, _). lookup artifacts m \<noteq> None) members of
         Some (m, _) \<Rightarrow> reject m ''duplicate artifact identifier''
       | None \<Rightarrow> load_archives lib (artifacts @ members) rest)"

definition missing_collection :: "document \<Rightarrow> bool" where
  "missing_collection raw \<longleftrightarrow> dc_Agreements raw = None \<or> dc_Artifacts raw = None \<or>
     dc_ArchiveGroups raw = None \<or> dc_Bundles raw = None \<or> dc_Workflows raw = None \<or>
     dc_Benchmarks raw = None \<or> dc_SamplingPolicies raw = None \<or> dc_LlamaPresets raw = None"

text \<open>\<open>contents\<close> is the decoded file: \<open>None\<close> when it cannot be read or decoded.\<close>

definition LoadCatalog :: "url_library \<Rightarrow> document option \<Rightarrow> catalog_error + Catalog" where
  "LoadCatalog lib contents =
     decoded ''catalog'' contents (\<lambda>raw.
       if dc_SchemaVersion raw \<noteq> SchemaVersion then reject ''catalog'' ''unsupported catalog schema''
       else if missing_collection raw then reject ''catalog'' ''catalog collections must be objects''
       else
         bind_res (load_table (loadAgreement lib) (the (dc_Agreements raw))) (\<lambda>agreements.
         bind_res (load_table (loadArtifact lib) (the (dc_Artifacts raw))) (\<lambda>artifacts.
         bind_res (load_archives lib artifacts (the (dc_ArchiveGroups raw))) (\<lambda>all.
         bind_res (load_table loadBundle (the (dc_Bundles raw))) (\<lambda>bundles.
         bind_res (load_table (loadWorkflow lib) (the (dc_Workflows raw))) (\<lambda>workflows.
         bind_res (load_table loadBenchmark (the (dc_Benchmarks raw))) (\<lambda>benchmarks.
         bind_res (load_table loadSamplingPolicy (the (dc_SamplingPolicies raw))) (\<lambda>policies.
         bind_res (load_table loadLlamaPreset (the (dc_LlamaPresets raw))) (\<lambda>presets.
           (let c = \<lparr>ct_Agreements = agreements, ct_Artifacts = all, ct_Bundles = bundles,
                     ct_Workflows = workflows, ct_Benchmarks = benchmarks,
                     ct_SamplingPolicies = policies, ct_LlamaPresets = presets\<rparr> in
            after (validateRelationships c) (Inr c)))))))))))"

end
