(* ===== verification/Podman.thy ===== *)
theory Podman
  imports Scheduler Catalog
begin

text \<open>
  The boundary to podman: the result of a child process (\<^verbatim>\<open>internal/process/process.go\<close>), the client
  that inspects and removes containers, the ownership labels and the SELinux helpers
  (\<^verbatim>\<open>internal/podman/podman.go\<close>), and the failures with an exit status (\<^verbatim>\<open>internal/controlerr\<close>).

  A runner is an argument: it gets the context of the call, the command and the state of the host,
  and returns the outcome with the next state. The documented behaviour of podman that the
  lifecycle relies on is stated in \<open>Lifecycle\<close>.
\<close>

section \<open>Processes and errors\<close>

record result =
  rs_Stdout :: string
  rs_Stderr :: string
  rs_Status :: int

text \<open>
  The contexts that reach a runner: the caller's own, the one with the startup deadline, and the
  one of \<^verbatim>\<open>context.WithoutCancel\<close>, which outlives its parent.
\<close>

datatype call_context = CallerContext | ReadyContext | WithoutCancel

record 'h runner =
  rn_Run :: "call_context \<Rightarrow> string \<Rightarrow> string list \<Rightarrow> 'h \<Rightarrow> (string + result) \<times> 'h"
  rn_LookPath :: "string \<Rightarrow> string option"

datatype child_end = ChildSucceeded | ChildExited int | ChildFailed string

definition OSRunner_Run :: "child_end \<Rightarrow> string \<Rightarrow> string \<Rightarrow> string + result" where
  "OSRunner_Run outcome stdout stderr = (case outcome of
     ChildSucceeded \<Rightarrow> Inr \<lparr>rs_Stdout = stdout, rs_Stderr = stderr, rs_Status = 0\<rparr>
   | ChildExited status \<Rightarrow> Inr \<lparr>rs_Stdout = stdout, rs_Stderr = stderr, rs_Status = status\<rparr>
   | ChildFailed t \<Rightarrow> Inl t)"

definition New :: "string \<Rightarrow> gerror" where
  "New message = ControlError message 1"

definition Usage :: "string \<Rightarrow> gerror" where
  "Usage message = ControlError message 2"

text \<open>The trimmed error output of a command, or a text in its place when there is none.\<close>

definition detail_or :: "result \<Rightarrow> string \<Rightarrow> string" where
  "detail_or res d = (let t = trimSpace (rs_Stderr res) in if t = [] then d else t)"

section \<open>Ownership\<close>

definition LabelNamespace :: string where "LabelNamespace = ''io.github.fff7d1bc.paracetamol''"
definition ManagedContainerLabel :: string where
  "ManagedContainerLabel = LabelNamespace @ ''.managed''"
definition ManagedApplicationLabel :: string where
  "ManagedApplicationLabel = LabelNamespace @ ''.application''"
definition ManagedRoleLabel :: string where
  "ManagedRoleLabel = LabelNamespace @ ''.role''"

definition ManagedArguments :: "string \<Rightarrow> string \<Rightarrow> string list" where
  "ManagedArguments application role =
     [''--label'', ManagedContainerLabel @ ''=true'', ''--label'', ManagedRoleLabel @ ''='' @ role]
     @ (if application \<noteq> [] then [''--label'', ManagedApplicationLabel @ ''='' @ application] else [])"

section \<open>The client\<close>

definition RequireRootless :: "'h runner \<Rightarrow> call_context \<Rightarrow> 'h \<Rightarrow> gerror option \<times> 'h" where
  "RequireRootless R ctx h =
     (if rn_LookPath R ''podman'' = None then (Some (New ''podman is not installed''), h)
      else (case rn_Run R ctx ''podman'' [''info'', ''--format'', ''{{.Host.Security.Rootless}}''] h of
        (Inl e, h1) \<Rightarrow> (Some (New ''cannot query Podman''), h1)
      | (Inr res, h1) \<Rightarrow>
          (if rs_Status res \<noteq> 0 then Some (New ''cannot query Podman'')
           else if trimSpace (rs_Stdout res) \<noteq> ''true''
           then Some (New ''rootful Podman is not supported'') else None, h1)))"

definition Exists :: "'h runner \<Rightarrow> call_context \<Rightarrow> string \<Rightarrow> string \<Rightarrow> 'h \<Rightarrow> (gerror + bool) \<times> 'h" where
  "Exists R ctx kind name h =
     (if kind \<noteq> ''image'' \<and> kind \<noteq> ''container''
      then (Inl (ErrorText (''unsupported Podman object kind '' @ quoted kind)), h)
      else (case rn_Run R ctx ''podman'' [kind, ''exists'', name] h of
        (Inl e, h1) \<Rightarrow> (Inl (ErrorText e), h1)
      | (Inr res, h1) \<Rightarrow>
          (if rs_Status res = 0 then Inr True
           else if rs_Status res = 1 then Inr False
           else Inl (New (''cannot inspect Podman '' @ kind @ '' '' @ name)), h1)))"

definition ps_arguments :: "string \<Rightarrow> string list" where
  "ps_arguments application =
     [''ps'', ''--all'', ''--filter'', ''label='' @ ManagedContainerLabel @ ''=true'']
     @ (if application \<noteq> []
        then [''--filter'', ''label='' @ ManagedApplicationLabel @ ''='' @ application] else [])
     @ [''--format'', ''{{.Names}}'']"

definition ManagedContainerNames ::
  "'h runner \<Rightarrow> call_context \<Rightarrow> string \<Rightarrow> 'h \<Rightarrow> (gerror + string list) \<times> 'h" where
  "ManagedContainerNames R ctx application h =
     (case rn_Run R ctx ''podman'' (ps_arguments application) h of
        (Inl e, h1) \<Rightarrow> (Inl (New (''cannot inspect managed containers: '' @ e)), h1)
      | (Inr res, h1) \<Rightarrow>
          (if rs_Status res \<noteq> 0
           then Inl (New (''cannot inspect managed containers: ''
             @ detail_or res (''podman ps exited with status '' @ format_int (rs_Status res))))
           else Inr (sort (remdups (Fields (rs_Stdout res)))), h1))"

definition Capture ::
  "'h runner \<Rightarrow> call_context \<Rightarrow> string list \<Rightarrow> string \<Rightarrow> 'h \<Rightarrow> (gerror + string) \<times> 'h" where
  "Capture R ctx arguments failure h =
     (case rn_Run R ctx ''podman'' arguments h of
        (Inl e, h1) \<Rightarrow> (Inl (New (failure @ '': '' @ e)), h1)
      | (Inr res, h1) \<Rightarrow>
          (if rs_Status res \<noteq> 0
           then Inl (New (if trimSpace (rs_Stderr res) \<noteq> []
                          then failure @ '': '' @ trimSpace (rs_Stderr res) else failure))
           else Inr (trimSpace (rs_Stdout res)), h1))"

text \<open>Decoding the JSON object of labels is an argument.\<close>

type_synonym labels = "(string \<times> string) list"

definition inspect_arguments :: "string \<Rightarrow> string list" where
  "inspect_arguments name = [''inspect'', ''--format'', ''{{json .Config.Labels}}'', name]"

definition ContainerLabels ::
  "(string \<Rightarrow> labels option) \<Rightarrow> 'h runner \<Rightarrow> call_context \<Rightarrow> string \<Rightarrow> 'h \<Rightarrow> (gerror + labels) \<times> 'h" where
  "ContainerLabels decode R ctx name h =
     (case Capture R ctx (inspect_arguments name) (''cannot inspect container labels for '' @ name) h of
        (Inl e, h1) \<Rightarrow> (Inl e, h1)
      | (Inr raw, h1) \<Rightarrow>
          ((case decode raw of
              None \<Rightarrow> Inl (New (''cannot decode container labels for '' @ name))
            | Some ls \<Rightarrow> Inr ls), h1))"

text \<open>\<^verbatim>\<open>net.SplitHostPort\<close>: the port starts after the last colon, a host with colons is in brackets.\<close>

definition last_index :: "char \<Rightarrow> string \<Rightarrow> nat option" where
  "last_index c s = (if c \<in> set s then Some (length s - 1 - length (takeWhile (\<lambda>x. x \<noteq> c) (rev s)))
                     else None)"

definition SplitHostPort :: "string \<Rightarrow> (string \<times> string) option" where
  "SplitHostPort s = (case last_index CHR '':'' s of
     None \<Rightarrow> None
   | Some i \<Rightarrow>
       (if hasPrefix s ''['' then
          (case cut CHR '']'' s of
             None \<Rightarrow> None
           | Some (inner, rest) \<Rightarrow>
               (if Suc (length inner) \<noteq> i \<or> CHR ''['' \<in> set (drop 1 s)
                   \<or> CHR '']'' \<in> set (drop (Suc (length inner)) s) then None
                else Some (drop 1 inner, drop (Suc i) s)))
        else if CHR '':'' \<in> set (take i s) \<or> CHR ''['' \<in> set s \<or> CHR '']'' \<in> set s then None
        else Some (take i s, drop (Suc i) s)))"

text \<open>\<open>loopback\<close> stands for \<^verbatim>\<open>net.ParseIP\<close> giving an address whose \<^verbatim>\<open>IsLoopback\<close> holds.\<close>

definition PublishedLoopbackPort ::
  "(string \<Rightarrow> bool) \<Rightarrow> 'h runner \<Rightarrow> call_context \<Rightarrow> string \<Rightarrow> int \<Rightarrow> 'h \<Rightarrow> (gerror + int) \<times> 'h" where
  "PublishedLoopbackPort loopback R ctx name containerPort h =
     (if containerPort < 1 \<or> 65535 < containerPort then (Inl (ErrorText ''invalid container port''), h)
      else (case Capture R ctx [''port'', name, format_int containerPort @ ''/tcp'']
                   (''cannot inspect published port for '' @ name) h of
        (Inl e, h1) \<Rightarrow> (Inl e, h1)
      | (Inr raw, h1) \<Rightarrow>
          ((case Fields raw of
              [line] \<Rightarrow>
                (case SplitHostPort line of
                   None \<Rightarrow> Inl (New (''container '' @ name @ '' returned an invalid published port''))
                 | Some (host, portText) \<Rightarrow>
                     (case parseInt64 portText of
                        Some port \<Rightarrow>
                          (if \<not> loopback host \<or> port < 1 \<or> 65535 < port
                           then Inl (New (''container '' @ name @ '' is not published on one loopback port''))
                           else Inr port)
                      | None \<Rightarrow> Inl (New (''container '' @ name @ '' is not published on one loopback port''))))
            | _ \<Rightarrow> Inl (New (''container '' @ name @ '' has an ambiguous published port''))), h1)))"

definition execute :: "'h runner \<Rightarrow> call_context \<Rightarrow> string list \<Rightarrow> string \<Rightarrow> 'h \<Rightarrow> gerror option \<times> 'h" where
  "execute R ctx arguments failure h =
     (case rn_Run R ctx ''podman'' arguments h of
        (Inl e, h1) \<Rightarrow> (Some (New (failure @ '': '' @ e)), h1)
      | (Inr res, h1) \<Rightarrow>
          (if rs_Status res = 0 then None
           else Some (ControlError (failure @ '': ''
             @ detail_or res (''podman exited with status '' @ format_int (rs_Status res)))
             (rs_Status res)), h1))"

definition rm_arguments :: "string \<Rightarrow> int \<Rightarrow> string list" where
  "rm_arguments name graceSeconds =
     [''rm'', ''--force'', ''--time'', format_int graceSeconds, ''--ignore'', name]"

definition RemoveContainer :: "'h runner \<Rightarrow> call_context \<Rightarrow> string \<Rightarrow> int \<Rightarrow> 'h \<Rightarrow> gerror option \<times> 'h" where
  "RemoveContainer R ctx name graceSeconds h =
     (if name = [] \<or> graceSeconds < 0 then (Some (ErrorText ''invalid container removal request''), h)
      else execute R ctx (rm_arguments name graceSeconds) (''cannot remove container '' @ name) h)"

definition RemoveImage :: "'h runner \<Rightarrow> call_context \<Rightarrow> string \<Rightarrow> 'h \<Rightarrow> gerror option \<times> 'h" where
  "RemoveImage R ctx reference h =
     (if reference = [] then (Some (ErrorText ''invalid image removal request''), h)
      else execute R ctx [''image'', ''rm'', reference] (''cannot remove image '' @ reference) h)"

record LogOptions =
  lo_Container :: string
  lo_Follow :: bool
  lo_All :: bool
  lo_Tail :: int

definition Logs :: "'h runner \<Rightarrow> call_context \<Rightarrow> LogOptions \<Rightarrow> 'h \<Rightarrow> gerror option \<times> 'h" where
  "Logs R ctx opts h =
     (if lo_Container opts = [] \<or> (\<not> lo_All opts \<and> lo_Tail opts < 1)
      then (Some (ErrorText ''invalid container log request''), h)
      else execute R ctx
        ([''logs''] @ (if lo_Follow opts then [''--follow''] else [])
         @ (if \<not> lo_All opts then [''--tail'', format_int (lo_Tail opts)] else [])
         @ [lo_Container opts])
        (''cannot read container logs for '' @ lo_Container opts) h)"

section \<open>SELinux and the umask\<close>

text \<open>\<^verbatim>\<open>strings.Replace(s, old, new, 1)\<close> for a non-empty \<^verbatim>\<open>old\<close>.\<close>

fun replace_first :: "string \<Rightarrow> string \<Rightarrow> string \<Rightarrow> string" where
  "replace_first [] old new = []"
| "replace_first (c # s) old new =
     (if hasPrefix (c # s) old then new @ drop (length old) (c # s) else c # replace_first s old new)"

definition SELinuxVolumeSuffix :: "'h runner \<Rightarrow> call_context \<Rightarrow> 'h \<Rightarrow> string \<times> 'h" where
  "SELinuxVolumeSuffix R ctx h = (case rn_LookPath R ''getenforce'' of
     None \<Rightarrow> ('':rw'', h)
   | Some getenforce \<Rightarrow>
       (case rn_Run R ctx getenforce [] h of
          (Inl e, h1) \<Rightarrow> ('':rw'', h1)
        | (Inr res, h1) \<Rightarrow>
            (if trimSpace (rs_Stdout res) = ''Enforcing'' then '':rw,Z'' else '':rw'', h1)))"

definition SharedSELinuxVolumeSuffix :: "'h runner \<Rightarrow> call_context \<Rightarrow> 'h \<Rightarrow> string \<times> 'h" where
  "SharedSELinuxVolumeSuffix R ctx h =
     (let (s, h1) = SELinuxVolumeSuffix R ctx h in (replace_first s '',Z'' '',z'', h1))"

definition SharedContentSELinuxContext :: string where
  "SharedContentSELinuxContext = ''system_u:object_r:container_file_t:s0''"

definition PrepareSharedContentLabel ::
  "'h runner \<Rightarrow> call_context \<Rightarrow> string \<Rightarrow> 'h \<Rightarrow> gerror option \<times> 'h" where
  "PrepareSharedContentLabel R ctx path h =
     (let (suffix, h1) = SELinuxVolumeSuffix R ctx h;
          failure = ''cannot prepare shared SELinux label for '' @ path @ '': '' in
      if suffix \<noteq> '':rw,Z'' then (None, h1)
      else (case rn_LookPath R ''chcon'' of
        None \<Rightarrow> (Some (New (failure @ ''chcon is not installed'')), h1)
      | Some chcon \<Rightarrow>
          (case rn_Run R ctx chcon [''--no-dereference'', SharedContentSELinuxContext, ''--'', path] h1 of
             (Inl e, h2) \<Rightarrow> (Some (New (failure @ e)), h2)
           | (Inr res, h2) \<Rightarrow>
               (if rs_Status res = 0 then None
                else Some (New (failure
                  @ detail_or res (''exit status '' @ format_int (rs_Status res)))), h2))))"

definition SELinuxContainerDeviceAccess ::
  "'h runner \<Rightarrow> call_context \<Rightarrow> 'h \<Rightarrow> bool option \<times> 'h" where
  "SELinuxContainerDeviceAccess R ctx h =
     (case (rn_LookPath R ''getenforce'', rn_LookPath R ''getsebool'') of
        (Some getenforce, Some getsebool) \<Rightarrow>
          (case rn_Run R ctx getenforce [] h of
             (Inl e, h1) \<Rightarrow> (None, h1)
           | (Inr enforcing, h1) \<Rightarrow>
               (if rs_Status enforcing \<noteq> 0 \<or> trimSpace (rs_Stdout enforcing) \<noteq> ''Enforcing''
                then (None, h1)
                else (case rn_Run R ctx getsebool [''container_use_devices''] h1 of
                  (Inl e, h2) \<Rightarrow> (None, h2)
                | (Inr policy, h2) \<Rightarrow>
                    (if rs_Status policy \<noteq> 0 \<or> Fields (rs_Stdout policy) = [] then None
                     else if last (Fields (rs_Stdout policy)) = ''on'' then Some True
                     else if last (Fields (rs_Stdout policy)) = ''off'' then Some False
                     else None, h2))))
      | _ \<Rightarrow> (None, h))"

definition RequireContainerDeviceAccess ::
  "'h runner \<Rightarrow> call_context \<Rightarrow> 'h \<Rightarrow> gerror option \<times> 'h" where
  "RequireContainerDeviceAccess R ctx h =
     (let (allowed, h1) = SELinuxContainerDeviceAccess R ctx h in
      (if allowed = Some False
       then Some (New ''SELinux blocks GPU memory mapping because container_use_devices is off'')
       else None, h1))"

text \<open>The umask of the process as podman expects it; the lines of \<^verbatim>\<open>/proc/self/status\<close> are an argument.\<close>

definition parse_octal :: "string \<Rightarrow> nat option" where
  "parse_octal s =
     (let v = foldl (\<lambda>n c. 8 * n + (code c - 48)) 0 s in
      if s = [] \<or> list_ex (\<lambda>c. code c < 48 \<or> 55 < code c) s \<or> 4294967295 < v then None else Some v)"

definition octal4 :: "nat \<Rightarrow> string" where
  "octal4 n = (let d = base_digits 8 n in replicate (4 - length d) CHR ''0'' @ d)"

fun CurrentUmask :: "string list \<Rightarrow> string" where
  "CurrentUmask [] = ''0022''"
| "CurrentUmask (line # rest) =
     (case Fields line of
        [label, value] \<Rightarrow>
          (if label = ''Umask:''
           then (case parse_octal value of Some v \<Rightarrow> octal4 v | None \<Rightarrow> CurrentUmask rest)
           else CurrentUmask rest)
      | _ \<Rightarrow> CurrentUmask rest)"

end
