(* ===== verification/Runtime.thy ===== *)
theory Runtime
  imports Podman
begin

text \<open>
  The podman commands of the applications (\<^verbatim>\<open>internal/runtime\<close>): the llama.cpp container and its
  model mounts, its benchmark, the web applications and the shell, and the parser of the GPU
  diagnostic. The properties read a command the way podman does, by its options up to the image,
  and show that no value a caller gives can add, drop or change an option of the confinement.
\<close>

section \<open>Shared fragments\<close>

definition containerListen :: "string \<Rightarrow> string" where
  "containerListen host = (if CHR '':'' \<in> set host then ''::'' else ''0.0.0.0'')"

definition publicationNetwork :: "string \<Rightarrow> string list" where
  "publicationNetwork host = (if host = ''0.0.0.0'' then [''--network'', ''pasta:-4''] else [])"

definition bracketed :: "string \<Rightarrow> string" where
  "bracketed host = (if CHR '':'' \<in> set host then ''['' @ host @ '']'' else host)"

definition publishedPort :: "string \<Rightarrow> int \<Rightarrow> string" where
  "publishedPort host port =
     bracketed host @ '':'' @ format_int port @ '':'' @ format_int port @ ''/tcp''"

definition dynamicallyPublishedPort :: "string \<Rightarrow> int \<Rightarrow> string" where
  "dynamicallyPublishedPort host containerPort =
     bracketed host @ ''::'' @ format_int containerPort @ ''/tcp''"

definition readOnlySharedSuffix :: "string \<Rightarrow> string" where
  "readOnlySharedSuffix suffix = replace_first (replace_first suffix '':rw'' '':ro'') '',Z'' '',z''"

definition gpuDeviceArguments :: "string list \<Rightarrow> string list" where
  "gpuDeviceArguments renderNodes =
     [''--device'', ''/dev/kfd''] @ concat (map (\<lambda>node. [''--device'', node]) renderNodes)"

definition env :: "string \<Rightarrow> string \<Rightarrow> string list" where
  "env name value = [''--env'', name @ ''='' @ value]"

definition boolInt :: "bool \<Rightarrow> string" where
  "boolInt b = (if b then ''1'' else ''0'')"

section \<open>Model mounts\<close>

definition lower :: "string \<Rightarrow> string" where
  "lower = map lower_char"

text \<open>
  \<^verbatim>\<open>(?i)^(.+)-([0-9]{5})-of-([0-9]{5})(\.gguf)$\<close>: everything after the stem has a fixed length.
\<close>

definition localGGUFShard :: "string \<Rightarrow> (string \<times> string \<times> string \<times> string) option" where
  "localGGUFShard name =
     (let n = length name; stem = take (n - 20) name; rest = drop (n - 20) name;
          part = take 5 (drop 1 rest); count = take 5 (drop 10 rest); ext = drop 15 rest in
      if 20 < n \<and> NL \<notin> set stem \<and> take 1 rest = ''-'' \<and> list_all is_digit part
         \<and> lower (take 4 (drop 6 rest)) = ''-of-'' \<and> list_all is_digit count \<and> lower ext = ''.gguf''
      then Some (stem, part, count, ext) else None)"

text \<open>\<^verbatim>\<open>filepath.Ext\<close>: the suffix that begins at the last dot of the last element.\<close>

definition Ext :: "string \<Rightarrow> string" where
  "Ext p = (let b = rev (takeWhile (\<lambda>c. c \<noteq> SL) (rev p)) in
     case last_index CHR ''.'' b of None \<Rightarrow> [] | Some i \<Rightarrow> drop i b)"

definition pad5 :: "int \<Rightarrow> string" where
  "pad5 n = (let d = format_int n in replicate (5 - length d) CHR ''0'' @ d)"

datatype file_status = LstatError string | LstatRegular | LstatOther

record host_files =
  hf_EvalSymlinks :: "string \<Rightarrow> string + string"
  hf_Getwd :: string
  hf_Lstat :: "string \<Rightarrow> file_status"

fun mount_files :: "(string \<Rightarrow> file_status) \<Rightarrow> string \<Rightarrow> string list \<Rightarrow> gerror + string list" where
  "mount_files lstat readOnly [] = Inr []"
| "mount_files lstat readOnly (path # paths) = (case lstat path of
     LstatError e \<Rightarrow> Inl (Wrapped (''inspect local GGUF file '' @ path @ '': '') (ErrorText e))
   | LstatOther \<Rightarrow> Inl (ErrorText (''local GGUF file is not a regular file: '' @ path))
   | LstatRegular \<Rightarrow> bind_res (mount_files lstat readOnly paths)
       (\<lambda>mounts. Inr ([''--volume'', path @ '':/content/models/'' @ Base path @ readOnly] @ mounts)))"

definition shard_paths :: "string \<Rightarrow> gerror + string list" where
  "shard_paths resolved = (case localGGUFShard (Base resolved) of
     None \<Rightarrow> Inr [resolved]
   | Some (stem, part, count, ext) \<Rightarrow>
       (if decimal part \<noteq> 1 \<or> decimal count < 1
        then Inl (ErrorText (''local split GGUF must name the first shard (00001) with a positive shard count: '' @ resolved))
        else Inr (map (\<lambda>i. Join [Dir resolved,
               stem @ ''-'' @ pad5 (int i + 1) @ ''-of-'' @ pad5 (decimal count) @ ext])
             [0..<nat (decimal count)])))"

definition llamaModelMounts ::
  "host_files \<Rightarrow> Layout \<Rightarrow> string \<Rightarrow> string \<Rightarrow> string \<Rightarrow> gerror + (string list \<times> string)" where
  "llamaModelMounts fs layout local managed suffix =
     (let readOnly = readOnlySharedSuffix suffix in
      if local = [] then
        Inr ([''--volume'', LlamaModels layout @ '':/content/models'' @ readOnly],
             if managed \<noteq> [] then ''/content/models/'' @ managed else [])
      else (case hf_EvalSymlinks fs local of
        Inl e \<Rightarrow> Inl (Wrapped ''resolve local GGUF: '' (ErrorText e))
      | Inr target \<Rightarrow>
          (let resolved = Abs (hf_Getwd fs) target in
           if CHR '':'' \<in> set resolved
           then Inl (ErrorText (''local GGUF path cannot contain a colon in a Podman volume: '' @ resolved))
           else if lower (Ext resolved) \<noteq> ''.gguf''
           then Inl (ErrorText (''local model must name a .gguf file: '' @ resolved))
           else bind_res (shard_paths resolved) (\<lambda>paths.
             bind_res (mount_files (hf_Lstat fs) readOnly paths) (\<lambda>mounts.
               Inr (mounts, ''/content/models/'' @ Base resolved))))))"

section \<open>The llama.cpp container\<close>

record LlamaOptions =
  lo_Image :: string
  lo_Profile :: string
  lo_Mode :: string
  lo_DataDir :: string
  lo_Backend :: string
  lo_SourceRevision :: string
  lo_Model :: string
  lo_ManagedModel :: string
  lo_ManagedDraft :: string
  lo_ManagedMMProj :: string
  lo_SpeculativeType :: string
  lo_DraftTokens :: int
  lo_ContextOverrideArchitectures :: "string list"
  lo_Jinja :: bool
  lo_ReasoningPreserve :: bool
  lo_ChatTemplate :: string
  lo_ProfileFlashAttention :: "string table"
  lo_ProfileKVCache :: "string table"
  lo_ProfileModelLoad :: "string table"
  lo_AllowedProfiles :: "string list"
  lo_RouterPreset :: string
  lo_ModelsMax :: int
  lo_Slots :: int
  lo_RenderNodes :: "string list"
  lo_Listen :: string
  lo_Port :: int
  lo_Context :: int
  lo_Prompt :: "string option"
  lo_APIKeyFile :: string
  lo_Detach :: bool
  lo_Interactive :: bool
  lo_Unconfined :: bool
  lo_ContainerName :: string
  lo_ContainerRole :: string
  lo_AutoRemove :: bool
  lo_Arguments :: "string list"
  lo_Environment :: "string list"
  lo_DynamicHostPort :: bool

definition DefaultLlamaSlots :: int where "DefaultLlamaSlots = 4"

text \<open>A registry lookup that finds nothing returns the zero value; this one always finds its entry.\<close>

definition llama_application :: Spec where
  "llama_application = (case ByID ''llama-cpp'' of Some s \<Rightarrow> s | None \<Rightarrow> llama_cpp_spec)"

definition profile_env :: "LlamaOptions \<Rightarrow> string \<Rightarrow> string list" where
  "profile_env opts profile =
     (let key = map upper_char (map (\<lambda>c. if c = CHR ''-'' then CHR ''_'' else c) profile) in
      env (''PARACETAMOL_LLAMA_FLASH_ATTN_'' @ key) (map_string (lo_ProfileFlashAttention opts) profile)
      @ env (''PARACETAMOL_LLAMA_KV_CACHE_'' @ key) (map_string (lo_ProfileKVCache opts) profile)
      @ env (''PARACETAMOL_LLAMA_MODEL_LOAD_'' @ key) (map_string (lo_ProfileModelLoad opts) profile))"

definition confinement :: "string list" where
  "confinement = [''--read-only'', ''--cap-drop'', ''all'', ''--security-opt'', ''no-new-privileges'',
     ''--pids-limit'', ''2048'', ''--ulimit'', ''core=0:0'', ''--shm-size'', ''8g'']"

definition content_model :: "string \<Rightarrow> string" where
  "content_model m = (if m \<noteq> [] then ''/content/models/'' @ m else [])"

text \<open>The \<^verbatim>\<open>PARACETAMOL_\<close> environment of the image.\<close>

definition llama_environment :: "LlamaOptions \<Rightarrow> int \<Rightarrow> string \<Rightarrow> string list" where
  "llama_environment opts slots containerModel =
     env ''PARACETAMOL_PROFILE'' (lo_Profile opts)
     @ env ''PARACETAMOL_LLAMA_BACKEND'' (lo_Backend opts)
     @ env ''PARACETAMOL_LLAMA_ALLOWED_PROFILES'' (join_with '','' (lo_AllowedProfiles opts))
     @ env ''PARACETAMOL_SOURCE_REVISION'' (lo_SourceRevision opts)
     @ env ''PARACETAMOL_LLAMA_MODE'' (lo_Mode opts)
     @ env ''PARACETAMOL_LLAMA_SLOTS'' (format_int slots)
     @ env ''PARACETAMOL_LLAMA_MODEL'' containerModel
     @ env ''PARACETAMOL_LLAMA_DRAFT_MODEL'' (content_model (lo_ManagedDraft opts))
     @ env ''PARACETAMOL_LLAMA_MMPROJ'' (content_model (lo_ManagedMMProj opts))
     @ env ''PARACETAMOL_LLAMA_SPECULATIVE_TYPE'' (lo_SpeculativeType opts)
     @ env ''PARACETAMOL_LLAMA_DRAFT_TOKENS'' (format_int (lo_DraftTokens opts))
     @ env ''PARACETAMOL_LLAMA_CONTEXT_OVERRIDE'' (join_with '',''
         (map (\<lambda>a. a @ ''.context_length=int:'' @ format_int (lo_Context opts))
           (lo_ContextOverrideArchitectures opts)))
     @ env ''PARACETAMOL_LLAMA_JINJA'' (boolInt (lo_Jinja opts))
     @ env ''PARACETAMOL_LLAMA_REASONING_PRESERVE'' (boolInt (lo_ReasoningPreserve opts))
     @ env ''PARACETAMOL_LLAMA_CHAT_TEMPLATE'' (lo_ChatTemplate opts)
     @ env ''PARACETAMOL_LISTEN'' (containerListen (lo_Listen opts))
     @ env ''PARACETAMOL_HOST_LISTEN'' (lo_Listen opts)
     @ env ''PARACETAMOL_PORT'' (format_int (lo_Port opts))
     @ env ''PARACETAMOL_GPU_COUNT'' (format_int (int (length (lo_RenderNodes opts))))
     @ env ''PARACETAMOL_RENDER_NODES'' (join_with '','' (lo_RenderNodes opts))
     @ concat (map (profile_env opts) ProfileIDs)"

definition llama_network :: "LlamaOptions \<Rightarrow> string \<Rightarrow> string list" where
  "llama_network opts readOnly =
     (if lo_Mode opts \<noteq> ''server'' then [''--network'', ''none''] else [])
     @ (if lo_RouterPreset opts \<noteq> []
        then [''--volume'', lo_RouterPreset opts @ '':/run/paracetamol/models.ini'' @ readOnly]
          @ env ''PARACETAMOL_LLAMA_ROUTER'' ''1''
          @ env ''PARACETAMOL_LLAMA_MODELS_MAX'' (format_int (lo_ModelsMax opts)) else [])
     @ (if lo_Mode opts = ''server''
        then publicationNetwork (lo_Listen opts)
          @ [''--publish'', if lo_DynamicHostPort opts
               then dynamicallyPublishedPort (lo_Listen opts) (lo_Port opts)
               else publishedPort (lo_Listen opts) (lo_Port opts)] else [])"

definition llama_tail :: "LlamaOptions \<Rightarrow> string list" where
  "llama_tail opts =
     (if 0 < lo_Context opts then [''--ctx-size'', format_int (lo_Context opts)] else [])
     @ (if lo_APIKeyFile opts \<noteq> [] then [''--api-key-file'', ''/run/secrets/llama-api-key''] else [])
     @ (case lo_Prompt opts of Some p \<Rightarrow> [''--prompt'', p, ''--single-turn''] | None \<Rightarrow> [])
     @ lo_Arguments opts"

definition LlamaCommand ::
  "host_files \<Rightarrow> string \<Rightarrow> LlamaOptions \<Rightarrow> string \<Rightarrow> gerror + string list" where
  "LlamaCommand fs umask opts volumeSuffix =
     (let slots = (if lo_Slots opts = 0 then DefaultLlamaSlots else lo_Slots opts) in
      if slots < 1 \<or> 64 < slots then Inl (ErrorText ''llama.cpp slots must be between 1 and 64'')
      else
        (let layout = \<lparr>Root = lo_DataDir opts\<rparr>; readOnly = readOnlySharedSuffix volumeSuffix;
             name = or_default (lo_ContainerName opts) (sp_ContainerName llama_application);
             role = or_default (lo_ContainerRole opts) ''application'' in
         bind_res (llamaModelMounts fs layout (lo_Model opts) (lo_ManagedModel opts) volumeSuffix)
           (\<lambda>(modelMounts, containerModel). Inr (
              [''podman'', ''run'']
              @ (if lo_AutoRemove opts then [''--rm''] else [])
              @ [''--userns'', ''keep-id'', ''--umask'', umask, ''--name'', name]
              @ ManagedArguments ''llama-cpp'' role
              @ confinement
              @ [''--tmpfs'', ''/tmp:rw,nosuid,nodev,size=1g'',
                 ''--volume'', Application layout ''llama-cpp'' @ '':/data'' @ volumeSuffix]
              @ modelMounts
              @ llama_environment opts slots containerModel
              @ llama_network opts readOnly
              @ (if lo_Profile opts \<noteq> ''cpu'' then gpuDeviceArguments (lo_RenderNodes opts) else [])
              @ (if lo_APIKeyFile opts \<noteq> []
                 then [''--volume'', lo_APIKeyFile opts @ '':/run/secrets/llama-api-key'' @ readOnly] else [])
              @ (if lo_Unconfined opts then [''--security-opt'', ''seccomp=unconfined''] else [])
              @ concat (map (\<lambda>v. [''--env'', v]) (lo_Environment opts))
              @ (if lo_Detach opts then [''--detach''] else [])
              @ (if lo_Interactive opts then [''--interactive'', ''--tty''] else [])
              @ [lo_Image opts] @ llama_tail opts))))"

record LlamaBenchmarkOptions =
  lb_Image :: string
  lb_Profile :: string
  lb_DataDir :: string
  lb_Backend :: string
  lb_Model :: string
  lb_ManagedModel :: string
  lb_RenderNodes :: "string list"
  lb_Repetitions :: int
  lb_PromptTokens :: int
  lb_GenerationTokens :: int
  lb_ContextDepth :: int
  lb_BatchSize :: int
  lb_UBatchSize :: int
  lb_CacheTypeK :: string
  lb_CacheTypeV :: string
  lb_FlashAttention :: string
  lb_Unconfined :: bool

definition LlamaBenchmarkContainer :: string where
  "LlamaBenchmarkContainer = Container ''llama-cpp-benchmark''"

definition LlamaBenchmarkCommand ::
  "host_files \<Rightarrow> string \<Rightarrow> LlamaBenchmarkOptions \<Rightarrow> string \<Rightarrow> gerror + string list" where
  "LlamaBenchmarkCommand fs umask opts volumeSuffix =
     bind_res (llamaModelMounts fs \<lparr>Root = lb_DataDir opts\<rparr> (lb_Model opts) (lb_ManagedModel opts) volumeSuffix)
       (\<lambda>(modelMounts, containerModel). Inr (
          [''podman'', ''run'', ''--rm'', ''--userns'', ''keep-id'', ''--umask'', umask,
           ''--name'', LlamaBenchmarkContainer]
          @ ManagedArguments ''llama-cpp'' ''benchmark''
          @ [''--network'', ''none''] @ confinement
          @ [''--tmpfs'', ''/tmp:rw,nosuid,nodev,size=1g'', ''--env'', ''HOME=/tmp'']
          @ modelMounts
          @ env ''PARACETAMOL_PROFILE'' (lb_Profile opts)
          @ env ''PARACETAMOL_LLAMA_BACKEND'' (lb_Backend opts)
          @ env ''PARACETAMOL_LLAMA_MODE'' ''bench''
          @ env ''PARACETAMOL_LLAMA_MODEL'' containerModel
          @ env ''PARACETAMOL_GPU_COUNT'' (format_int (int (length (lb_RenderNodes opts))))
          @ (if lb_Profile opts \<noteq> ''cpu'' then gpuDeviceArguments (lb_RenderNodes opts) else [])
          @ (if lb_Unconfined opts then [''--security-opt'', ''seccomp=unconfined''] else [])
          @ [lb_Image opts,
             ''--repetitions'', format_int (lb_Repetitions opts),
             ''--n-prompt'', format_int (lb_PromptTokens opts),
             ''--n-gen'', format_int (lb_GenerationTokens opts),
             ''--n-depth'', format_int (lb_ContextDepth opts),
             ''--batch-size'', format_int (lb_BatchSize opts),
             ''--ubatch-size'', format_int (lb_UBatchSize opts),
             ''--cache-type-k'', lb_CacheTypeK opts,
             ''--cache-type-v'', lb_CacheTypeV opts,
             ''--flash-attn'', lb_FlashAttention opts,
             ''--output'', ''json'', ''--progress'']))"

section \<open>Shells and web applications\<close>

definition ShellCommand :: "string \<Rightarrow> string \<Rightarrow> string \<Rightarrow> string \<Rightarrow> string \<Rightarrow> string list" where
  "ShellCommand umask img dataDir volumeSuffix application =
     (let layout = \<lparr>Root = dataDir\<rparr>; readOnly = readOnlySharedSuffix volumeSuffix in
      [''podman'', ''run'', ''--rm'', ''--userns'', ''keep-id'', ''--umask'', umask, ''-it'']
      @ ManagedArguments application ''shell''
      @ [''--read-only'', ''--cap-drop'', ''all'', ''--security-opt'', ''no-new-privileges'',
         ''--ulimit'', ''core=0:0'', ''--tmpfs'', ''/tmp:rw,nosuid,nodev,size=8g'']
      @ [''--volume'', Application layout application @ '':/data'' @ volumeSuffix]
      @ (if application = ''comfyui'' then [''--volume'', ComfyModels layout @ '':/content/models'' @ readOnly]
         else if application = ''llama-cpp'' then [''--volume'', LlamaModels layout @ '':/content/models'' @ readOnly]
         else [])
      @ [''--entrypoint'', ''/bin/bash'', img])"

record WebOptions =
  wo_Image :: string
  wo_Profile :: string
  wo_Listen :: string
  wo_Port :: int
  wo_DataDir :: string
  wo_RenderNodes :: "string list"
  wo_Detach :: bool
  wo_Unconfined :: bool
  wo_DisableBundledExtensions :: bool
  wo_Arguments :: "string list"
  wo_ContainerName :: string
  wo_Application :: string
  wo_MemoryPolicy :: string
  wo_KernelPolicy :: string
  wo_Environment :: "string list"
  wo_Publish :: bool
  wo_NetworkNone :: bool
  wo_ContainerRole :: string

definition WebCommand :: "string \<Rightarrow> WebOptions \<Rightarrow> string \<Rightarrow> string list" where
  "WebCommand umask opts volumeSuffix =
     (let application = wo_Application opts; layout = \<lparr>Root = wo_DataDir opts\<rparr>;
          readOnly = readOnlySharedSuffix volumeSuffix;
          name = or_default (wo_ContainerName opts)
            (case ByID application of Some s \<Rightarrow> sp_ContainerName s | None \<Rightarrow> []) in
      [''podman'', ''run'', ''--rm'', ''--userns'', ''keep-id'', ''--umask'', umask, ''--name'', name]
      @ ManagedArguments application (or_default (wo_ContainerRole opts) ''application'')
      @ (if wo_Publish opts
         then publicationNetwork (wo_Listen opts)
           @ [''--publish'', publishedPort (wo_Listen opts) (wo_Port opts)] else [])
      @ confinement
      @ [''--tmpfs'', ''/tmp:rw,nosuid,nodev,size=8g'',
         ''--volume'', Application layout application @ '':/data'' @ volumeSuffix]
      @ (if application = ''comfyui''
         then [''--volume'', ComfyModels layout @ '':/content/models'' @ readOnly] else [])
      @ env ''PARACETAMOL_PROFILE'' (wo_Profile opts)
      @ env ''PARACETAMOL_LISTEN'' (containerListen (wo_Listen opts))
      @ env ''PARACETAMOL_HOST_LISTEN'' (wo_Listen opts)
      @ env ''PARACETAMOL_PORT'' (format_int (wo_Port opts))
      @ env ''PARACETAMOL_KERNEL_POLICY'' (wo_KernelPolicy opts)
      @ env ''PARACETAMOL_DISABLE_BUNDLED_EXTENSIONS'' (boolInt (wo_DisableBundledExtensions opts))
      @ (if application = ''comfyui'' then env ''PARACETAMOL_MEMORY_POLICY'' (wo_MemoryPolicy opts) else [])
      @ (if wo_NetworkNone opts then [''--network'', ''none''] else [])
      @ concat (map (\<lambda>v. [''--env'', v]) (wo_Environment opts))
      @ (if wo_Profile opts \<noteq> ''cpu'' then gpuDeviceArguments (wo_RenderNodes opts) else [])
      @ (if wo_Unconfined opts then [''--security-opt'', ''seccomp=unconfined''] else [])
      @ (if wo_Detach opts then [''--detach''] else [])
      @ (if wo_KernelPolicy opts = ''experimental''
         then [''--env'', ''TORCH_ROCM_AOTRITON_ENABLE_EXPERIMENTAL=1'',
               ''--env'', ''TORCH_BLAS_PREFER_HIPBLASLT=1''] else [])
      @ [wo_Image opts] @ wo_Arguments opts)"

section \<open>The GPU diagnostic\<close>

definition diagnosticFields :: "string list" where
  "diagnosticFields = [''PyTorch'', ''ROCm/HIP'', ''Device'', ''Architecture'', ''GPU operation'', ''GPU devices'']"

text \<open>\<^verbatim>\<open>strings.Cut(line, ": ")\<close>\<close>

fun cut_field :: "string \<Rightarrow> (string \<times> string) option" where
  "cut_field [] = None"
| "cut_field (c # s) = (if hasPrefix (c # s) '': '' then Some ([], drop 1 s)
     else map_option (\<lambda>(a, b). (c # a, b)) (cut_field s))"

definition diagnostic_line :: "string table \<Rightarrow> string \<Rightarrow> string table" where
  "diagnostic_line found line = (case cut_field line of
     Some (label, value) \<Rightarrow> (if label \<in> set diagnosticFields then upsert label value found else found)
   | None \<Rightarrow> found)"

definition ParseGPUDiagnostic :: "string \<Rightarrow> gerror + string table" where
  "ParseGPUDiagnostic output =
     (let found = foldl diagnostic_line [] (split_on NL output) in
      case find (\<lambda>f. map_string found f = []) diagnosticFields of
        Some f \<Rightarrow> Inl (ErrorText (''GPU diagnostic output is missing '' @ f))
      | None \<Rightarrow>
          (if map_string found ''GPU operation'' \<noteq> ''passed'' \<or> map_string found ''GPU devices'' \<noteq> ''passed''
           then Inl (ErrorText ''GPU diagnostic did not pass'') else Inr found))"

section \<open>How podman reads a command\<close>

text \<open>
  \<^verbatim>\<open>podman run [options] image [arguments]\<close>: an option takes the next word as its value unless it is
  a switch, and the first word that is no option is the image.
\<close>

definition switches :: "string list" where
  "switches = [''--rm'', ''--read-only'', ''--detach'', ''--interactive'', ''--tty'', ''-it'']"

fun parse_run :: "string list \<Rightarrow> (string \<times> string) list \<times> string list" where
  "parse_run [] = ([], [])"
| "parse_run (f # rest) =
     (if \<not> hasPrefix f ''-'' then ([], f # rest)
      else if f \<in> set switches then (let (os, t) = parse_run rest in ((f, []) # os, t))
      else (case rest of [] \<Rightarrow> ([], [f])
        | v # rest' \<Rightarrow> (let (os, t) = parse_run rest' in ((f, v) # os, t))))"

lemmas parse_run_Cons = parse_run.simps(2)
declare parse_run.simps(2) [simp del]

definition podman_values :: "string \<Rightarrow> (string \<times> string) list \<Rightarrow> string list" where
  "podman_values k os = map snd (filter (\<lambda>(k', _). k' = k) os)"

lemma podman_values_simps [simp]:
  "podman_values k [] = []"
  "podman_values k ((k', v) # os) = (if k' = k then v # podman_values k os else podman_values k os)"
  "podman_values k (os @ ps) = podman_values k os @ podman_values k ps"
  by (simp_all add: podman_values_def)

lemma podman_values_map_pair [simp]:
  "podman_values k (map (Pair k') vs) = (if k' = k then vs else [])"
  by (induction vs) auto

lemma parse_run_append:
  "snd (parse_run xs) = [] \<Longrightarrow>
   parse_run (xs @ ys) = (fst (parse_run xs) @ fst (parse_run ys), snd (parse_run ys))"
proof (induction xs rule: parse_run.induct)
  case (2 f rest)
  consider (switch) "hasPrefix f ''-''" "f \<in> set switches"
    | (option) v more where "hasPrefix f ''-''" "f \<notin> set switches" "rest = v # more"
    using "2.prems" by (auto simp: parse_run_Cons split: if_splits list.splits)
  then show ?case
  proof cases
    case switch
    then show ?thesis
      using "2.IH"(1) "2.prems" by (simp add: parse_run_Cons split_beta Let_def)
  next
    case option
    then show ?thesis
      using "2.IH"(2) "2.prems" by (simp add: parse_run_Cons split_beta Let_def)
  qed
qed simp

text \<open>
  \<open>whole\<close> words are complete options; a command is read fragment by fragment.
\<close>

definition whole :: "string list \<Rightarrow> bool" where
  "whole xs \<longleftrightarrow> snd (parse_run xs) = []"

definition options_of :: "string list \<Rightarrow> (string \<times> string) list" where
  "options_of xs = fst (parse_run xs)"

named_theorems podman_words \<open>reading the fragments of a podman command\<close>

lemma whole_nil [podman_words]: "whole []" "options_of [] = []"
  by (simp_all add: whole_def options_of_def)

lemma whole_append [podman_words]:
  "whole xs \<Longrightarrow> whole (xs @ ys) = whole ys"
  "whole xs \<Longrightarrow> options_of (xs @ ys) = options_of xs @ options_of ys"
  by (simp_all add: whole_def options_of_def parse_run_append)

lemma whole_if [podman_words]:
  "whole (if b then xs else []) = (b \<longrightarrow> whole xs)"
  "options_of (if b then xs else []) = (if b then options_of xs else [])"
  "podman_values k (if b then os else []) = (if b then podman_values k os else [])"
  by (simp_all add: whole_nil)

lemma whole_option [podman_words]:
  assumes "hasPrefix f ''-''" "f \<notin> set switches"
  shows "whole (f # v # xs) = whole xs" "options_of (f # v # xs) = (f, v) # options_of xs"
  using assms by (simp_all add: whole_def options_of_def parse_run_Cons split_beta Let_def)

lemma whole_switch [podman_words]:
  assumes "f \<in> set switches"
  shows "whole (f # xs) = whole xs" "options_of (f # xs) = (f, []) # options_of xs"
  using assms by (auto simp: whole_def options_of_def parse_run_Cons split_beta Let_def switches_def hasPrefix_def)

lemmas option_words = switches_def hasPrefix_def whole_option whole_switch

lemma whole_options [podman_words]:
  "whole (concat (map (\<lambda>v. [''--env'', v]) vs))"
  "options_of (concat (map (\<lambda>v. [''--env'', v]) vs)) = map (Pair ''--env'') vs"
  by (induction vs) (simp_all add: option_words whole_nil)

lemma whole_env [podman_words]:
  "whole (env name v)" "options_of (env name v) = [(''--env'', name @ ''='' @ v)]"
  by (simp_all add: env_def option_words whole_nil)

lemma whole_devices [podman_words]:
  "whole (gpuDeviceArguments ns)"
  "options_of (gpuDeviceArguments ns) = map (Pair ''--device'') (''/dev/kfd'' # ns)"
proof -
  have "whole (concat (map (\<lambda>v. [''--device'', v]) ns)) \<and>
        options_of (concat (map (\<lambda>v. [''--device'', v]) ns)) = map (Pair ''--device'') ns"
    by (induction ns) (simp_all add: option_words whole_nil)
  then show "whole (gpuDeviceArguments ns)"
    "options_of (gpuDeviceArguments ns) = map (Pair ''--device'') (''/dev/kfd'' # ns)"
    by (simp_all add: gpuDeviceArguments_def option_words)
qed

lemma whole_managed [podman_words]:
  "whole (ManagedArguments app role)"
  "options_of (ManagedArguments app role) =
     [(''--label'', ManagedContainerLabel @ ''=true''), (''--label'', ManagedRoleLabel @ ''='' @ role)]
     @ (if app \<noteq> [] then [(''--label'', ManagedApplicationLabel @ ''='' @ app)] else [])"
  by (simp_all add: ManagedArguments_def option_words whole_nil whole_if)

lemma whole_confinement [podman_words]:
  "whole confinement"
  "options_of confinement = [(''--read-only'', []), (''--cap-drop'', ''all''),
     (''--security-opt'', ''no-new-privileges''), (''--pids-limit'', ''2048''),
     (''--ulimit'', ''core=0:0''), (''--shm-size'', ''8g'')]"
  by (simp_all add: confinement_def option_words whole_nil)

lemma options_of_image:
  "whole xs \<Longrightarrow> \<not> hasPrefix img ''-'' \<Longrightarrow> parse_run (xs @ img # t) = (options_of xs, img # t)"
  by (simp add: whole_def options_of_def parse_run_append parse_run_Cons)

text \<open>The environment fragments consist of \<^verbatim>\<open>--env\<close> options only.\<close>

definition env_only :: "string list \<Rightarrow> bool" where
  "env_only xs \<longleftrightarrow> whole xs \<and> fst ` set (options_of xs) \<subseteq> {''--env''}"

lemma env_only_env: "env_only (env name v)"
  by (simp add: env_only_def whole_env)

lemma env_only_append: "env_only xs \<Longrightarrow> env_only ys \<Longrightarrow> env_only (xs @ ys)"
  by (auto simp: env_only_def whole_append)

lemma env_only_concat: "(\<And>x. x \<in> set xs \<Longrightarrow> env_only (f x)) \<Longrightarrow> env_only (concat (map f xs))"
  by (induction xs) (simp_all add: env_only_append, simp add: env_only_def whole_nil)

lemma env_only_environment: "env_only (llama_environment opts slots m)"
  unfolding llama_environment_def profile_env_def Let_def
  by (intro env_only_append env_only_env env_only_concat)

lemma podman_values_absent: "fst ` set os \<subseteq> {k'} \<Longrightarrow> k \<noteq> k' \<Longrightarrow> podman_values k os = []"
  by (auto simp: podman_values_def filter_empty_conv)

lemma env_values [podman_words]:
  "whole (llama_environment opts slots m)"
  "k \<noteq> ''--env'' \<Longrightarrow> podman_values k (options_of (llama_environment opts slots m)) = []"
  using env_only_environment [of opts slots m] podman_values_absent by (auto simp: env_only_def)

lemma whole_network [podman_words]:
  "whole (publicationNetwork host)"
  "options_of (publicationNetwork host) = (if host = ''0.0.0.0'' then [(''--network'', ''pasta:-4'')] else [])"
  "whole (llama_network opts ro)"
  by (simp_all add: publicationNetwork_def llama_network_def podman_words option_words)

text \<open>Every model file is mounted read-only.\<close>

lemma mount_files_read_only:
  "mount_files lstat ro paths = Inr ms \<Longrightarrow>
   whole ms \<and> options_of ms = map (\<lambda>p. (''--volume'', p @ '':/content/models/'' @ Base p @ ro)) paths"
  by (induction paths arbitrary: ms)
    (auto simp: podman_words option_words split: file_status.splits)

lemma model_mounts_read_only:
  assumes "llamaModelMounts fs layout local managed suffix = Inr (ms, m)"
  shows "\<exists>vs. whole ms \<and> options_of ms = map (Pair ''--volume'') vs
           \<and> (\<forall>v\<in>set vs. hasSuffix v (readOnlySharedSuffix suffix))"
proof (cases "local = []")
  case True
  have "hasSuffix (LlamaModels layout @ '':/content/models'' @ readOnlySharedSuffix suffix)
          (readOnlySharedSuffix suffix)"
    using hasSuffix_append [of "LlamaModels layout @ '':/content/models''"] by simp
  with True assms show ?thesis
    by (intro exI [of _ "[LlamaModels layout @ '':/content/models'' @ readOnlySharedSuffix suffix]"])
      (auto simp: llamaModelMounts_def Let_def podman_words option_words)
next
  case False
  then obtain paths where "mount_files (hf_Lstat fs) (readOnlySharedSuffix suffix) paths = Inr ms"
    using assms by (auto simp: llamaModelMounts_def Let_def split: sum.splits if_splits)
  from mount_files_read_only [OF this] show ?thesis
    by (intro exI [of _ "map (\<lambda>p. p @ '':/content/models/'' @ Base p @ readOnlySharedSuffix suffix) paths"])
      (auto simp: hasSuffix_iff)
qed

section \<open>Confinement\<close>

lemma network_values [podman_words]:
  "podman_values ''--network'' (options_of (llama_network opts ro)) =
     (if lo_Mode opts \<noteq> ''server'' then [''none'']
      else if lo_Listen opts = ''0.0.0.0'' then [''pasta:-4''] else [])"
  "podman_values ''--publish'' (options_of (llama_network opts ro)) =
     (if lo_Mode opts = ''server''
      then [if lo_DynamicHostPort opts then dynamicallyPublishedPort (lo_Listen opts) (lo_Port opts)
            else publishedPort (lo_Listen opts) (lo_Port opts)] else [])"
  "podman_values ''--volume'' (options_of (llama_network opts ro)) =
     (if lo_RouterPreset opts \<noteq> [] then [lo_RouterPreset opts @ '':/run/paracetamol/models.ini'' @ ro] else [])"
  "''--network'' \<noteq> k \<Longrightarrow> ''--publish'' \<noteq> k \<Longrightarrow> ''--volume'' \<noteq> k \<Longrightarrow> ''--env'' \<noteq> k \<Longrightarrow>
     podman_values k (options_of (llama_network opts ro)) = []"
  by (simp_all add: llama_network_def podman_words option_words)

definition llama_words :: "string \<Rightarrow> LlamaOptions \<Rightarrow> string \<Rightarrow> int \<Rightarrow> string list \<Rightarrow> string \<Rightarrow> string list" where
  "llama_words umask opts suffix slots mounts m =
     (if lo_AutoRemove opts then [''--rm''] else [])
     @ [''--userns'', ''keep-id'', ''--umask'', umask, ''--name'',
        or_default (lo_ContainerName opts) (sp_ContainerName llama_application)]
     @ ManagedArguments ''llama-cpp'' (or_default (lo_ContainerRole opts) ''application'')
     @ confinement
     @ [''--tmpfs'', ''/tmp:rw,nosuid,nodev,size=1g'',
        ''--volume'', Application \<lparr>Root = lo_DataDir opts\<rparr> ''llama-cpp'' @ '':/data'' @ suffix]
     @ mounts
     @ llama_environment opts slots m
     @ llama_network opts (readOnlySharedSuffix suffix)
     @ (if lo_Profile opts \<noteq> ''cpu'' then gpuDeviceArguments (lo_RenderNodes opts) else [])
     @ (if lo_APIKeyFile opts \<noteq> []
        then [''--volume'', lo_APIKeyFile opts @ '':/run/secrets/llama-api-key'' @ readOnlySharedSuffix suffix] else [])
     @ (if lo_Unconfined opts then [''--security-opt'', ''seccomp=unconfined''] else [])
     @ concat (map (\<lambda>v. [''--env'', v]) (lo_Environment opts))
     @ (if lo_Detach opts then [''--detach''] else [])
     @ (if lo_Interactive opts then [''--interactive'', ''--tty''] else [])"

lemma LlamaCommand_words:
  assumes "LlamaCommand fs umask opts suffix = Inr cmd"
  obtains slots mounts m vs where
    "cmd = [''podman'', ''run''] @ llama_words umask opts suffix slots mounts m @ lo_Image opts # llama_tail opts"
    "whole mounts" "options_of mounts = map (Pair ''--volume'') vs"
    "\<forall>v\<in>set vs. hasSuffix v (readOnlySharedSuffix suffix)"
proof -
  obtain slots mounts m where
    *: "llamaModelMounts fs \<lparr>Root = lo_DataDir opts\<rparr> (lo_Model opts) (lo_ManagedModel opts) suffix = Inr (mounts, m)"
    "cmd = [''podman'', ''run''] @ llama_words umask opts suffix slots mounts m @ lo_Image opts # llama_tail opts"
    using assms unfolding LlamaCommand_def Let_def llama_words_def
    by (auto simp: case_prod_beta split: if_splits)
  with model_mounts_read_only [OF *(1)] that show thesis by blast
qed

lemma llama_words_options:
  assumes "whole mounts" "options_of mounts = map (Pair ''--volume'') vs"
  shows "whole (llama_words umask opts suffix slots mounts m)"
    and "options_of (llama_words umask opts suffix slots mounts m) =
      (if lo_AutoRemove opts then [(''--rm'', [])] else [])
      @ [(''--userns'', ''keep-id''), (''--umask'', umask), (''--name'',
          or_default (lo_ContainerName opts) (sp_ContainerName llama_application))]
      @ options_of (ManagedArguments ''llama-cpp'' (or_default (lo_ContainerRole opts) ''application''))
      @ options_of confinement
      @ [(''--tmpfs'', ''/tmp:rw,nosuid,nodev,size=1g''),
         (''--volume'', Application \<lparr>Root = lo_DataDir opts\<rparr> ''llama-cpp'' @ '':/data'' @ suffix)]
      @ map (Pair ''--volume'') vs
      @ options_of (llama_environment opts slots m)
      @ options_of (llama_network opts (readOnlySharedSuffix suffix))
      @ (if lo_Profile opts \<noteq> ''cpu'' then options_of (gpuDeviceArguments (lo_RenderNodes opts)) else [])
      @ (if lo_APIKeyFile opts \<noteq> []
         then [(''--volume'', lo_APIKeyFile opts @ '':/run/secrets/llama-api-key'' @ readOnlySharedSuffix suffix)] else [])
      @ (if lo_Unconfined opts then [(''--security-opt'', ''seccomp=unconfined'')] else [])
      @ map (Pair ''--env'') (lo_Environment opts)
      @ (if lo_Detach opts then [(''--detach'', [])] else [])
      @ (if lo_Interactive opts then [(''--interactive'', []), (''--tty'', [])] else [])"
  unfolding llama_words_def using assms
  by (simp_all add: whole_append whole_nil whole_if whole_options whole_devices(1) whole_managed(1)
        whole_confinement(1) env_values(1) whole_network(3) option_words)

lemma llama_words_values:
  assumes "whole mounts" "options_of mounts = map (Pair ''--volume'') vs"
    and "os = options_of (llama_words umask opts suffix slots mounts m)"
  shows "whole (llama_words umask opts suffix slots mounts m)"
    and "podman_values ''--cap-drop'' os = [''all'']"
    and "podman_values ''--read-only'' os = [[]]"
    and "podman_values ''--security-opt'' os =
      [''no-new-privileges''] @ (if lo_Unconfined opts then [''seccomp=unconfined''] else [])"
    and "podman_values ''--name'' os =
      [or_default (lo_ContainerName opts) (sp_ContainerName llama_application)]"
    and "podman_values ''--label'' os =
      [ManagedContainerLabel @ ''=true'',
       ManagedRoleLabel @ ''='' @ or_default (lo_ContainerRole opts) ''application'',
       ManagedApplicationLabel @ ''=llama-cpp'']"
    and "podman_values ''--device'' os =
      (if lo_Profile opts \<noteq> ''cpu'' then ''/dev/kfd'' # lo_RenderNodes opts else [])"
    and "podman_values ''--network'' os =
      (if lo_Mode opts \<noteq> ''server'' then [''none'']
       else if lo_Listen opts = ''0.0.0.0'' then [''pasta:-4''] else [])"
    and "podman_values ''--publish'' os =
      (if lo_Mode opts = ''server''
       then [if lo_DynamicHostPort opts then dynamicallyPublishedPort (lo_Listen opts) (lo_Port opts)
             else publishedPort (lo_Listen opts) (lo_Port opts)] else [])"
    and "podman_values ''--volume'' os =
      [Application \<lparr>Root = lo_DataDir opts\<rparr> ''llama-cpp'' @ '':/data'' @ suffix] @ vs
      @ (if lo_RouterPreset opts \<noteq> []
         then [lo_RouterPreset opts @ '':/run/paracetamol/models.ini'' @ readOnlySharedSuffix suffix] else [])
      @ (if lo_APIKeyFile opts \<noteq> []
         then [lo_APIKeyFile opts @ '':/run/secrets/llama-api-key'' @ readOnlySharedSuffix suffix] else [])"
    and "podman_values ''--privileged'' os = []" "podman_values ''--cap-add'' os = []"
      "podman_values ''--volumes-from'' os = []" "podman_values ''--mount'' os = []"
      "podman_values ''--pid'' os = []" "podman_values ''--ipc'' os = []"
  unfolding assms(3) llama_words_options(2) [OF assms(1,2)]
  using llama_words_options(1) [OF assms(1,2)]
  by (simp_all add: whole_if whole_managed whole_confinement env_values network_values whole_devices)


text \<open>The confinement that the benchmark, the web applications and the shell share.\<close>

definition confined :: "(string \<times> string) list \<Rightarrow> bool" where
  "confined os \<longleftrightarrow> podman_values ''--cap-drop'' os = [''all''] \<and> podman_values ''--read-only'' os = [[]]
     \<and> ''no-new-privileges'' \<in> set (podman_values ''--security-opt'' os)
     \<and> podman_values ''--privileged'' os = [] \<and> podman_values ''--cap-add'' os = []
     \<and> podman_values ''--volumes-from'' os = [] \<and> podman_values ''--mount'' os = []
     \<and> podman_values ''--pid'' os = [] \<and> podman_values ''--ipc'' os = []"

definition arguments_of :: "string list \<Rightarrow> string list" where
  "arguments_of xs = snd (parse_run xs)"

lemma arguments_of_words [podman_words]:
  "whole xs \<Longrightarrow> arguments_of (xs @ ys) = arguments_of ys"
  "hasPrefix f ''-'' \<Longrightarrow> f \<notin> set switches \<Longrightarrow> arguments_of (f # v # ys) = arguments_of ys"
  "f \<in> set switches \<Longrightarrow> arguments_of (f # ys) = arguments_of ys"
  by (auto simp: arguments_of_def whole_def parse_run_append parse_run_Cons split_beta Let_def
        switches_def hasPrefix_def)

lemma image_words:
  assumes "\<not> hasPrefix img ''-''"
  shows "arguments_of (img # ys) = img # ys" "options_of (img # ys) = []"
  using assms by (simp_all add: arguments_of_def options_of_def parse_run_Cons)

lemma drop2_podman: "drop 2 ([''podman'', ''run''] @ xs) = xs" "drop 2 (a # b # xs) = xs"
  by simp_all

lemma web_confined:
  assumes "\<not> hasPrefix (wo_Image opts) ''-''"
  shows "arguments_of (drop 2 (WebCommand umask opts suffix)) = wo_Image opts # wo_Arguments opts"
    "confined (options_of (drop 2 (WebCommand umask opts suffix)))"
    "podman_values ''--device'' (options_of (drop 2 (WebCommand umask opts suffix))) =
      (if wo_Profile opts \<noteq> ''cpu'' then ''/dev/kfd'' # wo_RenderNodes opts else [])"
  unfolding WebCommand_def Let_def confined_def
  by (simp_all add: podman_words option_words image_words [OF assms])

lemma shell_confined:
  assumes "\<not> hasPrefix img ''-''"
  shows "arguments_of (drop 2 (ShellCommand umask img dataDir suffix app)) = [img]"
    "confined (options_of (drop 2 (ShellCommand umask img dataDir suffix app)))"
    "podman_values ''--device'' (options_of (drop 2 (ShellCommand umask img dataDir suffix app))) = []"
    "podman_values ''--publish'' (options_of (drop 2 (ShellCommand umask img dataDir suffix app))) = []"
  unfolding ShellCommand_def Let_def confined_def
  by (simp_all add: podman_words option_words image_words [OF assms])

lemma benchmark_confined:
  assumes "\<not> hasPrefix (lb_Image opts) ''-''"
    and cmd: "LlamaBenchmarkCommand fs umask opts suffix = Inr cmd"
  shows "hd (arguments_of (drop 2 cmd)) = lb_Image opts"
    "confined (options_of (drop 2 cmd))"
    "podman_values ''--network'' (options_of (drop 2 cmd)) = [''none'']"
proof -
  obtain ms m where
    *: "llamaModelMounts fs \<lparr>Root = lb_DataDir opts\<rparr> (lb_Model opts) (lb_ManagedModel opts) suffix = Inr (ms, m)"
    using cmd by (auto simp: LlamaBenchmarkCommand_def)
  with model_mounts_read_only [OF *] obtain vs where
    "whole ms" "options_of ms = map (Pair ''--volume'') vs" by blast
  then show "hd (arguments_of (drop 2 cmd)) = lb_Image opts" "confined (options_of (drop 2 cmd))"
    "podman_values ''--network'' (options_of (drop 2 cmd)) = [''none'']"
    using cmd * unfolding LlamaBenchmarkCommand_def confined_def
    by (auto simp add: podman_words option_words image_words [OF assms(1)])
qed

text \<open>
  The web applications, the shell and the benchmark run confined whatever their arguments and
  environment contain: podman finds the image behind the options, all capabilities are dropped, the
  root is read-only, and no option widens the container. The shell gets no device and publishes no
  port, the benchmark has no network, and a web application gets the requested devices only.
\<close>

theorem other_commands_confined:
  "(\<not> hasPrefix (wo_Image wopts) ''-'' \<longrightarrow>
     arguments_of (drop 2 (WebCommand umask wopts suffix)) = wo_Image wopts # wo_Arguments wopts \<and>
     confined (options_of (drop 2 (WebCommand umask wopts suffix))) \<and>
     podman_values ''--device'' (options_of (drop 2 (WebCommand umask wopts suffix))) =
       (if wo_Profile wopts \<noteq> ''cpu'' then ''/dev/kfd'' # wo_RenderNodes wopts else [])) \<and>
   (\<not> hasPrefix img ''-'' \<longrightarrow>
     arguments_of (drop 2 (ShellCommand umask img dataDir suffix app)) = [img] \<and>
     confined (options_of (drop 2 (ShellCommand umask img dataDir suffix app))) \<and>
     podman_values ''--device'' (options_of (drop 2 (ShellCommand umask img dataDir suffix app))) = [] \<and>
     podman_values ''--publish'' (options_of (drop 2 (ShellCommand umask img dataDir suffix app))) = []) \<and>
   (\<not> hasPrefix (lb_Image bopts) ''-'' \<and> LlamaBenchmarkCommand fs umask bopts suffix = Inr cmd \<longrightarrow>
     hd (arguments_of (drop 2 cmd)) = lb_Image bopts \<and> confined (options_of (drop 2 cmd)) \<and>
     podman_values ''--network'' (options_of (drop 2 cmd)) = [''none''])"
  by (intro conjI impI; (elim conjE)?)
    ((rule web_confined shell_confined benchmark_confined; assumption)+)

section \<open>Witnesses\<close>

definition demo_files :: host_files where
  "demo_files = \<lparr>hf_EvalSymlinks = Inr, hf_Getwd = ''/'', hf_Lstat = (\<lambda>_. LstatRegular)\<rparr>"

definition demo_llama :: LlamaOptions where
  "demo_llama = \<lparr>lo_Image = ''llama'', lo_Profile = ''strix-halo'', lo_Mode = ''server'',
     lo_DataDir = ''/data'', lo_Backend = ''rocm'', lo_SourceRevision = [], lo_Model = [],
     lo_ManagedModel = [], lo_ManagedDraft = [], lo_ManagedMMProj = [], lo_SpeculativeType = [],
     lo_DraftTokens = 0, lo_ContextOverrideArchitectures = [], lo_Jinja = False,
     lo_ReasoningPreserve = False, lo_ChatTemplate = [], lo_ProfileFlashAttention = [],
     lo_ProfileKVCache = [], lo_ProfileModelLoad = [], lo_AllowedProfiles = [],
     lo_RouterPreset = ''/preset'', lo_ModelsMax = 1, lo_Slots = 0, lo_RenderNodes = [''/dev/dri/renderD128''],
     lo_Listen = ''127.0.0.1'', lo_Port = 8080, lo_Context = 0, lo_Prompt = None, lo_APIKeyFile = [],
     lo_Detach = True, lo_Interactive = False, lo_Unconfined = False, lo_ContainerName = [],
     lo_ContainerRole = [], lo_AutoRemove = True, lo_Arguments = [''--privileged''],
     lo_Environment = [''--cap-add''], lo_DynamicHostPort = True\<rparr>"


theorem other_commands_confined_witness:
  "\<not> hasPrefix ''shell-image'' ''-'' \<and>
   arguments_of (drop 2 (ShellCommand ''0022'' ''shell-image'' ''/data'' '':rw'' ''comfyui'')) = [''shell-image''] \<and>
   podman_values ''--device''
     (options_of (drop 2 (ShellCommand ''0022'' ''shell-image'' ''/data'' '':rw'' ''comfyui''))) = []"
proof -
  have "\<not> hasPrefix ''shell-image'' ''-''" by (simp add: hasPrefix_def)
  then show ?thesis
    using other_commands_confined [of _ "''0022''" "'':rw''" "''shell-image''" "''/data''" "''comfyui''"]
    by blast
qed

end
