(* ===== verification/TextModel.thy ===== *)
theory TextModel
  imports Catalog
begin

text \<open>
  The text models of the gateway: what \<^verbatim>\<open>internal/textmodel/model.go\<close> derives from the presets of the
  catalog, and the data of the gateway's registry (\<^verbatim>\<open>internal/gateway/registry.go\<close>).
\<close>

definition BackendLlamaCPP :: string where "BackendLlamaCPP = ''llama-cpp''"

record text_model =
  tm_ID :: string
  tm_Backend :: string
  tm_Bundle :: string
  tm_Context :: int
  tm_MaxOutputTokens :: int
  tm_AgentTools :: bool
  tm_Vision :: bool
  tm_ReasoningControl :: string
  tm_ReasoningLevels :: "string list"
  tm_ReasoningDefault :: string
  tm_ReasoningOff :: bool
  tm_SamplingPolicy :: string

definition OutputLimit :: "int \<Rightarrow> int" where
  "OutputLimit ctx =
     (let v = (if ctx < 0 then - ((- ctx) div 4) else ctx div 4);
          w = (if v < 4096 then 4096 else v) in
      if 16384 < w then 16384 else w)"

definition FromLlamaPreset :: "string \<Rightarrow> LlamaPreset \<Rightarrow> text_model" where
  "FromLlamaPreset i preset = \<lparr>tm_ID = i, tm_Backend = BackendLlamaCPP, tm_Bundle = lp_Bundle preset,
     tm_Context = lp_DefaultContext preset, tm_MaxOutputTokens = OutputLimit (lp_DefaultContext preset),
     tm_AgentTools = lp_AgentTools preset, tm_Vision = (lp_MMProjArtifact preset \<noteq> []),
     tm_ReasoningControl = lp_ReasoningControl preset, tm_ReasoningLevels = lp_ReasoningLevels preset,
     tm_ReasoningDefault = lp_ReasoningDefault preset, tm_ReasoningOff = lp_ReasoningOff preset,
     tm_SamplingPolicy = lp_SamplingPolicy preset\<rparr>"

text \<open>The presets of a catalog form a map, so an identifier occurs once.\<close>

definition All :: "Catalog \<Rightarrow> text_model list" where
  "All managed = map (\<lambda>i. FromLlamaPreset i (the (lookup (ct_LlamaPresets managed) i)))
     (sort (remdups (map fst (ct_LlamaPresets managed))))"

definition ReasoningLevels :: "text_model \<Rightarrow> string list" where
  "ReasoningLevels model =
     (if tm_ReasoningControl model = [] then [''off'']
      else
        (let levels = (if tm_ReasoningControl model = ''toggle'' then [''high''] else tm_ReasoningLevels model) in
         if tm_ReasoningOff model then ''off'' # levels else levels))"

definition ReasoningDefault :: "text_model \<Rightarrow> string" where
  "ReasoningDefault model =
     (if tm_ReasoningControl model = ''toggle'' then ''high'' else tm_ReasoningDefault model)"

section \<open>The registry's data\<close>

record Model =
  mo_ID :: string
  mo_Application :: string
  mo_Context :: int
  mo_MaxOutputTokens :: int
  mo_AgentTools :: bool
  mo_Vision :: bool
  mo_ReasoningControl :: string
  mo_ReasoningLevels :: "string list"
  mo_ReasoningDefault :: string
  mo_ReasoningOff :: bool
  mo_SamplingPolicy :: string
  mo_Backend :: string
  mo_Bundle :: string
  mo_samplingDefaults :: SamplingPolicy

record Diagnostic =
  dg_Application :: string
  dg_Model :: string
  dg_Reason :: string

record Registry =
  rg_Models :: "Model list"
  rg_Fingerprint :: string
  rg_byID :: "Model table"

definition Lookup :: "Registry \<Rightarrow> string \<Rightarrow> Model option" where
  "Lookup registry i = lookup (rg_byID registry) i"

definition IDs :: "Registry \<Rightarrow> string \<Rightarrow> string list" where
  "IDs registry application =
     map mo_ID (filter (\<lambda>m. application = [] \<or> mo_Application m = application) (rg_Models registry))"

lemma OutputLimit_bounds: "4096 \<le> OutputLimit ctx" "OutputLimit ctx \<le> 16384"
  by (simp_all add: OutputLimit_def Let_def)

lemma All_IDs: "map tm_ID (All managed) = sort (remdups (map fst (ct_LlamaPresets managed)))"
  by (simp add: All_def FromLlamaPreset_def comp_def)

end
