(* ===== verification/Lifecycle.thy ===== *)
theory Lifecycle
  imports Runtime TextModel SchedulerWorld
begin

text \<open>
  The container lifecycle of the gateway (\<^verbatim>\<open>internal/gateway/lifecycle.go\<close>): the check of the host
  before the listener opens, starting a backend and waiting until it is ready, and removing it. The
  scheduler of \<open>Scheduler\<close> calls \<open>Start\<close> and \<open>Stop\<close>; the properties show that they meet the contract
  that \<open>SchedulerWorld\<close> assumes, and that no container of anyone else is touched.

  Log lines are left out; the follower of the backend's logs is kept, since \<open>Start\<close> fails while
  another one runs.
\<close>

section \<open>Data\<close>

definition GatewayBackendRole :: string where "GatewayBackendRole = ''gateway-backend''"

definition DefaultStartupTimeout :: int where "DefaultStartupTimeout = 1800000000000"

definition gatewayContainerNames :: "allocation \<Rightarrow> string option" where
  "gatewayContainerNames a =
     (if a = AllocationLlamaCPP then Some (Container ''gateway-llama-cpp'') else None)"

record LifecycleOptions =
  lf_Registry :: Registry
  lf_DataRoot :: string
  lf_Profile :: string
  lf_RenderNodes :: "string list"
  lf_LlamaBackend :: string
  lf_LlamaModelsMax :: int
  lf_LlamaSlots :: int
  lf_RouterPreset :: string
  lf_SourceRevision :: string
  lf_VolumeSuffix :: string
  lf_Unconfined :: bool
  lf_StartupTimeout :: int
  lf_ReadinessInterval :: int

text \<open>
  What the lifecycle meets outside: the runner, the status of an HTTP request (none when it fails),
  the number of ticks before the readiness context ends and why it ends, the decoder of labels,
  the loopback test of addresses, the model files and the umask.
\<close>

record 'h outside =
  ow_runner :: "'h runner"
  ow_get :: "string \<Rightarrow> 'h \<Rightarrow> int option \<times> 'h"
  ow_ticks :: nat
  ow_cause :: string
  ow_decode :: "string \<Rightarrow> labels option"
  ow_loopback :: "string \<Rightarrow> bool"
  ow_files :: host_files
  ow_umask :: string

definition NewContainerLifecycle :: "bool \<Rightarrow> LifecycleOptions \<Rightarrow> gerror + LifecycleOptions" where
  "NewContainerLifecycle has_runner opts =
     (if \<not> has_runner \<or> lf_DataRoot opts = [] \<or> lf_Profile opts = [] \<or> rg_Models (lf_Registry opts) = []
      then Inl (ErrorText ''invalid gateway backend lifecycle configuration'')
      else if lf_LlamaBackend opts \<noteq> ''rocm'' \<and> lf_LlamaBackend opts \<noteq> ''vulkan''
      then Inl (ErrorText (''invalid gateway llama.cpp backend '' @ quoted (lf_LlamaBackend opts)))
      else if lf_LlamaModelsMax opts < 1
      then Inl (ErrorText ''gateway llama.cpp models-max must be positive'')
      else
        (let slots = (if lf_LlamaSlots opts = 0 then DefaultLlamaSlots else lf_LlamaSlots opts) in
         if slots < 1 \<or> 64 < slots
         then Inl (ErrorText ''llama.cpp request slots must be between 1 and 64'')
         else (case find (\<lambda>m. mo_Backend m \<noteq> ''llama-cpp'') (rg_Models (lf_Registry opts)) of
             Some m \<Rightarrow> Inl (ErrorText (''unsupported gateway backend '' @ quoted (mo_Backend m)))
           | None \<Rightarrow>
               (if lf_RouterPreset opts = []
                then Inl (ErrorText ''gateway llama.cpp inventory requires a router preset'')
                else Inr (opts\<lparr>lf_LlamaSlots := slots,
                  lf_StartupTimeout := (if lf_StartupTimeout opts \<le> 0 then DefaultStartupTimeout
                                        else lf_StartupTimeout opts),
                  lf_ReadinessInterval := (if lf_ReadinessInterval opts \<le> 0 then 500000000
                                           else lf_ReadinessInterval opts)\<rparr>)))))"

section \<open>Ownership\<close>

definition owned_labels :: "allocation \<Rightarrow> labels \<Rightarrow> bool" where
  "owned_labels a ls \<longleftrightarrow> map_string ls ManagedContainerLabel = ''true''
     \<and> map_string ls ManagedApplicationLabel = a \<and> map_string ls ManagedRoleLabel = GatewayBackendRole"

definition target_name :: "allocation \<Rightarrow> string" where
  "target_name a = (case gatewayContainerNames a of Some n \<Rightarrow> n | None \<Rightarrow> [])"

definition requireAvailable ::
  "'h outside \<Rightarrow> call_context \<Rightarrow> allocation \<Rightarrow> bool \<Rightarrow> 'h \<Rightarrow> gerror option \<times> 'h" where
  "requireAvailable ow ctx a reclaim h =
     (let target = target_name a in
      case ManagedContainerNames (ow_runner ow) ctx a h of
        (Inl e, h1) \<Rightarrow> (Some e, h1)
      | (Inr names, h1) \<Rightarrow>
          (case find (\<lambda>name. name \<noteq> target) names of
             Some name \<Rightarrow> (Some (ErrorText (''gateway cannot use '' @ a @ '' while managed container ''
                            @ name @ '' exists'')), h1)
           | None \<Rightarrow>
               (case Exists (ow_runner ow) ctx ''container'' target h1 of
                  (Inl e, h2) \<Rightarrow> (Some e, h2)
                | (Inr False, h2) \<Rightarrow> (None, h2)
                | (Inr True, h2) \<Rightarrow>
                    (if names = []
                     then (Some (ErrorText (''gateway container name is occupied by an unmanaged container: '' @ target)), h2)
                     else (case ContainerLabels (ow_decode ow) (ow_runner ow) ctx target h2 of
                       (Inl e, h3) \<Rightarrow> (Some e, h3)
                     | (Inr ls, h3) \<Rightarrow>
                         (if \<not> owned_labels a ls
                          then (Some (ErrorText (''gateway container name has unexpected ownership labels: '' @ target)), h3)
                          else if \<not> reclaim
                          then (Some (ErrorText (''gateway backend container already exists: '' @ target)), h3)
                          else RemoveContainer (ow_runner ow) ctx target 2 h3))))))"

definition removeOwned ::
  "'h outside \<Rightarrow> call_context \<Rightarrow> allocation \<Rightarrow> 'h \<Rightarrow> gerror option \<times> 'h" where
  "removeOwned ow ctx a h =
     (let name = target_name a in
      case Exists (ow_runner ow) ctx ''container'' name h of
        (Inl e, h1) \<Rightarrow> (Some e, h1)
      | (Inr False, h1) \<Rightarrow> (None, h1)
      | (Inr True, h1) \<Rightarrow>
          (case ContainerLabels (ow_decode ow) (ow_runner ow) ctx name h1 of
             (Inl e, h2) \<Rightarrow> (Some e, h2)
           | (Inr ls, h2) \<Rightarrow>
               (if \<not> owned_labels a ls
                then (Some (ErrorText (''refusing to remove container with unexpected ownership labels: '' @ name)), h2)
                else RemoveContainer (ow_runner ow) ctx name 2 h2)))"

section \<open>Preflight\<close>

fun preflight_from ::
  "'h outside \<Rightarrow> allocation list \<Rightarrow> allocation list \<Rightarrow> 'h \<Rightarrow> gerror option \<times> 'h" where
  "preflight_from ow seen [] h = (None, h)"
| "preflight_from ow seen (a # as) h =
     (if gatewayContainerNames a = None
      then (Some (ErrorText (''unknown gateway allocation '' @ quoted a)), h)
      else if a \<in> set seen then preflight_from ow seen as h
      else
        (let img = (case ByID a of Some s \<Rightarrow> sp_Image s | None \<Rightarrow> []) in
         case Exists (ow_runner ow) CallerContext ''image'' img h of
           (Inl e, h1) \<Rightarrow> (Some e, h1)
         | (Inr False, h1) \<Rightarrow> (Some (ErrorText (''gateway application image is not built: '' @ img)), h1)
         | (Inr True, h1) \<Rightarrow>
             (case requireAvailable ow CallerContext a True h1 of
                (Some e, h2) \<Rightarrow> (Some e, h2)
              | (None, h2) \<Rightarrow> preflight_from ow (a # seen) as h2)))"

definition Preflight :: "'h outside \<Rightarrow> allocation list \<Rightarrow> 'h \<Rightarrow> gerror option \<times> 'h" where
  "Preflight ow allocations h =
     (case RequireRootless (ow_runner ow) CallerContext h of
        (Some e, h1) \<Rightarrow> (Some e, h1)
      | (None, h1) \<Rightarrow> preflight_from ow [] allocations h1)"

section \<open>Starting and stopping\<close>

definition gateway_llama_options :: "LifecycleOptions \<Rightarrow> string \<Rightarrow> LlamaOptions" where
  "gateway_llama_options opts name = \<lparr>lo_Image = sp_Image llama_application, lo_Profile = lf_Profile opts,
     lo_Mode = ''server'', lo_DataDir = lf_DataRoot opts, lo_Backend = lf_LlamaBackend opts,
     lo_SourceRevision = lf_SourceRevision opts, lo_Model = [], lo_ManagedModel = [], lo_ManagedDraft = [],
     lo_ManagedMMProj = [], lo_SpeculativeType = [], lo_DraftTokens = 0,
     lo_ContextOverrideArchitectures = [], lo_Jinja = False, lo_ReasoningPreserve = False,
     lo_ChatTemplate = [], lo_ProfileFlashAttention = [], lo_ProfileKVCache = [],
     lo_ProfileModelLoad = [], lo_AllowedProfiles = [], lo_RouterPreset = lf_RouterPreset opts,
     lo_ModelsMax = lf_LlamaModelsMax opts, lo_Slots = lf_LlamaSlots opts,
     lo_RenderNodes = lf_RenderNodes opts, lo_Listen = ''127.0.0.1'',
     lo_Port = sp_Port llama_application, lo_Context = 0, lo_Prompt = None, lo_APIKeyFile = [],
     lo_Detach = True, lo_Interactive = False, lo_Unconfined = lf_Unconfined opts,
     lo_ContainerName = name, lo_ContainerRole = GatewayBackendRole, lo_AutoRemove = True,
     lo_Arguments = [], lo_Environment = [], lo_DynamicHostPort = True\<rparr>"

definition backend_command ::
  "'h outside \<Rightarrow> LifecycleOptions \<Rightarrow> allocation \<Rightarrow> gerror + (string list \<times> int \<times> string)" where
  "backend_command ow opts a =
     (if a = AllocationLlamaCPP
      then bind_res (LlamaCommand (ow_files ow) (ow_umask ow)
             (gateway_llama_options opts (target_name a)) (lf_VolumeSuffix opts))
             (\<lambda>command. Inr (command, sp_Port llama_application, ''/health''))
      else Inl (ErrorText (''unknown gateway allocation '' @ quoted a)))"

text \<open>One poll per tick: \<open>ticks\<close> is how many remain before the context is done.\<close>

fun waitReady :: "'h outside \<Rightarrow> allocation \<Rightarrow> string \<Rightarrow> nat \<Rightarrow> 'h \<Rightarrow> gerror option \<times> 'h" where
  "waitReady ow a endpoint ticks h =
     (let (status, h1) = ow_get ow endpoint h in
      if (case status of Some s \<Rightarrow> 200 \<le> s \<and> s < 300 | None \<Rightarrow> False) then (None, h1)
      else (case Exists (ow_runner ow) ReadyContext ''container'' (target_name a) h1 of
        (Inl e, h2) \<Rightarrow> (Some e, h2)
      | (Inr False, h2) \<Rightarrow>
          (Some (ErrorText (''gateway '' @ a @ '' backend exited before becoming ready'')), h2)
      | (Inr True, h2) \<Rightarrow>
          (case ticks of
             0 \<Rightarrow> (Some (Wrapped (''gateway '' @ a @ '' backend did not become ready: '') (ErrorText (ow_cause ow))), h2)
           | Suc n \<Rightarrow> waitReady ow a endpoint n h2)))"

declare waitReady.simps [simp del]

definition followBackendLogs :: "allocation \<Rightarrow> allocation option \<Rightarrow> gerror option \<times> allocation option" where
  "followBackendLogs a follower = (case follower of
     Some active \<Rightarrow> (Some (ErrorText (''gateway is already following '' @ active @ '' backend logs'')), follower)
   | None \<Rightarrow> (None, Some a))"

definition stopFollowingBackendLogs :: "allocation \<Rightarrow> allocation option \<Rightarrow> allocation option" where
  "stopFollowingBackendLogs a follower = (if follower = Some a then None else follower)"

text \<open>The part of \<^verbatim>\<open>Start\<close> behind its deferred cleanup.\<close>

definition launch ::
  "'h outside \<Rightarrow> allocation \<Rightarrow> string list \<Rightarrow> int \<Rightarrow> string \<Rightarrow> allocation option \<Rightarrow> 'h
     \<Rightarrow> (gerror + string) \<times> allocation option \<times> 'h" where
  "launch ow a command internalPort readinessPath follower h =
     (case rn_Run (ow_runner ow) CallerContext (hd command) (tl command) h of
        (Inl e, h1) \<Rightarrow> (Inl (Wrapped (''start gateway '' @ a @ '' backend: '') (ErrorText e)), follower, h1)
      | (Inr res, h1) \<Rightarrow>
          (if rs_Status res \<noteq> 0
           then (Inl (ErrorText (''start gateway '' @ a @ '' backend: ''
                  @ detail_or res (''podman exited with status '' @ format_int (rs_Status res)))), follower, h1)
           else (case followBackendLogs a follower of
             (Some e, follower1) \<Rightarrow> (Inl e, follower1, h1)
           | (None, follower1) \<Rightarrow>
               (case PublishedLoopbackPort (ow_loopback ow) (ow_runner ow) CallerContext
                       (target_name a) internalPort h1 of
                  (Inl e, h2) \<Rightarrow> (Inl e, follower1, h2)
                | (Inr hostPort, h2) \<Rightarrow>
                    (let upstream = ''http://127.0.0.1:'' @ format_int hostPort in
                     case waitReady ow a (upstream @ readinessPath) (ow_ticks ow) h2 of
                       (Some e, h3) \<Rightarrow> (Inl e, follower1, h3)
                     | (None, h3) \<Rightarrow> (Inr upstream, follower1, h3))))))"

definition Start ::
  "'h outside \<Rightarrow> LifecycleOptions \<Rightarrow> allocation \<Rightarrow> allocation option \<Rightarrow> 'h
     \<Rightarrow> (gerror + string) \<times> allocation option \<times> 'h" where
  "Start ow opts a follower h =
     (if gatewayContainerNames a = None
      then (Inl (ErrorText (''unknown gateway allocation '' @ quoted a)), follower, h)
      else (case requireAvailable ow CallerContext a True h of
        (Some e, h1) \<Rightarrow> (Inl e, follower, h1)
      | (None, h1) \<Rightarrow>
          (case backend_command ow opts a of
             Inl e \<Rightarrow> (Inl e, follower, h1)
           | Inr (command, internalPort, readinessPath) \<Rightarrow>
               (case launch ow a command internalPort readinessPath follower h1 of
                  (Inr upstream, follower2, h2) \<Rightarrow> (Inr upstream, follower2, h2)
                | (Inl e, follower2, h2) \<Rightarrow>
                    (case removeOwned ow WithoutCancel a h2 of
                       (None, h3) \<Rightarrow> (Inl e, stopFollowingBackendLogs a follower2, h3)
                     | (Some c, h3) \<Rightarrow>
                         (Inl (BackendCleanup (Joined e (Wrapped (''clean up gateway '' @ a @ '' backend: '') c))),
                          stopFollowingBackendLogs a follower2, h3))))))"

definition Stop ::
  "'h outside \<Rightarrow> allocation \<Rightarrow> allocation option \<Rightarrow> 'h \<Rightarrow> gerror option \<times> allocation option \<times> 'h" where
  "Stop ow a follower h =
     (if gatewayContainerNames a = None
      then (Some (ErrorText (''unknown gateway allocation '' @ quoted a)), follower, h)
      else (let (e, h1) = removeOwned ow CallerContext a h in (e, stopFollowingBackendLogs a follower, h1)))"

section \<open>What podman documents\<close>

text \<open>
  \<open>cs h\<close> is the labels of the containers that exist on the host, by name. A container of the gateway
  runs with \<^verbatim>\<open>--rm\<close>, so it may vanish by itself at any time; nothing else changes under a command
  that does not name it.
\<close>

type_synonym containers = "string \<rightharpoonup> (string \<rightharpoonup> string)"

definition gateway_owned :: "(string \<rightharpoonup> string) \<Rightarrow> bool" where
  "gateway_owned m \<longleftrightarrow> m ManagedContainerLabel = Some ''true'' \<and> m ManagedRoleLabel = Some GatewayBackendRole
     \<and> m ManagedApplicationLabel = Some AllocationLlamaCPP"

definition kept :: "containers \<Rightarrow> containers \<Rightarrow> string \<Rightarrow> bool" where
  "kept c c' n \<longleftrightarrow> c' n = c n \<or> (\<exists>m. c n = Some m \<and> gateway_owned m \<and> c' n = None)"

definition label_map :: "string list \<Rightarrow> string \<rightharpoonup> string" where
  "label_map ls = map_of (rev (map (\<lambda>l. case cut CHR ''='' l of Some kv \<Rightarrow> kv | None \<Rightarrow> (l, [])) ls))"

definition query_documented :: "'h outside \<Rightarrow> ('h \<Rightarrow> containers) \<Rightarrow> bool" where
  "query_documented ow cs \<longleftrightarrow>
     (\<forall>ctx args h r h' m. rn_Run (ow_runner ow) ctx ''podman'' args h = (r, h') \<and>
        hd args \<noteq> ''rm'' \<and> hd args \<noteq> ''run'' \<longrightarrow> kept (cs h) (cs h') m) \<and>
     (\<forall>url h st h' m. ow_get ow url h = (st, h') \<longrightarrow> kept (cs h) (cs h') m)"

definition exists_documented :: "'h outside \<Rightarrow> ('h \<Rightarrow> containers) \<Rightarrow> bool" where
  "exists_documented ow cs \<longleftrightarrow>
     (\<forall>ctx n h res h'. rn_Run (ow_runner ow) ctx ''podman'' [''container'', ''exists'', n] h = (Inr res, h') \<longrightarrow>
        (rs_Status res = 0 \<longrightarrow> cs h n \<noteq> None) \<and> (rs_Status res = 1 \<longrightarrow> cs h' n = None))"

definition inspect_documented :: "'h outside \<Rightarrow> ('h \<Rightarrow> containers) \<Rightarrow> bool" where
  "inspect_documented ow cs \<longleftrightarrow>
     (\<forall>ctx n h res h' ls. rn_Run (ow_runner ow) ctx ''podman'' (inspect_arguments n) h = (Inr res, h') \<and>
        rs_Status res = 0 \<and> ow_decode ow (trimSpace (rs_Stdout res)) = Some ls \<longrightarrow>
        cs h n = None \<or> cs h n = Some (map_of ls))"

definition rm_documented :: "'h outside \<Rightarrow> ('h \<Rightarrow> containers) \<Rightarrow> bool" where
  "rm_documented ow cs \<longleftrightarrow>
     (\<forall>ctx n t h r h' m. rn_Run (ow_runner ow) ctx ''podman'' (rm_arguments n t) h = (r, h') \<longrightarrow>
        (m \<noteq> n \<longrightarrow> kept (cs h) (cs h') m) \<and> (cs h' n = cs h n \<or> cs h' n = None) \<and>
        ((\<exists>res. r = Inr res \<and> rs_Status res = 0) \<longrightarrow> cs h' n = None))"

definition run_documented :: "'h outside \<Rightarrow> ('h \<Rightarrow> containers) \<Rightarrow> bool" where
  "run_documented ow cs \<longleftrightarrow>
     (\<forall>ctx ws os t n h r h' m. rn_Run (ow_runner ow) ctx ''podman'' (''run'' # ws) h = (r, h') \<and>
        parse_run ws = (os, t) \<and> podman_values ''--name'' os = [n] \<longrightarrow>
        (m \<noteq> n \<or> cs h n \<noteq> None \<longrightarrow> kept (cs h) (cs h') m) \<and>
        (cs h n = None \<longrightarrow>
           cs h' n = None \<or> cs h' n = Some (label_map (podman_values ''--label'' os))))"

definition podman_documented :: "'h outside \<Rightarrow> ('h \<Rightarrow> containers) \<Rightarrow> bool" where
  "podman_documented ow cs \<longleftrightarrow> query_documented ow cs \<and> exists_documented ow cs \<and>
     inspect_documented ow cs \<and> rm_documented ow cs \<and> run_documented ow cs"

section \<open>Podman operations under the documented behaviour\<close>

lemma kept_refl [simp]: "kept c c n"
  by (simp add: kept_def)

lemma kept_trans: "kept c c' n \<Longrightarrow> kept c' c'' n \<Longrightarrow> kept c c'' n"
  by (auto simp: kept_def)

lemma kept_None: "kept c c' n \<Longrightarrow> c n = None \<Longrightarrow> c' n = None"
  by (auto simp: kept_def)

lemma doc_query:
  assumes "podman_documented ow cs" "rn_Run (ow_runner ow) ctx ''podman'' args h = (r, h')"
    "hd args \<noteq> ''rm''" "hd args \<noteq> ''run''"
  shows "kept (cs h) (cs h') m"
proof -
  have "query_documented ow cs" using assms(1) unfolding podman_documented_def by (elim conjE)
  then show ?thesis using assms(2-) unfolding query_documented_def by blast
qed

lemma doc_get:
  "podman_documented ow cs \<Longrightarrow> ow_get ow url h = (st, h') \<Longrightarrow> kept (cs h) (cs h') m"
  unfolding podman_documented_def query_documented_def by blast

lemma doc_exists:
  assumes "podman_documented ow cs"
    "rn_Run (ow_runner ow) ctx ''podman'' [''container'', ''exists'', n] h = (Inr res, h')"
  shows "rs_Status res = 0 \<Longrightarrow> cs h n \<noteq> None" "rs_Status res = 1 \<Longrightarrow> cs h' n = None"
proof -
  have "exists_documented ow cs" using assms(1) unfolding podman_documented_def by (elim conjE)
  then show "rs_Status res = 0 \<Longrightarrow> cs h n \<noteq> None" "rs_Status res = 1 \<Longrightarrow> cs h' n = None"
    using assms(2) unfolding exists_documented_def by blast+
qed

lemma doc_inspect:
  assumes "podman_documented ow cs"
    "rn_Run (ow_runner ow) ctx ''podman'' (inspect_arguments n) h = (Inr res, h')"
    "rs_Status res = 0" "ow_decode ow (trimSpace (rs_Stdout res)) = Some ls"
  shows "cs h n = None \<or> cs h n = Some (map_of ls)"
proof -
  have "inspect_documented ow cs" using assms(1) unfolding podman_documented_def by (elim conjE)
  then show ?thesis using assms(2-) unfolding inspect_documented_def by blast
qed

lemma doc_rm:
  assumes "podman_documented ow cs"
    "rn_Run (ow_runner ow) ctx ''podman'' (rm_arguments n t) h = (r, h')"
  shows "m \<noteq> n \<Longrightarrow> kept (cs h) (cs h') m" "cs h' n = cs h n \<or> cs h' n = None"
    "r = Inr res \<Longrightarrow> rs_Status res = 0 \<Longrightarrow> cs h' n = None"
proof -
  have "rm_documented ow cs" using assms(1) unfolding podman_documented_def by (elim conjE)
  from this [unfolded rm_documented_def, rule_format, OF assms(2), of m]
  show "m \<noteq> n \<Longrightarrow> kept (cs h) (cs h') m" "cs h' n = cs h n \<or> cs h' n = None"
    "r = Inr res \<Longrightarrow> rs_Status res = 0 \<Longrightarrow> cs h' n = None"
    by auto
qed

lemma doc_run:
  assumes "podman_documented ow cs"
    "rn_Run (ow_runner ow) ctx ''podman'' (''run'' # ws) h = (r, h')"
    "parse_run ws = (os, t)" "podman_values ''--name'' os = [n]"
  shows "m \<noteq> n \<or> cs h n \<noteq> None \<Longrightarrow> kept (cs h) (cs h') m"
    "cs h n = None \<Longrightarrow> cs h' n = None \<or> cs h' n = Some (label_map (podman_values ''--label'' os))"
proof -
  have "run_documented ow cs" using assms(1) unfolding podman_documented_def by (elim conjE)
  from this [unfolded run_documented_def, rule_format, OF conjI [OF assms(2) conjI [OF assms(3,4)]], of m]
  show "m \<noteq> n \<or> cs h n \<noteq> None \<Longrightarrow> kept (cs h) (cs h') m"
    "cs h n = None \<Longrightarrow> cs h' n = None \<or> cs h' n = Some (label_map (podman_values ''--label'' os))"
    by auto
qed

lemma Exists_kept:
  assumes "podman_documented ow cs" "Exists (ow_runner ow) ctx kind n h = (r, h')"
  shows "kept (cs h) (cs h') m"
    "kind = ''container'' \<Longrightarrow> r = Inr False \<Longrightarrow> cs h' n = None"
  using assms doc_query [OF assms(1), of ctx "[kind, ''exists'', n]" h _ h' m] doc_exists [OF assms(1), of ctx n h _ h']
  by (auto simp: Exists_def split: if_splits prod.splits sum.splits)

lemma Capture_kept:
  assumes "podman_documented ow cs" "Capture (ow_runner ow) ctx args f h = (r, h')"
    "hd args \<noteq> ''rm''" "hd args \<noteq> ''run''"
  shows "kept (cs h) (cs h') m"
  using assms doc_query [OF assms(1), of ctx args h _ h' m]
  by (auto simp: Capture_def split: prod.splits sum.splits)

lemma ContainerLabels_kept:
  assumes "podman_documented ow cs" "ContainerLabels (ow_decode ow) (ow_runner ow) ctx n h = (r, h')"
  shows "kept (cs h) (cs h') m" "r = Inr ls \<Longrightarrow> cs h n = None \<or> cs h n = Some (map_of ls)"
proof -
  obtain r1 where cap: "Capture (ow_runner ow) ctx (inspect_arguments n)
      (''cannot inspect container labels for '' @ n) h = (r1, h')"
    and r: "r = Inr ls \<Longrightarrow> \<exists>raw. r1 = Inr raw \<and> ow_decode ow raw = Some ls"
    using assms(2) unfolding ContainerLabels_def by (auto split: prod.splits sum.splits option.splits)
  show "kept (cs h) (cs h') m"
    by (rule Capture_kept [OF assms(1) cap]) (simp_all add: inspect_arguments_def)
  show "cs h n = None \<or> cs h n = Some (map_of ls)" if "r = Inr ls"
    using r [OF that] cap doc_inspect [OF assms(1), of ctx n h _ h' ls]
    unfolding Capture_def by (auto split: prod.splits sum.splits if_splits)
qed

lemma ManagedContainerNames_kept:
  assumes "podman_documented ow cs" "ManagedContainerNames (ow_runner ow) ctx app h = (r, h')"
  shows "kept (cs h) (cs h') m"
  using assms doc_query [OF assms(1), of ctx "ps_arguments app" h _ h' m]
  by (auto simp: ManagedContainerNames_def ps_arguments_def split: prod.splits sum.splits)

lemma PublishedLoopbackPort_kept:
  assumes "podman_documented ow cs" "PublishedLoopbackPort lb (ow_runner ow) ctx n p h = (r, h')"
  shows "kept (cs h) (cs h') m"
  using assms(2) Capture_kept [OF assms(1), of ctx "[''port'', n, format_int p @ ''/tcp'']" _ h _ h' m]
  by (auto simp: PublishedLoopbackPort_def split: if_splits prod.splits sum.splits)

lemma RequireRootless_kept:
  assumes "podman_documented ow cs" "RequireRootless (ow_runner ow) ctx h = (r, h')"
  shows "kept (cs h) (cs h') m"
  using assms(2) doc_query [OF assms(1), of ctx _ h _ h' m]
  by (auto simp: RequireRootless_def split: if_splits prod.splits sum.splits)

lemma RemoveContainer_kept:
  assumes "podman_documented ow cs" "RemoveContainer (ow_runner ow) ctx n t h = (r, h')"
  shows "m \<noteq> n \<Longrightarrow> kept (cs h) (cs h') m" "cs h' n = cs h n \<or> cs h' n = None"
    "r = None \<Longrightarrow> cs h' n = None"
  using assms(2) doc_rm [OF assms(1), of ctx n t h _ h']
  by (auto simp: RemoveContainer_def execute_def split: if_splits prod.splits sum.splits)

section \<open>The lifecycle under the documented behaviour\<close>

lemma owned_labels_gateway:
  "owned_labels AllocationLlamaCPP ls \<Longrightarrow> gateway_owned (map_of ls)"
  by (auto simp: owned_labels_def gateway_owned_def map_string_def AllocationLlamaCPP_def
        GatewayBackendRole_def split: option.splits)

lemma known_allocation: "gatewayContainerNames a \<noteq> None \<longleftrightarrow> a = AllocationLlamaCPP"
  by (simp add: gatewayContainerNames_def)

lemma names_llama: "gatewayContainerNames AllocationLlamaCPP = Some (Container ''gateway-llama-cpp'')"
  by (simp add: gatewayContainerNames_def)

lemma remove_labelled_kept:
  assumes doc: "podman_documented ow cs"
    and inspect: "ContainerLabels (ow_decode ow) (ow_runner ow) ctx n h = (Inr ls, h1)"
    and owned: "owned_labels AllocationLlamaCPP ls"
    and rm: "RemoveContainer (ow_runner ow) ctx n t h1 = (r, h')"
  shows "kept (cs h) (cs h') m" "r = None \<Longrightarrow> cs h' n = None"
proof -
  note i = ContainerLabels_kept [OF doc inspect] and d = RemoveContainer_kept [OF doc rm]
  show "r = None \<Longrightarrow> cs h' n = None" by (rule d(3))
  show "kept (cs h) (cs h') m"
  proof (cases "m = n")
    case False
    then show ?thesis using i(1) d(1) kept_trans by blast
  next
    case True
    have "kept (cs h) (cs h1) n" "cs h' n = cs h1 n \<or> cs h' n = None"
      "cs h n = None \<or> cs h n = Some (map_of ls)"
      using i(1) i(2) [OF refl] d(2) by blast+
    with True owned_labels_gateway [OF owned] show ?thesis by (auto simp: kept_def)
  qed
qed

lemma removeOwned_kept:
  assumes doc: "podman_documented ow cs"
    and rm: "removeOwned ow ctx AllocationLlamaCPP h = (r, h')"
  shows "kept (cs h) (cs h') m" "r = None \<Longrightarrow> cs h' (target_name AllocationLlamaCPP) = None"
proof -
  let ?n = "target_name AllocationLlamaCPP"
  obtain x h1 where ex: "Exists (ow_runner ow) ctx ''container'' ?n h = (x, h1)"
    by fastforce
  note e = Exists_kept [OF doc ex]
  obtain y h2 where ls: "ContainerLabels (ow_decode ow) (ow_runner ow) ctx ?n h1 = (y, h2)"
    by fastforce
  note l = ContainerLabels_kept(1) [OF doc ls]
  consider "x = Inr False" "r = None" "h' = h1"
    | "r \<noteq> None" "h' = h1" | "r \<noteq> None" "h' = h2"
    | lb where "y = Inr lb" "owned_labels AllocationLlamaCPP lb"
        "RemoveContainer (ow_runner ow) ctx ?n 2 h2 = (r, h')"
    using rm ex ls unfolding removeOwned_def Let_def
    by (cases x; cases y) (auto split: if_splits bool.splits)
  then have "kept (cs h) (cs h') m \<and> (r = None \<longrightarrow> cs h' ?n = None)"
  proof cases
    case 4
    then show ?thesis
      using remove_labelled_kept [OF doc ls [unfolded 4(1)] 4(2,3)] e(1) kept_trans by blast
  qed (use e l kept_trans in blast)+
  then show "kept (cs h) (cs h') m" "r = None \<Longrightarrow> cs h' ?n = None" by blast+
qed

lemma requireAvailable_kept:
  assumes doc: "podman_documented ow cs"
    and req: "requireAvailable ow ctx AllocationLlamaCPP reclaim h = (r, h')"
  shows "kept (cs h) (cs h') m" "r = None \<Longrightarrow> cs h' (target_name AllocationLlamaCPP) = None"
proof -
  let ?n = "target_name AllocationLlamaCPP"
  obtain names h0 where ps: "ManagedContainerNames (ow_runner ow) ctx AllocationLlamaCPP h = (names, h0)"
    by fastforce
  note p = ManagedContainerNames_kept [OF doc ps]
  obtain x h1 where ex: "Exists (ow_runner ow) ctx ''container'' ?n h0 = (x, h1)"
    by fastforce
  note e = Exists_kept [OF doc ex]
  obtain y h2 where ls: "ContainerLabels (ow_decode ow) (ow_runner ow) ctx ?n h1 = (y, h2)"
    by fastforce
  note l = ContainerLabels_kept(1) [OF doc ls]
  consider "r \<noteq> None" "h' = h0" | "x = Inr False" "r = None" "h' = h1"
    | "r \<noteq> None" "h' = h1" | "r \<noteq> None" "h' = h2"
    | lb where "y = Inr lb" "owned_labels AllocationLlamaCPP lb"
        "RemoveContainer (ow_runner ow) ctx ?n 2 h2 = (r, h')"
    using req ps ex ls unfolding requireAvailable_def Let_def
    by (cases names; cases x; cases y) (auto split: if_splits bool.splits option.splits)
  then have "kept (cs h) (cs h') m \<and> (r = None \<longrightarrow> cs h' ?n = None)"
  proof cases
    case 5
    then show ?thesis
      using remove_labelled_kept [OF doc ls [unfolded 5(1)] 5(2,3)] p e(1) kept_trans by meson
  qed (use p e l kept_trans in meson)+
  then show "kept (cs h) (cs h') m" "r = None \<Longrightarrow> cs h' ?n = None" by blast+
qed

lemma waitReady_kept:
  assumes doc: "podman_documented ow cs"
  shows "waitReady ow a url ticks h = (r, h') \<Longrightarrow> kept (cs h) (cs h') m"
proof (induction ticks arbitrary: h)
  case 0
  obtain st h1 where g: "ow_get ow url h = (st, h1)" by fastforce
  obtain x h2 where ex: "Exists (ow_runner ow) ReadyContext ''container'' (target_name a) h1 = (x, h2)"
    by fastforce
  have "h' = h1 \<or> h' = h2"
    using 0 g ex by (subst (asm) waitReady.simps) (auto split: if_splits sum.splits bool.splits)
  then show ?case
    using doc_get [OF doc g] Exists_kept(1) [OF doc ex] kept_trans by blast
next
  case (Suc n)
  obtain st h1 where g: "ow_get ow url h = (st, h1)" by fastforce
  obtain x h2 where ex: "Exists (ow_runner ow) ReadyContext ''container'' (target_name a) h1 = (x, h2)"
    by fastforce
  have "h' = h1 \<or> h' = h2 \<or> waitReady ow a url n h2 = (r, h')"
    using Suc.prems g ex by (subst (asm) waitReady.simps) (auto split: if_splits sum.splits bool.splits)
  then show ?case
    using doc_get [OF doc g] Exists_kept(1) [OF doc ex] kept_trans Suc.IH by meson
qed

text \<open>The words of the gateway's own command, as podman reads them.\<close>

lemma backend_command_words:
  assumes "backend_command ow opts a = Inr (cmd, p, path)"
  obtains ws os t where "cmd = ''podman'' # ''run'' # ws" "parse_run ws = (os, t)"
    "podman_values ''--name'' os = [target_name AllocationLlamaCPP]"
    "podman_values ''--label'' os =
       [ManagedContainerLabel @ ''=true'', ManagedRoleLabel @ ''='' @ GatewayBackendRole,
        ManagedApplicationLabel @ ''=llama-cpp'']"
proof -
  let ?lo = "gateway_llama_options opts (target_name AllocationLlamaCPP)"
  have cmd: "LlamaCommand (ow_files ow) (ow_umask ow) ?lo (lf_VolumeSuffix opts) = Inr cmd"
    using assms unfolding backend_command_def by (auto split: if_splits)
  have app: "llama_application = llama_cpp_spec"
    by (simp add: llama_application_def split: option.splits)
      (simp add: ByID_def specs_def llama_cpp_spec_def comfyui_spec_def)
  have img: "\<not> hasPrefix (lo_Image ?lo) ''-''"
    by (simp add: app gateway_llama_options_def llama_cpp_spec_def Image_def ImageNamespace_def hasPrefix_def)
  have names: "or_default (lo_ContainerName ?lo) d = target_name AllocationLlamaCPP"
    "or_default (lo_ContainerRole ?lo) e = GatewayBackendRole" for d e
    by (simp_all add: or_default_def gateway_llama_options_def target_name_def gatewayContainerNames_def
        Container_def StateNamespace_def GatewayBackendRole_def)
  from cmd obtain slots mounts m vs where
    words: "cmd = [''podman'', ''run''] @ llama_words (ow_umask ow) ?lo (lf_VolumeSuffix opts) slots mounts m
      @ lo_Image ?lo # llama_tail ?lo"
    and m: "whole mounts" "options_of mounts = map (Pair ''--volume'') vs"
    by (rule LlamaCommand_words)
  note vals = llama_words_values [OF m refl, of "ow_umask ow" ?lo "lf_VolumeSuffix opts" slots m]
  show thesis
    by (rule that [OF _ options_of_image [OF vals(1) img] vals(5) [unfolded names] vals(6) [unfolded names]])
      (use words in simp)
qed

lemma gateway_label_map:
  "gateway_owned (label_map [ManagedContainerLabel @ ''=true'', ManagedRoleLabel @ ''='' @ GatewayBackendRole,
     ManagedApplicationLabel @ ''=llama-cpp''])"
  by (simp add: gateway_owned_def label_map_def ManagedContainerLabel_def ManagedRoleLabel_def
      ManagedApplicationLabel_def LabelNamespace_def GatewayBackendRole_def AllocationLlamaCPP_def)

lemma launch_containers:
  assumes doc: "podman_documented ow cs"
    and cmd: "backend_command ow opts AllocationLlamaCPP = Inr (cmd, p, path)"
    and free: "cs h (target_name AllocationLlamaCPP) = None"
    and launch: "launch ow AllocationLlamaCPP cmd p path f h = (r, f', h')"
  shows "m \<noteq> target_name AllocationLlamaCPP \<Longrightarrow> kept (cs h) (cs h') m"
    "cs h' (target_name AllocationLlamaCPP) = Some ls \<Longrightarrow> gateway_owned ls"
proof -
  let ?n = "target_name AllocationLlamaCPP"
  obtain ws os t where w: "cmd = ''podman'' # ''run'' # ws" "parse_run ws = (os, t)"
    "podman_values ''--name'' os = [?n]"
    "podman_values ''--label'' os = [ManagedContainerLabel @ ''=true'',
       ManagedRoleLabel @ ''='' @ GatewayBackendRole, ManagedApplicationLabel @ ''=llama-cpp'']"
    using backend_command_words [OF cmd] .
  obtain x h1 where run: "rn_Run (ow_runner ow) CallerContext ''podman'' (''run'' # ws) h = (x, h1)"
    by fastforce
  note r = doc_run [OF doc run w(2,3)]
  have later: "kept (cs h1) (cs h') m" for m
  proof -
    obtain y h2 where port: "PublishedLoopbackPort (ow_loopback ow) (ow_runner ow) CallerContext ?n p h1 = (y, h2)"
      by fastforce
    have "h' = h1 \<or> h' = h2 \<or> (\<exists>url r. waitReady ow AllocationLlamaCPP url (ow_ticks ow) h2 = (r, h'))"
      using launch run port w(1) unfolding launch_def Let_def
      by (auto split: sum.splits if_splits option.splits prod.splits)
    then show ?thesis
      using PublishedLoopbackPort_kept [OF doc port] waitReady_kept [OF doc] kept_trans kept_refl by meson
  qed
  show "m \<noteq> ?n \<Longrightarrow> kept (cs h) (cs h') m"
    using r(1) later kept_trans by blast
  show "cs h' ?n = Some ls \<Longrightarrow> gateway_owned ls"
    using r(2) [OF free] later [of ?n] gateway_label_map unfolding w(4) by (auto simp: kept_def)
qed

lemma Start_cases:
  assumes "Start ow opts AllocationLlamaCPP f h = (r, f', h')"
  obtains
    (unavailable) e where "requireAvailable ow CallerContext AllocationLlamaCPP True h = (Some e, h')"
      "r = Inl e" "f' = f"
  | (uncommanded) e where "requireAvailable ow CallerContext AllocationLlamaCPP True h = (None, h')"
      "backend_command ow opts AllocationLlamaCPP = Inl e" "r = Inl e" "f' = f"
  | (started) h1 cmd p path u where
      "requireAvailable ow CallerContext AllocationLlamaCPP True h = (None, h1)"
      "backend_command ow opts AllocationLlamaCPP = Inr (cmd, p, path)"
      "launch ow AllocationLlamaCPP cmd p path f h1 = (Inr u, f', h')" "r = Inr u"
  | (failed) h1 cmd p path e f2 h2 c where
      "requireAvailable ow CallerContext AllocationLlamaCPP True h = (None, h1)"
      "backend_command ow opts AllocationLlamaCPP = Inr (cmd, p, path)"
      "launch ow AllocationLlamaCPP cmd p path f h1 = (Inl e, f2, h2)"
      "removeOwned ow WithoutCancel AllocationLlamaCPP h2 = (c, h')"
      "f' = stopFollowingBackendLogs AllocationLlamaCPP f2"
      "r = Inl (case c of None \<Rightarrow> e | Some c' \<Rightarrow> BackendCleanup (Joined e
         (Wrapped (''clean up gateway '' @ AllocationLlamaCPP @ '' backend: '') c')))"
proof -
  obtain q h1 where req: "requireAvailable ow CallerContext AllocationLlamaCPP True h = (q, h1)" by fastforce
  show thesis
  proof (cases q)
    case (Some e)
    then show ?thesis using assms req unavailable by (simp add: Start_def names_llama)
  next
    case None
    show ?thesis
    proof (cases "backend_command ow opts AllocationLlamaCPP")
      case (Inl e)
      then show ?thesis using assms req None uncommanded by (simp add: Start_def names_llama)
    next
      case (Inr cpp)
      obtain cmd p path where cpp: "cpp = (cmd, p, path)" by (cases cpp) auto
      obtain x f2 h2 where l: "launch ow AllocationLlamaCPP cmd p path f h1 = (x, f2, h2)"
        by (cases "launch ow AllocationLlamaCPP cmd p path f h1") auto
      obtain c h3 where rm: "removeOwned ow WithoutCancel AllocationLlamaCPP h2 = (c, h3)" by fastforce
      have *: "x = Inl e \<Longrightarrow> h' = h3 \<and> f' = stopFollowingBackendLogs AllocationLlamaCPP f2 \<and>
          r = Inl (case c of None \<Rightarrow> e | Some c' \<Rightarrow> BackendCleanup (Joined e
            (Wrapped (''clean up gateway '' @ AllocationLlamaCPP @ '' backend: '') c')))" for e
        using assms req None Inr cpp l rm unfolding Start_def
        by (cases c) (simp_all add: names_llama)
      have "x = Inr u \<Longrightarrow> r = Inr u \<and> f' = f2 \<and> h' = h2" for u
        using assms req None Inr cpp l unfolding Start_def by (simp add: names_llama)
      then show ?thesis
        using * started failed req None Inr cpp l rm by (cases x) blast+
    qed
  qed
qed

definition backend_present :: "('h \<Rightarrow> containers) \<Rightarrow> 'h \<Rightarrow> bool" where
  "backend_present cs h \<longleftrightarrow> (\<exists>ls. cs h (target_name AllocationLlamaCPP) = Some ls \<and> gateway_owned ls)"

lemma absent_kept: "kept (cs h) (cs h') (target_name AllocationLlamaCPP) \<Longrightarrow>
  \<not> backend_present cs h \<Longrightarrow> \<not> backend_present cs h'"
  by (auto simp: kept_def backend_present_def)

lemma Start_contract:
  assumes doc: "podman_documented ow cs" and vacant: "\<not> backend_present cs h"
    and start: "Start ow opts AllocationLlamaCPP f h = (Inl e, f', h')"
  shows "asCleanup e \<or> \<not> backend_present cs h'"
  using start
proof (cases rule: Start_cases)
  case (unavailable d)
  show ?thesis by (rule disjI2, rule absent_kept [OF requireAvailable_kept(1) [OF doc unavailable(1)] vacant])
next
  case (uncommanded d)
  show ?thesis by (rule disjI2, rule absent_kept [OF requireAvailable_kept(1) [OF doc uncommanded(1)] vacant])
next
  case (failed h1 cmd p path d f2 h2 c)
  show ?thesis
  proof (cases c)
    case None
    then show ?thesis using removeOwned_kept(2) [OF doc failed(4)] by (simp add: backend_present_def)
  next
    case (Some c')
    then show ?thesis using failed(6) by simp
  qed
qed simp

lemma Stop_contract:
  assumes doc: "podman_documented ow cs" and stop: "Stop ow AllocationLlamaCPP f h = (None, f', h')"
  shows "\<not> backend_present cs h'"
proof -
  have "removeOwned ow CallerContext AllocationLlamaCPP h = (None, h')"
    using stop by (auto simp: Stop_def names_llama split: prod.splits)
  from removeOwned_kept(2) [OF doc this] show ?thesis by (simp add: backend_present_def)
qed

text \<open>What every call does to the containers on the host.\<close>

lemma Start_foreign:
  assumes doc: "podman_documented ow cs"
    and start: "Start ow opts AllocationLlamaCPP f h = (r, f', h')"
    and other: "cs h m = Some ls" "\<not> gateway_owned ls"
  shows "cs h' m = Some ls"
proof -
  have same: "cs h2 m = Some ls" if "kept (cs h1) (cs h2) m" "cs h1 m = Some ls" for h1 h2
    using that other(2) by (auto simp: kept_def)
  have launched: "cs h2 m = Some ls" if "requireAvailable ow CallerContext AllocationLlamaCPP True h = (None, h1)"
      "backend_command ow opts AllocationLlamaCPP = Inr (cmd, p, path)"
      "launch ow AllocationLlamaCPP cmd p path f h1 = (x, f2, h2)" for h1 cmd p path x f2 h2
  proof -
    note q = requireAvailable_kept [OF doc that(1)]
    have free: "cs h1 (target_name AllocationLlamaCPP) = None" and "cs h1 m = Some ls"
      by (rule q(2) [OF refl], rule same [OF q(1) other(1)])
    then show ?thesis
      using launch_containers(1) [OF doc that(2) free that(3)] same by (metis option.distinct(1))
  qed
  from start show ?thesis
  proof (cases rule: Start_cases)
    case (unavailable e)
    show ?thesis by (rule same [OF requireAvailable_kept(1) [OF doc unavailable(1)] other(1)])
  next
    case (uncommanded e)
    show ?thesis by (rule same [OF requireAvailable_kept(1) [OF doc uncommanded(1)] other(1)])
  next
    case (started h1 cmd p path u)
    show ?thesis by (rule launched [OF started(1-3)])
  next
    case (failed h1 cmd p path e f2 h2 c)
    show ?thesis by (rule same [OF removeOwned_kept(1) [OF doc failed(4)] launched [OF failed(1-3)]])
  qed
qed

lemma preflight_from_containers:
  assumes doc: "podman_documented ow cs"
  shows "preflight_from ow seen as h = (r, h') \<Longrightarrow>
    kept (cs h) (cs h') m \<and>
    (r = None \<and> (as \<noteq> [] \<or> cs h (target_name AllocationLlamaCPP) = None) \<and>
       (seen \<noteq> [] \<longrightarrow> cs h (target_name AllocationLlamaCPP) = None)
     \<longrightarrow> cs h' (target_name AllocationLlamaCPP) = None)"
proof (induction "as" arbitrary: seen h)
  case Nil
  then show ?case by simp
next
  case (Cons a as)
  let ?n = "target_name AllocationLlamaCPP" and ?img = "case ByID a of Some s \<Rightarrow> sp_Image s | None \<Rightarrow> []"
  show ?case
  proof (cases "gatewayContainerNames a")
    case None
    then show ?thesis using Cons.prems by auto
  next
    case (Some n)
    then have a: "a = AllocationLlamaCPP" by (simp add: gatewayContainerNames_def split: if_splits)
    show ?thesis
    proof (cases "a \<in> set seen")
      case True
      then have "preflight_from ow seen as h = (r, h')" "seen \<noteq> []" using Cons.prems Some by auto
      then show ?thesis using Cons.IH [of seen h] by blast
    next
      case False
      obtain x h1 where ex: "Exists (ow_runner ow) CallerContext ''image'' ?img h = (x, h1)" by fastforce
      obtain q h2 where req: "requireAvailable ow CallerContext AllocationLlamaCPP True h1 = (q, h2)"
        by fastforce
      note e = Exists_kept(1) [OF doc ex] and k = requireAvailable_kept [OF doc req]
      consider "r \<noteq> None" "h' = h1" | "r \<noteq> None" "h' = h2"
        | "q = None" "preflight_from ow (a # seen) as h2 = (r, h')"
        using Cons.prems Some False ex req unfolding a
        by (cases x; cases q) (auto split: bool.splits)
      then show ?thesis
      proof cases
        case 3
        note i = Cons.IH [OF 3(2)]
        have "kept (cs h) (cs h') m"
          by (rule kept_trans [OF kept_trans [OF e k(1)] conjunct1 [OF i]])
        moreover have "cs h2 ?n = None" by (rule k(2) [OF 3(1)])
        ultimately show ?thesis using i by simp
      next
        case 1
        then show ?thesis using e by auto
      next
        case 2
        then show ?thesis using kept_trans [OF e k(1)] by auto
      qed
    qed
  qed
qed

lemma Preflight_containers:
  assumes doc: "podman_documented ow cs" and pre: "Preflight ow as h = (r, h')"
  shows "kept (cs h) (cs h') m" "r = None \<Longrightarrow> as \<noteq> [] \<Longrightarrow> cs h' (target_name AllocationLlamaCPP) = None"
proof -
  obtain q h1 where rl: "RequireRootless (ow_runner ow) CallerContext h = (q, h1)" by fastforce
  note k = RequireRootless_kept [OF doc rl]
  have "(r \<noteq> None \<and> h' = h1) \<or> preflight_from ow [] as h1 = (r, h')"
    using pre rl unfolding Preflight_def by (auto split: option.splits)
  then have "kept (cs h) (cs h') m \<and> (r = None \<and> as \<noteq> [] \<longrightarrow> cs h' (target_name AllocationLlamaCPP) = None)"
    using k preflight_from_containers [OF doc, of "[]" "as" h1 r h' m] kept_trans by blast
  then show "kept (cs h) (cs h') m" "r = None \<Longrightarrow> as \<noteq> [] \<Longrightarrow> cs h' (target_name AllocationLlamaCPP) = None"
    by blast+
qed

section \<open>Cleaning up after a failed start\<close>

text \<open>
  Podman answers calls whose context cannot be canceled, and no container exits while it does.
\<close>

definition podman_responsive :: "'h outside \<Rightarrow> ('h \<Rightarrow> containers) \<Rightarrow> bool" where
  "podman_responsive ow cs \<longleftrightarrow>
     (\<forall>h n. \<exists>res h'. rn_Run (ow_runner ow) WithoutCancel ''podman'' [''container'', ''exists'', n] h = (Inr res, h') \<and>
        rs_Status res = (if cs h n = None then 1 else 0) \<and> cs h' = cs h) \<and>
     (\<forall>h n m. cs h n = Some m \<longrightarrow>
        (\<exists>res h' ls. rn_Run (ow_runner ow) WithoutCancel ''podman'' (inspect_arguments n) h = (Inr res, h') \<and>
           rs_Status res = 0 \<and> ow_decode ow (trimSpace (rs_Stdout res)) = Some ls \<and> map_of ls = m)) \<and>
     (\<forall>h n t. \<exists>res h'. rn_Run (ow_runner ow) WithoutCancel ''podman'' (rm_arguments n t) h = (Inr res, h') \<and>
        rs_Status res = 0)"

lemma gateway_owned_labels: "gateway_owned (map_of ls) \<Longrightarrow> owned_labels AllocationLlamaCPP ls"
  by (simp add: owned_labels_def gateway_owned_def map_string_def)

lemma removeOwned_succeeds:
  assumes resp: "podman_responsive ow cs"
    and own: "\<And>ls. cs h (target_name AllocationLlamaCPP) = Some ls \<Longrightarrow> gateway_owned ls"
  shows "fst (removeOwned ow WithoutCancel AllocationLlamaCPP h) = None"
proof -
  let ?n = "target_name AllocationLlamaCPP"
  obtain res h1 where ex: "rn_Run (ow_runner ow) WithoutCancel ''podman'' [''container'', ''exists'', ?n] h = (Inr res, h1)"
    "rs_Status res = (if cs h ?n = None then 1 else 0)" "cs h1 = cs h"
    using resp unfolding podman_responsive_def by meson
  have nonempty: "?n \<noteq> []"
    by (simp add: target_name_def names_llama Container_def StateNamespace_def)
  show ?thesis
  proof (cases "cs h ?n")
    case None
    then show ?thesis using ex by (simp add: removeOwned_def Exists_def)
  next
    case (Some m)
    then obtain res2 h2 ls where ins:
      "rn_Run (ow_runner ow) WithoutCancel ''podman'' (inspect_arguments ?n) h1 = (Inr res2, h2)"
      "rs_Status res2 = 0" "ow_decode ow (trimSpace (rs_Stdout res2)) = Some ls" "map_of ls = m"
      using resp ex(3) unfolding podman_responsive_def by metis
    obtain res3 h3 where rm:
      "rn_Run (ow_runner ow) WithoutCancel ''podman'' (rm_arguments ?n 2) h2 = (Inr res3, h3)"
      "rs_Status res3 = 0"
      using resp unfolding podman_responsive_def by meson
    have "owned_labels AllocationLlamaCPP ls"
      by (rule gateway_owned_labels) (simp add: ins(4) own [OF Some])
    then show ?thesis
      using Some ex ins rm nonempty
      by (simp add: removeOwned_def Exists_def ContainerLabels_def Capture_def RemoveContainer_def execute_def)
  qed
qed

lemma client_errors_plain:
  "Exists R ctx kind n h = (Inl e, h') \<Longrightarrow> \<not> asCleanup e"
  "ManagedContainerNames R ctx a h = (Inl e, h') \<Longrightarrow> \<not> asCleanup e"
  "ContainerLabels d R ctx n h = (Inl e, h') \<Longrightarrow> \<not> asCleanup e"
  "RemoveContainer R ctx n t h = (Some e, h') \<Longrightarrow> \<not> asCleanup e"
  "PublishedLoopbackPort lb R ctx n p h = (Inl e, h') \<Longrightarrow> \<not> asCleanup e"
  by (auto simp: Exists_def ManagedContainerNames_def ContainerLabels_def Capture_def RemoveContainer_def
      execute_def PublishedLoopbackPort_def New_def
      split: if_splits prod.splits sum.splits option.splits list.splits)

lemma requireAvailable_plain:
  "requireAvailable ow ctx a reclaim h = (Some e, h') \<Longrightarrow> \<not> asCleanup e"
  unfolding requireAvailable_def Let_def
  by (auto dest: client_errors_plain split: if_splits prod.splits sum.splits option.splits bool.splits)

lemma waitReady_plain: "waitReady ow a url ticks h = (Some e, h') \<Longrightarrow> \<not> asCleanup e"
proof (induction ticks arbitrary: h)
  case 0
  then show ?case
    by (subst (asm) waitReady.simps)
      (auto dest: client_errors_plain split: if_splits prod.splits sum.splits bool.splits)
next
  case (Suc n)
  from Suc.prems show ?case
    by (subst (asm) waitReady.simps)
      (auto dest: client_errors_plain Suc.IH split: if_splits prod.splits sum.splits bool.splits)
qed

lemma launch_plain: "launch ow a cmd p path f h = (Inl e, f', h') \<Longrightarrow> \<not> asCleanup e"
  unfolding launch_def Let_def followBackendLogs_def
  by (auto dest: client_errors_plain waitReady_plain split: if_splits prod.splits sum.splits option.splits)

lemma backend_command_plain: "backend_command ow opts a = Inl e \<Longrightarrow> \<not> asCleanup e"
  unfolding backend_command_def LlamaCommand_def Let_def
  by (auto simp: llamaModelMounts_def gateway_llama_options_def Let_def bind_res_def
      split: if_splits sum.splits)

lemma launch_follower:
  "launch ow a cmd p path None h = (r, f', h') \<Longrightarrow> f' = None \<or> f' = Some a"
  unfolding launch_def Let_def followBackendLogs_def
  by (auto split: if_splits prod.splits sum.splits option.splits)

section \<open>Properties\<close>

text \<open>
  C17: With podman as documented, the lifecycle keeps the contract that the scheduler relies on,
  call by call: a start into a free slot that fails without a cleanup error leaves no backend of
  the gateway behind, and a stop that reports no error has removed it. A backend that is ready
  counts as resident.
\<close>

theorem lifecycle_meets_contract:
  assumes doc: "podman_documented ow cs"
  shows "(\<not> backend_present cs h \<and> Start ow opts AllocationLlamaCPP f h = (r, f', h') \<longrightarrow>
      (case r of
         Inr u \<Rightarrow> lifecycle_contract OpStart (Some u) None True
       | Inl e \<Rightarrow> lifecycle_contract OpStart None (Some e) (backend_present cs h'))) \<and>
    (Stop ow AllocationLlamaCPP f h = (e, f', h') \<longrightarrow>
      lifecycle_contract OpStop None e (backend_present cs h'))"
proof (intro conjI impI)
  assume "\<not> backend_present cs h \<and> Start ow opts AllocationLlamaCPP f h = (r, f', h')"
  then show "case r of
         Inr u \<Rightarrow> lifecycle_contract OpStart (Some u) None True
       | Inl e \<Rightarrow> lifecycle_contract OpStart None (Some e) (backend_present cs h')"
    using Start_contract [OF doc, of h opts f _ f' h'] by (cases r) auto
next
  assume "Stop ow AllocationLlamaCPP f h = (e, f', h')"
  then show "lifecycle_contract OpStop None e (backend_present cs h')"
    using Stop_contract [OF doc] by (cases e) auto
qed

text \<open>
  C18: When podman answers the uncancelable calls, a start into a free slot that fails always cleans
  up after itself, whatever step failed and even when its own context was canceled: it reports no
  cleanup error, no backend of the gateway is left, and no log follower.
\<close>

theorem failed_start_cleans_up:
  assumes doc: "podman_documented ow cs" and resp: "podman_responsive ow cs"
    and vacant: "\<not> backend_present cs h"
    and start: "Start ow opts AllocationLlamaCPP None h = (Inl e, f', h')"
  shows "\<not> asCleanup e \<and> \<not> backend_present cs h' \<and> f' = None"
proof -
  have "\<not> asCleanup e \<and> f' = None"
    using start
  proof (cases rule: Start_cases)
    case (unavailable d)
    then show ?thesis using requireAvailable_plain [OF unavailable(1)] by simp
  next
    case (uncommanded d)
    then show ?thesis using backend_command_plain [OF uncommanded(2)] by simp
  next
    case (failed h1 cmd p path d f2 h2 c)
    have free: "cs h1 (target_name AllocationLlamaCPP) = None"
      by (rule requireAvailable_kept(2) [OF doc failed(1) refl])
    have "fst (removeOwned ow WithoutCancel AllocationLlamaCPP h2) = None"
      by (rule removeOwned_succeeds [OF resp]) (rule launch_containers(2) [OF doc failed(2) free failed(3)])
    then have "c = None"
      using failed(4) by simp
    moreover have "f' = None"
      using launch_follower [OF failed(3)] failed(5) by (auto simp: stopFollowingBackendLogs_def)
    ultimately show ?thesis
      using failed(6) launch_plain [OF failed(3)] by simp
  qed simp
  then show ?thesis using Start_contract [OF doc vacant start] by blast
qed

text \<open>
  C19: No call of the lifecycle touches a container that does not carry the gateway's exact ownership
  labels, even one that occupies the backend's name: after the preflight, a start or a stop it
  exists with the same labels.
\<close>

theorem foreign_containers_kept:
  assumes doc: "podman_documented ow cs" and other: "cs h m = Some ls" "\<not> gateway_owned ls"
  shows "(Preflight ow as h = (e, h') \<longrightarrow> cs h' m = Some ls) \<and>
    (Start ow opts a f h = (r, f', h') \<longrightarrow> cs h' m = Some ls) \<and>
    (Stop ow a f h = (e, f', h') \<longrightarrow> cs h' m = Some ls)"
proof (intro conjI impI)
  have same: "cs h' m = Some ls" if "kept (cs h) (cs h') m"
    using that other by (auto simp: kept_def)
  show "cs h' m = Some ls" if "Preflight ow as h = (e, h')"
    by (rule same [OF Preflight_containers(1) [OF doc that]])
  show "cs h' m = Some ls" if "Start ow opts a f h = (r, f', h')"
  proof (cases "gatewayContainerNames a")
    case None
    then show ?thesis using that other(1) by (simp add: Start_def)
  next
    case (Some n)
    then have "a = AllocationLlamaCPP" using known_allocation [of a] by simp
    then show ?thesis using Start_foreign [OF doc _ other] that by blast
  qed
  show "cs h' m = Some ls" if "Stop ow a f h = (e, f', h')"
  proof (cases "gatewayContainerNames a")
    case None
    then show ?thesis using that other(1) by (simp add: Stop_def)
  next
    case (Some n)
    then have "a = AllocationLlamaCPP" using known_allocation [of a] by simp
    then have "removeOwned ow CallerContext AllocationLlamaCPP h = (e, h')"
      using that by (auto simp: Stop_def names_llama split: prod.splits)
    then show ?thesis by (rule same [OF removeOwned_kept(1) [OF doc]])
  qed
qed

text \<open>
  A session of the gateway: the calls of the scheduler one after another. A start is only called
  when the slot is free as far as the contract tells; \<open>session_ok\<close> says that every call keeps it.
\<close>

fun session_ok ::
  "'h outside \<Rightarrow> LifecycleOptions \<Rightarrow> ('h \<Rightarrow> containers) \<Rightarrow> op_kind list \<Rightarrow> bool
     \<Rightarrow> allocation option \<Rightarrow> 'h \<Rightarrow> bool" where
  "session_ok ow opts cs [] resident f h = True"
| "session_ok ow opts cs (OpStart # ops) resident f h =
     (if resident then session_ok ow opts cs ops resident f h
      else (case Start ow opts AllocationLlamaCPP f h of
        (Inr u, f', h') \<Rightarrow> lifecycle_contract OpStart (Some u) None True \<and>
          session_ok ow opts cs ops True f' h'
      | (Inl e, f', h') \<Rightarrow> lifecycle_contract OpStart None (Some e) (backend_present cs h') \<and>
          session_ok ow opts cs ops (asCleanup e) f' h'))"
| "session_ok ow opts cs (OpStop # ops) resident f h =
     (case Stop ow AllocationLlamaCPP f h of
        (e, f', h') \<Rightarrow> lifecycle_contract OpStop None e (backend_present cs h') \<and>
          session_ok ow opts cs ops (resident \<and> e \<noteq> None) f' h')"

lemma session_from:
  assumes doc: "podman_documented ow cs"
  shows "(\<not> resident \<Longrightarrow> \<not> backend_present cs h) \<Longrightarrow> session_ok ow opts cs ops resident f h"
proof (induction ops arbitrary: resident f h)
  case (Cons k ops)
  show ?case
  proof (cases k)
    case OpStart
    obtain r f' h' where s: "Start ow opts AllocationLlamaCPP f h = (r, f', h')"
      by (cases "Start ow opts AllocationLlamaCPP f h") auto
    show ?thesis
    proof (cases resident)
      case False
      then have vacant: "\<not> backend_present cs h" using Cons.prems by blast
      show ?thesis
      proof (cases r)
        case (Inl e)
        have "asCleanup e \<or> \<not> backend_present cs h'"
          using Start_contract [OF doc vacant] s Inl by blast
        then show ?thesis using OpStart False s Inl Cons.IH [of "asCleanup e" h' f'] by auto
      next
        case (Inr u)
        then show ?thesis using OpStart False s Cons.IH [of True h' f'] by simp
      qed
    qed (use OpStart Cons.IH [of True h f] in simp)
  next
    case OpStop
    obtain e f' h' where s: "Stop ow AllocationLlamaCPP f h = (e, f', h')"
      by (cases "Stop ow AllocationLlamaCPP f h") auto
    have "removeOwned ow CallerContext AllocationLlamaCPP h = (e, h')"
      using s by (auto simp: Stop_def names_llama split: prod.splits)
    then have "kept (cs h) (cs h') (target_name AllocationLlamaCPP)"
      by (rule removeOwned_kept(1) [OF doc])
    then have "\<not> backend_present cs h \<Longrightarrow> \<not> backend_present cs h'"
      by (rule absent_kept)
    then have "\<not> (resident \<and> e \<noteq> None) \<Longrightarrow> \<not> backend_present cs h'"
      using Stop_contract [OF doc, of f h f' h'] s Cons.prems by (cases e) auto
    moreover have "lifecycle_contract OpStop None e (backend_present cs h')"
      using Stop_contract [OF doc] s by (cases e) auto
    ultimately show ?thesis using OpStop s Cons.IH [of "resident \<and> e \<noteq> None" h' f'] by simp
  qed
qed simp

text \<open>
  After a preflight that succeeds, every later sequence of starts and stops keeps the lifecycle
  contract in which a start is called only on a slot that the contract shows free: a preflight
  reclaims a stale backend of an earlier gateway, so the first start already finds the slot free.
\<close>

theorem session_keeps_contract:
  assumes doc: "podman_documented ow cs"
    and pre: "Preflight ow (a # as) h = (None, h')"
  shows "session_ok ow opts cs ops False f h'"
proof (rule session_from [OF doc])
  show "\<not> backend_present cs h'"
    using Preflight_containers(2) [OF doc pre refl] by (simp add: backend_present_def)
qed

section \<open>Witnesses\<close>

text \<open>
  A podman for the witnesses: the host is a list of container names, each with the gateway's labels
  or with none, and a run creates its container but reports a failure.
\<close>

definition gateway_labels :: labels where
  "gateway_labels = [(ManagedContainerLabel, ''true''), (ManagedRoleLabel, GatewayBackendRole),
     (ManagedApplicationLabel, ''llama-cpp'')]"

definition gateway_label_words :: "string list" where
  "gateway_label_words = [ManagedContainerLabel @ ''=true'', ManagedRoleLabel @ ''='' @ GatewayBackendRole,
     ManagedApplicationLabel @ ''=llama-cpp'']"

lemma gateway_label_words_map: "label_map gateway_label_words = map_of gateway_labels"
proof
  fix k
  show "label_map gateway_label_words k = map_of gateway_labels k"
    by (auto simp: label_map_def gateway_label_words_def gateway_labels_def ManagedContainerLabel_def
        ManagedRoleLabel_def ManagedApplicationLabel_def LabelNamespace_def GatewayBackendRole_def)
qed

definition sim_containers :: "(string \<times> bool) list \<Rightarrow> containers" where
  "sim_containers h n = map_option (\<lambda>b. if b then map_of gateway_labels else Map.empty) (map_of h n)"

definition sim_result :: "string \<Rightarrow> int \<Rightarrow> string + result" where
  "sim_result out st = Inr \<lparr>rs_Stdout = out, rs_Stderr = [], rs_Status = st\<rparr>"

definition sim_run ::
  "call_context \<Rightarrow> string \<Rightarrow> string list \<Rightarrow> (string \<times> bool) list \<Rightarrow> (string + result) \<times> (string \<times> bool) list" where
  "sim_run ctx name args h =
     (if hd args = ''container'' then (sim_result [] (if map_of h (last args) = None then 1 else 0), h)
      else if hd args = ''inspect'' then
        (case map_of h (last args) of
           None \<Rightarrow> (sim_result [] 125, h)
         | Some b \<Rightarrow> (sim_result (if b then ''owned'' else ''none'') 0, h))
      else if hd args = ''rm'' then (sim_result [] 0, filter (\<lambda>(n, b). n \<noteq> last args) h)
      else if hd args = ''run'' then
        (let os = fst (parse_run (tl args)) in
         case podman_values ''--name'' os of
           [n] \<Rightarrow> (sim_result [] 126,
             if map_of h n = None \<and> podman_values ''--label'' os = gateway_label_words then (n, True) # h else h)
         | _ \<Rightarrow> (sim_result [] 125, h))
      else (sim_result (if hd args = ''info'' then ''true'' else []) 0, h))"

definition sim :: "(string \<times> bool) list outside" where
  "sim = \<lparr>ow_runner = \<lparr>rn_Run = sim_run, rn_LookPath = Some\<rparr>, ow_get = (\<lambda>_ h. (Some 200, h)),
     ow_ticks = 3, ow_cause = ''context deadline exceeded'',
     ow_decode = (\<lambda>s. if s = ''owned'' then Some gateway_labels else if s = ''none'' then Some [] else None),
     ow_loopback = (\<lambda>h. h = ''127.0.0.1''), ow_files = demo_files, ow_umask = ''0022''\<rparr>"

lemma trim_sim: "trimSpace ''owned'' = ''owned''" "trimSpace ''none'' = ''none''"
  by code_simp+

lemma sim_simps:
  "rn_Run (ow_runner sim) = sim_run" "ow_get sim url h = (Some 200, h)"
  "ow_decode sim ''owned'' = Some gateway_labels" "ow_decode sim ''none'' = Some []"
  by (simp_all add: sim_def)

lemma sim_run_forms:
  "sim_run ctx p [''container'', ''exists'', n] h = (sim_result [] (if map_of h n = None then 1 else 0), h)"
  "sim_run ctx p (inspect_arguments n) h = (case map_of h n of
     None \<Rightarrow> (sim_result [] 125, h) | Some b \<Rightarrow> (sim_result (if b then ''owned'' else ''none'') 0, h))"
  "sim_run ctx p (rm_arguments n t) h = (sim_result [] 0, filter (\<lambda>(n', b). n' \<noteq> n) h)"
  by (simp_all add: sim_run_def inspect_arguments_def rm_arguments_def)

lemma sim_run_run:
  assumes "parse_run ws = (os, t)" "podman_values ''--name'' os = [n]"
  shows "sim_run ctx p (''run'' # ws) h = (sim_result [] 126,
     if map_of h n = None \<and> podman_values ''--label'' os = gateway_label_words then (n, True) # h else h)"
  using assms by (simp add: sim_run_def)

lemma sim_run_query: "hd args \<noteq> ''rm'' \<Longrightarrow> hd args \<noteq> ''run'' \<Longrightarrow> snd (sim_run ctx p args h) = h"
  unfolding sim_run_def by (simp split: option.splits)

lemma sim_removed:
  "map_of (filter (\<lambda>(n, b). n \<noteq> x) h) m = (if m = x then None else map_of h m)"
  by (induction h) auto

lemma sim_documented: "podman_documented sim sim_containers"
  unfolding podman_documented_def
proof (intro conjI)
  show "query_documented sim sim_containers"
    unfolding query_documented_def sim_simps
    by (metis kept_refl sim_run_query snd_conv prod.inject)
  show "exists_documented sim sim_containers"
    unfolding exists_documented_def sim_simps sim_run_forms
    by (auto simp: sim_result_def sim_containers_def split: if_splits)
  show "inspect_documented sim sim_containers"
    unfolding inspect_documented_def sim_simps(1) sim_run_forms
    by (auto simp: sim_result_def sim_containers_def trim_sim sim_simps split: option.splits if_splits)
  show "rm_documented sim sim_containers"
    unfolding rm_documented_def sim_simps(1) sim_run_forms
    by (auto simp: sim_containers_def sim_removed kept_def)
  show "run_documented sim sim_containers"
    unfolding run_documented_def sim_simps(1)
  proof (intro allI impI, elim conjE)
    fix ctx ws os t n h r h' m
    assume run: "sim_run ctx ''podman'' (''run'' # ws) h = (r, h')"
      and parse: "parse_run ws = (os, t)" "podman_values ''--name'' os = [n]"
    then have "h' = (if map_of h n = None \<and> podman_values ''--label'' os = gateway_label_words
        then (n, True) # h else h)"
      using sim_run_run [OF parse] by simp
    then show "(m \<noteq> n \<or> sim_containers h n \<noteq> None \<longrightarrow> kept (sim_containers h) (sim_containers h') m) \<and>
        (sim_containers h n = None \<longrightarrow> sim_containers h' n = None \<or>
           sim_containers h' n = Some (label_map (podman_values ''--label'' os)))"
      by (auto simp: kept_def sim_containers_def gateway_label_words_map)
  qed
qed

lemma sim_responsive: "podman_responsive sim sim_containers"
  unfolding podman_responsive_def sim_simps(1) sim_run_forms
  by (auto simp: sim_result_def sim_containers_def sim_simps trim_sim split: if_splits)

definition demo_lifecycle :: LifecycleOptions where
  "demo_lifecycle = \<lparr>lf_Registry = \<lparr>rg_Models = [], rg_Fingerprint = [], rg_byID = []\<rparr>,
     lf_DataRoot = ''/data'', lf_Profile = ''strix-halo'', lf_RenderNodes = [''/dev/dri/renderD128''],
     lf_LlamaBackend = ''rocm'', lf_LlamaModelsMax = 1, lf_LlamaSlots = 4, lf_RouterPreset = ''/preset'',
     lf_SourceRevision = [], lf_VolumeSuffix = '':rw'', lf_Unconfined = False,
     lf_StartupTimeout = 1, lf_ReadinessInterval = 1\<rparr>"

lemma sim_vacant: "\<not> backend_present sim_containers []"
  by (simp add: backend_present_def sim_containers_def)

lemma sim_start_fails: "\<exists>e f' h'. Start sim opts AllocationLlamaCPP f h = (Inl e, f', h')"
proof -
  obtain r f' h' where s: "Start sim opts AllocationLlamaCPP f h = (r, f', h')"
    by (cases "Start sim opts AllocationLlamaCPP f h") auto
  then have "\<exists>e. r = Inl e"
  proof (cases rule: Start_cases)
    case (started h1 cmd p path u)
    obtain ws os t n where w: "cmd = ''podman'' # ''run'' # ws" "parse_run ws = (os, t)"
      "podman_values ''--name'' os = [n]"
      using backend_command_words [OF started(2)] by metis
    have "fst (launch sim AllocationLlamaCPP cmd p path f h1) \<noteq> Inr u"
      by (simp add: launch_def w(1) sim_simps sim_run_run [OF w(2,3)] sim_result_def)
    with started(3) show ?thesis by simp
  qed blast+
  with s show ?thesis by blast
qed

theorem lifecycle_meets_contract_witness:
  "podman_documented sim sim_containers \<and> \<not> backend_present sim_containers [] \<and>
   (case Start sim demo_lifecycle AllocationLlamaCPP None [] of (r, f', h') \<Rightarrow>
      (case r of
         Inr u \<Rightarrow> lifecycle_contract OpStart (Some u) None True
       | Inl e \<Rightarrow> lifecycle_contract OpStart None (Some e) (backend_present sim_containers h')))"
proof (intro conjI sim_documented sim_vacant)
  show "case Start sim demo_lifecycle AllocationLlamaCPP None [] of (r, f', h') \<Rightarrow>
      (case r of
         Inr u \<Rightarrow> lifecycle_contract OpStart (Some u) None True
       | Inl e \<Rightarrow> lifecycle_contract OpStart None (Some e) (backend_present sim_containers h'))"
    using lifecycle_meets_contract [OF sim_documented, of "[]" demo_lifecycle None] sim_vacant
    by (cases "Start sim demo_lifecycle AllocationLlamaCPP None []") blast
qed

theorem failed_start_cleans_up_witness:
  "podman_documented sim sim_containers \<and> podman_responsive sim sim_containers \<and>
   (\<exists>e h'. Start sim demo_lifecycle AllocationLlamaCPP None [] = (Inl e, None, h') \<and>
      \<not> asCleanup e \<and> \<not> backend_present sim_containers h')"
proof (intro conjI sim_documented sim_responsive)
  obtain e f' h' where s: "Start sim demo_lifecycle AllocationLlamaCPP None [] = (Inl e, f', h')"
    using sim_start_fails [of demo_lifecycle None "[]"] by (elim exE)
  note c = failed_start_cleans_up [OF sim_documented sim_responsive sim_vacant s]
  show "\<exists>e h'. Start sim demo_lifecycle AllocationLlamaCPP None [] = (Inl e, None, h') \<and>
      \<not> asCleanup e \<and> \<not> backend_present sim_containers h'"
    by (rule exI [of _ e], rule exI [of _ h']) (use s c in simp)
qed

theorem foreign_containers_kept_witness:
  "sim_containers [(''postgres'', False)] ''postgres'' = Some Map.empty \<and> \<not> gateway_owned Map.empty \<and>
   sim_containers (snd (snd (Stop sim AllocationLlamaCPP None [(''postgres'', False)]))) ''postgres'' = Some Map.empty"
proof (intro conjI)
  show 1: "sim_containers [(''postgres'', False)] ''postgres'' = Some Map.empty"
    by (simp add: sim_containers_def)
  show 2: "\<not> gateway_owned Map.empty"
    by (simp add: gateway_owned_def)
  obtain e f' h' where s: "Stop sim AllocationLlamaCPP None [(''postgres'', False)] = (e, f', h')"
    by (cases "Stop sim AllocationLlamaCPP None [(''postgres'', False)]") simp
  have "sim_containers h' ''postgres'' = Some Map.empty"
    by (rule foreign_containers_kept [OF sim_documented, OF 1 2, THEN conjunct2, THEN conjunct2, rule_format, OF s])
  then show "sim_containers (snd (snd (Stop sim AllocationLlamaCPP None [(''postgres'', False)]))) ''postgres''
      = Some Map.empty"
    by (simp add: s)
qed

lemma sim_preflight: "Preflight sim [AllocationLlamaCPP] [] = (None, [])"
  by code_simp

theorem session_keeps_contract_witness:
  "Preflight sim [AllocationLlamaCPP] [] = (None, []) \<and>
   session_ok sim demo_lifecycle sim_containers [OpStart, OpStop, OpStart] False None []"
  by (intro conjI sim_preflight session_keeps_contract [OF sim_documented sim_preflight])

end
