(* ===== verification/Content.thy ===== *)
theory Content
  imports Podman "HOL-Library.Sublist"
begin

text \<open>
  Managed content on disk: the inspection of artifacts (\<^verbatim>\<open>internal/content/inspect.go\<close>), the receipts of
  successful hashes (\<^verbatim>\<open>internal/verification/store.go\<close>). Error texts of the operating system are
  shortened to the operation and the path.

  The file system changes under the program. A host is the current directory entries together with
  what other processes will do: every system call is preceded by the next interference. The list
  \<open>ho_past\<close> records what each call saw; only the statements read it. The digest and the
  resolution of symbolic links are arguments.
\<close>

section \<open>The file system\<close>

datatype kind = KRegular | KDirectory | KSymlink | KOther

record fnode =
  fl_kind :: kind
  fl_dev :: int
  fl_ino :: int
  fl_mtime :: int
  fl_ctime :: int
  fl_nlink :: int
  fl_bytes :: string

datatype dirent = NoEntry | Denied string | Entry fnode

type_synonym fs = "string \<Rightarrow> dirent"

record host =
  ho_fs :: fs
  ho_clock :: int
  ho_steps :: "(fs \<Rightarrow> fs) list"
  ho_past :: "fs list"

definition fl_size :: "fnode \<Rightarrow> int" where
  "fl_size f = int (length (fl_bytes f))"

definition regular :: "fnode \<Rightarrow> bool" where
  "regular f \<longleftrightarrow> fl_kind f = KRegular"

text \<open>\<open>fileIdentity\<close> and \<open>fileObject\<close> print these numbers with separators.\<close>

definition fileIdentity :: "fnode \<Rightarrow> int list" where
  "fileIdentity f = [fl_dev f, fl_ino f, fl_size f, fl_mtime f, fl_ctime f]"

definition fileObject :: "fnode \<Rightarrow> int list" where
  "fileObject f = [fl_dev f, fl_ino f, fl_size f, fl_mtime f]"

definition singleRegular :: "fnode \<Rightarrow> bool" where
  "singleRegular f \<longleftrightarrow> regular f \<and> fl_nlink f = 1"

text \<open>The others move first, then the call sees the result.\<close>

definition interfere :: "host \<Rightarrow> host" where
  "interfere h =
     (let fs = (case ho_steps h of [] \<Rightarrow> ho_fs h | step # _ \<Rightarrow> step (ho_fs h)) in
      h\<lparr>ho_fs := fs, ho_clock := ho_clock h + 1, ho_steps := tl (ho_steps h), ho_past := ho_past h @ [fs]\<rparr>)"

definition lstat :: "string \<Rightarrow> host \<Rightarrow> dirent \<times> host" where
  "lstat p h = (let h1 = interfere h in (ho_fs h1 p, h1))"

record content_env =
  ce_sha256 :: "string \<Rightarrow> string"
  ce_resolve :: "fs \<Rightarrow> string \<Rightarrow> string + string"
  ce_cwd :: string

text \<open>\<^verbatim>\<open>os.Open\<close> follows a symbolic link; the bytes of a file are read at one moment.\<close>

definition open_entry :: "content_env \<Rightarrow> fs \<Rightarrow> string \<Rightarrow> dirent" where
  "open_entry env fs p = (case fs p of
     Entry f \<Rightarrow> (if fl_kind f = KSymlink
                 then (case ce_resolve env fs p of Inl e \<Rightarrow> Denied e | Inr t \<Rightarrow> fs t) else Entry f)
   | d \<Rightarrow> d)"

definition read_entry :: "content_env \<Rightarrow> string \<Rightarrow> host \<Rightarrow> dirent \<times> host" where
  "read_entry env p h = (let h1 = interfere h in (open_entry env (ho_fs h1) p, h1))"

section \<open>Receipts\<close>

record Record =
  vr_SHA256 :: string
  vr_Size :: int
  vr_CTimeNS :: int
  vr_Device :: int
  vr_Inode :: int
  vr_ModifiedNS :: int

record Store =
  vs_DataRoot :: string
  vs_Path :: string
  vs_Records :: "Record table"
  vs_Changed :: bool

definition receipt_schema :: int where "receipt_schema = 1"

text \<open>The decoded receipt has its schema and, unless absent, its files.\<close>

definition LoadReceipts ::
  "content_env \<Rightarrow> (string \<Rightarrow> (int \<times> Record table option) option) \<Rightarrow> string \<Rightarrow> host \<Rightarrow> (gerror + Store) \<times> host" where
  "LoadReceipts env decode dataRoot h =
     (let path = VerificationReceipt \<lparr>Root = dataRoot\<rparr>;
          store = (\<lambda>rs. \<lparr>vs_DataRoot = dataRoot, vs_Path = path, vs_Records = rs, vs_Changed = False\<rparr>) in
      case lstat path h of
        (NoEntry, h1) \<Rightarrow> (Inr (store []), h1)
      | (Denied e, h1) \<Rightarrow> (Inl (Wrapped (''inspect content verification receipt '' @ path @ '': '') (ErrorText e)), h1)
      | (Entry f, h1) \<Rightarrow>
          (if \<not> regular f
           then (Inl (ErrorText (''content verification receipt is not a regular file: '' @ path)), h1)
           else (case read_entry env path h1 of
             (Entry g, h2) \<Rightarrow>
               (case (if fl_kind g = KDirectory then None else decode (fl_bytes g)) of
                  None \<Rightarrow> (Inl (ErrorText (''cannot read content verification receipt '' @ path)), h2)
                | Some (schema, files) \<Rightarrow>
                    (case files of
                       Some rs \<Rightarrow>
                         (if schema \<noteq> receipt_schema
                          then (Inl (ErrorText (''unsupported content verification receipt schema in '' @ path)), h2)
                          else (Inr (store rs), h2))
                     | None \<Rightarrow> (Inl (ErrorText (''unsupported content verification receipt schema in '' @ path)), h2)))
           | (_, h2) \<Rightarrow> (Inl (ErrorText (''read content verification receipt '' @ path)), h2))))"

definition store_key :: "content_env \<Rightarrow> Store \<Rightarrow> string \<Rightarrow> host \<Rightarrow> (gerror + string) \<times> host" where
  "store_key env store file h =
     (let h1 = interfere h in
      case ce_resolve env (ho_fs h1) (vs_DataRoot store) of
        Inl e \<Rightarrow> (Inl (Wrapped ''resolve data directory: '' (ErrorText e)), h1)
      | Inr base \<Rightarrow>
          (let h2 = interfere h1 in
           case ce_resolve env (ho_fs h2) file of
             Inl e \<Rightarrow> (Inl (Wrapped ''resolve managed content: '' (ErrorText e)), h2)
           | Inr resolved \<Rightarrow>
               (let relative = Rel base resolved in
                if relative = ''.'' \<or> relative = ''..'' \<or> IsAbs relative \<or> hasPrefix relative ''../''
                then (Inl (ErrorText (''managed content path is outside the data directory: '' @ file)), h2)
                else (Inr relative, h2))))"

definition signature :: "fnode \<Rightarrow> string \<Rightarrow> Record" where
  "signature f digest = \<lparr>vr_SHA256 = digest, vr_Size = fl_size f, vr_CTimeNS = fl_ctime f,
     vr_Device = fl_dev f, vr_Inode = fl_ino f, vr_ModifiedNS = fl_mtime f\<rparr>"

definition Matches :: "content_env \<Rightarrow> Store \<Rightarrow> string \<Rightarrow> int \<Rightarrow> string \<Rightarrow> host \<Rightarrow> bool \<times> host" where
  "Matches env store file n digest h =
     (case lstat file h of
        (Entry f, h1) \<Rightarrow>
          (if \<not> regular f \<or> fl_size f \<noteq> n then (False, h1)
           else (case store_key env store file h1 of
             (Inl e, h2) \<Rightarrow> (False, h2)
           | (Inr k, h2) \<Rightarrow> (lookup (vs_Records store) k = Some (signature f digest), h2)))
      | (_, h1) \<Rightarrow> (False, h1))"

definition Store_Record ::
  "content_env \<Rightarrow> Store \<Rightarrow> string \<Rightarrow> int \<Rightarrow> string \<Rightarrow> host \<Rightarrow> (gerror + Store) \<times> host" where
  "Store_Record env store file n digest h =
     (case lstat file h of
        (NoEntry, h1) \<Rightarrow> (Inl (ErrorText (''record content verification for '' @ file)), h1)
      | (Denied e, h1) \<Rightarrow> (Inl (Wrapped (''record content verification for '' @ file @ '': '') (ErrorText e)), h1)
      | (Entry f, h1) \<Rightarrow>
          (if \<not> regular f \<or> fl_size f \<noteq> n
           then (Inl (ErrorText (''cannot record verification for unexpected content file: '' @ file)), h1)
           else (case store_key env store file h1 of
             (Inl e, h2) \<Rightarrow> (Inl e, h2)
           | (Inr k, h2) \<Rightarrow>
               (if lookup (vs_Records store) k \<noteq> Some (signature f digest)
                then (Inr (store\<lparr>vs_Records := upsert k (signature f digest) (vs_Records store),
                                 vs_Changed := True\<rparr>), h2)
                else (Inr store, h2)))))"

section \<open>Inspection\<close>

datatype state = Missing | Verified | Unverified | SizeMismatch | HashMismatch | Unexpected

fun state_name :: "state \<Rightarrow> string" where
  "state_name Missing = ''missing''"
| "state_name Verified = ''verified''"
| "state_name Unverified = ''unverified''"
| "state_name SizeMismatch = ''size-mismatch''"
| "state_name HashMismatch = ''hash-mismatch''"
| "state_name Unexpected = ''unexpected''"

record ArtifactStatus =
  as_Artifact :: Artifact
  as_Path :: string
  as_State :: state

definition artifactRoot :: "string \<Rightarrow> Artifact \<Rightarrow> string" where
  "artifactRoot dataRoot artifact =
     (let layout = \<lparr>Root = dataRoot\<rparr> in
      if ar_Target artifact = ''models'' then ComfyModels layout
      else if ar_Target artifact = ''llama-models'' then LlamaModels layout
      else if ar_Target artifact = ''workflows''
      then Join [Application layout ''comfyui'', ''user'', ''default'', ''workflows'', ''imported'']
      else [])"

definition ArtifactPath :: "string \<Rightarrow> Artifact \<Rightarrow> string" where
  "ArtifactPath dataRoot artifact = Join [artifactRoot dataRoot artifact, ar_Destination artifact]"

text \<open>\<open>cancel\<close> says that the context ended while the file was hashed.\<close>

definition fileSHA256Context :: "content_env \<Rightarrow> bool \<Rightarrow> string \<Rightarrow> host \<Rightarrow> (gerror + string) \<times> host" where
  "fileSHA256Context env cancel p h =
     (case read_entry env p h of
        (NoEntry, h1) \<Rightarrow> (Inl (ErrorText (''open '' @ p)), h1)
      | (Denied e, h1) \<Rightarrow> (Inl (Wrapped (''open '' @ p @ '': '') (ErrorText e)), h1)
      | (Entry f, h1) \<Rightarrow>
          (if cancel then Inl ContextCanceled
           else if fl_kind f = KDirectory then Inl (ErrorText (''hash '' @ p))
           else Inr (ce_sha256 env (fl_bytes f)), h1))"

definition inspectArtifact ::
  "content_env \<Rightarrow> bool \<Rightarrow> Store option \<Rightarrow> string \<Rightarrow> Artifact \<Rightarrow> bool \<Rightarrow> host
     \<Rightarrow> (gerror + ArtifactStatus) \<times> Store option \<times> host" where
  "inspectArtifact env cancel store dataRoot artifact verifyHash h =
     (let file = ArtifactPath dataRoot artifact;
          status = (\<lambda>s. \<lparr>as_Artifact = artifact, as_Path = file, as_State = s\<rparr>) in
      case lstat file h of
        (NoEntry, h1) \<Rightarrow> (Inr (status Missing), store, h1)
      | (Denied e, h1) \<Rightarrow> (Inl (Wrapped (''inspect managed content '' @ file @ '': '') (ErrorText e)), store, h1)
      | (Entry info, h1) \<Rightarrow>
          (if \<not> regular info then (Inr (status Unexpected), store, h1)
           else if fl_size info \<noteq> ar_Size artifact then (Inr (status SizeMismatch), store, h1)
           else if \<not> verifyHash then
             (case store of
                None \<Rightarrow> (Inr (status Unverified), store, h1)
              | Some s \<Rightarrow>
                  (case Matches env s file (ar_Size artifact) (ar_SHA256 artifact) h1 of
                     (matched, h2) \<Rightarrow> (Inr (status (if matched then Verified else Unverified)), store, h2)))
           else (case fileSHA256Context env cancel file h1 of
             (Inl e, h2) \<Rightarrow> (Inl e, store, h2)
           | (Inr digest, h2) \<Rightarrow>
               (case lstat file h2 of
                  (Entry hashed, h3) \<Rightarrow>
                    (if \<not> regular hashed \<or> fileIdentity hashed \<noteq> fileIdentity info
                     then (Inl (ErrorText (''managed content changed during verification: '' @ file)), store, h3)
                     else if digest \<noteq> ar_SHA256 artifact then (Inr (status HashMismatch), store, h3)
                     else (case store of
                         None \<Rightarrow> (Inr (status Verified), store, h3)
                       | Some s \<Rightarrow>
                           (case Store_Record env s file (ar_Size artifact) (ar_SHA256 artifact) h3 of
                              (Inl e, h4) \<Rightarrow> (Inl e, store, h4)
                            | (Inr s', h4) \<Rightarrow> (Inr (status Verified), Some s', h4))))
                | (_, h3) \<Rightarrow>
                    (Inl (ErrorText (''managed content changed during verification: '' @ file)), store, h3)))))"

definition InspectArtifact ::
  "content_env \<Rightarrow> Store option \<Rightarrow> string \<Rightarrow> Artifact \<Rightarrow> bool \<Rightarrow> host
     \<Rightarrow> (gerror + ArtifactStatus) \<times> Store option \<times> host" where
  "InspectArtifact env = inspectArtifact env False"

definition VerifyArtifact ::
  "content_env \<Rightarrow> bool \<Rightarrow> Store option \<Rightarrow> string \<Rightarrow> Artifact \<Rightarrow> host
     \<Rightarrow> (gerror + ArtifactStatus) \<times> Store option \<times> host" where
  "VerifyArtifact env cancel store dataRoot artifact = inspectArtifact env cancel store dataRoot artifact True"

definition empty_license :: License where
  "empty_license = \<lparr>li_SPDX = [], li_Status = [], li_URL = [], li_Warning = [], li_UpstreamRepository = [],
     li_UpstreamLicense = [], li_UpstreamLicenseURL = []\<rparr>"

definition empty_source :: Source where
  "empty_source = \<lparr>so_Provider = [], so_Repository = [], so_Revision = [], so_Path = [], so_ModelID = 0,
     so_ModelVersionID = 0, so_RequiresAuth = False, so_ProviderHost = [], so_DownloadURL = [],
     so_ArchiveMember = [], so_ArchiveMaxSize = 0\<rparr>"

definition artifact_of :: "Catalog \<Rightarrow> string \<Rightarrow> Artifact" where
  "artifact_of managed i = (case lookup (ct_Artifacts managed) i of Some a \<Rightarrow> a
     | None \<Rightarrow> \<lparr>ar_ID = [], ar_Description = [], ar_Source = empty_source, ar_Destination = [],
                ar_Size = 0, ar_SHA256 = [], ar_License = empty_license, ar_Agreements = [], ar_Target = []\<rparr>)"

fun inspect_all ::
  "content_env \<Rightarrow> string \<Rightarrow> bool \<Rightarrow> Artifact list \<Rightarrow> Store option \<Rightarrow> host
     \<Rightarrow> (gerror + ArtifactStatus list) \<times> Store option \<times> host" where
  "inspect_all env dataRoot verifyHash [] store h = (Inr [], store, h)"
| "inspect_all env dataRoot verifyHash (a # as) store h =
     (case InspectArtifact env store dataRoot a verifyHash h of
        (Inl e, store1, h1) \<Rightarrow> (Inl e, store1, h1)
      | (Inr status, store1, h1) \<Rightarrow>
          (case inspect_all env dataRoot verifyHash as store1 h1 of
             (Inl e, store2, h2) \<Rightarrow> (Inl e, store2, h2)
           | (Inr statuses, store2, h2) \<Rightarrow> (Inr (status # statuses), store2, h2)))"

definition InspectBundle ::
  "content_env \<Rightarrow> Store option \<Rightarrow> Catalog \<Rightarrow> Bundle \<Rightarrow> string \<Rightarrow> bool \<Rightarrow> host
     \<Rightarrow> (gerror + ArtifactStatus list) \<times> Store option \<times> host" where
  "InspectBundle env store managed bundle dataRoot verifyHash h =
     inspect_all env dataRoot verifyHash (map (artifact_of managed) (bn_Artifacts bundle)) store h"

definition Ready :: "state \<Rightarrow> bool" where
  "Ready s \<longleftrightarrow> s = Verified"

definition RequireBundle ::
  "content_env \<Rightarrow> (string \<Rightarrow> (int \<times> Record table option) option) \<Rightarrow> Catalog \<Rightarrow> Bundle \<Rightarrow> string \<Rightarrow> host
     \<Rightarrow> (gerror + ArtifactStatus list) \<times> host" where
  "RequireBundle env decode managed bundle dataRoot h =
     (case LoadReceipts env decode dataRoot h of
        (Inl e, h1) \<Rightarrow> (Inl e, h1)
      | (Inr store, h1) \<Rightarrow>
          (case InspectBundle env (Some store) managed bundle dataRoot False h1 of
             (Inl e, _, h2) \<Rightarrow> (Inl e, h2)
           | (Inr statuses, _, h2) \<Rightarrow>
               (case find (\<lambda>s. \<not> Ready (as_State s)) statuses of
                  Some s \<Rightarrow> (Inl (ErrorText (''managed content is not ready: '' @ as_Path s @ '' ('' @ state_name (as_State s) @ '')'')), h2)
                | None \<Rightarrow> (Inr statuses, h2))))"

section \<open>What the kernel promises\<close>

text \<open>
  Whatever happens to a file or to its name advances its times: a path that shows a regular file
  with the same identity at two moments has shown that very file all the time in between.
\<close>

definition same_file :: "dirent \<Rightarrow> dirent \<Rightarrow> bool" where
  "same_file d e \<longleftrightarrow> (\<exists>f g. d = Entry f \<and> e = Entry g \<and> regular f \<and> regular g \<and> fileIdentity f = fileIdentity g)"

definition kernel_law :: "fs list \<Rightarrow> bool" where
  "kernel_law past \<longleftrightarrow>
     (\<forall>a b c p. subseq [a, b, c] past \<and> same_file (a p) (c p) \<longrightarrow> b p = a p \<and> c p = a p) \<and>
     (\<forall>a c p. subseq [a, c] past \<and> same_file (a p) (c p) \<longrightarrow> c p = a p)"

lemma interfere_past [simp]: "ho_past (interfere h) = ho_past h @ [ho_fs (interfere h)]"
  by (simp add: interfere_def Let_def)

lemma lstat_seen:
  assumes "lstat p h = (d, h1)"
  shows "ho_past h1 = ho_past h @ [ho_fs h1]" "ho_fs h1 p = d"
  using assms by (auto simp: lstat_def Let_def)

lemma read_entry_seen:
  assumes "read_entry env p h = (d, h1)"
  shows "ho_past h1 = ho_past h @ [ho_fs h1]" "d = open_entry env (ho_fs h1) p"
  using assms by (auto simp: read_entry_def Let_def)

lemma fileSHA256Context_seen:
  assumes "fileSHA256Context env cancel p h = (r, h1)"
  shows "ho_past h1 = ho_past h @ [ho_fs h1]"
    "r = Inr digest \<Longrightarrow> \<exists>f. open_entry env (ho_fs h1) p = Entry f \<and> digest = ce_sha256 env (fl_bytes f)"
  using assms by (auto simp: fileSHA256Context_def read_entry_def Let_def split: dirent.splits if_splits)

lemma store_key_seen:
  assumes "store_key env store p h = (r, h1)"
  shows "\<exists>more. ho_past h1 = ho_past h @ more"
  using assms by (auto simp: store_key_def Let_def split: sum.splits if_splits)

lemma Store_Record_seen:
  assumes "Store_Record env s p n d h = (Inr s', h1)"
  obtains f k h0 where "lstat p h = (Entry f, h0)" "regular f" "fl_size f = n"
    "store_key env s p h0 = (Inr k, h1)" "lookup (vs_Records s') k = Some (signature f d)"
    "vs_DataRoot s' = vs_DataRoot s"
  using assms
  by (auto simp: Store_Record_def split: prod.splits dirent.splits if_splits sum.splits)

lemma Matches_seen:
  assumes "Matches env s p n d h = (True, h1)"
  obtains f k h0 where "lstat p h = (Entry f, h0)" "regular f" "fl_size f = n"
    "store_key env s p h0 = (Inr k, h1)" "lookup (vs_Records s) k = Some (signature f d)"
  using assms
  by (auto simp: Matches_def split: prod.splits dirent.splits if_splits sum.splits)

lemma signature_identity:
  "signature f d = signature g e \<longleftrightarrow> d = e \<and> fileIdentity f = fileIdentity g"
  by (auto simp: signature_def fileIdentity_def)

text \<open>A hash that ends in \<open>Verified\<close>: the three looks at the file.\<close>

lemma inspect_hash_seen:
  assumes "inspectArtifact env cancel store dataRoot a True h = (Inr st, store', h')"
    and "as_State st = Verified"
  obtains info hashed h1 h2 h3 where
    "lstat (ArtifactPath dataRoot a) h = (Entry info, h1)" "regular info" "fl_size info = ar_Size a"
    "fileSHA256Context env cancel (ArtifactPath dataRoot a) h1 = (Inr (ar_SHA256 a), h2)"
    "lstat (ArtifactPath dataRoot a) h2 = (Entry hashed, h3)" "regular hashed"
    "fileIdentity hashed = fileIdentity info"
    "(store = None \<and> store' = None \<and> h' = h3) \<or>
     (\<exists>s s'. store = Some s \<and> store' = Some s' \<and>
        Store_Record env s (ArtifactPath dataRoot a) (ar_Size a) (ar_SHA256 a) h3 = (Inr s', h'))"
  using assms unfolding inspectArtifact_def Let_def
  by (auto split: prod.splits dirent.splits if_splits sum.splits option.splits)

lemma inspect_receipt_seen:
  assumes "inspectArtifact env cancel store dataRoot a False h = (Inr st, store', h')"
    and "as_State st = Verified"
  obtains s info h1 where "store = Some s" "lstat (ArtifactPath dataRoot a) h = (Entry info, h1)"
    "Matches env s (ArtifactPath dataRoot a) (ar_Size a) (ar_SHA256 a) h1 = (True, h')"
  using assms unfolding inspectArtifact_def Let_def
  by (auto split: prod.splits dirent.splits if_splits sum.splits option.splits)

lemma subseq_moments:
  "subseq [a, b, c] (xs @ a # b # c # zs)" "subseq [a, c] (xs @ a # ys @ c # zs)"
  by (intro subseq_drop_many; simp add: subseq_drop_many)+

lemma hashed_bytes:
  assumes law: "kernel_law (ho_past h3 @ rest)"
    and look1: "lstat p h = (Entry info, h1)" "regular info"
    and hash: "fileSHA256Context env cancel p h1 = (Inr d, h2)"
    and look2: "lstat p h2 = (Entry hashed, h3)" "regular hashed" "fileIdentity hashed = fileIdentity info"
  shows "hashed = info \<and> ce_sha256 env (fl_bytes info) = d"
proof -
  note s1 = lstat_seen [OF look1(1)] and s2 = fileSHA256Context_seen [OF hash] and s3 = lstat_seen [OF look2(1)]
  have past: "ho_past h3 @ rest = ho_past h @ ho_fs h1 # ho_fs h2 # ho_fs h3 # rest"
    using s1(1) s2(1) s3(1) by simp
  have same: "same_file (ho_fs h1 p) (ho_fs h3 p)"
    unfolding same_file_def using look1(2) look2(2,3) s1(2) s3(2) by simp
  have "subseq [ho_fs h1, ho_fs h2, ho_fs h3] (ho_past h3 @ rest)"
    unfolding past by (rule subseq_moments)
  then have eq: "ho_fs h2 p = ho_fs h1 p" "ho_fs h3 p = ho_fs h1 p"
    using law same unfolding kernel_law_def by blast+
  obtain f where f: "open_entry env (ho_fs h2) p = Entry f" "d = ce_sha256 env (fl_bytes f)"
    using s2(2) [OF refl] by blast
  have "open_entry env (ho_fs h2) p = Entry info"
    using eq(1) s1(2) look1(2) by (simp add: open_entry_def regular_def)
  then show ?thesis using f eq(2) s1(2) s3(2) by simp
qed


lemma store_key_stable:
  assumes fixed: "\<And>fs fs' q. ce_resolve env fs q = ce_resolve env fs' q"
    and "store_key env s p h = (Inr k, h1)" "store_key env s' p g = (Inr k', g1)"
    and "vs_DataRoot s' = vs_DataRoot s"
  shows "k' = k"
  using assms(2-) fixed [of "ho_fs (interfere h)" _ "ho_fs (interfere g)"]
    fixed [of "ho_fs (interfere (interfere h))" _ "ho_fs (interfere (interfere g))"]
  by (auto simp: store_key_def Let_def split: sum.splits if_splits)

text \<open>
  A receipt stands for the bytes that were hashed. Suppose a file was verified and still was the
  hashed file when its receipt was written. If a later inspection accepts it by the receipt alone,
  without reading it, then the file it sees has the pinned digest, whatever happened in between
  (as long as the data directory is not reached through a changed link).
\<close>

theorem receipts_trustworthy:
  assumes ver: "inspectArtifact env cancel (Some s) dataRoot a True h = (Inr st, store', h')"
    and ok: "as_State st = Verified"
    and quiet: "(ho_past h' ! (length (ho_past h) + 3)) (ArtifactPath dataRoot a) =
      (ho_past h' ! (length (ho_past h) + 2)) (ArtifactPath dataRoot a)"
    and later: "ho_past h2 = ho_past h' @ between"
    and ins: "inspectArtifact env cancel' store' dataRoot a False h2 = (Inr st2, store2, h3)"
    and ok2: "as_State st2 = Verified"
    and law: "kernel_law (ho_past h3)"
    and fixed: "\<And>fs fs' q. ce_resolve env fs q = ce_resolve env fs' q"
  shows "\<exists>f. (ho_past h3 ! (length (ho_past h2) + 1)) (ArtifactPath dataRoot a) = Entry f \<and>
    regular f \<and> fl_size f = ar_Size a \<and> ce_sha256 env (fl_bytes f) = ar_SHA256 a"
proof -
  let ?p = "ArtifactPath dataRoot a"
  obtain info hashed g1 g2 g3 where
    look1: "lstat ?p h = (Entry info, g1)" "regular info" "fl_size info = ar_Size a"
    and hash: "fileSHA256Context env cancel ?p g1 = (Inr (ar_SHA256 a), g2)"
    and look2: "lstat ?p g2 = (Entry hashed, g3)" "regular hashed" "fileIdentity hashed = fileIdentity info"
    and rest: "(Some s = None \<and> store' = None \<and> h' = g3) \<or>
     (\<exists>s0 s'. Some s = Some s0 \<and> store' = Some s' \<and>
        Store_Record env s0 ?p (ar_Size a) (ar_SHA256 a) g3 = (Inr s', h'))"
    using inspect_hash_seen [OF ver ok] .
  then obtain s' where s': "store' = Some s'"
    and rec: "Store_Record env s ?p (ar_Size a) (ar_SHA256 a) g3 = (Inr s', h')" by blast
  obtain f k g4 where f: "lstat ?p g3 = (Entry f, g4)" "regular f"
    "store_key env s ?p g4 = (Inr k, h')" "lookup (vs_Records s') k = Some (signature f (ar_SHA256 a))"
    "vs_DataRoot s' = vs_DataRoot s"
    using Store_Record_seen [OF rec] by metis
  obtain more where more: "ho_past h' = ho_past g4 @ more" using store_key_seen [OF f(3)] by blast
  note past = lstat_seen(1) [OF look1(1)] fileSHA256Context_seen(1) [OF hash] lstat_seen(1) [OF look2(1)]
    lstat_seen(1) [OF f(1)]
  obtain i2 j1 where look3: "lstat ?p h2 = (Entry i2, j1)"
    and m: "Matches env s' ?p (ar_Size a) (ar_SHA256 a) j1 = (True, h3)"
    using inspect_receipt_seen [OF ins ok2] s' by (metis option.inject)
  obtain g k' j2 where g: "lstat ?p j1 = (Entry g, j2)" "regular g" "fl_size g = ar_Size a"
    "store_key env s' ?p j2 = (Inr k', h3)" "lookup (vs_Records s') k' = Some (signature g (ar_SHA256 a))"
    using Matches_seen [OF m] by metis
  obtain more' where more': "ho_past h3 = ho_past j2 @ more'" using store_key_seen [OF g(4)] by blast
  have p3: "ho_past h3 = ho_past g3 @ ho_fs g4 # (more @ between @ [ho_fs j1]) @ ho_fs j2 # more'"
    using more' lstat_seen(1) [OF g(1)] lstat_seen(1) [OF look3] later more past(4) by simp
  have "fileIdentity g = fileIdentity f"
    using store_key_stable [OF fixed f(3) g(4) f(5)] f(4) g(5) by (simp add: signature_identity)
  then have "same_file (ho_fs g4 ?p) (ho_fs j2 ?p)"
    unfolding same_file_def using f(2) g(2) lstat_seen(2) [OF f(1)] lstat_seen(2) [OF g(1)] by metis
  moreover have "subseq [ho_fs g4, ho_fs j2] (ho_past h3)"
    unfolding p3 by (rule subseq_moments)
  ultimately have "ho_fs j2 ?p = ho_fs g4 ?p" using law unfolding kernel_law_def by blast
  then have gf: "g = f" using lstat_seen(2) [OF f(1)] lstat_seen(2) [OF g(1)] by simp
  have "ho_fs g4 ?p = ho_fs g3 ?p"
    using quiet unfolding more past by (simp add: nth_append)
  then have fh: "f = hashed" using lstat_seen(2) [OF f(1)] lstat_seen(2) [OF look2(1)] by simp
  have "hashed = info \<and> ce_sha256 env (fl_bytes info) = ar_SHA256 a"
    by (rule hashed_bytes [OF law [unfolded p3] look1(1,2) hash look2])
  moreover have "(ho_past h3 ! (length (ho_past h2) + 1)) ?p = Entry g"
    using more' lstat_seen [OF g(1)] lstat_seen(1) [OF look3] by (simp add: nth_append)
  ultimately show ?thesis using gf fh look1(3) g(2) by simp
qed

section \<open>A file replaced before its receipt is written\<close>

definition demo_artifact :: Artifact where
  "demo_artifact = \<lparr>ar_ID = ''m'', ar_Description = [], ar_Source = empty_source, ar_Destination = ''m'',
     ar_Size = 4, ar_SHA256 = ''good'', ar_License = empty_license, ar_Agreements = [], ar_Target = ''models''\<rparr>"

definition demo_env :: content_env where
  "demo_env = \<lparr>ce_sha256 = (\<lambda>b. b), ce_resolve = (\<lambda>_. Inr), ce_cwd = ''/''\<rparr>"

definition demo_store :: Store where
  "demo_store = \<lparr>vs_DataRoot = ''/d'', vs_Path = [], vs_Records = [], vs_Changed = False\<rparr>"

definition demo_file :: "int \<Rightarrow> string \<Rightarrow> fnode" where
  "demo_file i bytes = \<lparr>fl_kind = KRegular, fl_dev = 1, fl_ino = i, fl_mtime = i, fl_ctime = i, fl_nlink = 1,
     fl_bytes = bytes\<rparr>"

definition demo_fs :: "int \<Rightarrow> string \<Rightarrow> fs" where
  "demo_fs i bytes p = (if p = ''/d/content/comfyui/models/m'' then Entry (demo_file i bytes) else NoEntry)"

definition demo_host :: "(fs \<Rightarrow> fs) list \<Rightarrow> host" where
  "demo_host steps = \<lparr>ho_fs = demo_fs 1 ''good'', ho_clock = 0, ho_steps = steps, ho_past = []\<rparr>"

lemma demo_path: "ArtifactPath ''/d'' demo_artifact = ''/d/content/comfyui/models/m''"
  by (simp add: ArtifactPath_def artifactRoot_def ComfyModels_def demo_artifact_def Join_def Clean_def
      render_path_def clean_parts_def clean_step_def IsAbs_def hasPrefix_def)

lemma demo_relative: "Rel ''/d'' ''/d/content/comfyui/models/m'' = ''content/comfyui/models/m''"
  by (simp add: Rel_def clean_parts_def clean_step_def)

lemma demo_key:
  "vs_DataRoot s = ''/d'' \<Longrightarrow> store_key demo_env s ''/d/content/comfyui/models/m'' h =
     (Inr ''content/comfyui/models/m'', interfere (interfere h))"
  by (simp add: store_key_def demo_env_def demo_relative Let_def IsAbs_def hasPrefix_def)

lemma demo_fields:
  "ce_sha256 demo_env b = b" "vs_DataRoot demo_store = ''/d''" "vs_Records demo_store = []"
  "ar_Size demo_artifact = 4" "ar_SHA256 demo_artifact = ''good''"
  by (simp_all add: demo_env_def demo_store_def demo_artifact_def)

lemmas demo_defs = inspectArtifact_def Let_def demo_path lstat_def demo_host_def interfere_def demo_fs_def
  demo_file_def regular_def fl_size_def fileSHA256Context_def read_entry_def open_entry_def fileIdentity_def

lemma demo_verify:
  "inspectArtifact demo_env False None ''/d'' demo_artifact True (demo_host []) =
     (Inr \<lparr>as_Artifact = demo_artifact, as_Path = ''/d/content/comfyui/models/m'', as_State = Verified\<rparr>, None,
      (demo_host [])\<lparr>ho_clock := 3, ho_past := replicate 3 (demo_fs 1 ''good'')\<rparr>)"
  by (simp add: demo_defs) (simp add: demo_artifact_def demo_env_def numeral_3_eq_3 demo_fs_def demo_file_def)

lemma subseq_phases:
  assumes "subseq ts (replicate l x @ replicate m y @ replicate n z)"
  obtains i j k where "ts = replicate i x @ replicate j y @ replicate k z"
proof -
  have rep: "us = replicate (length us) w" if "subseq us (replicate k w)" for us :: "'a list" and k w
    by (rule replicate_length_same [symmetric], rule ballI) (erule list_emb_set [OF that], simp add: in_set_replicate)
  from assms obtain us vs ws where "ts = us @ vs @ ws" "subseq us (replicate l x)"
    "subseq vs (replicate m y)" "subseq ws (replicate n z)"
    by (auto elim!: subseq_appendE)
  with rep that show thesis by metis
qed

lemma kernel_law_three_phases:
  assumes xy: "\<And>p. same_file (x p) (y p) \<Longrightarrow> x p = y p" and yz: "\<And>p. same_file (y p) (z p) \<Longrightarrow> y p = z p"
    and xz: "\<And>p. same_file (x p) (z p) \<Longrightarrow> x p = y p \<and> y p = z p"
  shows "kernel_law (replicate l x @ replicate m y @ replicate n z)"
  unfolding kernel_law_def
proof (intro conjI [OF allI allI] allI impI; elim conjE)
  fix a b c p
  assume sub: "subseq [a, b, c] (replicate l x @ replicate m y @ replicate n z)"
    and same: "same_file (a p) (c p)"
  obtain i j k where ijk: "[a, b, c] = replicate i x @ replicate j y @ replicate k z"
    using sub by (rule subseq_phases)
  then have "i + j + k = 3" by (metis length_append length_replicate length_Cons list.size(3) add.assoc numeral_3_eq_3)
  then have "(i, j, k) \<in> {(3,0,0), (2,1,0), (2,0,1), (1,2,0), (1,1,1), (1,0,2), (0,3,0), (0,2,1), (0,1,2), (0,0,3)}"
    by simp presburger
  then have "(a, b, c) \<in> {(x, x, x), (x, x, y), (x, x, z), (x, y, y), (x, y, z), (x, z, z),
      (y, y, y), (y, y, z), (y, z, z), (z, z, z)}"
    using ijk by (elim insertE emptyE) (simp_all add: numeral_3_eq_3 numeral_2_eq_2)
  with same xy yz xz show "b p = a p \<and> c p = a p"
    by (elim insertE emptyE) (simp_all, metis+)
next
  fix a c p
  assume sub: "subseq [a, c] (replicate l x @ replicate m y @ replicate n z)"
    and same: "same_file (a p) (c p)"
  obtain i j k where ijk: "[a, c] = replicate i x @ replicate j y @ replicate k z"
    using sub by (rule subseq_phases)
  then have "i + j + k = 2" by (metis length_append length_replicate length_Cons list.size(3) add.assoc numeral_2_eq_2)
  then have "(i, j, k) \<in> {(2,0,0), (1,1,0), (1,0,1), (0,2,0), (0,1,1), (0,0,2)}"
    by simp presburger
  then have "(a, c) \<in> {(x, x), (x, y), (x, z), (y, y), (y, z), (z, z)}"
    using ijk by (elim insertE emptyE) (simp_all add: numeral_2_eq_2)
  with same xy yz xz show "c p = a p"
    by (elim insertE emptyE) (simp_all, metis+)
qed

lemma kernel_law_two_phases:
  assumes "\<And>p. same_file (x p) (y p) \<Longrightarrow> x p = y p"
  shows "kernel_law (replicate m x @ replicate n y)"
  using kernel_law_three_phases [of x y y m n 0] assms by auto


definition race_steps :: "(fs \<Rightarrow> fs) list" where
  "race_steps = [id, id, id, \<lambda>_. demo_fs 2 ''evil'']"

lemma demo_race:
  "inspectArtifact demo_env False (Some demo_store) ''/d'' demo_artifact True (demo_host race_steps) =
     (Inr \<lparr>as_Artifact = demo_artifact, as_Path = ''/d/content/comfyui/models/m'', as_State = Verified\<rparr>,
      Some (demo_store\<lparr>vs_Records := [(''content/comfyui/models/m'', signature (demo_file 2 ''evil'') ''good'')],
        vs_Changed := True\<rparr>),
      (demo_host [])\<lparr>ho_fs := demo_fs 2 ''evil'', ho_clock := 6,
        ho_past := replicate 3 (demo_fs 1 ''good'') @ replicate 3 (demo_fs 2 ''evil'')\<rparr>)"
  by (simp add: demo_defs Store_Record_def demo_key demo_fields race_steps_def numeral_3_eq_3)

lemma demo_recorded:
  "inspectArtifact demo_env False (Some demo_store) ''/d'' demo_artifact True (demo_host []) =
     (Inr \<lparr>as_Artifact = demo_artifact, as_Path = ''/d/content/comfyui/models/m'', as_State = Verified\<rparr>,
      Some (demo_store\<lparr>vs_Records := [(''content/comfyui/models/m'', signature (demo_file 1 ''good'') ''good'')],
        vs_Changed := True\<rparr>),
      (demo_host [])\<lparr>ho_clock := 6, ho_past := replicate 6 (demo_fs 1 ''good'')\<rparr>)"
  by (simp add: demo_defs Store_Record_def demo_key demo_fields eval_nat_numeral)

lemma demo_accepted:
  "inspectArtifact demo_env False
       (Some (demo_store\<lparr>vs_Records := [(''content/comfyui/models/m'', signature (demo_file i bytes) ''good'')],
        vs_Changed := True\<rparr>)) ''/d'' demo_artifact False
       \<lparr>ho_fs = demo_fs i bytes, ho_clock = c, ho_steps = [], ho_past = past\<rparr> =
     (Inr \<lparr>as_Artifact = demo_artifact, as_Path = ''/d/content/comfyui/models/m'', as_State = Verified\<rparr>,
      Some (demo_store\<lparr>vs_Records := [(''content/comfyui/models/m'', signature (demo_file i bytes) ''good'')],
        vs_Changed := True\<rparr>),
      \<lparr>ho_fs = demo_fs i bytes, ho_clock = c + 4, ho_steps = [], ho_past = past @ replicate 4 (demo_fs i bytes)\<rparr>)"
  if "length bytes = 4"
  using that by (simp add: demo_defs Matches_def demo_key demo_fields eval_nat_numeral)

theorem receipts_trustworthy_witness:
  "\<exists>f. (replicate 10 (demo_fs 1 ''good'') ! 7) (ArtifactPath ''/d'' demo_artifact) = Entry f \<and>
    regular f \<and> fl_size f = ar_Size demo_artifact \<and> ce_sha256 demo_env (fl_bytes f) = ar_SHA256 demo_artifact"
proof -
  let ?past = "replicate 6 (demo_fs 1 ''good'')"
  have law: "kernel_law (replicate 10 (demo_fs 1 ''good''))"
    using kernel_law_two_phases [of "demo_fs 1 ''good''" "demo_fs 1 ''good''" 10 0] by simp
  have "kernel_law (?past @ replicate 4 (demo_fs 1 ''good''))"
    using law by (simp add: replicate_add [symmetric])
  note law' = this
  let ?h = "(demo_host [])\<lparr>ho_clock := 6, ho_past := ?past\<rparr>"
  have host: "?h = \<lparr>ho_fs = demo_fs 1 ''good'', ho_clock = 6, ho_steps = [], ho_past = ?past\<rparr>"
    by (simp add: demo_host_def)
  note accepted = demo_accepted [where i = 1 and bytes = "''good''" and c = 6 and past = ?past, folded host]
  have "\<exists>f. ((?past @ replicate 4 (demo_fs 1 ''good'')) ! (length ?past + 1)) (ArtifactPath ''/d'' demo_artifact) = Entry f \<and>
    regular f \<and> fl_size f = ar_Size demo_artifact \<and> ce_sha256 demo_env (fl_bytes f) = ar_SHA256 demo_artifact"
    using receipts_trustworthy [OF demo_recorded _ _ _ accepted] law'
    by (simp add: demo_host_def demo_env_def)
  then show ?thesis by (simp add: replicate_add [symmetric])
qed

text \<open>
  The receipt is written from a fresh look at the file. If the file is replaced between the last
  comparison of its identity and that look, the receipt binds the digest of the old bytes to the
  new file, and later inspections accept the new bytes without hashing them.
\<close>

theorem receipt_race:
  "\<exists>st store' h' st2 store2 h2.
     inspectArtifact demo_env False (Some demo_store) ''/d'' demo_artifact True (demo_host race_steps)
       = (Inr st, store', h') \<and>
     inspectArtifact demo_env False store' ''/d'' demo_artifact False h' = (Inr st2, store2, h2) \<and>
     as_State st = Verified \<and> as_State st2 = Verified \<and> kernel_law (ho_past h2) \<and>
     ho_fs h2 (ArtifactPath ''/d'' demo_artifact) = Entry (demo_file 2 ''evil'') \<and>
     ce_sha256 demo_env ''evil'' \<noteq> ar_SHA256 demo_artifact"
proof -
  let ?past = "replicate 3 (demo_fs 1 ''good'') @ replicate 3 (demo_fs 2 ''evil'')"
  have "kernel_law (replicate 3 (demo_fs 1 ''good'') @ replicate 7 (demo_fs 2 ''evil''))"
    by (rule kernel_law_two_phases)
      (auto simp: same_file_def demo_fs_def demo_file_def fileIdentity_def split: if_splits)
  then have law: "kernel_law (?past @ replicate 4 (demo_fs 2 ''evil''))"
    by (simp add: replicate_add [symmetric])
  show ?thesis
    using law demo_race demo_accepted [where i = 2 and bytes = "''evil''" and c = 6 and past = ?past]
    by (simp add: demo_host_def demo_path demo_fields demo_fs_def)
qed

end
