(* ===== verification/Install.thy ===== *)
theory Install
  imports Content Runtime
begin

text \<open>
  Installing managed content (\<^verbatim>\<open>internal/content/install.go\<close>): which artifacts a selection needs, the
  plan with its sizes, the staging paths, the downloader's command, the choice of a file of a local
  mirror, and the step that verifies a staged payload and publishes it. Progress output is left out;
  the components of a managed parent are looked at in one moment.
\<close>

section \<open>Selection and paths\<close>

fun unique_ids :: "string list \<Rightarrow> string list \<Rightarrow> string list" where
  "unique_ids seen [] = []"
| "unique_ids seen (i # is) =
     (if i \<in> set seen then unique_ids seen is else i # unique_ids (i # seen) is)"

definition UniqueArtifacts :: "Catalog \<Rightarrow> Bundle list \<Rightarrow> Artifact list" where
  "UniqueArtifacts managed bundles =
     map (artifact_of managed) (unique_ids [] (concat (map bn_Artifacts bundles)))"

definition stagingPartition :: "string \<Rightarrow> Artifact \<Rightarrow> string" where
  "stagingPartition dataRoot artifact = Join [Staging \<lparr>Root = dataRoot\<rparr>,
     if ar_Target artifact = ''llama-models'' then ''llama-cpp'' else ''comfyui'']"

abbreviation NUL :: string where "NUL \<equiv> [CHR 0x00]"

definition stagingRoot :: "content_env \<Rightarrow> string \<Rightarrow> Artifact \<Rightarrow> string" where
  "stagingRoot ce dataRoot artifact =
     (let part = stagingPartition dataRoot artifact; src = ar_Source artifact in
      if so_ArchiveMember src = [] then Join [part, ar_ID artifact]
      else Join [part, ''.archives'', ce_sha256 ce (join_with NUL
        [so_Provider src, so_Repository src, so_Revision src, so_Path src, so_DownloadURL src])])"

definition payloadPath :: "content_env \<Rightarrow> string \<Rightarrow> Artifact \<Rightarrow> string" where
  "payloadPath ce dataRoot artifact =
     (if so_ArchiveMember (ar_Source artifact) \<noteq> []
      then Join [stagingRoot ce dataRoot artifact, ''.extracted'', ar_ID artifact, Base (ar_Destination artifact)]
      else Join [stagingRoot ce dataRoot artifact, so_Path (ar_Source artifact)])"

definition downloadPath :: "content_env \<Rightarrow> string \<Rightarrow> Artifact \<Rightarrow> string" where
  "downloadPath ce dataRoot artifact =
     Join [stagingRoot ce dataRoot artifact, so_Path (ar_Source artifact)]"

definition downloadSize :: "Artifact \<Rightarrow> int" where
  "downloadSize artifact = (if 0 < so_ArchiveMaxSize (ar_Source artifact)
     then so_ArchiveMaxSize (ar_Source artifact) else ar_Size artifact)"

definition downloadKey :: "Artifact \<Rightarrow> string" where
  "downloadKey artifact =
     (let src = ar_Source artifact in
      if so_ArchiveMember src \<noteq> []
      then join_with NUL [so_Provider src, so_Repository src, so_Revision src, so_Path src]
      else ar_ID artifact)"

section \<open>The plan\<close>

record InstallPlan =
  ip_Statuses :: "ArtifactStatus list"
  ip_DownloadBytes :: int
  ip_VerifyBytes :: int
  ip_Ready :: nat
  ip_Risky :: "Artifact list"

definition empty_plan :: InstallPlan where
  "empty_plan = \<lparr>ip_Statuses = [], ip_DownloadBytes = 0, ip_VerifyBytes = 0, ip_Ready = 0, ip_Risky = []\<rparr>"

definition plan_status :: "ArtifactStatus \<Rightarrow> InstallPlan \<times> string list \<Rightarrow> InstallPlan \<times> string list" where
  "plan_status status ps =
     (let plan = (fst ps)\<lparr>ip_Statuses := ip_Statuses (fst ps) @ [status]\<rparr>; seen = snd ps;
          artifact = as_Artifact status; k = downloadKey artifact in
      case as_State status of
        Verified \<Rightarrow> (plan\<lparr>ip_Ready := ip_Ready plan + 1\<rparr>, seen)
      | Unverified \<Rightarrow> (plan\<lparr>ip_VerifyBytes := wrap64 (ip_VerifyBytes plan + ar_Size artifact)\<rparr>, seen)
      | Missing \<Rightarrow>
          (let plan1 = (if k \<in> set seen then plan
             else plan\<lparr>ip_DownloadBytes := wrap64 (ip_DownloadBytes plan + downloadSize artifact)\<rparr>) in
           (if li_Status (ar_License artifact) \<noteq> ''verified''
            then plan1\<lparr>ip_Risky := ip_Risky plan1 @ [artifact]\<rparr> else plan1,
            if k \<in> set seen then seen else k # seen))
      | _ \<Rightarrow> (plan, seen))"

fun plan_artifacts ::
  "content_env \<Rightarrow> string \<Rightarrow> Artifact list \<Rightarrow> Store option \<Rightarrow> host \<Rightarrow> InstallPlan \<times> string list
     \<Rightarrow> (gerror + InstallPlan) \<times> host" where
  "plan_artifacts ce dataRoot [] store h ps = (Inr (fst ps), h)"
| "plan_artifacts ce dataRoot (a # as) store h ps =
     (case InspectArtifact ce store dataRoot a False h of
        (Inl e, _, h1) \<Rightarrow> (Inl e, h1)
      | (Inr status, store1, h1) \<Rightarrow> plan_artifacts ce dataRoot as store1 h1 (plan_status status ps))"

definition PlanContent ::
  "content_env \<Rightarrow> (string \<Rightarrow> (int \<times> Record table option) option) \<Rightarrow> string \<Rightarrow> Artifact list \<Rightarrow> host
     \<Rightarrow> (gerror + InstallPlan) \<times> host" where
  "PlanContent ce decode dataRoot artifacts h =
     (case LoadReceipts ce decode dataRoot h of
        (Inl e, h1) \<Rightarrow> (Inl e, h1)
      | (Inr store, h1) \<Rightarrow> plan_artifacts ce dataRoot artifacts (Some store) h1 (empty_plan, []))"

text \<open>The refusals of \<^verbatim>\<open>Install\<close> before it touches anything.\<close>

definition refusal :: "bool \<Rightarrow> InstallPlan \<Rightarrow> gerror option" where
  "refusal acceptRisk plan =
     (case find (\<lambda>s. as_State s \<in> {Unexpected, SizeMismatch, HashMismatch}) (ip_Statuses plan) of
        Some s \<Rightarrow> Some (New (''refusing to replace unexpected managed content: '' @ as_Path s @ '' ('' @ state_name (as_State s) @ '')''))
      | None \<Rightarrow>
          (if ip_Risky plan \<noteq> [] \<and> \<not> acceptRisk
           then Some (New (''selected missing content has unverified licensing; pass '' @
             ''--acknowledge-license-risk after reviewing its catalog warnings'')) else None))"

section \<open>Downloads\<close>

fun no_downloaders_from ::
  "(string \<Rightarrow> labels option) \<Rightarrow> 'h runner \<Rightarrow> string list \<Rightarrow> 'h \<Rightarrow> gerror option \<times> 'h" where
  "no_downloaders_from decode R [] h = (None, h)"
| "no_downloaders_from decode R (name # names) h =
     (case ContainerLabels decode R CallerContext name h of
        (Inl e, h1) \<Rightarrow> (Some e, h1)
      | (Inr ls, h1) \<Rightarrow>
          (if map_string ls ManagedContainerLabel = ''true'' \<and> map_string ls ManagedRoleLabel = ''download''
           then (Some (New (''content downloader container still exists: '' @ name @ [CHR 0x0A] @
             ''Confirm that it is stale, then remove only that container and retry:'' @ [CHR 0x0A] @ ''  podman rm --force '' @ name)), h1)
           else no_downloaders_from decode R names h1))"

definition requireNoDownloaders :: "(string \<Rightarrow> labels option) \<Rightarrow> 'h runner \<Rightarrow> 'h \<Rightarrow> gerror option \<times> 'h" where
  "requireNoDownloaders decode R h =
     (case ManagedContainerNames R CallerContext [] h of
        (Inl e, h1) \<Rightarrow> (Some e, h1)
      | (Inr names, h1) \<Rightarrow> no_downloaders_from decode R names h1)"

definition downloader_words :: "string \<Rightarrow> string \<Rightarrow> string \<Rightarrow> string \<Rightarrow> string list" where
  "downloader_words umask containerName dataRoot volumeSuffix =
     [''--rm'', ''--name'', containerName, ''--userns'', ''keep-id'', ''--umask'', umask, ''--read-only'',
      ''--cap-drop'', ''all'', ''--security-opt'', ''no-new-privileges'', ''--pids-limit'', ''512'',
      ''--tmpfs'', ''/tmp:rw,nosuid,nodev,size=2g'', ''--volume'', dataRoot @ '':/storage'' @ volumeSuffix,
      ''--env'', ''HOME=/storage/staging/.home'', ''--env'', ''XDG_CACHE_HOME=/storage/staging/.cache'',
      ''--env'', ''HF_HOME=/storage/staging/.cache/huggingface'', ''--env'', ''HF_HUB_DISABLE_TELEMETRY=1'',
      ''--env'', ''HF_HUB_DISABLE_PROGRESS_BARS=1'', ''--env'', ''HF_HUB_DISABLE_UPDATE_CHECK=1'']"

definition downloadCommand ::
  "content_env \<Rightarrow> string \<Rightarrow> string \<Rightarrow> environment \<Rightarrow> string \<Rightarrow> string \<Rightarrow> Artifact \<Rightarrow> string
     \<Rightarrow> gerror + string list" where
  "downloadCommand ce umask volumeSuffix environ dataRoot img artifact containerName =
     (let relative = Rel dataRoot (stagingRoot ce dataRoot artifact); src = ar_Source artifact in
      if relative = ''..'' \<or> hasPrefix relative ''../''
      then Inl (ErrorText ''artifact staging escapes data directory'')
      else
        (let local = ''/storage/'' @ relative;
             common = [''podman'', ''run''] @ downloader_words umask containerName dataRoot volumeSuffix
               @ (if env_get environ ''HF_TOKEN'' \<noteq> [] then [''--env'', ''HF_TOKEN''] else [])
               @ (if env_get environ ''CIVITAI_TOKEN'' \<noteq> [] then [''--env'', ''CIVITAI_TOKEN''] else [])
               @ ManagedArguments [] ''download'' in
         if so_Provider src = ''civitai''
         then
           (let url = (if so_DownloadURL src = []
                then ''https://civitai.com/api/download/models/'' @ format_int (so_ModelVersionID src)
                else so_DownloadURL src) in
            Inr (common
              @ [''--entrypoint'', ''/opt/venv/bin/python'', img, ''/opt/paracetamol/container_download.py'',
                 ''--url'', url, ''--output'', local @ ''/'' @ so_Path src]
              @ (if so_ArchiveMember src \<noteq> [] then [''--maximum-size'', format_int (so_ArchiveMaxSize src)]
                 else [''--expected-size'', format_int (ar_Size artifact)])
              @ [''--token-env'', ''CIVITAI_TOKEN'']))
         else Inr (common @ [''--entrypoint'', ''/opt/venv/bin/hf'', img, ''download'', so_Repository src,
             so_Path src, ''--revision'', so_Revision src, ''--local-dir'', local, ''--max-workers'', ''4''])))"

definition stagedPayloadReady :: "content_env \<Rightarrow> string \<Rightarrow> Artifact \<Rightarrow> host \<Rightarrow> bool \<times> host" where
  "stagedPayloadReady ce dataRoot artifact h =
     (case lstat (payloadPath ce dataRoot artifact) h of
        (Entry f, h1) \<Rightarrow> (regular f \<and> fl_size f = ar_Size artifact, h1)
      | (_, h1) \<Rightarrow> (False, h1))"

section \<open>The local mirror\<close>

text \<open>
  The regular files below the mirror by their name, and the digests read so far by file identity.
  A mirror with no root was not selected.
\<close>

record localMirror =
  lm_root :: string
  lm_move :: bool
  lm_byName :: "string list table"
  lm_digests :: "(int list \<times> string) list"
  lm_reserved :: "string list"

definition withinPath :: "string \<Rightarrow> string \<Rightarrow> bool" where
  "withinPath candidate base = (let relative = Rel base candidate in
     relative \<noteq> ''..'' \<and> \<not> hasPrefix relative ''../'')"

definition mirror_candidates :: "localMirror \<Rightarrow> Artifact \<Rightarrow> string list" where
  "mirror_candidates mirror artifact =
     concat (map (\<lambda>name. case lookup (lm_byName mirror) name of Some ps \<Rightarrow> ps | None \<Rightarrow> [])
       [ar_SHA256 artifact, Base (ar_Destination artifact), Base (so_Path (ar_Source artifact))])"

fun find_from ::
  "content_env \<Rightarrow> bool \<Rightarrow> Artifact \<Rightarrow> string list \<Rightarrow> string list \<Rightarrow> localMirror \<Rightarrow> host
     \<Rightarrow> (gerror + string) \<times> localMirror \<times> host" where
  "find_from ce cancel artifact checked [] mirror h = (Inr [], mirror, h)"
| "find_from ce cancel artifact checked (c # cs) mirror h =
     (if c \<in> set checked \<or> c \<in> set (lm_reserved mirror)
      then find_from ce cancel artifact checked cs mirror h
      else (case lstat c h of
        (Entry info, h1) \<Rightarrow>
          (if \<not> regular info \<or> fl_size info \<noteq> ar_Size artifact
           then find_from ce cancel artifact (c # checked) cs mirror h1
           else
             (let chosen = (if lm_move mirror then mirror\<lparr>lm_reserved := c # lm_reserved mirror\<rparr> else mirror) in
              case map_of (lm_digests mirror) (fileIdentity info) of
                Some digest \<Rightarrow>
                  (if digest = ar_SHA256 artifact then (Inr c, chosen, h1)
                   else find_from ce cancel artifact (c # checked) cs mirror h1)
              | None \<Rightarrow>
                  (case fileSHA256Context ce cancel c h1 of
                     (Inl e, h2) \<Rightarrow>
                       (if e = ContextCanceled then (Inl e, mirror, h2)
                        else find_from ce cancel artifact (c # checked) cs mirror h2)
                   | (Inr digest, h2) \<Rightarrow>
                       (let known = (fileIdentity info, digest) # lm_digests mirror in
                        if digest = ar_SHA256 artifact then (Inr c, chosen\<lparr>lm_digests := known\<rparr>, h2)
                        else find_from ce cancel artifact (c # checked) cs (mirror\<lparr>lm_digests := known\<rparr>) h2))))
      | (_, h1) \<Rightarrow> find_from ce cancel artifact (c # checked) cs mirror h1))"

definition mirror_find ::
  "content_env \<Rightarrow> bool \<Rightarrow> Artifact \<Rightarrow> localMirror \<Rightarrow> host \<Rightarrow> (gerror + string) \<times> localMirror \<times> host" where
  "mirror_find ce cancel artifact mirror h =
     (if lm_root mirror = [] then (Inr [], mirror, h)
      else find_from ce cancel artifact [] (mirror_candidates mirror artifact) mirror h)"

section \<open>Verifying and publishing a payload\<close>

definition entry_of :: "fs \<Rightarrow> string \<Rightarrow> entry" where
  "entry_of fs p = (case fs p of
     NoEntry \<Rightarrow> entry.Missing
   | Denied _ \<Rightarrow> StatError
   | Entry f \<Rightarrow> (case fl_kind f of KSymlink \<Rightarrow> Symlink | KDirectory \<Rightarrow> Directory | _ \<Rightarrow> OtherFile))"

definition validateParent ::
  "content_env \<Rightarrow> string \<Rightarrow> string \<Rightarrow> string \<Rightarrow> host \<Rightarrow> gerror option \<times> host" where
  "validateParent ce path managedRoot dataRoot h =
     (let h1 = interfere h in
      (map_option (\<lambda>_. ErrorText (''unsafe managed path: '' @ path))
         (ValidateManagedParent (ce_cwd ce) (entry_of (ho_fs h1)) path managedRoot dataRoot), h1))"

text \<open>\<^verbatim>\<open>os.MkdirAll\<close> and \<^verbatim>\<open>os.Rename\<close>; a rename changes the time of the file's entry.\<close>

definition new_directory :: "host \<Rightarrow> fnode" where
  "new_directory h = \<lparr>fl_kind = KDirectory, fl_dev = 0, fl_ino = 0, fl_mtime = ho_clock h,
     fl_ctime = ho_clock h, fl_nlink = 2, fl_bytes = []\<rparr>"

definition MkdirAll :: "string \<Rightarrow> host \<Rightarrow> gerror option \<times> host" where
  "MkdirAll p h =
     (let h1 = interfere h; ps = path_components ''/'' (clean_parts True p);
          blocked = (\<lambda>q. case ho_fs h1 q of Entry f \<Rightarrow> fl_kind f \<noteq> KDirectory | _ \<Rightarrow> False) in
      if list_ex blocked ps then (Some (ErrorText (''mkdir '' @ p)), h1)
      else (None, h1\<lparr>ho_fs := (\<lambda>q. if q \<in> set ps \<and> ho_fs h1 q = NoEntry then Entry (new_directory h1)
                                    else ho_fs h1 q)\<rparr>))"

definition Rename :: "string \<Rightarrow> string \<Rightarrow> host \<Rightarrow> gerror option \<times> host" where
  "Rename src dst h =
     (let h1 = interfere h in
      case ho_fs h1 src of
        Entry f \<Rightarrow>
          (if (case ho_fs h1 dst of Entry g \<Rightarrow> fl_kind g = KDirectory | Denied _ \<Rightarrow> True | NoEntry \<Rightarrow> False)
           then (Some (ErrorText (''rename '' @ src)), h1)
           else (None, h1\<lparr>ho_fs := (ho_fs h1)(src := NoEntry, dst := Entry (f\<lparr>fl_ctime := ho_clock h1\<rparr>))\<rparr>))
      | _ \<Rightarrow> (Some (ErrorText (''rename '' @ src)), h1))"

definition quarantine :: "string \<Rightarrow> string \<Rightarrow> string" where
  "quarantine payload digest = payload @ ''.invalid-'' @ take 12 digest"

definition place_payload ::
  "content_env \<Rightarrow> Store \<Rightarrow> string \<Rightarrow> Artifact \<Rightarrow> string \<Rightarrow> fnode \<Rightarrow> host \<Rightarrow> (gerror + Store) \<times> host" where
  "place_payload ce store dataRoot artifact payload labeled h =
     (let destination = ArtifactPath dataRoot artifact; managed = artifactRoot dataRoot artifact in
      case validateParent ce destination managed dataRoot h of
        (Some e, h1) \<Rightarrow> (Inl e, h1)
      | (None, h1) \<Rightarrow>
          (case lstat destination h1 of
             (Entry _, h2) \<Rightarrow> (Inl (New (''destination appeared during download; refusing to overwrite: '' @ destination)), h2)
           | (Denied e, h2) \<Rightarrow> (Inl (ErrorText e), h2)
           | (NoEntry, h2) \<Rightarrow>
               (case MkdirAll (Dir destination) h2 of
                  (Some e, h3) \<Rightarrow> (Inl e, h3)
                | (None, h3) \<Rightarrow>
                    (case validateParent ce destination managed dataRoot h3 of
                       (Some e, h4) \<Rightarrow> (Inl e, h4)
                     | (None, h4) \<Rightarrow>
                         (case lstat payload h4 of
                            (Entry recheck, h5) \<Rightarrow>
                              (if \<not> regular recheck \<or> fileIdentity recheck \<noteq> fileIdentity labeled
                               then (Inl (New (''managed content changed after verification: '' @ payload)), h5)
                               else (case Rename payload destination h5 of
                                 (Some e, h6) \<Rightarrow> (Inl (Wrapped (''install '' @ destination @ '': '') e), h6)
                               | (None, h6) \<Rightarrow>
                                   (case lstat destination h6 of
                                      (Entry installed, h7) \<Rightarrow>
                                        (if \<not> regular installed \<or> fileObject installed \<noteq> fileObject recheck
                                         then (Inl (New (''managed content changed during installation: '' @ destination)), h7)
                                         else Store_Record ce store destination (ar_Size artifact) (ar_SHA256 artifact) h7)
                                    | (_, h7) \<Rightarrow>
                                        (Inl (New (''managed content changed during installation: '' @ destination)), h7))))
                          | (_, h5) \<Rightarrow>
                              (Inl (New (''managed content changed after verification: '' @ payload)), h5))))))"

definition publishPayload ::
  "content_env \<Rightarrow> host runner \<Rightarrow> bool \<Rightarrow> Store \<Rightarrow> string \<Rightarrow> Artifact \<Rightarrow> host \<Rightarrow> (gerror + Store) \<times> host" where
  "publishPayload ce R cancel store dataRoot artifact h =
     (let payload = payloadPath ce dataRoot artifact in
      case stagedPayloadReady ce dataRoot artifact h of
        (False, h1) \<Rightarrow> (Inl (New (''downloader did not create the expected regular file: '' @ payload)), h1)
      | (True, h1) \<Rightarrow>
          (case PrepareSharedContentLabel R CallerContext payload h1 of
             (Some e, h2) \<Rightarrow> (Inl e, h2)
           | (None, h2) \<Rightarrow>
               (case lstat payload h2 of
                  (Entry labeled, h3) \<Rightarrow>
                    (if \<not> regular labeled \<or> fl_size labeled \<noteq> ar_Size artifact
                     then (Inl (New (''managed content changed while preparing its shared label: '' @ payload)), h3)
                     else (case fileSHA256Context ce cancel payload h3 of
                       (Inl e, h4) \<Rightarrow> (Inl e, h4)
                     | (Inr digest, h4) \<Rightarrow>
                         (if digest \<noteq> ar_SHA256 artifact
                          then (case Rename payload (quarantine payload digest) h4 of
                            (Some e, h5) \<Rightarrow> (Inl (Wrapped (''SHA-256 mismatch for '' @ payload @ '' and cannot quarantine it: '') e), h5)
                          | (None, h5) \<Rightarrow> (Inl (New (''SHA-256 mismatch for '' @ payload @ ''; rejected bytes kept at '' @ quarantine payload digest)), h5))
                          else (case lstat payload h4 of
                            (Entry hashed, h5) \<Rightarrow>
                              (if \<not> regular hashed \<or> fileIdentity hashed \<noteq> fileIdentity labeled
                               then (Inl (New (''managed content changed during verification: '' @ payload)), h5)
                               else place_payload ce store dataRoot artifact payload labeled h5)
                          | (_, h5) \<Rightarrow> (Inl (New (''managed content changed during verification: '' @ payload)), h5)))))
                | (_, h3) \<Rightarrow>
                    (Inl (New (''managed content changed while preparing its shared label: '' @ payload)), h3))))"

section \<open>Properties\<close>

lemma validateParent_seen:
  assumes "validateParent ce p managedRoot dataRoot h = (r, h1)"
  shows "ho_past h1 = ho_past h @ [ho_fs h1]"
    "r = None \<Longrightarrow> ValidateManagedParent (ce_cwd ce) (entry_of (ho_fs h1)) p managedRoot dataRoot = None"
  using assms by (auto simp: validateParent_def Let_def)

lemma MkdirAll_seen: "MkdirAll p h = (r, h1) \<Longrightarrow> \<exists>fs. ho_past h1 = ho_past h @ [fs]"
  by (auto simp: MkdirAll_def Let_def split: if_splits)

lemma Rename_seen: "Rename p q h = (r, h1) \<Longrightarrow> \<exists>fs. ho_past h1 = ho_past h @ [fs]"
  by (auto simp: Rename_def Let_def split: if_splits dirent.splits)

lemma place_payload_seen:
  assumes "place_payload ce store dataRoot a payload labeled h = (Inr store', h')"
  obtains h1 h2 h3 h4 h5 h6 h7 recheck installed where
    "validateParent ce (ArtifactPath dataRoot a) (artifactRoot dataRoot a) dataRoot h = (None, h1)"
    "lstat (ArtifactPath dataRoot a) h1 = (NoEntry, h2)"
    "MkdirAll (Dir (ArtifactPath dataRoot a)) h2 = (None, h3)"
    "validateParent ce (ArtifactPath dataRoot a) (artifactRoot dataRoot a) dataRoot h3 = (None, h4)"
    "lstat payload h4 = (Entry recheck, h5)" "regular recheck" "fileIdentity recheck = fileIdentity labeled"
    "Rename payload (ArtifactPath dataRoot a) h5 = (None, h6)"
    "lstat (ArtifactPath dataRoot a) h6 = (Entry installed, h7)" "regular installed"
    "fileObject installed = fileObject recheck"
    "Store_Record ce store (ArtifactPath dataRoot a) (ar_Size a) (ar_SHA256 a) h7 = (Inr store', h')"
  using assms unfolding place_payload_def Let_def
  by (auto split: prod.splits option.splits dirent.splits if_splits)

lemma publishPayload_seen:
  assumes "publishPayload ce R cancel store dataRoot a h = (Inr store', h')"
  obtains h2 h3 h4 h5 labeled hashed where
    "lstat (payloadPath ce dataRoot a) h2 = (Entry labeled, h3)" "regular labeled" "fl_size labeled = ar_Size a"
    "fileSHA256Context ce cancel (payloadPath ce dataRoot a) h3 = (Inr (ar_SHA256 a), h4)"
    "lstat (payloadPath ce dataRoot a) h4 = (Entry hashed, h5)" "regular hashed"
    "fileIdentity hashed = fileIdentity labeled"
    "place_payload ce store dataRoot a (payloadPath ce dataRoot a) labeled h5 = (Inr store', h')"
  using assms unfolding publishPayload_def Let_def
  by (auto split: prod.splits option.splits dirent.splits if_splits bool.splits sum.splits)


text \<open>What a plan says, as sums over the statuses: the first missing artifact of every download counts.\<close>

fun first_downloads :: "string list \<Rightarrow> Artifact list \<Rightarrow> Artifact list" where
  "first_downloads seen [] = []"
| "first_downloads seen (a # as) =
     (if downloadKey a \<in> set seen then first_downloads seen as
      else a # first_downloads (downloadKey a # seen) as)"

definition in_state :: "state \<Rightarrow> ArtifactStatus list \<Rightarrow> Artifact list" where
  "in_state st ss = map as_Artifact (filter (\<lambda>s. as_State s = st) ss)"

definition plan_from :: "InstallPlan \<Rightarrow> string list \<Rightarrow> ArtifactStatus list \<Rightarrow> InstallPlan" where
  "plan_from p seen ss = \<lparr>ip_Statuses = ip_Statuses p @ ss,
     ip_DownloadBytes = wrap64 (ip_DownloadBytes p + sum_list (map downloadSize (first_downloads seen (in_state Missing ss)))),
     ip_VerifyBytes = wrap64 (ip_VerifyBytes p + sum_list (map ar_Size (in_state Unverified ss))),
     ip_Ready = ip_Ready p + length (in_state Verified ss),
     ip_Risky = ip_Risky p @ filter (\<lambda>a. li_Status (ar_License a) \<noteq> ''verified'') (in_state Missing ss)\<rparr>"

definition wrapped :: "InstallPlan \<Rightarrow> bool" where
  "wrapped p \<longleftrightarrow> wrap64 (ip_DownloadBytes p) = ip_DownloadBytes p \<and> wrap64 (ip_VerifyBytes p) = ip_VerifyBytes p"

lemma wrap64_wrap64 [simp]: "wrap64 (wrap64 n) = wrap64 n" "wrap64 (wrap64 n + m) = wrap64 (n + m)"
  unfolding wrap64_def by (simp_all add: mod_simps algebra_simps)

lemma plan_status_wrapped: "wrapped p \<Longrightarrow> wrapped (fst (plan_status s (p, seen)))"
  by (simp add: plan_status_def wrapped_def Let_def split: state.splits)

lemma plan_from_Nil: "wrapped p \<Longrightarrow> plan_from p seen [] = p"
  by (simp add: plan_from_def in_state_def wrapped_def)

lemma plan_from_Cons:
  assumes "wrapped p"
  shows "plan_from (fst (plan_status s (p, seen))) (snd (plan_status s (p, seen))) ss = plan_from p seen (s # ss)"
  by (cases "as_State s")
    (simp_all add: plan_status_def plan_from_def in_state_def Let_def add.assoc)

lemma plan_artifacts_statuses:
  assumes "wrapped p" "plan_artifacts ce dataRoot as store h (p, seen) = (Inr plan, h')"
  shows "\<exists>ss store'. inspect_all ce dataRoot False as store h = (Inr ss, store', h') \<and> plan = plan_from p seen ss"
  using assms
proof (induction "as" arbitrary: store h p seen)
  case Nil
  then show ?case by (simp add: plan_from_Nil)
next
  case (Cons a as)
  obtain s store1 h1 where i: "InspectArtifact ce store dataRoot a False h = (Inr s, store1, h1)"
    and rest: "plan_artifacts ce dataRoot as store1 h1 (plan_status s (p, seen)) = (Inr plan, h')"
    using Cons.prems(2) by (auto split: prod.splits sum.splits)
  have "plan_artifacts ce dataRoot as store1 h1
      (fst (plan_status s (p, seen)), snd (plan_status s (p, seen))) = (Inr plan, h')"
    using rest by simp
  from Cons.IH [OF plan_status_wrapped [OF Cons.prems(1)] this]
  show ?case using i plan_from_Cons [OF Cons.prems(1)] by fastforce
qed

lemma in_state_artifacts:
  "inspect_all ce dataRoot v as store h = (Inr ss, store', h') \<Longrightarrow> map as_Artifact ss = as"
proof (induction "as" arbitrary: ss store h)
  case (Cons a as)
  obtain s store1 h1 where i: "InspectArtifact ce store dataRoot a v h = (Inr s, store1, h1)"
    using Cons.prems by (auto split: prod.splits sum.splits)
  have "as_Artifact s = a"
    using i unfolding InspectArtifact_def inspectArtifact_def Let_def
    by (auto split: prod.splits sum.splits dirent.splits if_splits option.splits)
  then show ?case using Cons i by (auto split: prod.splits sum.splits)
qed simp

lemma refusal_None:
  "refusal acceptRisk plan = None \<longleftrightarrow>
      (\<forall>s \<in> set (ip_Statuses plan). as_State s \<in> {Missing, Verified, Unverified}) \<and>
      (acceptRisk \<or> ip_Risky plan = [])"
proof -
  have "(\<not> as_State s \<in> {Unexpected, SizeMismatch, HashMismatch}) = (as_State s \<in> {Missing, Verified, Unverified})"
    for s by (cases "as_State s") simp_all
  then have "find (\<lambda>s. as_State s \<in> {Unexpected, SizeMismatch, HashMismatch}) (ip_Statuses plan) = None \<longleftrightarrow>
      (\<forall>s \<in> set (ip_Statuses plan). as_State s \<in> {Missing, Verified, Unverified})"
    by (simp only: find_None_iff) blast
  then show ?thesis
    unfolding refusal_def
    by (cases "find (\<lambda>s. as_State s \<in> {Unexpected, SizeMismatch, HashMismatch}) (ip_Statuses plan)") simp_all
qed

text \<open>
  A plan accounts for every artifact once: it lists one status per artifact in order, counts the
  verified ones, sums the sizes that must be hashed, counts every download once even when several
  missing artifacts come from the same archive, and names exactly the missing artifacts without a
  verified license. If nothing is refused, no status is of unexpected content, and risky content
  was accepted.
\<close>

theorem plan_accounts:
  assumes "PlanContent ce decode dataRoot artifacts h = (Inr plan, h')"
  shows "map as_Artifact (ip_Statuses plan) = artifacts \<and>
    ip_Ready plan = length (in_state Verified (ip_Statuses plan)) \<and>
    ip_VerifyBytes plan = wrap64 (sum_list (map ar_Size (in_state Unverified (ip_Statuses plan)))) \<and>
    ip_DownloadBytes plan =
      wrap64 (sum_list (map downloadSize (first_downloads [] (in_state Missing (ip_Statuses plan))))) \<and>
    ip_Risky plan = filter (\<lambda>a. li_Status (ar_License a) \<noteq> ''verified'') (in_state Missing (ip_Statuses plan)) \<and>
    (refusal acceptRisk plan = None \<longleftrightarrow>
      (\<forall>s \<in> set (ip_Statuses plan). as_State s \<in> {Missing, Verified, Unverified}) \<and>
      (acceptRisk \<or> ip_Risky plan = []))"
proof -
  obtain s h1 where "plan_artifacts ce dataRoot artifacts (Some s) h1 (empty_plan, []) = (Inr plan, h')"
    using assms by (auto simp: PlanContent_def split: prod.splits sum.splits)
  moreover have "wrapped empty_plan" by (simp add: wrapped_def empty_plan_def wrap64_def)
  ultimately obtain ss store' where
    ss: "inspect_all ce dataRoot False artifacts (Some s) h1 = (Inr ss, store', h')"
    and plan: "plan = plan_from empty_plan [] ss"
    using plan_artifacts_statuses by blast
  note refusal_None [of acceptRisk plan]
  then show ?thesis
    using in_state_artifacts [OF ss] unfolding plan by (simp add: plan_from_def empty_plan_def)
qed

section \<open>Witnesses\<close>

definition demo_runner :: "host runner" where
  "demo_runner = \<lparr>rn_Run = (\<lambda>_ _ _ h. (Inl [], h)), rn_LookPath = (\<lambda>_. None)\<rparr>"

definition staged_fs :: fs where
  "staged_fs p = (if p = ''/d/staging/comfyui/m'' then Entry (demo_file 1 ''good'') else NoEntry)"

definition demo_parents :: "string list" where
  "demo_parents = [''/d'', ''/d/content'', ''/d/content/comfyui'', ''/d/content/comfyui/models'']"

definition made_fs :: fs where
  "made_fs p = (if p \<in> set demo_parents \<and> staged_fs p = NoEntry
     then Entry (\<lparr>fl_kind = KDirectory, fl_dev = 0, fl_ino = 0, fl_mtime = 7, fl_ctime = 7, fl_nlink = 2, fl_bytes = []\<rparr>)
     else staged_fs p)"

definition published_fs :: fs where
  "published_fs = made_fs(''/d/staging/comfyui/m'' := NoEntry,
     ''/d/content/comfyui/models/m'' := Entry ((demo_file 1 ''good'')\<lparr>fl_ctime := 10\<rparr>))"

definition staged_host :: host where
  "staged_host = \<lparr>ho_fs = staged_fs, ho_clock = 0, ho_steps = [], ho_past = []\<rparr>"

lemma interfere_quiet:
  "interfere \<lparr>ho_fs = fs, ho_clock = c, ho_steps = [], ho_past = past\<rparr> =
     \<lparr>ho_fs = fs, ho_clock = c + 1, ho_steps = [], ho_past = past @ [fs]\<rparr>"
  by (simp add: interfere_def)

lemmas demo_paths = Join_def Clean_def render_path_def clean_parts_def clean_step_def IsAbs_def hasPrefix_def

lemma demo_payload: "payloadPath demo_env ''/d'' demo_artifact = ''/d/staging/comfyui/m''"
  by (simp add: payloadPath_def stagingRoot_def stagingPartition_def Staging_def demo_artifact_def
      empty_source_def demo_paths)

lemma demo_root: "artifactRoot ''/d'' demo_artifact = ''/d/content/comfyui/models''"
  by (simp add: artifactRoot_def demo_artifact_def ComfyModels_def demo_paths)

lemma demo_dir: "Dir ''/d/content/comfyui/models/m'' = ''/d/content/comfyui/models''"
  by (simp add: Dir_def demo_paths)

lemma demo_components: "path_components ''/'' (clean_parts True ''/d/content/comfyui/models'') = demo_parents"
  by (simp add: demo_parents_def demo_paths)

lemma demo_managed:
  "managed_components ''/d'' ''/d/content/comfyui/models/m'' = demo_parents"
  by (simp add: managed_components_def Rel_def demo_dir demo_parents_def demo_paths)

lemma demo_validate:
  assumes "\<And>p. p \<in> set demo_parents \<Longrightarrow> entry_of fs p \<in> {entry.Missing, Directory}"
  shows "ValidateManagedParent ''/'' (entry_of fs) ''/d/content/comfyui/models/m'' ''/d/content/comfyui/models'' ''/d'' = None"
proof -
  have "check_components (entry_of fs) cs = None" if "set cs \<subseteq> set demo_parents" for cs
    using that
  proof (induction cs)
    case (Cons a cs)
    then show ?case using assms [of a] by auto
  qed simp
  then have "check_components (entry_of fs) (managed_components ''/d'' ''/d/content/comfyui/models/m'') = None"
    unfolding demo_managed by simp
  then show ?thesis
    by (simp add: ValidateManagedParent_def Let_def Abs_def within_def Rel_def demo_paths)
qed

lemma demo_looks:
  "staged_fs ''/d/staging/comfyui/m'' = Entry (demo_file 1 ''good'')"
  "made_fs ''/d/staging/comfyui/m'' = Entry (demo_file 1 ''good'')"
  "staged_fs ''/d/content/comfyui/models/m'' = NoEntry" "made_fs ''/d/content/comfyui/models/m'' = NoEntry"
  "published_fs ''/d/content/comfyui/models/m'' = Entry ((demo_file 1 ''good'')\<lparr>fl_ctime := 10\<rparr>)"
  by (simp_all add: staged_fs_def made_fs_def published_fs_def demo_parents_def)

lemma demo_parent_entries:
  "p \<in> set demo_parents \<Longrightarrow> entry_of staged_fs p = entry.Missing"
  "p \<in> set demo_parents \<Longrightarrow> entry_of made_fs p = Directory"
  by (auto simp: entry_of_def made_fs_def staged_fs_def demo_parents_def)

lemma demo_mkdir:
  "MkdirAll (Dir ''/d/content/comfyui/models/m'')
      \<lparr>ho_fs = staged_fs, ho_clock = 6, ho_steps = [], ho_past = past\<rparr> =
      (None, \<lparr>ho_fs = made_fs, ho_clock = 7, ho_steps = [], ho_past = past @ [staged_fs]\<rparr>)"
proof -
  have "\<not> list_ex (\<lambda>q. case staged_fs q of Entry f \<Rightarrow> fl_kind f \<noteq> KDirectory | _ \<Rightarrow> False) demo_parents"
    by (simp add: demo_parents_def staged_fs_def)
  then show ?thesis
    unfolding MkdirAll_def demo_dir demo_components Let_def interfere_quiet
    by (simp add: new_directory_def made_fs_def fun_eq_iff)
qed

lemma demo_rename:
  "Rename ''/d/staging/comfyui/m'' ''/d/content/comfyui/models/m''
      \<lparr>ho_fs = made_fs, ho_clock = 9, ho_steps = [], ho_past = past\<rparr> =
      (None, \<lparr>ho_fs = published_fs, ho_clock = 10, ho_steps = [], ho_past = past @ [made_fs]\<rparr>)"
  by (simp add: Rename_def Let_def interfere_quiet demo_looks published_fs_def)

lemma demo_place:
  "place_payload demo_env demo_store ''/d'' demo_artifact ''/d/staging/comfyui/m'' (demo_file 1 ''good'')
     \<lparr>ho_fs = staged_fs, ho_clock = 4, ho_steps = [], ho_past = replicate 4 staged_fs\<rparr> =
   (Inr (demo_store\<lparr>vs_Records := [(''content/comfyui/models/m'',
        signature ((demo_file 1 ''good'')\<lparr>fl_ctime := 10\<rparr>) ''good'')], vs_Changed := True\<rparr>),
    \<lparr>ho_fs = published_fs, ho_clock = 14, ho_steps = [],
     ho_past = replicate 7 staged_fs @ replicate 3 made_fs @ replicate 4 published_fs\<rparr>)"
proof -
  have v: "validateParent demo_env ''/d/content/comfyui/models/m'' ''/d/content/comfyui/models'' ''/d''
      \<lparr>ho_fs = fs, ho_clock = c, ho_steps = [], ho_past = past\<rparr> =
      (None, \<lparr>ho_fs = fs, ho_clock = c + 1, ho_steps = [], ho_past = past @ [fs]\<rparr>)"
    if "fs = staged_fs \<or> fs = made_fs" for fs c past
    using that demo_validate [of fs] demo_parent_entries
    by (auto simp: validateParent_def interfere_quiet demo_env_def)
  show ?thesis
    unfolding place_payload_def demo_path demo_root Let_def
    by (simp add: v demo_mkdir demo_rename lstat_def interfere_quiet demo_looks Store_Record_def demo_key demo_fields)
      (simp add: regular_def fl_size_def fileIdentity_def fileObject_def demo_file_def eval_nat_numeral)
qed

lemma demo_publish:
  "publishPayload demo_env demo_runner False demo_store ''/d'' demo_artifact staged_host =
   (Inr (demo_store\<lparr>vs_Records := [(''content/comfyui/models/m'',
        signature ((demo_file 1 ''good'')\<lparr>fl_ctime := 10\<rparr>) ''good'')], vs_Changed := True\<rparr>),
    \<lparr>ho_fs = published_fs, ho_clock = 14, ho_steps = [],
     ho_past = replicate 7 staged_fs @ replicate 3 made_fs @ replicate 4 published_fs\<rparr>)"
proof -
  have place: "place_payload demo_env demo_store ''/d'' demo_artifact ''/d/staging/comfyui/m'' (demo_file 1 ''good'')
     \<lparr>ho_fs = staged_fs, ho_clock = 4, ho_steps = [], ho_past = [staged_fs, staged_fs, staged_fs, staged_fs]\<rparr> =
     (Inr (demo_store\<lparr>vs_Records := [(''content/comfyui/models/m'',
        signature ((demo_file 1 ''good'')\<lparr>fl_ctime := 10\<rparr>) ''good'')], vs_Changed := True\<rparr>),
      \<lparr>ho_fs = published_fs, ho_clock = 14, ho_steps = [],
       ho_past = replicate 7 staged_fs @ replicate 3 made_fs @ replicate 4 published_fs\<rparr>)"
    using demo_place by (simp add: eval_nat_numeral)
  have label: "PrepareSharedContentLabel demo_runner CallerContext p h = (None, h)" for p h
    by (simp add: PrepareSharedContentLabel_def SELinuxVolumeSuffix_def demo_runner_def)
  have good: "regular (demo_file 1 ''good'')" "fl_size (demo_file 1 ''good'') = 4" "fl_bytes (demo_file 1 ''good'') = ''good''"
    "fl_kind (demo_file 1 ''good'') = KRegular"
    by (simp_all add: regular_def fl_size_def demo_file_def)
  show ?thesis
    unfolding publishPayload_def demo_payload Let_def
    by (simp add: stagedPayloadReady_def demo_payload label staged_host_def
        lstat_def interfere_quiet demo_looks good demo_fields fileSHA256Context_def read_entry_def open_entry_def Let_def place)
qed


definition shared_plan :: InstallPlan where
  "shared_plan = \<lparr>ip_Statuses = [\<lparr>as_Artifact = demo_artifact, as_Path = ''/d/content/comfyui/models/m'', as_State = Missing\<rparr>,
       \<lparr>as_Artifact = demo_artifact, as_Path = ''/d/content/comfyui/models/m'', as_State = Missing\<rparr>],
     ip_DownloadBytes = 4, ip_VerifyBytes = 0, ip_Ready = 0, ip_Risky = [demo_artifact, demo_artifact]\<rparr>"

lemma demo_receipt: "VerificationReceipt \<lparr>Root = ''/d''\<rparr> = ''/d/content/.paracetamol/verification.json''"
  by (simp add: VerificationReceipt_def StateNamespace_def demo_paths)

lemma demo_missing:
  "InspectArtifact demo_env store ''/d'' demo_artifact False
      \<lparr>ho_fs = staged_fs, ho_clock = c, ho_steps = [], ho_past = past\<rparr> =
    (Inr \<lparr>as_Artifact = demo_artifact, as_Path = ''/d/content/comfyui/models/m'', as_State = Missing\<rparr>, store,
     \<lparr>ho_fs = staged_fs, ho_clock = c + 1, ho_steps = [], ho_past = past @ [staged_fs]\<rparr>)"
  by (simp add: InspectArtifact_def inspectArtifact_def Let_def demo_path lstat_def interfere_quiet demo_looks)

lemma demo_shared:
  "downloadKey demo_artifact = ''m''" "downloadSize demo_artifact = 4" "li_Status (ar_License demo_artifact) = []"
  by (simp_all add: downloadKey_def downloadSize_def demo_artifact_def empty_source_def empty_license_def)

lemma demo_plan:
  "PlanContent demo_env (\<lambda>_. None) ''/d'' [demo_artifact, demo_artifact] staged_host =
    (Inr shared_plan, staged_host\<lparr>ho_clock := 3, ho_past := replicate 3 staged_fs\<rparr>)"
proof -
  have "staged_fs ''/d/content/.paracetamol/verification.json'' = NoEntry" by (simp add: staged_fs_def)
  then show ?thesis
    by (simp add: PlanContent_def LoadReceipts_def Let_def demo_receipt lstat_def staged_host_def interfere_quiet
        demo_missing plan_status_def empty_plan_def shared_plan_def demo_shared wrap64_def eval_nat_numeral)
qed

theorem plan_accounts_witness:
  "(map as_Artifact (ip_Statuses shared_plan) = [demo_artifact, demo_artifact] \<and>
    ip_Ready shared_plan = length (in_state Verified (ip_Statuses shared_plan)) \<and>
    ip_VerifyBytes shared_plan = wrap64 (sum_list (map ar_Size (in_state Unverified (ip_Statuses shared_plan)))) \<and>
    ip_DownloadBytes shared_plan =
      wrap64 (sum_list (map downloadSize (first_downloads [] (in_state Missing (ip_Statuses shared_plan))))) \<and>
    ip_Risky shared_plan =
      filter (\<lambda>a. li_Status (ar_License a) \<noteq> ''verified'') (in_state Missing (ip_Statuses shared_plan))) \<and>
    ip_DownloadBytes shared_plan = 4"
proof
  show "ip_DownloadBytes shared_plan = 4" by (simp add: shared_plan_def)
qed (use plan_accounts [OF demo_plan, of False] in \<open>simp only:\<close>)

end
