(* ===== verification/CatalogProps.thy ===== *)
theory CatalogProps
  imports Catalog
begin

text \<open>
  What a loaded catalog promises: entries are well formed and refer only to entries that exist, no
  two artifacts are placed at the same destination, a digest has one size so that a bundle's size
  counts every blob once, and the streaming load policy stays confined to the hardware it was
  accepted on.
\<close>

section \<open>Entries\<close>

lemma load_table_entry:
  "load_table f es = Inr rs \<Longrightarrow> (i, x) \<in> set rs \<Longrightarrow> \<exists>v. (i, v) \<in> set es \<and> f i v = Inr x"
proof (induction es arbitrary: rs)
  case (Cons e es)
  then show ?case by (cases e) (auto simp: load_table_def, blast+)
qed (simp add: load_table_def)

lemma unique_from_None: "unique_from field seen vs = None \<longleftrightarrow>
  list_all identifierPattern vs \<and> distinct vs \<and> set vs \<inter> set seen = {}"
  by (induction vs arbitrary: seen) (auto simp: validIdentifier_def split: option.splits if_splits)

definition wf_artifact :: "string \<Rightarrow> Artifact \<Rightarrow> bool" where
  "wf_artifact i a \<longleftrightarrow> ar_ID a = i \<and> identifierPattern i \<and> 0 < ar_Size a \<and> sha256Pattern (ar_SHA256 a) \<and>
     safeRelative (ar_Destination a) \<and> ar_Target a \<in> {''models'', ''llama-models'', ''workflows''} \<and>
     distinct (ar_Agreements a)"

definition wf_bundle :: "string \<Rightarrow> Bundle \<Rightarrow> bool" where
  "wf_bundle i b \<longleftrightarrow> bn_ID b = i \<and> identifierPattern i \<and> ByID (bn_Application b) \<noteq> None \<and>
     bn_Artifacts b \<noteq> [] \<and> distinct (bn_Artifacts b) \<and> ''all'' \<in> set (bn_Groups b) \<and> distinct (bn_Groups b)"

lemma loadArtifact_wf: "loadArtifact lib i v = Inr a \<Longrightarrow> wf_artifact i a"
  by (auto simp: loadArtifact_def wf_artifact_def validIdentifier_def uniqueIdentifiers_def unique_from_None
      Let_def split: if_splits)

lemma groups_from_None: "groups_from i seen gs = None \<Longrightarrow>
  distinct gs \<and> set gs \<inter> set seen = {} \<and> ''all'' \<in> set seen \<union> set gs"
  by (induction i seen gs rule: groups_from.induct) (auto split: if_splits)

lemma loadBundle_wf: "loadBundle i v = Inr b \<Longrightarrow> wf_bundle i b"
  by (auto simp: loadBundle_def wf_bundle_def validIdentifier_def uniqueIdentifiers_def unique_from_None
      dest: groups_from_None split: if_splits)

lemma expand_wf:
  assumes "expandArchiveCollection lib i v = Inr members" and "(m, a) \<in> set members"
  shows "wf_artifact m a"
proof -
  obtain raw where "load_table (\<lambda>memberID member. decoded i member (\<lambda>m.
      loadArtifact lib memberID (Some (member_artifact raw m)))) (rc_RawMembers raw) = Inr members"
    using assms(1) by (auto simp: expandArchiveCollection_def split: if_splits)
  from load_table_entry [OF this assms(2)] show ?thesis by (auto dest: loadArtifact_wf)
qed

lemma load_archives_wf:
  assumes "load_archives lib artifacts groups = Inr all"
    and "\<And>i a. (i, a) \<in> set artifacts \<Longrightarrow> wf_artifact i a" and "(i, a) \<in> set all"
  shows "wf_artifact i a"
  using assms
proof (induction groups arbitrary: artifacts)
  case (Cons g groups)
  obtain j v where g: "g = (j, v)" by (cases g)
  then obtain members where m: "expandArchiveCollection lib j v = Inr members"
    "load_archives lib (artifacts @ members) groups = Inr all"
    using Cons.prems(1) by (auto split: option.splits)
  show ?case
    by (rule Cons.IH [OF m(2) _ Cons.prems(3)]) (use Cons.prems(2) expand_wf [OF m(1)] in auto)
qed auto

section \<open>Loaded catalogs\<close>

lemma LoadCatalog_parts:
  assumes "LoadCatalog lib contents = Inr c"
  shows "\<exists>raw artifacts. contents = Some raw \<and>
    load_table (loadArtifact lib) (the (dc_Artifacts raw)) = Inr artifacts \<and>
    load_archives lib artifacts (the (dc_ArchiveGroups raw)) = Inr (ct_Artifacts c) \<and>
    load_table loadBundle (the (dc_Bundles raw)) = Inr (ct_Bundles c) \<and>
    load_table loadLlamaPreset (the (dc_LlamaPresets raw)) = Inr (ct_LlamaPresets c) \<and>
    validateRelationships c = None"
  using assms by (auto simp: LoadCatalog_def Let_def split: if_splits)

definition wf_catalog :: "Catalog \<Rightarrow> bool" where
  "wf_catalog c \<longleftrightarrow>
     (\<forall>(i, a) \<in> set (ct_Artifacts c). wf_artifact i a \<and> set (ar_Agreements a) \<subseteq> dom (lookup (ct_Agreements c))) \<and>
     (\<forall>(i, b) \<in> set (ct_Bundles c). wf_bundle i b \<and> set (bn_Artifacts b) \<subseteq> dom (lookup (ct_Artifacts c)) \<and>
        (bn_Workflow b \<noteq> [] \<longrightarrow> bn_Workflow b \<in> dom (lookup (ct_Workflows c)) \<and> i \<in> dom (lookup (ct_Benchmarks c)))) \<and>
     dom (lookup (ct_Benchmarks c)) \<subseteq> dom (lookup (ct_Bundles c)) \<and>
     (\<forall>(i, p) \<in> set (ct_LlamaPresets c). \<exists>b. lookup (ct_Bundles c) (lp_Bundle p) = Some b \<and>
        bn_Application b = ''llama-cpp'' \<and>
        (\<forall>m \<in> {lp_Artifact p, lp_DraftArtifact p, lp_MMProjArtifact p} - {[]}. model_artifact c b m) \<and>
        (lp_DraftArtifact p \<noteq> [] \<longrightarrow> lp_DraftArtifact p \<noteq> lp_Artifact p) \<and>
        (lp_MMProjArtifact p \<noteq> [] \<longrightarrow> lp_MMProjArtifact p \<notin> {lp_Artifact p, lp_DraftArtifact p}) \<and>
        (lp_SamplingPolicy p \<noteq> [] \<longrightarrow> lp_SamplingPolicy p \<in> dom (lookup (ct_SamplingPolicies c))))"

lemma check_artifacts_agreements:
  "check_artifacts agreements destinations blobs as = None \<Longrightarrow> (i, a) \<in> set as \<Longrightarrow>
   set (ar_Agreements a) \<subseteq> dom (lookup agreements)"
proof (induction as arbitrary: destinations blobs)
  case (Cons e as)
  then show ?case
    by (cases e) (auto simp: Let_def list_ex_iff dom_def split: if_splits)
qed simp

lemma check_preset_None:
  assumes "check_preset c (i, p) = None"
  shows "\<exists>b. lookup (ct_Bundles c) (lp_Bundle p) = Some b \<and> bn_Application b = ''llama-cpp'' \<and>
        (\<forall>m \<in> {lp_Artifact p, lp_DraftArtifact p, lp_MMProjArtifact p} - {[]}. model_artifact c b m) \<and>
        (lp_DraftArtifact p \<noteq> [] \<longrightarrow> lp_DraftArtifact p \<noteq> lp_Artifact p) \<and>
        (lp_MMProjArtifact p \<noteq> [] \<longrightarrow> lp_MMProjArtifact p \<notin> {lp_Artifact p, lp_DraftArtifact p}) \<and>
        (lp_SamplingPolicy p \<noteq> [] \<longrightarrow> lp_SamplingPolicy p \<in> dom (lookup (ct_SamplingPolicies c)))"
  using assms by (auto simp: check_preset_def split: option.splits if_splits)

lemma relationships_parts:
  assumes "validateRelationships c = None"
  shows "check_artifacts (ct_Agreements c) [] [] (ct_Artifacts c) = None"
    and "\<And>i b. (i, b) \<in> set (ct_Bundles c) \<Longrightarrow> check_bundle c (i, b) = None"
    and "\<And>i b. (i, b) \<in> set (ct_Benchmarks c) \<Longrightarrow> lookup (ct_Bundles c) i \<noteq> None"
    and "\<And>i b. (i, b) \<in> set (ct_Bundles c) \<Longrightarrow> bn_Workflow b \<noteq> [] \<Longrightarrow> lookup (ct_Benchmarks c) i \<noteq> None"
    and "\<And>i p. (i, p) \<in> set (ct_LlamaPresets c) \<Longrightarrow> check_preset c (i, p) = None"
  using assms unfolding validateRelationships_def check_all_None_iff by (fastforce split: if_splits)+

text \<open>
  C14: A catalog that loads is well formed: every artifact has its own id, a positive size, a digest,
  a safe destination and a known target; every bundle names a known application and existing,
  distinct artifacts, and a bundle with a workflow has that workflow and a benchmark; benchmarks
  belong to bundles; every preset uses a llama.cpp bundle, distinct model files of that bundle and
  an existing sampling policy.
\<close>

theorem catalog_well_formed:
  assumes "LoadCatalog lib contents = Inr c"
  shows "wf_catalog c"
proof -
  obtain raw :: document and artifacts where parts:
    "load_table (loadArtifact lib) (the (dc_Artifacts raw)) = Inr artifacts"
    "load_archives lib artifacts (the (dc_ArchiveGroups raw)) = Inr (ct_Artifacts c)"
    "load_table loadBundle (the (dc_Bundles raw)) = Inr (ct_Bundles c)" "validateRelationships c = None"
    using LoadCatalog_parts [OF assms] by blast
  note rel = relationships_parts [OF parts(4)]
  have "\<forall>(i, a) \<in> set (ct_Artifacts c). wf_artifact i a \<and> set (ar_Agreements a) \<subseteq> dom (lookup (ct_Agreements c))"
  proof clarify
    fix i a assume ia: "(i, a) \<in> set (ct_Artifacts c)"
    have "wf_artifact i a"
      by (rule load_archives_wf [OF parts(2) _ ia])
        (use load_table_entry [OF parts(1)] loadArtifact_wf in blast)
    then show "wf_artifact i a \<and> set (ar_Agreements a) \<subseteq> dom (lookup (ct_Agreements c))"
      using check_artifacts_agreements [OF rel(1) ia] by simp
  qed
  moreover have "\<forall>(i, b) \<in> set (ct_Bundles c). wf_bundle i b \<and> set (bn_Artifacts b) \<subseteq> dom (lookup (ct_Artifacts c)) \<and>
      (bn_Workflow b \<noteq> [] \<longrightarrow> bn_Workflow b \<in> dom (lookup (ct_Workflows c)) \<and> i \<in> dom (lookup (ct_Benchmarks c)))"
  proof clarify
    fix i b assume ib: "(i, b) \<in> set (ct_Bundles c)"
    have "wf_bundle i b" using load_table_entry [OF parts(3) ib] loadBundle_wf by blast
    with rel(2,4) [OF ib] show "wf_bundle i b \<and> set (bn_Artifacts b) \<subseteq> dom (lookup (ct_Artifacts c)) \<and>
      (bn_Workflow b \<noteq> [] \<longrightarrow> bn_Workflow b \<in> dom (lookup (ct_Workflows c)) \<and> i \<in> dom (lookup (ct_Benchmarks c)))"
      by (auto simp: check_bundle_def list_ex_iff dom_def split: if_splits)
  qed
  moreover have "dom (lookup (ct_Benchmarks c)) \<subseteq> dom (lookup (ct_Bundles c))"
    using rel(3) map_of_SomeD by fastforce
  moreover note check_preset_None [OF rel(5)]
  ultimately show ?thesis unfolding wf_catalog_def by blast
qed

section \<open>Destinations and sizes\<close>

lemma distinct_map_weaken:
  assumes "distinct (map f xs)" and "\<And>x y. g x = g y \<Longrightarrow> f x = f y"
  shows "distinct (map g xs)"
  using assms unfolding distinct_map inj_on_def by blast

definition placement :: "Artifact \<Rightarrow> string" where
  "placement a = ar_Target a @ [CHR 0x00] @ ar_Destination a"

lemma check_artifacts_step:
  assumes "check_artifacts agreements destinations blobs ((i, a) # as) = None"
  shows "lookup destinations (placement a) = None" "\<And>n. lookup blobs (ar_SHA256 a) = Some n \<Longrightarrow> n = ar_Size a"
    "check_artifacts agreements (upsert (placement a) i destinations)
       (upsert (ar_SHA256 a) (ar_Size a) blobs) as = None"
  using assms by (auto simp: Let_def placement_def split: if_splits option.splits)

lemma check_artifacts_unique:
  "check_artifacts agreements destinations blobs as = None \<Longrightarrow>
   distinct (map (placement \<circ> snd) as) \<and> (placement \<circ> snd) ` set as \<inter> dom (lookup destinations) = {}"
proof (induction as arbitrary: destinations blobs)
  case (Cons e as)
  obtain i a where e: "e = (i, a)" by (cases e)
  note step = check_artifacts_step [OF Cons.prems [unfolded e]]
  show ?case using Cons.IH [OF step(3)] step(1) by (auto simp: e dom_def)
qed simp

lemma check_artifacts_sizes:
  "check_artifacts agreements destinations blobs as = None \<Longrightarrow>
   \<exists>size_of. (\<forall>(i, a) \<in> set as. size_of (ar_SHA256 a) = ar_Size a) \<and>
     (\<forall>k n. lookup blobs k = Some n \<longrightarrow> size_of k = n)"
proof (induction as arbitrary: destinations blobs)
  case Nil
  then show ?case by (auto intro: exI [of _ "\<lambda>k. the (lookup blobs k)"])
next
  case (Cons e as)
  obtain i a where e: "e = (i, a)" by (cases e)
  note step = check_artifacts_step [OF Cons.prems [unfolded e]]
  obtain size_of where s: "\<forall>(i, a) \<in> set as. size_of (ar_SHA256 a) = ar_Size a"
      "\<forall>k n. lookup (upsert (ar_SHA256 a) (ar_Size a) blobs) k = Some n \<longrightarrow> size_of k = n"
    using Cons.IH [OF step(3)] by blast
  have "size_of (ar_SHA256 a) = ar_Size a" using s(2) by simp
  moreover have "size_of k = n" if "lookup blobs k = Some n" for k n
    using s(2) step(2) that by (cases "k = ar_SHA256 a") auto
  ultimately show ?case using s(1) by (auto simp: e intro!: exI [of _ size_of])
qed

lemma foldl_wrap: "foldl (\<lambda>total sz. wrap64 (total + sz)) (wrap64 n) xs = wrap64 (n + sum_list xs)"
proof (induction xs arbitrary: n)
  case (Cons x xs)
  have "wrap64 (wrap64 n + x) = wrap64 (n + x)"
    unfolding wrap64_def by (simp add: mod_simps algebra_simps)
  with Cons [of "n + x"] show ?case by (simp add: algebra_simps)
qed simp

lemma fold_upsert_keys:
  "wf_map m \<Longrightarrow> (\<And>k v. (k, v) \<in> set m \<Longrightarrow> v = size_of k) \<Longrightarrow> (\<And>i. i \<in> set is \<Longrightarrow> g i = size_of (f i)) \<Longrightarrow>
   let r = foldl (\<lambda>m i. upsert (f i) (g i) m) m is in
     wf_map r \<and> fst ` set r = fst ` set m \<union> f ` set is \<and> (\<forall>(k, v) \<in> set r. v = size_of k)"
proof (induction "is" arbitrary: m)
  case (Cons i "is")
  have "v = size_of k" if "(k, v) \<in> set (upsert (f i) (g i) m)" for k v
    using that Cons.prems(2,3) by (induction m) (auto split: if_splits)
  with Cons.prems Cons.IH [of "upsert (f i) (g i) m"] show ?case
    by (auto simp: Let_def)
qed auto

lemma sum_list_table:
  "wf_map r \<Longrightarrow> (\<And>k v. (k, v) \<in> set r \<Longrightarrow> v = size_of k) \<Longrightarrow> sum_list (map snd r) = (\<Sum>k\<in>fst ` set r. size_of k)"
proof (induction r)
  case (Cons e r)
  have "sum_list (map snd r) = (\<Sum>k\<in>fst ` set r. size_of k)" "fst e \<notin> fst ` set r"
    using Cons by (auto simp: wf_map_def)
  then show ?case using Cons.prems(2) [of "fst e" "snd e"] by simp
qed simp

lemma BundleSize_sum:
  assumes "\<And>i. i \<in> set (bn_Artifacts b) \<Longrightarrow> snd (artifact_at c i) = size_of (fst (artifact_at c i))"
  shows "BundleSize c b = wrap64 (\<Sum>k\<in>(fst \<circ> artifact_at c) ` set (bn_Artifacts b). size_of k)"
proof -
  define r where "r = foldl (\<lambda>m i. upsert (fst (artifact_at c i)) (snd (artifact_at c i)) m) [] (bn_Artifacts b)"
  have r: "wf_map r" "fst ` set r = (fst \<circ> artifact_at c) ` set (bn_Artifacts b)" "\<forall>(k, v) \<in> set r. v = size_of k"
    using fold_upsert_keys [of "[]" size_of "bn_Artifacts b" "snd \<circ> artifact_at c" "fst \<circ> artifact_at c"] assms
    by (auto simp: r_def Let_def wf_map_def)
  have "wrap64 0 = 0" by (simp add: wrap64_def)
  then have "BundleSize c b = wrap64 (sum_list (map snd r))"
    using foldl_wrap [of 0 "map snd r"] by (simp add: BundleSize_def r_def Let_def)
  with r sum_list_table [OF r(1)] show ?thesis by fastforce
qed

text \<open>
  C15: In a catalog that loads no two artifacts have the same target and destination, so installing
  one never overwrites another, and equal digests have equal sizes: the size of a bundle is the sum
  over its distinct digests (as a 64-bit number), whatever order the maps are iterated in.
\<close>

theorem catalog_placements:
  assumes "LoadCatalog lib contents = Inr c"
  shows "distinct (map (\<lambda>(i, a). (ar_Target a, ar_Destination a)) (ct_Artifacts c)) \<and>
    (\<exists>size_of. (\<forall>(i, a) \<in> set (ct_Artifacts c). size_of (ar_SHA256 a) = ar_Size a) \<and>
       (\<forall>(j, b) \<in> set (ct_Bundles c).
          BundleSize c b = wrap64 (\<Sum>k\<in>(fst \<circ> artifact_at c) ` set (bn_Artifacts b). size_of k)))"
proof -
  have rel: "check_artifacts (ct_Agreements c) [] [] (ct_Artifacts c) = None"
    "\<And>i b. (i, b) \<in> set (ct_Bundles c) \<Longrightarrow> check_bundle c (i, b) = None"
    using LoadCatalog_parts [OF assms] relationships_parts [of c] by auto
  have "distinct (map (placement \<circ> snd) (ct_Artifacts c))"
    using check_artifacts_unique [OF rel(1)] by simp
  then have "distinct (map (\<lambda>(i, a). (ar_Target a, ar_Destination a)) (ct_Artifacts c))"
    by (rule distinct_map_weaken) (auto simp: placement_def)
  moreover obtain size_of where s: "\<forall>(i, a) \<in> set (ct_Artifacts c). size_of (ar_SHA256 a) = ar_Size a"
    using check_artifacts_sizes [OF rel(1)] by blast
  moreover have "BundleSize c b = wrap64 (\<Sum>k\<in>(fst \<circ> artifact_at c) ` set (bn_Artifacts b). size_of k)"
    if jb: "(j, b) \<in> set (ct_Bundles c)" for j b
  proof (rule BundleSize_sum)
    fix i assume "i \<in> set (bn_Artifacts b)"
    then obtain a where "lookup (ct_Artifacts c) i = Some a"
      using rel(2) [OF jb] by (auto simp: check_bundle_def list_ex_iff split: if_splits)
    moreover from this have "(i, a) \<in> set (ct_Artifacts c)" by (rule map_of_SomeD)
    ultimately show "snd (artifact_at c i) = size_of (fst (artifact_at c i))"
      using s by (auto simp: artifact_at_def)
  qed
  ultimately show ?thesis by blast
qed

section \<open>The streaming load policy\<close>

lemma preset_checks_None:
  "check_all (\<lambda>e. e) (preset_checks i raw) = None \<Longrightarrow> entry \<in> set (lp_ModelLoad (rp_Preset raw)) \<Longrightarrow>
   check_model_load i (rp_Preset raw) entry = None"
  unfolding preset_checks_def check_all_None_iff Let_def by simp

lemma check_model_load_update:
  "check_model_load i (p\<lparr>lp_ID := x, lp_ReasoningDefault := y\<rparr>) e = check_model_load i p e"
  by (cases e) (simp add: check_model_load_def cong: if_cong)

text \<open>
  A preset that streams its token embedding has been accepted for ROCm on Strix Halo only:
  it is a Strix Halo policy with flash attention and an F16 cache, ROCm is refused on every other
  profile, and when it speculates it runs on no other backend and always with three draft tokens.
\<close>

theorem streaming_confined:
  assumes "loadLlamaPreset i v = Inr p"
    and "(profile, LlamaModelLoadStreamTokenEmbedding) \<in> set (lp_ModelLoad p)"
  shows "profile = ''strix-halo'' \<and> map_string (lp_FlashAttention p) profile = ''on'' \<and>
    map_string (lp_KVCache p) profile = ''f16'' \<and>
    (SupportsRuntime p ''rocm'' q \<longrightarrow> q = ''strix-halo'') \<and>
    (lp_SpeculativeType p \<noteq> [] \<longrightarrow>
       RuntimeBackends p ''strix-halo'' = [''rocm''] \<and> DraftTokensForBackend p ''rocm'' = 3)"
proof -
  obtain raw where raw: "check_all (\<lambda>e. e) (preset_checks i raw) = None"
    "p = (rp_Preset raw)\<lparr>lp_ID := i, lp_ReasoningDefault := effective_default raw\<rparr>"
    using assms(1) by (auto simp: loadLlamaPreset_def)
  have "check_model_load i (rp_Preset raw) (profile, LlamaModelLoadStreamTokenEmbedding) = None"
    by (rule preset_checks_None [OF raw(1)]) (use assms(2) raw(2) in simp)
  then have "check_model_load i p (profile, LlamaModelLoadStreamTokenEmbedding) = None"
    unfolding raw(2) check_model_load_update .
  then show ?thesis
    by (auto simp: check_model_load_def SupportsRuntime_def SupportsBackend_def RuntimeBackends_def
        DraftTokensForBackend_def split: if_splits option.splits)
qed

section \<open>A small catalog\<close>

text \<open>One model, one bundle and one streaming preset, on a URL library that knows one HTTPS site.\<close>

definition sample_urls :: url_library where
  "sample_urls = \<lparr>url_Parse = \<lambda>_. Some \<lparr>url_Opaque = [], url_Scheme = ''https'', url_Hostname = ''h'',
     url_Host = ''h'', url_User = False, url_RawQuery = [], url_ForceQuery = False, url_Fragment = [],
     url_Port = [], url_EscapedPath = [], url_Path = []\<rparr>, url_render = \<lambda>_ s. s\<rparr>"

definition sample_artifact :: rawArtifact where
  "sample_artifact = \<lparr>rw_Description = ''d'',
     rw_Source = \<lparr>rs_Provider = [], rs_Repository = ''r'', rs_Revision = replicate 40 (CHR ''a''),
       rs_Path = ''m.gguf'', rs_ModelID = 0, rs_ModelVersionID = 0, rs_RequiresAuth = False, rs_Host = [],
       rs_DownloadURL = [], rs_Filename = [], rs_Archive = None\<rparr>,
     rw_Destination = ''m.GGUF'', rw_Size = 7, rw_SHA256 = replicate 64 (CHR ''b''),
     rw_License = \<lparr>li_SPDX = ''MIT'', li_Status = ''verified'', li_URL = ''u'', li_Warning = [],
       li_UpstreamRepository = [], li_UpstreamLicense = [], li_UpstreamLicenseURL = []\<rparr>,
     rw_Agreements = [], rw_Target = ''llama-models''\<rparr>"

definition sample_preset :: rawLlamaPreset where
  "sample_preset = \<lparr>rp_Preset = \<lparr>lp_ID = [], lp_Bundle = ''b'', lp_Artifact = ''m'', lp_Backends = [''rocm''],
     lp_BackendProfiles = [(''rocm'', [''strix-halo''])], lp_DefaultContext = 4096, lp_SpeculativeType = [],
     lp_DraftTokens = 0, lp_DraftTokensByBackend = [], lp_DraftArtifact = [], lp_MMProjArtifact = [],
     lp_ContextOverrideArchitectures = [], lp_Jinja = True, lp_AgentTools = True, lp_ReasoningControl = [],
     lp_ReasoningLevels = [], lp_ReasoningDefault = [], lp_ReasoningOff = False,
     lp_ReasoningPreserve = False, lp_ChatTemplate = [], lp_SamplingPolicy = [],
     lp_FlashAttention = [(''strix-halo'', ''on'')], lp_KVCache = [(''strix-halo'', ''f16'')],
     lp_ModelLoad = [(''strix-halo'', LlamaModelLoadStreamTokenEmbedding)]\<rparr>, rp_ReasoningDefault = None\<rparr>"

definition sample_document :: document where
  "sample_document = \<lparr>dc_SchemaVersion = 31, dc_Agreements = Some [],
     dc_Artifacts = Some [(''m'', Some sample_artifact)], dc_ArchiveGroups = Some [],
     dc_Bundles = Some [(''b'', Some \<lparr>rb_Description = ''d'', rb_Application = ''llama-cpp'',
       rb_Artifacts = [''m''], rb_Workflow = [], rb_Groups = [''all'', ''llama'']\<rparr>)],
     dc_Workflows = Some [], dc_Benchmarks = Some [], dc_SamplingPolicies = Some [],
     dc_LlamaPresets = Some [(''p'', Some sample_preset)]\<rparr>"

lemma sample_loads: "is_ok (LoadCatalog sample_urls (Some sample_document))"
  by code_simp

lemma sample_preset_loads: "is_ok (loadLlamaPreset ''p'' (Some sample_preset))"
  by code_simp

theorem catalog_well_formed_witness:
  "case LoadCatalog sample_urls (Some sample_document) of Inl _ \<Rightarrow> False | Inr c \<Rightarrow> wf_catalog c"
  using sample_loads catalog_well_formed by (cases "LoadCatalog sample_urls (Some sample_document)") auto

theorem catalog_placements_witness:
  "case LoadCatalog sample_urls (Some sample_document) of
     Inl _ \<Rightarrow> False
   | Inr c \<Rightarrow> distinct (map (\<lambda>(i, a). (ar_Target a, ar_Destination a)) (ct_Artifacts c))"
  using sample_loads catalog_placements by (cases "LoadCatalog sample_urls (Some sample_document)") auto

lemma sample_preset_streams:
  "case loadLlamaPreset ''p'' (Some sample_preset) of
     Inl _ \<Rightarrow> False
   | Inr p \<Rightarrow> (''strix-halo'', LlamaModelLoadStreamTokenEmbedding) \<in> set (lp_ModelLoad p)"
  by code_simp

theorem streaming_confined_witness:
  "case loadLlamaPreset ''p'' (Some sample_preset) of
     Inl _ \<Rightarrow> False
   | Inr p \<Rightarrow> map_string (lp_KVCache p) ''strix-halo'' = ''f16'' \<and> \<not> SupportsRuntime p ''rocm'' ''rdna4''"
proof (cases "loadLlamaPreset ''p'' (Some sample_preset)")
  case (Inr p)
  with sample_preset_streams have "(''strix-halo'', LlamaModelLoadStreamTokenEmbedding) \<in> set (lp_ModelLoad p)"
    by simp
  from streaming_confined [OF Inr this] Inr show ?thesis by auto
qed (use sample_preset_streams in simp)

end
