(* ===== verification/Inventory.thy ===== *)
theory Inventory
  imports TextModel Content Platform CatalogProps "HOL-Library.Multiset"
begin

text \<open>
  What the gateway and the llama.cpp router serve: the frozen registry of verified models
  (\<^verbatim>\<open>internal/gateway/registry.go\<close>) and the router's preset file (\<^verbatim>\<open>internal/runtime/router.go\<close>). Both read the
  catalog, the receipts and the files below the data directory. Writing the preset file is left out.
\<close>

section \<open>The registry\<close>

fun check_applications :: "string list \<Rightarrow> string list \<Rightarrow> gerror option" where
  "check_applications seen [] = None"
| "check_applications seen (a # as) =
     (if a \<noteq> BackendLlamaCPP then Some (ErrorText (''gateway does not support application '' @ quoted a))
      else if a \<in> set seen then Some (ErrorText (''gateway application '' @ quoted a @ '' was selected more than once''))
      else check_applications (a # seen) as)"

definition empty_policy :: SamplingPolicy where
  "empty_policy = \<lparr>sm_ID = [], sm_Thinking = [], sm_NonThinking = []\<rparr>"

definition registry_model :: "text_model \<Rightarrow> SamplingPolicy \<Rightarrow> Model" where
  "registry_model c policy =
     \<lparr>mo_ID = tm_ID c, mo_Application = tm_Backend c, mo_Context = tm_Context c, mo_MaxOutputTokens = tm_MaxOutputTokens c,
      mo_AgentTools = tm_AgentTools c, mo_Vision = tm_Vision c, mo_ReasoningControl = tm_ReasoningControl c,
      mo_ReasoningLevels = tm_ReasoningLevels c, mo_ReasoningDefault = tm_ReasoningDefault c,
      mo_ReasoningOff = tm_ReasoningOff c, mo_SamplingPolicy = tm_SamplingPolicy c, mo_Backend = tm_Backend c,
      mo_Bundle = tm_Bundle c, mo_samplingDefaults = policy\<rparr>"

definition unavailable :: "ArtifactStatus list \<Rightarrow> string list" where
  "unavailable statuses =
     map (\<lambda>s. ar_ID (as_Artifact s) @ ''='' @ state_name (as_State s)) (filter (\<lambda>s. \<not> Ready (as_State s)) statuses)"

definition all_ready :: "ArtifactStatus list \<Rightarrow> bool" where
  "all_ready statuses \<longleftrightarrow> statuses \<noteq> [] \<and> list_all (\<lambda>s. Ready (as_State s)) statuses"

definition model_policy :: "Catalog \<Rightarrow> text_model \<Rightarrow> gerror + SamplingPolicy" where
  "model_policy managed c =
     (if tm_SamplingPolicy c = [] then Inr empty_policy
      else case lookup (ct_SamplingPolicies managed) (tm_SamplingPolicy c) of
        None \<Rightarrow> Inl (ErrorText (''text model '' @ tm_ID c @ '' references unknown sampling policy '' @ tm_SamplingPolicy c))
      | Some policy \<Rightarrow> Inr \<lparr>sm_ID = sm_ID policy, sm_Thinking = Defaults policy True, sm_NonThinking = Defaults policy False\<rparr>)"

text \<open>\<open>ready\<close> lists the application of every ready model; \<open>n\<close> of an application is its count.\<close>

record registry_state =
  rx_models :: "Model list"
  rx_byID :: "Model table"
  rx_diagnostics :: "Diagnostic list"
  rx_ready :: "string list"

definition diagnose :: "string \<Rightarrow> string \<Rightarrow> string \<Rightarrow> registry_state \<Rightarrow> registry_state" where
  "diagnose application model reason st =
     st\<lparr>rx_diagnostics := rx_diagnostics st @ [\<lparr>dg_Application = application, dg_Model = model, dg_Reason = reason\<rparr>]\<rparr>"

definition add_model :: "Model \<Rightarrow> registry_state \<Rightarrow> gerror + registry_state" where
  "add_model m st =
     (if lookup (rx_byID st) (mo_ID m) \<noteq> None
      then Inl (ErrorText (''gateway model identifier '' @ quoted (mo_ID m) @ '' is ambiguous''))
      else Inr (st\<lparr>rx_byID := upsert (mo_ID m) m (rx_byID st), rx_models := rx_models st @ [m],
                   rx_ready := rx_ready st @ [mo_Application m]\<rparr>))"

definition unsupported_reason :: "string \<Rightarrow> string \<Rightarrow> string" where
  "unsupported_reason backend profile = ''does not support llama.cpp backend '' @ backend @ '' on profile '' @ profile"

definition register ::
  "content_env \<Rightarrow> Catalog \<Rightarrow> string \<Rightarrow> string list \<Rightarrow> string \<Rightarrow> string \<Rightarrow> Store option \<Rightarrow> text_model \<Rightarrow> host
     \<Rightarrow> registry_state \<Rightarrow> (gerror + registry_state) \<times> Store option \<times> host" where
  "register ce managed dataRoot selected modelProfile backend store c h st =
     (if tm_Backend c \<notin> set selected then (Inr st, store, h)
      else if tm_Backend c = BackendLlamaCPP \<and>
        \<not> SupportsRuntime (the (lookup (ct_LlamaPresets managed) (tm_ID c))) backend modelProfile
      then (Inr (diagnose (tm_Backend c) (tm_ID c) (unsupported_reason backend modelProfile) st), store, h)
      else case lookup (ct_Bundles managed) (tm_Bundle c) of
        None \<Rightarrow> (Inl (ErrorText (''text model '' @ tm_ID c @ '' references unknown bundle '' @ tm_Bundle c)), store, h)
      | Some bundle \<Rightarrow>
          (case InspectBundle ce store managed bundle dataRoot False h of
             (Inl e, store1, h1) \<Rightarrow> (Inl e, store1, h1)
           | (Inr statuses, store1, h1) \<Rightarrow>
               (if \<not> all_ready statuses
                then (Inr (diagnose (tm_Backend c) (tm_ID c) (join_with '', '' (unavailable statuses)) st), store1, h1)
                else (case model_policy managed c of
                  Inl e \<Rightarrow> (Inl e, store1, h1)
                | Inr policy \<Rightarrow> (add_model (registry_model c policy) st, store1, h1)))))"

fun register_all ::
  "content_env \<Rightarrow> Catalog \<Rightarrow> string \<Rightarrow> string list \<Rightarrow> string \<Rightarrow> string \<Rightarrow> Store option \<Rightarrow> text_model list \<Rightarrow> host
     \<Rightarrow> registry_state \<Rightarrow> (gerror + registry_state) \<times> host" where
  "register_all ce managed dataRoot selected modelProfile backend store [] h st = (Inr st, h)"
| "register_all ce managed dataRoot selected modelProfile backend store (c # cs) h st =
     (case register ce managed dataRoot selected modelProfile backend store c h st of
        (Inl e, _, h1) \<Rightarrow> (Inl e, h1)
      | (Inr st1, store1, h1) \<Rightarrow> register_all ce managed dataRoot selected modelProfile backend store1 cs h1 st1)"

text \<open>The text that the fingerprint hashes; \<open>encode\<close> stands for \<^verbatim>\<open>json.Marshal\<close> of a sampling policy.\<close>

definition go_bool :: "bool \<Rightarrow> string" where
  "go_bool b = (if b then ''true'' else ''false'')"

definition zero_end :: "string list \<Rightarrow> string" where
  "zero_end fs = concat (map (\<lambda>f. f @ [CHR 0x00]) fs)"

definition model_text :: "(SamplingPolicy \<Rightarrow> string option) \<Rightarrow> Catalog \<Rightarrow> Model \<Rightarrow> gerror + string" where
  "model_text encode managed m =
     (case encode (mo_samplingDefaults m) of
        None \<Rightarrow> Inl (ErrorText (''encode sampling policy for '' @ mo_ID m))
      | Some encoded \<Rightarrow>
          Inr (zero_end [mo_ID m, mo_Application m, mo_Bundle m, format_int (mo_Context m), format_int (mo_MaxOutputTokens m),
                 go_bool (mo_AgentTools m), go_bool (mo_Vision m), mo_ReasoningControl m,
                 join_with [CHR 0x1F] (mo_ReasoningLevels m), mo_ReasoningDefault m, go_bool (mo_ReasoningOff m),
                 mo_SamplingPolicy m, encoded]
               @ concat (map (\<lambda>i. let a = artifact_of managed i in zero_end [ar_ID a, format_int (ar_Size a), ar_SHA256 a])
                   (case lookup (ct_Bundles managed) (mo_Bundle m) of Some b \<Rightarrow> bn_Artifacts b | None \<Rightarrow> []))))"

fun models_text :: "(SamplingPolicy \<Rightarrow> string option) \<Rightarrow> Catalog \<Rightarrow> Model list \<Rightarrow> gerror + string" where
  "models_text encode managed [] = Inr []"
| "models_text encode managed (m # ms) =
     bind_res (model_text encode managed m) (\<lambda>t. bind_res (models_text encode managed ms) (\<lambda>u. Inr (t @ u)))"

record inventory_env =
  iv_content :: content_env
  iv_decode :: "string \<Rightarrow> (int \<times> Record table option) option"
  iv_encode :: "SamplingPolicy \<Rightarrow> string option"
  iv_entries :: "string list option"
  iv_properties :: "string \<Rightarrow> string option"

definition buildRegistry ::
  "inventory_env \<Rightarrow> Catalog \<Rightarrow> string \<Rightarrow> string list \<Rightarrow> string \<Rightarrow> string list \<Rightarrow> string \<Rightarrow> host
     \<Rightarrow> (gerror + Registry \<times> Diagnostic list \<times> string list) \<times> host" where
  "buildRegistry iv managed dataRoot applications profile renderNodes backend h =
     (let modelProfile = ModelProfile (iv_entries iv) (iv_properties iv) profile renderNodes; ce = iv_content iv in
      case check_applications [] applications of
        Some e \<Rightarrow> (Inl e, h)
      | None \<Rightarrow>
          (if applications = [] then (Inl (ErrorText ''gateway requires at least one application''), h)
           else case LoadReceipts ce (iv_decode iv) dataRoot h of
             (Inl e, h1) \<Rightarrow> (Inl e, h1)
           | (Inr store, h1) \<Rightarrow>
               (case register_all ce managed dataRoot applications modelProfile backend (Some store) (All managed) h1
                       \<lparr>rx_models = [], rx_byID = [], rx_diagnostics = [], rx_ready = []\<rparr> of
                  (Inl e, h2) \<Rightarrow> (Inl e, h2)
                | (Inr st, h2) \<Rightarrow>
                    (let ms = sort_key mo_ID (rx_models st) in
                     case models_text (iv_encode iv) managed ms of
                       Inl e \<Rightarrow> (Inl e, h2)
                     | Inr t \<Rightarrow> (Inr (\<lparr>rg_Models = ms, rg_Fingerprint = ce_sha256 ce t, rg_byID = rx_byID st\<rparr>,
                          rx_diagnostics st, rx_ready st), h2)))))"

definition BuildRegistry ::
  "inventory_env \<Rightarrow> Catalog \<Rightarrow> string \<Rightarrow> string list \<Rightarrow> string \<Rightarrow> string list \<Rightarrow> string \<Rightarrow> host
     \<Rightarrow> (gerror \<times> Diagnostic list + Registry \<times> Diagnostic list) \<times> host" where
  "BuildRegistry iv managed dataRoot applications profile renderNodes backend h =
     (case buildRegistry iv managed dataRoot applications profile renderNodes backend h of
        (Inl e, h1) \<Rightarrow> (Inl (e, []), h1)
      | (Inr (registry, diagnostics, ready), h1) \<Rightarrow>
          (case find (\<lambda>a. a \<notin> set ready) applications of
             Some a \<Rightarrow> (Inl (ErrorText (''selected gateway application '' @ a @ '' has no verified schedulable model''), diagnostics), h1)
           | None \<Rightarrow> (Inr (registry, diagnostics), h1)))"

definition DiscoverRegistry ::
  "inventory_env \<Rightarrow> Catalog \<Rightarrow> string \<Rightarrow> string list \<Rightarrow> string \<Rightarrow> string list \<Rightarrow> string \<Rightarrow> host
     \<Rightarrow> (gerror \<times> Diagnostic list + Registry \<times> string list \<times> Diagnostic list) \<times> host" where
  "DiscoverRegistry iv managed dataRoot candidates profile renderNodes backend h =
     (case buildRegistry iv managed dataRoot candidates profile renderNodes backend h of
        (Inl e, h1) \<Rightarrow> (Inl (e, []), h1)
      | (Inr (registry, diagnostics, ready), h1) \<Rightarrow>
          (let applications = filter (\<lambda>a. a \<in> set ready) candidates in
           if applications = [] then (Inl (ErrorText ''no built gateway application has a verified schedulable model'', diagnostics), h1)
           else (Inr (registry, applications, filter (\<lambda>d. dg_Application d \<in> set ready) diagnostics), h1)))"

section \<open>The router's presets\<close>

record target_scan =
  tg_allMissing :: bool
  tg_ready :: bool
  tg_draftMissing :: bool
  tg_projectorReady :: bool
  tg_targetFound :: bool
  tg_targetsMissing :: bool
  tg_targetsReady :: bool

definition separate_draft :: "LlamaPreset \<Rightarrow> bool" where
  "separate_draft preset \<longleftrightarrow> lp_DraftArtifact preset \<noteq> [] \<and> lp_DraftArtifact preset \<noteq> lp_Artifact preset"

definition scan_status :: "LlamaPreset \<Rightarrow> ArtifactStatus \<Rightarrow> target_scan \<Rightarrow> target_scan" where
  "scan_status preset s t =
     (let missing = as_State s = Missing; ready = Ready (as_State s); i = ar_ID (as_Artifact s);
          t = t\<lparr>tg_allMissing := tg_allMissing t \<and> missing, tg_ready := tg_ready t \<and> ready\<rparr> in
      if i = lp_MMProjArtifact preset then t\<lparr>tg_projectorReady := ready\<rparr>
      else if separate_draft preset \<and> i = lp_DraftArtifact preset then t\<lparr>tg_draftMissing := missing\<rparr>
      else t\<lparr>tg_targetFound := True, tg_targetsMissing := tg_targetsMissing t \<and> missing,
             tg_targetsReady := tg_targetsReady t \<and> ready\<rparr>)"

definition scan_statuses :: "LlamaPreset \<Rightarrow> ArtifactStatus list \<Rightarrow> target_scan" where
  "scan_statuses preset statuses = fold (scan_status preset) statuses
     \<lparr>tg_allMissing = True, tg_ready = True, tg_draftMissing = False, tg_projectorReady = True,
      tg_targetFound = False, tg_targetsMissing = True, tg_targetsReady = True\<rparr>"

definition not_installed :: "LlamaPreset \<Rightarrow> target_scan \<Rightarrow> bool" where
  "not_installed preset t \<longleftrightarrow> tg_allMissing t \<or> tg_targetFound t \<and> tg_targetsMissing t \<or>
     separate_draft preset \<and> tg_draftMissing t \<and> tg_targetsReady t \<and> tg_projectorReady t"

definition bundle_of :: "Catalog \<Rightarrow> string \<Rightarrow> Bundle" where
  "bundle_of managed i = (case lookup (ct_Bundles managed) i of
     Some b \<Rightarrow> b
   | None \<Rightarrow> \<lparr>bn_ID = [], bn_Description = [], bn_Application = [], bn_Artifacts = [], bn_Workflow = [], bn_Groups = []\<rparr>)"

definition preset_of :: "Catalog \<Rightarrow> string \<Rightarrow> LlamaPreset" where
  "preset_of managed i = the (lookup (ct_LlamaPresets managed) i)"

fun installed_from ::
  "content_env \<Rightarrow> Catalog \<Rightarrow> string \<Rightarrow> string \<Rightarrow> string \<Rightarrow> Store option \<Rightarrow> string list \<Rightarrow> host
     \<Rightarrow> (gerror + string list) \<times> host" where
  "installed_from ce managed dataRoot backend profile store [] h = (Inr [], h)"
| "installed_from ce managed dataRoot backend profile store (i # is) h =
     (let preset = preset_of managed i in
      if \<not> SupportsRuntime preset backend profile then installed_from ce managed dataRoot backend profile store is h
      else case InspectBundle ce store managed (bundle_of managed (lp_Bundle preset)) dataRoot False h of
        (Inl e, _, h1) \<Rightarrow> (Inl e, h1)
      | (Inr statuses, store1, h1) \<Rightarrow>
          (let t = scan_statuses preset statuses in
           if not_installed preset t then installed_from ce managed dataRoot backend profile store1 is h1
           else if \<not> tg_ready t then (Inl (ErrorText (''managed llama.cpp preset '' @ i @ '' is incomplete'')), h1)
           else (case installed_from ce managed dataRoot backend profile store1 is h1 of
             (Inl e, h2) \<Rightarrow> (Inl e, h2)
           | (Inr rest, h2) \<Rightarrow> (Inr (i # rest), h2))))"

fun check_selected :: "Catalog \<Rightarrow> string \<Rightarrow> string \<Rightarrow> string option \<Rightarrow> string list \<Rightarrow> gerror option" where
  "check_selected managed backend profile prev [] = None"
| "check_selected managed backend profile prev (i # is) =
     (if prev = Some i then Some (ErrorText (''duplicate llama.cpp router preset '' @ quoted i))
      else case lookup (ct_LlamaPresets managed) i of
        None \<Rightarrow> Some (ErrorText (''unknown llama.cpp router preset '' @ quoted i))
      | Some preset \<Rightarrow>
          (if \<not> SupportsRuntime preset backend profile
           then Some (ErrorText (''llama.cpp router preset '' @ quoted i @ '' does not support backend '' @ backend @
                        '' on profile '' @ profile))
           else check_selected managed backend profile (Some i) is))"

definition model_file :: "Catalog \<Rightarrow> string \<Rightarrow> string" where
  "model_file managed i = ''/content/models/'' @ ar_Destination (artifact_of managed i)"

definition profile_settings :: "LlamaPreset \<Rightarrow> string \<Rightarrow> string list" where
  "profile_settings preset profile =
     (let flash = map_string (lp_FlashAttention preset) profile; kv = map_string (lp_KVCache preset) profile;
          load = map_string (lp_ModelLoad preset) profile;
          load = (if load = [] \<and> (profile = ''strix-halo'' \<or> profile = ''strix-point'') then LlamaModelLoadResident else load) in
      (if flash \<noteq> [] then [''paracetamol-flash-attn-'' @ profile @ '' = '' @ flash] else [])
      @ (if kv \<noteq> [] then [''paracetamol-kv-cache-'' @ profile @ '' = '' @ kv] else [])
      @ (if load \<noteq> [] then [''paracetamol-model-load-'' @ profile @ '' = '' @ load] else []))"

definition speculation_settings :: "Catalog \<Rightarrow> string \<Rightarrow> LlamaPreset \<Rightarrow> string list" where
  "speculation_settings managed backend preset =
     (if lp_SpeculativeType preset = [] then []
      else [''spec-type = '' @ lp_SpeculativeType preset,
            ''spec-draft-n-max = '' @ format_int (DraftTokensForBackend preset backend)]
        @ (if lp_SpeculativeType preset = ''draft-dflash'' then [''spec-draft-sampling = greedy''] else [])
        @ (if lp_DraftArtifact preset \<noteq> [] then [''model-draft = '' @ model_file managed (lp_DraftArtifact preset)] else []))"

definition router_section :: "Catalog \<Rightarrow> string \<Rightarrow> string \<Rightarrow> LlamaPreset \<Rightarrow> string list" where
  "router_section managed backend i preset =
     (let profiles = (case lookup (lp_BackendProfiles preset) backend of Some ps \<Rightarrow> ps | None \<Rightarrow> []) in
      [''['' @ i @ '']'', ''model = '' @ model_file managed (lp_Artifact preset), ''c = '' @ format_int (lp_DefaultContext preset)]
      @ (if lp_MMProjArtifact preset \<noteq> [] then [''mmproj = '' @ model_file managed (lp_MMProjArtifact preset)] else [])
      @ (if profiles \<noteq> [] then [''paracetamol-allowed-profiles = '' @ join_with '','' profiles] else [])
      @ (if lp_ContextOverrideArchitectures preset \<noteq> []
         then [''fit = off'', ''override-kv = '' @ join_with '','' (map (\<lambda>a. a @ ''.context_length=int:'' @
                format_int (lp_DefaultContext preset)) (lp_ContextOverrideArchitectures preset))] else [])
      @ (if lp_Jinja preset then [''jinja = true''] else [])
      @ [''reasoning-preserve = '' @ go_bool (lp_ReasoningPreserve preset)]
      @ (if lp_ChatTemplate preset \<noteq> []
         then [''jinja = true'', ''chat-template-file = /usr/local/share/paracetamol/llama-chat-templates/'' @
                lp_ChatTemplate preset @ ''.jinja''] else [])
      @ concat (map (profile_settings preset) ProfileIDs)
      @ speculation_settings managed backend preset @ [''load-on-startup = false'', []])"

fun router_sections :: "Catalog \<Rightarrow> string \<Rightarrow> string list \<Rightarrow> gerror + string list" where
  "router_sections managed backend [] = Inr []"
| "router_sections managed backend (i # is) =
     (let preset = preset_of managed i in
      if lookup (ct_Artifacts managed) (lp_Artifact preset) = None
      then Inl (ErrorText (''llama.cpp preset '' @ i @ '' references unknown artifact '' @ lp_Artifact preset))
      else bind_res (router_sections managed backend is) (\<lambda>rest. Inr (router_section managed backend i preset @ rest)))"

definition RenderRouterModels :: "Catalog \<Rightarrow> string \<Rightarrow> string \<Rightarrow> string list \<Rightarrow> gerror + string" where
  "RenderRouterModels managed backend profile identifiers =
     (if identifiers = [] then Inl (ErrorText ''router requires at least one llama.cpp preset'')
      else let selected = sort identifiers in
        case check_selected managed backend profile None selected of
          Some e \<Rightarrow> Inl e
        | None \<Rightarrow> bind_res (router_sections managed backend selected) (\<lambda>ls.
            Inr (join_with [CHR 0x0A] ([''version = 1'', []] @ ls))))"

definition RenderRouter ::
  "content_env \<Rightarrow> (string \<Rightarrow> (int \<times> Record table option) option) \<Rightarrow> Catalog \<Rightarrow> string \<Rightarrow> string \<Rightarrow> string \<Rightarrow> host
     \<Rightarrow> (gerror + string \<times> string list) \<times> host" where
  "RenderRouter ce decode managed dataRoot backend profile h =
     (case LoadReceipts ce decode dataRoot h of
        (Inl e, h1) \<Rightarrow> (Inl e, h1)
      | (Inr store, h1) \<Rightarrow>
          (case installed_from ce managed dataRoot backend profile (Some store)
                  (sort (remdups (map fst (ct_LlamaPresets managed)))) h1 of
             (Inl e, h2) \<Rightarrow> (Inl e, h2)
           | (Inr installed, h2) \<Rightarrow>
               (if installed = []
                then (Inl (ErrorText (''no installed managed llama.cpp preset supports backend '' @ backend)), h2)
                else (bind_res (RenderRouterModels managed backend profile installed) (\<lambda>t. Inr (t, installed)), h2))))"

section \<open>Properties of the registry\<close>

text \<open>
  A model is registered from a preset that the backend supports on the profile, with a bundle of the
  catalog whose artifacts were all found verified by their receipts.
\<close>

definition servable :: "content_env \<Rightarrow> Catalog \<Rightarrow> string \<Rightarrow> string \<Rightarrow> string \<Rightarrow> Model \<Rightarrow> bool" where
  "servable ce managed dataRoot modelProfile backend m \<longleftrightarrow>
     (\<exists>preset bundle policy store statuses store' h h'.
        lookup (ct_LlamaPresets managed) (mo_ID m) = Some preset \<and> SupportsRuntime preset backend modelProfile \<and>
        lookup (ct_Bundles managed) (lp_Bundle preset) = Some bundle \<and>
        m = registry_model (FromLlamaPreset (mo_ID m) preset) policy \<and>
        InspectBundle ce store managed bundle dataRoot False h = (Inr statuses, store', h') \<and>
        statuses \<noteq> [] \<and> (\<forall>s \<in> set statuses. as_State s = Verified))"

definition registered :: "content_env \<Rightarrow> Catalog \<Rightarrow> string \<Rightarrow> string \<Rightarrow> string \<Rightarrow> registry_state \<Rightarrow> bool" where
  "registered ce managed dataRoot modelProfile backend st \<longleftrightarrow>
     (\<forall>m \<in> set (rx_models st). servable ce managed dataRoot modelProfile backend m) \<and>
     distinct (map mo_ID (rx_models st)) \<and>
     (\<forall>i. lookup (rx_byID st) i = find (\<lambda>m. mo_ID m = i) (rx_models st)) \<and>
     rx_ready st = map mo_Application (rx_models st)"

lemma find_snoc: "find P (xs @ [x]) = (case find P xs of Some y \<Rightarrow> Some y | None \<Rightarrow> if P x then Some x else None)"
  by (induction xs) auto

lemma add_model_registered:
  assumes "registered ce managed dataRoot mp backend st" "servable ce managed dataRoot mp backend m"
    "add_model m st = Inr st'"
  shows "registered ce managed dataRoot mp backend st'"
proof -
  have "lookup (rx_byID st) (mo_ID m) = None" and st': "st' = st\<lparr>rx_byID := upsert (mo_ID m) m (rx_byID st),
      rx_models := rx_models st @ [m], rx_ready := rx_ready st @ [mo_Application m]\<rparr>"
    using assms(3) by (auto simp: add_model_def split: if_splits)
  then have none: "find (\<lambda>n. mo_ID n = mo_ID m) (rx_models st) = None"
    using assms(1) by (simp add: registered_def)
  then have fresh: "mo_ID m \<notin> mo_ID ` set (rx_models st)" by (auto simp: find_None_iff)
  have "lookup (rx_byID st') i = find (\<lambda>m. mo_ID m = i) (rx_models st')" for i
  proof (cases "i = mo_ID m")
    case True
    with none show ?thesis by (simp add: st' find_snoc)
  next
    case False
    then show ?thesis using assms(1) by (simp add: st' find_snoc registered_def split: option.splits)
  qed
  then show ?thesis using assms(1,2) fresh by (auto simp: registered_def st')
qed

lemma find_distinct_cong:
  assumes "set xs = set ys" "distinct (map f xs)" "distinct (map f ys)"
  shows "find (\<lambda>x. f x = k) xs = find (\<lambda>x. f x = k) ys"
proof -
  have found: "find (\<lambda>x. f x = k) zs = Some x \<longleftrightarrow> x \<in> set zs \<and> f x = k" if "distinct (map f zs)" for zs x
    using that by (induction zs) auto
  show ?thesis using found [OF assms(2)] found [OF assms(3)] assms(1) by (metis option.exhaust)
qed

lemma mset_remdups_set: "mset (remdups xs) = mset_set (set xs)"
  by (metis distinct_remdups mset_set_set set_remdups)

text \<open>Each candidate leaves one mark, a model or a diagnostic, when the application is selected.\<close>

definition marks :: "registry_state \<Rightarrow> string list" where
  "marks st = map mo_ID (rx_models st) @ map dg_Model (rx_diagnostics st)"

lemma add_model_marks: "add_model m st = Inr st' \<Longrightarrow> mset (marks st') = add_mset (mo_ID m) (mset (marks st))"
  by (auto simp: add_model_def marks_def split: if_splits)

lemma diagnose_marks [simp]: "mset (marks (diagnose a i reason st)) = add_mset i (mset (marks st))"
  by (simp add: diagnose_def marks_def)

lemma diagnose_registered [simp]: "registered ce managed dataRoot mp backend (diagnose a i reason st) =
    registered ce managed dataRoot mp backend st"
  by (simp add: diagnose_def registered_def)

lemma FromLlamaPreset_fields [simp]:
  "tm_ID (FromLlamaPreset i preset) = i" "tm_Backend (FromLlamaPreset i preset) = BackendLlamaCPP"
  "tm_Bundle (FromLlamaPreset i preset) = lp_Bundle preset"
  by (simp_all add: FromLlamaPreset_def)

lemma registry_model_fields [simp]:
  "mo_ID (registry_model c policy) = tm_ID c" "mo_Application (registry_model c policy) = tm_Backend c"
  by (simp_all add: registry_model_def)

lemma register_step:
  assumes reg: "register ce managed dataRoot selected mp backend store c h st = (Inr st', store', h')"
    and preset: "lookup (ct_LlamaPresets managed) i = Some preset" and c: "c = FromLlamaPreset i preset"
    and sel: "BackendLlamaCPP \<in> set selected" and inv: "registered ce managed dataRoot mp backend st"
  shows "registered ce managed dataRoot mp backend st' \<and> mset (marks st') = add_mset i (mset (marks st))"
proof (cases "SupportsRuntime preset backend mp")
  case False
  then show ?thesis using assms by (auto simp: register_def)
next
  case True
  obtain bd where bun: "lookup (ct_Bundles managed) (lp_Bundle preset) = Some bd"
    using reg c sel preset True by (auto simp: register_def split: option.splits)
  obtain statuses store1 h1 where inspect:
      "InspectBundle ce store managed bd dataRoot False h = (Inr statuses, store1, h1)"
    using reg c sel preset True bun by (auto simp: register_def split: prod.splits sum.splits)
  show ?thesis
  proof (cases "all_ready statuses")
    case False
    then show ?thesis using reg c sel preset True bun inspect inv by (auto simp: register_def)
  next
    case ready: True
    obtain policy where add: "add_model (registry_model c policy) st = Inr st'"
      using reg c sel preset True bun inspect ready by (auto simp: register_def split: sum.splits)
    have v: "statuses \<noteq> [] \<and> (\<forall>s \<in> set statuses. as_State s = Verified)"
      using ready by (auto simp: all_ready_def Ready_def list_all_iff)
    have "servable ce managed dataRoot mp backend (registry_model c policy)"
      unfolding servable_def
      by (rule exI [of _ preset], rule exI [of _ bd], rule exI [of _ policy], rule exI [of _ store],
          rule exI [of _ statuses], rule exI [of _ store1], rule exI [of _ h], rule exI [of _ h1])
        (use True bun inspect v preset c in simp)
    with add inv show ?thesis using add_model_registered add_model_marks [OF add] c by auto
  qed
qed

lemma register_all_sound:
  assumes "register_all ce managed dataRoot selected mp backend store cs h st = (Inr st', h')"
    and "\<forall>c \<in> set cs. \<exists>i preset. lookup (ct_LlamaPresets managed) i = Some preset \<and> c = FromLlamaPreset i preset"
    and "BackendLlamaCPP \<in> set selected" "registered ce managed dataRoot mp backend st"
  shows "registered ce managed dataRoot mp backend st' \<and> mset (marks st') = mset (map tm_ID cs) + mset (marks st)"
  using assms
proof (induction cs arbitrary: store h st)
  case (Cons c cs)
  obtain st1 store1 h1 where r: "register ce managed dataRoot selected mp backend store c h st = (Inr st1, store1, h1)"
    using Cons.prems(1) by (auto split: prod.splits sum.splits)
  obtain i preset where ip: "lookup (ct_LlamaPresets managed) i = Some preset" "c = FromLlamaPreset i preset"
    using Cons.prems(2) by auto
  note step = register_step [OF r ip Cons.prems(3,4)]
  have "register_all ce managed dataRoot selected mp backend store1 cs h1 st1 = (Inr st', h')"
    using Cons.prems(1) r by simp
  from Cons.IH [OF this _ Cons.prems(3)] step Cons.prems(2) ip(2) show ?case by simp
qed simp

lemma check_applications_ok:
  assumes "check_applications seen apps = None" "apps \<noteq> []"
  shows "BackendLlamaCPP \<in> set apps"
  using assms by (cases apps) (auto split: if_splits)

lemma lookup_key: "i \<in> set (map fst m) \<Longrightarrow> lookup m i = Some (the (lookup m i))"
  by (metis domIff dom_map_of_conv_image_fst list.set_map option.exhaust_sel)

lemma All_presets:
  "\<forall>c \<in> set (All managed). \<exists>i preset. lookup (ct_LlamaPresets managed) i = Some preset \<and> c = FromLlamaPreset i preset"
  unfolding All_def using lookup_key by fastforce

lemma buildRegistry_parts:
  assumes "buildRegistry iv managed dataRoot applications profile nodes backend h = (Inr (registry, diagnostics, ready), h')"
  obtains st where
    "registered (iv_content iv) managed dataRoot (ModelProfile (iv_entries iv) (iv_properties iv) profile nodes) backend st"
    "mset (marks st) = mset (map tm_ID (All managed))" "rg_Models registry = sort_key mo_ID (rx_models st)"
    "rg_byID registry = rx_byID st" "diagnostics = rx_diagnostics st" "ready = rx_ready st" "applications \<noteq> []"
    "BackendLlamaCPP \<in> set applications"
proof -
  let ?mp = "ModelProfile (iv_entries iv) (iv_properties iv) profile nodes"
  let ?st0 = "\<lparr>rx_models = [], rx_byID = [], rx_diagnostics = [], rx_ready = []\<rparr>"
  have ok: "check_applications [] applications = None" "applications \<noteq> []"
    using assms by (auto simp: buildRegistry_def Let_def split: option.splits if_splits)
  obtain store h1 st h2 where
    r: "register_all (iv_content iv) managed dataRoot applications ?mp backend (Some store) (All managed) h1 ?st0 = (Inr st, h2)"
    and res: "rg_Models registry = sort_key mo_ID (rx_models st)" "rg_byID registry = rx_byID st"
      "diagnostics = rx_diagnostics st" "ready = rx_ready st"
    using assms ok by (auto simp: buildRegistry_def Let_def split: prod.splits sum.splits)
  have sel: "BackendLlamaCPP \<in> set applications" by (rule check_applications_ok [OF ok])
  have start: "registered (iv_content iv) managed dataRoot ?mp backend ?st0" by (simp add: registered_def)
  from register_all_sound [OF r All_presets sel start] res ok sel show thesis
    by (intro that) (auto simp: marks_def)
qed


text \<open>The identifiers of a registry's models, all of the one application there is.\<close>

lemma registry_IDs:
  assumes "buildRegistry iv managed dataRoot applications profile nodes backend h = (Inr (registry, diagnostics, ready), h')"
  shows "IDs registry BackendLlamaCPP = map mo_ID (rg_Models registry)"
    and "set ready = mo_Application ` set (rg_Models registry)"
proof -
  obtain st where st:
      "registered (iv_content iv) managed dataRoot (ModelProfile (iv_entries iv) (iv_properties iv) profile nodes) backend st"
      "rg_Models registry = sort_key mo_ID (rx_models st)" "ready = rx_ready st"
    by (rule buildRegistry_parts [OF assms])
  have "\<forall>m \<in> set (rg_Models registry). mo_Application m = BackendLlamaCPP"
    using st(1,2) unfolding registered_def servable_def
    by (metis FromLlamaPreset_fields(2) registry_model_fields(2) set_sort)
  then show "IDs registry BackendLlamaCPP = map mo_ID (rg_Models registry)"
    by (simp add: IDs_def filter_id_conv)
  show "set ready = mo_Application ` set (rg_Models registry)"
    using st by (simp add: registered_def)
qed

section \<open>Properties of the router's presets\<close>

lemma check_selected_ok:
  assumes "sorted_wrt (<) is" "\<forall>i \<in> set is. prev \<noteq> Some i"
    and "\<forall>i \<in> set is. \<exists>preset. lookup (ct_LlamaPresets managed) i = Some preset \<and> SupportsRuntime preset backend profile"
  shows "check_selected managed backend profile prev is = None"
  using assms by (induction "is" arbitrary: prev) (auto split: option.splits)

lemma router_sections_ok:
  assumes "\<forall>i \<in> set is. lookup (ct_Artifacts managed) (lp_Artifact (preset_of managed i)) \<noteq> None"
  shows "router_sections managed backend is = Inr (concat (map (\<lambda>i. router_section managed backend i (preset_of managed i)) is))"
  using assms by (induction "is") (auto simp: Let_def)

lemma preset_artifact_known:
  assumes "LoadCatalog lib contents = Inr managed" "lookup (ct_LlamaPresets managed) i = Some preset"
  shows "lookup (ct_Artifacts managed) (lp_Artifact preset) \<noteq> None"
proof -
  have "validateRelationships managed = None" using LoadCatalog_parts [OF assms(1)] by blast
  from relationships_parts(5) [OF this map_of_SomeD [OF assms(2)]]
  show ?thesis by (auto simp: check_preset_def model_artifact_def split: option.splits if_splits)
qed

lemma servable_preset:
  "servable ce managed dataRoot mp backend m \<Longrightarrow>
   \<exists>preset. lookup (ct_LlamaPresets managed) (mo_ID m) = Some preset \<and> SupportsRuntime preset backend mp"
  unfolding servable_def by blast

lemma BuildRegistry_built:
  assumes "BuildRegistry iv managed dataRoot applications profile nodes backend h = (Inr (registry, diagnostics), h')"
  obtains ready where
    "buildRegistry iv managed dataRoot applications profile nodes backend h = (Inr (registry, diagnostics, ready), h')"
    "set applications \<subseteq> set ready"
  using assms by (auto simp: BuildRegistry_def find_None_iff split: prod.splits sum.splits option.splits)

text \<open>
  C27: the router serves exactly the frozen registry. For a catalog that loads, once \<open>BuildRegistry\<close> has
  accepted the selected applications the registry has a model, and rendering the router's presets for
  its identifiers cannot fail: the file has one section for each model, in the registry's order.
\<close>

theorem router_serves_registry:
  assumes load: "LoadCatalog lib contents = Inr managed"
    and built: "BuildRegistry iv managed dataRoot applications profile nodes backend h = (Inr (registry, diagnostics), h')"
  shows "rg_Models registry \<noteq> [] \<and>
    RenderRouterModels managed backend (ModelProfile (iv_entries iv) (iv_properties iv) profile nodes)
      (IDs registry BackendLlamaCPP) =
    Inr (join_with [CHR 0x0A] ([''version = 1'', []] @
      concat (map (\<lambda>m. router_section managed backend (mo_ID m) (preset_of managed (mo_ID m))) (rg_Models registry))))"
proof -
  let ?mp = "ModelProfile (iv_entries iv) (iv_properties iv) profile nodes"
  obtain ready where r:
      "buildRegistry iv managed dataRoot applications profile nodes backend h = (Inr (registry, diagnostics, ready), h')"
      "set applications \<subseteq> set ready"
    by (rule BuildRegistry_built [OF built])
  obtain st where st: "registered (iv_content iv) managed dataRoot ?mp backend st"
      "rg_Models registry = sort_key mo_ID (rx_models st)" "BackendLlamaCPP \<in> set applications"
    by (rule buildRegistry_parts [OF r(1)])
  have nonempty: "rg_Models registry \<noteq> []" using registry_IDs(2) [OF r(1)] r(2) st(3) by auto
  let ?is = "map mo_ID (rg_Models registry)"
  have "distinct (map mo_ID (rx_models st))" using st(1) by (simp add: registered_def)
  then have order: "sorted_wrt (<) ?is" by (simp add: strict_sorted_iff st(2) distinct_map)
  have presets: "\<exists>preset. lookup (ct_LlamaPresets managed) i = Some preset \<and> SupportsRuntime preset backend ?mp"
    if "i \<in> set ?is" for i
    using that st(1,2) servable_preset unfolding registered_def by auto
  have "check_selected managed backend ?mp None ?is = None"
    by (rule check_selected_ok [OF order]) (use presets in simp_all)
  moreover have "router_sections managed backend ?is =
      Inr (concat (map (\<lambda>i. router_section managed backend i (preset_of managed i)) ?is))"
    by (rule router_sections_ok) (use presets preset_artifact_known [OF load] in \<open>fastforce simp: preset_of_def\<close>)
  moreover have "sort ?is = ?is" using order by (simp add: strict_sorted_iff sorted_sort_id)
  ultimately show ?thesis
    using nonempty by (simp add: registry_IDs(1) [OF r(1)] RenderRouterModels_def comp_def)
qed

lemma scan_ready:
  "tg_ready (fold (scan_status preset) statuses t) \<longleftrightarrow> tg_ready t \<and> (\<forall>s \<in> set statuses. Ready (as_State s))"
  by (induction statuses arbitrary: t) (auto simp: scan_status_def Let_def)

text \<open>What the router may list: a preset for this runtime, its bundle inspected and verified throughout.\<close>

definition installed :: "content_env \<Rightarrow> Catalog \<Rightarrow> string \<Rightarrow> string \<Rightarrow> string \<Rightarrow> string \<Rightarrow> bool" where
  "installed ce managed dataRoot backend profile i \<longleftrightarrow>
     SupportsRuntime (preset_of managed i) backend profile \<and>
     (\<exists>store h statuses store' h'.
        InspectBundle ce store managed (bundle_of managed (lp_Bundle (preset_of managed i))) dataRoot False h =
          (Inr statuses, store', h') \<and> statuses \<noteq> [] \<and> (\<forall>s \<in> set statuses. as_State s = Verified))"

lemma installed_from_sound:
  assumes "installed_from ce managed dataRoot backend profile store is h = (Inr js, h')"
  shows "(\<forall>i \<in> set js. installed ce managed dataRoot backend profile i) \<and> set js \<subseteq> set is \<and> (distinct is \<longrightarrow> distinct js)"
  using assms
proof (induction "is" arbitrary: store h js h')
  case (Cons i "is")
  let ?preset = "preset_of managed i"
  show ?case
  proof (cases "SupportsRuntime ?preset backend profile")
    case False
    then have "installed_from ce managed dataRoot backend profile store is h = (Inr js, h')" using Cons.prems by (simp add: Let_def)
    from Cons.IH [OF this] show ?thesis by auto
  next
    case True
    obtain statuses store1 h1 where inspect: "InspectBundle ce store managed (bundle_of managed (lp_Bundle ?preset))
        dataRoot False h = (Inr statuses, store1, h1)"
      using Cons.prems True by (auto simp: Let_def split: prod.splits sum.splits)
    show ?thesis
    proof (cases "not_installed ?preset (scan_statuses ?preset statuses)")
      case True
      then have "installed_from ce managed dataRoot backend profile store1 is h1 = (Inr js, h')"
        using Cons.prems inspect \<open>SupportsRuntime ?preset backend profile\<close> by (simp add: Let_def)
      from Cons.IH [OF this] show ?thesis by auto
    next
      case False
      then obtain rest h2 where rest: "installed_from ce managed dataRoot backend profile store1 is h1 = (Inr rest, h2)"
          "js = i # rest" and ready: "tg_ready (scan_statuses ?preset statuses)"
        using Cons.prems inspect True by (auto simp: Let_def split: if_splits prod.splits sum.splits)
      have "statuses \<noteq> []" using False by (auto simp: not_installed_def scan_statuses_def)
      with ready inspect True have "installed ce managed dataRoot backend profile i"
        unfolding installed_def scan_statuses_def scan_ready Ready_def by blast
      with rest Cons.IH [OF rest(1)] show ?thesis by auto
    qed
  qed
qed simp

text \<open>
  the router fails closed. When \<open>RenderRouter\<close> returns a preset file, every preset in it supports
  the backend on the profile, its bundle was inspected, and all of its artifacts were found verified,
  drafts and projectors included; no preset is listed twice, and the file is rendered from that list.
\<close>

theorem router_lists_verified:
  assumes "RenderRouter ce decode managed dataRoot backend profile h = (Inr (t, is), h')"
  shows "(\<forall>i \<in> set is. installed ce managed dataRoot backend profile i) \<and> is \<noteq> [] \<and> distinct is \<and>
         RenderRouterModels managed backend profile is = Inr t"
proof -
  let ?all = "sort (remdups (map fst (ct_LlamaPresets managed)))"
  obtain store h1 h2 where r: "installed_from ce managed dataRoot backend profile store ?all h1 = (Inr is, h2)"
      "is \<noteq> []" "RenderRouterModels managed backend profile is = Inr t"
    using assms by (auto simp: RenderRouter_def split: prod.splits sum.splits if_splits)
  from installed_from_sound [OF r(1)] r(2,3) show ?thesis
    by simp
qed

section \<open>A verified model\<close>

text \<open>One preset whose only artifact is on disk with its receipt; nothing disturbs the host.\<close>

definition sample_model :: Artifact where
  "sample_model = \<lparr>ar_ID = ''m'', ar_Description = ''d'', ar_Source = \<lparr>so_Provider = ''huggingface'', so_Repository = ''r'',
     so_Revision = replicate 40 (CHR ''a''), so_Path = ''m.gguf'', so_ModelID = 0, so_ModelVersionID = 0,
     so_RequiresAuth = False, so_ProviderHost = [], so_DownloadURL = [], so_ArchiveMember = [], so_ArchiveMaxSize = 0\<rparr>,
     ar_Destination = ''m.GGUF'', ar_Size = 7, ar_SHA256 = replicate 64 (CHR ''b''),
     ar_License = \<lparr>li_SPDX = ''MIT'', li_Status = ''verified'', li_URL = ''u'', li_Warning = [],
       li_UpstreamRepository = [], li_UpstreamLicense = [], li_UpstreamLicenseURL = []\<rparr>,
     ar_Agreements = [], ar_Target = ''llama-models''\<rparr>"

definition sample_catalog :: Catalog where
  "sample_catalog = \<lparr>ct_Agreements = [], ct_Artifacts = [(''m'', sample_model)],
     ct_Bundles = [(''b'', \<lparr>bn_ID = ''b'', bn_Description = ''d'', bn_Application = ''llama-cpp'', bn_Artifacts = [''m''],
       bn_Workflow = [], bn_Groups = [''all'', ''llama'']\<rparr>)],
     ct_Workflows = [], ct_Benchmarks = [], ct_SamplingPolicies = [],
     ct_LlamaPresets = [(''p'', (rp_Preset sample_preset)\<lparr>lp_ID := ''p'', lp_ReasoningDefault := ''off''\<rparr>)]\<rparr>"

definition sample_file :: "string \<Rightarrow> fnode" where
  "sample_file bytes = \<lparr>fl_kind = KRegular, fl_dev = 1, fl_ino = 2, fl_mtime = 3, fl_ctime = 4, fl_nlink = 1,
     fl_bytes = bytes\<rparr>"

definition sample_model_path :: string where
  "sample_model_path = ArtifactPath ''/d'' sample_model"

definition sample_inventory :: inventory_env where
  "sample_inventory = \<lparr>iv_content = \<lparr>ce_sha256 = (\<lambda>s. s), ce_resolve = (\<lambda>_ p. Inr p), ce_cwd = ''/''\<rparr>,
     iv_decode = (\<lambda>_. Some (receipt_schema, Some [(Rel ''/d'' sample_model_path,
       signature (sample_file ''content'') (ar_SHA256 sample_model))])),
     iv_encode = (\<lambda>_. Some ''{}''), iv_entries = None, iv_properties = (\<lambda>_. None)\<rparr>"

definition sample_host :: host where
  "sample_host = \<lparr>ho_fs = (\<lambda>p. if p = sample_model_path then Entry (sample_file ''content'')
       else if p = VerificationReceipt \<lparr>Root = ''/d''\<rparr> then Entry (sample_file ''receipt'') else NoEntry),
     ho_clock = 0, ho_steps = [], ho_past = []\<rparr>"

lemma sample_catalog_loads: "LoadCatalog sample_urls (Some sample_document) = Inr sample_catalog"
  by code_simp

lemma sample_built:
  "is_ok (fst (BuildRegistry sample_inventory sample_catalog ''/d'' [BackendLlamaCPP] ''strix-halo'' [] ''rocm'' sample_host))"
  by code_simp

lemma sample_rendered:
  "is_ok (fst (RenderRouter (iv_content sample_inventory) (iv_decode sample_inventory) sample_catalog ''/d''
     ''rocm'' ''strix-halo'' sample_host))"
  by code_simp

lemma sample_registry:
  "is_ok (fst (buildRegistry sample_inventory sample_catalog ''/d'' [BackendLlamaCPP] ''strix-halo'' [] ''rocm'' sample_host))"
  by code_simp


theorem router_serves_registry_witness:
  "\<exists>registry diagnostics h' t.
     BuildRegistry sample_inventory sample_catalog ''/d'' [BackendLlamaCPP] ''strix-halo'' [] ''rocm'' sample_host =
       (Inr (registry, diagnostics), h') \<and>
     RenderRouterModels sample_catalog ''rocm'' ''strix-halo'' (IDs registry BackendLlamaCPP) = Inr t"
proof -
  obtain registry diagnostics h' where b:
      "BuildRegistry sample_inventory sample_catalog ''/d'' [BackendLlamaCPP] ''strix-halo'' [] ''rocm'' sample_host =
       (Inr (registry, diagnostics), h')"
    using sample_built is_ok.elims(2) by (metis prod.collapse)
  have mp: "ModelProfile (iv_entries sample_inventory) (iv_properties sample_inventory) ''strix-halo'' [] = ''strix-halo''"
    by (simp add: ModelProfile_def)
  from router_serves_registry [OF sample_catalog_loads b] b show ?thesis unfolding mp by auto
qed

theorem router_lists_verified_witness:
  "\<exists>t is h'. RenderRouter (iv_content sample_inventory) (iv_decode sample_inventory) sample_catalog ''/d''
       ''rocm'' ''strix-halo'' sample_host = (Inr (t, is), h') \<and>
     installed (iv_content sample_inventory) sample_catalog ''/d'' ''rocm'' ''strix-halo'' (hd is)"
proof -
  obtain t "is" h' where r: "RenderRouter (iv_content sample_inventory) (iv_decode sample_inventory) sample_catalog ''/d''
       ''rocm'' ''strix-halo'' sample_host = (Inr (t, is), h')"
    using sample_rendered is_ok.elims(2) by (metis prod.collapse)
  from router_lists_verified [OF r] r show ?thesis by auto
qed

end
