(* ===== verification/ConfigProps.thy ===== *)
theory ConfigProps
  imports Config
begin

text \<open>
  The configuration file that \<^verbatim>\<open>config init\<close> writes (\<^verbatim>\<open>DefaultContents\<close> of
  \<^verbatim>\<open>internal/config/config.go\<close>) and the properties of the host configuration: the written file is
  read back, settings and sections are never read twice, comments end where a quote does not hide
  them, a loaded configuration is within its bounds, and keys follow their own precedence.
\<close>

section \<open>The default file\<close>

text \<open>
  \<^verbatim>\<open>strconv.Quote\<close>: the next rune of the text, or an invalid byte. Which code points above ASCII are
  printable is a table of the Go library, the parameter \<open>isPrint\<close>.
\<close>

definition rune_width :: "char \<Rightarrow> nat" where
  "rune_width a = (if code a < 128 then 1 else if 194 \<le> code a \<and> code a \<le> 223 then 2
     else if 224 \<le> code a \<and> code a \<le> 239 then 3 else if 240 \<le> code a \<and> code a \<le> 244 then 4 else 0)"

definition next_rune :: "string \<Rightarrow> string option" where
  "next_rune s = (let w = rune_width (hd s) in
     if s \<noteq> [] \<and> 0 < w \<and> w \<le> length s \<and> utf8_valid (take w s) then Some (take w s) else None)"

definition rune_value :: "string \<Rightarrow> nat" where
  "rune_value bs = (case bs of
       [a] \<Rightarrow> code a
     | [a, b] \<Rightarrow> (code a - 192) * 64 + (code b - 128)
     | [a, b, c] \<Rightarrow> (code a - 224) * 4096 + (code b - 128) * 64 + (code c - 128)
     | [a, b, c, d] \<Rightarrow> (code a - 240) * 262144 + (code b - 128) * 4096 + (code c - 128) * 64 + (code d - 128)
     | _ \<Rightarrow> 0)"

definition lowerhex :: "nat \<Rightarrow> char" where
  "lowerhex n = char_of (if n < 10 then 48 + n else 87 + n)"

primrec hex_digits :: "nat \<Rightarrow> nat \<Rightarrow> string" where
  "hex_digits 0 n = []"
| "hex_digits (Suc k) n = hex_digits k (n div 16) @ [lowerhex (n mod 16)]"

definition quote_rune :: "(nat \<Rightarrow> bool) \<Rightarrow> string \<Rightarrow> string" where
  "quote_rune isPrint bs =
     (let r = rune_value bs in
      if r = 34 \<or> r = 92 then BS # bs
      else if (if r < 128 then 32 \<le> r \<and> r < 127 else isPrint r) then bs
      else if r = 7 then [BS, CHR ''a'']
      else if r = 8 then [BS, CHR ''b'']
      else if r = 12 then [BS, CHR ''f'']
      else if r = 10 then [BS, CHR ''n'']
      else if r = 13 then [BS, CHR ''r'']
      else if r = 9 then [BS, CHR ''t'']
      else if r = 11 then [BS, CHR ''v'']
      else if r < 32 \<or> r = 127 then BS # CHR ''x'' # hex_digits 2 r
      else if r < 65536 then BS # CHR ''u'' # hex_digits 4 r
      else BS # CHR ''U'' # hex_digits 8 r)"

function quote_body :: "(nat \<Rightarrow> bool) \<Rightarrow> string \<Rightarrow> string" where
  "quote_body isPrint s =
     (case s of
        [] \<Rightarrow> []
      | c # r \<Rightarrow> (case next_rune s of
            None \<Rightarrow> BS # CHR ''x'' # hex_digits 2 (code c) @ quote_body isPrint r
          | Some bs \<Rightarrow> quote_rune isPrint bs @ quote_body isPrint (drop (length bs) s)))"
  by pat_completeness auto
termination
proof (relation "measure (\<lambda>(p, s). length s)", goal_cases)
  case (3 isPrint s c r bs)
  then have "0 < length bs"
    by (auto simp: next_rune_def Let_def split: if_splits)
  with 3 show ?case by (cases bs) auto
qed auto

declare quote_body.simps [simp del]

definition Quote :: "(nat \<Rightarrow> bool) \<Rightarrow> string \<Rightarrow> string" where
  "Quote isPrint s = QT # quote_body isPrint s @ [QT]"

fun Itoa :: "nat \<Rightarrow> string" where
  "Itoa n = (if n < 10 then [char_of (48 + n)] else Itoa (n div 10) @ [char_of (48 + n mod 10)])"

declare Itoa.simps [simp del]

definition DefaultGatewayPort :: nat where "DefaultGatewayPort = 7455"
definition DefaultLlamaSlots :: nat where "DefaultLlamaSlots = 4"
definition DefaultStatisticsRetentionDays :: nat where "DefaultStatisticsRetentionDays = 90"

definition default_head :: "string list" where
  "default_head =
    [''# Paracetamol host configuration. Command-line flags override corresponding'',
     ''# environment variables where defined; both override these values.'',
     '''',
     ''[storage]'']"

definition default_tail :: "(nat \<Rightarrow> bool) \<Rightarrow> string list" where
  "default_tail isPrint =
    ['''',
     ''[gateway]'',
     ''# Empty lists keep automatic backend and render-node discovery.'',
     ''# Loopback is always available; a non-loopback listen address adds publication.'',
     ''applications = []'',
     ''profile = \"auto\"'',
     ''render_nodes = []'',
     ''listen = \"127.0.0.1\"'',
     ''port = '' @ Itoa DefaultGatewayPort,
     ''startup_timeout = \"30m\"'',
     ''# Optional Bearer authentication. Use a private file containing a random key.'',
     ''# api_key_file = \"/absolute/path/to/gateway.key\"'',
     '''',
     ''[gateway.client]'',
     ''url = '' @ Quote isPrint DefaultGatewayURL,
     ''# Client credentials are separate, including for a local gateway.'',
     ''# api_key_file = \"/absolute/path/to/gateway.key\"'',
     '''',
     ''[gateway.llama-cpp]'',
     ''backend = \"rocm\"'',
     ''models_max = 1'',
     ''# Simultaneous requests per loaded model, sharing its configured KV token pool.'',
     ''slots = '' @ Itoa DefaultLlamaSlots,
     '''',
     ''[gateway.statistics]'',
     ''# Private daily totals only; no prompts, responses, or client identities.'',
     ''enabled = true'',
     ''retention_days = '' @ Itoa DefaultStatisticsRetentionDays]"

definition DefaultContents :: "(nat \<Rightarrow> bool) \<Rightarrow> string \<Rightarrow> string" where
  "DefaultContents isPrint dataDir =
     concat (map (\<lambda>l. l @ [NL])
       (default_head @ [''data_dir = '' @ Quote isPrint dataDir] @ default_tail isPrint))"

definition default_configuration :: "string \<Rightarrow> Configuration" where
  "default_configuration dataDir = empty_configuration
     \<lparr>cfg_DataDir := Some dataDir, cfg_Profile := Some ''auto'', cfg_Listen := Some ''127.0.0.1'',
      cfg_Port := Some 7455, cfg_StartupTimeout := Some ''30m'', cfg_ClientURL := Some DefaultGatewayURL,
      cfg_Backend := Some ''rocm'', cfg_ModelsMax := Some 1, cfg_Slots := Some 4,
      cfg_StatisticsEnabled := Some True, cfg_RetentionDays := Some 90\<rparr>"

section \<open>Reading the default file back\<close>

text \<open>A byte that the writer quotes in a form the reader knows.\<close>

definition quotable :: "char \<Rightarrow> bool" where
  "quotable c \<longleftrightarrow> 32 \<le> code c \<and> code c \<le> 126 \<or> code c \<in> {8, 9, 10, 12, 13}"

lemma code_inject [simp]: "code c = code d \<longleftrightarrow> c = d"
  by (simp add: code_def)

lemma code_eq: "n < 256 \<Longrightarrow> code c = n \<longleftrightarrow> c = char_of n"
  by (auto simp: code_def)

lemma code_char_of [simp]: "n < 256 \<Longrightarrow> code (char_of n) = n"
  by (simp add: code_def)

lemma next_rune_ascii: "code c < 128 \<Longrightarrow> next_rune (c # s) = Some [c]"
  by (simp add: next_rune_def rune_width_def)

lemma quote_body_simps [simp]:
  "quote_body p [] = []"
  "code c < 128 \<Longrightarrow> quote_body p (c # s) = quote_rune p [c] @ quote_body p s"
  by (subst quote_body.simps, simp add: next_rune_ascii)+

lemma quote_rune_plain:
  assumes "32 \<le> code c" and "code c \<le> 126" and "c \<noteq> QT" and "c \<noteq> BS"
  shows "quote_rune p [c] = [c]" and "\<not> disallowed_control c" and "c \<noteq> NL"
proof -
  have "code c \<noteq> 34" "code c \<noteq> 92"
    using assms code_inject [of c QT] code_inject [of c BS] by (simp_all add: code_def)
  with assms show "quote_rune p [c] = [c]"
    by (simp add: quote_rune_def rune_value_def Let_def)
  show "\<not> disallowed_control c" "c \<noteq> NL"
    using assms by (auto simp: disallowed_control_def code_def)
qed

lemma quote_rune_special:
  "quote_rune p [QT] = [BS, QT]" "quote_rune p [BS] = [BS, BS]"
  "quote_rune p [CHR 0x08] = [BS, CHR ''b'']" "quote_rune p [TAB] = [BS, CHR ''t'']"
  "quote_rune p [NL] = [BS, CHR ''n'']" "quote_rune p [CHR 0x0C] = [BS, CHR ''f'']"
  "quote_rune p [CHR 0x0D] = [BS, CHR ''r'']"
  by (simp_all add: quote_rune_def rune_value_def Let_def code_def)

lemma code_specials:
  "code (CHR 0x08) = 8" "code TAB = 9" "code NL = 10" "code (CHR 0x0C) = 12" "code (CHR 0x0D) = 13"
  by (simp_all add: code_def)

lemma quotable_cases:
  assumes "quotable c"
  obtains (plain) "32 \<le> code c" "code c \<le> 126" "c \<noteq> QT" "c \<noteq> BS"
    | (special) "c \<in> {QT, BS, CHR 0x08, TAB, NL, CHR 0x0C, CHR 0x0D}"
proof -
  have "c \<in> {CHR 0x08, TAB, NL, CHR 0x0C, CHR 0x0D}" if "code c \<in> {8, 9, 10, 12, 13}"
    using that code_specials by (metis code_inject insert_iff empty_iff)
  with assms that show thesis unfolding quotable_def by blast
qed

text \<open>The body that the writer emits passes the reader's validation and decodes to the same bytes.\<close>

lemma validate_simps [simp]:
  "validateConfigurationBasicString [] = None"
  "c \<noteq> QT \<Longrightarrow> c \<noteq> BS \<Longrightarrow> \<not> disallowed_control c \<Longrightarrow>
   validateConfigurationBasicString (c # s) = validateConfigurationBasicString s"
  "e \<in> {CHR ''b'', CHR ''t'', CHR ''n'', CHR ''f'', CHR ''r'', QT, BS} \<Longrightarrow>
   validateConfigurationBasicString (BS # e # s) = validateConfigurationBasicString s"
  by (subst validateConfigurationBasicString.simps, simp)+

lemma unquote_simps [simp]:
  "unquote [] = Some []"
  "c \<noteq> QT \<Longrightarrow> c \<noteq> BS \<Longrightarrow> c \<noteq> NL \<Longrightarrow> unquote (c # s) = map_option ((#) c) (unquote s)"
  "e \<in> {CHR ''b'', CHR ''t'', CHR ''n'', CHR ''f'', CHR ''r'', QT, BS} \<Longrightarrow>
   unquote (BS # e # s) = map_option ((#) (escaped_char e)) (unquote s)"
  by (subst unquote.simps, auto)+

lemma quotable_ascii: "quotable c \<Longrightarrow> code c < 128"
  unfolding quotable_def by auto

lemma quote_rune_forms:
  assumes "quotable c"
  obtains (plain) "quote_rune p [c] = [c]" "c \<noteq> QT" "c \<noteq> BS" "\<not> disallowed_control c" "c \<noteq> NL"
    | (escape) e where "quote_rune p [c] = [BS, e]" "escaped_char e = c"
        "e \<in> {CHR ''b'', CHR ''t'', CHR ''n'', CHR ''f'', CHR ''r'', QT, BS}"
  using assms
proof (cases rule: quotable_cases)
  case plain
  then show thesis using quote_rune_plain that(1) by blast
next
  case special
  then show thesis
    by (elim insertE) (auto intro: that(2) simp: quote_rune_special escaped_char_def)
qed

lemma quote_body_valid:
  "list_all quotable d \<Longrightarrow>
   validateConfigurationBasicString (quote_body p d) = None \<and> unquote (quote_body p d) = Some d"
proof (induction d)
  case (Cons c d)
  then have c: "quotable c" and IH: "validateConfigurationBasicString (quote_body p d) = None"
    "unquote (quote_body p d) = Some d" by simp_all
  from c show ?case
    by (cases rule: quote_rune_forms [where p = p]) (simp_all add: IH quotable_ascii c)
qed simp

text \<open>Inside the quotes no byte of the body ends the value or starts a comment.\<close>

lemma strip_from_quoted:
  "list_all quotable d \<Longrightarrow> strip_from (Some QT) False (quote_body p d @ QT # rest) =
     map_option (\<lambda>r. quote_body p d @ QT # r) (strip_from None False rest)"
proof (induction d)
  case (Cons c d)
  then have c: "quotable c" and IH: "strip_from (Some QT) False (quote_body p d @ QT # rest) =
     map_option (\<lambda>r. quote_body p d @ QT # r) (strip_from None False rest)" by simp_all
  from c show ?case
    by (cases rule: quote_rune_forms [where p = p])
      (simp_all add: IH quotable_ascii c option.map_comp comp_def)
qed (simp add: option.map_comp)

text \<open>Text that starts and ends with a visible ASCII byte is not trimmed.\<close>

definition visible :: "char \<Rightarrow> bool" where
  "visible c \<longleftrightarrow> 33 \<le> code c \<and> code c \<le> 126"

lemma space_token_ends: "t \<in> set space_tokens \<Longrightarrow> t \<noteq> [] \<and> \<not> visible (hd t) \<and> \<not> visible (last t)"
  by (auto simp: space_tokens_def visible_def byte_def)

lemma trim_left_visible:
  assumes "\<And>t. t \<in> set ts \<Longrightarrow> t \<noteq> [] \<and> \<not> visible (hd t)" and "visible c"
  shows "trim_left_tokens ts (c # s) = c # s"
proof -
  have "\<not> hasPrefix (c # s) t" if "t \<in> set ts" for t
    using assms(1) [OF that] assms(2) by (cases t) (auto simp: hasPrefix_def)
  then have "find (\<lambda>t. t \<noteq> [] \<and> hasPrefix (c # s) t) ts = None"
    by (auto simp: find_None_iff)
  then show ?thesis by (subst trim_left_tokens.simps) simp
qed

lemma trimSpace_visible:
  assumes "s \<noteq> []" "visible (hd s)" "visible (last s)"
  shows "trimSpace s = s"
proof -
  have "trim_left_tokens space_tokens s = s"
    using assms(1,2) space_token_ends by (cases s) (auto intro!: trim_left_visible)
  moreover have "trim_left_tokens (map rev space_tokens) (rev s) = rev s"
    using assms(1,3)
    by (cases s rule: rev_cases) (fastforce dest: space_token_ends intro!: trim_left_visible simp: hd_rev)+
  ultimately show ?thesis by (simp add: trimSpace_def)
qed

lemma byte_32: "byte 32 = CHR '' ''"
  by code_simp

lemma byte_is_space: "CHR '' '' = byte n \<longleftrightarrow> n mod 256 = 32"
proof -
  have of_byte: "(of_char (byte m) :: nat) = m mod 256" for m
    by (simp add: byte_def)
  have "byte 32 = byte n \<longleftrightarrow> (of_char (byte 32) :: nat) = of_char (byte n)"
    by simp
  then show ?thesis unfolding of_byte by (auto simp: byte_32)
qed

lemma trim_left_space: "trim_left_tokens space_tokens (CHR '' '' # s) = trim_left_tokens space_tokens s"
proof -
  have "find (\<lambda>t. t \<noteq> [] \<and> hasPrefix (CHR '' '' # s) t) space_tokens = Some '' ''"
    by (simp add: space_tokens_def byte_is_space byte_32 hasPrefix_def)
  then show ?thesis by (subst trim_left_tokens.simps) simp
qed

lemma trimSpace_space: "trimSpace (CHR '' '' # s) = trimSpace s"
  by (simp add: trimSpace_def trim_left_space)

lemma trimSpace_trailing:
  assumes "s \<noteq> []" "last s = CHR '' ''" "butlast s \<noteq> []" "visible (hd s)" "visible (last (butlast s))"
  shows "trimSpace s = butlast s"
proof -
  have "s = butlast s @ '' ''"
    using assms(1,2) append_butlast_last_id [of s] by simp
  then obtain c u where cu: "s = (c # u) @ '' ''" "butlast s = c # u"
    using assms(3) by (metis butlast.simps(2) neq_Nil_conv)
  have "trim_left_tokens space_tokens s = s"
    using assms(1,4) space_token_ends by (cases s) (auto intro!: trim_left_visible)
  moreover have "trim_left_tokens (map rev space_tokens) (rev s) =
    trim_left_tokens (map rev space_tokens) (rev (c # u))"
  proof -
    have "find (\<lambda>t. t \<noteq> [] \<and> hasPrefix (rev s) t) (map rev space_tokens) = Some '' ''"
      using cu by (simp add: space_tokens_def byte_is_space byte_32 hasPrefix_def)
    then show ?thesis by (subst trim_left_tokens.simps) (simp add: cu)
  qed
  moreover have "trim_left_tokens (map rev space_tokens) (rev (c # u)) = rev (c # u)"
    using assms(5) cu(2)
    by (cases "c # u" rule: rev_cases)
      (fastforce dest: space_token_ends intro!: trim_left_visible simp: hd_rev)+
  ultimately show ?thesis by (simp add: trimSpace_def cu(2))
qed

lemma trimSpace_empty: "trimSpace [] = []"
  by code_simp

lemmas trim_text = trimSpace_visible trimSpace_trailing trimSpace_space trimSpace_empty visible_def code_def

text \<open>The one line of the file that depends on the data directory.\<close>

lemma visible_QT: "visible QT" and visible_d: "visible (CHR ''d'')"
  by (simp_all add: visible_def code_def)

lemma parseConfigurationString_Quote:
  assumes "list_all quotable d"
  shows "parseConfigurationString (Quote p d) = Inr d"
proof -
  have "trimSpace (Quote p d) = Quote p d"
    by (rule trimSpace_visible) (simp_all add: Quote_def visible_QT)
  with quote_body_valid [OF assms, of p] show ?thesis
    by (simp add: parseConfigurationString_def Quote_def Let_def)
qed

lemma data_line_stripped:
  assumes "list_all quotable d"
  shows "stripConfigurationComment (''data_dir = '' @ Quote p d) = Inr (''data_dir = '' @ Quote p d)"
  using strip_from_quoted [OF assms, of p "[]"]
  by (simp add: stripConfigurationComment_def Quote_def)

lemma parse_data_line:
  assumes "list_all quotable d"
  shows "parse_line (''data_dir = '' @ Quote p d)
      (initial_parse\<lparr>ps_section := ''storage'', ps_seenSections := [''storage'']\<rparr>) =
    Inr \<lparr>ps_configuration = empty_configuration\<lparr>cfg_DataDir := Some d\<rparr>, ps_section = ''storage'',
         ps_seenSections = [''storage''], ps_seenSettings = [''storage.data_dir'']\<rparr>"
proof -
  have line: "trimSpace (''data_dir = '' @ Quote p d) = ''data_dir = '' @ Quote p d"
    by (rule trimSpace_visible) (simp_all add: Quote_def visible_QT visible_d)
  have key: "trimSpace ''data_dir '' = ''data_dir''" by code_simp
  have val: "trimSpace (CHR '' '' # Quote p d) = Quote p d"
    unfolding trimSpace_space
    by (rule trimSpace_visible) (simp_all add: Quote_def visible_QT)
  have app: "applyConfigurationSetting empty_configuration ''storage'' ''data_dir'' (Quote p d) =
    Inr (empty_configuration\<lparr>cfg_DataDir := Some d\<rparr>)"
    by (simp add: applyConfigurationSetting_def with_value_def parseConfigurationString_Quote [OF assms])
  have nonempty: "Quote p d \<noteq> []" by (simp add: Quote_def)
  show ?thesis
    using line key val app nonempty data_line_stripped [OF assms, of p]
    by (simp add: parse_line_def hasPrefix_def Let_def initial_parse_def)
qed

text \<open>What a line says, without the state of the parser.\<close>

datatype line_form = Blank | SectionLine string | SettingLine string string

definition classify :: "string \<Rightarrow> config_error + line_form" where
  "classify rawLine =
     bind_res (stripConfigurationComment rawLine) (\<lambda>stripped.
       (let line = trimSpace stripped in
        if line = [] then Inr Blank
        else if hasPrefix line ''['' then map_sum id SectionLine (parseConfigurationSection line)
        else (case cut (CHR ''='') line of
            None \<Rightarrow> Inl ExpectedKeyValue
          | Some (key, raw) \<Rightarrow>
              if trimSpace key = [] \<or> trimSpace raw = [] then Inl ExpectedKeyValue
              else Inr (SettingLine (trimSpace key) (trimSpace raw)))))"

fun run_line :: "parse_state \<Rightarrow> line_form \<Rightarrow> config_error + parse_state" where
  "run_line ps Blank = Inr ps"
| "run_line ps (SectionLine s) =
     (if s \<in> set (ps_seenSections ps) then Inl (DuplicateSection s)
      else Inr (ps\<lparr>ps_section := s, ps_seenSections := s # ps_seenSections ps\<rparr>))"
| "run_line ps (SettingLine key raw) =
     (let setting = ps_section ps @ ''.'' @ key in
      if ps_section ps = [] then Inl (OutsideSection key)
      else if CHR ''.'' \<in> set key then Inl (UnknownSetting setting)
      else if setting \<in> set (ps_seenSettings ps) then Inl (DuplicateSetting setting)
      else bind_res (applyConfigurationSetting (ps_configuration ps) (ps_section ps) key raw)
        (\<lambda>cfg. Inr (ps\<lparr>ps_configuration := cfg, ps_seenSettings := setting # ps_seenSettings ps\<rparr>)))"

lemma parse_line_classify: "parse_line l ps = bind_res (classify l) (run_line ps)"
proof (cases "stripConfigurationComment l")
  case (Inr s)
  then show ?thesis
    by (cases "parseConfigurationSection (trimSpace s)")
      (auto simp: parse_line_def classify_def Let_def split: option.splits)
qed (simp add: parse_line_def classify_def)

fun run_forms :: "line_form list \<Rightarrow> parse_state \<Rightarrow> config_error + parse_state" where
  "run_forms [] ps = Inr ps"
| "run_forms (f # fs) ps = bind_res (run_line ps f) (run_forms fs)"

lemma parse_lines_forms:
  "map classify ls = map Inr fs \<Longrightarrow> run_forms fs ps = Inr ps2 \<Longrightarrow> parse_lines n ls ps = Inr ps2"
proof (induction ls arbitrary: n fs ps)
  case (Cons l ls)
  then show ?case
    by (cases fs) (auto simp: parse_line_classify split: sum.splits)
qed simp

lemma parse_lines_append:
  "parse_lines n ls ps = Inr ps1 \<Longrightarrow> parse_lines n (ls @ ms) ps = parse_lines (n + length ls) ms ps1"
  by (induction ls arbitrary: n ps) (auto split: sum.splits)

lemma classify_comment: "classify (CHR ''#'' # s) = Inr Blank"
  by (simp add: classify_def stripConfigurationComment_def trimSpace_empty)

lemma head_classified:
  "map classify default_head = map Inr [Blank, Blank, Blank, SectionLine ''storage'']"
  by (simp add: default_head_def classify_comment)
    (simp add: classify_def stripConfigurationComment_def trim_text parseConfigurationSection_def hasPrefix_def hasSuffix_def)

lemma parse_head:
  "parse_lines n default_head initial_parse =
   Inr (initial_parse\<lparr>ps_section := ''storage'', ps_seenSections := [''storage'']\<rparr>)"
  by (rule parse_lines_forms [OF head_classified]) (simp add: initial_parse_def)

definition tail_forms :: "line_form list" where
  "tail_forms =
    [Blank, SectionLine ''gateway'', Blank, Blank, SettingLine ''applications'' ''[]'',
     SettingLine ''profile'' ''\"auto\"'', SettingLine ''render_nodes'' ''[]'',
     SettingLine ''listen'' ''\"127.0.0.1\"'', SettingLine ''port'' ''7455'',
     SettingLine ''startup_timeout'' ''\"30m\"'', Blank, Blank, Blank,
     SectionLine ''gateway.client'', SettingLine ''url'' ''\"http://127.0.0.1:7455/v1\"'',
     Blank, Blank, Blank, SectionLine ''gateway.llama-cpp'', SettingLine ''backend'' ''\"rocm\"'',
     SettingLine ''models_max'' ''1'', Blank, SettingLine ''slots'' ''4'', Blank,
     SectionLine ''gateway.statistics'', Blank, SettingLine ''enabled'' ''true'',
     SettingLine ''retention_days'' ''90'', Blank]"

lemma quote_body_plain:
  "list_all (\<lambda>c. 32 \<le> code c \<and> code c \<le> 126 \<and> c \<noteq> QT \<and> c \<noteq> BS) b \<Longrightarrow> quote_body p b = b"
  by (induction b) (simp_all add: quote_rune_plain)

lemma tail_numerals:
  "Itoa DefaultGatewayPort = ''7455''" "Itoa DefaultLlamaSlots = ''4''"
  "Itoa DefaultStatisticsRetentionDays = ''90''"
  by (simp_all add: DefaultGatewayPort_def DefaultLlamaSlots_def DefaultStatisticsRetentionDays_def
      Itoa.simps [of 7455] Itoa.simps [of 745] Itoa.simps [of 74] Itoa.simps [of 7] Itoa.simps [of 4]
      Itoa.simps [of 90] Itoa.simps [of 9] char_of_def bit_0)

lemma tail_url: "Quote p DefaultGatewayURL = ''\"http://127.0.0.1:7455/v1\"''"
proof -
  have "quote_body p DefaultGatewayURL = DefaultGatewayURL"
    by (rule quote_body_plain) (simp add: DefaultGatewayURL_def code_def)
  then show ?thesis by (simp add: Quote_def DefaultGatewayURL_def)
qed

lemmas tail_texts = tail_numerals tail_url

lemma classify_blank: "classify [] = Inr Blank"
  by (simp add: classify_def stripConfigurationComment_def trimSpace_empty)

lemma classify_sections:
  "classify ''[gateway]'' = Inr (SectionLine ''gateway'')"
  "classify ''[gateway.client]'' = Inr (SectionLine ''gateway.client'')"
  "classify ''[gateway.llama-cpp]'' = Inr (SectionLine ''gateway.llama-cpp'')"
  "classify ''[gateway.statistics]'' = Inr (SectionLine ''gateway.statistics'')"
  by (simp_all add: classify_def stripConfigurationComment_def trim_text parseConfigurationSection_def
      hasPrefix_def hasSuffix_def)

lemma classify_gateway:
  "classify ''applications = []'' = Inr (SettingLine ''applications'' ''[]'')"
  "classify ''profile = \"auto\"'' = Inr (SettingLine ''profile'' ''\"auto\"'')"
  "classify ''render_nodes = []'' = Inr (SettingLine ''render_nodes'' ''[]'')"
  "classify ''listen = \"127.0.0.1\"'' = Inr (SettingLine ''listen'' ''\"127.0.0.1\"'')"
  "classify ''port = 7455'' = Inr (SettingLine ''port'' ''7455'')"
  "classify ''startup_timeout = \"30m\"'' = Inr (SettingLine ''startup_timeout'' ''\"30m\"'')"
  by (simp_all add: classify_def stripConfigurationComment_def trim_text hasPrefix_def)

lemma classify_rest:
  "classify ''url = \"http://127.0.0.1:7455/v1\"'' = Inr (SettingLine ''url'' ''\"http://127.0.0.1:7455/v1\"'')"
  "classify ''backend = \"rocm\"'' = Inr (SettingLine ''backend'' ''\"rocm\"'')"
  "classify ''models_max = 1'' = Inr (SettingLine ''models_max'' ''1'')"
  "classify ''slots = 4'' = Inr (SettingLine ''slots'' ''4'')"
  "classify ''enabled = true'' = Inr (SettingLine ''enabled'' ''true'')"
  "classify ''retention_days = 90'' = Inr (SettingLine ''retention_days'' ''90'')"
  by (simp_all add: classify_def stripConfigurationComment_def trim_text hasPrefix_def)

lemma tail_classified: "map classify (default_tail p @ [[]]) = map Inr tail_forms"
  by (simp add: default_tail_def tail_forms_def tail_texts classify_comment classify_blank
      classify_sections classify_gateway classify_rest del: strip_from.simps)

lemma plain_quotable: "32 \<le> code c \<and> code c \<le> 126 \<Longrightarrow> quotable c"
  by (simp add: quotable_def)

lemma parse_plain_string:
  assumes "list_all (\<lambda>c. 32 \<le> code c \<and> code c \<le> 126 \<and> c \<noteq> QT \<and> c \<noteq> BS) b"
  shows "parseConfigurationString (QT # b @ [QT]) = Inr b"
proof -
  have "quote_body p b = b" for p
    using assms by (rule quote_body_plain)
  moreover have "list_all quotable b"
    using assms by (auto simp: list_all_iff quotable_def)
  ultimately show ?thesis
    using parseConfigurationString_Quote [of b] by (simp add: Quote_def)
qed

lemma tail_strings:
  "parseConfigurationString ''\"auto\"'' = Inr ''auto''"
  "parseConfigurationString ''\"127.0.0.1\"'' = Inr ''127.0.0.1''"
  "parseConfigurationString ''\"30m\"'' = Inr ''30m''"
  "parseConfigurationString ''\"http://127.0.0.1:7455/v1\"'' = Inr DefaultGatewayURL"
  "parseConfigurationString ''\"rocm\"'' = Inr ''rocm''"
  using parse_plain_string [of "''auto''"] parse_plain_string [of "''127.0.0.1''"]
    parse_plain_string [of "''30m''"] parse_plain_string [of "''http://127.0.0.1:7455/v1''"]
    parse_plain_string [of "''rocm''"]
  by (simp_all add: code_def DefaultGatewayURL_def)

lemma tail_numbers:
  "parseConfigurationStringArray ''[]'' = Inr []"
  "parseConfigurationInteger ''7455'' = Inr 7455"
  "parseConfigurationInteger ''1'' = Inr 1"
  "parseConfigurationInteger ''4'' = Inr 4"
  "parseConfigurationInteger ''90'' = Inr 90"
  by (simp_all add: parseConfigurationStringArray_def array_elements.simps parseConfigurationInteger_def
      parseInt64_def decimal_def is_digit_def trim_text trimPrefix_def hasPrefix_def upt_rec)

lemma run_tail:
  "\<exists>ps. run_forms tail_forms
       \<lparr>ps_configuration = empty_configuration\<lparr>cfg_DataDir := Some d\<rparr>, ps_section = ''storage'',
        ps_seenSections = [''storage''], ps_seenSettings = [''storage.data_dir'']\<rparr> = Inr ps \<and>
   ps_configuration ps = default_configuration d"
  by (simp add: tail_forms_def applyConfigurationSetting_def with_value_def tail_strings tail_numbers
      default_configuration_def empty_configuration_def)

text \<open>The file as a whole: its lines and its bytes.\<close>

lemma split_lines:
  "(\<And>l. l \<in> set ls \<Longrightarrow> NL \<notin> set l) \<Longrightarrow> split_on NL (concat (map (\<lambda>l. l @ [NL]) ls)) = ls @ [[]]"
  by (induction ls) (simp_all add: split_on_append)

lemma utf8_valid_ascii: "list_all (\<lambda>c. code c < 128) s \<Longrightarrow> utf8_valid s"
  by (induction s) simp_all

lemma quote_body_bytes:
  "list_all quotable d \<Longrightarrow> c \<in> set (quote_body p d) \<Longrightarrow> code c < 128 \<and> c \<noteq> NL"
proof (induction d)
  case (Cons x d)
  then have x: "quotable x" by simp
  from x show ?case
    by (cases rule: quote_rune_forms [where p = p])
      (use Cons quotable_ascii [OF x] in \<open>auto simp: code_def\<close>)
qed simp

lemma code_ascii: "code (Char b0 b1 b2 b3 b4 b5 b6 b7) < 128 \<longleftrightarrow> \<not> b7"
  by (cases b0; cases b1; cases b2; cases b3; cases b4; cases b5; cases b6; cases b7) (simp_all add: code_def)

lemma list_all_member: "list_all P xs \<Longrightarrow> x \<in> set xs \<Longrightarrow> P x"
  by (simp add: list_all_iff)

lemma default_lines:
  assumes "list_all (\<lambda>c. code c < 128 \<and> c \<noteq> NL) (quote_body p d)"
    and "l \<in> set (default_head @ [''data_dir = '' @ Quote p d] @ default_tail p)"
  shows "list_all (\<lambda>c. code c < 128 \<and> c \<noteq> NL) l"
proof -
  have "list_all (\<lambda>c. code c < 128 \<and> c \<noteq> NL) (''data_dir = '' @ Quote p d)"
    using assms(1) by (auto simp: Quote_def list_all_iff code_def)
  moreover have "list_all (list_all (\<lambda>c. code c < 128 \<and> c \<noteq> NL)) default_head"
    by (simp add: default_head_def code_ascii)
  moreover have "list_all (list_all (\<lambda>c. code c < 128 \<and> c \<noteq> NL)) (default_tail p)"
    unfolding default_tail_def tail_texts by (simp add: code_ascii)
  ultimately have "list_all (list_all (\<lambda>c. code c < 128 \<and> c \<noteq> NL))
    (default_head @ [''data_dir = '' @ Quote p d] @ default_tail p)"
    by (simp only: list_all_append list.pred_inject simp_thms)
  then show ?thesis by (rule list_all_member [OF _ assms(2)])
qed

abbreviation after_head :: parse_state where
  "after_head \<equiv> initial_parse\<lparr>ps_section := ''storage'', ps_seenSections := [''storage'']\<rparr>"

lemma parse_from_data_line:
  assumes body: "list_all (\<lambda>c. code c < 128 \<and> c \<noteq> NL) (quote_body p d)"
  shows "parseConfiguration (DefaultContents p d) =
    bind_res (parse_lines 5 ((''data_dir = '' @ Quote p d) # default_tail p @ [[]]) after_head)
      (\<lambda>ps. Inr (ps_configuration ps))"
proof -
  let ?ls = "default_head @ [''data_dir = '' @ Quote p d] @ default_tail p"
  have "split_on NL (DefaultContents p d) = ?ls @ [[]]"
    unfolding DefaultContents_def
    by (rule split_lines) (use default_lines [OF body] in \<open>fastforce simp: list_all_iff\<close>)
  moreover have "utf8_valid (DefaultContents p d)"
    by (rule utf8_valid_ascii)
      (use default_lines [OF body] in \<open>fastforce simp: DefaultContents_def list_all_iff code_def\<close>)
  moreover have "parse_lines 1 (?ls @ [[]]) initial_parse =
    parse_lines (1 + length default_head) ([''data_dir = '' @ Quote p d] @ default_tail p @ [[]]) after_head"
    unfolding append_assoc by (rule parse_lines_append [OF parse_head])
  moreover have "1 + length default_head = 5"
    by (simp add: default_head_def)
  ultimately show ?thesis by (simp only: parseConfiguration_def append_Cons append_Nil if_False simp_thms)
qed

lemma parse_DefaultContents:
  assumes d: "list_all quotable d"
  shows "parseConfiguration (DefaultContents p d) = Inr (default_configuration d)"
proof -
  obtain ps where ps: "ps_configuration ps = default_configuration d"
    "run_forms tail_forms
       \<lparr>ps_configuration = empty_configuration\<lparr>cfg_DataDir := Some d\<rparr>, ps_section = ''storage'',
        ps_seenSections = [''storage''], ps_seenSettings = [''storage.data_dir'']\<rparr> = Inr ps"
    using run_tail by blast
  have "parse_lines 5 ((''data_dir = '' @ Quote p d) # default_tail p @ [[]]) after_head = Inr ps"
    unfolding parse_lines.simps parse_data_line [OF d] sum.case
    by (rule parse_lines_forms [OF tail_classified ps(2)])
  moreover have "list_all (\<lambda>c. code c < 128 \<and> c \<noteq> NL) (quote_body p d)"
    using quote_body_bytes [OF d] by (simp add: list_all_iff)
  ultimately show ?thesis using ps(1) by (simp only: parse_from_data_line bind_res_simps)
qed

text \<open>
  C11: The configuration file that the program writes is read back as the configuration it
  describes, for every data directory of quotable bytes: printable ASCII (quotes and backslashes
  included) and the control characters that have a short escape.
\<close>

theorem default_contents_roundtrip:
  assumes "list_all quotable dataDir"
  shows "parseConfiguration (DefaultContents isPrint dataDir) = Inr (default_configuration dataDir)"
  using assms by (rule parse_DefaultContents)

theorem default_contents_roundtrip_witness:
  "list_all quotable ''/srv/#1'' \<and>
   parseConfiguration (DefaultContents (\<lambda>_. True) ''/srv/#1'') = Inr (default_configuration ''/srv/#1'')"
proof -
  have "list_all quotable ''/srv/#1''" by (simp add: quotable_def code_def)
  with default_contents_roundtrip [of "''/srv/#1''" "\<lambda>_. True"] show ?thesis by simp
qed

section \<open>Nothing is set twice\<close>

text \<open>
  The settings and the sections that a list of lines names, read off the lines alone: a setting
  belongs to the section line before it.
\<close>

fun named_settings :: "string \<Rightarrow> string list \<Rightarrow> string list" where
  "named_settings section [] = []"
| "named_settings section (l # ls) =
     (case classify l of
        Inr (SectionLine s) \<Rightarrow> named_settings s ls
      | Inr (SettingLine key raw) \<Rightarrow> (section @ ''.'' @ key) # named_settings section ls
      | _ \<Rightarrow> named_settings section ls)"

fun named_sections :: "string list \<Rightarrow> string list" where
  "named_sections [] = []"
| "named_sections (l # ls) =
     (case classify l of Inr (SectionLine s) \<Rightarrow> s # named_sections ls | _ \<Rightarrow> named_sections ls)"

lemma parse_lines_seen:
  assumes "parse_lines n ls ps = Inr ps2"
  shows "ps_seenSettings ps2 = rev (named_settings (ps_section ps) ls) @ ps_seenSettings ps \<and>
    ps_seenSections ps2 = rev (named_sections ls) @ ps_seenSections ps \<and>
    (distinct (ps_seenSettings ps) \<longrightarrow> distinct (ps_seenSettings ps2)) \<and>
    (distinct (ps_seenSections ps) \<longrightarrow> distinct (ps_seenSections ps2))"
  using assms
proof (induction ls arbitrary: n ps)
  case (Cons l ls)
  then obtain ps1 where ps1: "parse_line l ps = Inr ps1" "parse_lines (n + 1) ls ps1 = Inr ps2"
    by (auto split: sum.splits)
  then obtain f where f: "classify l = Inr f" "run_line ps f = Inr ps1"
    by (auto simp: parse_line_classify)
  show ?case
    using Cons.IH [OF ps1(2)] f by (cases f) (auto simp: Let_def split: if_splits)
qed simp

text \<open>
  In a file that is accepted no section is opened twice and no setting is given twice, so the
  value of every setting comes from one line.
\<close>

theorem settings_once:
  assumes "parseConfiguration contents = Inr cfg"
  shows "distinct (named_settings [] (split_on NL contents)) \<and>
    distinct (named_sections (split_on NL contents))"
proof -
  obtain ps where "parse_lines 1 (split_on NL contents) initial_parse = Inr ps"
    using assms by (auto simp: parseConfiguration_def split: if_splits)
  from parse_lines_seen [OF this]
  have "distinct (rev (named_settings [] (split_on NL contents)))"
    "distinct (rev (named_sections (split_on NL contents)))"
    unfolding initial_parse_def by (metis append_Nil2 distinct.simps(1) parse_state.select_convs(2-4))+
  then show ?thesis by simp
qed

theorem settings_once_witness:
  "distinct (named_settings [] (split_on NL (DefaultContents (\<lambda>_. True) ''/srv''))) \<and>
   distinct (named_sections (split_on NL (DefaultContents (\<lambda>_. True) ''/srv'')))"
  by (rule settings_once [OF parse_DefaultContents]) (simp add: quotable_def code_def)

section \<open>Loaded configurations\<close>

definition within_bounds :: "int option \<Rightarrow> int \<Rightarrow> int \<Rightarrow> bool" where
  "within_bounds v lo hi \<longleftrightarrow> (case v of None \<Rightarrow> True | Some n \<Rightarrow> lo \<le> n \<and> n \<le> hi)"

text \<open>What the rest of the program relies on.\<close>

definition sound_configuration :: "url_library \<Rightarrow> Configuration \<Rightarrow> bool" where
  "sound_configuration lib cfg \<longleftrightarrow>
     set (cfg_Applications cfg) \<subseteq> {''llama-cpp''} \<and>
     within_bounds (cfg_Port cfg) 1 65535 \<and> within_bounds (cfg_Slots cfg) 1 64 \<and>
     within_bounds (cfg_RetentionDays cfg) 30 365 \<and>
     (\<forall>n. cfg_ModelsMax cfg = Some n \<longrightarrow> 1 \<le> n) \<and>
     (\<forall>p. p \<in> set_option (cfg_DataDir cfg) \<union> set_option (cfg_APIKeyFile cfg) \<union>
          set_option (cfg_ClientAPIKeyFile cfg) \<longrightarrow> IsAbs p) \<and>
     (\<forall>v. v \<in> set_option (cfg_Profile cfg) \<union> set_option (cfg_Listen cfg) \<union>
          set_option (cfg_StartupTimeout cfg) \<union> set_option (cfg_Backend cfg) \<longrightarrow> trimSpace v \<noteq> []) \<and>
     (\<forall>u. cfg_ClientURL cfg = Some u \<longrightarrow> is_ok (NormalizeGatewayURL lib u))"

lemma bad_path_iff: "\<not> bad_path v \<longleftrightarrow> (\<forall>p\<in>set_option v. p \<noteq> [] \<and> IsAbs p)"
  by (cases v) (auto simp: bad_path_def)

lemma blank_iff: "\<not> blank v \<longleftrightarrow> (\<forall>p\<in>set_option v. trimSpace p \<noteq> [])"
  by (cases v) (auto simp: blank_def)

lemma outside_iff: "\<not> outside v lo hi \<longleftrightarrow> within_bounds v lo hi"
  by (cases v) (auto simp: outside_def within_bounds_def)

lemma if_Some_None [simp]: "(if b then Some x else None) = None \<longleftrightarrow> \<not> b"
  by simp

lemma validated_sound: "validateConfiguration lib cfg path = None \<Longrightarrow> sound_configuration lib cfg"
  unfolding validateConfiguration_def check_all_None_iff sound_configuration_def
  by (simp add: bad_path_iff blank_iff outside_iff)
    (auto simp: list_ex_iff split: option.splits)

lemma sound_update: "sound_configuration lib (cfg\<lparr>cfg_Path := p, cfg_Loaded := l\<rparr>) = sound_configuration lib cfg"
  by (simp add: sound_configuration_def)

lemma sound_empty: "sound_configuration lib empty_configuration"
  by (simp add: sound_configuration_def empty_configuration_def within_bounds_def)

text \<open>
  C12: A configuration that \<^verbatim>\<open>Load\<close> returns, from a file or because there is none, keeps every
  bound: the port, the slots, the retention and the model count are in range, the paths are
  absolute, the texts are not blank, the only application is llama-cpp, and the client URL
  normalizes. It is marked as loaded exactly when a file was read.
\<close>

theorem loaded_configuration_sound:
  assumes "Load lib cwd files environment selection = Inr cfg"
  shows "sound_configuration lib cfg \<and> (cfg_Loaded cfg \<or> cfg = empty_configuration)"
proof -
  obtain path available explicit where r: "ResolveFile cwd environment selection = Inr (path, available, explicit)"
    using assms by (auto simp: Load_def)
  show ?thesis
    using assms validated_sound sound_empty
    by (auto simp: Load_def r sound_update split: if_splits host_file.splits option.splits)
qed

lemma parse_nothing: "parseConfiguration [] = Inr empty_configuration"
  by (simp add: parseConfiguration_def initial_parse_def parse_line_classify classify_blank)

lemma validate_nothing: "validateConfiguration lib empty_configuration path = None"
  by (simp add: validateConfiguration_def empty_configuration_def bad_path_def blank_def outside_def)

theorem loaded_configuration_sound_witness:
  "sound_configuration \<lparr>url_Parse = \<lambda>_. None, url_render = \<lambda>_ s. s\<rparr>
     (empty_configuration\<lparr>cfg_Path := ''/c.toml'', cfg_Loaded := True\<rparr>)"
proof -
  have "Clean (Abs [] ''/c.toml'') = ''/c.toml''" by code_simp
  moreover have "IsAbs ''/c.toml''" by code_simp
  ultimately have "Load \<lparr>url_Parse = \<lambda>_. None, url_render = \<lambda>_ s. s\<rparr> None (\<lambda>_. RegularFile 0 (Some []))
      (\<lambda>_. None) \<lparr>sel_Path = ''/c.toml'', sel_Disabled = False\<rparr> =
    Inr (empty_configuration\<lparr>cfg_Path := ''/c.toml'', cfg_Loaded := True\<rparr>)"
    by (simp add: Load_def ResolveFile_def maxFileSize_def parse_nothing validate_nothing)
  from loaded_configuration_sound [OF this] show ?thesis by blast
qed

section \<open>Keys\<close>

lemma env_names_differ:
  "EnvironmentPrefix @ ''_'' @ ''GATEWAY_API_KEY_FILE'' \<noteq> EnvironmentPrefix @ ''_'' @ ''GATEWAY_CLIENT_API_KEY_FILE''"
  by simp

definition key_token :: "string \<Rightarrow> bool" where
  "key_token k \<longleftrightarrow> 32 \<le> length k \<and> length k \<le> 512 \<and> list_all key_char k"

lemma read_key_token:
  assumes "read_key f = Inr k"
  shows "key_token k \<and> (\<exists>perm bytes. f = Opened (Some True) perm (Some bytes) \<and> perm mod 64 = 0)"
  using assms
  by (auto simp: read_key_def key_token_def ValidateGatewayKey_def Let_def
      split: key_file.splits if_splits option.splits)

lemma selectGatewayKey_result:
  assumes "selectGatewayKey files flagPath environment name configured = Inr k"
  shows "k = [] \<and> flagPath = [] \<or> (\<exists>path. IsAbs path \<and> read_key (files path) = Inr k)"
  using assms by (auto simp: selectGatewayKey_def split: if_splits option.splits)

text \<open>
  The client key is independent of the server's credential: neither the server's environment
  variable nor its configured file changes what is selected. A selected key is either empty (no
  source names a file) or a token of 32 to 512 permitted characters read from a regular file
  that only its owner may access.
\<close>

theorem client_key_separate:
  "SelectGatewayClientKey files flagPath
     (environment(EnvironmentPrefix @ ''_'' @ ''GATEWAY_API_KEY_FILE'' := v)) (cfg\<lparr>cfg_APIKeyFile := w\<rparr>) =
   SelectGatewayClientKey files flagPath environment cfg \<and>
   (case SelectGatewayClientKey files flagPath environment cfg of
      Inl e \<Rightarrow> True
    | Inr k \<Rightarrow> if k = [] then flagPath = []
        else key_token k \<and> (\<exists>path perm bytes. IsAbs path \<and>
               files path = Opened (Some True) perm (Some bytes) \<and> perm mod 64 = 0))"
proof
  have client_field: "cfg_ClientAPIKeyFile (cfg\<lparr>cfg_APIKeyFile := w\<rparr>) = cfg_ClientAPIKeyFile cfg"
    by simp
  show "SelectGatewayClientKey files flagPath
     (environment(EnvironmentPrefix @ ''_'' @ ''GATEWAY_API_KEY_FILE'' := v)) (cfg\<lparr>cfg_APIKeyFile := w\<rparr>) =
   SelectGatewayClientKey files flagPath environment cfg"
    unfolding SelectGatewayClientKey_def client_field selectGatewayKey_def using env_names_differ by simp
next
  show "case SelectGatewayClientKey files flagPath environment cfg of
      Inl e \<Rightarrow> True
    | Inr k \<Rightarrow> if k = [] then flagPath = []
        else key_token k \<and> (\<exists>path perm bytes. IsAbs path \<and>
               files path = Opened (Some True) perm (Some bytes) \<and> perm mod 64 = 0)"
  proof (cases "SelectGatewayClientKey files flagPath environment cfg")
    case (Inr k)
    then have "selectGatewayKey files flagPath environment ''GATEWAY_CLIENT_API_KEY_FILE''
      (cfg_ClientAPIKeyFile cfg) = Inr k"
      by (simp add: SelectGatewayClientKey_def)
    from selectGatewayKey_result [OF this] read_key_token Inr show ?thesis
      by (fastforce simp: key_token_def)
  qed simp
qed

section \<open>A data directory that cannot be read back\<close>

lemma quote_bell: "quote_body p [SL, CHR 0x07] = [SL, BS, CHR ''a'']"
  by (simp add: quote_rune_def rune_value_def code_def)

lemma classify_bell:
  "classify (''data_dir = '' @ [QT, SL, BS, CHR ''a'', QT]) =
   Inr (SettingLine ''data_dir'' [QT, SL, BS, CHR ''a'', QT])"
  by (simp add: classify_def stripConfigurationComment_def trim_text hasPrefix_def)

lemma parse_bell: "parseConfigurationString [QT, SL, BS, CHR ''a'', QT] = Inl ''unsupported escape sequence''"
proof -
  have "validateConfigurationBasicString [SL, BS, CHR ''a''] = Some ''unsupported escape sequence''"
    by (simp add: validateConfigurationBasicString.simps disallowed_control_def code_def)
  then show ?thesis by (simp add: parseConfigurationString_def trim_text)
qed

text \<open>
  A bell character in the data directory is quoted as an escape that the parser refuses: the
  written file is rejected at the line of the setting.
\<close>

theorem default_contents_bell:
  "parseConfiguration (DefaultContents isPrint [SL, CHR 0x07]) =
   Inl (AtLine 5 (InvalidValue ''storage.data_dir'' ''unsupported escape sequence''))"
proof -
  have "parse_line (''data_dir = '' @ Quote isPrint [SL, CHR 0x07]) after_head =
    Inl (InvalidValue ''storage.data_dir'' ''unsupported escape sequence'')"
    unfolding parse_line_classify Quote_def quote_bell append_Cons append_Nil
    using classify_bell
    by (simp add: applyConfigurationSetting_def with_value_def parse_bell initial_parse_def)
  then have "parse_lines 5 ((''data_dir = '' @ Quote isPrint [SL, CHR 0x07]) # default_tail isPrint @ [[]]) after_head
    = Inl (AtLine 5 (InvalidValue ''storage.data_dir'' ''unsupported escape sequence''))"
    by (simp only: parse_lines.simps sum.case)
  moreover have "list_all (\<lambda>c. code c < 128 \<and> c \<noteq> NL) (quote_body isPrint [SL, CHR 0x07])"
    unfolding quote_bell by (simp add: code_ascii)
  ultimately show ?thesis by (simp only: parse_from_data_line bind_res_simps)
qed

end
