(* ===== verification/Usage.thy ===== *)
theory Usage
  imports Interfaces Float64
begin

text \<open>
  Request records and their running totals (\<^verbatim>\<open>internal/gateway/usage.go\<close> and the data of
  \<^verbatim>\<open>observability.go\<close> and \<^verbatim>\<open>completion.go\<close>): saturating 64-bit counters, one aggregate updated by
  every finished request, and the derived ratios. The lemmas show that every counter is the exact
  sum of what the records carry, capped at the largest 64-bit number.
\<close>

section \<open>Request records\<close>

datatype ControlSource = ControlClient | ControlDefault | ControlGatewayDefault | ControlInvalid

record ObservedControl =
  oc_Name :: string
  oc_Source :: ControlSource
  oc_Provided :: bool
  oc_Value :: string

record RequestControls =
  rc_SamplingPolicy :: string
  rc_SamplingMode :: string
  rc_Reasoning :: "ObservedControl list"
  rc_Sampling :: "ObservedControl list"
  rc_Diagnostics :: "string list"

record RequestTiming =
  rt_GatewayWait :: int64
  rt_Upstream :: int64
  rt_Total :: int64
  rt_FirstOutput :: "int64 option"

record TokenUsage =
  tu_Input :: "int64 option"
  tu_Output :: "int64 option"
  tu_Cached :: "int64 option"
  tu_Reasoning :: "int64 option"

record BackendTimings =
  bt_PromptTokens :: "int64 option"
  bt_PromptMilliseconds :: "float64 option"
  bt_GeneratedTokens :: "int64 option"
  bt_GeneratedMilliseconds :: "float64 option"
  bt_DraftTokens :: "int64 option"
  bt_DraftAcceptedTokens :: "int64 option"
  bt_DraftVerificationSteps :: "int64 option"

datatype CompletionObservation = CompletionAvailable | CompletionPartial | CompletionUnavailable

record ChoiceFinishReason =
  cf_Index :: int
  cf_FinishReason :: string

record CompletionMetadata =
  cm_Observation :: CompletionObservation
  cm_FinishReasons :: "ChoiceFinishReason list"
  cm_StreamDone :: "bool option"

text \<open>
  The outcomes; \<open>OutcomeOther\<close> stands for any other text of the string type, the empty one included.
\<close>

datatype RequestOutcome =
    OutcomeSucceeded | OutcomeRejected | OutcomeCanceled | OutcomeQueueFull
  | OutcomeBackendStartFailed | OutcomeUpstreamError | OutcomeOther string

record RequestRecord =
  rr_ID :: string
  rr_SessionID :: string
  rr_Model :: string
  rr_Application :: string
  rr_Peer :: string
  rr_UserAgent :: string
  rr_Stream :: bool
  rr_Outcome :: RequestOutcome
  rr_HTTPStatus :: int
  rr_StartedAt :: string
  rr_FinishedAt :: string
  rr_Timing :: RequestTiming
  rr_Tokens :: TokenUsage
  rr_BackendTimings :: BackendTimings
  rr_Controls :: RequestControls
  rr_Completion :: CompletionMetadata

section \<open>Aggregates\<close>

record AggregateMetric =
  am_Total :: uint64
  am_Observations :: uint64

record AggregateTokens =
  at_Input :: AggregateMetric
  at_Output :: AggregateMetric
  at_Cached :: AggregateMetric
  at_Reasoning :: AggregateMetric

record AggregateTiming =
  ag_GatewayWait :: AggregateMetric
  ag_Upstream :: AggregateMetric
  ag_Total :: AggregateMetric
  ag_FirstOutput :: AggregateMetric

record AggregateCacheReuse =
  ac_InputTokens :: uint64
  ac_CachedTokens :: uint64
  ac_Observations :: uint64
  ac_Ratio :: "float64 option"

record AggregateThroughput =
  ap_TimedTokens :: uint64
  ap_Milliseconds :: float64
  ap_Observations :: uint64
  ap_TokensPerSecond :: "float64 option"

record AggregateDraft =
  ad_DraftTokens :: uint64
  ad_AcceptedTokens :: uint64
  ad_Observations :: uint64
  ad_AcceptanceRatio :: "float64 option"

record AggregateBackendTimings =
  ab_PromptProcessing :: AggregateThroughput
  ab_TokenGeneration :: AggregateThroughput
  ab_SpeculativeDraft :: AggregateDraft

record AggregateOutcomes =
  ao_Succeeded :: uint64
  ao_Rejected :: uint64
  ao_Canceled :: uint64
  ao_QueueFull :: uint64
  ao_BackendStartFailed :: uint64
  ao_UpstreamError :: uint64
  ao_Other :: uint64

record RequestAggregate =
  ra_Requests :: uint64
  ra_Outcomes :: AggregateOutcomes
  ra_Tokens :: AggregateTokens
  ra_Timing :: AggregateTiming
  ra_BackendTimings :: AggregateBackendTimings
  ra_CacheReuse :: AggregateCacheReuse

definition zero_metric :: AggregateMetric where
  "zero_metric = \<lparr>am_Total = 0, am_Observations = 0\<rparr>"

definition zero_throughput :: AggregateThroughput where
  "zero_throughput = \<lparr>ap_TimedTokens = 0, ap_Milliseconds = fl_zero, ap_Observations = 0,
     ap_TokensPerSecond = None\<rparr>"

definition zero_cache :: AggregateCacheReuse where
  "zero_cache = \<lparr>ac_InputTokens = 0, ac_CachedTokens = 0, ac_Observations = 0, ac_Ratio = None\<rparr>"

definition zero_aggregate :: RequestAggregate where
  "zero_aggregate =
     \<lparr>ra_Requests = 0,
      ra_Outcomes = \<lparr>ao_Succeeded = 0, ao_Rejected = 0, ao_Canceled = 0, ao_QueueFull = 0,
        ao_BackendStartFailed = 0, ao_UpstreamError = 0, ao_Other = 0\<rparr>,
      ra_Tokens = \<lparr>at_Input = zero_metric, at_Output = zero_metric, at_Cached = zero_metric,
        at_Reasoning = zero_metric\<rparr>,
      ra_Timing = \<lparr>ag_GatewayWait = zero_metric, ag_Upstream = zero_metric, ag_Total = zero_metric,
        ag_FirstOutput = zero_metric\<rparr>,
      ra_BackendTimings = \<lparr>ab_PromptProcessing = zero_throughput,
        ab_TokenGeneration = zero_throughput,
        ab_SpeculativeDraft = \<lparr>ad_DraftTokens = 0, ad_AcceptedTokens = 0, ad_Observations = 0,
          ad_AcceptanceRatio = None\<rparr>\<rparr>,
      ra_CacheReuse = zero_cache\<rparr>"

definition saturatingAdd :: "uint64 \<Rightarrow> uint64 \<Rightarrow> uint64" where
  "saturatingAdd current v = (if MaxUint64 - current < v then MaxUint64 else current + v)"

definition saturatingAddFloat :: "float64 \<Rightarrow> float64 \<Rightarrow> float64" where
  "saturatingAddFloat current v =
     (if fl_less (fl_sub MaxFloat64 current) v then MaxFloat64 else fl_add current v)"

definition addTokenMetric :: "int64 option \<Rightarrow> AggregateMetric \<Rightarrow> AggregateMetric" where
  "addTokenMetric v m = (case v of
     None \<Rightarrow> m
   | Some n \<Rightarrow> if sint n < 0 then m
       else m\<lparr>am_Total := saturatingAdd (am_Total m) n,
              am_Observations := saturatingAdd (am_Observations m) 1\<rparr>)"

definition addDurationMetric :: "int64 \<Rightarrow> AggregateMetric \<Rightarrow> AggregateMetric" where
  "addDurationMetric n m =
     (if sint n < 0 then m
      else m\<lparr>am_Total := saturatingAdd (am_Total m) n,
             am_Observations := saturatingAdd (am_Observations m) 1\<rparr>)"

definition addThroughputMetric ::
  "int64 option \<Rightarrow> float64 option \<Rightarrow> bool \<Rightarrow> AggregateThroughput \<Rightarrow> AggregateThroughput" where
  "addThroughputMetric tokens milliseconds firstTokenIsFree m =
     (case (tokens, milliseconds) of
        (Some t, Some ms) \<Rightarrow>
          if sint t < 0 \<or> fl_less ms fl_zero \<or> IsInf ms \<or> IsNaN ms then m
          else (let timed = (if firstTokenIsFree \<and> t > 0 then t - 1 else t) in
            m\<lparr>ap_TimedTokens := saturatingAdd (ap_TimedTokens m) timed,
              ap_Milliseconds := saturatingAddFloat (ap_Milliseconds m) ms,
              ap_Observations := saturatingAdd (ap_Observations m) 1\<rparr>)
      | _ \<Rightarrow> m)"

definition addDraftMetric :: "int64 option \<Rightarrow> int64 option \<Rightarrow> AggregateDraft \<Rightarrow> AggregateDraft" where
  "addDraftMetric drafted accepted m =
     (case (drafted, accepted) of
        (Some d, Some a) \<Rightarrow>
          if sint d < 0 \<or> sint a < 0 \<or> sint a > sint d then m
          else m\<lparr>ad_DraftTokens := saturatingAdd (ad_DraftTokens m) d,
                 ad_AcceptedTokens := saturatingAdd (ad_AcceptedTokens m) a,
                 ad_Observations := saturatingAdd (ad_Observations m) 1\<rparr>
      | _ \<Rightarrow> m)"

fun addOutcome :: "RequestOutcome \<Rightarrow> AggregateOutcomes \<Rightarrow> AggregateOutcomes" where
  "addOutcome OutcomeSucceeded o1 = o1\<lparr>ao_Succeeded := saturatingAdd (ao_Succeeded o1) 1\<rparr>"
| "addOutcome OutcomeRejected o1 = o1\<lparr>ao_Rejected := saturatingAdd (ao_Rejected o1) 1\<rparr>"
| "addOutcome OutcomeCanceled o1 = o1\<lparr>ao_Canceled := saturatingAdd (ao_Canceled o1) 1\<rparr>"
| "addOutcome OutcomeQueueFull o1 = o1\<lparr>ao_QueueFull := saturatingAdd (ao_QueueFull o1) 1\<rparr>"
| "addOutcome OutcomeBackendStartFailed o1 =
     o1\<lparr>ao_BackendStartFailed := saturatingAdd (ao_BackendStartFailed o1) 1\<rparr>"
| "addOutcome OutcomeUpstreamError o1 = o1\<lparr>ao_UpstreamError := saturatingAdd (ao_UpstreamError o1) 1\<rparr>"
| "addOutcome (OutcomeOther t) o1 = o1\<lparr>ao_Other := saturatingAdd (ao_Other o1) 1\<rparr>"

definition addCacheReuse :: "int64 option \<Rightarrow> int64 option \<Rightarrow> AggregateCacheReuse \<Rightarrow> AggregateCacheReuse" where
  "addCacheReuse input cached m =
     (case (input, cached) of
        (Some i, Some c) \<Rightarrow>
          if sint i \<ge> 0 \<and> sint c \<ge> 0 \<and> sint c \<le> sint i
          then m\<lparr>ac_InputTokens := saturatingAdd (ac_InputTokens m) i,
                 ac_CachedTokens := saturatingAdd (ac_CachedTokens m) c,
                 ac_Observations := saturatingAdd (ac_Observations m) 1\<rparr>
          else m
      | _ \<Rightarrow> m)"

definition addAggregate :: "RequestAggregate \<Rightarrow> RequestRecord \<Rightarrow> RequestAggregate" where
  "addAggregate a r =
     (let t = rr_Tokens r; d = rr_Timing r; b = rr_BackendTimings r in
      \<lparr>ra_Requests = saturatingAdd (ra_Requests a) 1,
       ra_Outcomes = addOutcome (rr_Outcome r) (ra_Outcomes a),
       ra_Tokens =
         \<lparr>at_Input = addTokenMetric (tu_Input t) (at_Input (ra_Tokens a)),
          at_Output = addTokenMetric (tu_Output t) (at_Output (ra_Tokens a)),
          at_Cached = addTokenMetric (tu_Cached t) (at_Cached (ra_Tokens a)),
          at_Reasoning = addTokenMetric (tu_Reasoning t) (at_Reasoning (ra_Tokens a))\<rparr>,
       ra_Timing =
         \<lparr>ag_GatewayWait = addDurationMetric (rt_GatewayWait d) (ag_GatewayWait (ra_Timing a)),
          ag_Upstream = addDurationMetric (rt_Upstream d) (ag_Upstream (ra_Timing a)),
          ag_Total = addDurationMetric (rt_Total d) (ag_Total (ra_Timing a)),
          ag_FirstOutput = addTokenMetric (rt_FirstOutput d) (ag_FirstOutput (ra_Timing a))\<rparr>,
       ra_BackendTimings =
         \<lparr>ab_PromptProcessing = addThroughputMetric (bt_PromptTokens b) (bt_PromptMilliseconds b) False
            (ab_PromptProcessing (ra_BackendTimings a)),
          ab_TokenGeneration = addThroughputMetric (bt_GeneratedTokens b) (bt_GeneratedMilliseconds b) True
            (ab_TokenGeneration (ra_BackendTimings a)),
          ab_SpeculativeDraft = addDraftMetric (bt_DraftTokens b) (bt_DraftAcceptedTokens b)
            (ab_SpeculativeDraft (ra_BackendTimings a))\<rparr>,
       ra_CacheReuse = addCacheReuse (tu_Input t) (tu_Cached t) (ra_CacheReuse a)\<rparr>)"

definition ratio :: "uint64 \<Rightarrow> uint64 \<Rightarrow> float64" where
  "ratio num den = fl_div (float_of_uint64 num) (float_of_uint64 den)"

definition finalizedThroughput :: "AggregateThroughput \<Rightarrow> AggregateThroughput" where
  "finalizedThroughput m =
     (if ap_Observations m > 0 \<and> fl_less fl_zero (ap_Milliseconds m)
      then m\<lparr>ap_TokensPerSecond := Some (fl_div
             (fl_mul (float_of_uint64 (ap_TimedTokens m)) (float_of_uint64 1000)) (ap_Milliseconds m))\<rparr>
      else m)"

definition finalizedAggregate :: "RequestAggregate \<Rightarrow> RequestAggregate" where
  "finalizedAggregate a =
     (let c = ra_CacheReuse a; b = ra_BackendTimings a; d = ab_SpeculativeDraft b in
      a\<lparr>ra_CacheReuse := (if ac_Observations c > 0 \<and> ac_InputTokens c > 0
           then c\<lparr>ac_Ratio := Some (ratio (ac_CachedTokens c) (ac_InputTokens c))\<rparr> else c),
        ra_BackendTimings :=
          \<lparr>ab_PromptProcessing = finalizedThroughput (ab_PromptProcessing b),
           ab_TokenGeneration = finalizedThroughput (ab_TokenGeneration b),
           ab_SpeculativeDraft = (if ad_Observations d > 0 \<and> ad_DraftTokens d > 0
             then d\<lparr>ad_AcceptanceRatio := Some (ratio (ad_AcceptedTokens d) (ad_DraftTokens d))\<rparr>
             else d)\<rparr>\<rparr>)"

section \<open>Saturating counters\<close>

abbreviation cap :: "nat \<Rightarrow> nat" where
  "cap n \<equiv> min 18446744073709551615 n"

lemma unat_saturatingAdd [go_words]: "unat (saturatingAdd a b) = cap (unat a + unat b)"
proof -
  have room: "unat (MaxUint64 - a) = 18446744073709551615 - unat a"
    by (simp add: unat_sub_if_size unat_MaxUint64 unat64_bound word_size)
  show ?thesis
  proof (cases "MaxUint64 - a < b")
    case True
    then have "18446744073709551615 - unat a < unat b"
      using room by (simp add: word_less_nat_alt)
    with True show ?thesis by (simp add: saturatingAdd_def unat_MaxUint64)
  next
    case False
    then have "unat b \<le> 18446744073709551615 - unat a"
      using room by (simp add: word_less_nat_alt)
    then have "unat a + unat b \<le> 18446744073709551615" using unat64_bound [of a] by simp
    with False show ?thesis
      by (simp add: saturatingAdd_def unat_word_ariths)
  qed
qed

lemma saturatingAdd_0 [simp]: "saturatingAdd a 0 = a" "saturatingAdd 0 a = a"
  by (simp_all add: saturatingAdd_def)

interpretation sat: accumulator saturatingAdd "0 :: uint64"
proof
  fix a b c :: uint64
  show "saturatingAdd (saturatingAdd a b) c = saturatingAdd a (saturatingAdd b c)"
    by (simp add: word_unat_eq_iff unat_saturatingAdd min_def)
  show "saturatingAdd a b = saturatingAdd b a"
    by (simp add: word_unat_eq_iff unat_saturatingAdd add.commute)
qed simp

text \<open>
  A view of an aggregate that every record increases by a fixed amount is the capped sum of these
  amounts.
\<close>

lemma unat_fold_counter:
  assumes "\<And>a r. get (add a r) = saturatingAdd (get a) (delta r)"
  shows "unat (get (foldl add a rs)) = cap (unat (get a) + (\<Sum>r\<leftarrow>rs. unat (delta r)))"
proof (induction rs arbitrary: a)
  case Nil
  then show ?case using unat64_bound [of "get a"] by simp
next
  case (Cons r rs)
  then show ?case by (simp add: assms unat_saturatingAdd min_def)
qed

section \<open>What the counters count\<close>

definition observed :: "int64 option \<Rightarrow> bool" where
  "observed v \<longleftrightarrow> (case v of None \<Rightarrow> False | Some n \<Rightarrow> 0 \<le> sint n)"

definition amount :: "int64 option \<Rightarrow> uint64" where
  "amount v = (if observed v then the v else 0)"

definition count_if :: "bool \<Rightarrow> uint64" where
  "count_if b = (if b then 1 else 0)"

lemma unat_count_if [simp]: "unat (count_if b) = (if b then 1 else 0)"
  by (simp add: count_if_def)

lemma sum_list_count_if: "(\<Sum>r\<leftarrow>rs. if P r then 1 else 0) = length (filter P rs)"
  by (induction rs) simp_all

lemma addTokenMetric_view:
  "am_Total (addTokenMetric v m) = saturatingAdd (am_Total m) (amount v)"
  "am_Observations (addTokenMetric v m) = saturatingAdd (am_Observations m) (count_if (observed v))"
  by (auto simp: addTokenMetric_def amount_def observed_def count_if_def split: option.splits)

lemma addDurationMetric_view: "addDurationMetric n m = addTokenMetric (Some n) m"
  by (simp add: addDurationMetric_def addTokenMetric_def)

definition paired :: "int64 option \<Rightarrow> int64 option \<Rightarrow> bool" where
  "paired whole part \<longleftrightarrow> observed whole \<and> observed part \<and> sint (the part) \<le> sint (the whole)"

lemma addCacheReuse_view:
  "ac_InputTokens (addCacheReuse i c m) =
     saturatingAdd (ac_InputTokens m) (if paired i c then amount i else 0)"
  "ac_CachedTokens (addCacheReuse i c m) =
     saturatingAdd (ac_CachedTokens m) (if paired i c then amount c else 0)"
  by (auto simp: addCacheReuse_def paired_def amount_def observed_def split: option.splits)

lemma addDraftMetric_view:
  "ad_DraftTokens (addDraftMetric d a m) =
     saturatingAdd (ad_DraftTokens m) (if paired d a then amount d else 0)"
  "ad_AcceptedTokens (addDraftMetric d a m) =
     saturatingAdd (ad_AcceptedTokens m) (if paired d a then amount a else 0)"
  by (auto simp: addDraftMetric_def paired_def amount_def observed_def split: option.splits)

lemma paired_le:
  assumes "paired w p"
  shows "unat (amount p) \<le> unat (amount w)"
proof -
  obtain a b where v: "w = Some a" "p = Some b" "0 \<le> sint a" "0 \<le> sint b" "sint b \<le> sint a"
    using assms by (auto simp: paired_def observed_def split: option.splits)
  then have "int (unat b) \<le> int (unat a)" using sint_nonneg_unat by metis
  then have "unat b \<le> unat a" by (simp only: of_nat_le_iff)
  with v show ?thesis by (simp add: amount_def observed_def)
qed

lemma addOutcome_view:
  "ao_Succeeded (addOutcome x o1) = saturatingAdd (ao_Succeeded o1) (count_if (x = OutcomeSucceeded))"
  "ao_Canceled (addOutcome x o1) = saturatingAdd (ao_Canceled o1) (count_if (x = OutcomeCanceled))"
  "ao_QueueFull (addOutcome x o1) = saturatingAdd (ao_QueueFull o1) (count_if (x = OutcomeQueueFull))"
  by (cases x; simp add: count_if_def)+

lemma aggregate_counters:
  fixes rs :: "RequestRecord list" and a :: RequestAggregate
  defines "b \<equiv> foldl addAggregate a rs"
  shows "unat (ra_Requests b) = cap (unat (ra_Requests a) + length rs)"
    and "unat (ao_Succeeded (ra_Outcomes b)) = cap (unat (ao_Succeeded (ra_Outcomes a))
           + length (filter (\<lambda>r. rr_Outcome r = OutcomeSucceeded) rs))"
    and "unat (am_Total (at_Input (ra_Tokens b))) = cap (unat (am_Total (at_Input (ra_Tokens a)))
           + (\<Sum>r\<leftarrow>rs. unat (amount (tu_Input (rr_Tokens r)))))"
    and "unat (am_Observations (at_Input (ra_Tokens b))) = cap (unat (am_Observations (at_Input (ra_Tokens a)))
           + length (filter (\<lambda>r. observed (tu_Input (rr_Tokens r))) rs))"
    and "unat (am_Total (at_Output (ra_Tokens b))) = cap (unat (am_Total (at_Output (ra_Tokens a)))
           + (\<Sum>r\<leftarrow>rs. unat (amount (tu_Output (rr_Tokens r)))))"
    and "unat (am_Total (ag_Total (ra_Timing b))) = cap (unat (am_Total (ag_Total (ra_Timing a)))
           + (\<Sum>r\<leftarrow>rs. unat (amount (Some (rt_Total (rr_Timing r))))))"
  unfolding b_def
  using unat_fold_counter [of ra_Requests addAggregate "\<lambda>_. 1" a rs]
    unat_fold_counter [of "\<lambda>a. ao_Succeeded (ra_Outcomes a)" addAggregate
      "\<lambda>r. count_if (rr_Outcome r = OutcomeSucceeded)" a rs]
    unat_fold_counter [of "\<lambda>a. am_Total (at_Input (ra_Tokens a))" addAggregate
      "\<lambda>r. amount (tu_Input (rr_Tokens r))" a rs]
    unat_fold_counter [of "\<lambda>a. am_Observations (at_Input (ra_Tokens a))" addAggregate
      "\<lambda>r. count_if (observed (tu_Input (rr_Tokens r)))" a rs]
    unat_fold_counter [of "\<lambda>a. am_Total (at_Output (ra_Tokens a))" addAggregate
      "\<lambda>r. amount (tu_Output (rr_Tokens r))" a rs]
    unat_fold_counter [of "\<lambda>a. am_Total (ag_Total (ra_Timing a))" addAggregate
      "\<lambda>r. amount (Some (rt_Total (rr_Timing r)))" a rs]
  by (simp_all add: addAggregate_def Let_def addTokenMetric_view addDurationMetric_view addOutcome_view
      sum_list_count_if sum_list_triv)

lemma aggregate_parts_below:
  fixes rs :: "RequestRecord list"
  defines "b \<equiv> foldl addAggregate zero_aggregate rs"
  shows "ac_CachedTokens (ra_CacheReuse b) \<le> ac_InputTokens (ra_CacheReuse b)"
    and "ad_AcceptedTokens (ab_SpeculativeDraft (ra_BackendTimings b))
           \<le> ad_DraftTokens (ab_SpeculativeDraft (ra_BackendTimings b))"
proof -
  let ?i = "\<lambda>r. tu_Input (rr_Tokens r)" and ?c = "\<lambda>r. tu_Cached (rr_Tokens r)"
  have "(\<Sum>r\<leftarrow>rs. unat (if paired (?i r) (?c r) then amount (?c r) else 0))
      \<le> (\<Sum>r\<leftarrow>rs. unat (if paired (?i r) (?c r) then amount (?i r) else 0))"
    by (rule sum_list_mono) (simp add: paired_le)
  then show "ac_CachedTokens (ra_CacheReuse b) \<le> ac_InputTokens (ra_CacheReuse b)"
    using unat_fold_counter [of "\<lambda>a. ac_CachedTokens (ra_CacheReuse a)" addAggregate
        "\<lambda>r. if paired (?i r) (?c r) then amount (?c r) else 0" zero_aggregate rs]
      unat_fold_counter [of "\<lambda>a. ac_InputTokens (ra_CacheReuse a)" addAggregate
        "\<lambda>r. if paired (?i r) (?c r) then amount (?i r) else 0" zero_aggregate rs]
    by (simp add: b_def addAggregate_def Let_def addCacheReuse_view zero_aggregate_def zero_cache_def
        word_le_nat_alt min.mono)
  let ?d = "\<lambda>r. bt_DraftTokens (rr_BackendTimings r)" and ?a = "\<lambda>r. bt_DraftAcceptedTokens (rr_BackendTimings r)"
  have "(\<Sum>r\<leftarrow>rs. unat (if paired (?d r) (?a r) then amount (?a r) else 0))
      \<le> (\<Sum>r\<leftarrow>rs. unat (if paired (?d r) (?a r) then amount (?d r) else 0))"
    by (rule sum_list_mono) (simp add: paired_le)
  then show "ad_AcceptedTokens (ab_SpeculativeDraft (ra_BackendTimings b))
           \<le> ad_DraftTokens (ab_SpeculativeDraft (ra_BackendTimings b))"
    using unat_fold_counter [of "\<lambda>a. ad_AcceptedTokens (ab_SpeculativeDraft (ra_BackendTimings a))" addAggregate
        "\<lambda>r. if paired (?d r) (?a r) then amount (?a r) else 0" zero_aggregate rs]
      unat_fold_counter [of "\<lambda>a. ad_DraftTokens (ab_SpeculativeDraft (ra_BackendTimings a))" addAggregate
        "\<lambda>r. if paired (?d r) (?a r) then amount (?d r) else 0" zero_aggregate rs]
    by (simp add: b_def addAggregate_def Let_def addDraftMetric_view zero_aggregate_def
        word_le_nat_alt min.mono)
qed

end
