(* ===== verification/Requests.thy ===== *)
theory Requests
  imports ConfigProps TextModel Podman Usage
begin

text \<open>
  What the gateway reads from a chat request: the observed controls, session and peer
  (\<^verbatim>\<open>internal/gateway/observability.go\<close>), the check of media parts (\<^verbatim>\<open>media.go\<close>) and the sampling
  policy (\<^verbatim>\<open>sampling.go\<close>). A request body is a JSON document: its text is parsed by the Go library, so the
  model starts from the syntax tree, which keeps repeated fields and the text of numbers.
\<close>

section \<open>JSON\<close>

datatype json =
    JNull | JBool bool | JNum string | JStr string | JArr "json list" | JObj "(string \<times> json) list"

text \<open>
  A decoder reads one value and then looks for more. \<open>Malformed\<close> is a text whose first value does
  not parse, \<open>Trailing\<close> one with something after the first value.
\<close>

datatype document = Malformed | Trailing json | Whole json

text \<open>
  \<^verbatim>\<open>json.RawMessage\<close> is a tree, or absent. Decoding \<^verbatim>\<open>null\<close> leaves the zero value without an error,
  decoding an absent message fails. In a map the last of several equal keys counts.
\<close>

type_synonym raw = "json option"

definition object_of :: "(string \<times> json) list \<Rightarrow> json table" where
  "object_of kvs = foldl (\<lambda>m (k, v). upsert k v m) [] kvs"

definition unmarshal_bool :: "raw \<Rightarrow> bool option" where
  "unmarshal_bool r = (case r of Some (JBool b) \<Rightarrow> Some b | Some JNull \<Rightarrow> Some False | _ \<Rightarrow> None)"

definition unmarshal_string :: "raw \<Rightarrow> string option" where
  "unmarshal_string r = (case r of Some (JStr s) \<Rightarrow> Some s | Some JNull \<Rightarrow> Some [] | _ \<Rightarrow> None)"

definition unmarshal_list :: "raw \<Rightarrow> json list option" where
  "unmarshal_list r = (case r of Some (JArr xs) \<Rightarrow> Some xs | Some JNull \<Rightarrow> Some [] | _ \<Rightarrow> None)"

definition unmarshal_object :: "raw \<Rightarrow> json table option" where
  "unmarshal_object r = (case r of Some (JObj kvs) \<Rightarrow> Some (object_of kvs) | Some JNull \<Rightarrow> Some [] | _ \<Rightarrow> None)"

definition decodeJSONObject :: "document \<Rightarrow> gerror + json table" where
  "decodeJSONObject d = (case d of
     Whole (JObj kvs) \<Rightarrow> Inr (object_of kvs)
   | Trailing (JObj kvs) \<Rightarrow> Inl (ErrorText ''Request body contains trailing data'')
   | _ \<Rightarrow> Inl (ErrorText ''Request body must be one JSON object''))"

definition isJSONNull :: "json \<Rightarrow> bool" where
  "isJSONNull j \<longleftrightarrow> j = JNull"

section \<open>Bounded text\<close>

text \<open>
  The runes of a text as \<^verbatim>\<open>range\<close> yields them: an invalid byte is the replacement character. Which
  characters are format characters is the table \<^verbatim>\<open>unicode.Cf\<close> of the Go library, the argument \<open>isCf\<close>.
\<close>

function runes :: "string \<Rightarrow> nat list" where
  "runes s =
     (if s = [] then []
      else case next_rune s of
        Some bs \<Rightarrow> rune_value bs # runes (drop (max 1 (length bs)) s)
      | None \<Rightarrow> 65533 # runes (tl s))"
  by pat_completeness auto
termination by (relation "measure length") auto

declare runes.simps [simp del]

definition control_rune :: "(nat \<Rightarrow> bool) \<Rightarrow> nat \<Rightarrow> bool" where
  "control_rune isCf n \<longleftrightarrow> n < 32 \<or> 127 \<le> n \<and> n < 160 \<or> isCf n"

fun bounded_from :: "(nat \<Rightarrow> bool) \<Rightarrow> nat \<Rightarrow> nat list \<Rightarrow> nat list \<Rightarrow> nat list" where
  "bounded_from isCf limit clean [] = clean"
| "bounded_from isCf limit clean (c # cs) =
     (if length clean = limit then clean @ [8230]
      else bounded_from isCf limit (clean @ [if control_rune isCf c then 32 else c]) cs)"

definition boundedText :: "(nat \<Rightarrow> bool) \<Rightarrow> string \<Rightarrow> nat \<Rightarrow> string" where
  "boundedText isCf v limit = concat (map utf8_encode (bounded_from isCf limit [] (runes v)))"

definition maxObservedTextRunes :: nat where "maxObservedTextRunes = 160"
definition maxObservedValueRunes :: nat where "maxObservedValueRunes = 64"

section \<open>Observed controls\<close>

text \<open>What the Go library computes: \<^verbatim>\<open>strconv.ParseFloat\<close>, \<^verbatim>\<open>unicode.Cf\<close>, \<^verbatim>\<open>json.Marshal\<close> of a catalog value.\<close>

record request_env =
  re_ParseFloat :: "string \<Rightarrow> float64 option"
  re_Cf :: "nat \<Rightarrow> bool"
  re_Marshal :: "json_value \<Rightarrow> string option"

record requestObservation =
  ro_Model :: string
  ro_Stream :: bool
  ro_Controls :: RequestControls

definition samplerFields :: "string list" where
  "samplerFields = [''temperature'', ''top_p'', ''top_k'', ''min_p'', ''presence_penalty'', ''repeat_penalty'']"

definition observeStream :: "raw \<Rightarrow> bool \<times> string list" where
  "observeStream r =
     (if r = None \<or> r = Some JNull then (False, [])
      else case unmarshal_bool r of
        None \<Rightarrow> (False, [''stream has an unexpected type''])
      | Some b \<Rightarrow> (b, []))"

definition observed :: "string \<Rightarrow> ControlSource \<Rightarrow> bool \<Rightarrow> string \<Rightarrow> ObservedControl" where
  "observed name source provided v =
     \<lparr>oc_Name = name, oc_Source = source, oc_Provided = provided, oc_Value = v\<rparr>"

definition observeNumber :: "request_env \<Rightarrow> string \<Rightarrow> raw \<Rightarrow> ObservedControl" where
  "observeNumber re name r =
     (case r of
        None \<Rightarrow> observed name ControlDefault False []
      | Some JNull \<Rightarrow> observed name ControlDefault True []
      | Some (JNum t) \<Rightarrow>
          (case re_ParseFloat re t of
             None \<Rightarrow> observed name ControlInvalid True []
           | Some x \<Rightarrow> (if IsInf x \<or> IsNaN x then observed name ControlInvalid True []
                        else observed name ControlClient True (boundedText (re_Cf re) t maxObservedValueRunes)))
      | Some _ \<Rightarrow> observed name ControlInvalid True [])"

definition reasoning_values :: "string list" where
  "reasoning_values = [''none'', ''off'', ''on'', ''adaptive'', ''minimal'', ''low'', ''medium'', ''high'', ''xhigh'', ''max'']"

definition observeReasoningString :: "request_env \<Rightarrow> string \<Rightarrow> raw \<Rightarrow> ObservedControl" where
  "observeReasoningString re name r =
     (if r = None \<or> r = Some JNull then observed name ControlDefault (r \<noteq> None) []
      else case unmarshal_string r of
        None \<Rightarrow> observed name ControlInvalid True []
      | Some v \<Rightarrow>
          (if v \<notin> set reasoning_values then observed name ControlInvalid True []
           else observed name ControlClient True (boundedText (re_Cf re) v maxObservedValueRunes)))"

definition observeBool :: "string \<Rightarrow> raw \<Rightarrow> ObservedControl" where
  "observeBool name r =
     (if r = None \<or> r = Some JNull then observed name ControlDefault (r \<noteq> None) []
      else case unmarshal_bool r of
        None \<Rightarrow> observed name ControlInvalid True []
      | Some b \<Rightarrow> observed name ControlClient True (if b then ''true'' else ''false''))"

definition control_kind :: "ObservedControl \<Rightarrow> string \<times> bool" where
  "control_kind c =
     (if hasSuffix (oc_Name c) ''enable_thinking'' then (''enable_thinking'', oc_Value c = ''true'')
      else if hasSuffix (oc_Name c) ''reasoning_effort''
      then (''reasoning_effort'', oc_Value c \<noteq> ''none'' \<and> oc_Value c \<noteq> ''off'')
      else if hasSuffix (oc_Name c) ''reasoning_strength''
      then (''reasoning_strength'', oc_Value c \<noteq> ''none'' \<and> oc_Value c \<noteq> ''off'')
      else ([], True))"

fun conflict_from :: "bool option \<Rightarrow> string table \<Rightarrow> ObservedControl list \<Rightarrow> bool" where
  "conflict_from decision vals [] = False"
| "conflict_from decision vals (c # cs) =
     (if oc_Source c \<noteq> ControlClient then conflict_from decision vals cs
      else case control_kind c of (kind, current) \<Rightarrow>
        (if lookup vals kind \<noteq> None \<and> lookup vals kind \<noteq> Some (oc_Value c) then True
         else if decision \<noteq> None \<and> decision \<noteq> Some current then True
         else conflict_from (Some current) (upsert kind (oc_Value c) vals) cs))"

definition reasoningControlsConflict :: "ObservedControl list \<Rightarrow> bool" where
  "reasoningControlsConflict cs = conflict_from None [] cs"

definition kwargs_controls :: "request_env \<Rightarrow> raw \<Rightarrow> ObservedControl list \<times> string list" where
  "kwargs_controls re r =
     (let thinking = ''chat_template_kwargs.enable_thinking''; effort = ''chat_template_kwargs.reasoning_effort'';
          strength = ''chat_template_kwargs.reasoning_strength'' in
      case r of
        Some j \<Rightarrow>
          (if isJSONNull j
           then (map (\<lambda>n. observed n ControlDefault False []) [thinking, effort, strength], [])
           else (case decodeJSONObject (Whole j) of
             Inl _ \<Rightarrow> ([observed ''chat_template_kwargs'' ControlInvalid True []],
                        [''chat_template_kwargs has an unexpected type''])
           | Inr kwargs \<Rightarrow>
               ([observeBool thinking (lookup kwargs ''enable_thinking''),
                 observeReasoningString re effort (lookup kwargs ''reasoning_effort''),
                 observeReasoningString re strength (lookup kwargs ''reasoning_strength'')], [])))
      | None \<Rightarrow> (map (\<lambda>n. observed n ControlDefault False []) [thinking, effort, strength], []))"

definition inspectRequest :: "request_env \<Rightarrow> document \<Rightarrow> gerror + requestObservation" where
  "inspectRequest re body =
     bind_res (decodeJSONObject body) (\<lambda>object.
     case lookup object ''model'' of
       None \<Rightarrow> Inl (ErrorText ''Request body requires a model string'')
     | Some rawModel \<Rightarrow>
         (case unmarshal_string (Some rawModel) of
            None \<Rightarrow> Inl (ErrorText ''Request body requires a non-empty model string'')
          | Some model \<Rightarrow>
              (if trimSpace model = [] then Inl (ErrorText ''Request body requires a non-empty model string'')
               else
                 (let (stream, diagnostics) = observeStream (lookup object ''stream'');
                      sampling = map (\<lambda>name. observeNumber re name (lookup object name)) samplerFields;
                      (kwargs, diagnostics2) = kwargs_controls re (lookup object ''chat_template_kwargs'');
                      reasoning =
                        [observeReasoningString re ''reasoning_effort'' (lookup object ''reasoning_effort''),
                         observeReasoningString re ''reasoning_strength'' (lookup object ''reasoning_strength'')] @ kwargs;
                      diagnostics3 = (if reasoningControlsConflict reasoning
                        then [''conflicting reasoning controls''] else []) in
                  Inr \<lparr>ro_Model = model, ro_Stream = stream,
                    ro_Controls = \<lparr>rc_SamplingPolicy = [], rc_SamplingMode = [], rc_Reasoning = reasoning,
                      rc_Sampling = sampling, rc_Diagnostics = diagnostics @ diagnostics2 @ diagnostics3\<rparr>\<rparr>))))"

definition controlValues :: "ObservedControl list \<Rightarrow> string list" where
  "controlValues cs = concat (map (\<lambda>c. case oc_Source c of
       ControlClient \<Rightarrow> [oc_Name c @ ''='' @ oc_Value c]
     | ControlGatewayDefault \<Rightarrow> [oc_Name c @ ''='' @ oc_Value c @ ''(gateway)'']
     | _ \<Rightarrow> []) cs)"

definition controlsLogSummary :: "RequestControls \<Rightarrow> string" where
  "controlsLogSummary controls =
     (let reasoning = controlValues (rc_Reasoning controls); samplers = controlValues (rc_Sampling controls);
          invalid = length (filter (\<lambda>c. oc_Source c = ControlInvalid) (rc_Reasoning controls @ rc_Sampling controls)) in
      join_with '' ''
        ((if reasoning = [] then [''reasoning=defaults''] else reasoning)
         @ (if rc_SamplingPolicy controls \<noteq> []
            then [''sampling-policy='' @ rc_SamplingPolicy controls, ''sampling-mode='' @ rc_SamplingMode controls] else [])
         @ (if samplers = [] then [''samplers=defaults''] else samplers)
         @ (if 0 < invalid then [''invalid-controls='' @ Itoa invalid] else [])))"

section \<open>Peer and session\<close>

definition requestPeer :: "(nat \<Rightarrow> bool) \<Rightarrow> string \<Rightarrow> string" where
  "requestPeer isCf remoteAddr =
     boundedText isCf (case SplitHostPort remoteAddr of Some (host, _) \<Rightarrow> host | None \<Rightarrow> remoteAddr) maxObservedTextRunes"

definition session_char :: "nat \<Rightarrow> char \<Rightarrow> bool" where
  "session_char i c \<longleftrightarrow>
     (if i \<in> {8, 13, 18, 23} then c = CHR ''-'' else 48 \<le> code c \<and> code c \<le> 57 \<or> 97 \<le> code c \<and> code c \<le> 102)"

definition normalizeSessionID :: "string \<Rightarrow> string option" where
  "normalizeSessionID v =
     (let v = map lower_char (trimSpace v) in
      if length v = 36 \<and> list_all (\<lambda>(i, c). session_char i c) (zip [0..<36] v) then Some v else None)"

definition SessionIDHeader :: string where "SessionIDHeader = ''X-Paracetamol-Session-ID''"

definition requestSessionID :: "(string \<Rightarrow> string list) \<Rightarrow> string" where
  "requestSessionID header =
     (case List.map_filter normalizeSessionID
        (concat (map header [SessionIDHeader, ''X-Session-Affinity'', ''X-Session-ID''])) of
        [] \<Rightarrow> [] | v # _ \<Rightarrow> v)"

section \<open>Media parts\<close>

text \<open>
  \<^verbatim>\<open>base64.StdEncoding.Strict()\<close>: line ends are skipped, the last group may be padded, and the unused
  bits of a padded group are zero. The result is the number of decoded bytes.
\<close>

definition base64_value :: "char \<Rightarrow> nat option" where
  "base64_value c =
     (if 65 \<le> code c \<and> code c \<le> 90 then Some (code c - 65)
      else if 97 \<le> code c \<and> code c \<le> 122 then Some (code c - 71)
      else if 48 \<le> code c \<and> code c \<le> 57 then Some (code c + 4)
      else if c = CHR ''+'' then Some 62 else if c = CHR ''/'' then Some 63 else None)"

definition base64_ends :: "char \<Rightarrow> nat \<Rightarrow> bool" where
  "base64_ends c n = (case base64_value c of Some v \<Rightarrow> v mod n = 0 | None \<Rightarrow> False)"

fun base64_groups :: "string \<Rightarrow> nat option" where
  "base64_groups [] = Some 0"
| "base64_groups (a # b # c # d # rest) =
     (if base64_value a = None \<or> base64_value b = None then None
      else if c = CHR ''='' then (if d = CHR ''='' \<and> rest = [] \<and> base64_ends b 16 then Some 1 else None)
      else if d = CHR ''='' then (if rest = [] \<and> base64_ends c 4 then Some 2 else None)
      else if base64_value c = None \<or> base64_value d = None then None
      else map_option ((+) 3) (base64_groups rest))"
| "base64_groups _ = None"

definition base64_length :: "string \<Rightarrow> nat option" where
  "base64_length s = base64_groups (filter (\<lambda>c. code c \<noteq> 10 \<and> code c \<noteq> 13) s)"

definition validInlineImage :: "string \<Rightarrow> bool" where
  "validInlineImage url =
     (case cut CHR '','' url of
        None \<Rightarrow> False
      | Some (header, payload) \<Rightarrow>
          hasPrefix header ''data:image/'' \<and> hasSuffix header '';base64'' \<and>
          trimSuffix (trimPrefix header ''data:image/'') '';base64'' \<noteq> [] \<and>
          (case base64_length payload of Some n \<Rightarrow> 0 < n | None \<Rightarrow> False))"

definition check_part :: "Model \<Rightarrow> json \<Rightarrow> gerror option" where
  "check_part model rawPart =
     (case unmarshal_object (Some rawPart) of
        None \<Rightarrow> None
      | Some part \<Rightarrow>
          (case unmarshal_string (lookup part ''type'') of
             None \<Rightarrow> None
           | Some kind \<Rightarrow>
               (if kind = ''image_url'' then
                  (if \<not> mo_Vision model then Some (ErrorText ''The selected model does not support image input'')
                   else if (case unmarshal_object (lookup part ''image_url'') of
                              None \<Rightarrow> False
                            | Some img \<Rightarrow> (case unmarshal_string (lookup img ''url'') of
                                 None \<Rightarrow> False | Some url \<Rightarrow> validInlineImage url))
                   then None
                   else Some (ErrorText ''Image input requires a non-empty inline base64 image data URL''))
                else if kind = ''input_audio'' \<or> kind = ''input_video'' \<or> kind = ''video_url''
                then Some (ErrorText ''Audio and video input are not supported'')
                else None)))"

definition message_parts :: "json \<Rightarrow> json list" where
  "message_parts rawMessage =
     (case unmarshal_object (Some rawMessage) of
        None \<Rightarrow> []
      | Some message \<Rightarrow> (case unmarshal_list (lookup message ''content'') of None \<Rightarrow> [] | Some parts \<Rightarrow> parts))"

definition validateRequestMedia :: "document \<Rightarrow> Model \<Rightarrow> gerror option" where
  "validateRequestMedia body model =
     (case decodeJSONObject body of
        Inl _ \<Rightarrow> Some (ErrorText ''Cannot validate request media'')
      | Inr object \<Rightarrow>
          (case unmarshal_list (lookup object ''messages'') of
             None \<Rightarrow> None
           | Some messages \<Rightarrow> check_all (check_part model) (concat (map message_parts messages))))"

section \<open>The sampling policy\<close>

text \<open>
  The body has been decoded before, so it is never malformed here. Fields are read in order and the
  first repeated one is refused.
\<close>

definition policyObject :: "document \<Rightarrow> gerror + json table" where
  "policyObject d = (case d of
     Whole (JObj kvs) \<Rightarrow>
       (if distinct (map fst kvs) then Inr (object_of kvs)
        else Inl (ErrorText ''Duplicate JSON fields are ambiguous for sampling policy''))
   | Trailing (JObj kvs) \<Rightarrow>
       (if distinct (map fst kvs) then Inl (ErrorText ''Trailing data in sampling control object'')
        else Inl (ErrorText ''Duplicate JSON fields are ambiguous for sampling policy''))
   | _ \<Rightarrow> Inl (ErrorText ''Sampling policy requires JSON objects for reasoning controls''))"

record thinking_state =
  ts_thinking :: bool
  ts_selected :: bool
  ts_effort :: string

definition selectMode :: "Model \<Rightarrow> bool \<Rightarrow> thinking_state \<Rightarrow> gerror + thinking_state" where
  "selectMode model enabled st =
     (if \<not> enabled \<and> \<not> mo_ReasoningOff model
      then Inl (ErrorText ''This model does not support disabling reasoning'')
      else if ts_selected st \<and> ts_thinking st \<noteq> enabled
      then Inl (ErrorText ''Conflicting reasoning controls; send one thinking selection'')
      else Inr (st\<lparr>ts_thinking := enabled, ts_selected := True\<rparr>))"

definition selectBool :: "Model \<Rightarrow> json \<Rightarrow> thinking_state \<Rightarrow> gerror + thinking_state" where
  "selectBool model r st =
     (if isJSONNull r then Inl (ErrorText ''Thinking toggles must be boolean'')
      else case unmarshal_bool (Some r) of
        None \<Rightarrow> Inl (ErrorText ''Thinking toggles must be boolean'')
      | Some enabled \<Rightarrow> selectMode model enabled st)"

definition effort_levels :: "Model \<Rightarrow> string list" where
  "effort_levels model =
     (if mo_ReasoningControl model = ''toggle''
      then [''minimal'', ''low'', ''medium'', ''high'', ''xhigh'', ''max''] else mo_ReasoningLevels model)"

definition selectEffort :: "Model \<Rightarrow> raw \<Rightarrow> bool \<Rightarrow> thinking_state \<Rightarrow> gerror + thinking_state" where
  "selectEffort model r topLevel st =
     (case r of
        None \<Rightarrow> Inr st
      | Some j \<Rightarrow>
          (if isJSONNull j then Inl (ErrorText ''reasoning_effort must be a supported string'')
           else case unmarshal_string (Some j) of
             None \<Rightarrow> Inl (ErrorText ''reasoning_effort must be a supported string'')
           | Some v \<Rightarrow>
               (if topLevel \<and> v = ''none'' then selectMode model False st
                else if v \<notin> set (effort_levels model)
                then Inl (ErrorText (''Unsupported reasoning_effort for this model; '' @
                       ''use none at the top level to disable thinking''))
                else if ts_effort st \<noteq> [] \<and> ts_effort st \<noteq> v \<and> mo_ReasoningControl model \<noteq> ''toggle''
                then Inl (ErrorText ''Conflicting reasoning_effort selections'')
                else selectMode model True (st\<lparr>ts_effort := v\<rparr>))))"

definition default_thinking :: "Model \<Rightarrow> bool" where
  "default_thinking model \<longleftrightarrow>
     mo_ReasoningDefault model \<noteq> ''off'' \<and> mo_ReasoningDefault model \<noteq> ''none'' \<and> mo_ReasoningControl model \<noteq> []"

definition kwargs_thinking :: "Model \<Rightarrow> raw \<Rightarrow> thinking_state \<Rightarrow> gerror + thinking_state" where
  "kwargs_thinking model r st =
     (case r of
        None \<Rightarrow> Inr st
      | Some j \<Rightarrow>
          bind_res (policyObject (Whole j)) (\<lambda>kwargs.
          bind_res (case lookup kwargs ''enable_thinking'' of None \<Rightarrow> Inr st | Some b \<Rightarrow> selectBool model b st) (\<lambda>st.
          selectEffort model (lookup kwargs ''reasoning_effort'') False st)))"

definition requestThinking :: "json table \<Rightarrow> Model \<Rightarrow> gerror + bool" where
  "requestThinking object model =
     bind_res (selectEffort model (lookup object ''reasoning_effort'') True
       \<lparr>ts_thinking = default_thinking model, ts_selected = False, ts_effort = []\<rparr>) (\<lambda>st.
     bind_res (kwargs_thinking model (lookup object ''chat_template_kwargs'') st) (\<lambda>st. Inr (ts_thinking st)))"

definition note_default :: "string \<Rightarrow> string \<Rightarrow> RequestControls \<Rightarrow> RequestControls" where
  "note_default name encoded controls =
     controls\<lparr>rc_Sampling := map (\<lambda>c. if oc_Name c = name
        then c\<lparr>oc_Source := ControlGatewayDefault, oc_Value := encoded\<rparr> else c) (rc_Sampling controls)\<rparr>"

fun fill_defaults ::
  "request_env \<Rightarrow> (string \<times> json_value) list \<Rightarrow> json table \<Rightarrow> RequestControls \<Rightarrow> bool
     \<Rightarrow> (gerror + json table \<times> bool) \<times> RequestControls" where
  "fill_defaults re [] object controls changed = (Inr (object, changed), controls)"
| "fill_defaults re ((name, v) # defaults) object controls changed =
     (if lookup object name \<noteq> None \<and> lookup object name \<noteq> Some JNull
      then fill_defaults re defaults object controls changed
      else case re_Marshal re v of
        None \<Rightarrow> (Inl (ErrorText ''Cannot encode the managed sampling policy''), controls)
      | Some encoded \<Rightarrow>
          fill_defaults re defaults (upsert name (JNum encoded) object) (note_default name encoded controls) True)"

text \<open>\<^verbatim>\<open>json.Marshal\<close> of a map writes the keys in order.\<close>

definition marshal_object :: "json table \<Rightarrow> json" where
  "marshal_object object = JObj (sort_key fst object)"

definition applySamplingDefaults ::
  "request_env \<Rightarrow> document \<Rightarrow> Model \<Rightarrow> RequestControls \<Rightarrow> (gerror + document) \<times> RequestControls" where
  "applySamplingDefaults re body model controls =
     (if mo_SamplingPolicy model = [] then (Inr body, controls)
      else case policyObject body of
        Inl e \<Rightarrow> (Inl e, controls)
      | Inr object \<Rightarrow>
          (case requestThinking object model of
             Inl e \<Rightarrow> (Inl e, controls)
           | Inr thinking \<Rightarrow>
               (let controls = controls\<lparr>rc_SamplingPolicy := mo_SamplingPolicy model,
                      rc_SamplingMode := if thinking then ''thinking'' else ''non_thinking''\<rparr> in
                case fill_defaults re (Defaults (mo_samplingDefaults model) thinking) object controls False of
                  (Inl e, controls) \<Rightarrow> (Inl e, controls)
                | (Inr (object, changed), controls) \<Rightarrow>
                    (Inr (if changed then Whole (marshal_object object) else body), controls))))"

section \<open>Properties\<close>

subsection \<open>Objects\<close>

lemma lookup_foldl_upsert:
  "lookup (foldl (\<lambda>m (k, v). upsert k v m) m kvs) k = (case lookup (rev kvs) k of Some v \<Rightarrow> Some v | None \<Rightarrow> lookup m k)"
  by (induction kvs arbitrary: m) (auto split: option.splits prod.splits)

lemma lookup_object_of: "lookup (object_of kvs) k = lookup (rev kvs) k"
  by (simp add: object_of_def lookup_foldl_upsert split: option.splits)

lemma wf_foldl_upsert: "wf_map m \<Longrightarrow> wf_map (foldl (\<lambda>m (k, v). upsert k v m) m kvs)"
  by (induction kvs arbitrary: m) (auto split: prod.splits)

lemma wf_object_of [simp]: "wf_map (object_of kvs)"
  unfolding object_of_def by (rule wf_foldl_upsert) (simp add: wf_map_def)

lemma map_of_rev_distinct: "distinct (map fst kvs) \<Longrightarrow> map_of (rev kvs) = map_of kvs"
  by (rule map_of_inject_set [THEN iffD2]) (simp_all add: rev_map [symmetric])

lemma distinct_sort_key_fst: "wf_map m \<Longrightarrow> distinct (map fst (sort_key fst m))"
  unfolding wf_map_def by (metis distinct_map distinct_sort set_sort)

lemma lookup_marshal:
  assumes "wf_map m"
  shows "decodeJSONObject (Whole (marshal_object m)) = Inr (object_of (sort_key fst m))"
    "lookup (object_of (sort_key fst m)) k = lookup m k"
proof -
  have d: "distinct (map fst (sort_key fst m))" "distinct (map fst m)"
    using distinct_sort_key_fst [OF assms] assms by (simp_all add: wf_map_def)
  show "lookup (object_of (sort_key fst m)) k = lookup m k"
    using map_of_inject_set [THEN iffD2, OF d] d by (simp add: lookup_object_of map_of_rev_distinct)
qed (simp add: decodeJSONObject_def marshal_object_def)

subsection \<open>What is observed\<close>

definition observed_fields :: "string list" where
  "observed_fields = [''model'', ''stream'', ''reasoning_effort'', ''reasoning_strength'', ''chat_template_kwargs''] @ samplerFields"

text \<open>
  The observation of a request is a function of the closed list of control fields: two requests that
  agree on them are observed alike, whatever messages, tools or other fields they carry.
\<close>

theorem observation_confined:
  assumes "decodeJSONObject (Whole j1) = Inr o1" "decodeJSONObject (Whole j2) = Inr o2"
    and "map (lookup o1) observed_fields = map (lookup o2) observed_fields"
  shows "inspectRequest re (Whole j1) = inspectRequest re (Whole j2)"
proof -
  have f: "lookup o1 ''model'' = lookup o2 ''model''" "lookup o1 ''stream'' = lookup o2 ''stream''"
    "lookup o1 ''reasoning_effort'' = lookup o2 ''reasoning_effort''"
    "lookup o1 ''reasoning_strength'' = lookup o2 ''reasoning_strength''"
    "lookup o1 ''chat_template_kwargs'' = lookup o2 ''chat_template_kwargs''"
    "map (lookup o1) samplerFields = map (lookup o2) samplerFields"
    using assms(3) by (simp_all only: observed_fields_def list.map list.inject append.simps)
  have "map (\<lambda>name. observeNumber re name (lookup o1 name)) samplerFields =
      map (\<lambda>name. observeNumber re name (lookup o2 name)) samplerFields"
    using f(6) by (simp only: samplerFields_def list.map list.inject)
  then show ?thesis
    unfolding inspectRequest_def assms(1,2) bind_res_simps f(1-5) by (simp only:)
qed

lemma bounded_from_length:
  "length clean \<le> limit \<Longrightarrow> length (bounded_from isCf limit clean cs) \<le> Suc limit"
  by (induction cs arbitrary: clean) auto

definition plain :: "(nat \<Rightarrow> bool) \<Rightarrow> nat list \<Rightarrow> bool" where
  "plain isCf cs \<longleftrightarrow> list_all (\<lambda>c. \<not> control_rune isCf c) cs"

lemma plain_snoc: "plain isCf (cs @ [c]) \<longleftrightarrow> plain isCf cs \<and> \<not> control_rune isCf c"
  by (simp add: plain_def)

lemma bounded_from_plain:
  assumes "\<not> isCf 32" "\<not> isCf 8230" "plain isCf clean"
  shows "plain isCf (bounded_from isCf limit clean cs)"
proof -
  have sp: "\<not> control_rune isCf 32" "\<not> control_rune isCf 8230"
    using assms(1,2) by (simp_all add: control_rune_def)
  show ?thesis
    using assms(3)
  proof (induction cs arbitrary: clean)
    case (Cons c cs)
    have "plain isCf (clean @ [if control_rune isCf c then 32 else c])"
      unfolding plain_snoc using Cons.prems sp(1) by simp
    from Cons.IH [OF this] show ?case using Cons.prems sp(2) by (simp add: plain_snoc)
  qed simp
qed

subsection \<open>Reasoning\<close>

text \<open>The selections that a request makes, in the order in which they are read.\<close>

definition effort_selection :: "raw \<Rightarrow> bool \<Rightarrow> bool list" where
  "effort_selection r topLevel = (case r of Some (JStr v) \<Rightarrow> [\<not> (topLevel \<and> v = ''none'')] | _ \<Rightarrow> [])"

definition kwargs_selections :: "raw \<Rightarrow> bool list" where
  "kwargs_selections r = (case r of
     Some (JObj kvs) \<Rightarrow>
       (case lookup kvs ''enable_thinking'' of Some (JBool b) \<Rightarrow> [b] | _ \<Rightarrow> []) @
       effort_selection (lookup kvs ''reasoning_effort'') False
   | _ \<Rightarrow> [])"

definition selections :: "json table \<Rightarrow> bool list" where
  "selections object = effort_selection (lookup object ''reasoning_effort'') True
     @ kwargs_selections (lookup object ''chat_template_kwargs'')"

text \<open>A state agrees with the selections read so far.\<close>

definition agrees :: "Model \<Rightarrow> bool list \<Rightarrow> thinking_state \<Rightarrow> bool" where
  "agrees model bs st \<longleftrightarrow>
     (if bs = [] then \<not> ts_selected st \<and> ts_thinking st = default_thinking model
      else ts_selected st \<and> (\<forall>b\<in>set bs. b = ts_thinking st) \<and> (ts_thinking st \<or> mo_ReasoningOff model))"

lemma selectMode_agrees:
  "agrees model bs st \<Longrightarrow> selectMode model b st = Inr st' \<Longrightarrow> agrees model (bs @ [b]) st'"
proof -
  assume st: "agrees model bs st" and m: "selectMode model b st = Inr st'"
  then have st': "st' = st\<lparr>ts_thinking := b, ts_selected := True\<rparr>" "b \<or> mo_ReasoningOff model"
      "ts_selected st \<Longrightarrow> ts_thinking st = b"
    by (simp_all add: selectMode_def split: if_splits)
  then show ?thesis using st by (cases bs) (simp_all add: agrees_def)
qed

lemma agrees_effort [simp]: "agrees model bs (st\<lparr>ts_effort := v\<rparr>) = agrees model bs st"
  by (simp add: agrees_def)

lemma selectEffort_agrees:
  assumes "agrees model bs st" "selectEffort model r topLevel st = Inr st'"
  shows "agrees model (bs @ effort_selection r topLevel) st'"
proof (cases r)
  case None
  then show ?thesis using assms by (simp add: selectEffort_def effort_selection_def)
next
  case (Some j)
  then obtain v where v: "j = JStr v"
    using assms(2) by (cases j) (simp_all add: selectEffort_def isJSONNull_def unmarshal_string_def)
  show ?thesis
  proof (cases "topLevel \<and> v = ''none''")
    case True
    then show ?thesis using selectMode_agrees [OF assms(1), of False st'] assms(2) Some v
      by (simp add: selectEffort_def effort_selection_def isJSONNull_def unmarshal_string_def)
  next
    case False
    then have "selectMode model True (st\<lparr>ts_effort := v\<rparr>) = Inr st'"
      using assms(2) Some v
      by (simp add: selectEffort_def isJSONNull_def unmarshal_string_def del: list.inject split: if_splits)
    then show ?thesis
      using selectMode_agrees [of model bs "st\<lparr>ts_effort := v\<rparr>" True st'] assms(1) False Some v
      by (simp add: effort_selection_def)
  qed
qed

lemma kwargs_agrees:
  assumes "agrees model bs st" "kwargs_thinking model r st = Inr st'"
  shows "agrees model (bs @ kwargs_selections r) st'"
proof (cases r)
  case None
  then show ?thesis using assms by (simp add: kwargs_thinking_def kwargs_selections_def)
next
  case (Some j)
  then obtain kvs where j: "j = JObj kvs" "distinct (map fst kvs)"
    using assms(2) by (cases j) (auto simp: kwargs_thinking_def policyObject_def split: if_splits)
  then have look: "lookup (object_of kvs) k = lookup kvs k" for k
    by (simp add: lookup_object_of map_of_rev_distinct)
  let ?sel = "case lookup kvs ''enable_thinking'' of Some (JBool b) \<Rightarrow> [b] | _ \<Rightarrow> []"
  obtain st1 where first: "(case lookup kvs ''enable_thinking'' of None \<Rightarrow> Inr st | Some b \<Rightarrow> selectBool model b st) = Inr st1"
    and second: "selectEffort model (lookup kvs ''reasoning_effort'') False st1 = Inr st'"
    using assms(2) Some j by (auto simp: kwargs_thinking_def policyObject_def look)
  have "agrees model (bs @ ?sel) st1"
  proof (cases "lookup kvs ''enable_thinking''")
    case None
    then show ?thesis using assms(1) first by simp
  next
    case (Some b)
    then obtain x where "b = JBool x"
      using first by (cases b) (auto simp: selectBool_def isJSONNull_def unmarshal_bool_def)
    then show ?thesis using Some first selectMode_agrees [OF assms(1), of x st1]
      by (simp add: selectBool_def isJSONNull_def unmarshal_bool_def)
  qed
  from selectEffort_agrees [OF this second] show ?thesis
    using Some j by (simp add: kwargs_selections_def)
qed

lemma requestThinking_agrees:
  assumes "requestThinking object model = Inr b"
  shows "\<exists>st. agrees model (selections object) st \<and> ts_thinking st = b"
proof -
  let ?st = "\<lparr>ts_thinking = default_thinking model, ts_selected = False, ts_effort = []\<rparr>"
  obtain st1 st2 where e: "selectEffort model (lookup object ''reasoning_effort'') True ?st = Inr st1"
    and k: "kwargs_thinking model (lookup object ''chat_template_kwargs'') st1 = Inr st2" and b: "ts_thinking st2 = b"
    using assms by (auto simp: requestThinking_def)
  have "agrees model [] ?st" by (simp add: agrees_def)
  from kwargs_agrees [OF selectEffort_agrees [OF this e] k] b show ?thesis
    by (auto simp: selections_def)
qed

subsection \<open>Sampling defaults\<close>

text \<open>What the policy supplies for a field that the request leaves out or sets to \<^verbatim>\<open>null\<close>.\<close>

definition supplied :: "request_env \<Rightarrow> json_value table \<Rightarrow> json table \<Rightarrow> string \<Rightarrow> string option" where
  "supplied re defaults object name =
     (if lookup object name = None \<or> lookup object name = Some JNull
      then Option.bind (lookup defaults name) (re_Marshal re) else None)"

definition with_default :: "(string \<Rightarrow> string option) \<Rightarrow> ObservedControl \<Rightarrow> ObservedControl" where
  "with_default given c = (case given (oc_Name c) of
     Some v \<Rightarrow> c\<lparr>oc_Source := ControlGatewayDefault, oc_Value := v\<rparr> | None \<Rightarrow> c)"

lemma fill_defaults_spec:
  assumes "fill_defaults re defaults object controls changed = (Inr (object', changed'), controls')" "wf_map object"
  shows "wf_map object' \<and>
    lookup object' = (\<lambda>k. case supplied re defaults object k of Some v \<Rightarrow> Some (JNum v) | None \<Rightarrow> lookup object k) \<and>
    controls' = controls\<lparr>rc_Sampling := map (with_default (supplied re defaults object)) (rc_Sampling controls)\<rparr> \<and>
    (changed' \<longleftrightarrow> changed \<or> object' \<noteq> object) \<and>
    ((\<forall>k. supplied re defaults object k = None) \<longrightarrow> object' = object)"
  using assms
proof (induction defaults arbitrary: object controls changed)
  case Nil
  then have "supplied re [] object = (\<lambda>k. None)" "with_default (\<lambda>k. None) = id"
    by (simp_all add: supplied_def with_default_def fun_eq_iff)
  then show ?case using Nil by auto
next
  case (Cons p defaults)
  obtain name v where p: "p = (name, v)" by fastforce
  show ?case
  proof (cases "lookup object name \<noteq> None \<and> lookup object name \<noteq> Some JNull")
    case True
    then have "supplied re (p # defaults) object = supplied re defaults object"
      by (auto simp: supplied_def p fun_eq_iff)
    then show ?thesis using Cons True by (simp add: p)
  next
    case False
    then obtain e where e: "re_Marshal re v = Some e" and
      rest: "fill_defaults re defaults (upsert name (JNum e) object) (note_default name e controls) True =
        (Inr (object', changed'), controls')"
      using Cons.prems(1) by (auto simp: p split: option.splits)
    let ?o = "upsert name (JNum e) object"
    have given: "supplied re (p # defaults) object k = (if k = name then Some e else supplied re defaults ?o k)" for k
      using False e by (auto simp: supplied_def p)
    have gone: "supplied re defaults ?o name = None" by (simp add: supplied_def)
    note ih = Cons.IH [OF rest wf_map_upsert [OF Cons.prems(2)]]
    have "lookup object' name = Some (JNum e)" using ih gone by simp
    moreover have "lookup object name \<noteq> Some (JNum e)" using False by auto
    ultimately have "object' \<noteq> object" by auto
    moreover have "controls' = controls\<lparr>rc_Sampling := map (with_default (supplied re (p # defaults) object)) (rc_Sampling controls)\<rparr>"
      using ih gone by (simp add: note_default_def with_default_def given)
    moreover have "lookup object' k =
        (case supplied re (p # defaults) object k of Some v \<Rightarrow> Some (JNum v) | None \<Rightarrow> lookup object k)" for k
      using ih gone by (cases "k = name") (simp_all add: given split: option.splits)
    moreover have "supplied re (p # defaults) object name \<noteq> None" by (simp add: given)
    ultimately show ?thesis using ih by auto
  qed
qed

text \<open>
  C22: The sampling policy only fills gaps. When a request is accepted for a model with a policy, its
  thinking mode is the one that every reasoning control of the request selects (the default of the
  model when there is none, off only where the model supports it). Every field that the request sets
  goes to the backend as it was; a field that is absent or null gets the value of the policy for that
  mode, if there is one, and only such fields are reported as defaults of the gateway. A request
  without gaps is forwarded unchanged.
\<close>

theorem sampling_fills_gaps:
  assumes app: "applySamplingDefaults re (Whole j) model controls = (Inr body', controls')"
    and policy: "mo_SamplingPolicy model \<noteq> []"
  shows "\<exists>object object' thinking.
    decodeJSONObject (Whole j) = Inr object \<and> decodeJSONObject body' = Inr object' \<and>
    (\<forall>b \<in> set (selections object). b = thinking \<and> (b \<or> mo_ReasoningOff model)) \<and>
    (selections object = [] \<longrightarrow> thinking = default_thinking model) \<and>
    (let given = supplied re (Defaults (mo_samplingDefaults model) thinking) object in
     lookup object' = (\<lambda>k. case given k of Some v \<Rightarrow> Some (JNum v) | None \<Rightarrow> lookup object k) \<and>
     ((\<forall>k. given k = None) \<longrightarrow> body' = Whole j) \<and>
     controls' = controls\<lparr>rc_SamplingPolicy := mo_SamplingPolicy model,
       rc_SamplingMode := if thinking then ''thinking'' else ''non_thinking'',
       rc_Sampling := map (with_default given) (rc_Sampling controls)\<rparr>)"
proof -
  obtain kvs where kvs: "j = JObj kvs" "distinct (map fst kvs)" "policyObject (Whole j) = Inr (object_of kvs)"
    using app policy
    by (cases j) (simp_all add: applySamplingDefaults_def policyObject_def split: if_splits)
  obtain thinking where th: "requestThinking (object_of kvs) model = Inr thinking"
    using app policy kvs(3) by (auto simp: applySamplingDefaults_def split: sum.splits)
  let ?c = "controls\<lparr>rc_SamplingPolicy := mo_SamplingPolicy model,
     rc_SamplingMode := if thinking then ''thinking'' else ''non_thinking''\<rparr>"
  let ?d = "Defaults (mo_samplingDefaults model) thinking"
  obtain object1 changed where fill: "fill_defaults re ?d (object_of kvs) ?c False = (Inr (object1, changed), controls')"
    and body': "body' = (if changed then Whole (marshal_object object1) else Whole j)"
  proof (cases "fill_defaults re ?d (object_of kvs) ?c False")
    case (Pair r c2)
    then show thesis
      using app policy that unfolding applySamplingDefaults_def kvs(3) Let_def sum.case th
      by (cases r) (simp_all split: prod.splits)
  qed
  note spec = fill_defaults_spec [OF fill wf_object_of]
  have body: "decodeJSONObject (Whole j) = Inr (object_of kvs)" by (simp add: kvs(1) decodeJSONObject_def)
  define o2 where "o2 = (if changed then object_of (sort_key fst object1) else object_of kvs)"
  have o2: "decodeJSONObject body' = Inr o2" "lookup o2 = lookup object1"
    using spec lookup_marshal [of object1] body by (auto simp: body' o2_def)
  have "body' = Whole j" if "\<forall>k. supplied re ?d (object_of kvs) k = None"
  proof -
    have "lookup object1 = lookup (object_of kvs)" using spec that by simp
    then show ?thesis using spec that by (simp add: body')
  qed
  moreover have "(\<forall>b \<in> set (selections (object_of kvs)). b = thinking \<and> (b \<or> mo_ReasoningOff model)) \<and>
      (selections (object_of kvs) = [] \<longrightarrow> thinking = default_thinking model)"
  proof -
    obtain st where st: "agrees model (selections (object_of kvs)) st" "ts_thinking st = thinking"
      using requestThinking_agrees [OF th] by blast
    then show ?thesis by (cases "selections (object_of kvs)") (simp_all add: agrees_def, blast)
  qed
  ultimately show ?thesis
    unfolding Let_def using body o2 spec
    by (intro exI [of _ "object_of kvs"] exI [of _ o2] exI [of _ thinking]) simp
qed

subsection \<open>Media\<close>

lemma inline_image_shape:
  assumes "validInlineImage url"
  shows "\<exists>format payload n. url = ''data:image/'' @ format @ '';base64,'' @ payload \<and> format \<noteq> [] \<and>
    base64_length payload = Some n \<and> 0 < n"
proof -
  obtain header payload n where c: "cut CHR '','' url = Some (header, payload)"
    and h: "hasPrefix header ''data:image/''" "hasSuffix header '';base64''"
    and ne: "trimSuffix (trimPrefix header ''data:image/'') '';base64'' \<noteq> []"
    and n: "base64_length payload = Some n" "0 < n"
    using assms unfolding validInlineImage_def by (auto split: option.splits)
  obtain t where t: "header = ''data:image/'' @ t" using h(1) by (auto simp only: hasPrefix_iff)
  obtain u where u: "header = u @ '';base64''" using h(2) by (auto simp only: hasSuffix_iff)
  have tp: "trimPrefix header ''data:image/'' = t" unfolding t by (simp add: trimPrefix_def hasPrefix_def)
  have "''data:image/'' @ t = u @ '';base64''" using t u by (simp only:)
  from append_eq_append_conv2 [THEN iffD1, OF this]
  obtain us where us: "''data:image/'' = u @ us \<and> us @ t = '';base64'' \<or> ''data:image/'' @ us = u \<and> t = us @ '';base64''"
    by (elim exE)
  obtain f where f: "t = f @ '';base64''"
  proof (cases "us = []")
    case True
    then show thesis using that [of "[]"] us by auto
  next
    case False
    have "CHR ''/'' \<notin> set '';base64''" by simp
    moreover have "CHR ''/'' \<in> set us" if "''data:image/'' = u @ us"
      using arg_cong [OF that, of last] False last_in_set [of us] by simp
    ultimately have "us @ t \<noteq> '';base64''" if "''data:image/'' = u @ us"
      using that by (metis Un_iff set_append)
    then show thesis using that [of us] us by blast
  qed
  have "f \<noteq> []" using ne unfolding tp f by (simp add: trimSuffix_def hasSuffix_def)
  then show ?thesis using cut_Some [OF c] t f n by (intro exI [of _ f] exI [of _ payload] exI [of _ n]) simp
qed

text \<open>
  C23: No remote or unsupported media reaches a backend. When the media of a request are accepted, no
  content part of any message is audio or video, and every image part is for a model with vision and
  carries its bytes inline, as a non-empty base64 payload of an image data URL.
\<close>

theorem media_inline_only:
  assumes ok: "validateRequestMedia (Whole j) model = None" and obj: "decodeJSONObject (Whole j) = Inr object"
    and msgs: "unmarshal_list (lookup object ''messages'') = Some messages"
    and msg: "message \<in> set messages" and part: "part \<in> set (message_parts message)"
    and fields: "unmarshal_object (Some part) = Some f" and kind: "unmarshal_string (lookup f ''type'') = Some kind"
  shows "kind \<notin> {''input_audio'', ''input_video'', ''video_url''} \<and>
    (kind = ''image_url'' \<longrightarrow> mo_Vision model \<and>
      (\<exists>img format payload n. unmarshal_object (lookup f ''image_url'') = Some img \<and>
        lookup img ''url'' = Some (JStr (''data:image/'' @ format @ '';base64,'' @ payload)) \<and> format \<noteq> [] \<and>
        base64_length payload = Some n \<and> 0 < n))"
proof -
  have "part \<in> set (concat (map message_parts messages))" using msg part by auto
  then have none: "check_part model part = None"
    using ok unfolding validateRequestMedia_def obj sum.case msgs option.case check_all_None_iff by blast
  then have kinds: "kind \<noteq> ''input_audio''" "kind \<noteq> ''input_video''" "kind \<noteq> ''video_url''"
    unfolding check_part_def fields option.case kind by (auto simp only: split: if_splits)
  have "\<exists>img url. unmarshal_object (lookup f ''image_url'') = Some img \<and> mo_Vision model \<and>
      unmarshal_string (lookup img ''url'') = Some url \<and> validInlineImage url" if k: "kind = ''image_url''"
    using none unfolding check_part_def fields option.case kind k
    by (simp split: if_splits option.splits)
  moreover have "lookup img ''url'' = Some (JStr url)"
    if "unmarshal_string (lookup img ''url'') = Some url" "validInlineImage url" for img url
  proof -
    have "url \<noteq> []" using that(2) by (auto simp: validInlineImage_def)
    then show ?thesis using that(1) by (auto simp: unmarshal_string_def split: option.splits json.splits)
  qed
  ultimately have "\<exists>img url. unmarshal_object (lookup f ''image_url'') = Some img \<and> mo_Vision model \<and>
      lookup img ''url'' = Some (JStr url) \<and> validInlineImage url" if "kind = ''image_url''"
    using that by metis
  then have "mo_Vision model \<and> (\<exists>img format payload n. unmarshal_object (lookup f ''image_url'') = Some img \<and>
        lookup img ''url'' = Some (JStr (''data:image/'' @ format @ '';base64,'' @ payload)) \<and> format \<noteq> [] \<and>
        base64_length payload = Some n \<and> 0 < n)" if "kind = ''image_url''"
    using that inline_image_shape by metis
  then show ?thesis using kinds by simp
qed

section \<open>Witnesses\<close>

definition demo_model :: Model where
  "demo_model = \<lparr>mo_ID = ''m'', mo_Application = ''llama-cpp'', mo_Context = 8192, mo_MaxOutputTokens = 4096,
     mo_AgentTools = True, mo_Vision = True, mo_ReasoningControl = ''effort'', mo_ReasoningLevels = [''high''],
     mo_ReasoningDefault = ''high'', mo_ReasoningOff = True, mo_SamplingPolicy = ''p'', mo_Backend = ''llama-cpp'',
     mo_Bundle = ''b'', mo_samplingDefaults = \<lparr>sm_ID = ''p'',
       sm_Thinking = [(''temperature'', JFloat 0), (''top_p'', JFloat 1)],
       sm_NonThinking = [(''top_p'', JFloat 2)]\<rparr>\<rparr>"

definition demo_request_env :: request_env where
  "demo_request_env = \<lparr>re_ParseFloat = (\<lambda>_. Some 0), re_Cf = (\<lambda>_. False),
     re_Marshal = (\<lambda>v. case v of JFloat x \<Rightarrow> Some (if x = 1 then ''0.95'' else ''0.7'') | _ \<Rightarrow> None)\<rparr>"

definition demo_controls :: RequestControls where
  "demo_controls = \<lparr>rc_SamplingPolicy = [], rc_SamplingMode = [], rc_Reasoning = [],
     rc_Sampling = [observed ''top_p'' ControlDefault False []], rc_Diagnostics = []\<rparr>"

definition demo_body :: json where
  "demo_body = JObj [(''temperature'', JNum ''1''), (''reasoning_effort'', JStr ''high'')]"

lemma demo_sampling:
  "applySamplingDefaults demo_request_env (Whole demo_body) demo_model demo_controls =
     (Inr (Whole (JObj [(''reasoning_effort'', JStr ''high''), (''temperature'', JNum ''1''), (''top_p'', JNum ''0.95'')])),
      \<lparr>rc_SamplingPolicy = ''p'', rc_SamplingMode = ''thinking'', rc_Reasoning = [],
       rc_Sampling = [observed ''top_p'' ControlGatewayDefault False ''0.95''], rc_Diagnostics = []\<rparr>)"
  by (simp add: applySamplingDefaults_def demo_body_def demo_model_def demo_controls_def demo_request_env_def
      policyObject_def object_of_def requestThinking_def selectEffort_def isJSONNull_def unmarshal_string_def
      effort_levels_def selectMode_def kwargs_thinking_def Defaults_def note_default_def observed_def
      marshal_object_def default_thinking_def)

theorem sampling_fills_gaps_witness:
  "\<exists>object object' thinking.
    decodeJSONObject (Whole demo_body) = Inr object \<and>
    decodeJSONObject (Whole (JObj [(''reasoning_effort'', JStr ''high''), (''temperature'', JNum ''1''), (''top_p'', JNum ''0.95'')]))
      = Inr object' \<and>
    lookup object' = (\<lambda>k. case supplied demo_request_env (Defaults (mo_samplingDefaults demo_model) thinking) object k of
       Some v \<Rightarrow> Some (JNum v) | None \<Rightarrow> lookup object k)"
proof -
  have "mo_SamplingPolicy demo_model \<noteq> []" by (simp add: demo_model_def)
  from sampling_fills_gaps [OF demo_sampling this] show ?thesis unfolding Let_def by blast
qed

definition demo_part :: json where
  "demo_part = JObj [(''type'', JStr ''image_url''),
     (''image_url'', JObj [(''url'', JStr ''data:image/png;base64,aGk='')])]"

definition demo_message :: json where
  "demo_message = JObj [(''content'', JArr [demo_part])]"

lemma demo_image: "validInlineImage ''data:image/png;base64,aGk=''"
  by (simp add: validInlineImage_def hasPrefix_def hasSuffix_def trimPrefix_def trimSuffix_def base64_length_def
      base64_value_def base64_ends_def code_def)

lemma demo_media:
  "validateRequestMedia (Whole (JObj [(''messages'', JArr [demo_message])])) demo_model = None"
  by (simp add: validateRequestMedia_def decodeJSONObject_def object_of_def unmarshal_list_def message_parts_def
      demo_message_def unmarshal_object_def check_part_def demo_part_def unmarshal_string_def demo_image
      demo_model_def)

theorem media_inline_only_witness:
  "\<exists>img format payload n.
    unmarshal_object (Some (JObj [(''url'', JStr ''data:image/png;base64,aGk='')])) = Some img \<and>
    lookup img ''url'' = Some (JStr (''data:image/'' @ format @ '';base64,'' @ payload)) \<and> format \<noteq> [] \<and>
    base64_length payload = Some n \<and> 0 < n"
proof -
  let ?f = "[(''type'', JStr ''image_url''), (''image_url'', JObj [(''url'', JStr ''data:image/png;base64,aGk='')])]"
  have f: "unmarshal_object (Some demo_part) = Some ?f"
    by (simp add: unmarshal_object_def demo_part_def object_of_def)
  have o: "decodeJSONObject (Whole (JObj [(''messages'', JArr [demo_message])])) = Inr [(''messages'', JArr [demo_message])]"
    by (simp add: decodeJSONObject_def object_of_def)
  have l: "unmarshal_list (lookup [(''messages'', JArr [demo_message])] ''messages'') = Some [demo_message]"
    by (simp add: unmarshal_list_def)
  have m: "demo_message \<in> set [demo_message]" by simp
  have p: "demo_part \<in> set (message_parts demo_message)"
    by (simp add: message_parts_def demo_message_def unmarshal_object_def object_of_def unmarshal_list_def)
  have k: "unmarshal_string (lookup ?f ''type'') = Some ''image_url''"
    by (simp add: unmarshal_string_def)
  have "\<exists>img format payload n. unmarshal_object (lookup ?f ''image_url'') = Some img \<and>
    lookup img ''url'' = Some (JStr (''data:image/'' @ format @ '';base64,'' @ payload)) \<and> format \<noteq> [] \<and>
    base64_length payload = Some n \<and> 0 < n"
    by (rule media_inline_only [OF demo_media o l m p f k, THEN conjunct2, rule_format, THEN conjunct2]) (rule refl)
  moreover have "lookup ?f ''image_url'' = Some (JObj [(''url'', JStr ''data:image/png;base64,aGk='')])" by simp
  ultimately show ?thesis by (simp only:)
qed

lemma demo_observation:
  "map (lookup [(''messages'', JArr []), (''model'', JStr ''m'')]) observed_fields =
   map (lookup [(''model'', JStr ''m''), (''tools'', JNull)]) observed_fields"
  by (simp add: observed_fields_def samplerFields_def)

theorem observation_confined_witness:
  "inspectRequest demo_request_env (Whole (JObj [(''messages'', JArr []), (''model'', JStr ''m'')])) =
   inspectRequest demo_request_env (Whole (JObj [(''model'', JStr ''m''), (''tools'', JNull)]))"
  by (rule observation_confined [OF _ _ demo_observation]) (simp_all add: decodeJSONObject_def object_of_def)

end
