(* ===== verification/Streams.thy ===== *)
theory Streams
  imports Interfaces
begin

text \<open>
  Byte streams of the gateway: the keepalive comments inserted into event streams
  (\<^verbatim>\<open>internal/gateway/stream_keepalive.go\<close>), the line writer of the backend logs (\<^verbatim>\<open>log.go\<close>) and the
  event framing of the response observer (\<^verbatim>\<open>observability.go\<close>). All three see a stream in chunks of
  any size; the theorems say that the cuts do not matter and that inserted bytes never split an
  upstream event.
\<close>

abbreviation LF :: char where "LF \<equiv> CHR 0x0A"
abbreviation CR :: char where "CR \<equiv> CHR 0x0D"

section \<open>Event boundaries\<close>

record streamBoundary =
  sb_boundary :: bool
  sb_lineData :: bool
  sb_afterCR :: bool

definition observe_char :: "streamBoundary \<Rightarrow> char \<Rightarrow> streamBoundary" where
  "observe_char f c =
     (if sb_afterCR f \<and> c = LF then f\<lparr>sb_afterCR := False\<rparr>
      else (let f = f\<lparr>sb_afterCR := False\<rparr> in
        if c = CR \<or> c = LF
        then f\<lparr>sb_boundary := \<not> sb_lineData f, sb_lineData := False, sb_afterCR := (c = CR)\<rparr>
        else f\<lparr>sb_boundary := False, sb_lineData := True\<rparr>))"

definition observe :: "streamBoundary \<Rightarrow> string \<Rightarrow> streamBoundary" where
  "observe f bs = foldl observe_char f bs"

interpretation framing: chunked observe
  by unfold_locales (simp_all add: observe_def)

section \<open>Keepalive comments\<close>

definition streamKeepaliveComment :: string where
  "streamKeepaliveComment = '': paracetamol gateway keepalive'' @ [LF, LF]"

definition fresh_boundary :: streamBoundary where
  "fresh_boundary = \<lparr>sb_boundary = True, sb_lineData = False, sb_afterCR = False\<rparr>"

text \<open>
  The body as \<^verbatim>\<open>Read\<close> sees it. \<open>kb_comment\<close> is a ghost: whether the pending bytes are a comment;
  \<open>kb_err\<close> is the error that follows the pending bytes.
\<close>

record keepalive_body =
  kb_pending :: string
  kb_err :: "string option"
  kb_reading :: bool
  kb_framing :: streamBoundary
  kb_comment :: bool

definition newStreamKeepaliveBody :: keepalive_body where
  "newStreamKeepaliveBody = \<lparr>kb_pending = [], kb_err = None, kb_reading = False,
     kb_framing = fresh_boundary, kb_comment = False\<rparr>"

text \<open>
  What wakes the second select of \<^verbatim>\<open>Read\<close>: the upstream read returned, the ticker fired, or the
  body was closed.
\<close>

datatype wake = Upstream string "string option" | Tick | Closed

datatype read_result = Bytes string | ReadError string

text \<open>
  \<^verbatim>\<open>Read\<close> with a buffer of \<open>room\<close> bytes, over the wakeups it sees; \<open>None\<close> when they run out before
  it returns. The remaining wakeups are returned too.
\<close>

fun Read :: "nat \<Rightarrow> keepalive_body \<Rightarrow> wake list \<Rightarrow> (read_result \<times> keepalive_body \<times> wake list) option" where
  "Read room b ws =
     (if room = 0 then Some (Bytes [], b, ws)
      else if kb_pending b \<noteq> [] then
        Some (Bytes (take room (kb_pending b)),
              b\<lparr>kb_framing := observe (kb_framing b) (take room (kb_pending b)),
                kb_pending := drop room (kb_pending b)\<rparr>, ws)
      else (case kb_err b of
        Some e \<Rightarrow> Some (ReadError e, b, ws)
      | None \<Rightarrow>
          (case ws of
             [] \<Rightarrow> None
           | Closed # ws \<Rightarrow> Some (ReadError ''io: read/write on closed pipe'', b, ws)
           | Upstream bs e # ws \<Rightarrow>
               Read room (b\<lparr>kb_reading := False, kb_pending := bs, kb_err := e, kb_comment := False\<rparr>) ws
           | Tick # ws \<Rightarrow>
               Read room (if sb_boundary (kb_framing b) \<and> \<not> sb_afterCR (kb_framing b)
                 then b\<lparr>kb_reading := True, kb_pending := streamKeepaliveComment, kb_comment := True\<rparr>
                 else b\<lparr>kb_reading := True\<rparr>) ws)))"

declare Read.simps [simp del]

text \<open>
  A whole session: the client reads with the given buffer sizes. The output is the list of pieces,
  each tagged as comment or upstream bytes.
\<close>

fun session :: "nat list \<Rightarrow> keepalive_body \<Rightarrow> wake list \<Rightarrow> (bool \<times> string) list \<times> keepalive_body \<times> wake list" where
  "session [] b ws = ([], b, ws)"
| "session (room # rooms) b ws =
     (case Read room b ws of
        None \<Rightarrow> ([], b, ws)
      | Some (ReadError e, b', ws') \<Rightarrow> ([], b', ws')
      | Some (Bytes bs, b', ws') \<Rightarrow>
          (case session rooms b' ws' of (out, b2, ws2) \<Rightarrow> ((kb_comment b', bs) # out, b2, ws2)))"

subsection \<open>Transparency\<close>

definition upstream_bytes :: "wake list \<Rightarrow> string" where
  "upstream_bytes ws = concat (map (\<lambda>w. case w of Upstream bs _ \<Rightarrow> bs | _ \<Rightarrow> []) ws)"

definition pieces :: "(bool \<Rightarrow> bool) \<Rightarrow> (bool \<times> string) list \<Rightarrow> string" where
  "pieces p out = concat (map snd (filter (\<lambda>x. p (fst x)) out))"

abbreviation from_upstream :: "(bool \<times> string) list \<Rightarrow> string" where
  "from_upstream out \<equiv> pieces Not out"

abbreviation delivered :: "(bool \<times> string) list \<Rightarrow> string" where
  "delivered out \<equiv> pieces (\<lambda>_. True) out"

lemma observe_comment: "observe fresh_boundary streamKeepaliveComment = fresh_boundary"
  by (simp add: observe_def observe_char_def fresh_boundary_def streamKeepaliveComment_def Let_def)

lemma boundary_quiet:
  "(sb_boundary f \<longrightarrow> \<not> sb_lineData f) \<Longrightarrow>
   (sb_boundary (observe f bs) \<longrightarrow> \<not> sb_lineData (observe f bs))"
proof (induction bs rule: rev_induct)
  case (snoc c bs)
  then show ?case by (auto simp: observe_def observe_char_def Let_def)
qed (simp add: observe_def)

text \<open>
  The invariant of the body against the upstream bytes seen so far: outside a comment the framing
  is that of the upstream bytes delivered; inside a comment those stand at an event boundary and
  the part of the comment delivered so far is known.
\<close>

definition body_inv :: "string \<Rightarrow> keepalive_body \<Rightarrow> bool" where
  "body_inv up b \<longleftrightarrow>
     (kb_comment b \<longrightarrow> observe fresh_boundary up = fresh_boundary) \<and>
     (if kb_comment b \<and> kb_pending b \<noteq> []
      then \<exists>p. streamKeepaliveComment = p @ kb_pending b \<and> kb_framing b = observe fresh_boundary p
      else kb_framing b = observe fresh_boundary up)"

definition undelivered :: "keepalive_body \<Rightarrow> string" where
  "undelivered b = (if kb_comment b then [] else kb_pending b)"

lemma at_boundary:
  "sb_boundary (observe fresh_boundary up) \<Longrightarrow> \<not> sb_afterCR (observe fresh_boundary up) \<Longrightarrow>
   observe fresh_boundary up = fresh_boundary"
  using boundary_quiet [of fresh_boundary up] by (simp add: fresh_boundary_def)

lemma body_inv_copy:
  assumes inv: "body_inv up b" and ne: "kb_pending b \<noteq> []"
  shows "body_inv (if kb_comment b then up else up @ take n (kb_pending b))
    (b\<lparr>kb_framing := observe (kb_framing b) (take n (kb_pending b)), kb_pending := drop n (kb_pending b)\<rparr>)"
proof (cases "kb_comment b")
  case True
  then obtain p where p: "streamKeepaliveComment = p @ kb_pending b" "kb_framing b = observe fresh_boundary p"
    and at: "observe fresh_boundary up = fresh_boundary"
    using inv ne by (auto simp: body_inv_def)
  have "observe (kb_framing b) (take n (kb_pending b)) = observe fresh_boundary (p @ take n (kb_pending b))"
    by (simp add: p(2) framing.feed_append)
  moreover have "streamKeepaliveComment = (p @ take n (kb_pending b)) @ drop n (kb_pending b)"
    by (simp add: p(1))
  ultimately show ?thesis
    using True at observe_comment
    by (auto simp: body_inv_def intro!: exI [of _ "p @ take n (kb_pending b)"])
next
  case False
  then show ?thesis using inv by (simp add: body_inv_def framing.feed_append)
qed

text \<open>What one \<^verbatim>\<open>Read\<close> does: \<open>up\<close> is the upstream text delivered before, \<open>used\<close> the wakeups it took.\<close>

definition read_ok :: "string \<Rightarrow> keepalive_body \<Rightarrow> wake list \<Rightarrow> read_result \<Rightarrow> keepalive_body \<Rightarrow> bool" where
  "read_ok up b used r b' \<longleftrightarrow> (case r of
     ReadError e \<Rightarrow> body_inv up b' \<and> undelivered b @ upstream_bytes used = undelivered b'
   | Bytes bs \<Rightarrow>
       body_inv (if kb_comment b' then up else up @ bs) b' \<and>
       (kb_comment b' \<longrightarrow> observe fresh_boundary up = fresh_boundary) \<and>
       undelivered b @ upstream_bytes used = (if kb_comment b' then [] else bs) @ undelivered b')"

lemma read_ok_wake:
  "read_ok up c used r b' \<Longrightarrow> undelivered b = [] \<Longrightarrow> upstream_bytes [w] = undelivered c \<Longrightarrow>
   read_ok up b (w # used) r b'"
  by (auto simp: read_ok_def upstream_bytes_def split: read_result.splits if_splits)

lemma Read_spec:
  "Read room b ws = Some (r, b', ws') \<Longrightarrow> body_inv up b \<Longrightarrow>
   \<exists>used. ws = used @ ws' \<and> read_ok up b used r b'"
proof (induction room b ws rule: Read.induct)
  case (1 room b ws)
  note read = 1(3) [unfolded Read.simps [of room b ws]] and inv = 1(4)
  consider (copy) "room \<noteq> 0" "kb_pending b \<noteq> []"
    | (now) "room = 0 \<or> kb_pending b = [] \<and> kb_err b \<noteq> None"
    | (wait) "room \<noteq> 0" "kb_pending b = []" "kb_err b = None" by auto
  then show ?case
  proof cases
    case copy
    then show ?thesis
      using read body_inv_copy [OF inv copy(2), of room] inv
      by (auto simp: read_ok_def upstream_bytes_def undelivered_def body_inv_def)
  next
    case now
    then show ?thesis
      using read inv
      by (auto simp: read_ok_def upstream_bytes_def body_inv_def split: if_splits option.splits)
  next
    case wait
    have none: "undelivered b = []" using wait by (simp add: undelivered_def)
    obtain w rest where ws: "ws = w # rest" using read wait by (cases ws) auto
    have via: "\<exists>used. ws = used @ ws' \<and> read_ok up b used r b'"
      if "\<exists>used. rest = used @ ws' \<and> read_ok up c used r b'" "upstream_bytes [w] = undelivered c" for c
      using that read_ok_wake [OF _ none] ws by (metis append_Cons)
    show ?thesis
    proof (cases w)
      case (Upstream bs e)
      let ?b = "b\<lparr>kb_reading := False, kb_pending := bs, kb_err := e, kb_comment := False\<rparr>"
      have "body_inv up ?b" using inv wait by (auto simp: body_inv_def)
      then show ?thesis
        using 1(1) [OF wait(1) _ wait(3) ws Upstream] wait read Upstream
        by (intro via [of ?b]) (simp_all add: ws upstream_bytes_def undelivered_def)
    next
      case Tick
      let ?b = "if sb_boundary (kb_framing b) \<and> \<not> sb_afterCR (kb_framing b)
        then b\<lparr>kb_reading := True, kb_pending := streamKeepaliveComment, kb_comment := True\<rparr>
        else b\<lparr>kb_reading := True\<rparr>"
      have "kb_framing b = observe fresh_boundary up" using inv wait by (simp add: body_inv_def)
      then have "body_inv up ?b"
        using inv wait at_boundary [of up]
        by (auto simp: body_inv_def framing.feed_empty intro!: exI [of _ "[]"])
      then show ?thesis
        using 1(2) [OF wait(1) _ wait(3) ws Tick] wait read Tick
        by (intro via [of ?b]) (simp_all add: ws upstream_bytes_def undelivered_def)
    next
      case Closed
      then show ?thesis
        using read inv wait
        by (auto simp: ws read_ok_def upstream_bytes_def intro!: exI [of _ "[Closed]"])
    qed
  qed
qed

lemma upstream_bytes_append [simp]: "upstream_bytes (xs @ ys) = upstream_bytes xs @ upstream_bytes ys"
  by (simp add: upstream_bytes_def)

lemma pieces_simps [simp]:
  "pieces p [] = []" "pieces p (x # out) = (if p (fst x) then snd x else []) @ pieces p out"
  by (simp_all add: pieces_def)

lemma session_spec:
  "session rooms b ws = (out, b', ws') \<Longrightarrow> body_inv up b \<Longrightarrow>
   (\<exists>used. ws = used @ ws' \<and> undelivered b @ upstream_bytes used = from_upstream out @ undelivered b') \<and>
   (\<forall>pre bs post. out = pre @ (True, bs) # post \<longrightarrow>
      observe fresh_boundary (up @ from_upstream pre) = fresh_boundary)"
proof (induction rooms b ws arbitrary: out up rule: session.induct)
  case (2 room rooms b ws)
  show ?case
  proof (cases "Read room b ws")
    case None
    then show ?thesis using 2(2) by (auto simp: upstream_bytes_def intro!: exI [of _ "[]"])
  next
    case (Some x)
    then obtain r c ws1 where read: "Read room b ws = Some (r, c, ws1)" by (cases x) auto
    from Read_spec [OF read 2(3)] obtain used
      where used: "ws = used @ ws1" and ok: "read_ok up b used r c" by blast
    show ?thesis
    proof (cases r)
      case (ReadError e)
      then show ?thesis using 2(2) read used ok by (auto simp: read_ok_def)
    next
      case (Bytes bs)
      let ?up = "if kb_comment c then up else up @ bs"
      obtain out' where rest: "session rooms c ws1 = (out', b', ws')" and out: "out = (kb_comment c, bs) # out'"
        using 2(2) read Bytes by (auto split: prod.splits)
      have c: "body_inv ?up c" "kb_comment c \<Longrightarrow> observe fresh_boundary up = fresh_boundary"
        "undelivered b @ upstream_bytes used = (if kb_comment c then [] else bs) @ undelivered c"
        using ok Bytes by (auto simp: read_ok_def)
      from 2(1) [OF read [unfolded Bytes] refl refl refl rest c(1)] obtain used'
        where u: "ws1 = used' @ ws'" "undelivered c @ upstream_bytes used' = from_upstream out' @ undelivered b'"
          and at: "\<And>pre bs post. out' = pre @ (True, bs) # post \<Longrightarrow>
            observe fresh_boundary (?up @ from_upstream pre) = fresh_boundary" by metis
      have "ws = (used @ used') @ ws'" using used u by simp
      moreover have "undelivered b @ upstream_bytes (used @ used') = from_upstream out @ undelivered b'"
        using append_assoc [of "undelivered b" "upstream_bytes used" "upstream_bytes used'"] c(3) u(2) out
        by (cases "kb_comment c") simp_all
      moreover have "observe fresh_boundary (up @ from_upstream pre) = fresh_boundary"
        if "out = pre @ (True, ds) # post" for pre ds post
        using that out c(2) at by (cases pre) (auto split: if_splits)
      ultimately show ?thesis by blast
    qed
  qed
qed (auto simp: upstream_bytes_def intro!: exI [of _ "[]"])



section \<open>Prefixed log lines\<close>

text \<open>
  The writer of the backend log. The destination accepts lines (\<open>lw_out\<close>) until one fails; then the
  rest stays pending and the error is returned. \<open>accepts\<close> decides on each line.
\<close>

record line_writer =
  lw_prefix :: string
  lw_pending :: string
  lw_out :: "string list"

definition newPrefixedLineWriter :: "string \<Rightarrow> line_writer" where
  "newPrefixedLineWriter prefix = \<lparr>lw_prefix = prefix, lw_pending = [], lw_out = []\<rparr>"

function drain :: "(string \<Rightarrow> string option) \<Rightarrow> line_writer \<Rightarrow> line_writer \<times> string option" where
  "drain accepts w =
     (case cut LF (lw_pending w) of
        None \<Rightarrow> (w, None)
      | Some (line, rest) \<Rightarrow>
          (case accepts (lw_prefix w @ line @ [LF]) of
             Some e \<Rightarrow> (w, Some e)
           | None \<Rightarrow> drain accepts (w\<lparr>lw_out := lw_out w @ [lw_prefix w @ line @ [LF]],
                                     lw_pending := rest\<rparr>)))"
  by pat_completeness auto
termination
  by (relation "measure (\<lambda>(_, w). length (lw_pending w))") (auto dest: cut_Some)

declare drain.simps [simp del]

definition Write :: "(string \<Rightarrow> string option) \<Rightarrow> line_writer \<Rightarrow> string \<Rightarrow> line_writer \<times> string option" where
  "Write accepts w v = drain accepts (w\<lparr>lw_pending := lw_pending w @ v\<rparr>)"

definition finishLines :: "line_writer \<Rightarrow> line_writer" where
  "finishLines w = (if lw_pending w = [] then w
     else w\<lparr>lw_out := lw_out w @ [lw_prefix w @ lw_pending w @ [LF]], lw_pending := []\<rparr>)"

lemma drain_append:
  "drain (\<lambda>_. None) (w\<lparr>lw_pending := lw_pending w @ v\<rparr>) =
     (let w1 = fst (drain (\<lambda>_. None) w) in drain (\<lambda>_. None) (w1\<lparr>lw_pending := lw_pending w1 @ v\<rparr>))"
proof (induction "length (lw_pending w)" arbitrary: w rule: less_induct)
  case less
  show ?case
  proof (cases "cut LF (lw_pending w)")
    case None
    then show ?thesis by (simp add: drain.simps [of _ w] Let_def)
  next
    case (Some lr)
    obtain line rest where lr: "lr = (line, rest)" by fastforce
    let ?w = "w\<lparr>lw_out := lw_out w @ [lw_prefix w @ line @ [LF]], lw_pending := rest\<rparr>"
    from cut_Some Some lr have pend: "lw_pending w = line @ LF # rest" "LF \<notin> set line" by fastforce+
    have "cut LF (lw_pending w @ v) = Some (line, rest @ v)"
      using pend(2) unfolding pend(1) by (induction line) auto
    then have "drain (\<lambda>_. None) (w\<lparr>lw_pending := lw_pending w @ v\<rparr>) =
        drain (\<lambda>_. None) (?w\<lparr>lw_pending := lw_pending ?w @ v\<rparr>)"
      by (simp add: drain.simps [of _ "w\<lparr>lw_pending := lw_pending w @ v\<rparr>"])
    also have "\<dots> = (let w1 = fst (drain (\<lambda>_. None) ?w) in
        drain (\<lambda>_. None) (w1\<lparr>lw_pending := lw_pending w1 @ v\<rparr>))"
      using less [of ?w] pend by simp
    also have "drain (\<lambda>_. None) ?w = drain (\<lambda>_. None) w"
      using Some lr by (simp add: drain.simps [of _ w])
    finally show ?thesis .
  qed
qed

definition write_ok :: "line_writer \<Rightarrow> string \<Rightarrow> line_writer" where
  "write_ok w v = (if v = [] then w else fst (Write (\<lambda>_. None) w v))"

lemma drain_settled: "LF \<notin> set (lw_pending w) \<Longrightarrow> drain a w = (w, None)"
  by (simp add: drain.simps [of a w])

lemma drain_pending: "LF \<notin> set (lw_pending (fst (drain (\<lambda>_. None) w)))"
proof (induction "length (lw_pending w)" arbitrary: w rule: less_induct)
  case less
  show ?case
  proof (cases "cut LF (lw_pending w)")
    case (Some lr)
    then show ?thesis
      using less [of "w\<lparr>lw_out := lw_out w @ [lw_prefix w @ fst lr @ [LF]], lw_pending := snd lr\<rparr>"]
        cut_Some [of LF "lw_pending w" "fst lr" "snd lr"]
      by (cases lr) (simp add: drain.simps [of _ w])
  next
    case None
    then show ?thesis by (simp add: drain.simps [of _ w])
  qed
qed

interpretation lines: chunked write_ok
proof
  fix w :: line_writer and xs ys
  show "write_ok w (xs @ ys) = write_ok (write_ok w xs) ys"
    using drain_append [of "w\<lparr>lw_pending := lw_pending w @ xs\<rparr>" ys]
    by (cases "xs = []"; cases "ys = []") (simp_all add: write_ok_def Write_def Let_def)
qed (simp add: write_ok_def)

text \<open>The reference: every complete line of the text with the prefix in front.\<close>

fun prefixed_lines :: "string \<Rightarrow> string list \<Rightarrow> string list" where
  "prefixed_lines p [] = []"
| "prefixed_lines p [l] = []"
| "prefixed_lines p (l # l' # ls) = (p @ l @ [LF]) # prefixed_lines p (l' # ls)"

lemma split_on_cut: "split_on c s = (case cut c s of None \<Rightarrow> [s] | Some (a, b) \<Rightarrow> a # split_on c b)"
  using cut_Some [of c s] by (auto simp: split_on_no_char split_on_append split: option.splits)

lemma drain_lines:
  "fst (drain (\<lambda>_. None) w) = w\<lparr>lw_out := lw_out w @ prefixed_lines (lw_prefix w) (split_on LF (lw_pending w)),
     lw_pending := last (split_on LF (lw_pending w))\<rparr>"
proof (induction "length (lw_pending w)" arbitrary: w rule: less_induct)
  case less
  show ?case
  proof (cases "cut LF (lw_pending w)")
    case None
    then show ?thesis by (simp add: drain.simps [of _ w] split_on_cut)
  next
    case (Some lr)
    obtain line rest where lr: "lr = (line, rest)" by fastforce
    let ?w = "w\<lparr>lw_out := lw_out w @ [lw_prefix w @ line @ [LF]], lw_pending := rest\<rparr>"
    have "length rest < length (lw_pending w)" using cut_Some Some lr by fastforce
    then have "fst (drain (\<lambda>_. None) w) = ?w\<lparr>lw_out := lw_out ?w @ prefixed_lines (lw_prefix ?w) (split_on LF rest),
        lw_pending := last (split_on LF rest)\<rparr>"
      using less [of ?w] Some lr by (simp add: drain.simps [of _ w])
    moreover have "split_on LF (lw_pending w) = line # split_on LF rest"
      using Some lr by (simp add: split_on_cut [of LF "lw_pending w"])
    ultimately show ?thesis by (cases "split_on LF rest") simp_all
  qed
qed

text \<open>
  the log writer emits whole lines. However the backend's output is cut into writes, the lines
  written are exactly the complete lines of the text, each in one write with the prefix in front,
  and the rest of the text is kept for the next write or for the end.
\<close>

theorem prefixed_writer:
  "foldl (\<lambda>w v. fst (Write (\<lambda>_. None) w v)) (newPrefixedLineWriter p) chunks =
    \<lparr>lw_prefix = p, lw_pending = last (split_on LF (concat chunks)),
     lw_out = prefixed_lines p (split_on LF (concat chunks))\<rparr>"
proof -
  have same: "fst (Write (\<lambda>_. None) w v) = write_ok w v" if "LF \<notin> set (lw_pending w)" for w v
    using that drain_settled [of w] by (simp add: write_ok_def Write_def)
  have settled: "LF \<notin> set (lw_pending (write_ok w v))" if "LF \<notin> set (lw_pending w)" for w v
    using that drain_pending by (simp add: write_ok_def Write_def)
  have "foldl (\<lambda>w v. fst (Write (\<lambda>_. None) w v)) w chunks = foldl write_ok w chunks"
    if "LF \<notin> set (lw_pending w)" for w
    using that by (induction chunks arbitrary: w) (simp_all add: same settled)
  then have "foldl (\<lambda>w v. fst (Write (\<lambda>_. None) w v)) (newPrefixedLineWriter p) chunks =
      write_ok (newPrefixedLineWriter p) (concat chunks)"
    by (simp add: newPrefixedLineWriter_def lines.feed_chunks)
  then show ?thesis
    using drain_lines [of "(newPrefixedLineWriter p)\<lparr>lw_pending := concat chunks\<rparr>"]
    by (cases "concat chunks = []") (simp_all only: write_ok_def Write_def newPrefixedLineWriter_def, simp_all)
qed

section \<open>Events of a response stream\<close>

text \<open>
  The framing of \<^verbatim>\<open>responseObserver\<close>: bounded buffers for the current line and the data of the
  current event. What a finished event means (decoding its JSON) is an argument: \<open>on_json\<close> updates
  the collected observations \<open>'c\<close>, \<open>on_done\<close> marks the end of the stream and \<open>on_partial\<close> marks the
  completion as partial.
\<close>

definition maxObservedJSONBytes :: nat where "maxObservedJSONBytes = 1048576"
definition maxObservedSSEEventBytes :: nat where "maxObservedSSEEventBytes = 262144"

record 'c collector_ops =
  on_partial :: "'c \<Rightarrow> 'c"
  on_done :: "'c \<Rightarrow> 'c"
  on_json :: "string \<Rightarrow> 'c \<Rightarrow> 'c"

record 'c observer =
  ob_stream :: bool
  ob_jsonBuffer :: string
  ob_jsonOversized :: bool
  ob_line :: string
  ob_event :: string
  ob_eventOversize :: bool
  ob_acc :: 'c

definition newResponseObserver :: "bool \<Rightarrow> 'c \<Rightarrow> 'c observer" where
  "newResponseObserver stream acc = \<lparr>ob_stream = stream, ob_jsonBuffer = [], ob_jsonOversized = False,
     ob_line = [], ob_event = [], ob_eventOversize = False, ob_acc = acc\<rparr>"

definition consumeSSEEvent :: "'c collector_ops \<Rightarrow> 'c observer \<Rightarrow> 'c observer" where
  "consumeSSEEvent ops b =
     (b\<lparr>ob_acc := (if \<not> ob_eventOversize b \<and> ob_event b \<noteq> []
           then (if trimSpace (ob_event b) = ''[DONE]'' then on_done ops (ob_acc b)
                 else on_json ops (ob_event b) (ob_acc b))
           else ob_acc b)\<rparr>)\<lparr>ob_event := [], ob_eventOversize := False\<rparr>"

definition oversize :: "'c collector_ops \<Rightarrow> 'c observer \<Rightarrow> 'c observer" where
  "oversize ops b = b\<lparr>ob_eventOversize := True, ob_acc := on_partial ops (ob_acc b)\<rparr>"

definition consumeSSELine :: "'c collector_ops \<Rightarrow> string \<Rightarrow> 'c observer \<Rightarrow> 'c observer" where
  "consumeSSELine ops line b =
     (let line = trimSuffix line [CR] in
      if line = [] then consumeSSEEvent ops b
      else if \<not> hasPrefix line ''data:'' \<or> ob_eventOversize b then b
      else (let data = drop 5 line;
                data = (if data \<noteq> [] \<and> hd data = CHR '' '' then tl data else data);
                additional = length data + (if ob_event b \<noteq> [] then 1 else 0) in
        if length (ob_event b) + additional > maxObservedSSEEventBytes
        then oversize ops (b\<lparr>ob_event := []\<rparr>)
        else b\<lparr>ob_event := (if ob_event b \<noteq> [] then ob_event b @ [LF] else []) @ data\<rparr>))"

text \<open>A complete line ends the text collected so far; an incomplete one is kept.\<close>

definition lineEnd :: "'c collector_ops \<Rightarrow> string \<Rightarrow> 'c observer \<Rightarrow> 'c observer" where
  "lineEnd ops seg b =
     (if length (ob_line b) + length seg \<le> maxObservedSSEEventBytes
      then consumeSSELine ops (ob_line b @ seg) b else oversize ops b)\<lparr>ob_line := []\<rparr>"

definition lineRest :: "'c collector_ops \<Rightarrow> string \<Rightarrow> 'c observer \<Rightarrow> 'c observer" where
  "lineRest ops seg b =
     (if length (ob_line b) + length seg \<le> maxObservedSSEEventBytes
      then b\<lparr>ob_line := ob_line b @ seg\<rparr> else (oversize ops b)\<lparr>ob_line := []\<rparr>)"

function observeSSE :: "'c collector_ops \<Rightarrow> 'c observer \<Rightarrow> string \<Rightarrow> 'c observer" where
  "observeSSE ops b v =
     (if v = [] then b
      else case cut LF v of
        None \<Rightarrow> lineRest ops v b
      | Some (seg, rest) \<Rightarrow> observeSSE ops (lineEnd ops seg b) rest)"
  by pat_completeness auto
termination
  by (relation "measure (\<lambda>(_, _, v). length v)") (auto dest: cut_Some)

declare observeSSE.simps [simp del]

definition Observe :: "'c collector_ops \<Rightarrow> 'c observer \<Rightarrow> string \<Rightarrow> 'c observer" where
  "Observe ops b v =
     (if ob_stream b then observeSSE ops b v
      else if ob_jsonOversized b then b
      else if length (ob_jsonBuffer b) + length v > maxObservedJSONBytes
      then b\<lparr>ob_jsonBuffer := [], ob_jsonOversized := True, ob_acc := on_partial ops (ob_acc b)\<rparr>
      else b\<lparr>ob_jsonBuffer := ob_jsonBuffer b @ v\<rparr>)"

text \<open>The framing part of \<^verbatim>\<open>Finish\<close>.\<close>

definition finishFrames :: "'c collector_ops \<Rightarrow> 'c observer \<Rightarrow> 'c observer" where
  "finishFrames ops b =
     (if ob_stream b then
        (let b = (if ob_line b \<noteq> [] \<or> ob_event b \<noteq> [] \<or> ob_eventOversize b
                  then b\<lparr>ob_acc := on_partial ops (ob_acc b)\<rparr> else b);
             b = (if ob_line b \<noteq> [] then (consumeSSELine ops (ob_line b) b)\<lparr>ob_line := []\<rparr> else b) in
         consumeSSEEvent ops b)
      else if \<not> ob_jsonOversized b then b\<lparr>ob_acc := on_json ops (ob_jsonBuffer b) (ob_acc b)\<rparr>
      else b)"

subsection \<open>Cuts do not matter while lines fit\<close>

definition lines_fit :: "'c observer \<Rightarrow> string \<Rightarrow> bool" where
  "lines_fit b v \<longleftrightarrow> (\<forall>l\<in>set (split_on LF (ob_line b @ v)). length l \<le> maxObservedSSEEventBytes)"

lemma ob_line_lineEnd [simp]: "ob_line (lineEnd ops seg b) = []"
  by (simp add: lineEnd_def)

lemma split_on_line: "cut LF v = Some (seg, rest) \<Longrightarrow> LF \<notin> set l \<Longrightarrow>
    split_on LF (l @ v) = (l @ seg) # split_on LF rest"
  using cut_Some [of LF v seg rest] split_on_append [of LF "l @ seg" rest] by simp

lemma lineRest_fit:
  "length (ob_line b) + length xs \<le> maxObservedSSEEventBytes \<Longrightarrow> lineRest ops xs b = b\<lparr>ob_line := ob_line b @ xs\<rparr>"
  by (simp add: lineRest_def)

lemma observeSSE_line:
  assumes "cut LF ys = Some (seg, rest)" "length (ob_line b) + length xs + length seg \<le> maxObservedSSEEventBytes"
  shows "observeSSE ops (b\<lparr>ob_line := ob_line b @ xs\<rparr>) ys = observeSSE ops (lineEnd ops (xs @ seg) b) rest"
proof -
  have frame: "consumeSSELine ops l (b\<lparr>ob_line := m\<rparr>)\<lparr>ob_line := []\<rparr> = consumeSSELine ops l b\<lparr>ob_line := []\<rparr>" for l m
    by (simp add: consumeSSELine_def consumeSSEEvent_def oversize_def Let_def)
  have "lineEnd ops seg (b\<lparr>ob_line := ob_line b @ xs\<rparr>) = lineEnd ops (xs @ seg) b"
    using assms(2) frame [of "ob_line b @ xs @ seg" "ob_line b @ xs"] by (simp add: lineEnd_def)
  moreover have "ys \<noteq> []" using assms(1) by auto
  ultimately show ?thesis using assms(1) by (simp add: observeSSE.simps [of _ _ ys])
qed

lemma observeSSE_split:
  "LF \<notin> set (ob_line b) \<Longrightarrow> lines_fit b (xs @ ys) \<Longrightarrow>
   observeSSE ops b (xs @ ys) = observeSSE ops (observeSSE ops b xs) ys"
proof (induction "length xs" arbitrary: xs b rule: less_induct)
  case less
  show ?case
  proof (cases "cut LF xs")
    case (Some tr)
    obtain seg rest where tr: "tr = (seg, rest)" by fastforce
    have xs: "xs = seg @ LF # rest" "LF \<notin> set seg" using cut_Some Some tr by fastforce+
    have cut: "cut LF (xs @ ys) = Some (seg, rest @ ys)"
      unfolding xs(1) using xs(2) by (induction seg) auto
    have "lines_fit (lineEnd ops seg b) (rest @ ys)"
      using less.prems split_on_line [OF cut, of "ob_line b"] by (simp add: lines_fit_def)
    with less.hyps [of rest "lineEnd ops seg b"] xs(1) have
      "observeSSE ops (lineEnd ops seg b) (rest @ ys) = observeSSE ops (observeSSE ops (lineEnd ops seg b) rest) ys"
      by simp
    then show ?thesis
      using cut Some tr xs by (simp add: observeSSE.simps [of _ b])
  next
    case None
    then have no: "LF \<notin> set xs" by simp
    show ?thesis
    proof (cases "xs = [] \<or> ys = []")
      case True
      then show ?thesis by (auto simp: observeSSE.simps [of _ _ "[]"])
    next
      case False
      then have obs: "observeSSE ops b xs = lineRest ops xs b"
        using no by (simp add: observeSSE.simps [of _ b])
      show ?thesis
      proof (cases "cut LF ys")
        case Some': (Some tr)
        obtain seg rest where tr: "tr = (seg, rest)" by fastforce
        have cut: "cut LF (xs @ ys) = Some (xs @ seg, rest)"
          using no Some' tr by (induction xs) auto
        have fit: "length (ob_line b) + length xs + length seg \<le> maxObservedSSEEventBytes"
          using less.prems split_on_line [OF cut, of "ob_line b"] by (simp add: lines_fit_def)
        then show ?thesis
          using observeSSE_line [of ys seg rest b xs ops] Some' tr cut False obs lineRest_fit [of b xs ops]
          by (simp add: observeSSE.simps [of _ b "xs @ ys"])
      next
        case None': None
        then have "LF \<notin> set (ob_line b @ xs @ ys)" using no less.prems by simp
        then have "length (ob_line b) + length xs + length ys \<le> maxObservedSSEEventBytes"
          using less.prems by (simp add: lines_fit_def split_on_no_char)
        then show ?thesis
          using None' no False obs lineRest_fit [of b xs ops] lineRest_fit [of b "xs @ ys" ops]
            lineRest_fit [of "b\<lparr>ob_line := ob_line b @ xs\<rparr>" ys ops]
          by (simp add: observeSSE.simps)
      qed
    qed
  qed
qed

lemma split_on_prefix_length:
  "\<forall>l\<in>set (split_on c (u @ v)). length l \<le> n \<Longrightarrow> \<forall>l\<in>set (split_on c u). length l \<le> n"
proof (induction "length u" arbitrary: u rule: less_induct)
  case less
  show ?case
  proof (cases "cut c u")
    case None
    show ?thesis
    proof (cases "cut c v")
      case Some': (Some tr)
      then have "split_on c (u @ v) = (u @ fst tr) # split_on c (snd tr)"
        using None cut_Some [of c v "fst tr" "snd tr"] split_on_append [of c "u @ fst tr" "snd tr"] by simp
      then show ?thesis using less.prems None by (simp add: split_on_no_char)
    next
      case None': None
      then show ?thesis using less.prems None by (simp add: split_on_no_char)
    qed
  next
    case (Some tr)
    obtain seg rest where tr: "tr = (seg, rest)" by fastforce
    have u: "u = seg @ c # rest" "c \<notin> set seg" using cut_Some Some tr by fastforce+
    then show ?thesis
      using less.hyps [of rest] less.prems by (simp add: split_on_append)
  qed
qed

text \<open>
  while every line fits the bound, the observer's state does not depend on how the response is
  cut into reads.
\<close>

theorem sse_rechunk:
  assumes "LF \<notin> set (ob_line b)" "lines_fit b (concat chunks)"
  shows "foldl (observeSSE ops) b chunks = observeSSE ops b (concat chunks)"
  using assms(2)
proof (induction chunks rule: rev_induct)
  case Nil
  then show ?case by (simp add: observeSSE.simps)
next
  case (snoc c cs)
  have "lines_fit b (concat cs)"
    using snoc.prems split_on_prefix_length [of LF "ob_line b @ concat cs" c] by (simp add: lines_fit_def)
  then show ?case
    using snoc observeSSE_split [OF assms(1), of "concat cs" c ops] by simp
qed

abbreviation count_ops :: "nat collector_ops" where
  "count_ops \<equiv> \<lparr>on_partial = \<lambda>n. n, on_done = \<lambda>n. n, on_json = \<lambda>_. Suc\<rparr>"

theorem sse_rechunk_witness:
  "foldl (observeSSE count_ops) (newResponseObserver True 0) [''da'', ''ta: x'' @ [LF], [LF]] =
     observeSSE count_ops (newResponseObserver True 0) (''data: x'' @ [LF, LF])"
  using sse_rechunk [of "newResponseObserver True 0" "[''da'', ''ta: x'' @ [LF], [LF]]" count_ops]
  by (simp add: newResponseObserver_def lines_fit_def maxObservedSSEEventBytes_def)

text \<open>
  beyond the bound the cut does matter. A line of one byte too many followed by its newline
  leaves the event marked as oversized when it arrives in one read, but when the read ends just
  before the newline, the newline is taken for an empty line: it ends the event and clears the
  mark, so the following data lines of the same event are decoded as an event of their own.
\<close>

theorem oversized_line_cut_matters:
  "ob_eventOversize (observeSSE ops (newResponseObserver True acc)
       (replicate (Suc maxObservedSSEEventBytes) CHR ''x'' @ [LF])) \<and>
   \<not> ob_eventOversize (observeSSE ops (observeSSE ops (newResponseObserver True acc)
       (replicate (Suc maxObservedSSEEventBytes) CHR ''x'')) [LF])"
proof -
  define v where "v = replicate (Suc maxObservedSSEEventBytes) CHR ''x''"
  have v: "LF \<notin> set v" "length v = Suc maxObservedSSEEventBytes" "v \<noteq> []" by (simp_all add: v_def)
  have "cut LF (v @ [LF]) = Some (v, [])" using v(1) by (induction v) auto
  then have "ob_eventOversize (observeSSE ops (newResponseObserver True acc) (v @ [LF]))"
    using v by (simp add: observeSSE.simps lineEnd_def oversize_def newResponseObserver_def)
  moreover have "\<not> ob_eventOversize (observeSSE ops (observeSSE ops (newResponseObserver True acc) v) [LF])"
    using v by (simp add: observeSSE.simps lineEnd_def lineRest_def oversize_def newResponseObserver_def
        consumeSSELine_def consumeSSEEvent_def trimSuffix_def hasSuffix_def)
  ultimately show ?thesis unfolding v_def by (rule conjI)
qed

end
