(* ===== verification/Completion.thy ===== *)
theory Completion
  imports Requests Streams
begin

text \<open>
  What the gateway learns from a response: the finish reasons of the choices
  (\<^verbatim>\<open>internal/gateway/completion.go\<close>), token counts, backend timings and the first output
  (\<^verbatim>\<open>observeJSON\<close> and \<^verbatim>\<open>Finish\<close> of \<^verbatim>\<open>observability.go\<close>). The framing of the stream is in \<open>Streams\<close>; here
  its arguments \<open>on_json\<close>, \<open>on_done\<close> and \<open>on_partial\<close> get their meaning. The observer never keeps more than
  the bound of one JSON body, so the check of that bound inside \<^verbatim>\<open>observeObject\<close> cannot fire and is left
  out.
\<close>

section \<open>Finish reasons\<close>

definition maxObservedCompletionChoices :: nat where "maxObservedCompletionChoices = 16"

record completionChoice =
  cc_seen :: bool
  cc_reason :: string
  cc_conflict :: bool

record completionCollector =
  co_choices :: "completionChoice list"
  co_partial :: bool
  co_streamDone :: bool

definition new_collector :: completionCollector where
  "new_collector = \<lparr>co_choices = replicate maxObservedCompletionChoices \<lparr>cc_seen = False, cc_reason = [], cc_conflict = False\<rparr>,
     co_partial = False, co_streamDone = False\<rparr>"

definition markPartial :: "completionCollector \<Rightarrow> completionCollector" where
  "markPartial c = c\<lparr>co_partial := True\<rparr>"

definition markStreamDone :: "completionCollector \<Rightarrow> completionCollector" where
  "markStreamDone c = (if co_streamDone c then markPartial c else c)\<lparr>co_streamDone := True\<rparr>"

text \<open>A direct scan of the fields of an object, before a map can hide repeated ones.\<close>

definition uniqueCompletionKeys :: "json \<Rightarrow> string list \<Rightarrow> bool" where
  "uniqueCompletionKeys j names = (case j of
     JObj kvs \<Rightarrow> list_all (\<lambda>n. length (filter (\<lambda>kv. fst kv = n) kvs) \<le> 1) names
   | _ \<Rightarrow> False)"

definition rawObject :: "raw \<Rightarrow> json table option" where
  "rawObject r = (case r of Some (JObj kvs) \<Rightarrow> Some (object_of kvs) | _ \<Rightarrow> None)"

definition known_reasons :: "string list" where
  "known_reasons = [''stop'', ''length'', ''tool_calls'', ''function_call'', ''content_filter'']"

definition choice_index :: "raw \<Rightarrow> nat option" where
  "choice_index r = (case r of
     Some (JNum t) \<Rightarrow> (case parseInt64 t of
        Some i \<Rightarrow> (if i < 0 \<or> int maxObservedCompletionChoices \<le> i then None else Some (nat i))
      | None \<Rightarrow> None)
   | _ \<Rightarrow> None)"

definition note_reason :: "nat \<Rightarrow> string \<Rightarrow> completionCollector \<Rightarrow> completionCollector" where
  "note_reason i upstream c =
     (let known = upstream \<in> set known_reasons;
          reason = (if known then upstream else ''other'');
          c = (if known then c else markPartial c);
          st = co_choices c ! i in
      if cc_conflict st then c
      else if cc_reason st \<noteq> [] \<and> cc_reason st \<noteq> reason
      then markPartial (c\<lparr>co_choices := (co_choices c)[i := st\<lparr>cc_reason := [], cc_conflict := True\<rparr>]\<rparr>)
      else c\<lparr>co_choices := (co_choices c)[i := st\<lparr>cc_reason := reason\<rparr>]\<rparr>)"

definition observe_choice :: "json \<Rightarrow> completionCollector \<Rightarrow> completionCollector" where
  "observe_choice choiceRaw c =
     (case rawObject (Some choiceRaw) of
        None \<Rightarrow> markPartial c
      | Some choice \<Rightarrow>
          (if \<not> uniqueCompletionKeys choiceRaw [''index'', ''finish_reason''] then markPartial c
           else case choice_index (lookup choice ''index'') of
             None \<Rightarrow> markPartial c
           | Some i \<Rightarrow>
               (let c = c\<lparr>co_choices := (co_choices c)[i := (co_choices c ! i)\<lparr>cc_seen := True\<rparr>]\<rparr> in
                case lookup choice ''finish_reason'' of
                  None \<Rightarrow> c
                | Some JNull \<Rightarrow> c
                | Some (JStr upstream) \<Rightarrow> note_reason i upstream c
                | Some _ \<Rightarrow> markPartial c)))"

text \<open>The choices are part of a body that fits the observer's buffer, so their bound is never exceeded.\<close>

definition observeObject :: "json table \<Rightarrow> completionCollector \<Rightarrow> completionCollector" where
  "observeObject object c =
     (let c = (if co_streamDone c then markPartial c else c) in
      case lookup object ''choices'' of
        None \<Rightarrow> c
      | Some JNull \<Rightarrow> c
      | Some (JArr choices) \<Rightarrow> fold observe_choice choices c
      | Some _ \<Rightarrow> markPartial c)"

definition observeResponse :: "json \<Rightarrow> json table \<Rightarrow> completionCollector \<Rightarrow> completionCollector" where
  "observeResponse tree object c =
     (if \<not> uniqueCompletionKeys tree [''choices''] then markPartial c else observeObject object c)"

definition metadata :: "bool \<Rightarrow> completionCollector \<Rightarrow> CompletionMetadata" where
  "metadata stream c =
     (let partial = co_partial c \<or> stream \<and> \<not> co_streamDone c;
          finished = filter (\<lambda>(i, ch). cc_reason ch \<noteq> []) (enumerate 0 (co_choices c));
          unfinished = list_ex (\<lambda>ch. cc_reason ch = [] \<and> cc_seen ch) (co_choices c) in
      \<lparr>cm_Observation =
         (if partial \<or> unfinished \<and> finished \<noteq> [] then CompletionPartial
          else if finished \<noteq> [] then CompletionAvailable else CompletionUnavailable),
       cm_FinishReasons = map (\<lambda>(i, ch). \<lparr>cf_Index = int i, cf_FinishReason = cc_reason ch\<rparr>) finished,
       cm_StreamDone = (if stream then Some (co_streamDone c) else None)\<rparr>)"

section \<open>Numbers of a response\<close>

fun firstInteger :: "json table \<Rightarrow> string list \<Rightarrow> int64 option" where
  "firstInteger object [] = None"
| "firstInteger object (name # names) =
     (case lookup object name of
        Some (JNum t) \<Rightarrow>
          (case parseInt64 t of
             Some v \<Rightarrow> (if 0 \<le> v then Some (of_int v) else firstInteger object names)
           | None \<Rightarrow> firstInteger object names)
      | _ \<Rightarrow> firstInteger object names)"

fun firstNumber :: "request_env \<Rightarrow> json table \<Rightarrow> string list \<Rightarrow> float64 option" where
  "firstNumber re object [] = None"
| "firstNumber re object (name # names) =
     (case lookup object name of
        Some (JNum t) \<Rightarrow>
          (case re_ParseFloat re t of
             Some v \<Rightarrow> (if \<not> fl_less v fl_zero \<and> \<not> IsInf v \<and> \<not> IsNaN v then Some v else firstNumber re object names)
           | None \<Rightarrow> firstNumber re object names)
      | _ \<Rightarrow> firstNumber re object names)"

text \<open>
  Decoding into a struct: field names match without regard to ASCII case, repeated fields are decoded
  one after the other, \<^verbatim>\<open>null\<close> changes nothing, and a value of another type is an error.
\<close>

definition struct_values :: "string \<Rightarrow> (string \<times> json) list \<Rightarrow> json list" where
  "struct_values name kvs = filter (\<lambda>v. v \<noteq> JNull) (map snd (filter (\<lambda>kv. map lower_char (fst kv) = name) kvs))"

definition string_field :: "string \<Rightarrow> (string \<times> json) list \<Rightarrow> string option" where
  "string_field name kvs =
     (let vs = struct_values name kvs in
      if list_all (\<lambda>v. case v of JStr _ \<Rightarrow> True | _ \<Rightarrow> False) vs
      then Some (case vs of [] \<Rightarrow> [] | _ \<Rightarrow> (case last vs of JStr s \<Rightarrow> s | _ \<Rightarrow> [])) else None)"

definition struct_field :: "string \<Rightarrow> (string \<times> json) list \<Rightarrow> (string \<times> json) list option" where
  "struct_field name kvs =
     (let vs = struct_values name kvs in
      if list_all (\<lambda>v. case v of JObj _ \<Rightarrow> True | _ \<Rightarrow> False) vs
      then Some (concat (map (\<lambda>v. case v of JObj f \<Rightarrow> f | _ \<Rightarrow> []) vs)) else None)"

definition list_field :: "string \<Rightarrow> (string \<times> json) list \<Rightarrow> json list option" where
  "list_field name kvs =
     (let vs = struct_values name kvs in
      if list_all (\<lambda>v. case v of JArr _ \<Rightarrow> True | _ \<Rightarrow> False) vs
      then Some (case vs of [] \<Rightarrow> [] | _ \<Rightarrow> (case last vs of JArr xs \<Rightarrow> xs | _ \<Rightarrow> [])) else None)"

definition element_fields :: "json \<Rightarrow> (string \<times> json) list option" where
  "element_fields j = (case j of JObj f \<Rightarrow> Some f | JNull \<Rightarrow> Some [] | _ \<Rightarrow> None)"

definition all_some :: "'a option list \<Rightarrow> 'a list option" where
  "all_some xs = (if None \<in> set xs then None else Some (map the xs))"

definition call_text :: "json \<Rightarrow> bool option" where
  "call_text j =
     Option.bind (element_fields j) (\<lambda>call. Option.bind (struct_field ''function'' call) (\<lambda>f.
     Option.bind (string_field ''name'' f) (\<lambda>name. Option.bind (string_field ''arguments'' f) (\<lambda>arguments.
     Some (name \<noteq> [] \<or> arguments \<noteq> [])))))"

definition choice_text :: "json \<Rightarrow> bool option" where
  "choice_text j =
     Option.bind (element_fields j) (\<lambda>choice. Option.bind (struct_field ''delta'' choice) (\<lambda>delta.
     Option.bind (all_some (map (\<lambda>n. string_field n delta)
       [''content'', ''reasoning'', ''reasoning_content'', ''refusal''])) (\<lambda>texts.
     Option.bind (list_field ''tool_calls'' delta) (\<lambda>calls.
     Option.bind (all_some (map call_text calls)) (\<lambda>called.
     Some (list_ex (\<lambda>t. t \<noteq> []) texts \<or> list_ex id called))))))"

definition hasGeneratedDelta :: "raw \<Rightarrow> bool" where
  "hasGeneratedDelta r =
     (case unmarshal_list r of
        None \<Rightarrow> False
      | Some choices \<Rightarrow> (case all_some (map choice_text choices) of None \<Rightarrow> False | Some ts \<Rightarrow> list_ex id ts))"

section \<open>The observer\<close>

text \<open>The clock counts the JSON bodies seen; the first output is noted by that time.\<close>

record response_state =
  rs_tokens :: TokenUsage
  rs_timings :: BackendTimings
  rs_clock :: nat
  rs_firstOutputAt :: "nat option"
  rs_cacheFromUsage :: bool
  rs_completion :: completionCollector

definition no_tokens :: TokenUsage where
  "no_tokens = \<lparr>tu_Input = None, tu_Output = None, tu_Cached = None, tu_Reasoning = None\<rparr>"

definition no_timings :: BackendTimings where
  "no_timings = \<lparr>bt_PromptTokens = None, bt_PromptMilliseconds = None, bt_GeneratedTokens = None,
     bt_GeneratedMilliseconds = None, bt_DraftTokens = None, bt_DraftAcceptedTokens = None, bt_DraftVerificationSteps = None\<rparr>"

definition new_response :: response_state where
  "new_response = \<lparr>rs_tokens = no_tokens, rs_timings = no_timings, rs_clock = 0, rs_firstOutputAt = None,
     rs_cacheFromUsage = False, rs_completion = new_collector\<rparr>"

definition responseObject :: "document \<Rightarrow> json table option" where
  "responseObject d = (case d of Whole (JObj kvs) \<Rightarrow> Some (object_of kvs) | _ \<Rightarrow> None)"

definition noted :: "'v option \<Rightarrow> ('v \<Rightarrow> 's \<Rightarrow> 's) \<Rightarrow> 's \<Rightarrow> 's" where
  "noted found put st = (case found of Some v \<Rightarrow> put v st | None \<Rightarrow> st)"

definition put_input :: "int64 \<Rightarrow> response_state \<Rightarrow> response_state" where
  "put_input v st = st\<lparr>rs_tokens := (rs_tokens st)\<lparr>tu_Input := Some v\<rparr>\<rparr>"

definition put_output :: "int64 \<Rightarrow> response_state \<Rightarrow> response_state" where
  "put_output v st = st\<lparr>rs_tokens := (rs_tokens st)\<lparr>tu_Output := Some v\<rparr>\<rparr>"

definition put_cached :: "int64 \<Rightarrow> response_state \<Rightarrow> response_state" where
  "put_cached v st = st\<lparr>rs_tokens := (rs_tokens st)\<lparr>tu_Cached := Some v\<rparr>, rs_cacheFromUsage := True\<rparr>"

definition put_reasoning :: "int64 \<Rightarrow> response_state \<Rightarrow> response_state" where
  "put_reasoning v st = st\<lparr>rs_tokens := (rs_tokens st)\<lparr>tu_Reasoning := Some v\<rparr>\<rparr>"

definition put_timing :: "('v option \<Rightarrow> BackendTimings \<Rightarrow> BackendTimings) \<Rightarrow> 'v \<Rightarrow> response_state \<Rightarrow> response_state" where
  "put_timing upd v st = st\<lparr>rs_timings := upd (Some v) (rs_timings st)\<rparr>"

definition detail :: "json table \<Rightarrow> string \<Rightarrow> string \<Rightarrow> int64 option" where
  "detail usage name field = (case rawObject (lookup usage name) of
     Some details \<Rightarrow> firstInteger details [field] | None \<Rightarrow> None)"

definition observe_usage :: "json table \<Rightarrow> response_state \<Rightarrow> response_state" where
  "observe_usage usage st =
     (let st = noted (firstInteger usage [''prompt_tokens'', ''input_tokens'']) put_input st;
          st = noted (firstInteger usage [''completion_tokens'', ''output_tokens'']) put_output st;
          st = noted (firstInteger usage [''cache_read_input_tokens'', ''cached_tokens'']) put_cached st;
          st = noted (firstInteger usage [''reasoning_tokens'']) put_reasoning st;
          st = noted (detail usage ''prompt_tokens_details'' ''cached_tokens'') put_cached st;
          st = noted (detail usage ''input_tokens_details'' ''cached_tokens'') put_cached st;
          st = noted (detail usage ''completion_tokens_details'' ''reasoning_tokens'') put_reasoning st in
      noted (detail usage ''output_tokens_details'' ''reasoning_tokens'') put_reasoning st)"

definition put_cache_timing :: "int64 \<Rightarrow> response_state \<Rightarrow> response_state" where
  "put_cache_timing v st =
     (if rs_cacheFromUsage st then st else st\<lparr>rs_tokens := (rs_tokens st)\<lparr>tu_Cached := Some v\<rparr>\<rparr>)"

definition observe_timings :: "request_env \<Rightarrow> json table \<Rightarrow> response_state \<Rightarrow> response_state" where
  "observe_timings re timings st =
     (let st = noted (firstInteger timings [''prompt_n'']) (put_timing (\<lambda>v t. t\<lparr>bt_PromptTokens := v\<rparr>)) st;
          st = noted (firstInteger timings [''cache_n'']) put_cache_timing st;
          st = noted (firstNumber re timings [''prompt_ms'']) (put_timing (\<lambda>v t. t\<lparr>bt_PromptMilliseconds := v\<rparr>)) st;
          st = noted (firstInteger timings [''predicted_n'']) (put_timing (\<lambda>v t. t\<lparr>bt_GeneratedTokens := v\<rparr>)) st;
          st = noted (firstNumber re timings [''predicted_ms'']) (put_timing (\<lambda>v t. t\<lparr>bt_GeneratedMilliseconds := v\<rparr>)) st;
          st = noted (firstInteger timings [''draft_n'']) (put_timing (\<lambda>v t. t\<lparr>bt_DraftTokens := v\<rparr>)) st;
          st = noted (firstInteger timings [''draft_n_accepted'']) (put_timing (\<lambda>v t. t\<lparr>bt_DraftAcceptedTokens := v\<rparr>)) st in
      noted (firstInteger timings [''draft_verif_steps'']) (put_timing (\<lambda>v t. t\<lparr>bt_DraftVerificationSteps := v\<rparr>)) st)"

definition observeJSON :: "request_env \<Rightarrow> bool \<Rightarrow> document \<Rightarrow> response_state \<Rightarrow> response_state" where
  "observeJSON re stream d st0 =
     (let st = st0\<lparr>rs_clock := Suc (rs_clock st0)\<rparr> in
      case (responseObject d, d) of
        (Some object, Whole tree) \<Rightarrow>
          (let st = st\<lparr>rs_completion := observeResponse tree object (rs_completion st)\<rparr>;
               st = (if stream \<and> rs_firstOutputAt st = None \<and> hasGeneratedDelta (lookup object ''choices'')
                     then st\<lparr>rs_firstOutputAt := Some (rs_clock st)\<rparr> else st);
               st = noted (rawObject (lookup object ''usage'')) observe_usage st in
           noted (rawObject (lookup object ''timings'')) (observe_timings re) st)
      | _ \<Rightarrow> st\<lparr>rs_completion := markPartial (rs_completion st)\<rparr>)"

text \<open>The arguments of the framing, with the parser of the Go library.\<close>

definition response_ops :: "request_env \<Rightarrow> (string \<Rightarrow> document) \<Rightarrow> bool \<Rightarrow> response_state collector_ops" where
  "response_ops re parse stream =
     \<lparr>on_partial = (\<lambda>st. st\<lparr>rs_completion := markPartial (rs_completion st)\<rparr>),
      on_done = (\<lambda>st. st\<lparr>rs_completion := markStreamDone (rs_completion st)\<rparr>),
      on_json = (\<lambda>text. observeJSON re stream (parse text))\<rparr>"

record responseObservation =
  rv_Tokens :: TokenUsage
  rv_Timings :: BackendTimings
  rv_FirstOutputAt :: "nat option"
  rv_Completion :: CompletionMetadata

definition final_tokens :: "response_state \<Rightarrow> TokenUsage" where
  "final_tokens st =
     (let tokens = rs_tokens st; cached = (case tu_Cached tokens of Some c \<Rightarrow> c | None \<Rightarrow> 0);
          tokens = (case (tu_Input tokens, bt_PromptTokens (rs_timings st)) of
            (None, Some prompt) \<Rightarrow>
              (if sint prompt \<le> sint (MaxInt64 - cached) then tokens\<lparr>tu_Input := Some (prompt + cached)\<rparr> else tokens)
          | _ \<Rightarrow> tokens) in
      if tu_Output tokens = None then tokens\<lparr>tu_Output := bt_GeneratedTokens (rs_timings st)\<rparr> else tokens)"

definition Finish :: "request_env \<Rightarrow> (string \<Rightarrow> document) \<Rightarrow> response_state observer \<Rightarrow> responseObservation" where
  "Finish re parse b =
     (let st = ob_acc (finishFrames (response_ops re parse (ob_stream b)) b) in
      \<lparr>rv_Tokens = final_tokens st, rv_Timings = rs_timings st, rv_FirstOutputAt = rs_firstOutputAt st,
       rv_Completion = metadata (ob_stream b) (rs_completion st)\<rparr>)"

section \<open>The reference over the whole response\<close>

text \<open>What one choice of one body says, and what the framing delivers.\<close>

datatype choice_event = Unusable | Seen nat | Finished nat string

datatype item = Body string | Done | Gap

definition choice_event :: "json \<Rightarrow> choice_event" where
  "choice_event j =
     (case rawObject (Some j) of
        None \<Rightarrow> Unusable
      | Some choice \<Rightarrow>
          (if \<not> uniqueCompletionKeys j [''index'', ''finish_reason''] then Unusable
           else case choice_index (lookup choice ''index'') of
             None \<Rightarrow> Unusable
           | Some i \<Rightarrow>
               (case lookup choice ''finish_reason'' of
                  None \<Rightarrow> Seen i | Some JNull \<Rightarrow> Seen i | Some (JStr r) \<Rightarrow> Finished i r | Some _ \<Rightarrow> Seen i)))"

definition bad_reason :: "json \<Rightarrow> bool" where
  "bad_reason j =
     (case rawObject (Some j) of
        None \<Rightarrow> False
      | Some choice \<Rightarrow> (case lookup choice ''finish_reason'' of
          None \<Rightarrow> False | Some JNull \<Rightarrow> False | Some (JStr _) \<Rightarrow> False | Some _ \<Rightarrow> True))"

definition choice_events :: "json \<Rightarrow> choice_event list" where
  "choice_events j = choice_event j # (if bad_reason j then [Unusable] else [])"

definition body_events :: "document \<Rightarrow> choice_event list" where
  "body_events d =
     (case d of
        Whole (JObj kvs) \<Rightarrow>
          (if \<not> uniqueCompletionKeys (JObj kvs) [''choices''] then [Unusable]
           else case lookup (object_of kvs) ''choices'' of
             None \<Rightarrow> [] | Some JNull \<Rightarrow> [] | Some (JArr cs) \<Rightarrow> concat (map choice_events cs) | Some _ \<Rightarrow> [Unusable])
      | _ \<Rightarrow> [Unusable])"

definition normal :: "string \<Rightarrow> string" where
  "normal r = (if r \<in> set known_reasons then r else ''other'')"

definition reasons :: "choice_event list \<Rightarrow> nat \<Rightarrow> string set" where
  "reasons es i = {normal r | r. Finished i r \<in> set es}"

definition apply_event :: "choice_event \<Rightarrow> completionCollector \<Rightarrow> completionCollector" where
  "apply_event e c = (case e of
     Unusable \<Rightarrow> markPartial c
   | Seen i \<Rightarrow> c\<lparr>co_choices := (co_choices c)[i := (co_choices c ! i)\<lparr>cc_seen := True\<rparr>]\<rparr>
   | Finished i r \<Rightarrow> note_reason i r (c\<lparr>co_choices := (co_choices c)[i := (co_choices c ! i)\<lparr>cc_seen := True\<rparr>]\<rparr>))"

lemma markPartial_twice [simp]: "markPartial (markPartial c) = markPartial c"
  by (simp add: markPartial_def)

lemma observe_choice_events: "observe_choice j c = fold apply_event (choice_events j) c"
  unfolding observe_choice_def choice_events_def choice_event_def bad_reason_def apply_event_def Let_def
  by (simp split: option.splits json.splits)

lemma fold_observe_choice: "fold observe_choice cs c = fold apply_event (concat (map choice_events cs)) c"
  by (induction cs arbitrary: c) (simp_all add: observe_choice_events)

lemma put_completion [simp]:
  "rs_completion (put_input v st) = rs_completion st" "rs_completion (put_output v st) = rs_completion st"
  "rs_completion (put_cached v st) = rs_completion st" "rs_completion (put_reasoning v st) = rs_completion st"
  "rs_completion (put_timing upd w st) = rs_completion st" "rs_completion (put_cache_timing v st) = rs_completion st"
  by (simp_all add: put_input_def put_output_def put_cached_def put_reasoning_def put_timing_def put_cache_timing_def)

lemma noted_completion:
  "(\<And>v. rs_completion (put v st) = rs_completion st) \<Longrightarrow> rs_completion (noted found put st) = rs_completion st"
  by (cases found) (simp_all add: noted_def)

lemma observe_completion [simp]:
  "rs_completion (observe_usage usage st) = rs_completion st"
  "rs_completion (observe_timings re timings st) = rs_completion st"
  by (simp_all only: observe_usage_def observe_timings_def Let_def noted_completion put_completion)

lemma observeJSON_completion:
  "rs_completion (observeJSON re stream d st) =
     fold apply_event (body_events d)
       ((if co_streamDone (rs_completion st) then markPartial else id) (rs_completion st)) \<or>
   body_events d = [Unusable] \<and> rs_completion (observeJSON re stream d st) = markPartial (rs_completion st)"
proof (cases d)
  case (Whole j)
  show ?thesis
  proof (cases j)
    case (JObj kvs)
    have "rs_completion (observeJSON re stream d st) = observeResponse j (object_of kvs) (rs_completion st)"
      by (simp add: observeJSON_def Whole JObj responseObject_def Let_def noted_completion)
    then show ?thesis
      by (simp add: observeResponse_def observeObject_def body_events_def Whole JObj fold_observe_choice apply_event_def
          Let_def split: option.splits json.splits)
  qed (simp_all add: observeJSON_def Whole responseObject_def body_events_def Let_def)
qed (simp_all add: observeJSON_def responseObject_def body_events_def Let_def)

subsection \<open>The collector follows the reference\<close>

definition mentions :: "nat \<Rightarrow> choice_event \<Rightarrow> bool" where
  "mentions i e \<longleftrightarrow> (case e of Seen j \<Rightarrow> j = i | Finished j _ \<Rightarrow> j = i | Unusable \<Rightarrow> False)"

definition in_range :: "choice_event \<Rightarrow> bool" where
  "in_range e \<longleftrightarrow> (\<forall>i. mentions i e \<longrightarrow> i < maxObservedCompletionChoices)"

definition tracks :: "choice_event list \<Rightarrow> nat \<Rightarrow> completionChoice \<Rightarrow> bool" where
  "tracks es i ch \<longleftrightarrow> (cc_seen ch \<longleftrightarrow> list_ex (mentions i) es) \<and>
     (if reasons es i = {} then cc_reason ch = [] \<and> \<not> cc_conflict ch
      else if is_singleton (reasons es i) then reasons es i = {cc_reason ch} \<and> cc_reason ch \<noteq> [] \<and> \<not> cc_conflict ch
      else cc_reason ch = [] \<and> cc_conflict ch)"

definition clear :: "choice_event list \<Rightarrow> bool" where
  "clear es \<longleftrightarrow> Unusable \<notin> set es \<and> (\<forall>i r. Finished i r \<in> set es \<longrightarrow> r \<in> set known_reasons) \<and>
     (\<forall>i. reasons es i = {} \<or> is_singleton (reasons es i))"

definition collected :: "choice_event list \<Rightarrow> completionCollector \<Rightarrow> bool" where
  "collected es c \<longleftrightarrow> length (co_choices c) = maxObservedCompletionChoices \<and>
     (\<forall>i < maxObservedCompletionChoices. tracks es i (co_choices c ! i)) \<and> (\<not> co_partial c \<longrightarrow> clear es)"

lemma reasons_snoc [simp]:
  "reasons [] i = {}" "reasons (es @ [Unusable]) i = reasons es i" "reasons (es @ [Seen j]) i = reasons es i"
  "reasons (es @ [Finished j r]) i = (if i = j then insert (normal r) (reasons es i) else reasons es i)"
  by (auto simp: reasons_def)

lemma normal_nonempty [simp]: "normal r \<noteq> []"
  by (auto simp: normal_def known_reasons_def)

lemma collected_partial: "collected es c \<Longrightarrow> collected es (markPartial c)"
  by (simp add: collected_def markPartial_def)

lemma tracks_snoc_other: "\<not> mentions i e \<Longrightarrow> tracks (es @ [e]) i ch = tracks es i ch"
  by (cases e) (auto simp: tracks_def mentions_def)

lemma clear_snoc:
  "clear (es @ [Unusable]) = False" "clear (es @ [Seen i]) = clear es"
  "clear es \<Longrightarrow> r \<in> set known_reasons \<Longrightarrow> reasons es i \<subseteq> {normal r} \<Longrightarrow> clear (es @ [Finished i r])"
  by (auto simp: clear_def is_singleton_def)

lemma tracks_finished:
  assumes "tracks es i ch"
  shows "tracks (es @ [Finished i r]) i
    (let ch = ch\<lparr>cc_seen := True\<rparr> in
     if cc_conflict ch then ch
     else if cc_reason ch \<noteq> [] \<and> cc_reason ch \<noteq> normal r then ch\<lparr>cc_reason := [], cc_conflict := True\<rparr>
     else ch\<lparr>cc_reason := normal r\<rparr>)"
proof -
  consider "reasons es i = {}" | x where "reasons es i = {x}" | "reasons es i \<noteq> {}" "\<not> is_singleton (reasons es i)"
    by (auto simp: is_singleton_def)
  then show ?thesis
  proof cases
    case 1
    then show ?thesis using assms by (simp add: tracks_def mentions_def)
  next
    case (2 x)
    then show ?thesis using assms
      by (cases "x = normal r") (auto simp: tracks_def mentions_def is_singleton_def Let_def)
  next
    case 3
    then have "\<not> is_singleton (insert (normal r) (reasons es i))"
      by (auto simp: is_singleton_def subset_singleton_iff)
    then show ?thesis using assms 3 by (simp add: tracks_def mentions_def)
  qed
qed

lemma note_reason_choices:
  "co_choices (note_reason i r c) = (co_choices c)[i :=
     (let ch = co_choices c ! i in
      if cc_conflict ch then ch
      else if cc_reason ch \<noteq> [] \<and> cc_reason ch \<noteq> normal r then ch\<lparr>cc_reason := [], cc_conflict := True\<rparr>
      else ch\<lparr>cc_reason := normal r\<rparr>)]"
  by (simp add: note_reason_def normal_def markPartial_def Let_def)

lemma note_reason_partial:
  "\<not> co_partial (note_reason i r c) \<Longrightarrow> \<not> co_partial c \<and> r \<in> set known_reasons \<and>
     (cc_conflict (co_choices c ! i) \<or> cc_reason (co_choices c ! i) = [] \<or> cc_reason (co_choices c ! i) = normal r)"
  by (auto simp: note_reason_def normal_def markPartial_def Let_def split: if_splits)

lemma collected_step:
  assumes c: "collected es c" and e: "in_range e"
  shows "collected (es @ [e]) (apply_event e c)"
proof (cases e)
  case Unusable
  then show ?thesis using c
    by (simp add: apply_event_def collected_def markPartial_def tracks_snoc_other mentions_def)
next
  case (Seen i)
  have i: "i < maxObservedCompletionChoices" using e Seen by (simp add: in_range_def mentions_def)
  have "tracks (es @ [Seen i]) i (ch\<lparr>cc_seen := True\<rparr>)" if "tracks es i ch" for ch
    using that by (simp add: tracks_def mentions_def)
  then show ?thesis using c i Seen
    by (auto simp: apply_event_def collected_def clear_snoc nth_list_update tracks_snoc_other mentions_def)
next
  case (Finished i r)
  have i: "i < maxObservedCompletionChoices" using e Finished by (simp add: in_range_def mentions_def)
  let ?s = "c\<lparr>co_choices := (co_choices c)[i := (co_choices c ! i)\<lparr>cc_seen := True\<rparr>]\<rparr>"
  have len: "length (co_choices c) = maxObservedCompletionChoices" using c by (simp add: collected_def)
  have ti: "tracks es i (co_choices c ! i)" using c i by (simp add: collected_def)
  have "tracks (es @ [Finished i r]) k (co_choices (note_reason i r ?s) ! k)" if "k < maxObservedCompletionChoices" for k
    using that c i len tracks_finished [OF ti, of r]
    by (cases "k = i") (simp_all add: note_reason_choices collected_def tracks_snoc_other mentions_def)
  moreover have "clear (es @ [Finished i r])" if "\<not> co_partial (note_reason i r ?s)"
  proof (rule clear_snoc(3))
    note p = note_reason_partial [OF that]
    show cl: "clear es" using p c by (simp add: collected_def)
    show "r \<in> set known_reasons" using p by simp
    have "\<not> cc_conflict (co_choices c ! i)" using cl ti by (auto simp: clear_def tracks_def split: if_splits)
    then have "cc_reason (co_choices c ! i) = [] \<or> cc_reason (co_choices c ! i) = normal r" using p i len by simp
    then show "reasons es i \<subseteq> {normal r}"
      using ti cl by (auto simp: tracks_def clear_def split: if_splits)
  qed
  ultimately show ?thesis using len Finished by (simp add: apply_event_def collected_def note_reason_choices)
qed

lemma collected_fold:
  "collected es c \<Longrightarrow> list_all in_range fs \<Longrightarrow> collected (es @ fs) (fold apply_event fs c)"
proof (induction fs arbitrary: es c)
  case (Cons f fs)
  then show ?case using Cons.IH [OF collected_step [OF Cons.prems(1)], of f] by simp
qed simp

lemma choice_index_range: "choice_index r = Some i \<Longrightarrow> i < maxObservedCompletionChoices"
  by (auto simp: choice_index_def split: option.splits json.splits if_splits)

lemma in_range_simps [simp]:
  "in_range Unusable" "in_range (Seen i) = (i < maxObservedCompletionChoices)"
  "in_range (Finished i r) = (i < maxObservedCompletionChoices)"
  by (simp_all add: in_range_def mentions_def)

lemma body_events_range: "list_all in_range (body_events d)"
proof -
  have "in_range (choice_event j)" for j
    by (auto simp: choice_event_def dest: choice_index_range split: option.splits json.splits)
  then have "list_all in_range (choice_events j)" for j by (simp add: choice_events_def)
  then have "list_all in_range (concat (map choice_events cs))" for cs by (induction cs) simp_all
  then show ?thesis
    by (simp add: body_events_def split: document.splits json.splits option.splits)
qed

definition feed :: "'c collector_ops \<Rightarrow> item \<Rightarrow> 'c \<Rightarrow> 'c" where
  "feed ops it = (case it of Body text \<Rightarrow> on_json ops text | Done \<Rightarrow> on_done ops | Gap \<Rightarrow> on_partial ops)"

definition item_events :: "(string \<Rightarrow> document) \<Rightarrow> item \<Rightarrow> choice_event list" where
  "item_events parse it = (case it of Body text \<Rightarrow> body_events (parse text) | _ \<Rightarrow> [])"

definition events_of :: "(string \<Rightarrow> document) \<Rightarrow> item list \<Rightarrow> choice_event list" where
  "events_of parse items = concat (map (item_events parse) items)"

text \<open>The end of the stream was seen once, at the end, and nothing was lost.\<close>

definition whole_stream :: "item list \<Rightarrow> bool" where
  "whole_stream items \<longleftrightarrow> items \<noteq> [] \<and> last items = Done \<and> Done \<notin> set (butlast items) \<and> Gap \<notin> set items"

definition followed :: "(string \<Rightarrow> document) \<Rightarrow> item list \<Rightarrow> completionCollector \<Rightarrow> bool" where
  "followed parse items c \<longleftrightarrow> collected (events_of parse items) c \<and>
     (co_streamDone c \<longleftrightarrow> Done \<in> set items) \<and>
     (\<not> co_partial c \<longrightarrow> Gap \<notin> set items \<and> (Done \<in> set items \<longrightarrow> whole_stream items))"

lemma followed_new: "followed parse [] new_collector"
  by (simp add: followed_def new_collector_def collected_def events_of_def tracks_def clear_def)

lemma apply_event_kept:
  "co_streamDone (apply_event e c) = co_streamDone c" "co_partial c \<Longrightarrow> co_partial (apply_event e c)"
  by (cases e; simp add: apply_event_def note_reason_def markPartial_def Let_def)+

lemma fold_apply_kept:
  "co_streamDone (fold apply_event es c) = co_streamDone c" "co_partial c \<Longrightarrow> co_partial (fold apply_event es c)"
  by (induction es arbitrary: c) (simp_all add: apply_event_kept)

lemma followed_body:
  assumes f: "followed parse items (rs_completion st)"
  shows "followed parse (items @ [Body text]) (rs_completion (observeJSON re stream (parse text) st))"
proof -
  let ?c = "rs_completion st" and ?d = "rs_completion (observeJSON re stream (parse text) st)"
  let ?g = "(if co_streamDone ?c then markPartial else id) ?c"
  have g: "collected (events_of parse items) ?g" "co_streamDone ?g = co_streamDone ?c"
      "co_partial ?g \<longleftrightarrow> co_partial ?c \<or> co_streamDone ?c"
    using f collected_partial [of "events_of parse items" ?c] by (auto simp: followed_def markPartial_def)
  have ev: "events_of parse (items @ [Body text]) = events_of parse items @ body_events (parse text)"
    by (simp add: events_of_def item_events_def)
  have "collected (events_of parse items @ body_events (parse text)) ?d \<and> co_streamDone ?d = co_streamDone ?c \<and>
      (co_partial ?c \<or> co_streamDone ?c \<longrightarrow> co_partial ?d)"
    using observeJSON_completion [of re stream "parse text" st]
  proof
    assume d: "?d = fold apply_event (body_events (parse text)) ?g"
    show ?thesis
      unfolding d using collected_fold [OF g(1) body_events_range] g fold_apply_kept [where es = "body_events (parse text)" and c = ?g]
      by auto
  next
    assume d: "body_events (parse text) = [Unusable] \<and> ?d = markPartial ?c"
    then have "collected (events_of parse items @ [Unusable]) ?d"
      using collected_step [of "events_of parse items" ?c Unusable] f by (simp add: followed_def apply_event_def)
    then show ?thesis using d by (simp add: markPartial_def)
  qed
  then show ?thesis using f unfolding followed_def ev by (auto simp: whole_stream_def)
qed

lemma followed_feed:
  assumes f: "followed parse items (rs_completion st)"
  shows "followed parse (items @ [it]) (rs_completion (feed (response_ops re parse stream) it st))"
proof (cases it)
  case (Body t)
  then show ?thesis using followed_body [OF f] by (simp add: feed_def response_ops_def)
next
  case Done
  have ev: "events_of parse (items @ [Done]) = events_of parse items" by (simp add: events_of_def item_events_def)
  show ?thesis using f unfolding Done followed_def ev
    by (auto simp: feed_def response_ops_def followed_def markStreamDone_def markPartial_def collected_def whole_stream_def)
next
  case Gap
  have ev: "events_of parse (items @ [Gap]) = events_of parse items" by (simp add: events_of_def item_events_def)
  show ?thesis using f unfolding Gap followed_def ev
    by (auto simp: feed_def response_ops_def followed_def markPartial_def collected_def)
qed

lemma followed_all:
  "followed parse items (rs_completion (fold (feed (response_ops re parse stream)) items new_response))"
  by (induction items rule: rev_induct) (simp_all add: followed_feed new_response_def followed_new)

lemma in_metadata:
  "\<lparr>cf_Index = int i, cf_FinishReason = r\<rparr> \<in> set (cm_FinishReasons (metadata stream c)) \<longleftrightarrow>
     i < length (co_choices c) \<and> cc_reason (co_choices c ! i) = r \<and> r \<noteq> []"
  by (auto simp: metadata_def Let_def in_set_enumerate_eq)

definition observed_items :: "request_env \<Rightarrow> (string \<Rightarrow> document) \<Rightarrow> bool \<Rightarrow> item list \<Rightarrow> response_state" where
  "observed_items re parse stream items = fold (feed (response_ops re parse stream)) items new_response"


section \<open>Token counts\<close>

definition orelse :: "'v option \<Rightarrow> 'v option \<Rightarrow> 'v option" where
  "orelse a b = (case a of Some v \<Rightarrow> Some v | None \<Rightarrow> b)"

lemma orelse_simps [simp]: "orelse (Some v) b = Some v" "orelse None b = b" "orelse b None = b"
  by (simp_all add: orelse_def split: option.splits)

lemma orelse_assoc: "orelse a (orelse b c) = orelse (orelse a b) c"
  by (cases a) simp_all

lemma noted_puts:
  "noted x put_input st = st\<lparr>rs_tokens := (rs_tokens st)\<lparr>tu_Input := orelse x (tu_Input (rs_tokens st))\<rparr>\<rparr>"
  "noted x put_output st = st\<lparr>rs_tokens := (rs_tokens st)\<lparr>tu_Output := orelse x (tu_Output (rs_tokens st))\<rparr>\<rparr>"
  "noted x put_reasoning st = st\<lparr>rs_tokens := (rs_tokens st)\<lparr>tu_Reasoning := orelse x (tu_Reasoning (rs_tokens st))\<rparr>\<rparr>"
  "noted x put_cached st = st\<lparr>rs_tokens := (rs_tokens st)\<lparr>tu_Cached := orelse x (tu_Cached (rs_tokens st))\<rparr>,
     rs_cacheFromUsage := rs_cacheFromUsage st \<or> x \<noteq> None\<rparr>"
  "noted x put_cache_timing st = st\<lparr>rs_tokens := (rs_tokens st)\<lparr>tu_Cached :=
     (if rs_cacheFromUsage st then tu_Cached (rs_tokens st) else orelse x (tu_Cached (rs_tokens st)))\<rparr>\<rparr>"
  by (cases x; simp add: noted_def put_input_def put_output_def put_reasoning_def put_cached_def put_cache_timing_def)+

lemma noted_timing_other [simp]:
  "rs_tokens (noted x (put_timing upd) st) = rs_tokens st"
  "rs_cacheFromUsage (noted x (put_timing upd) st) = rs_cacheFromUsage st"
  "rs_firstOutputAt (noted x (put_timing upd) st) = rs_firstOutputAt st"
  by (cases x; simp add: noted_def put_timing_def)+

definition usage_cached :: "json table \<Rightarrow> int64 option" where
  "usage_cached usage = orelse (detail usage ''input_tokens_details'' ''cached_tokens'')
     (orelse (detail usage ''prompt_tokens_details'' ''cached_tokens'')
       (firstInteger usage [''cache_read_input_tokens'', ''cached_tokens'']))"

lemma orelse_None: "orelse a b = None \<longleftrightarrow> a = None \<and> b = None"
  by (cases a) simp_all

declare firstInteger.simps [simp del] firstNumber.simps [simp del]

lemma observe_usage_eq:
  "observe_usage usage st = st\<lparr>
     rs_tokens :=
       \<lparr>tu_Input = orelse (firstInteger usage [''prompt_tokens'', ''input_tokens'']) (tu_Input (rs_tokens st)),
        tu_Output = orelse (firstInteger usage [''completion_tokens'', ''output_tokens'']) (tu_Output (rs_tokens st)),
        tu_Cached = orelse (usage_cached usage) (tu_Cached (rs_tokens st)),
        tu_Reasoning = orelse (detail usage ''output_tokens_details'' ''reasoning_tokens'')
          (orelse (detail usage ''completion_tokens_details'' ''reasoning_tokens'')
            (orelse (firstInteger usage [''reasoning_tokens'']) (tu_Reasoning (rs_tokens st))))\<rparr>,
     rs_cacheFromUsage := rs_cacheFromUsage st \<or> usage_cached usage \<noteq> None\<rparr>"
proof -
  define a b c d e f g h where found: "a = firstInteger usage [''prompt_tokens'', ''input_tokens'']"
    "b = firstInteger usage [''completion_tokens'', ''output_tokens'']"
    "c = firstInteger usage [''cache_read_input_tokens'', ''cached_tokens'']"
    "d = firstInteger usage [''reasoning_tokens'']" "e = detail usage ''prompt_tokens_details'' ''cached_tokens''"
    "f = detail usage ''input_tokens_details'' ''cached_tokens''"
    "g = detail usage ''completion_tokens_details'' ''reasoning_tokens''"
    "h = detail usage ''output_tokens_details'' ''reasoning_tokens''"
  show ?thesis
    unfolding observe_usage_def Let_def usage_cached_def found [symmetric] noted_puts
    by (simp add: orelse_assoc orelse_None disj_ac)
qed

lemma observe_usage_effect:
  "rs_timings (observe_usage usage st) = rs_timings st"
  "rs_cacheFromUsage (observe_usage usage st) \<longleftrightarrow> rs_cacheFromUsage st \<or> usage_cached usage \<noteq> None"
  "tu_Cached (rs_tokens (observe_usage usage st)) = orelse (usage_cached usage) (tu_Cached (rs_tokens st))"
  unfolding observe_usage_eq by simp_all

lemma observe_usage_tokens:
  "rs_tokens st' = (rs_tokens st)\<lparr>tu_Cached := x\<rparr> \<Longrightarrow>
   rs_tokens (observe_usage usage st') =
     (rs_tokens (observe_usage usage st))\<lparr>tu_Cached := orelse (usage_cached usage) x\<rparr>"
  unfolding observe_usage_eq by simp

lemma noted_timing_timings [simp]:
  "rs_timings (noted x (put_timing upd) st) = (case x of Some v \<Rightarrow> upd (Some v) (rs_timings st) | None \<Rightarrow> rs_timings st)"
  "rs_timings (noted y put_cache_timing st) = rs_timings st"
  by (cases x; simp add: noted_def put_timing_def) (cases y; simp add: noted_def put_cache_timing_def)

lemma observe_timings_effect:
  "rs_cacheFromUsage (observe_timings re timings st) = rs_cacheFromUsage st"
  "rs_tokens (observe_timings re timings st) = (rs_tokens st)\<lparr>tu_Cached :=
     (if rs_cacheFromUsage st then tu_Cached (rs_tokens st)
      else orelse (firstInteger timings [''cache_n'']) (tu_Cached (rs_tokens st)))\<rparr>"
  by (simp_all add: observe_timings_def Let_def noted_puts(5))

lemma noted_timing_cong:
  "rs_timings st = rs_timings st' \<Longrightarrow>
     rs_timings (noted x (put_timing upd) st) = rs_timings (noted x (put_timing upd) st')"
  "rs_timings st = rs_timings st' \<Longrightarrow> rs_timings (noted y put_cache_timing st) = rs_timings (noted y put_cache_timing st')"
  by (cases x) simp_all

lemma observe_timings_timings:
  "rs_timings st = rs_timings st' \<Longrightarrow> rs_timings (observe_timings re timings st) = rs_timings (observe_timings re timings st')"
  unfolding observe_timings_def Let_def
  by (intro noted_timing_cong) assumption

text \<open>
  The two sources of token counts may come in either order. A usage object and a timings object,
  in either order and after anything else, leave the same counts and timings, so the same final
  counts: the cached tokens of a usage object always win over those of timings.
\<close>

theorem token_sources_commute:
  "rs_tokens (observe_timings re timings (observe_usage usage st)) =
     rs_tokens (observe_usage usage (observe_timings re timings st)) \<and>
   rs_timings (observe_timings re timings (observe_usage usage st)) =
     rs_timings (observe_usage usage (observe_timings re timings st)) \<and>
   final_tokens (observe_timings re timings (observe_usage usage st)) =
     final_tokens (observe_usage usage (observe_timings re timings st))"
proof -
  let ?x = "if rs_cacheFromUsage st then tu_Cached (rs_tokens st)
      else orelse (firstInteger timings [''cache_n'']) (tu_Cached (rs_tokens st))"
  have "rs_tokens (observe_usage usage (observe_timings re timings st)) =
      (rs_tokens (observe_usage usage st))\<lparr>tu_Cached := orelse (usage_cached usage) ?x\<rparr>"
    by (rule observe_usage_tokens) (simp add: observe_timings_effect)
  then have tokens: "rs_tokens (observe_timings re timings (observe_usage usage st)) =
      rs_tokens (observe_usage usage (observe_timings re timings st))"
    by (cases "usage_cached usage") (simp_all add: observe_timings_effect observe_usage_effect)
  have times: "rs_timings (observe_timings re timings (observe_usage usage st)) =
      rs_timings (observe_usage usage (observe_timings re timings st))"
    unfolding observe_usage_effect by (rule observe_timings_timings) (rule observe_usage_effect)
  show ?thesis unfolding final_tokens_def tokens times by simp
qed

section \<open>Witness\<close>

definition demo_chunk :: "string \<Rightarrow> document" where
  "demo_chunk t = Whole (JObj [(''choices'', JArr [JObj [(''index'', JNum ''0''), (''finish_reason'', JStr ''stop'')]])])"

lemma demo_events: "events_of demo_chunk [Body ''x'', Done] = [Finished 0 ''stop'']"
  by (simp add: events_of_def item_events_def demo_chunk_def body_events_def uniqueCompletionKeys_def object_of_def
      choice_events_def choice_event_def bad_reason_def rawObject_def choice_index_def parseInt64_def decimal_def
      is_digit_def code_def hasPrefix_def maxObservedCompletionChoices_def)

lemma demo_reasons: "reasons [Finished 0 ''stop''] 0 = {''stop''}"
  using reasons_snoc(4) [of "[]" 0 "''stop''" 0] by (simp add: normal_def known_reasons_def)

lemma demo_available:
  "cm_Observation (metadata True (rs_completion (observed_items demo_request_env demo_chunk True [Body ''x'', Done])))
     = CompletionAvailable"
  by code_simp


end
