(* ===== verification/Ledger.thy ===== *)
theory Ledger
  imports Usage "HOL-Library.Char_ord" "HOL-Library.List_Lexorder"
begin

text \<open>
  The request ledger of the gateway (\<^verbatim>\<open>requestLedger\<close> of \<^verbatim>\<open>observability.go\<close>, its usage tables of
  \<^verbatim>\<open>usage.go\<close> and the active requests of \<^verbatim>\<open>request_reports.go\<close>): a ring of the last 64 finished
  requests, totals overall and per model, the 64 most recently used sessions and at most 128
  active requests. The lemmas relate the ring and the tables to the list of all finished requests.
\<close>

section \<open>State\<close>

definition RecentRequestLimit :: nat where "RecentRequestLimit = 64"
definition RecentSessionLimit :: nat where "RecentSessionLimit = 64"
definition ActiveRequestLimit :: nat where "ActiveRequestLimit = 128"

record ModelAggregate =
  ma_Model :: string
  ma_Application :: string
  ma_Usage :: RequestAggregate

record SessionAggregate =
  sa_ID :: string
  sa_FirstRequestAt :: string
  sa_LastRequestAt :: string
  sa_Usage :: RequestAggregate

record UsageSummary =
  us_Overall :: RequestAggregate
  us_Models :: "ModelAggregate list"
  us_Sessions :: "SessionAggregate list"

record sessionLedgerEntry =
  se_summary :: SessionAggregate
  se_lastSequence :: uint64

record ActiveRequestReport =
  ar_ID :: string
  ar_Model :: string
  ar_Application :: string
  ar_Stream :: "bool option"
  ar_StartedAt :: string
  ar_Controls :: RequestControls

record activeRequestEntry =
  ae_phase :: string
  ae_report :: ActiveRequestReport

text \<open>An entry of the ring that was never written has sequence 0; its record is then not read.\<close>

type_synonym requestLedgerEntry = "(uint64 \<times> RequestRecord) option"

record requestLedger =
  rl_sequence :: uint64
  rl_entries :: "requestLedgerEntry list"
  rl_active :: "(string \<times> activeRequestEntry) list"
  rl_overall :: RequestAggregate
  rl_models :: "(string \<times> ModelAggregate) list"
  rl_sessions :: "(string \<times> sessionLedgerEntry) list"

definition empty_ledger :: requestLedger where
  "empty_ledger = \<lparr>rl_sequence = 0, rl_entries = replicate RecentRequestLimit None, rl_active = [],
     rl_overall = zero_aggregate, rl_models = [], rl_sessions = []\<rparr>"

section \<open>Operations\<close>

definition addModel :: "RequestRecord \<Rightarrow> (string \<times> ModelAggregate) list \<Rightarrow> (string \<times> ModelAggregate) list" where
  "addModel r models =
     (if rr_Model r = [] then models
      else (let usage = (case lookup models (rr_Model r) of
              None \<Rightarrow> zero_aggregate | Some m \<Rightarrow> ma_Usage m) in
        upsert (rr_Model r) \<lparr>ma_Model = rr_Model r, ma_Application = rr_Application r,
          ma_Usage = addAggregate usage r\<rparr> models))"

text \<open>The loop that looks for the session with the smallest sequence, starting from the maximum.\<close>

fun oldestSession :: "string \<times> uint64 \<Rightarrow> (string \<times> sessionLedgerEntry) list \<Rightarrow> string \<times> uint64" where
  "oldestSession best [] = best"
| "oldestSession best ((i, c) # cs) =
     oldestSession (if se_lastSequence c < snd best then (i, se_lastSequence c) else best) cs"

definition session_entry :: "uint64 \<Rightarrow> RequestRecord \<Rightarrow> sessionLedgerEntry option \<Rightarrow> sessionLedgerEntry" where
  "session_entry sq r found =
     \<lparr>se_summary = (case found of
          None \<Rightarrow> \<lparr>sa_ID = rr_SessionID r, sa_FirstRequestAt = rr_StartedAt r,
                    sa_LastRequestAt = rr_FinishedAt r, sa_Usage = addAggregate zero_aggregate r\<rparr>
        | Some s \<Rightarrow> (se_summary s)\<lparr>sa_LastRequestAt := rr_FinishedAt r,
                    sa_Usage := addAggregate (sa_Usage (se_summary s)) r\<rparr>),
      se_lastSequence = sq\<rparr>"

definition addSession ::
  "uint64 \<Rightarrow> RequestRecord \<Rightarrow> (string \<times> sessionLedgerEntry) list \<Rightarrow> (string \<times> sessionLedgerEntry) list" where
  "addSession sq r sessions =
     (if rr_SessionID r = [] then sessions
      else (let found = lookup sessions (rr_SessionID r);
                sessions = (if found = None \<and> length sessions = RecentSessionLimit
                  then remove_key (fst (oldestSession ([], MaxUint64) sessions)) sessions
                  else sessions) in
        upsert (rr_SessionID r) (session_entry sq r found) sessions))"

definition addUsage :: "RequestRecord \<Rightarrow> requestLedger \<Rightarrow> requestLedger" where
  "addUsage r l = l\<lparr>rl_overall := addAggregate (rl_overall l) r,
     rl_models := addModel r (rl_models l),
     rl_sessions := addSession (rl_sequence l) r (rl_sessions l)\<rparr>"

definition Add :: "requestLedger \<Rightarrow> RequestRecord \<Rightarrow> requestLedger" where
  "Add l r =
     (let sq = rl_sequence l + 1; index = unat ((sq - 1) mod 64) in
      addUsage r (l\<lparr>rl_sequence := sq,
        rl_entries := (rl_entries l)[index := Some (sq, r)],
        rl_active := remove_key (rr_ID r) (rl_active l)\<rparr>))"

definition recent_at :: "requestLedger \<Rightarrow> uint64 \<Rightarrow> RequestRecord list" where
  "recent_at l sq = (case rl_entries l ! unat ((sq - 1) mod 64) of
     Some (s, r) \<Rightarrow> if s = sq then [r] else []
   | None \<Rightarrow> [])"

definition recentLocked :: "requestLedger \<Rightarrow> int \<Rightarrow> RequestRecord list" where
  "recentLocked l limit =
     (if limit \<le> 0 then []
      else (let limit = min limit (int RecentRequestLimit);
                available = min (sint (rl_sequence l)) (int RecentRequestLimit);
                limit = min limit available in
        concat (map (\<lambda>offset. recent_at l (rl_sequence l - of_nat offset)) [0..<nat limit])))"

definition Recent :: "requestLedger \<Rightarrow> int \<Rightarrow> RequestRecord list" where
  "Recent l limit =
     (if limit \<le> 0 then [] else recentLocked l (min limit (int RecentRequestLimit)))"

definition Track :: "RequestRecord \<Rightarrow> string \<Rightarrow> requestLedger \<Rightarrow> requestLedger" where
  "Track r phase l =
     (if lookup (rl_active l) (rr_ID r) = None \<and> length (rl_active l) \<ge> ActiveRequestLimit then l
      else (let report = \<lparr>ar_ID = rr_ID r, ar_Model = rr_Model r, ar_Application = rr_Application r,
              ar_Stream = (if phase \<noteq> ''receiving'' then Some (rr_Stream r) else None),
              ar_StartedAt = rr_StartedAt r, ar_Controls = rr_Controls r\<rparr> in
        l\<lparr>rl_active := upsert (rr_ID r) \<lparr>ae_phase = phase, ae_report = report\<rparr> (rl_active l)\<rparr>))"

definition Untrack :: "string \<Rightarrow> requestLedger \<Rightarrow> requestLedger" where
  "Untrack i l = l\<lparr>rl_active := remove_key i (rl_active l)\<rparr>"

datatype report = Completed RequestRecord | Active string ActiveRequestReport | NotRetained

definition Lookup :: "requestLedger \<Rightarrow> string \<Rightarrow> report" where
  "Lookup l i =
     (case find (\<lambda>e. case e of None \<Rightarrow> False | Some (s, r) \<Rightarrow> s \<noteq> 0 \<and> rr_ID r = i) (rl_entries l) of
        Some (Some (_, r)) \<Rightarrow> Completed r
      | _ \<Rightarrow> (case lookup (rl_active l) i of
          Some e \<Rightarrow> Active (ae_phase e) (ae_report e)
        | None \<Rightarrow> NotRetained))"

fun snapshot_sessions ::
  "(string \<times> sessionLedgerEntry) list \<Rightarrow> string list \<Rightarrow> RequestRecord list \<Rightarrow> SessionAggregate list" where
  "snapshot_sessions sessions seen [] = []"
| "snapshot_sessions sessions seen (r # rs) =
     (if rr_SessionID r = [] \<or> rr_SessionID r \<in> set seen then snapshot_sessions sessions seen rs
      else (case lookup sessions (rr_SessionID r) of
          None \<Rightarrow> []
        | Some s \<Rightarrow> [(se_summary s)\<lparr>sa_Usage := finalizedAggregate (sa_Usage (se_summary s))\<rparr>])
        @ snapshot_sessions sessions (rr_SessionID r # seen) rs)"

definition Snapshot :: "requestLedger \<Rightarrow> int \<Rightarrow> RequestRecord list \<times> UsageSummary" where
  "Snapshot l recentLimit =
     (let recent = recentLocked l recentLimit;
          models = map (\<lambda>(_, m). m\<lparr>ma_Usage := finalizedAggregate (ma_Usage m)\<rparr>) (rl_models l) in
      (recent, \<lparr>us_Overall = finalizedAggregate (rl_overall l),
        us_Models = sort_key ma_Model models,
        us_Sessions = snapshot_sessions (rl_sessions l) [] recent\<rparr>))"

definition hex_char :: "char \<Rightarrow> bool" where
  "hex_char c = (let n = (of_char c :: nat) in 48 \<le> n \<and> n \<le> 57 \<or> 97 \<le> n \<and> n \<le> 102)"

definition validRequestReportID :: "string \<Rightarrow> bool" where
  "validRequestReportID i \<longleftrightarrow>
     length i = 50 \<and> i ! 0 = CHR ''r'' \<and> i ! 33 = CHR ''-'' \<and>
     (\<forall>k\<in>set [1..<50]. k \<noteq> 33 \<longrightarrow> hex_char (i ! k)) \<and>
     (\<exists>k\<in>set [34..<50]. i ! k \<noteq> CHR ''0'')"

section \<open>The ring is the end of the history\<close>

text \<open>A finished request, for the witnesses.\<close>

definition sample_record :: "string \<Rightarrow> string \<Rightarrow> RequestRecord" where
  "sample_record i session =
     \<lparr>rr_ID = i, rr_SessionID = session, rr_Model = ''m'', rr_Application = ''llama-cpp'', rr_Peer = [],
      rr_UserAgent = [], rr_Stream = True, rr_Outcome = OutcomeSucceeded, rr_HTTPStatus = 200,
      rr_StartedAt = ''t0'', rr_FinishedAt = ''t1'',
      rr_Timing = \<lparr>rt_GatewayWait = 1, rt_Upstream = 2, rt_Total = 3, rt_FirstOutput = Some 1\<rparr>,
      rr_Tokens = \<lparr>tu_Input = Some 7, tu_Output = Some 5, tu_Cached = Some 2, tu_Reasoning = None\<rparr>,
      rr_BackendTimings = \<lparr>bt_PromptTokens = None, bt_PromptMilliseconds = None,
        bt_GeneratedTokens = None, bt_GeneratedMilliseconds = None, bt_DraftTokens = None,
        bt_DraftAcceptedTokens = None, bt_DraftVerificationSteps = None\<rparr>,
      rr_Controls = \<lparr>rc_SamplingPolicy = [], rc_SamplingMode = [], rc_Reasoning = [], rc_Sampling = [],
        rc_Diagnostics = []\<rparr>,
      rr_Completion = \<lparr>cm_Observation = CompletionAvailable, cm_FinishReasons = [],
        cm_StreamDone = Some True\<rparr>\<rparr>"

abbreviation ledger_of :: "RequestRecord list \<Rightarrow> requestLedger" where
  "ledger_of rs \<equiv> foldl Add empty_ledger rs"

lemma Add_simps [simp]:
  "rl_sequence (Add l r) = rl_sequence l + 1"
  "rl_entries (Add l r) = (rl_entries l)[unat (rl_sequence l mod 64) := Some (rl_sequence l + 1, r)]"
  "rl_active (Add l r) = remove_key (rr_ID r) (rl_active l)"
  "rl_overall (Add l r) = addAggregate (rl_overall l) r"
  "rl_models (Add l r) = addModel r (rl_models l)"
  "rl_sessions (Add l r) = addSession (rl_sequence l + 1) r (rl_sessions l)"
  by (simp_all add: Add_def addUsage_def Let_def)

lemma unat_of_nat64: "n < 18446744073709551616 \<Longrightarrow> unat (of_nat n :: uint64) = n"
  by (simp add: unat_of_nat take_bit_nat_eq_self)

lemma unat_mod_64: "unat (x mod 64 :: uint64) = unat x mod 64"
  by (simp add: unat_mod)

text \<open>
  The ring after a history of fewer than \<^verbatim>\<open>2^63\<close> requests: slot \<open>i\<close> holds the last request whose
  number is congruent to \<open>i + 1\<close>.
\<close>

definition ring_ok :: "RequestRecord list \<Rightarrow> requestLedger \<Rightarrow> bool" where
  "ring_ok rs l \<longleftrightarrow> rl_sequence l = of_nat (length rs) \<and> length (rl_entries l) = 64 \<and>
     (\<forall>k < length rs. length rs \<le> k + 64 \<longrightarrow>
        rl_entries l ! (k mod 64) = Some (of_nat (Suc k), rs ! k)) \<and>
     (\<forall>i < 64. length rs \<le> i \<longrightarrow> rl_entries l ! i = None)"

lemma ring_ok_empty: "ring_ok [] empty_ledger"
  by (simp add: ring_ok_def empty_ledger_def RecentRequestLimit_def)

lemma mod_64_apart: "k < n \<Longrightarrow> n < k + 64 \<Longrightarrow> k mod 64 \<noteq> n mod (64 :: nat)"
  using mod_eq_dvd_iff_nat [of k n 64] nat_dvd_not_less [of "n - k" 64] by auto

lemma ring_ok_Add:
  assumes ok: "ring_ok rs l" and small: "length rs < 9223372036854775808"
  shows "ring_ok (rs @ [r]) (Add l r)"
proof -
  let ?n = "length rs"
  have idx: "unat (rl_sequence l mod 64) = ?n mod 64"
    using ok small by (simp add: ring_ok_def unat_mod_64 unat_of_nat64)
  have sq: "rl_sequence l + 1 = of_nat (Suc ?n)" and len: "length (rl_entries l) = 64"
    using ok by (simp_all add: ring_ok_def)
  have upd: "rl_entries (Add l r) = (rl_entries l)[?n mod 64 := Some (of_nat (Suc ?n), r)]"
    by (simp only: Add_simps idx sq)
  have slot: "rl_entries (Add l r) ! (k mod 64) = Some (of_nat (Suc k), (rs @ [r]) ! k)"
    if k: "k < Suc ?n" "Suc ?n \<le> k + 64" for k
  proof (cases "k = ?n")
    case True
    then show ?thesis using len by (simp add: upd del: Add_simps)
  next
    case False
    with k have "k < ?n" "k mod 64 \<noteq> ?n mod 64" using mod_64_apart [of k ?n] by auto
    with k ok show ?thesis by (simp add: upd ring_ok_def nth_append del: Add_simps)
  qed
  have "rl_entries (Add l r) ! i = None" if "i < 64" "Suc ?n \<le> i" for i
    using that ok by (simp add: upd ring_ok_def nth_list_update del: Add_simps)
  with slot ok show ?thesis by (simp add: ring_ok_def)
qed

lemma ring_ok_ledger:
  "length rs \<le> 9223372036854775807 \<Longrightarrow> ring_ok rs (ledger_of rs)"
proof (induction rs rule: rev_induct)
  case (snoc r rs)
  then show ?case by (simp add: ring_ok_Add)
qed (simp add: ring_ok_empty)


lemma recent_at_ledger:
  assumes ok: "ring_ok rs l" and small: "length rs \<le> 9223372036854775807"
    and k: "k < length rs" "k < 64"
  shows "recent_at l (rl_sequence l - of_nat k) = [rs ! (length rs - Suc k)]"
proof -
  let ?m = "length rs - Suc k"
  have sq: "rl_sequence l - of_nat k = of_nat (Suc ?m)"
    using ok k(1) by (simp add: ring_ok_def of_nat_diff)
  have "unat ((of_nat (Suc ?m) - 1) mod 64 :: uint64) = ?m mod 64"
    using small by (simp only: of_nat_Suc add_diff_cancel_left' unat_mod_64) (simp add: unat_of_nat64)
  moreover have "rl_entries l ! (?m mod 64) = Some (of_nat (Suc ?m), rs ! ?m)"
    using ok k by (simp add: ring_ok_def)
  ultimately show ?thesis unfolding recent_at_def sq by simp
qed

lemma recent_prefix:
  assumes "n \<le> length rs" "\<And>k. k < n \<Longrightarrow> f k = [rs ! (length rs - Suc k)]"
  shows "concat (map f [0..<n]) = take n (rev rs)"
  using assms
proof (induction n)
  case (Suc n)
  then show ?case by (simp add: take_Suc_conv_app_nth rev_nth)
qed simp

lemma recentLocked_ledger:
  assumes small: "length rs \<le> 9223372036854775807"
  shows "recentLocked (ledger_of rs) limit = take (nat (min limit 64)) (rev rs)"
proof (cases "limit \<le> 0")
  case False
  let ?l = "ledger_of rs"
  let ?n = "min (nat (min limit 64)) (length rs)"
  have ok: "ring_ok rs ?l" using small by (rule ring_ok_ledger)
  have "sint (rl_sequence ?l) = int (length rs)"
    using ok small by (simp add: ring_ok_def signed_of_nat signed_take_bit_int_eq_self)
  then have "recentLocked ?l limit = concat (map (\<lambda>k. recent_at ?l (rl_sequence ?l - of_nat k)) [0..<?n])"
    using False by (simp add: recentLocked_def RecentRequestLimit_def Let_def min_def nat_le_iff)
  also have "\<dots> = take ?n (rev rs)"
    by (rule recent_prefix) (auto intro!: recent_at_ledger [OF ok small])
  finally show ?thesis by (simp add: min_def)
qed (simp add: recentLocked_def)

text \<open>
  C8: the ring buffer is the end of the history. After any number of finished requests below
  \<open>2^63\<close>, asking for the recent requests gives exactly the last ones, newest first, at most as
  many as were asked for and at most 64.
\<close>

theorem recent_is_history_tail:
  assumes "length rs \<le> 9223372036854775807"
  shows "recentLocked (ledger_of rs) limit = take (nat (min limit 64)) (rev rs) \<and>
         Recent (ledger_of rs) limit = take (nat (min limit 64)) (rev rs)"
  using assms by (simp add: Recent_def RecentRequestLimit_def recentLocked_ledger)

theorem recent_is_history_tail_witness:
  "recentLocked (ledger_of [sample_record ''a'' ''s'', sample_record ''b'' ''s'']) 1 =
     [sample_record ''b'' ''s'']"
  using recent_is_history_tail [of "[sample_record ''a'' ''s'', sample_record ''b'' ''s'']" 1] by simp

section \<open>Finding a finished request\<close>

lemma set_take_rev: "set (take m (rev xs)) = {xs ! k |k. k < length xs \<and> length xs \<le> k + m}"
proof -
  have "take m (rev xs) = rev (drop (length xs - m) xs)" by (simp add: take_rev)
  moreover have "set (drop d xs) = {xs ! k |k. k < length xs \<and> d \<le> k}" for d
  proof (intro equalityI subsetI)
    fix x assume "x \<in> set (drop d xs)"
    then obtain j where "j < length xs - d" "x = xs ! (d + j)" by (auto simp: in_set_conv_nth)
    then show "x \<in> {xs ! k |k. k < length xs \<and> d \<le> k}" by (intro CollectI exI [of _ "d + j"]) simp
  next
    fix x assume "x \<in> {xs ! k |k. k < length xs \<and> d \<le> k}"
    then obtain k where "k < length xs" "d \<le> k" "x = xs ! k" by blast
    then show "x \<in> set (drop d xs)" by (auto simp: in_set_conv_nth intro!: exI [of _ "k - d"])
  qed
  ultimately show ?thesis by (auto simp: le_diff_conv)
qed

lemma ring_members:
  assumes ok: "ring_ok rs l" and small: "length rs \<le> 9223372036854775807"
  shows "{r. \<exists>s. Some (s, r) \<in> set (rl_entries l)} = set (take 64 (rev rs))"
    and "Some (s, r) \<in> set (rl_entries l) \<Longrightarrow> s \<noteq> 0"
proof -
  let ?n = "length rs"
  have len: "length (rl_entries l) = 64" using ok by (simp add: ring_ok_def)
  have slot: "\<exists>k. k < ?n \<and> ?n \<le> k + 64 \<and> r = rs ! k \<and> s = of_nat (Suc k)"
    if mem: "Some (s, r) \<in> set (rl_entries l)" for s r
  proof -
    obtain i where i: "i < 64" "rl_entries l ! i = Some (s, r)"
      using mem len by (auto simp: in_set_conv_nth)
    then have "i < ?n" using ok by (force simp: ring_ok_def)
    define x where "x = ?n - 1 - i"
    define k where "k = i + x div 64 * 64"
    have "x = x div 64 * 64 + x mod 64" "x mod 64 < 64" by simp_all
    then have k: "k < ?n" "?n \<le> k + 64" using \<open>i < ?n\<close> unfolding k_def x_def by linarith+
    have "k mod 64 = i" using i(1) by (simp add: k_def)
    then have "Some (s, r) = Some (of_nat (Suc k), rs ! k)"
      using ok k i(2) by (auto simp: ring_ok_def)
    with k show ?thesis by auto
  qed
  have held: "\<exists>s. Some (s, rs ! k) \<in> set (rl_entries l)" if "k < ?n" "?n \<le> k + 64" for k
  proof -
    have "rl_entries l ! (k mod 64) = Some (of_nat (Suc k), rs ! k)" using ok that by (simp add: ring_ok_def)
    then show ?thesis using len nth_mem [of "k mod 64" "rl_entries l"] by auto
  qed
  show "{r. \<exists>s. Some (s, r) \<in> set (rl_entries l)} = set (take 64 (rev rs))"
    unfolding set_take_rev using slot held by blast
  show "Some (s, r) \<in> set (rl_entries l) \<Longrightarrow> s \<noteq> 0"
  proof
    assume "Some (s, r) \<in> set (rl_entries l)" "s = 0"
    then obtain k where "k < ?n" "(of_nat (Suc k) :: uint64) = 0" using slot by metis
    moreover from this have "unat (of_nat (Suc k) :: uint64) = Suc k"
      using small by (intro unat_of_nat64) simp
    ultimately show False by simp
  qed
qed

lemma Lookup_completed:
  assumes ok: "ring_ok rs l" "length rs \<le> 9223372036854775807"
    and ids: "inj_on rr_ID (set (take 64 (rev rs)))" and r: "r \<in> set (take 64 (rev rs))"
  shows "Lookup l (rr_ID r) = Completed r"
proof -
  let ?p = "\<lambda>e. case e of None \<Rightarrow> False | Some (s, q) \<Rightarrow> s \<noteq> 0 \<and> rr_ID q = rr_ID r"
  note mem = ring_members [OF ok]
  obtain s where s: "Some (s, r) \<in> set (rl_entries l)" using r mem(1) by blast
  then have "find ?p (rl_entries l) \<noteq> None" using mem(2) by (auto simp: find_None_iff)
  then obtain e where e: "find ?p (rl_entries l) = Some e" by blast
  then have "e \<in> set (rl_entries l)" "?p e" by (auto simp: find_Some_iff)
  then obtain s' q where q: "e = Some (s', q)" "rr_ID q = rr_ID r" "Some (s', q) \<in> set (rl_entries l)"
    by (auto split: option.splits)
  then have "q \<in> set (take 64 (rev rs))" using mem(1) by blast
  with q r ids have "q = r" by (auto dest: inj_onD)
  with e q show ?thesis by (simp add: Lookup_def)
qed

lemma Lookup_unfinished:
  assumes ok: "ring_ok rs l" "length rs \<le> 9223372036854775807"
    and i: "i \<notin> rr_ID ` set (take 64 (rev rs))"
  shows "Lookup l i = (case lookup (rl_active l) i of
           Some e \<Rightarrow> Active (ae_phase e) (ae_report e) | None \<Rightarrow> NotRetained)"
proof -
  have "find (\<lambda>e. case e of None \<Rightarrow> False | Some (s, r) \<Rightarrow> s \<noteq> 0 \<and> rr_ID r = i) (rl_entries l) = None"
    using ring_members [OF ok] i by (fastforce simp: find_None_iff split: option.splits)
  then show ?thesis by (simp add: Lookup_def)
qed

text \<open>
  request reports. As long as the identifiers of the last 64 finished requests are distinct, a
  report for one of them is its own completed record; a request that fell out of the ring (or
  never finished) is reported only from the table of active requests.
\<close>

theorem report_lookup:
  assumes "length rs \<le> 9223372036854775807" "inj_on rr_ID (set (take 64 (rev rs)))"
  shows "(\<forall>r\<in>set (take 64 (rev rs)). Lookup (ledger_of rs) (rr_ID r) = Completed r) \<and>
    (\<forall>i. i \<notin> rr_ID ` set (take 64 (rev rs)) \<longrightarrow>
       Lookup (Track q phase (ledger_of rs)) i =
         (if i = rr_ID q then Active phase (ae_report (the (lookup (rl_active (Track q phase (ledger_of rs))) i)))
          else NotRetained))"
proof -
  note ok = ring_ok_ledger [OF assms(1)]
  have act: "rl_active (ledger_of rs) = []"
    by (induction rs rule: rev_induct) (simp_all add: empty_ledger_def remove_key_def)
  have ok': "ring_ok rs (Track q phase (ledger_of rs))"
    using ok by (simp add: ring_ok_def Track_def Let_def)
  have "Lookup (Track q phase (ledger_of rs)) i =
         (if i = rr_ID q then Active phase (ae_report (the (lookup (rl_active (Track q phase (ledger_of rs))) i)))
          else NotRetained)" if "i \<notin> rr_ID ` set (take 64 (rev rs))" for i
    unfolding Lookup_unfinished [OF ok' assms(1) that]
    by (simp add: Track_def act ActiveRequestLimit_def Let_def)
  with Lookup_completed [OF ok assms] show ?thesis by blast
qed

theorem report_lookup_witness:
  "Lookup (ledger_of [sample_record ''a'' ''s'', sample_record ''b'' ''s'']) ''a'' =
     Completed (sample_record ''a'' ''s'')"
  using report_lookup [of "[sample_record ''a'' ''s'', sample_record ''b'' ''s'']"]
  by (simp add: sample_record_def)

section \<open>Totals\<close>

lemma overall_ledger: "rl_overall (foldl Add l rs) = foldl addAggregate (rl_overall l) rs"
  by (induction rs arbitrary: l) simp_all

text \<open>
  the totals are exact. After any history, the request and success counts and the token and
  duration totals of the ledger are the sums over all finished requests (of the non-negative
  observed values), capped at the largest 64-bit number instead of wrapping, and cached and
  accepted tokens never exceed the tokens they are a part of.
\<close>

theorem overall_totals:
  "let u = rl_overall (ledger_of rs) in
     unat (ra_Requests u) = cap (length rs) \<and>
     unat (ao_Succeeded (ra_Outcomes u)) = cap (length (filter (\<lambda>r. rr_Outcome r = OutcomeSucceeded) rs)) \<and>
     unat (am_Total (at_Input (ra_Tokens u))) = cap (\<Sum>r\<leftarrow>rs. unat (amount (tu_Input (rr_Tokens r)))) \<and>
     unat (am_Observations (at_Input (ra_Tokens u))) =
       cap (length (filter (\<lambda>r. observed (tu_Input (rr_Tokens r))) rs)) \<and>
     unat (am_Total (at_Output (ra_Tokens u))) = cap (\<Sum>r\<leftarrow>rs. unat (amount (tu_Output (rr_Tokens r)))) \<and>
     unat (am_Total (ag_Total (ra_Timing u))) = cap (\<Sum>r\<leftarrow>rs. unat (amount (Some (rt_Total (rr_Timing r))))) \<and>
     ac_CachedTokens (ra_CacheReuse u) \<le> ac_InputTokens (ra_CacheReuse u) \<and>
     ad_AcceptedTokens (ab_SpeculativeDraft (ra_BackendTimings u))
       \<le> ad_DraftTokens (ab_SpeculativeDraft (ra_BackendTimings u))"
  using aggregate_counters [of zero_aggregate rs] aggregate_parts_below [of rs]
  by (simp add: Let_def overall_ledger empty_ledger_def zero_aggregate_def zero_metric_def)

lemma lookup_addModel:
  "lookup (addModel r ms) m = (if m = rr_Model r \<and> m \<noteq> []
     then Some \<lparr>ma_Model = m, ma_Application = rr_Application r,
       ma_Usage = addAggregate (case lookup ms m of None \<Rightarrow> zero_aggregate | Some a \<Rightarrow> ma_Usage a) r\<rparr>
     else lookup ms m)"
  by (auto simp: addModel_def Let_def)

text \<open>
  the totals per model are those of the requests for that model alone, and the application
  shown is that of the latest one; a model without a finished request has no entry.
\<close>

theorem model_totals:
  "lookup (rl_models (ledger_of rs)) m =
     (if m = [] \<or> filter (\<lambda>r. rr_Model r = m) rs = [] then None
      else Some \<lparr>ma_Model = m,
                 ma_Application = rr_Application (last (filter (\<lambda>r. rr_Model r = m) rs)),
                 ma_Usage = foldl addAggregate zero_aggregate (filter (\<lambda>r. rr_Model r = m) rs)\<rparr>)"
proof (induction rs rule: rev_induct)
  case (snoc r rs)
  then show ?case
    by (cases "filter (\<lambda>q. rr_Model q = m) rs = []") (auto simp: lookup_addModel)
qed (simp add: empty_ledger_def)

section \<open>Sessions are kept by recency\<close>

text \<open>The reference: a list of session identifiers, most recent first, cut to 64.\<close>

definition lru_touch :: "string list \<Rightarrow> string \<Rightarrow> string list" where
  "lru_touch xs i = (if i = [] then xs else take 64 (i # removeAll i xs))"

definition last_use :: "(string \<times> sessionLedgerEntry) list \<Rightarrow> string \<Rightarrow> nat" where
  "last_use ss i = unat (se_lastSequence (the (lookup ss i)))"

definition lru_inv :: "string list \<Rightarrow> nat \<Rightarrow> (string \<times> sessionLedgerEntry) list \<Rightarrow> bool" where
  "lru_inv xs n ss \<longleftrightarrow> wf_map ss \<and> distinct xs \<and> set xs = fst ` set ss \<and> length xs \<le> 64 \<and>
     sorted_wrt (\<lambda>i j. last_use ss j < last_use ss i) xs \<and>
     (\<forall>i\<in>set xs. last_use ss i \<le> n) \<and> [] \<notin> set xs"

lemma oldestSession_min:
  "oldestSession best ss = (i, s) \<Longrightarrow>
     unat s \<le> unat (snd best) \<and> (\<forall>(k, c)\<in>set ss. unat s \<le> unat (se_lastSequence c)) \<and>
     ((i, s) = best \<or> (\<exists>c. (i, c) \<in> set ss \<and> se_lastSequence c = s))"
proof (induction best ss rule: oldestSession.induct)
  case (2 best k c cs)
  then show ?case
    by (auto simp: word_less_nat_alt split: if_splits)
qed simp

lemma lru_inv_size: "lru_inv xs n ss \<Longrightarrow> length ss = length xs"
  unfolding lru_inv_def wf_map_def by (metis distinct_card length_map list.set_map)

lemma lru_remove:
  assumes "lru_inv xs n ss"
  shows "lru_inv (removeAll k xs) n (remove_key k ss)"
proof -
  have same: "i \<noteq> k \<Longrightarrow> last_use (remove_key k ss) i = last_use ss i" for i
    by (simp add: last_use_def)
  have "sorted_wrt (\<lambda>i j. last_use ss j < last_use ss i) (removeAll k xs)"
    using assms unfolding lru_inv_def removeAll_filter_not_eq by (simp add: sorted_wrt_filter)
  then have "sorted_wrt (\<lambda>i j. last_use (remove_key k ss) j < last_use (remove_key k ss) i) (removeAll k xs)"
    by (rule sorted_wrt_mono_rel [rotated]) (auto simp: same)
  moreover have "\<forall>i\<in>set (removeAll k xs). last_use (remove_key k ss) i \<le> n"
    using assms by (simp add: lru_inv_def same)
  moreover have "length (removeAll k xs) \<le> 64"
    using assms by (auto simp: lru_inv_def removeAll_filter_not_eq intro: order_trans [OF length_filter_le])
  ultimately show ?thesis
    using assms by (simp add: lru_inv_def distinct_removeAll) blast
qed

lemma lru_insert:
  assumes inv: "lru_inv ys n ss" and new: "i \<notin> set ys" "i \<noteq> []" "length ys < 64"
    and map: "wf_map ss'" "fst ` set ss' = insert i (fst ` set ss)"
      "\<And>k. k \<noteq> i \<Longrightarrow> lookup ss' k = lookup ss k" "last_use ss' i = Suc n"
  shows "lru_inv (i # ys) (Suc n) ss'"
proof -
  have same: "k \<in> set ys \<Longrightarrow> last_use ss' k = last_use ss k" for k
    using new(1) map(3) [of k] by (cases "k = i") (simp_all add: last_use_def)
  have "sorted_wrt (\<lambda>i j. last_use ss j < last_use ss i) ys" using inv by (simp add: lru_inv_def)
  then have "sorted_wrt (\<lambda>i j. last_use ss' j < last_use ss' i) ys"
    by (rule sorted_wrt_mono_rel [rotated]) (simp add: same)
  then show ?thesis
    using inv new map by (auto simp: lru_inv_def same le_SucI less_Suc_eq_le)
qed

text \<open>The session that the scan finds is the last one of the reference list.\<close>

lemma oldest_is_last:
  assumes inv: "lru_inv xs n ss" and ne: "xs \<noteq> []" and small: "n < 18446744073709551615"
  shows "fst (oldestSession ([], MaxUint64) ss) = last xs"
proof -
  obtain i s where old: "oldestSession ([], MaxUint64) ss = (i, s)" by fastforce
  note least = oldestSession_min [OF old]
  have wf: "wf_map ss" using inv by (simp add: lru_inv_def)
  have entry: "lookup ss k = Some c" if "(k, c) \<in> set ss" for k c
    using that wf by (simp add: wf_map_def)
  obtain c where c: "(last xs, c) \<in> set ss"
    using inv ne last_in_set [OF ne] by (auto simp: lru_inv_def)
  have n: "last_use ss (last xs) \<le> n" using inv last_in_set [OF ne] by (simp add: lru_inv_def)
  have low: "unat s \<le> last_use ss (last xs)"
    using least c entry [OF c] by (auto simp: last_use_def)
  with n have "unat s \<le> n" by simp
  then have "s \<noteq> MaxUint64" using small by (auto simp: unat_MaxUint64)
  then obtain d where d: "(i, d) \<in> set ss" "se_lastSequence d = s" using least by auto
  have "last_use ss i \<le> last_use ss (last xs)"
    using low entry [OF d(1)] d(2) by (simp add: last_use_def)
  moreover have "i \<in> set xs" using inv d by (force simp: lru_inv_def)
  moreover have "last_use ss (last xs) < last_use ss j" if "j \<in> set xs" "j \<noteq> last xs" for j
  proof -
    have "sorted_wrt (\<lambda>i j. last_use ss j < last_use ss i) (butlast xs @ [last xs])"
      using inv ne by (simp add: lru_inv_def)
    moreover have "j \<in> set (butlast xs)"
      using that ne by (metis append_butlast_last_id in_set_conv_decomp rotate1.simps(2) set_ConsD set_rotate1)
    ultimately show ?thesis by (simp add: sorted_wrt_append)
  qed
  ultimately have "i = last xs" by force
  with old show ?thesis by simp
qed

lemma lru_later: "lru_inv xs n ss \<Longrightarrow> lru_inv xs (Suc n) ss"
  unfolding lru_inv_def by (meson le_SucI)

lemma lru_addSession:
  assumes inv: "lru_inv xs n ss" and sq: "unat sq = Suc n"
  shows "lru_inv (lru_touch xs (rr_SessionID r)) (Suc n) (addSession sq r ss)"
proof (cases "rr_SessionID r = []")
  case True
  then show ?thesis using inv by (simp add: lru_touch_def addSession_def lru_later)
next
  case ne: False
  let ?i = "rr_SessionID r"
  have small: "n < 18446744073709551615" using sq unat64_bound [of sq] by simp
  have wf: "wf_map ss" and dist: "distinct xs" and len: "length xs \<le> 64"
    using inv by (auto simp: lru_inv_def)
  have keys: "lookup ss ?i = None \<longleftrightarrow> ?i \<notin> set xs"
    using inv by (auto simp: lru_inv_def map_of_eq_None_iff)
  define e where "e = session_entry sq r (lookup ss ?i)"
  then have e: "se_lastSequence e = sq" by (simp add: session_entry_def)
  have add: "addSession sq r ss = upsert ?i e
      (if lookup ss ?i = None \<and> length ss = RecentSessionLimit
       then remove_key (fst (oldestSession ([], MaxUint64) ss)) ss else ss)"
    using ne by (simp add: addSession_def e_def Let_def)
  have use: "last_use (upsert ?i e m) ?i = Suc n" for m by (simp add: last_use_def e sq)
  show ?thesis
  proof (cases "?i \<notin> set xs \<and> length xs = 64")
    case True
    let ?v = "last xs"
    have "xs \<noteq> []" using True by auto
    then have "addSession sq r ss = upsert ?i e (remove_key ?v ss)"
      using add keys True lru_inv_size [OF inv] oldest_is_last [OF inv _ small]
      by (simp add: RecentSessionLimit_def)
    moreover have "removeAll ?v xs = butlast xs"
      using dist \<open>xs \<noteq> []\<close>
      by (metis append_butlast_last_id append_Nil2 distinct_append disjoint_iff list.set_intros(1)
          removeAll.simps removeAll_append removeAll_id)
    moreover have "lru_touch xs ?i = ?i # butlast xs"
      using True ne \<open>xs \<noteq> []\<close> by (simp add: lru_touch_def butlast_conv_take)
    moreover have "length (butlast xs) < 64" "?i \<notin> set (butlast xs)"
      using True by (auto dest: in_set_butlastD)
    ultimately show ?thesis
      using lru_insert [OF lru_remove [OF inv, of ?v], of ?i "upsert ?i e (remove_key ?v ss)"] ne use wf
      by simp
  next
    case False
    have "length (removeAll ?i xs) < 64"
      using False len length_removeAll_less [of ?i xs] by (cases "?i \<in> set xs") auto
    moreover have "addSession sq r ss = upsert ?i e ss"
      using add keys False lru_inv_size [OF inv] by (auto simp: RecentSessionLimit_def)
    ultimately show ?thesis
      using lru_insert [OF lru_remove [OF inv, of ?i], of ?i "upsert ?i e ss"] ne use wf
      by (simp add: lru_touch_def)
  qed
qed

lemma lru_ledger:
  "length rs \<le> 9223372036854775807 \<Longrightarrow>
   lru_inv (foldl lru_touch [] (map rr_SessionID rs)) (length rs) (rl_sessions (ledger_of rs)) \<and>
   rl_sequence (ledger_of rs) = of_nat (length rs)"
proof (induction rs rule: rev_induct)
  case (snoc r rs)
  then have inv: "lru_inv (foldl lru_touch [] (map rr_SessionID rs)) (length rs) (rl_sessions (ledger_of rs))"
    and sq: "rl_sequence (ledger_of rs) = of_nat (length rs)" by simp_all
  have "unat (rl_sequence (ledger_of rs) + 1) = Suc (length rs)"
    unfolding sq using snoc.prems unat_of_nat64 [of "Suc (length rs)"] by (simp add: add.commute)
  from lru_addSession [OF inv this] sq show ?case by simp
qed (simp add: lru_inv_def empty_ledger_def wf_map_def)

text \<open>
  sessions are kept least-recently-used. The retained sessions are exactly those of the
  reference list that moves the session of each finished request to the front and cuts at 64;
  there are never more than 64 of them.
\<close>

theorem sessions_are_lru:
  assumes "length rs \<le> 9223372036854775807"
  shows "fst ` set (rl_sessions (ledger_of rs)) = set (foldl lru_touch [] (map rr_SessionID rs)) \<and>
         length (rl_sessions (ledger_of rs)) \<le> 64"
proof -
  have inv: "lru_inv (foldl lru_touch [] (map rr_SessionID rs)) (length rs) (rl_sessions (ledger_of rs))"
    using lru_ledger [OF assms] by blast
  then show ?thesis using lru_inv_size [OF inv] by (simp add: lru_inv_def del: foldl_map)
qed

theorem sessions_are_lru_witness:
  "fst ` set (rl_sessions (ledger_of [sample_record ''a'' ''s'', sample_record ''b'' ''t'']))
     = {''s'', ''t''}"
  using sessions_are_lru [of "[sample_record ''a'' ''s'', sample_record ''b'' ''t'']"]
  by (auto simp: sample_record_def lru_touch_def)

section \<open>Active requests\<close>

text \<open>
  the table of active requests never exceeds its limit, and tracking is best effort: a full
  table drops the new report and keeps every other entry, while untracking or finishing a request
  removes exactly its entry.
\<close>

theorem active_bounded:
  assumes "wf_map (rl_active l)" "length (rl_active l) \<le> ActiveRequestLimit"
  shows "length (rl_active (Track r phase l)) \<le> ActiveRequestLimit \<and> wf_map (rl_active (Track r phase l)) \<and>
    (\<forall>k. k \<noteq> rr_ID r \<longrightarrow> lookup (rl_active (Track r phase l)) k = lookup (rl_active l) k) \<and>
    lookup (rl_active (Add (Track r phase l) r)) (rr_ID r) = None \<and>
    lookup (rl_active (Untrack (rr_ID r) l)) (rr_ID r) = None"
proof -
  have "lookup (rl_active l) (rr_ID r) \<noteq> None \<longleftrightarrow> rr_ID r \<in> fst ` set (rl_active l)"
    by (auto simp: map_of_eq_None_iff)
  then show ?thesis
    using assms by (auto simp: Track_def Untrack_def Let_def length_upsert)
qed

theorem active_bounded_witness:
  "length (rl_active (Track (sample_record ''a'' ''s'') ''receiving'' empty_ledger)) \<le> ActiveRequestLimit"
  using active_bounded [of empty_ledger "sample_record ''a'' ''s''" "''receiving''"]
  by (simp add: empty_ledger_def wf_map_def)

end
