(* ===== verification/Statistics.thy ===== *)
theory Statistics
  imports Ledger "HOL-Library.Product_Lexorder"
begin

text \<open>
  The retained usage statistics of the gateway (\<^verbatim>\<open>internal/gateway/statistics.go\<close> and
  \<^verbatim>\<open>statistics_sqlite.go\<close>): events derived from finished requests, a bounded queue that never
  blocks the request path, batches merged into daily rows of a database with saturating 63-bit
  counters, expiry by retention, and the snapshot that reads them back.

  The database is the two tables the statements work on; a transaction either commits or leaves
  them unchanged. Times are nanoseconds since the epoch; the text of a UTC day (\<^verbatim>\<open>YYYY-MM-DD\<close>)
  orders like the number of the day, which stands for it. Parsing an RFC 3339 time is an argument.
\<close>

section \<open>Counters\<close>

type_synonym counters = "uint64 list"
type_synonym day = int
type_synonym row_key = "day \<times> string \<times> string"

record StatisticsUsage =
  su_Requests :: uint64
  su_Succeeded :: uint64
  su_Failed :: uint64
  su_Canceled :: uint64
  su_Input :: AggregateMetric
  su_Output :: AggregateMetric
  su_Cached :: AggregateMetric
  su_Reasoning :: AggregateMetric
  su_CacheReuse :: AggregateCacheReuse
  su_TotalMilliseconds :: AggregateMetric
  su_FirstOutputMilliseconds :: AggregateMetric

definition metric_counters :: "AggregateMetric \<Rightarrow> uint64 list" where
  "metric_counters m = [am_Total m, am_Observations m]"

definition usageCounters :: "StatisticsUsage \<Rightarrow> counters" where
  "usageCounters u =
     [su_Requests u, su_Succeeded u, su_Failed u, su_Canceled u]
     @ metric_counters (su_Input u) @ metric_counters (su_Output u)
     @ metric_counters (su_Cached u) @ metric_counters (su_Reasoning u)
     @ metric_counters (su_TotalMilliseconds u) @ metric_counters (su_FirstOutputMilliseconds u)
     @ [ac_InputTokens (su_CacheReuse u), ac_CachedTokens (su_CacheReuse u),
        ac_Observations (su_CacheReuse u)]"

definition usage :: "counters \<Rightarrow> StatisticsUsage" where
  "usage c =
     \<lparr>su_Requests = c ! 0, su_Succeeded = c ! 1, su_Failed = c ! 2, su_Canceled = c ! 3,
      su_Input = \<lparr>am_Total = c ! 4, am_Observations = c ! 5\<rparr>,
      su_Output = \<lparr>am_Total = c ! 6, am_Observations = c ! 7\<rparr>,
      su_Cached = \<lparr>am_Total = c ! 8, am_Observations = c ! 9\<rparr>,
      su_Reasoning = \<lparr>am_Total = c ! 10, am_Observations = c ! 11\<rparr>,
      su_CacheReuse = \<lparr>ac_InputTokens = c ! 16, ac_CachedTokens = c ! 17, ac_Observations = c ! 18,
        ac_Ratio = (if c ! 18 > 0 \<and> c ! 16 > 0 then Some (ratio (c ! 17) (c ! 16)) else None)\<rparr>,
      su_TotalMilliseconds = \<lparr>am_Total = c ! 12, am_Observations = c ! 13\<rparr>,
      su_FirstOutputMilliseconds = \<lparr>am_Total = c ! 14, am_Observations = c ! 15\<rparr>\<rparr>"

definition zero_counters :: counters where
  "zero_counters = replicate 19 0"

definition add_counters :: "counters \<Rightarrow> counters \<Rightarrow> counters" where
  "add_counters c other = map2 saturatingAdd c other"

definition statisticsInteger :: "uint64 \<Rightarrow> int" where
  "statisticsInteger v = uint (min v MaxInt64)"

section \<open>Events\<close>

record statisticsEvent =
  ev_day :: day
  ev_model :: string
  ev_application :: string
  ev_counters :: counters

definition day_of :: "int \<Rightarrow> day" where
  "day_of t = t div 86400000000000"

definition statisticsIdentity :: "string \<Rightarrow> string" where
  "statisticsIdentity v =
     (if length v > 512 \<or> list_ex (\<lambda>c. c \<in> {byte 0, byte 13, byte 10}) v then [] else v)"

definition subset_tokens :: "TokenUsage \<Rightarrow> TokenUsage" where
  "subset_tokens t =
     t\<lparr>tu_Cached := (case (tu_Cached t, tu_Input t) of
          (Some c, Some i) \<Rightarrow> if sint c > sint i then None else Some c | (x, _) \<Rightarrow> x),
       tu_Reasoning := (case (tu_Reasoning t, tu_Output t) of
          (Some c, Some i) \<Rightarrow> if sint c > sint i then None else Some c | (x, _) \<Rightarrow> x)\<rparr>"

definition statisticsEventFromRecord ::
  "(string \<Rightarrow> int option) \<Rightarrow> RequestRecord \<Rightarrow> int \<Rightarrow> statisticsEvent" where
  "statisticsEventFromRecord parseTime r now =
     (let finished = (case parseTime (rr_FinishedAt r) of None \<Rightarrow> now | Some t \<Rightarrow> t);
          a = addAggregate zero_aggregate (r\<lparr>rr_Tokens := subset_tokens (rr_Tokens r)\<rparr>);
          u = \<lparr>su_Requests = 1,
               su_Succeeded = (if rr_Outcome r = OutcomeSucceeded then 1 else 0),
               su_Failed = (if rr_Outcome r \<in> {OutcomeSucceeded, OutcomeCanceled} then 0 else 1),
               su_Canceled = (if rr_Outcome r = OutcomeCanceled then 1 else 0),
               su_Input = at_Input (ra_Tokens a), su_Output = at_Output (ra_Tokens a),
               su_Cached = at_Cached (ra_Tokens a), su_Reasoning = at_Reasoning (ra_Tokens a),
               su_CacheReuse = ra_CacheReuse a, su_TotalMilliseconds = ag_Total (ra_Timing a),
               su_FirstOutputMilliseconds = ag_FirstOutput (ra_Timing a)\<rparr> in
      \<lparr>ev_day = day_of finished, ev_model = statisticsIdentity (rr_Model r),
       ev_application = statisticsIdentity (rr_Application r), ev_counters = usageCounters u\<rparr>)"

section \<open>The store\<close>

record store =
  db_daily :: "(row_key \<times> int list) list"
  db_health :: "(day \<times> int \<times> bool) list"
  db_clean :: bool
  db_since :: day

definition sqlMax :: int where
  "sqlMax = 9223372036854775807"

text \<open>The \<^verbatim>\<open>CASE\<close> expression of the upsert statements.\<close>

definition sqlAdd :: "int \<Rightarrow> int \<Rightarrow> int" where
  "sqlAdd old new = (if old > sqlMax - new then sqlMax else old + new)"

definition merge_events :: "statisticsEvent list \<Rightarrow> (row_key \<times> counters) list" where
  "merge_events evs = foldl (\<lambda>m e. let k = (ev_day e, ev_model e, ev_application e);
       old = (case lookup m k of None \<Rightarrow> zero_counters | Some c \<Rightarrow> c) in
     upsert k (add_counters old (ev_counters e)) m) [] evs"

definition upsert_daily :: "(row_key \<times> int list) list \<Rightarrow> row_key \<times> counters \<Rightarrow> (row_key \<times> int list) list" where
  "upsert_daily rows kc = (case kc of (k, c) \<Rightarrow>
     let new = map statisticsInteger c in
     upsert k (case lookup rows k of None \<Rightarrow> new | Some old \<Rightarrow> map2 sqlAdd old new) rows)"

definition upsert_health :: "day \<Rightarrow> int \<Rightarrow> (day \<times> int \<times> bool) list \<Rightarrow> (day \<times> int \<times> bool) list" where
  "upsert_health d n h =
     upsert d (case lookup h d of None \<Rightarrow> (n, True) | Some (old, _) \<Rightarrow> (sqlAdd old n, True)) h"

definition cutoff_day :: "int \<Rightarrow> int \<Rightarrow> day" where
  "cutoff_day retention now = day_of now + (1 - retention)"

definition expire :: "day \<Rightarrow> store \<Rightarrow> store" where
  "expire cutoff db = db\<lparr>db_daily := filter (\<lambda>((d, _, _), _). d \<ge> cutoff) (db_daily db),
     db_health := filter (\<lambda>(d, _). d \<ge> cutoff) (db_health db)\<rparr>"

text \<open>\<^verbatim>\<open>sum\<close> over an integer column raises an error when the result does not fit 64 bits.\<close>

definition sum_dropped :: "(day \<times> int \<times> bool) list \<Rightarrow> string + int" where
  "sum_dropped h = (let s = sum_list (map (\<lambda>(_, n, _). n) h) in
     if s > sqlMax then Inl ''integer overflow'' else Inr s)"

section \<open>The recorder\<close>

record statistics =
  st_retention :: int
  st_db :: "store option"
  st_queue :: "statisticsEvent list"
  st_capacity :: nat
  st_closed :: bool
  st_done :: bool
  st_dropped :: uint64
  st_pending :: uint64
  st_failed :: bool
  st_persistedDropped :: uint64
  st_maintenanceDay :: day
  st_nextHealthAttempt :: int

definition fail :: "statistics \<Rightarrow> statistics" where
  "fail s = s\<lparr>st_failed := True\<rparr>"

text \<open>A recorder whose store did not open has no queue, and \<^verbatim>\<open>Record\<close> does nothing.\<close>

definition has_queue :: "statistics \<Rightarrow> bool" where
  "has_queue s \<longleftrightarrow> st_db s \<noteq> None"

definition Record :: "(string \<Rightarrow> int option) \<Rightarrow> int \<Rightarrow> RequestRecord \<Rightarrow> statistics option \<Rightarrow> statistics option" where
  "Record parseTime now r so = (case so of
     None \<Rightarrow> None
   | Some s \<Rightarrow>
       Some (if \<not> has_queue s \<or> st_closed s then s
         else (let s = s\<lparr>st_pending := st_pending s + 1\<rparr> in
           if length (st_queue s) < st_capacity s
           then s\<lparr>st_queue := st_queue s @ [statisticsEventFromRecord parseTime r now]\<rparr>
           else s\<lparr>st_pending := st_pending s + MaxUint64, st_dropped := st_dropped s + 1\<rparr>)))"

text \<open>
  The commit of one batch: the new store, the retained losses, or the error of a statement. A
  failing statement or commit leaves the store as it was.
\<close>

definition batch_tx ::
  "int \<Rightarrow> statistics \<Rightarrow> statisticsEvent list \<Rightarrow> bool \<Rightarrow> store \<Rightarrow> string + (store \<times> int)" where
  "batch_tx now s evs closing db =
     (let rows = foldl upsert_daily (db_daily db) (merge_events evs);
          delta = st_dropped s - st_persistedDropped s;
          health = (if delta > 0 \<or> st_failed s
            then upsert_health (day_of now) (statisticsInteger delta) (db_health db) else db_health db);
          db = expire (cutoff_day (st_retention s) now) (db\<lparr>db_daily := rows, db_health := health\<rparr>) in
      bind_res (sum_dropped (db_health db))
        (\<lambda>retained. Inr (db\<lparr>db_clean := closing \<and> \<not> st_failed s\<rparr>, retained)))"

definition writeBatch ::
  "int \<Rightarrow> string option \<Rightarrow> statisticsEvent list \<Rightarrow> bool \<Rightarrow> statistics \<Rightarrow> string option \<times> statistics" where
  "writeBatch now txError evs closing s =
     (if \<not> closing \<and> evs = [] \<and>
         (st_failed s \<and> now < st_nextHealthAttempt s \<or>
          st_dropped s = st_persistedDropped s \<and> st_maintenanceDay s = day_of now)
      then (None, s)
      else case (txError, st_db s) of
        (Some e, _) \<Rightarrow> (Some e, s)
      | (None, None) \<Rightarrow> (Some ''no database'', s)
      | (None, Some db) \<Rightarrow>
          (case batch_tx now s evs closing db of
             Inl e \<Rightarrow> (Some e, s)
           | Inr (db', retained) \<Rightarrow>
               (None, s\<lparr>st_db := Some db',
                  st_dropped := st_dropped s + (of_int retained - st_dropped s),
                  st_persistedDropped := of_int retained, st_maintenanceDay := day_of now\<rparr>)))"

text \<open>
  One round of \<^verbatim>\<open>writeLoop\<close>: take at most 128 queued events, write them, account for them. \<open>txError\<close>
  is the error of the transaction, if any. With a closed and drained queue the loop finishes.
\<close>

definition flush :: "int \<Rightarrow> string option \<Rightarrow> statisticsEvent list \<Rightarrow> statistics \<Rightarrow> statistics" where
  "flush now txError batch s =
     (case writeBatch now txError batch False s of
        (None, s) \<Rightarrow> s\<lparr>st_pending := st_pending s + (0 - of_nat (length batch))\<rparr>
      | (Some e, s) \<Rightarrow>
          (fail (s\<lparr>st_dropped := st_dropped s + of_nat (length batch)\<rparr>))
            \<lparr>st_nextHealthAttempt := now + 60000000000,
             st_pending := st_pending s + (0 - of_nat (length batch))\<rparr>)"

definition finishStatistics :: "int \<Rightarrow> string option \<Rightarrow> statistics \<Rightarrow> statistics" where
  "finishStatistics now txError s =
     (case writeBatch now txError [] True s of (None, s) \<Rightarrow> s | (Some _, s) \<Rightarrow> fail s)"

definition writeRound :: "int \<Rightarrow> string option \<Rightarrow> statistics \<Rightarrow> statistics" where
  "writeRound now txError s =
     (if st_done s then s
      else if st_closed s \<and> st_queue s = [] then (finishStatistics now txError s)\<lparr>st_done := True\<rparr>
      else flush now txError (take 128 (st_queue s)) (s\<lparr>st_queue := drop 128 (st_queue s)\<rparr>))"

fun writeLoop :: "(int \<times> string option) list \<Rightarrow> statistics \<Rightarrow> statistics" where
  "writeLoop [] s = s"
| "writeLoop ((now, e) # xs) s = writeLoop xs (writeRound now e s)"

text \<open>\<^verbatim>\<open>Close\<close>: no more events, let the writer drain, then report a failure.\<close>

definition Close :: "(int \<times> string option) list \<Rightarrow> statistics \<Rightarrow> statistics \<times> bool" where
  "Close rounds s = (let s = writeLoop rounds (s\<lparr>st_closed := True\<rparr>) in (s, st_failed s))"

section \<open>Opening the store\<close>

record file_info =
  fi_regular :: bool
  fi_dir :: bool
  fi_symlink :: bool
  fi_nlink :: nat
  fi_uid :: nat
  fi_perm :: nat

datatype lstat = NotExist | LstatError string | Info file_info

definition checkStatisticsFile :: "nat \<Rightarrow> (string \<Rightarrow> lstat) \<Rightarrow> string \<Rightarrow> string option" where
  "checkStatisticsFile uid fs p = (case fs p of
     NotExist \<Rightarrow> None
   | LstatError e \<Rightarrow> Some e
   | Info i \<Rightarrow>
       if \<not> fi_regular i \<or> fi_nlink i \<noteq> 1 \<or> fi_uid i \<noteq> uid \<or> fi_perm i \<noteq> 384
       then Some (''unsafe statistics file '' @ p @
              '' (requires owned singly linked regular file, mode 0600)'')
       else None)"

text \<open>
  The walk over the components of the directory: missing ones are created (with mode 0700, owned by
  the caller), links and other files are refused. \<open>mkdir\<close> is the outcome of each creation.
\<close>

definition new_dir :: "nat \<Rightarrow> file_info" where
  "new_dir uid = \<lparr>fi_regular = False, fi_dir = True, fi_symlink = False, fi_nlink = 2, fi_uid = uid,
     fi_perm = 448\<rparr>"

fun walk_dirs ::
  "nat \<Rightarrow> (string \<Rightarrow> string option) \<Rightarrow> (string \<Rightarrow> lstat) \<Rightarrow> string \<Rightarrow> string list
     \<Rightarrow> string + (string \<Rightarrow> lstat)" where
  "walk_dirs uid mkdir fs current [] = Inr fs"
| "walk_dirs uid mkdir fs current (part # parts) =
     (if part = [] then walk_dirs uid mkdir fs current parts
      else (let current = current @ ''/'' @ part in
        case fs current of
          NotExist \<Rightarrow>
            (case mkdir current of
               Some e \<Rightarrow> Inl e
             | None \<Rightarrow> walk_dirs uid mkdir (fs(current := Info (new_dir uid))) current parts)
        | LstatError e \<Rightarrow> Inl e
        | Info i \<Rightarrow> if \<not> fi_dir i \<or> fi_symlink i then Inl ''unsafe statistics directory''
            else walk_dirs uid mkdir fs current parts))"

definition network_filesystems :: "nat list" where
  "network_filesystems = [26985, 4283649346, 4266872130, 1397113167, 40864, 1702057286]"

definition prepareStatisticsDirectory ::
  "nat \<Rightarrow> (string \<Rightarrow> string option) \<Rightarrow> (string \<Rightarrow> string + nat) \<Rightarrow> (string \<Rightarrow> lstat) \<Rightarrow> string
     \<Rightarrow> string + (string \<Rightarrow> lstat)" where
  "prepareStatisticsDirectory uid mkdir statfs fs dir =
     bind_res (walk_dirs uid mkdir fs [] (split_on (CHR ''/'') (trimPrefix dir ''/''))) (\<lambda>fs.
       case fs dir of
         NotExist \<Rightarrow> Inl ''no such file or directory''
       | LstatError e \<Rightarrow> Inl e
       | Info i \<Rightarrow>
           if fi_uid i \<noteq> uid \<or> fi_perm i \<noteq> 448
           then Inl ''statistics directory must be owned by the current user with mode 0700''
           else bind_res (statfs dir) (\<lambda>kind.
             if kind \<in> set network_filesystems
             then Inl ''statistics database requires a local filesystem'' else Inr fs))"

text \<open>
  The transaction of \<^verbatim>\<open>open\<close> on the database file: the schema version, the number of objects of an
  unversioned file, the journal mode, and the store that a versioned file holds.
\<close>

definition openStore ::
  "int \<Rightarrow> int \<Rightarrow> int \<Rightarrow> nat \<Rightarrow> string \<Rightarrow> store \<Rightarrow> string + (store \<times> int)" where
  "openStore now retention version objects mode db =
     (if version \<noteq> 0 \<and> version \<noteq> 1 then Inl ''unsupported statistics schema version''
      else if version = 0 \<and> objects \<noteq> 0 then Inl ''unrecognized statistics database''
      else if mode \<noteq> ''wal'' then Inl ''statistics requires WAL journaling''
      else (let db = (if version = 0
                then \<lparr>db_daily = [], db_health = [], db_clean = True, db_since = day_of now\<rparr> else db);
                health = (if db_clean db then db_health db
                  else upsert (day_of now) (case lookup (db_health db) (day_of now) of
                      None \<Rightarrow> (0, True) | Some (n, _) \<Rightarrow> (n, True)) (db_health db));
                db = expire (cutoff_day retention now) (db\<lparr>db_health := health, db_clean := False\<rparr>) in
        bind_res (sum_dropped (db_health db)) (\<lambda>dropped. Inr (db, dropped))))"

text \<open>\<^verbatim>\<open>newStatistics\<close>, given what \<^verbatim>\<open>open\<close> returned.\<close>

definition newStatistics ::
  "bool \<Rightarrow> int \<Rightarrow> int \<Rightarrow> nat \<Rightarrow> string + (store \<times> int) \<Rightarrow> statistics option" where
  "newStatistics enabled retentionDays now capacity opened =
     (if \<not> enabled then None
      else (let retention = (if retentionDays = 0 then 90 else retentionDays);
                s = \<lparr>st_retention = retention, st_db = None, st_queue = [], st_capacity = 0,
                     st_closed = False, st_done = False, st_dropped = 0, st_pending = 0,
                     st_failed = False, st_persistedDropped = 0, st_maintenanceDay = 0,
                     st_nextHealthAttempt = 0\<rparr> in
        Some (if retention < 30 \<or> retention > 365 then fail s
          else case opened of
            Inl _ \<Rightarrow> fail s
          | Inr (db, dropped) \<Rightarrow>
              s\<lparr>st_db := Some db, st_capacity := capacity, st_dropped := of_int dropped,
                st_persistedDropped := of_int dropped, st_maintenanceDay := day_of now\<rparr>)))"

section \<open>Snapshots\<close>

record StatisticsSnapshot =
  sn_State :: string
  sn_RetentionDays :: int
  sn_PeriodDays :: int
  sn_From :: day
  sn_To :: day
  sn_RecordingSince :: "day option"
  sn_Incomplete :: bool
  sn_DroppedRequests :: uint64
  sn_PendingRequests :: uint64
  sn_Overall :: StatisticsUsage
  sn_Daily :: "(day \<times> StatisticsUsage) list"
  sn_Models :: "((string \<times> string) \<times> StatisticsUsage) list"

definition add_key :: "('k \<times> counters) list \<Rightarrow> 'k \<Rightarrow> counters \<Rightarrow> ('k \<times> counters) list" where
  "add_key m k c = upsert k (add_counters (case lookup m k of None \<Rightarrow> zero_counters | Some d \<Rightarrow> d) c) m"

definition selected :: "day \<Rightarrow> day \<Rightarrow> store \<Rightarrow> (row_key \<times> int list) list" where
  "selected from to db = filter (\<lambda>((d, _, _), _). from \<le> d \<and> d \<le> to) (db_daily db)"

fun read_rows ::
  "(row_key \<times> int list) list \<Rightarrow> (day \<times> counters) list \<Rightarrow> ((string \<times> string) \<times> counters) list \<Rightarrow> counters
     \<Rightarrow> string + ((day \<times> counters) list \<times> ((string \<times> string) \<times> counters) list \<times> counters)" where
  "read_rows [] daily models overall = Inr (daily, models, overall)"
| "read_rows (((d, m, a), numbers) # rows) daily models overall =
     (if list_ex (\<lambda>n. n < 0) numbers then Inl ''negative statistics counter''
      else (let c = map of_int numbers in
        read_rows rows (add_key daily d c) (add_key models (m, a) c) (add_counters overall c)))"

definition readSnapshot :: "int \<Rightarrow> statistics \<Rightarrow> store \<Rightarrow> StatisticsSnapshot \<Rightarrow> string + StatisticsSnapshot" where
  "readSnapshot now s db result =
     (let cutoff = cutoff_day (st_retention s) now;
          health = filter (\<lambda>(d, _). cutoff \<le> d \<and> d \<le> sn_To result) (db_health db);
          incomplete = list_ex (\<lambda>(_, _, i). i) health in
      bind_res (sum_dropped health) (\<lambda>retained.
      bind_res (read_rows (selected (sn_From result) (sn_To result) db) [] [] zero_counters)
        (\<lambda>(daily, models, overall).
          let dropped = saturatingAdd (of_int retained) (st_dropped s - st_persistedDropped s) in
          Inr (result\<lparr>sn_RecordingSince := Some (db_since db),
            sn_DroppedRequests := dropped, sn_PendingRequests := st_pending s,
            sn_Incomplete := (incomplete \<or> dropped > 0 \<or> st_failed s),
            sn_Overall := usage overall,
            sn_Daily := map (\<lambda>i. let d = sn_From result + int i in
                (d, usage (case lookup daily d of None \<Rightarrow> zero_counters | Some c \<Rightarrow> c)))
              [0..<nat (sn_PeriodDays result)],
            sn_Models := map (\<lambda>(k, c). (k, usage c)) (sort_key fst models)\<rparr>))))"

definition statisticsSnapshot ::
  "int \<Rightarrow> bool \<Rightarrow> string option \<Rightarrow> int \<Rightarrow> statistics option
     \<Rightarrow> string + (statistics option \<times> string option \<times> StatisticsSnapshot)" where
  "statisticsSnapshot now ctxDone txError days so =
     (if days \<noteq> 1 \<and> days \<noteq> 7 \<and> days \<noteq> 30 then Inl ''statistics period must be 1, 7 or 30 days''
      else (let empty = \<lparr>sn_State = ''disabled'', sn_RetentionDays = 0, sn_PeriodDays = days,
                sn_From = day_of now + (1 - days), sn_To = day_of now, sn_RecordingSince = None,
                sn_Incomplete = False, sn_DroppedRequests = 0, sn_PendingRequests = 0,
                sn_Overall = (usage zero_counters), sn_Daily = [], sn_Models = []\<rparr> in
        case so of
          None \<Rightarrow> Inr (None, None, empty)
        | Some s \<Rightarrow>
            (let result = empty\<lparr>sn_RetentionDays := st_retention s, sn_State := ''unavailable'',
                   sn_DroppedRequests := st_dropped s, sn_PendingRequests := st_pending s,
                   sn_Incomplete := (st_dropped s > 0 \<or> st_failed s)\<rparr>;
                 unavailable = Some ''gateway statistics unavailable'';
                 failed = Some (if ctxDone then s else fail s) in
             case st_db s of
               None \<Rightarrow> Inr (Some s, unavailable, result)
             | Some db \<Rightarrow>
                 if st_failed s then Inr (Some s, unavailable, result)
                 else (case txError of
                   Some _ \<Rightarrow> Inr (failed, unavailable, result)
                 | None \<Rightarrow>
                     (case readSnapshot now s db result of
                        Inl _ \<Rightarrow> Inr (failed, unavailable, result\<lparr>sn_RecordingSince := Some (db_since db)\<rparr>)
                      | Inr r \<Rightarrow> Inr (Some s, None, r\<lparr>sn_State := ''ready''\<rparr>))))))"

section \<open>Counters are sums\<close>

lemma length_usageCounters [simp]: "length (usageCounters u) = 19"
  by (simp add: usageCounters_def metric_counters_def)

lemma length_zero_counters [simp]: "length zero_counters = 19"
  by (simp add: zero_counters_def)

lemma nth_zero_counters [simp]: "i < 19 \<Longrightarrow> zero_counters ! i = 0"
  by (simp add: zero_counters_def)

lemma add_counters_nth:
  "length c = 19 \<Longrightarrow> length d = 19 \<Longrightarrow> length (add_counters c d) = 19 \<and>
     (\<forall>i<19. add_counters c d ! i = saturatingAdd (c ! i) (d ! i))"
  by (simp add: add_counters_def)

definition keyed_sum :: "('k \<times> counters) list \<Rightarrow> 'k \<Rightarrow> nat \<Rightarrow> nat" where
  "keyed_sum xs k i = (\<Sum>(k', c)\<leftarrow>xs. if k' = k then unat (c ! i) else 0)"

lemma keyed_sum_simps [simp]:
  "keyed_sum [] k i = 0"
  "keyed_sum ((k', c) # xs) k i = (if k' = k then unat (c ! i) else 0) + keyed_sum xs k i"
  "keyed_sum (xs @ ys) k i = keyed_sum xs k i + keyed_sum ys k i"
  by (simp_all add: keyed_sum_def)

lemma keyed_sum_absent: "k \<notin> fst ` set xs \<Longrightarrow> keyed_sum xs k i = 0"
  by (induction xs) auto

text \<open>A table of counters built by adding keyed rows holds, per key, the capped sum of its rows.\<close>

definition table_ok :: "('k \<times> counters) list \<Rightarrow> ('k \<times> counters) list \<Rightarrow> bool" where
  "table_ok m rows \<longleftrightarrow> wf_map m \<and> fst ` set m = fst ` set rows \<and>
     (\<forall>k c. lookup m k = Some c \<longrightarrow> length c = 19 \<and> (\<forall>i<19. unat (c ! i) = cap (keyed_sum rows k i)))"

lemma table_ok_empty: "table_ok [] []"
  by (simp add: table_ok_def wf_map_def)

lemma table_ok_add:
  assumes ok: "table_ok m rows" and c: "length c = 19"
  shows "table_ok (add_key m k c) (rows @ [(k, c)])"
proof -
  define old where "old = (case lookup m k of None \<Rightarrow> zero_counters | Some d \<Rightarrow> d)"
  have old: "length old = 19 \<and> (\<forall>i<19. unat (old ! i) = cap (keyed_sum rows k i))"
  proof (cases "lookup m k")
    case None
    then have "k \<notin> fst ` set rows" using ok by (auto simp: table_ok_def map_of_eq_None_iff)
    then show ?thesis by (simp add: old_def None keyed_sum_absent)
  next
    case (Some d)
    then show ?thesis using ok by (simp add: old_def table_ok_def)
  qed
  have new: "unat (add_counters old c ! i) = cap (keyed_sum (rows @ [(k, c)]) k i)" if "i < 19" for i
    using add_counters_nth [of old c] old c that by (simp add: unat_saturatingAdd min_def)
  have "add_key m k c = upsert k (add_counters old c) m" by (simp add: add_key_def old_def)
  with ok new add_counters_nth [of old c] old c show ?thesis
    by (auto simp: table_ok_def split: if_splits)
qed

lemma table_ok_fold:
  assumes "\<And>k c. (k, c) \<in> set rows \<Longrightarrow> length c = 19"
  shows "table_ok (foldl (\<lambda>m (k, c). add_key m k c) [] rows) rows"
  using assms
proof (induction rows rule: rev_induct)
  case (snoc kc rows)
  then show ?case using table_ok_add by (cases kc) fastforce
qed (simp add: table_ok_empty)

section \<open>Round trip of the counters\<close>

lemma list_19: "length c = 19 \<Longrightarrow> c = map ((!) c) [0..<19]"
  by (metis map_nth)

text \<open>
  packing the statistics of a request into the nineteen counters of a row and unpacking them
  loses nothing: the packed counters are recovered exactly, and every field of the usage except
  the derived ratio is.
\<close>

theorem counters_roundtrip:
  "(length c = 19 \<longrightarrow> usageCounters (usage c) = c) \<and>
   (usage (usageCounters u))\<lparr>su_CacheReuse := (su_CacheReuse (usage (usageCounters u)))\<lparr>ac_Ratio := r\<rparr>\<rparr>
     = u\<lparr>su_CacheReuse := (su_CacheReuse u)\<lparr>ac_Ratio := r\<rparr>\<rparr>"
proof
  show "length c = 19 \<longrightarrow> usageCounters (usage c) = c"
    using list_19 [of c]
    by (auto simp: usageCounters_def usage_def metric_counters_def upt_rec eval_nat_numeral)
  show "(usage (usageCounters u))\<lparr>su_CacheReuse := (su_CacheReuse (usage (usageCounters u)))\<lparr>ac_Ratio := r\<rparr>\<rparr>
     = u\<lparr>su_CacheReuse := (su_CacheReuse u)\<lparr>ac_Ratio := r\<rparr>\<rparr>"
    by (simp add: usageCounters_def usage_def metric_counters_def)
qed

theorem counters_roundtrip_witness: "usageCounters (usage zero_counters) = zero_counters"
  using counters_roundtrip [of zero_counters] by simp

section \<open>Writing a batch\<close>

definition event_row :: "statisticsEvent \<Rightarrow> row_key \<times> counters" where
  "event_row e = ((ev_day e, ev_model e, ev_application e), ev_counters e)"

definition events_ok :: "statisticsEvent list \<Rightarrow> bool" where
  "events_ok evs \<longleftrightarrow> (\<forall>e\<in>set evs. length (ev_counters e) = 19)"

definition rows_ok :: "(row_key \<times> int list) list \<Rightarrow> bool" where
  "rows_ok rows \<longleftrightarrow> wf_map rows \<and>
     (\<forall>k v. lookup rows k = Some v \<longrightarrow> length v = 19 \<and> (\<forall>i<19. 0 \<le> v ! i \<and> v ! i \<le> sqlMax))"

definition daily_value :: "(row_key \<times> int list) list \<Rightarrow> row_key \<Rightarrow> nat \<Rightarrow> int" where
  "daily_value rows k i = (case lookup rows k of None \<Rightarrow> 0 | Some v \<Rightarrow> v ! i)"

lemma rows_okD: "rows_ok rows \<Longrightarrow> lookup rows k = Some v \<Longrightarrow>
    length v = 19 \<and> (\<forall>i<19. 0 \<le> v ! i \<and> v ! i \<le> sqlMax)"
  unfolding rows_ok_def by blast

lemma table_okD: "table_ok m rows \<Longrightarrow> lookup m k = Some c \<Longrightarrow>
    length c = 19 \<and> (\<forall>i<19. unat (c ! i) = cap (keyed_sum rows k i))"
  unfolding table_ok_def by blast

lemma daily_value_bounds:
  "rows_ok rows \<Longrightarrow> i < 19 \<Longrightarrow> 0 \<le> daily_value rows k i \<and> daily_value rows k i \<le> sqlMax"
  using rows_okD [of rows k] by (auto simp: daily_value_def sqlMax_def split: option.split)

lemma merge_events_table:
  assumes "events_ok evs"
  shows "table_ok (merge_events evs) (map event_row evs)"
proof -
  have "merge_events evs = foldl (\<lambda>m (k, c). add_key m k c) [] (map event_row evs)"
    unfolding merge_events_def foldl_map
    by (rule foldl_cong) (simp_all add: event_row_def add_key_def Let_def)
  then show ?thesis
    using table_ok_fold [of "map event_row evs"] assms by (auto simp: events_ok_def event_row_def)
qed

lemma statisticsInteger_eq: "statisticsInteger v = min sqlMax (int (unat v))"
  by (simp add: statisticsInteger_def sqlMax_def min_def word_le_def)

lemma sqlAdd_eq: "sqlAdd a b = min sqlMax (a + b)"
  by (auto simp: sqlAdd_def min_def)

lemma lookup_upsert_daily_fold:
  "wf_map m \<Longrightarrow> lookup (foldl upsert_daily rows m) k =
     (case lookup m k of
        None \<Rightarrow> lookup rows k
      | Some c \<Rightarrow> Some (case lookup rows k of
          None \<Rightarrow> map statisticsInteger c
        | Some old \<Rightarrow> map2 sqlAdd old (map statisticsInteger c)))"
proof (induction m arbitrary: rows)
  case (Cons kc m)
  obtain k' c where kc: "kc = (k', c)" by fastforce
  have "k' \<notin> fst ` set m" "wf_map m" using Cons.prems by (auto simp: kc wf_map_def)
  moreover from this have "lookup m k' = None" by (simp add: map_of_eq_None_iff)
  ultimately show ?case
    using Cons.IH [of "upsert_daily rows kc"]
    by (auto simp: kc upsert_daily_def Let_def split: option.splits)
qed simp

lemma written_value:
  assumes rows: "rows_ok rows" and evs: "events_ok evs" and i: "i < 19"
  shows "daily_value (foldl upsert_daily rows (merge_events evs)) k i =
    min sqlMax (daily_value rows k i + int (keyed_sum (map event_row evs) k i))"
proof -
  note tab = merge_events_table [OF evs]
  have wf: "wf_map (merge_events evs)" using tab by (simp add: table_ok_def)
  show ?thesis
  proof (cases "lookup (merge_events evs) k")
    case None
    then have "keyed_sum (map event_row evs) k i = 0"
      using tab by (intro keyed_sum_absent) (auto simp: table_ok_def map_of_eq_None_iff)
    moreover have "daily_value rows k i \<le> sqlMax"
      using daily_value_bounds [OF rows i] by blast
    ultimately show ?thesis
      using None by (simp add: daily_value_def lookup_upsert_daily_fold [OF wf])
  next
    case (Some c)
    let ?s = "keyed_sum (map event_row evs) k i"
    have c: "length c = 19" "unat (c ! i) = cap ?s" using table_okD [OF tab Some] i by auto
    have new: "statisticsInteger (c ! i) = min sqlMax (int ?s)"
      unfolding statisticsInteger_eq c(2) by (simp add: sqlMax_def min_def)
    show ?thesis
    proof (cases "lookup rows k")
      case None
      with Some c i new show ?thesis
        by (simp add: daily_value_def lookup_upsert_daily_fold [OF wf])
    next
      case old: (Some v)
      have v: "length v = 19" "0 \<le> v ! i" using rows_okD [OF rows old] i by auto
      with Some old c i new show ?thesis
        by (simp add: daily_value_def lookup_upsert_daily_fold [OF wf] sqlAdd_eq min_def sqlMax_def)
    qed
  qed
qed

lemma lookup_filter_key:
  "lookup (filter (\<lambda>(k, _). P k) m) k = (if P k then lookup m k else None)"
  by (induction m) auto

lemma expire_daily:
  "daily_value (db_daily (expire cutoff db)) k i =
     (if fst k < cutoff then 0 else daily_value (db_daily db) k i)"
proof -
  have "filter (\<lambda>((d, _, _), _). d \<ge> cutoff) (db_daily db) =
      filter (\<lambda>(k, _). fst k \<ge> cutoff) (db_daily db)"
    by (rule filter_cong) auto
  then show ?thesis by (simp add: daily_value_def expire_def lookup_filter_key)
qed

text \<open>
  C9: what a committed batch leaves in the daily table. For every day, model and application, each
  counter is the previous value plus the counters of all events of the batch with that key, capped
  at the largest 63-bit number and never wrapped or lost by the merging within the batch, and
  every row older than the retention is gone.
\<close>

theorem batch_totals:
  assumes "batch_tx now s evs closing db = Inr (db', retained)"
    and "rows_ok (db_daily db)" "events_ok evs" "i < 19"
  shows "daily_value (db_daily db') k i =
    (if fst k < cutoff_day (st_retention s) now then 0
     else min sqlMax (daily_value (db_daily db) k i + int (keyed_sum (map event_row evs) k i)))"
proof -
  obtain h where "db_daily db' = db_daily (expire (cutoff_day (st_retention s) now)
      (db\<lparr>db_daily := foldl upsert_daily (db_daily db) (merge_events evs), db_health := h\<rparr>))"
    using assms(1) by (fastforce simp: batch_tx_def Let_def)
  then show ?thesis using written_value [OF assms(2-4)] by (simp add: expire_daily)
qed

lemma rows_ok_written:
  assumes "rows_ok rows" "events_ok evs"
  shows "rows_ok (foldl upsert_daily rows (merge_events evs))"
proof -
  note tab = merge_events_table [OF assms(2)]
  have wf: "wf_map (merge_events evs)" using tab by (simp add: table_ok_def)
  have keep: "wf_map (foldl upsert_daily r m)" if "wf_map r" for r m
    using that by (induction m arbitrary: r) (auto simp: upsert_daily_def Let_def split: prod.splits)
  have shape: "length v = 19" if "lookup (foldl upsert_daily rows (merge_events evs)) k = Some v" for k v
    using that rows_okD [OF assms(1), of k] table_okD [OF tab, of k]
    by (auto simp: lookup_upsert_daily_fold [OF wf] split: option.splits)
  have "0 \<le> v ! i \<and> v ! i \<le> sqlMax"
    if "lookup (foldl upsert_daily rows (merge_events evs)) k = Some v" "i < 19" for k v i
  proof -
    have "v ! i = min sqlMax (daily_value rows k i + int (keyed_sum (map event_row evs) k i))"
      using written_value [OF assms that(2), of k] that(1) by (simp add: daily_value_def)
    moreover have "0 \<le> daily_value rows k i" using daily_value_bounds assms(1) that(2) by blast
    ultimately show ?thesis by (simp add: sqlMax_def)
  qed
  with keep shape assms(1) show ?thesis unfolding rows_ok_def by blast
qed

text \<open>
  how the writer cuts the queue into batches does not matter: writing two batches one after the
  other leaves the same counters as writing them as one.
\<close>

theorem batches_compose:
  assumes "rows_ok rows" "events_ok xs" "events_ok ys" "i < 19"
  shows "daily_value (foldl upsert_daily (foldl upsert_daily rows (merge_events xs)) (merge_events ys)) k i
       = daily_value (foldl upsert_daily rows (merge_events (xs @ ys))) k i"
proof -
  have both: "events_ok (xs @ ys)" using assms by (auto simp: events_ok_def)
  have "0 \<le> daily_value rows k i" using daily_value_bounds assms(1,4) by blast
  then show ?thesis
    using written_value [OF rows_ok_written [OF assms(1,2)] assms(3,4), of k]
      written_value [OF assms(1,2,4), of k] written_value [OF assms(1) both assms(4), of k]
    by (simp add: min_def)
qed

text \<open>A concrete event and store, for the witnesses.\<close>

definition sample_event :: statisticsEvent where
  "sample_event = \<lparr>ev_day = 100, ev_model = ''m'', ev_application = ''a'', ev_counters = replicate 19 2\<rparr>"

definition sample_rows :: "(row_key \<times> int list) list" where
  "sample_rows = [((100, ''m'', ''a''), replicate 19 sqlMax)]"

lemma sample_ok: "events_ok [sample_event]" "rows_ok sample_rows" "rows_ok []"
  by (auto simp: events_ok_def sample_event_def sample_rows_def rows_ok_def wf_map_def sqlMax_def
      split: if_splits)

definition sample_store :: store where
  "sample_store = \<lparr>db_daily = sample_rows, db_health = [], db_clean = False, db_since = 90\<rparr>"

definition sample_statistics :: statistics where
  "sample_statistics = \<lparr>st_retention = 30, st_db = Some sample_store, st_queue = [sample_event],
     st_capacity = 4, st_closed = False, st_done = False, st_dropped = 0, st_pending = 1,
     st_failed = False, st_persistedDropped = 0, st_maintenanceDay = 100, st_nextHealthAttempt = 0\<rparr>"

lemma sample_batch:
  "is_ok (batch_tx 8640000000000000 sample_statistics [sample_event] False sample_store)"
  by (simp add: batch_tx_def sample_statistics_def sample_store_def expire_def sum_dropped_def sqlMax_def)

theorem batch_totals_witness:
  "\<exists>db' n. batch_tx 8640000000000000 sample_statistics [sample_event] False sample_store = Inr (db', n) \<and>
     daily_value (db_daily db') (100, ''m'', ''a'') 0 = sqlMax"
proof -
  obtain db' n where tx: "batch_tx 8640000000000000 sample_statistics [sample_event] False sample_store = Inr (db', n)"
    using sample_batch by (metis is_ok.elims(2) old.prod.exhaust)
  have "rows_ok (db_daily sample_store)" using sample_ok by (simp add: sample_store_def)
  from batch_totals [OF tx this sample_ok(1), of 0 "(100, ''m'', ''a'')"] tx show ?thesis
    by (simp add: cutoff_day_def day_of_def sample_statistics_def daily_value_def sample_store_def
        sample_rows_def sqlMax_def)
qed

theorem batches_compose_witness:
  "daily_value (foldl upsert_daily (foldl upsert_daily sample_rows (merge_events [sample_event]))
       (merge_events [sample_event])) (100, ''m'', ''a'') 3
   = daily_value (foldl upsert_daily sample_rows (merge_events [sample_event, sample_event])) (100, ''m'', ''a'') 3"
  using batches_compose [OF sample_ok(2,1,1), of 3 "(100, ''m'', ''a'')"] by simp

section \<open>Reading a snapshot\<close>

definition row_counters :: "(row_key \<times> int list) list \<Rightarrow> (row_key \<Rightarrow> 'k) \<Rightarrow> ('k \<times> counters) list" where
  "row_counters rows f = map (\<lambda>(k, v). (f k, map of_int v)) rows"

lemma read_rows_eq:
  "read_rows rows daily models overall = Inr (d, m, ov) \<Longrightarrow>
     d = foldl (\<lambda>t (k, c). add_key t k c) daily (row_counters rows fst) \<and>
     m = foldl (\<lambda>t (k, c). add_key t k c) models (row_counters rows snd) \<and>
     ov = foldl add_counters overall (map (\<lambda>(_, v). map of_int v) rows)"
proof (induction rows daily models overall rule: read_rows.induct)
  case (2 dd mm aa numbers rows daily models overall)
  then show ?case by (auto simp: row_counters_def Let_def split: if_splits)
qed (simp add: row_counters_def)

lemma fold_add_counters:
  assumes "length c = 19" "\<And>d. d \<in> set ds \<Longrightarrow> length d = 19" "i < 19"
  shows "unat (foldl add_counters c ds ! i) = cap (unat (c ! i) + (\<Sum>d\<leftarrow>ds. unat (d ! i)))"
  using assms
proof (induction ds arbitrary: c)
  case Nil
  then show ?case using unat64_bound [of "c ! i"] by simp
next
  case (Cons d ds)
  have "unat (foldl add_counters (add_counters c d) ds ! i)
      = cap (unat (add_counters c d ! i) + (\<Sum>d\<leftarrow>ds. unat (d ! i)))"
    using Cons add_counters_nth [of c d] by simp
  then show ?case
    using add_counters_nth [of c d] Cons.prems by (simp add: unat_saturatingAdd min_def)
qed

definition column_sum :: "(row_key \<times> int list) list \<Rightarrow> (row_key \<Rightarrow> bool) \<Rightarrow> nat \<Rightarrow> nat" where
  "column_sum rows P i = (\<Sum>kv\<leftarrow>rows. if P (fst kv) then nat (snd kv ! i) else 0)"

lemma rows_ok_member:
  assumes "rows_ok rows" "kv \<in> set rows"
  shows "length (snd kv) = 19 \<and> (\<forall>i<19. 0 \<le> snd kv ! i \<and> snd kv ! i \<le> sqlMax)"
  using rows_okD [OF assms(1), of "fst kv" "snd kv"] assms by (simp add: rows_ok_def wf_map_def)

lemma unat_of_sql: "0 \<le> n \<Longrightarrow> n \<le> sqlMax \<Longrightarrow> unat (of_int n :: uint64) = nat n"
  by (simp add: sqlMax_def unsigned_of_int take_bit_int_eq_self)

lemma row_counters_table:
  assumes "\<And>kv. kv \<in> set rows \<Longrightarrow> length (snd kv) = 19"
  shows "table_ok (foldl (\<lambda>t (k, c). add_key t k c) [] (row_counters rows f)) (row_counters rows f)"
proof (rule table_ok_fold)
  fix k c assume "(k, c) \<in> set (row_counters rows f)"
  then show "length c = 19" using assms by (force simp: row_counters_def)
qed

lemma keyed_sum_rows:
  assumes "\<And>kv. kv \<in> set rows \<Longrightarrow> length (snd kv) = 19 \<and> 0 \<le> snd kv ! i \<and> snd kv ! i \<le> sqlMax" "i < 19"
  shows "keyed_sum (row_counters rows f) k i = column_sum rows (\<lambda>k'. f k' = k) i"
  using assms
proof (induction rows)
  case (Cons kv rows)
  then have "length (snd kv) = 19 \<and> 0 \<le> snd kv ! i \<and> snd kv ! i \<le> sqlMax"
    and "keyed_sum (row_counters rows f) k i = column_sum rows (\<lambda>k'. f k' = k) i" by auto
  then show ?case
    using \<open>i < 19\<close> by (cases kv) (simp add: row_counters_def column_sum_def unat_of_sql)
qed (simp add: row_counters_def column_sum_def)

lemma overall_sum_rows:
  assumes "\<And>kv. kv \<in> set rows \<Longrightarrow> length (snd kv) = 19 \<and> 0 \<le> snd kv ! i \<and> snd kv ! i \<le> sqlMax" "i < 19"
  shows "(\<Sum>d\<leftarrow>map (\<lambda>(_, v). map of_int v) rows. unat (d ! i :: uint64)) = column_sum rows (\<lambda>_. True) i"
  using assms
proof (induction rows)
  case (Cons kv rows)
  then have "length (snd kv) = 19 \<and> 0 \<le> snd kv ! i \<and> snd kv ! i \<le> sqlMax"
    and "(\<Sum>d\<leftarrow>map (\<lambda>(_, v). map of_int v) rows. unat (d ! i :: uint64)) = column_sum rows (\<lambda>_. True) i"
    by auto
  then show ?case
    using \<open>i < 19\<close> by (cases kv) (simp add: column_sum_def unat_of_sql)
qed (simp add: column_sum_def)

text \<open>
  the three views of a snapshot agree with the rows they are read from: the overall counters,
  the counters of each day and those of each model and application are the capped sums of the
  matching rows.
\<close>

theorem snapshot_views:
  assumes read: "read_rows rows [] [] zero_counters = Inr (daily, models, overall)"
    and rows: "rows_ok rows" and i: "i < 19"
  shows "unat (overall ! i) = cap (column_sum rows (\<lambda>_. True) i) \<and>
    (\<forall>d c. lookup daily d = Some c \<longrightarrow> unat (c ! i) = cap (column_sum rows (\<lambda>k. fst k = d) i)) \<and>
    (\<forall>m c. lookup models m = Some c \<longrightarrow> unat (c ! i) = cap (column_sum rows (\<lambda>k. snd k = m) i))"
proof -
  have ok: "length (snd kv) = 19 \<and> 0 \<le> snd kv ! i \<and> snd kv ! i \<le> sqlMax" if "kv \<in> set rows" for kv
    using rows_ok_member [OF rows that] i by simp
  have len: "(k, v) \<in> set rows \<Longrightarrow> length v = 19" for k v using ok [of "(k, v)"] by simp
  note eq = read_rows_eq [OF read]
  have daily: "table_ok daily (row_counters rows fst)"
    using row_counters_table [of rows fst] ok eq by simp
  have models: "table_ok models (row_counters rows snd)"
    using row_counters_table [of rows snd] ok eq by simp
  have "unat (overall ! i) = cap (column_sum rows (\<lambda>_. True) i)"
  proof -
    let ?ds = "map (\<lambda>(_, v). map of_int v :: counters) rows"
    have sum: "(\<Sum>d\<leftarrow>?ds. unat (d ! i)) = column_sum rows (\<lambda>_. True) i"
      by (rule overall_sum_rows) (use ok i in auto)
    have "unat (foldl add_counters zero_counters ?ds ! i) = cap (unat (zero_counters ! i) + (\<Sum>d\<leftarrow>?ds. unat (d ! i)))"
      by (rule fold_add_counters) (use len i in auto)
    then show ?thesis unfolding sum using eq i by simp
  qed
  then show ?thesis
    using table_okD [OF daily] table_okD [OF models] keyed_sum_rows [OF ok i] i by metis
qed

lemma sample_read:
  "read_rows sample_rows [] [] zero_counters =
     Inr ([(100, replicate 19 MaxInt64)], [((''m'', ''a''), replicate 19 MaxInt64)], replicate 19 MaxInt64)"
  by (simp add: sample_rows_def sqlMax_def add_key_def add_counters_def zero_counters_def zip_replicate list_ex_iff Let_def)

theorem snapshot_views_witness:
  "unat (replicate 19 MaxInt64 ! 0 :: uint64) = cap (column_sum sample_rows (\<lambda>_. True) 0)"
  using snapshot_views [OF sample_read sample_ok(2), of 0] by simp

section \<open>The queue\<close>

definition pending_ok :: "statistics \<Rightarrow> bool" where
  "pending_ok s \<longleftrightarrow> st_pending s = of_nat (length (st_queue s)) \<and> length (st_queue s) \<le> st_capacity s"

lemma writeBatch_frame:
  "writeBatch now e evs closing s = (err, s') \<Longrightarrow>
     st_pending s' = st_pending s \<and> st_queue s' = st_queue s \<and> st_capacity s' = st_capacity s \<and>
     st_closed s' = st_closed s \<and> st_done s' = st_done s"
  by (auto simp: writeBatch_def split: if_splits option.splits sum.splits)

lemma writeRound_queue:
  assumes "pending_ok s" "\<not> st_done s"
  shows "pending_ok (writeRound now e s) \<and> st_closed (writeRound now e s) = st_closed s \<and>
    st_queue (writeRound now e s) = drop 128 (st_queue s) \<and>
    st_done (writeRound now e s) = (st_closed s \<and> st_queue s = [])"
proof (cases "st_closed s \<and> st_queue s = []")
  case True
  obtain err s' where w: "writeBatch now e [] True s = (err, s')" by fastforce
  from writeBatch_frame [OF w] True assms show ?thesis
    by (cases err) (auto simp: writeRound_def finishStatistics_def w fail_def pending_ok_def)
next
  case False
  let ?s = "s\<lparr>st_queue := drop 128 (st_queue s)\<rparr>" and ?b = "take 128 (st_queue s)"
  obtain err s' where w: "writeBatch now e ?b False ?s = (err, s')" by fastforce
  have "(of_nat (length (st_queue s)) :: uint64) =
      of_nat (length ?b) + of_nat (length (drop 128 (st_queue s)))"
    by (simp only: of_nat_add [symmetric] length_append [symmetric] append_take_drop_id)
  with writeBatch_frame [OF w] False assms show ?thesis
    by (cases err) (auto simp: writeRound_def flush_def w fail_def pending_ok_def Let_def min_def)
qed

text \<open>
  recording never blocks and never loses count. On an open recorder each request either puts
  exactly its own event at the end of the queue, or finds the queue full and raises the count of
  dropped requests by one; in both cases the number of pending requests is the length of the
  queue, which stays within its capacity.
\<close>

theorem record_accounted:
  assumes "has_queue s" "\<not> st_closed s" "pending_ok s"
  shows "\<exists>s'. Record parseTime now r (Some s) = Some s' \<and> pending_ok s' \<and>
    (st_queue s' = st_queue s @ [statisticsEventFromRecord parseTime r now] \<and> st_dropped s' = st_dropped s \<or>
     st_queue s' = st_queue s \<and> length (st_queue s) = st_capacity s \<and> st_dropped s' = st_dropped s + 1)"
  using assms by (auto simp: Record_def pending_ok_def Let_def)

theorem record_accounted_witness:
  "\<exists>s'. Record (\<lambda>_. None) 0 (sample_record ''a'' ''s'') (Some sample_statistics) = Some s' \<and> pending_ok s'"
proof -
  have "has_queue sample_statistics" "\<not> st_closed sample_statistics" "pending_ok sample_statistics"
    by (simp_all add: sample_statistics_def has_queue_def pending_ok_def)
  from record_accounted [OF this] show ?thesis by blast
qed

lemma writeLoop_done: "st_done s \<Longrightarrow> writeLoop rounds s = s"
  by (induction rounds) (auto simp: writeRound_def)

lemma writeLoop_drains:
  assumes "pending_ok s" "st_closed s" "\<not> st_done s" "length (st_queue s) \<le> 128 * n" "n < length rounds"
  shows "st_done (writeLoop rounds s) \<and> st_queue (writeLoop rounds s) = [] \<and> st_pending (writeLoop rounds s) = 0"
  using assms
proof (induction n arbitrary: s rounds)
  case 0
  then obtain now e rest where r: "rounds = (now, e) # rest" by (cases rounds) auto
  from writeRound_queue [OF 0(1,3), of now e] 0 show ?case
    by (auto simp: r writeLoop_done pending_ok_def)
next
  case (Suc n)
  then obtain now e rest where r: "rounds = (now, e) # rest" by (cases rounds) auto
  note round = writeRound_queue [OF Suc.prems(1,3), of now e]
  show ?case
  proof (cases "st_queue s = []")
    case True
    with round Suc.prems show ?thesis by (auto simp: r writeLoop_done pending_ok_def)
  next
    case False
    with round Suc.prems Suc.IH [of "writeRound now e s" rest] show ?thesis by (simp add: r)
  qed
qed

text \<open>
  closing drains. After \<^verbatim>\<open>Close\<close> the writer needs one round per 128 queued events and one more
  to end: given that many rounds, whatever the database answers, the queue is empty, nothing is
  pending and the writer has ended.
\<close>

theorem close_drains:
  assumes "pending_ok s" "\<not> st_done s" "(length (st_queue s) + 127) div 128 < length rounds"
  shows "st_done (fst (Close rounds s)) \<and> st_queue (fst (Close rounds s)) = [] \<and>
         st_pending (fst (Close rounds s)) = 0"
proof -
  have "length (st_queue s) \<le> 128 * ((length (st_queue s) + 127) div 128)"
    by simp
  then show ?thesis
    using writeLoop_drains [of "s\<lparr>st_closed := True\<rparr>" _ rounds] assms
    by (simp add: Close_def Let_def pending_ok_def)
qed

theorem close_drains_witness:
  "st_queue (fst (Close [(0, Some ''disk full''), (1, None)] sample_statistics)) = []"
proof -
  have "pending_ok sample_statistics" "\<not> st_done sample_statistics"
    by (simp_all add: sample_statistics_def pending_ok_def)
  from close_drains [OF this, of "[(0, Some ''disk full''), (1, None)]"] show ?thesis
    by (simp add: sample_statistics_def)
qed

end
