(* ===== verification/Server.thy ===== *)
theory Server
  imports Completion Ledger Statistics Runtime
begin

text \<open>
  The HTTP side of the gateway (\<^verbatim>\<open>internal/gateway/server.go\<close>, \<^verbatim>\<open>auth.go\<close>, \<^verbatim>\<open>statistics_http.go\<close>, the report
  handler of \<^verbatim>\<open>request_reports.go\<close>): authentication, routing, and the life of one chat request from its
  first byte to its record in the ledger and the statistics. What one request does is the list of calls
  that it makes, in order, so that requests may interleave; the outside world (the body that is
  read, the answer of the scheduler, what the reverse proxy meets, the clock) is an argument. Log lines are
  left out.
\<close>

section \<open>Authentication\<close>

record bearerAuth =
  ba_enabled :: bool
  ba_digest :: string

definition newBearerAuth :: "(string \<Rightarrow> string) \<Rightarrow> string \<Rightarrow> string + bearerAuth" where
  "newBearerAuth sha256 k =
     (if k = [] then Inr \<lparr>ba_enabled = False, ba_digest = []\<rparr>
      else case ValidateGatewayKey k of
        Some e \<Rightarrow> Inl e
      | None \<Rightarrow> Inr \<lparr>ba_enabled = True, ba_digest = sha256 k\<rparr>)"

definition equalFold :: "string \<Rightarrow> string \<Rightarrow> bool" where
  "equalFold a b \<longleftrightarrow> map lower_char a = map lower_char b"

definition allow :: "(string \<Rightarrow> string) \<Rightarrow> bearerAuth \<Rightarrow> (string \<Rightarrow> string list) \<Rightarrow> bool" where
  "allow sha256 auth header \<longleftrightarrow>
     \<not> ba_enabled auth \<or>
     (case header ''Authorization'' of
        [v] \<Rightarrow> (case Fields v of
           [scheme, token] \<Rightarrow> equalFold scheme ''Bearer'' \<and> ba_digest auth = sha256 token
         | _ \<Rightarrow> False)
      | _ \<Rightarrow> False)"

section \<open>The server and its routes\<close>

definition MaxRequestBytes :: nat where "MaxRequestBytes = 16777216"
definition QueueLimit :: nat where "QueueLimit = 64"

record server =
  sv_registry :: Registry
  sv_accepting :: bool
  sv_instanceID :: string
  sv_auth :: bearerAuth
  sv_llamaSlots :: int

definition NewServer ::
  "(string \<Rightarrow> string) \<Rightarrow> Registry \<Rightarrow> string \<Rightarrow> int \<Rightarrow> string \<Rightarrow> string + server" where
  "NewServer sha256 registry apiKey slots nonce =
     (let slots = (if slots = 0 then Runtime.DefaultLlamaSlots else slots) in
      if slots < 1 \<or> 64 < slots then Inl ''llama.cpp request slots must be between 1 and 64''
      else if rg_Models registry = [] then Inl ''gateway server requires a scheduler and model inventory''
      else case newBearerAuth sha256 apiKey of
        Inl e \<Rightarrow> Inl e
      | Inr auth \<Rightarrow> Inr \<lparr>sv_registry = registry, sv_accepting = True, sv_instanceID = nonce, sv_auth = auth,
            sv_llamaSlots = slots\<rparr>)"

definition BeginShutdown :: "server \<Rightarrow> server" where
  "BeginShutdown s = s\<lparr>sv_accepting := False\<rparr>"

record http_request =
  hq_Method :: string
  hq_Path :: string
  hq_RawQuery :: string
  hq_ForceQuery :: bool
  hq_Header :: "string \<Rightarrow> string list"
  hq_RemoteAddr :: string
  hq_UserAgent :: string

datatype route = WebAsset | Unauthorized | WebData | HealthRoute | ModelsRoute | StatusRoute | ReportRoute
  | StatisticsRoute | MakiRoute | ChatRoute | NotFoundRoute

definition serveWeb :: "http_request \<Rightarrow> bool" where
  "serveWeb r \<longleftrightarrow> (hq_Method r = ''GET'' \<or> hq_Method r = ''HEAD'') \<and>
     hq_Path r \<in> set [''/'', ''/assets/gateway.css'', ''/assets/gateway.js'']"

definition requestReportPath :: string where "requestReportPath = ''/paracetamol/v1/requests/''"
definition makiConfigPath :: string where "makiConfigPath = ''/paracetamol/v1/clients/maki/''"

definition ServeHTTP :: "(string \<Rightarrow> string) \<Rightarrow> server \<Rightarrow> http_request \<Rightarrow> route" where
  "ServeHTTP sha256 s r =
     (let get = hq_Method r = ''GET''; p = hq_Path r in
      if serveWeb r then WebAsset
      else if \<not> allow sha256 (sv_auth s) (hq_Header r) then Unauthorized
      else if get \<and> p = ''/paracetamol/v1/ui'' then WebData
      else if get \<and> p = ''/health'' then HealthRoute
      else if get \<and> p = ''/v1/models'' then ModelsRoute
      else if get \<and> p = ''/paracetamol/v1/status'' then StatusRoute
      else if get \<and> hasPrefix p requestReportPath then ReportRoute
      else if get \<and> p = ''/paracetamol/v1/statistics'' then StatisticsRoute
      else if get \<and> (p = makiConfigPath @ ''providers.toml'' \<or> p = makiConfigPath @ ''init.lua'') then MakiRoute
      else if hq_Method r = ''POST'' \<and> p = ''/v1/chat/completions'' then ChatRoute
      else NotFoundRoute)"

record api_error =
  ap_status :: int
  ap_kind :: string
  ap_code :: string
  ap_message :: string

definition writeAPIError :: "int \<Rightarrow> string \<Rightarrow> string \<Rightarrow> string \<Rightarrow> api_error" where
  "writeAPIError status kind c message =
     \<lparr>ap_status = status, ap_kind = kind, ap_code = c, ap_message = message\<rparr>"

definition health :: "server \<Rightarrow> int \<times> string" where
  "health s = (if sv_accepting s then (200, ''ok'') else (503, ''shutting_down''))"

definition models :: "server \<Rightarrow> string list" where
  "models s = map mo_ID (rg_Models (sv_registry s))"

text \<open>\<open>query\<close> stands for \<^verbatim>\<open>url.ParseQuery\<close>.\<close>

definition recentRequestLimit :: "(string \<Rightarrow> string list table option) \<Rightarrow> string \<Rightarrow> string + int" where
  "recentRequestLimit query rawQuery =
     (if rawQuery = [] then Inr 0
      else case query rawQuery of
        Some [(k, [v])] \<Rightarrow>
          (if k \<noteq> ''requests'' then Inl ''status accepts only one requests query parameter''
           else case parseInt64 v of
             Some n \<Rightarrow> (if n < 1 \<or> int RecentRequestLimit < n then Inl ''requests must be from 1 through 64'' else Inr n)
           | None \<Rightarrow> Inl ''requests must be from 1 through 64'')
      | _ \<Rightarrow> Inl ''status accepts only one requests query parameter'')"

definition statisticsDays :: "(string \<Rightarrow> string list table option) \<Rightarrow> string \<Rightarrow> string + int" where
  "statisticsDays query rawQuery =
     (case query rawQuery of
        None \<Rightarrow> Inl ''statistics query is invalid''
      | Some vs \<Rightarrow>
          (if list_ex (\<lambda>(k, items). k \<noteq> ''days'' \<or> length items \<noteq> 1) vs
           then Inl ''only one days parameter is supported''
           else if vs = [] then Inr 7
           else (let v = hd (snd (hd vs)) in
             if v = ''1'' then Inr 1 else if v = ''7'' then Inr 7 else if v = ''30'' then Inr 30
             else Inl ''days must be 1, 7, or 30'')))"

definition not_retained :: api_error where
  "not_retained = writeAPIError 404 ''not_found_error'' ''request_not_retained''
     (''Request report is not retained; it may be unknown, expired, from another gateway instance, '' @
      ''or outside the bounded active cache'')"

definition requestReport :: "server \<Rightarrow> requestLedger \<Rightarrow> http_request \<Rightarrow> api_error + report" where
  "requestReport s ledger r =
     (let i = trimPrefix (hq_Path r) requestReportPath in
      if hq_RawQuery r \<noteq> [] \<or> hq_ForceQuery r \<or> \<not> validRequestReportID i
      then Inl (writeAPIError 400 ''invalid_request_error'' ''invalid_request_report''
             ''Request reports require one canonical request ID and no query parameters'')
      else if take 32 (drop 1 i) \<noteq> sv_instanceID s then Inl not_retained
      else case Ledger.Lookup ledger i of NotRetained \<Rightarrow> Inl not_retained | report \<Rightarrow> Inr report)"

section \<open>One chat request\<close>

text \<open>Moments are nanoseconds; the zero time is \<^const>\<open>None\<close>. A duration saturates.\<close>

definition elapsedMilliseconds :: "int option \<Rightarrow> int option \<Rightarrow> int64" where
  "elapsedMilliseconds since til = (case (since, til) of
     (Some a, Some b) \<Rightarrow> (if b < a then 0 else of_int (min (b - a) (2 ^ 63 - 1) div 1000000))
   | _ \<Rightarrow> 0)"

text \<open>
  What the reverse proxy meets: a response with its content type and body, an error (with the state
  of the client's context at that time), an aborted stream; the status that it wrote and whether the
  client was gone at the end.
\<close>

record proxy_run =
  px_response :: "(string \<times> string list) option"
  px_error :: "(gerror \<times> bool) option"
  px_aborted :: bool
  px_status :: int
  px_canceled :: bool

record chat_world =
  cw_env :: request_env
  cw_parse :: "string \<Rightarrow> document"
  cw_mediaType :: "string \<Rightarrow> string option"
  cw_time :: "int \<Rightarrow> string"
  cw_started :: int
  cw_waitStarted :: int
  cw_waitFinished :: int
  cw_upstreamStarted :: int
  cw_upstreamFinished :: int
  cw_finished :: int
  cw_outputAt :: "nat \<Rightarrow> int"
  cw_body :: "bool + string"
  cw_acquire :: "gerror + string"
  cw_proxy :: proxy_run

datatype chat_action =
    TrackCall RequestRecord string
  | UntrackCall string
  | ErrorResponse api_error
  | AcquireCall string
  | ForwardCall string document "string \<Rightarrow> string list"
  | FailCall gerror
  | ReleaseCall
  | AddCall RequestRecord
  | StatsCall RequestRecord
  | Abort

definition isEventStream :: "(string \<Rightarrow> string option) \<Rightarrow> string \<Rightarrow> bool" where
  "isEventStream mediaType contentType =
     (case mediaType contentType of Some t \<Rightarrow> equalFold t ''text/event-stream'' | None \<Rightarrow> False)"

definition request_id :: "server \<Rightarrow> nat \<Rightarrow> string" where
  "request_id s n = CHR ''r'' # sv_instanceID s @ ''-'' @ hex_digits 16 n"

definition no_completion :: CompletionMetadata where
  "no_completion = \<lparr>cm_Observation = CompletionUnavailable, cm_FinishReasons = [], cm_StreamDone = None\<rparr>"

definition first_record :: "server \<Rightarrow> http_request \<Rightarrow> nat \<Rightarrow> chat_world \<Rightarrow> RequestRecord" where
  "first_record s r n w =
     \<lparr>rr_ID = request_id s n, rr_SessionID = requestSessionID (hq_Header r), rr_Model = [], rr_Application = [],
      rr_Peer = requestPeer (re_Cf (cw_env w)) (hq_RemoteAddr r),
      rr_UserAgent = boundedText (re_Cf (cw_env w)) (hq_UserAgent r) maxObservedTextRunes,
      rr_Stream = False, rr_Outcome = OutcomeOther [], rr_HTTPStatus = 0, rr_StartedAt = cw_time w (cw_started w),
      rr_FinishedAt = [],
      rr_Timing = \<lparr>rt_GatewayWait = 0, rt_Upstream = 0, rt_Total = 0, rt_FirstOutput = None\<rparr>,
      rr_Tokens = no_tokens, rr_BackendTimings = no_timings,
      rr_Controls = \<lparr>rc_SamplingPolicy = [], rc_SamplingMode = [], rc_Reasoning = [], rc_Sampling = [], rc_Diagnostics = []\<rparr>,
      rr_Completion = no_completion\<rparr>"

definition finished_record :: "chat_world \<Rightarrow> int option \<Rightarrow> int option \<Rightarrow> RequestRecord \<Rightarrow> RequestRecord" where
  "finished_record w waitStarted waitFinished r =
     (let timing = (rr_Timing r)\<lparr>rt_Total := elapsedMilliseconds (Some (cw_started w)) (Some (cw_finished w))\<rparr>;
          timing = (if waitStarted \<noteq> None \<and> waitFinished \<noteq> None
            then timing\<lparr>rt_GatewayWait := elapsedMilliseconds waitStarted waitFinished\<rparr> else timing) in
      r\<lparr>rr_FinishedAt := cw_time w (cw_finished w), rr_Timing := timing\<rparr>)"

definition completeRequest ::
  "server \<Rightarrow> chat_world \<Rightarrow> int option \<Rightarrow> int option \<Rightarrow> RequestRecord \<Rightarrow> chat_action list" where
  "completeRequest s w waitStarted waitFinished r =
     (let r = finished_record w waitStarted waitFinished r in
      AddCall r #
      (case TextModel.Lookup (sv_registry s) (rr_Model r) of
         Some model \<Rightarrow> [StatsCall (r\<lparr>rr_Model := mo_ID model, rr_Application := mo_Application model\<rparr>)]
       | None \<Rightarrow> []))"

definition reject ::
  "server \<Rightarrow> chat_world \<Rightarrow> int \<Rightarrow> string \<Rightarrow> string \<Rightarrow> string \<Rightarrow> RequestRecord \<Rightarrow> chat_action list" where
  "reject s w status kind c message r =
     ErrorResponse (writeAPIError status kind c message) #
     completeRequest s w None None (r\<lparr>rr_Outcome := OutcomeRejected, rr_HTTPStatus := status\<rparr>)"

text \<open>The part from the lease on; the deferred calls come last.\<close>

definition outgoing_header :: "(string \<Rightarrow> string list) \<Rightarrow> string \<Rightarrow> string list" where
  "outgoing_header header =
     header(SessionIDHeader := [], ''Authorization'' := [], ''Proxy-Authorization'' := [])"

definition observation :: "chat_world \<Rightarrow> responseObservation option" where
  "observation w =
     (case px_response (cw_proxy w) of
        None \<Rightarrow> None
      | Some (contentType, chunks) \<Rightarrow>
          (let stream = isEventStream (cw_mediaType w) contentType;
               ops = response_ops (cw_env w) (cw_parse w) stream in
           Some (Finish (cw_env w) (cw_parse w)
             (foldl (Observe ops) (newResponseObserver stream new_response) chunks))))"

definition handled_error :: "chat_world \<Rightarrow> gerror option" where
  "handled_error w = (case px_error (cw_proxy w) of Some (e, False) \<Rightarrow> Some e | _ \<Rightarrow> None)"

definition proxy_status :: "chat_world \<Rightarrow> int" where
  "proxy_status w =
     (if px_status (cw_proxy w) = 0 \<and> handled_error w \<noteq> None then 502 else px_status (cw_proxy w))"

definition observed_record :: "chat_world \<Rightarrow> RequestRecord \<Rightarrow> RequestRecord" where
  "observed_record w r =
     (case observation w of
        None \<Rightarrow> r
      | Some v \<Rightarrow>
          (let r = r\<lparr>rr_Tokens := rv_Tokens v, rr_BackendTimings := rv_Timings v, rr_Completion := rv_Completion v\<rparr> in
           case rv_FirstOutputAt v of
             Some n \<Rightarrow>
               (if 200 \<le> proxy_status w \<and> proxy_status w < 300
                then r\<lparr>rr_Timing := (rr_Timing r)\<lparr>rt_FirstOutput :=
                       Some (elapsedMilliseconds (Some (cw_started w)) (Some (cw_outputAt w n)))\<rparr>\<rparr>
                else r)
           | None \<Rightarrow> r))"

definition broken_stream :: "chat_world \<Rightarrow> bool" where
  "broken_stream w \<longleftrightarrow> px_aborted (cw_proxy w) \<and> \<not> px_canceled (cw_proxy w)"

definition final_outcome :: "chat_world \<Rightarrow> RequestOutcome" where
  "final_outcome w =
     (if px_canceled (cw_proxy w) then OutcomeCanceled
      else if handled_error w \<noteq> None \<or> broken_stream w \<or> 400 \<le> proxy_status w then OutcomeUpstreamError
      else OutcomeSucceeded)"

definition proxied ::
  "server \<Rightarrow> chat_world \<Rightarrow> http_request \<Rightarrow> document \<Rightarrow> string \<Rightarrow> RequestRecord \<Rightarrow> chat_action list" where
  "proxied s w q body upstream r =
     [TrackCall r ''upstream'', ForwardCall upstream body (outgoing_header (hq_Header q))]
     @ (case handled_error w of
          Some e \<Rightarrow> [FailCall e, ErrorResponse (writeAPIError 502 ''gateway_error'' ''upstream_error''
             ''The selected model backend disconnected'')]
        | None \<Rightarrow> [])
     @ (if broken_stream w then [FailCall (ErrorText ''upstream response stream aborted'')] else [])
     @ completeRequest s w (Some (cw_waitStarted w)) (Some (cw_waitFinished w))
         (let r = observed_record w r in
          r\<lparr>rr_HTTPStatus := proxy_status w, rr_Outcome := final_outcome w,
            rr_Timing := (rr_Timing r)\<lparr>rt_Upstream :=
              elapsedMilliseconds (Some (cw_upstreamStarted w)) (Some (cw_upstreamFinished w))\<rparr>\<rparr>)
     @ (if px_aborted (cw_proxy w) then [Abort] else [])
     @ [ReleaseCall]"

text \<open>\<^verbatim>\<open>errors.Is\<close> looks through wrapped and joined errors.\<close>

fun errorsIs :: "gerror \<Rightarrow> gerror \<Rightarrow> bool" where
  "errorsIs (Wrapped m e) t = (Wrapped m e = t \<or> errorsIs e t)"
| "errorsIs (Joined a b) t = (Joined a b = t \<or> errorsIs a t \<or> errorsIs b t)"
| "errorsIs (BackendCleanup e) t = (BackendCleanup e = t \<or> errorsIs e t)"
| "errorsIs e t = (e = t)"

definition not_acquired :: "server \<Rightarrow> chat_world \<Rightarrow> gerror \<Rightarrow> RequestRecord \<Rightarrow> chat_action list" where
  "not_acquired s w e r =
     (let unavailable = (\<lambda>c message. [ErrorResponse (writeAPIError 503 ''gateway_error'' c message)]);
          done = completeRequest s w (Some (cw_waitStarted w)) (Some (cw_waitFinished w)) in
      if errorsIs e ContextCanceled then done (r\<lparr>rr_Outcome := OutcomeCanceled\<rparr>)
      else if errorsIs e ErrQueueFull
      then unavailable ''gateway_queue_full'' ''Gateway request queue is full''
             @ done (r\<lparr>rr_Outcome := OutcomeQueueFull, rr_HTTPStatus := 503\<rparr>)
      else if errorsIs e ErrShuttingDown
      then unavailable ''gateway_shutting_down'' ''Gateway is shutting down''
             @ done (r\<lparr>rr_Outcome := OutcomeRejected, rr_HTTPStatus := 503\<rparr>)
      else unavailable ''backend_start_failed'' ''The selected model backend could not start''
             @ done (r\<lparr>rr_Outcome := OutcomeBackendStartFailed, rr_HTTPStatus := 503\<rparr>))"

definition admitted ::
  "server \<Rightarrow> chat_world \<Rightarrow> http_request \<Rightarrow> Model \<Rightarrow> document \<Rightarrow> RequestRecord \<Rightarrow> chat_action list" where
  "admitted s w q model body r =
     [TrackCall r ''waiting'', AcquireCall (mo_Backend model)]
     @ (case cw_acquire w of
          Inl e \<Rightarrow> not_acquired s w e r
        | Inr upstream \<Rightarrow> proxied s w q body upstream r)"

definition decoded ::
  "server \<Rightarrow> chat_world \<Rightarrow> http_request \<Rightarrow> document \<Rightarrow> RequestRecord \<Rightarrow> chat_action list" where
  "decoded s w q body r =
     (case inspectRequest (cw_env w) body of
        Inl e \<Rightarrow> reject s w 400 ''invalid_request_error'' ''invalid_model'' (errText e) r
      | Inr seen \<Rightarrow>
          (let r = r\<lparr>rr_Stream := ro_Stream seen, rr_Controls := ro_Controls seen\<rparr> in
           case TextModel.Lookup (sv_registry s) (ro_Model seen) of
             None \<Rightarrow> reject s w 404 ''invalid_request_error'' ''model_not_found'' ''The requested model is not available'' r
           | Some model \<Rightarrow>
               (let r = r\<lparr>rr_Model := mo_ID model, rr_Application := mo_Application model\<rparr> in
                case validateRequestMedia body model of
                  Some e \<Rightarrow> reject s w 400 ''invalid_request_error'' ''invalid_media'' (errText e) r
                | None \<Rightarrow>
                    (case applySamplingDefaults (cw_env w) body model (rr_Controls r) of
                       (Inl e, controls) \<Rightarrow>
                         reject s w 400 ''invalid_request_error'' ''invalid_reasoning_controls'' (errText e)
                           (r\<lparr>rr_Controls := controls\<rparr>)
                     | (Inr body2, controls) \<Rightarrow> admitted s w q model body2 (r\<lparr>rr_Controls := controls\<rparr>)))))"

definition chat :: "server \<Rightarrow> http_request \<Rightarrow> nat \<Rightarrow> chat_world \<Rightarrow> chat_action list" where
  "chat s q n w =
     (let r = first_record s q n w in
      TrackCall r ''receiving'' #
      (if \<not> sv_accepting s
       then reject s w 503 ''gateway_error'' ''gateway_shutting_down'' ''Gateway is shutting down'' r
       else case cw_body w of
         Inl canceled \<Rightarrow>
           (if canceled then completeRequest s w None None (r\<lparr>rr_Outcome := OutcomeCanceled\<rparr>)
            else reject s w 400 ''invalid_request_error'' ''invalid_body'' ''Request body could not be read'' r)
       | Inr bytes \<Rightarrow>
           (if MaxRequestBytes < length bytes
            then reject s w 413 ''invalid_request_error'' ''request_too_large'' ''Request body exceeds the gateway limit'' r
            else decoded s w q (cw_parse w bytes) r))
      @ [UntrackCall (rr_ID r)])"

section \<open>Properties\<close>

text \<open>
  Nothing but the public page is served without the key. For a server with a key (and a digest
  that no other token has), a request is refused exactly if it is not for one of the public assets
  and does not carry, in a single Authorization header, the Bearer scheme with that key; a refused
  request reaches no handler.
\<close>

theorem auth_gate:
  assumes k: "newBearerAuth sha256 k = Inr (sv_auth s)" "k \<noteq> []"
    and digest: "\<And>t. sha256 t = sha256 k \<Longrightarrow> t = k"
  shows "ServeHTTP sha256 s r = Unauthorized \<longleftrightarrow>
    \<not> serveWeb r \<and> \<not> (\<exists>v scheme. hq_Header r ''Authorization'' = [v] \<and> Fields v = [scheme, k] \<and> equalFold scheme ''Bearer'')"
proof -
  have a: "ba_enabled (sv_auth s)" "ba_digest (sv_auth s) = sha256 k"
    using k(1) [symmetric] k(2) by (simp_all add: newBearerAuth_def split: option.splits)
  have "allow sha256 (sv_auth s) (hq_Header r) \<longleftrightarrow>
      (\<exists>v scheme token. hq_Header r ''Authorization'' = [v] \<and> Fields v = [scheme, token] \<and> equalFold scheme ''Bearer'' \<and>
        sha256 k = sha256 token)"
    unfolding allow_def a(2) using a(1) by (auto split: list.splits)
  also have "\<dots> \<longleftrightarrow> (\<exists>v scheme. hq_Header r ''Authorization'' = [v] \<and> Fields v = [scheme, k] \<and> equalFold scheme ''Bearer'')"
    using digest by metis
  finally have "allow sha256 (sv_auth s) (hq_Header r) \<longleftrightarrow> \<dots>" .
  moreover have "ServeHTTP sha256 s r = Unauthorized \<longleftrightarrow> \<not> serveWeb r \<and> \<not> allow sha256 (sv_auth s) (hq_Header r)"
    unfolding ServeHTTP_def Let_def
    by (cases "serveWeb r"; cases "allow sha256 (sv_auth s) (hq_Header r)") (simp_all split: if_split)
  ultimately show ?thesis by simp
qed

subsection \<open>What a request leaves behind\<close>

definition records :: "chat_action list \<Rightarrow> RequestRecord list" where
  "records acts = concat (map (\<lambda>a. case a of AddCall r \<Rightarrow> [r] | _ \<Rightarrow> []) acts)"

definition persisted :: "chat_action list \<Rightarrow> RequestRecord list" where
  "persisted acts = concat (map (\<lambda>a. case a of StatsCall r \<Rightarrow> [r] | _ \<Rightarrow> []) acts)"

definition forwards :: "chat_action list \<Rightarrow> (string \<times> document \<times> (string \<Rightarrow> string list)) list" where
  "forwards acts = concat (map (\<lambda>a. case a of ForwardCall u b h \<Rightarrow> [(u, b, h)] | _ \<Rightarrow> []) acts)"

definition errors :: "chat_action list \<Rightarrow> api_error list" where
  "errors acts = concat (map (\<lambda>a. case a of ErrorResponse e \<Rightarrow> [e] | _ \<Rightarrow> []) acts)"

definition failures :: "chat_action list \<Rightarrow> gerror list" where
  "failures acts = concat (map (\<lambda>a. case a of FailCall e \<Rightarrow> [e] | _ \<Rightarrow> []) acts)"

definition releases :: "chat_action list \<Rightarrow> nat" where
  "releases acts = count_list acts ReleaseCall"

lemmas views = records_def persisted_def forwards_def errors_def failures_def releases_def

lemma views_append [simp]:
  "records (xs @ ys) = records xs @ records ys" "persisted (xs @ ys) = persisted xs @ persisted ys"
  "forwards (xs @ ys) = forwards xs @ forwards ys" "errors (xs @ ys) = errors xs @ errors ys"
  "failures (xs @ ys) = failures xs @ failures ys" "releases (xs @ ys) = releases xs + releases ys"
  by (simp_all add: views)

definition settled :: "server \<Rightarrow> string \<Rightarrow> bool \<Rightarrow> chat_action list \<Rightarrow> bool" where
  "settled s i held acts \<longleftrightarrow>
     (\<exists>r. records acts = [r] \<and> rr_ID r = i \<and>
        persisted acts = (case TextModel.Lookup (sv_registry s) (rr_Model r) of
          Some model \<Rightarrow> [r\<lparr>rr_Model := mo_ID model, rr_Application := mo_Application model\<rparr>] | None \<Rightarrow> [])) \<and>
     releases acts = (if held then 1 else 0) \<and> length (forwards acts) = (if held then 1 else 0) \<and>
     length (errors acts) \<le> 1 \<and> (\<not> held \<longrightarrow> failures acts = [])"

lemma finished_record_fields [simp]:
  "rr_ID (finished_record w a b r) = rr_ID r" "rr_Model (finished_record w a b r) = rr_Model r"
  "rr_Outcome (finished_record w a b r) = rr_Outcome r"
  by (simp_all add: finished_record_def Let_def)

lemma complete_views:
  "\<exists>r'. records (completeRequest s w a b r) = [r'] \<and> rr_ID r' = rr_ID r \<and> rr_Model r' = rr_Model r \<and>
     rr_Outcome r' = rr_Outcome r \<and>
     persisted (completeRequest s w a b r) = (case TextModel.Lookup (sv_registry s) (rr_Model r') of
          Some model \<Rightarrow> [r'\<lparr>rr_Model := mo_ID model, rr_Application := mo_Application model\<rparr>] | None \<Rightarrow> [])"
  "forwards (completeRequest s w a b r) = []" "errors (completeRequest s w a b r) = []"
  "failures (completeRequest s w a b r) = []" "releases (completeRequest s w a b r) = 0"
  by (cases "TextModel.Lookup (sv_registry s) (rr_Model r)"; simp add: completeRequest_def views Let_def)+

lemma settled_complete:
  "rr_ID r = i \<Longrightarrow> settled s i False (completeRequest s w a b r)"
  using complete_views [of s w a b r] by (auto simp: settled_def)

lemma settled_error:
  assumes "settled s i held acts" "errors acts = []"
  shows "settled s i held (ErrorResponse e # acts)"
  using assms by (simp add: settled_def views)

lemma settled_reject: "rr_ID r = i \<Longrightarrow> settled s i False (reject s w st k c m r)"
  unfolding reject_def by (rule settled_error) (simp_all add: settled_complete complete_views)

lemma settled_not_acquired: "rr_ID r = i \<Longrightarrow> settled s i False (not_acquired s w e r)"
  unfolding not_acquired_def Let_def
  by (simp add: settled_complete settled_error complete_views)

lemma observed_record_ID [simp]: "rr_ID (observed_record w r) = rr_ID r" "rr_Model (observed_record w r) = rr_Model r"
  by (simp_all add: observed_record_def Let_def split: option.splits)

lemma settled_proxied:
  assumes "rr_ID r = i"
  shows "settled s i True (proxied s w q body u r)"
proof -
  let ?r = "let r = observed_record w r in
          r\<lparr>rr_HTTPStatus := proxy_status w, rr_Outcome := final_outcome w,
            rr_Timing := (rr_Timing r)\<lparr>rt_Upstream :=
              elapsedMilliseconds (Some (cw_upstreamStarted w)) (Some (cw_upstreamFinished w))\<rparr>\<rparr>"
  let ?c = "completeRequest s w (Some (cw_waitStarted w)) (Some (cw_waitFinished w)) ?r"
  have "settled s i False ?c" by (rule settled_complete) (simp add: Let_def assms)
  then show ?thesis
    unfolding proxied_def settled_def views_append complete_views
    by (simp add: views split: option.splits)
qed

lemma settled_track: "settled s i held (TrackCall r p # acts) = settled s i held acts"
  "settled s i held (AcquireCall a # acts) = settled s i held acts"
  "settled s i held (acts @ [UntrackCall j]) = settled s i held acts"
  by (simp_all add: settled_def views)

lemma settled_admitted: "rr_ID r = i \<Longrightarrow> settled s i (\<not> isl (cw_acquire w)) (admitted s w q model body r)"
  by (cases "cw_acquire w") (simp_all add: admitted_def settled_track settled_not_acquired settled_proxied)

text \<open>The request asked for a lease and got one.\<close>

definition got_lease :: "chat_world \<Rightarrow> chat_action list \<Rightarrow> bool" where
  "got_lease w acts \<longleftrightarrow> list_ex (\<lambda>a. case a of AcquireCall _ \<Rightarrow> True | _ \<Rightarrow> False) acts \<and> \<not> isl (cw_acquire w)"

lemma got_lease_append [simp]: "got_lease w (xs @ ys) \<longleftrightarrow> got_lease w xs \<or> got_lease w ys"
  by (auto simp: got_lease_def)

lemma got_lease_track [simp]:
  "got_lease w (TrackCall r p # acts) = got_lease w acts" "got_lease w [UntrackCall j] = False"
  "got_lease w (ErrorResponse e # acts) = got_lease w acts"
  "got_lease w (AcquireCall a # acts) \<longleftrightarrow> \<not> isl (cw_acquire w)"
  by (auto simp: got_lease_def)

lemma no_lease_complete [simp]: "\<not> got_lease w (completeRequest s w' a b r)"
  by (simp add: got_lease_def completeRequest_def Let_def split: option.splits)

lemma settled_decoded:
  "rr_ID r = i \<Longrightarrow> settled s i (got_lease w (decoded s w q body r)) (decoded s w q body r)"
proof -
  assume i: "rr_ID r = i"
  have rej: "settled s i (got_lease w (reject s w st k c m r')) (reject s w st k c m r')" if "rr_ID r' = i" for st k c m r'
    using settled_reject [OF that] by (simp add: reject_def)
  have adm: "settled s i (got_lease w (admitted s w q model b r')) (admitted s w q model b r')" if "rr_ID r' = i" for model b r'
    using settled_admitted [OF that] by (simp add: admitted_def)
  show ?thesis
    unfolding decoded_def Let_def
    by (simp add: i rej adm split: sum.split option.split prod.split)
qed

lemma chat_settled: "settled s (request_id s n) (got_lease w (chat s q n w)) (chat s q n w)"
proof -
  let ?r = "first_record s q n w" and ?i = "request_id s n"
  have i: "rr_ID ?r = ?i" by (simp add: first_record_def)
  have rej: "settled s ?i (got_lease w (reject s w st k c m ?r)) (reject s w st k c m ?r)" for st k c m
    using settled_reject [OF i] by (simp add: reject_def)
  have can: "settled s ?i False (completeRequest s w None None (?r\<lparr>rr_Outcome := OutcomeCanceled\<rparr>))"
    by (rule settled_complete) (simp add: i)
  show ?thesis
    unfolding chat_def Let_def
    by (simp add: settled_track rej can settled_decoded i split: sum.split)
qed

lemma chat_untracked: "last (chat s q n w) = UntrackCall (request_id s n)"
  by (simp add: chat_def Let_def first_record_def)

text \<open>
  C25: Every request is accounted for once, whatever happens to it. A chat request adds exactly one
  record under its own ID and leaves the active table last; it is persisted exactly if its model is
  one of the inventory, under the names of the inventory. A lease that was granted is released
  exactly once and used for exactly one forwarded request; without a lease nothing is forwarded and no
  backend is reported as failed. At most one error response is written.
\<close>

theorem chat_accounted:
  "settled s (request_id s n) (got_lease w (chat s q n w)) (chat s q n w) \<and>
   last (chat s q n w) = UntrackCall (request_id s n)"
  using chat_settled chat_untracked by blast

subsection \<open>What is forwarded\<close>

lemma forwards_simps [simp]:
  "forwards (completeRequest s w a b r) = []" "forwards (reject s w st k c m r) = []"
  "forwards (not_acquired s w e r) = []" "forwards (TrackCall r p # acts) = forwards acts"
  "forwards (AcquireCall x # acts) = forwards acts" "forwards [UntrackCall j] = []"
  "forwards (proxied s w q body u r) = [(u, body, outgoing_header (hq_Header q))]"
proof -
  show c: "forwards (completeRequest s w a b r) = []" for a b r by (rule complete_views(2))
  show "forwards (reject s w st k c m r) = []" using c by (simp add: reject_def views)
  show "forwards (not_acquired s w e r) = []" using c by (simp add: not_acquired_def Let_def) (simp add: views)
  show "forwards (proxied s w q body u r) = [(u, body, outgoing_header (hq_Header q))]"
    unfolding proxied_def views_append c by (cases "handled_error w") (simp_all add: views)
qed (simp_all add: views)

lemma forwards_mem: "(u, b, h) \<in> set (forwards acts) \<longleftrightarrow> ForwardCall u b h \<in> set acts"
  by (induction acts) (auto simp: forwards_def split: chat_action.splits)

lemma forwards_admitted:
  "forwards (admitted s w q model body r) =
     (case cw_acquire w of Inl _ \<Rightarrow> [] | Inr u \<Rightarrow> [(u, body, outgoing_header (hq_Header q))])"
  by (simp add: admitted_def split: sum.split)

lemma forwards_decoded:
  assumes "(u, body2, header) \<in> set (forwards (decoded s w q body r))"
  shows "\<exists>seen model controls controls2. inspectRequest (cw_env w) body = Inr seen \<and>
    TextModel.Lookup (sv_registry s) (ro_Model seen) = Some model \<and> validateRequestMedia body model = None \<and>
    applySamplingDefaults (cw_env w) body model controls = (Inr body2, controls2) \<and>
    cw_acquire w = Inr u \<and> AcquireCall (mo_Backend model) \<in> set (decoded s w q body r) \<and>
    header = outgoing_header (hq_Header q)"
proof -
  obtain seen where i: "inspectRequest (cw_env w) body = Inr seen"
    using assms by (cases "inspectRequest (cw_env w) body") (simp_all add: decoded_def)
  obtain model where l: "TextModel.Lookup (sv_registry s) (ro_Model seen) = Some model"
    using assms i by (cases "TextModel.Lookup (sv_registry s) (ro_Model seen)") (simp_all add: decoded_def)
  have v: "validateRequestMedia body model = None"
    using assms i l by (cases "validateRequestMedia body model") (simp_all add: decoded_def)
  obtain e controls2 where a: "applySamplingDefaults (cw_env w) body model (ro_Controls seen) = (e, controls2)"
    by fastforce
  then show ?thesis
    using assms i l v
    by (cases e; cases "cw_acquire w") (auto simp: decoded_def forwards_admitted admitted_def)
qed

text \<open>
  Only admitted requests reach a backend. If a chat request is forwarded, the server was
  accepting, the body was read within the limit, its model is in the inventory and its media were
  accepted; the body that is forwarded is the result of the sampling policy on it, it goes to the
  backend of the lease that was asked for the model's allocation, and neither the client's
  credentials nor its session ID go with it.
\<close>

theorem only_admitted_forwarded:
  assumes "ForwardCall u body2 header \<in> set (chat s q n w)"
  shows "sv_accepting s \<and> (\<exists>bytes seen model controls controls2.
    cw_body w = Inr bytes \<and> length bytes \<le> MaxRequestBytes \<and>
    inspectRequest (cw_env w) (cw_parse w bytes) = Inr seen \<and>
    TextModel.Lookup (sv_registry s) (ro_Model seen) = Some model \<and>
    validateRequestMedia (cw_parse w bytes) model = None \<and>
    applySamplingDefaults (cw_env w) (cw_parse w bytes) model controls = (Inr body2, controls2) \<and>
    cw_acquire w = Inr u \<and> AcquireCall (mo_Backend model) \<in> set (chat s q n w)) \<and>
    header ''Authorization'' = [] \<and> header ''Proxy-Authorization'' = [] \<and> header SessionIDHeader = []"
proof -
  have f: "(u, body2, header) \<in> set (forwards (chat s q n w))"
    using assms by (simp add: forwards_mem)
  let ?r = "first_record s q n w"
  have acc: "sv_accepting s" using f by (rule contrapos_pp) (simp add: chat_def Let_def)
  obtain bytes where b: "cw_body w = Inr bytes" "length bytes \<le> MaxRequestBytes"
    and d: "(u, body2, header) \<in> set (forwards (decoded s w q (cw_parse w bytes) ?r))"
    using f acc by (cases "cw_body w") (auto simp: chat_def Let_def split: if_splits)
  have sub: "set (decoded s w q (cw_parse w bytes) ?r) \<subseteq> set (chat s q n w)"
    using acc b by (auto simp: chat_def Let_def)
  have "header = outgoing_header (hq_Header q)" using forwards_decoded [OF d] by blast
  moreover have "outgoing_header (hq_Header q) ''Authorization'' = []"
    "outgoing_header (hq_Header q) ''Proxy-Authorization'' = []" "outgoing_header (hq_Header q) SessionIDHeader = []"
    by (simp_all add: outgoing_header_def SessionIDHeader_def)
  ultimately show ?thesis using acc b forwards_decoded [OF d] sub by blast
qed

subsection \<open>The ledger after a request\<close>

definition ledger_call :: "chat_action \<Rightarrow> requestLedger \<Rightarrow> requestLedger" where
  "ledger_call a l = (case a of
     TrackCall r p \<Rightarrow> Track r p l | UntrackCall i \<Rightarrow> Untrack i l | AddCall r \<Rightarrow> Add l r | _ \<Rightarrow> l)"

text \<open>The books without the table of active requests.\<close>

definition same_books :: "requestLedger \<Rightarrow> requestLedger \<Rightarrow> bool" where
  "same_books l m \<longleftrightarrow> l\<lparr>rl_active := []\<rparr> = m\<lparr>rl_active := []\<rparr>"

definition own :: "string \<Rightarrow> chat_action \<Rightarrow> bool" where
  "own i a \<longleftrightarrow> (case a of TrackCall r _ \<Rightarrow> rr_ID r = i | AddCall r \<Rightarrow> rr_ID r = i | UntrackCall j \<Rightarrow> j = i | _ \<Rightarrow> True)"

lemma same_books_track: "same_books (Track r p l) l" "same_books (Untrack i l) l"
  by (simp_all add: same_books_def Track_def Untrack_def Let_def)

lemma addUsage_active: "addUsage r (l\<lparr>rl_active := x\<rparr>) = (addUsage r l)\<lparr>rl_active := x\<rparr>"
  "rl_active (addUsage r l) = rl_active l"
  by (simp_all add: addUsage_def Let_def)

lemma same_books_Add: "same_books l m \<Longrightarrow> same_books (Add l r) (Add m r)"
proof -
  assume "same_books l m"
  then have l: "l = (m\<lparr>rl_active := rl_active l\<rparr>)"
    by (cases l; cases m) (simp add: same_books_def)
  show ?thesis by (subst l) (simp add: same_books_def Add_def Let_def addUsage_active)
qed

lemma same_books_trans: "same_books a b \<Longrightarrow> same_books b c \<Longrightarrow> same_books a c"
  by (simp add: same_books_def)

lemma same_books_refl [simp]: "same_books a a"
  by (simp add: same_books_def)

lemma ledger_calls_books: "same_books (fold ledger_call acts l) (foldl Add l (records acts))"
proof (induction acts rule: rev_induct)
  case (snoc a acts)
  then show ?case
    by (cases a) (auto simp: ledger_call_def records_def intro: same_books_trans [OF same_books_track(1)]
        same_books_trans [OF same_books_track(2)] same_books_Add)
qed (simp add: records_def)

lemma ledger_call_others:
  assumes "own i a" "j \<noteq> i"
  shows "lookup (rl_active (ledger_call a l)) j = lookup (rl_active l) j"
  using assms by (cases a) (simp_all add: own_def ledger_call_def Track_def Untrack_def Add_def Let_def addUsage_active)

lemma ledger_calls_others:
  "list_all (own i) acts \<Longrightarrow> j \<noteq> i \<Longrightarrow> lookup (rl_active (fold ledger_call acts l)) j = lookup (rl_active l) j"
proof (induction acts arbitrary: l)
  case (Cons a acts)
  then show ?case using ledger_call_others [of i a j l] by simp
qed simp

lemma own_complete [simp]: "rr_ID r = i \<Longrightarrow> list_all (own i) (completeRequest s w a b r)"
  by (cases "TextModel.Lookup (sv_registry s) (rr_Model r)") (simp_all add: completeRequest_def Let_def own_def)

lemma own_reject [simp]: "rr_ID r = i \<Longrightarrow> list_all (own i) (reject s w st k c m r)"
  by (simp add: reject_def own_def)

lemma own_not_acquired [simp]: "rr_ID r = i \<Longrightarrow> list_all (own i) (not_acquired s w e r)"
  by (simp add: not_acquired_def Let_def) (simp add: own_def)

lemma own_proxied [simp]: "rr_ID r = i \<Longrightarrow> list_all (own i) (proxied s w q body u r)"
  unfolding proxied_def list_all_append Let_def
  by (cases "handled_error w") (simp_all, simp_all add: own_def)

lemma own_admitted [simp]: "rr_ID r = i \<Longrightarrow> list_all (own i) (admitted s w q model body r)"
  by (cases "cw_acquire w") (simp_all add: admitted_def, simp_all add: own_def)

lemma own_decoded [simp]: "rr_ID r = i \<Longrightarrow> list_all (own i) (decoded s w q body r)"
  by (simp add: decoded_def Let_def split: sum.split option.split prod.split)

lemma own_chat: "list_all (own (request_id s n)) (chat s q n w)"
proof -
  have "rr_ID (first_record s q n w) = request_id s n" by (simp add: first_record_def)
  then show ?thesis
    by (simp add: chat_def Let_def own_def [of _ "TrackCall _ _"] own_def [of _ "UntrackCall _"] split: sum.split)
qed

text \<open>
  A request changes the ledger like one finished record. Whatever its course, the calls of a
  chat request on the ledger leave the totals, the ring of recent requests, the models and the
  sessions as adding its single record does; it is no longer active, and no other active request is
  touched.
\<close>

theorem chat_ledger:
  "\<exists>r. records (chat s q n w) = [r] \<and> rr_ID r = request_id s n \<and>
     same_books (fold ledger_call (chat s q n w) l) (Add l r) \<and>
     (\<forall>j. lookup (rl_active (fold ledger_call (chat s q n w) l)) j =
        (if j = request_id s n then None else lookup (rl_active l) j))"
proof -
  let ?i = "request_id s n" and ?acts = "chat s q n w"
  obtain r where r: "records ?acts = [r]" "rr_ID r = ?i"
    using chat_settled [of s n w q] by (auto simp: settled_def)
  have "?acts \<noteq> []" by (simp add: chat_def Let_def)
  then have "?acts = butlast ?acts @ [UntrackCall ?i]"
    using chat_untracked [of s q n w] append_butlast_last_id by metis
  moreover have "fold ledger_call (xs @ [UntrackCall ?i]) l = Untrack ?i (fold ledger_call xs l)" for xs
    by (simp add: ledger_call_def)
  ultimately have "fold ledger_call ?acts l = Untrack ?i (fold ledger_call (butlast ?acts) l)" by metis
  then have "lookup (rl_active (fold ledger_call ?acts l)) ?i = None" by (simp add: Untrack_def)
  then show ?thesis
    using r ledger_calls_books [of ?acts l] ledger_calls_others [OF own_chat] by auto
qed

section \<open>Witnesses\<close>

definition demo_key :: string where "demo_key = ''0123456789abcdef0123456789abcdef''"

definition demo_server :: server where
  "demo_server = \<lparr>sv_registry = \<lparr>rg_Models = [demo_model\<lparr>mo_SamplingPolicy := []\<rparr>], rg_Fingerprint = [],
       rg_byID = [(''m'', demo_model\<lparr>mo_SamplingPolicy := []\<rparr>)]\<rparr>,
     sv_accepting = True, sv_instanceID = ''0'', sv_auth = \<lparr>ba_enabled = True, ba_digest = demo_key\<rparr>, sv_llamaSlots = 4\<rparr>"

definition demo_request :: http_request where
  "demo_request = \<lparr>hq_Method = ''POST'', hq_Path = ''/v1/chat/completions'', hq_RawQuery = [], hq_ForceQuery = False,
     hq_Header = (\<lambda>n. if n = ''Authorization'' then [''Bearer '' @ demo_key] else []),
     hq_RemoteAddr = ''127.0.0.1:9'', hq_UserAgent = []\<rparr>"

theorem auth_gate_witness:
  "ServeHTTP id demo_server demo_request = Unauthorized \<longleftrightarrow>
    \<not> serveWeb demo_request \<and> \<not> (\<exists>v scheme. hq_Header demo_request ''Authorization'' = [v] \<and>
      Fields v = [scheme, demo_key] \<and> equalFold scheme ''Bearer'')"
proof (rule auth_gate)
  have "ValidateGatewayKey demo_key = None" unfolding demo_key_def by code_simp
  then show "newBearerAuth id demo_key = Inr (sv_auth demo_server)"
    by (simp add: newBearerAuth_def demo_server_def demo_key_def)
  show "demo_key \<noteq> []" by (simp add: demo_key_def)
qed simp

definition demo_doc :: document where "demo_doc = Whole (JObj [(''model'', JStr ''m'')])"

definition demo_world :: chat_world where
  "demo_world = \<lparr>cw_env = demo_request_env, cw_parse = (\<lambda>_. demo_doc), cw_mediaType = (\<lambda>_. None), cw_time = (\<lambda>_. []),
     cw_started = 0, cw_waitStarted = 1, cw_waitFinished = 2, cw_upstreamStarted = 3, cw_upstreamFinished = 4,
     cw_finished = 5, cw_outputAt = (\<lambda>_. 4), cw_body = Inr ''{}'', cw_acquire = Inr ''http://127.0.0.1:1'',
     cw_proxy = \<lparr>px_response = None, px_error = None, px_aborted = False, px_status = 200, px_canceled = False\<rparr>\<rparr>"

lemma demo_seen: "\<exists>seen. inspectRequest demo_request_env demo_doc = Inr seen \<and> ro_Model seen = ''m''"
proof -
  have "trimSpace ''m'' = ''m''" by code_simp
  then show ?thesis
    by (simp add: inspectRequest_def demo_doc_def decodeJSONObject_def object_of_def unmarshal_string_def Let_def
        split: prod.split)
qed

lemma demo_forwarded:
  "ForwardCall ''http://127.0.0.1:1'' demo_doc (outgoing_header (hq_Header demo_request)) \<in> set (chat demo_server demo_request 1 demo_world)"
proof -
  obtain seen where seen: "inspectRequest demo_request_env demo_doc = Inr seen" "ro_Model seen = ''m''"
    using demo_seen by blast
  have media: "validateRequestMedia demo_doc m = None" for m
    by (simp add: validateRequestMedia_def demo_doc_def decodeJSONObject_def object_of_def unmarshal_list_def)
  have "forwards (chat demo_server demo_request 1 demo_world) =
      [(''http://127.0.0.1:1'', demo_doc, outgoing_header (hq_Header demo_request))]"
    by (simp add: chat_def Let_def demo_server_def demo_world_def MaxRequestBytes_def decoded_def seen TextModel.Lookup_def
        media applySamplingDefaults_def forwards_admitted)
  then have "(''http://127.0.0.1:1'', demo_doc, outgoing_header (hq_Header demo_request)) \<in>
      set (forwards (chat demo_server demo_request 1 demo_world))" by simp
  then show ?thesis unfolding forwards_mem .
qed

theorem only_admitted_forwarded_witness:
  "sv_accepting demo_server \<and> outgoing_header (hq_Header demo_request) ''Authorization'' = [] \<and>
   hq_Header demo_request ''Authorization'' \<noteq> []"
  using only_admitted_forwarded [OF demo_forwarded] by (simp add: demo_request_def)

end
