(* ===== verification/ClientConfig.thy ===== *)
theory ClientConfig
  imports Server
begin

text \<open>
  Configuration for a coding client: the provider file and the start script of Maki
  (\<^verbatim>\<open>internal/clientconfig/maki.go\<close>) and the handler that exports them
  (\<^verbatim>\<open>internal/gateway/clientconfig.go\<close>).
\<close>

section \<open>Quoting\<close>

text \<open>\<^verbatim>\<open>json.Marshal\<close> of a string: HTML characters and line separators are escaped, an invalid byte is replaced.\<close>

definition json_rune :: "string \<Rightarrow> string" where
  "json_rune bs =
     (let r = rune_value bs in
      if r = 34 \<or> r = 92 then BS # bs
      else if r = 8 then [BS, CHR ''b'']
      else if r = 12 then [BS, CHR ''f'']
      else if r = 10 then [BS, CHR ''n'']
      else if r = 13 then [BS, CHR ''r'']
      else if r = 9 then [BS, CHR ''t'']
      else if r < 32 \<or> r = 60 \<or> r = 62 \<or> r = 38 \<or> r = 8232 \<or> r = 8233 then BS # CHR ''u'' # hex_digits 4 r
      else bs)"

function json_body :: "string \<Rightarrow> string" where
  "json_body s =
     (if s = [] then []
      else case next_rune s of
        Some bs \<Rightarrow> json_rune bs @ json_body (drop (max 1 (length bs)) s)
      | None \<Rightarrow> BS # ''ufffd'' @ json_body (tl s))"
  by pat_completeness auto
termination by (relation "measure length") auto

declare json_body.simps [simp del]

definition quote :: "string \<Rightarrow> string" where
  "quote v = QT # json_body v @ [QT]"

lemma contains_sub_length: "contains_sub v sub \<Longrightarrow> length sub \<le> length v"
  by (induction v) (auto simp: hasPrefix_def dest: arg_cong [of _ _ length])

function lua_separator :: "string \<Rightarrow> string \<Rightarrow> string" where
  "lua_separator v sep =
     (if contains_sub v ('']'' @ sep @ '']'') then lua_separator v (sep @ ''='') else sep)"
  by pat_completeness auto
termination
proof (relation "measure (\<lambda>(v, sep). Suc (length v) - length sep)", goal_cases)
  case (2 v sep)
  have "length ('']'' @ sep @ '']'') \<le> length v" by (rule contains_sub_length [OF 2])
  then show ?case by simp
qed simp

declare lua_separator.simps [simp del]

definition luaString :: "string \<Rightarrow> string" where
  "luaString v = (let sep = lua_separator v ''='' in ''['' @ sep @ ''['' @ v @ '']'' @ sep @ '']'')"

section \<open>Models of a client\<close>

definition RecommendedModel :: string where
  "RecommendedModel = ''unsloth-qwen3.8-flash-next-125b-a6b-ud-q4-k-xl-dflash2''"

definition preferred_models :: "string list" where
  "preferred_models = [RecommendedModel, ''unsloth-qwen3.8-flash-next-125b-a6b-ud-q4-k-xl'', ''unsloth-qwen3.8-27b-ud-q8-k-xl'']"

definition DefaultModel :: "text_model list \<Rightarrow> string + text_model" where
  "DefaultModel ms =
     (case ms of
        [] \<Rightarrow> Inl ''gateway exposes no model maintained for coding clients''
      | first # _ \<Rightarrow>
          (case List.map_filter (\<lambda>i. find (\<lambda>m. tm_ID m = i) ms) preferred_models of
             m # _ \<Rightarrow> Inr m
           | [] \<Rightarrow> Inr first))"

definition ClientReasoningDefault :: "text_model \<Rightarrow> string" where
  "ClientReasoningDefault m =
     (if (tm_ID m = RecommendedModel \<or> tm_ID m = ''unsloth-qwen3.8-flash-next-125b-a6b-ud-q4-k-xl'')
          \<and> ''xhigh'' \<in> set (ReasoningLevels m)
      then ''xhigh'' else ReasoningDefault m)"

definition thinking_toggle :: "bool \<Rightarrow> json" where
  "thinking_toggle b = JObj [(''chat_template_kwargs'', JObj [(''enable_thinking'', JBool b)])]"

definition MakiThinkingFields :: "text_model \<Rightarrow> json table" where
  "MakiThinkingFields m =
     (if tm_ReasoningControl m = [] then []
      else if tm_ReasoningControl m = ''toggle''
      then (let fs = upsert ''adaptive'' (thinking_toggle True) [] in
        if tm_ReasoningOff m then upsert ''off'' (thinking_toggle False) fs else fs)
      else (let field = ''reasoning_'' @ tm_ReasoningControl m;
                fs = upsert ''adaptive'' (JObj [(field, JStr (ClientReasoningDefault m))]) [];
                fs = foldl (\<lambda>fs level. upsert level (JObj [(field, JStr level)]) fs) fs (tm_ReasoningLevels m) in
        if tm_ReasoningOff m then upsert ''off'' (JObj [(field, JStr ''none'')]) fs else fs))"

text \<open>A value of another kind would panic; none is ever constructed.\<close>

fun inlineValue :: "json \<Rightarrow> string option" where
  "inlineValue (JStr s) = Some (quote s)"
| "inlineValue (JBool b) = Some (if b then ''true'' else ''false'')"
| "inlineValue (JObj kvs) =
     (let parts = map (\<lambda>(k, v). (k, inlineValue v)) kvs in
      if list_all (\<lambda>(k, t). t \<noteq> None) parts
      then Some (''{ '' @ join_with '', '' (map (\<lambda>(k, t). quote k @ '' = '' @ the t) (sort_key fst parts)) @ '' }'')
      else None)"
| "inlineValue _ = None"

record MakiFiles =
  mk_Providers :: string
  mk_Init :: string

definition bool_text :: "bool \<Rightarrow> string" where
  "bool_text b = (if b then ''true'' else ''false'')"

definition unlines :: "string list \<Rightarrow> string" where
  "unlines ls = concat (map (\<lambda>l. l @ [NL]) ls)"

definition thinking_block :: "string \<Rightarrow> text_model \<Rightarrow> string" where
  "thinking_block provider m =
     (let fs = MakiThinkingFields m in
      if fs = [] then []
      else unlines ([[], ''['' @ quote provider @ ''.models.thinking_fields]'']
        @ map (\<lambda>(k, v). quote k @ '' = '' @ (case inlineValue v of Some t \<Rightarrow> t | None \<Rightarrow> [])) (sort_key fst fs)))"

definition model_block :: "string \<Rightarrow> text_model \<Rightarrow> string" where
  "model_block provider m =
     unlines [[], ''[['' @ quote provider @ ''.models]]'', ''id = '' @ quote (tm_ID m), ''tier = '' @ [QT] @ ''medium'' @ [QT],
       ''context_window = '' @ format_int (tm_Context m), ''max_output_tokens = '' @ format_int (tm_MaxOutputTokens m),
       ''supports_thinking = '' @ bool_text (tm_ReasoningControl m \<noteq> []), ''supports_vision = '' @ bool_text (tm_Vision m),
       ''requires_thinking = '' @ bool_text (tm_ReasoningControl m \<noteq> [] \<and> \<not> tm_ReasoningOff m)]
     @ thinking_block provider m"

definition DisplayName :: string where "DisplayName = ''Paracetamol''"

definition Maki :: "url_library \<Rightarrow> text_model list \<Rightarrow> string \<Rightarrow> bool \<Rightarrow> string + MakiFiles" where
  "Maki lib ms endpoint authenticated =
     bind_res (NormalizeGatewayURL lib endpoint) (\<lambda>endpoint.
     let selected = sort_key tm_ID (filter tm_AgentTools ms); provider = StateNamespace in
     bind_res (DefaultModel selected) (\<lambda>defaultModel.
     Inr \<lparr>mk_Providers =
         unlines ([''# Generated by '' @ DisplayName @ ''. Requires Maki 0.6.3 or newer.'',
           ''# Replace this provider block when refreshing, not unrelated providers.'',
           ''['' @ quote provider @ '']'', ''display_name = '' @ quote (DisplayName @ '' gateway''),
           ''protocol = '' @ [QT] @ ''openai'' @ [QT], ''base_url = '' @ quote endpoint, ''discover_models = false'',
           ''default_model = '' @ quote (provider @ ''/'' @ tm_ID defaultModel),
           ''api_key_env = '' @ quote (EnvironmentPrefix @ ''_API_KEY'')]
           @ (if authenticated then [] else
              [''# Maki requires a credential even when this gateway has no authentication.'',
               ''api_key = '' @ [QT] @ ''paracetamol-local'' @ [QT]]))
         @ concat (map (model_block provider) selected),
       mk_Init =
         unlines [''-- Generated by '' @ DisplayName @ ''. Maki 0.6.3 or newer.'',
           ''-- For existing init.lua, merge these fields into its one maki.setup call.'',
           ''-- Other providers and saved model-tier assignments are left alone.'',
           ''maki.setup({'', ''    always_thinking = '' @ [QT] @ ''xhigh'' @ [QT] @ '','',
           ''    provider = {'', ''        default_model = '' @ luaString (provider @ ''/'' @ tm_ID defaultModel) @ '','',
           ''    },'', ''    plugins = {'', ''        task = { max_concurrent = 2 },'', ''    },'', ''})'']\<rparr>))"

section \<open>The export handler\<close>

text \<open>\<open>unspecified\<close> stands for \<^verbatim>\<open>net.ParseIP\<close> giving an address whose \<^verbatim>\<open>IsUnspecified\<close> holds.\<close>

definition clientConfigURL ::
  "url_library \<Rightarrow> (string \<Rightarrow> string list table option) \<Rightarrow> (string \<Rightarrow> bool) \<Rightarrow> bool \<Rightarrow> string \<Rightarrow> string \<Rightarrow> string + string" where
  "clientConfigURL lib query unspecified tls host rawQuery =
     bind_res
       (case query rawQuery of
          None \<Rightarrow> Inl ''configuration export accepts only one optional base_url''
        | Some q \<Rightarrow>
            (let vs = (case lookup q ''base_url'' of Some vs \<Rightarrow> vs | None \<Rightarrow> []) in
             if 1 < length q \<or> 1 < length vs then Inl ''configuration export accepts only one optional base_url''
             else if q \<noteq> []
             then (if length vs \<noteq> 1 \<or> hd vs = []
                   then Inl ''configuration export accepts only a non-empty base_url'' else Inr (hd vs))
             else if list_ex (\<lambda>c. c \<in> set ''/?#@'' \<or> c = BS) host then Inl ''invalid gateway request authority''
             else Inr ((if tls then ''https'' else ''http'') @ ''://'' @ host @ ''/v1'')))
       (\<lambda>endpoint. bind_res (NormalizeGatewayURL lib endpoint) (\<lambda>endpoint.
          case url_Parse lib endpoint of
            Some u \<Rightarrow> (if unspecified (url_Hostname u)
              then Inl ''use a client-reachable address, not an unspecified bind address'' else Inr endpoint)
          | None \<Rightarrow> Inr endpoint))"

definition clientModel :: "Model \<Rightarrow> text_model" where
  "clientModel m = \<lparr>tm_ID = mo_ID m, tm_Backend = [], tm_Bundle = [], tm_Context = mo_Context m,
     tm_MaxOutputTokens = mo_MaxOutputTokens m, tm_AgentTools = mo_AgentTools m, tm_Vision = mo_Vision m,
     tm_ReasoningControl = mo_ReasoningControl m, tm_ReasoningLevels = mo_ReasoningLevels m,
     tm_ReasoningDefault = mo_ReasoningDefault m, tm_ReasoningOff = mo_ReasoningOff m, tm_SamplingPolicy = []\<rparr>"

definition clientModels :: "server \<Rightarrow> text_model list" where
  "clientModels s = map clientModel (rg_Models (sv_registry s))"

definition makiConfig ::
  "url_library \<Rightarrow> (string \<Rightarrow> string list table option) \<Rightarrow> (string \<Rightarrow> bool) \<Rightarrow> bool \<Rightarrow> string \<Rightarrow> server \<Rightarrow> http_request
     \<Rightarrow> api_error + string" where
  "makiConfig lib query unspecified tls host s r =
     (case clientConfigURL lib query unspecified tls host (hq_RawQuery r) of
        Inl e \<Rightarrow> Inl (writeAPIError 400 ''invalid_request_error'' ''invalid_base_url'' e)
      | Inr endpoint \<Rightarrow>
          (case Maki lib (clientModels s) endpoint (ba_enabled (sv_auth s)) of
             Inl e \<Rightarrow> Inl (writeAPIError 409 ''gateway_error'' ''no_client_models'' e)
           | Inr files \<Rightarrow>
               Inr (if hq_Path r = makiConfigPath @ ''providers.toml'' then mk_Providers files else mk_Init files)))"

section \<open>Properties\<close>

text \<open>The exported controls, as the client sends them: each is one object of request fds.\<close>

lemma lookup_levels:
  "lookup (foldl (\<lambda>fs level. upsert level (f level) fs) fs levels) k =
     (if k \<in> set levels then Some (f k) else lookup fs k)"
  by (induction levels arbitrary: fs) auto

lemma toggle_fields:
  assumes "tm_ReasoningControl m = ''toggle''"
  shows "lookup (MakiThinkingFields m) k =
    (if k = ''off'' \<and> tm_ReasoningOff m then Some (thinking_toggle False)
     else if k = ''adaptive'' then Some (thinking_toggle True) else None)"
  using assms by (simp add: MakiThinkingFields_def Let_def)

lemma effort_fields:
  assumes "tm_ReasoningControl m = ''effort''"
  shows "lookup (MakiThinkingFields m) k =
    (if k = ''off'' \<and> tm_ReasoningOff m then Some (JObj [(''reasoning_effort'', JStr ''none'')])
     else if k \<in> set (tm_ReasoningLevels m) then Some (JObj [(''reasoning_effort'', JStr k)])
     else if k = ''adaptive'' then Some (JObj [(''reasoning_effort'', JStr (ClientReasoningDefault m))]) else None)"
  using assms by (simp add: MakiThinkingFields_def lookup_levels Let_def)

lemma ClientReasoningDefault_level:
  assumes "tm_ReasoningControl m = ''effort''" "tm_ReasoningDefault m \<in> set (tm_ReasoningLevels m)"
  shows "ClientReasoningDefault m \<in> set (tm_ReasoningLevels m)"
  using assms by (auto simp: ClientReasoningDefault_def ReasoningLevels_def ReasoningDefault_def Let_def split: if_splits)

lemma lookup_request:
  assumes "k \<notin> fst ` set kvs"
  shows "lookup (object_of (kvs @ fds)) k = lookup (rev fds) k"
  using assms by (simp add: lookup_object_of map_add_def map_of_eq_None_iff [THEN iffD2] split: option.splits)

lemma clientModel_fields [simp]:
  "tm_ReasoningControl (clientModel m) = mo_ReasoningControl m" "tm_ReasoningLevels (clientModel m) = mo_ReasoningLevels m"
  "tm_ReasoningDefault (clientModel m) = mo_ReasoningDefault m" "tm_ReasoningOff (clientModel m) = mo_ReasoningOff m"
  "tm_ID (clientModel m) = mo_ID m" "tm_AgentTools (clientModel m) = mo_AgentTools m"
  by (simp_all add: clientModel_def)

lemma toggle_accepted:
  assumes "fst ` set kvs \<inter> {''reasoning_effort'', ''chat_template_kwargs''} = {}" "b \<or> mo_ReasoningOff m"
  shows "requestThinking (object_of (kvs @ [(''chat_template_kwargs'', JObj [(''enable_thinking'', JBool b)])])) m = Inr b"
proof -
  let ?o = "object_of (kvs @ [(''chat_template_kwargs'', JObj [(''enable_thinking'', JBool b)])])"
  have "''reasoning_effort'' \<notin> fst ` set kvs" "''chat_template_kwargs'' \<notin> fst ` set kvs" using assms(1) by auto
  then have l: "lookup ?o ''reasoning_effort'' = None"
      "lookup ?o ''chat_template_kwargs'' = Some (JObj [(''enable_thinking'', JBool b)])"
    by (simp_all add: lookup_request)
  have k: "object_of [(''enable_thinking'', JBool b)] = [(''enable_thinking'', JBool b)]" by (simp add: object_of_def)
  show ?thesis using assms(2)
    by (simp add: requestThinking_def l selectEffort_def kwargs_thinking_def policyObject_def
        k selectBool_def isJSONNull_def unmarshal_bool_def selectMode_def)
qed

lemma effort_accepted:
  assumes "fst ` set kvs \<inter> {''reasoning_effort'', ''chat_template_kwargs''} = {}" "mo_ReasoningControl m = ''effort''"
    and "v = ''none'' \<and> mo_ReasoningOff m \<or> v \<noteq> ''none'' \<and> v \<in> set (mo_ReasoningLevels m)"
  shows "requestThinking (object_of (kvs @ [(''reasoning_effort'', JStr v)])) m = Inr (v \<noteq> ''none'')"
proof -
  have "''reasoning_effort'' \<notin> fst ` set kvs" "''chat_template_kwargs'' \<notin> fst ` set kvs" using assms(1) by auto
  then show ?thesis using assms(2,3)
    by (auto simp: requestThinking_def lookup_request selectEffort_def kwargs_thinking_def
        isJSONNull_def unmarshal_string_def selectMode_def effort_levels_def)
qed

text \<open>
  what the export offers, the gateway understands. For a model with a toggle or with effort
  levels (its default among them, and none of the reserved words a level), every thinking control
  that the exported configuration lists is accepted by the sampling policy when a client sends it as its only
  reasoning control, and selects thinking exactly if it is not the one called off.
\<close>

theorem maki_fields_accepted:
  assumes field: "lookup (MakiThinkingFields (clientModel m)) k = Some (JObj fds)"
    and control: "mo_ReasoningControl m = ''toggle'' \<or> mo_ReasoningControl m = ''effort''"
    and levels: "mo_ReasoningControl m = ''effort'' \<Longrightarrow> mo_ReasoningDefault m \<in> set (mo_ReasoningLevels m)"
      "set (mo_ReasoningLevels m) \<inter> {''off'', ''none''} = {}"
    and others: "fst ` set kvs \<inter> {''reasoning_effort'', ''chat_template_kwargs''} = {}"
  shows "requestThinking (object_of (kvs @ fds)) m = Inr (k \<noteq> ''off'')"
proof (cases "mo_ReasoningControl m = ''toggle''")
  case True
  then have "tm_ReasoningControl (clientModel m) = ''toggle''" by simp
  note f = toggle_fields [OF this, of k]
  show ?thesis
  proof (cases "k = ''off''")
    case True
    with f field have "mo_ReasoningOff m" "fds = [(''chat_template_kwargs'', JObj [(''enable_thinking'', JBool False)])]"
      by (simp_all add: thinking_toggle_def split: if_splits)
    then show ?thesis using toggle_accepted [OF others, of False m] True by simp
  next
    case False
    with f field have "fds = [(''chat_template_kwargs'', JObj [(''enable_thinking'', JBool True)])]"
      by (simp add: thinking_toggle_def split: if_splits)
    then show ?thesis using toggle_accepted [OF others, of True m] False by simp
  qed
next
  case False
  with control have e: "mo_ReasoningControl m = ''effort''" by simp
  then have "tm_ReasoningControl (clientModel m) = ''effort''" by simp
  note f = effort_fields [OF this, of k] and d = ClientReasoningDefault_level [OF this]
  have d: "ClientReasoningDefault (clientModel m) \<in> set (mo_ReasoningLevels m)"
    using d levels(1) [OF e] by simp
  have none: "''none'' \<notin> set (mo_ReasoningLevels m)" "''off'' \<notin> set (mo_ReasoningLevels m)" using levels(2) by auto
  obtain v where v: "fds = [(''reasoning_effort'', JStr v)]" "(v = ''none'') = (k = ''off'')"
      "v = ''none'' \<and> mo_ReasoningOff m \<or> v \<noteq> ''none'' \<and> v \<in> set (mo_ReasoningLevels m)"
  proof (cases "k = ''off''")
    case True
    with f field none show thesis by (intro that [of "''none''"]) (simp_all split: if_splits)
  next
    case False
    show thesis
    proof (cases "k \<in> set (mo_ReasoningLevels m)")
      case True
      with f field none False show thesis by (intro that [of k]) auto
    next
      case notin: False
      with f field False d none show thesis
        by (intro that [of "ClientReasoningDefault (clientModel m)"]) (auto split: if_splits)
    qed
  qed
  from effort_accepted [OF others e v(3)] v(1,2) show ?thesis by simp
qed

lemma maki_demo_field:
  "lookup (MakiThinkingFields (clientModel (demo_model\<lparr>mo_ReasoningControl := ''effort'', mo_ReasoningLevels := [''low'', ''high''],
     mo_ReasoningDefault := ''high'', mo_ReasoningOff := True\<rparr>))) ''off'' = Some (JObj [(''reasoning_effort'', JStr ''none'')])"
  by (simp add: MakiThinkingFields_def Let_def)

theorem maki_fields_accepted_witness:
  "requestThinking (object_of ([(''model'', JStr ''m'')] @ [(''reasoning_effort'', JStr ''none'')]))
     (demo_model\<lparr>mo_ReasoningControl := ''effort'', mo_ReasoningLevels := [''low'', ''high''],
       mo_ReasoningDefault := ''high'', mo_ReasoningOff := True\<rparr>) = Inr False"
  using maki_fields_accepted [OF maki_demo_field, of "[(''model'', JStr ''m'')]"] by simp

subsection \<open>The start script\<close>

text \<open>A long string of Lua: an opening bracket of some level, the text up to the first closing one of that level.\<close>

fun lua_until :: "string \<Rightarrow> string \<Rightarrow> (string \<times> string) option" where
  "lua_until cl [] = None"
| "lua_until cl (c # s) =
     (if hasPrefix (c # s) cl then Some ([], drop (length cl) (c # s))
      else map_option (apfst ((#) c)) (lua_until cl s))"

definition lua_read :: "string \<Rightarrow> (string \<times> string) option" where
  "lua_read s =
     (case s of
        [] \<Rightarrow> None
      | c # r \<Rightarrow>
          (let eqs = takeWhile (\<lambda>c. c = CHR ''='') r in
           case drop (length eqs) r of
             [] \<Rightarrow> None
           | d # body \<Rightarrow>
               (if c \<noteq> CHR ''['' \<or> d \<noteq> CHR ''['' then None
                else lua_until ('']'' @ eqs @ '']'') (if take 1 body = [NL] then tl body else body))))"

lemma no_bracket_contains: "CHR '']'' \<notin> set v \<Longrightarrow> \<not> contains_sub v ('']'' @ s)"
  by (induction v) (auto simp: hasPrefix_def)

lemma lua_until_plain:
  assumes "CHR '']'' \<notin> set v"
  shows "lua_until ('']'' @ e) (v @ ('']'' @ e) @ rest) = Some (v, rest)"
  using assms by (induction v) (auto simp: hasPrefix_def)

text \<open>
  The default model of the exported script is read back: a text without a closing bracket, such as a
  provider with a model identifier, comes back from the Lua reader as it was written.
\<close>

theorem luaString_reads_back:
  assumes "CHR '']'' \<notin> set v" "take 1 v \<noteq> [NL]"
  shows "lua_read (luaString v @ rest) = Some (v, rest)"
proof -
  have sep: "lua_separator v ''='' = ''=''"
    using no_bracket_contains [OF assms(1), of "''=]''"] by (simp add: lua_separator.simps)
  have form: "luaString v @ rest = ''[=['' @ v @ '']=]'' @ rest" by (simp add: luaString_def sep)
  have "lua_until ('']'' @ ''=]'') (v @ ('']'' @ ''=]'') @ rest) = Some (v, rest)"
    by (rule lua_until_plain [OF assms(1)])
  moreover have "take 1 (v @ '']=]'' @ rest) \<noteq> [NL]" using assms(2) by (cases v) simp_all
  ultimately show ?thesis unfolding form lua_read_def Let_def by (simp del: lua_until.simps)
qed

theorem luaString_reads_back_witness: "lua_read (luaString ''paracetamol/m'' @ '','') = Some (''paracetamol/m'', '','')"
  by (rule luaString_reads_back) simp_all

text \<open>The loop looks for the closing bracket in the text alone: a text that ends in most of one is cut short.\<close>

lemma luaString_cut_short: "lua_read (luaString ''a]='') = Some (''a'', ''=]'')"
  by code_simp

end
