(* ===== verification/Residency.thy ===== *)
theory Residency
  imports ClientConfig
begin

text \<open>
  What the gateway reports about its models: the states that the llama.cpp router lists
  (\<^verbatim>\<open>internal/gateway/residency.go\<close>), the status, statistics and page handlers (\<^verbatim>\<open>server.go\<close>,
  \<^verbatim>\<open>statistics_http.go\<close>, \<^verbatim>\<open>web.go\<close>). The answer of the router is an argument.
\<close>

section \<open>States and runtime data\<close>

datatype ModelState = ModelUnloaded | ModelLoading | ModelLoaded | ModelSleeping | ModelFailed | ModelUnknown

record ModelRuntime =
  mr_Context :: "int64 option"
  mr_TrainingContext :: "int64 option"
  mr_Parameters :: "uint64 option"
  mr_ModelBytes :: "uint64 option"
  mr_Quantization :: string

record StatusModel =
  sd_ID :: string
  sd_Application :: string
  sd_ConfiguredContext :: int
  sd_State :: ModelState
  sd_Runtime :: "ModelRuntime option"
  sd_Diagnostic :: string

text \<open>
  \<^verbatim>\<open>strings.ToLower\<close>, up to letters whose lower case is not ASCII: the capital I with a dot and the
  Kelvin sign become an i and a k.
\<close>

fun toLower :: "string \<Rightarrow> string" where
  "toLower [] = []"
| "toLower (c # s) =
     (if code c = 196 \<and> take 1 s = [byte 176] then CHR ''i'' # toLower (drop 1 s)
      else if code c = 226 \<and> take 2 s = [byte 132, byte 170] then CHR ''k'' # toLower (drop 2 s)
      else lower_char c # toLower s)"

definition bool_field :: "string \<Rightarrow> (string \<times> json) list \<Rightarrow> bool option" where
  "bool_field name kvs =
     (let vs = struct_values name kvs in
      if list_all (\<lambda>v. case v of JBool _ \<Rightarrow> True | _ \<Rightarrow> False) vs
      then Some (vs \<noteq> [] \<and> last vs = JBool True) else None)"

text \<open>A field of type \<^verbatim>\<open>json.RawMessage\<close> takes any value, \<^verbatim>\<open>null\<close> included.\<close>

definition raw_field :: "string \<Rightarrow> (string \<times> json) list \<Rightarrow> raw" where
  "raw_field name kvs =
     (case rev (map snd (filter (\<lambda>kv. map lower_char (fst kv) = name) kvs)) of [] \<Rightarrow> None | v # _ \<Rightarrow> Some v)"

definition state_of :: "string \<Rightarrow> ModelState \<times> string" where
  "state_of v =
     (let w = toLower v in
      if w = ''unloaded'' then (ModelUnloaded, [])
      else if w = ''downloading'' \<or> w = ''downloaded'' \<or> w = ''loading'' then (ModelLoading, [])
      else if w = ''loaded'' then (ModelLoaded, [])
      else if w = ''sleeping'' then (ModelSleeping, [])
      else if w = ''failed'' then (ModelFailed, [])
      else (ModelUnknown, ''llama.cpp router returned unsupported model status''))"

definition decodeRouterModelStatus :: "raw \<Rightarrow> ModelState \<times> string" where
  "decodeRouterModelStatus r =
     (let invalid = (ModelUnknown, ''llama.cpp router returned invalid model status'') in
      case Option.bind r element_fields of
        None \<Rightarrow> invalid
      | Some kvs \<Rightarrow>
          (case (string_field ''value'' kvs, bool_field ''failed'' kvs) of
             (Some v, Some failed) \<Rightarrow> (if failed then (ModelFailed, []) else state_of v)
           | _ \<Rightarrow> invalid))"

definition positiveInteger :: "raw \<Rightarrow> int64 option" where
  "positiveInteger r =
     (case firstInteger (case r of Some j \<Rightarrow> [(''value'', j)] | None \<Rightarrow> []) [''value''] of
        Some v \<Rightarrow> (if 0 <s v then Some v else None) | None \<Rightarrow> None)"

definition positiveUnsignedInteger :: "raw \<Rightarrow> uint64 option" where
  "positiveUnsignedInteger r =
     (case r of
        Some (JNum t) \<Rightarrow>
          (if t \<noteq> [] \<and> list_all is_digit t \<and> decimal t < 2 ^ 64 \<and> decimal t \<noteq> 0 then Some (of_int (decimal t)) else None)
      | _ \<Rightarrow> None)"

definition decodeRouterModelRuntime :: "(nat \<Rightarrow> bool) \<Rightarrow> raw \<Rightarrow> ModelRuntime option" where
  "decodeRouterModelRuntime isCf r =
     (case Option.bind r element_fields of
        None \<Rightarrow> None
      | Some kvs \<Rightarrow>
          (let q = (case raw_field ''ftype'' kvs of
                  None \<Rightarrow> []
                | Some j \<Rightarrow> (case (if isJSONNull j then None else unmarshal_string (Some j)) of
                    Some v \<Rightarrow> (if trimSpace v \<noteq> [] then boundedText isCf v maxObservedValueRunes else []) | None \<Rightarrow> []));
               runtime = \<lparr>mr_Context = positiveInteger (raw_field ''n_ctx'' kvs),
                 mr_TrainingContext = positiveInteger (raw_field ''n_ctx_train'' kvs),
                 mr_Parameters = positiveUnsignedInteger (raw_field ''n_params'' kvs),
                 mr_ModelBytes = positiveUnsignedInteger (raw_field ''size'' kvs), mr_Quantization = q\<rparr> in
           if mr_Context runtime = None \<and> mr_TrainingContext runtime = None \<and> mr_Parameters runtime = None \<and>
             mr_ModelBytes runtime = None \<and> mr_Quantization runtime = [] then None else Some runtime))"

section \<open>The probe\<close>

record residency =
  ry_states :: "ModelState table"
  ry_diagnostics :: "string table"
  ry_runtimes :: "ModelRuntime option table"
  ry_seen :: "string list"

definition unknownLlamaResidency :: "Registry \<Rightarrow> string \<Rightarrow> residency" where
  "unknownLlamaResidency registry diagnostic =
     (let is = map mo_ID (filter (\<lambda>m. mo_Backend m = BackendLlamaCPP) (rg_Models registry)) in
      \<lparr>ry_states = map (\<lambda>i. (i, ModelUnknown)) is, ry_diagnostics = map (\<lambda>i. (i, diagnostic)) is,
       ry_runtimes = [], ry_seen = []\<rparr>)"

record listed_model =
  lm_ID :: string
  lm_Status :: raw
  lm_Meta :: raw

definition decode_listed :: "json \<Rightarrow> listed_model option" where
  "decode_listed j =
     Option.bind (element_fields j) (\<lambda>kvs. Option.bind (string_field ''id'' kvs) (\<lambda>i.
     Some \<lparr>lm_ID = i, lm_Status = raw_field ''status'' kvs, lm_Meta = raw_field ''meta'' kvs\<rparr>))"

definition routerModelList :: "document \<Rightarrow> listed_model list option" where
  "routerModelList d =
     (case d of
        Whole j \<Rightarrow> Option.bind (element_fields j) (\<lambda>kvs. Option.bind (list_field ''data'' kvs) (\<lambda>xs. all_some (map decode_listed xs)))
      | _ \<Rightarrow> None)"

definition note_listed :: "(nat \<Rightarrow> bool) \<Rightarrow> Registry \<Rightarrow> listed_model \<Rightarrow> residency \<Rightarrow> residency" where
  "note_listed isCf registry l y =
     (let i = lm_ID l in
      case TextModel.Lookup registry i of
        None \<Rightarrow> y
      | Some model \<Rightarrow>
          (if mo_Backend model \<noteq> BackendLlamaCPP then y
           else if i \<in> set (ry_seen y)
           then y\<lparr>ry_states := upsert i ModelUnknown (ry_states y),
                  ry_diagnostics := upsert i ''llama.cpp router reported the model more than once'' (ry_diagnostics y),
                  ry_runtimes := remove_key i (ry_runtimes y)\<rparr>
           else (case decodeRouterModelStatus (lm_Status l) of
             (state, diagnostic) \<Rightarrow>
               y\<lparr>ry_states := upsert i state (ry_states y), ry_diagnostics := upsert i diagnostic (ry_diagnostics y),
                 ry_runtimes := (if state = ModelLoaded \<or> state = ModelSleeping
                   then upsert i (decodeRouterModelRuntime isCf (lm_Meta l)) (ry_runtimes y) else ry_runtimes y),
                 ry_seen := i # ry_seen y\<rparr>)))"

definition maxResidencyResponseBytes :: nat where "maxResidencyResponseBytes = 2097152"

text \<open>\<open>get\<close> is the answer to the request for the model list: its status, and its body unless reading fails.\<close>

record residency_env =
  re_urls :: url_library
  re_get :: "string \<Rightarrow> (int \<times> string option) option"
  re_document :: "string \<Rightarrow> document"
  re_format :: "nat \<Rightarrow> bool"

definition router_list :: "residency_env \<Rightarrow> string \<Rightarrow> listed_model list option" where
  "router_list ve rawUpstream =
     (case url_Parse (re_urls ve) rawUpstream of
        None \<Rightarrow> None
      | Some u \<Rightarrow>
          (if url_Scheme u \<noteq> ''http'' \<or> url_Host u = [] then None
           else case re_get ve (url_render (re_urls ve) (u\<lparr>url_RawQuery := [], url_Fragment := []\<rparr>) ''/models'') of
             Some (status, Some body) \<Rightarrow>
               (if status < 200 \<or> 300 \<le> status \<or> maxResidencyResponseBytes < length body then None
                else routerModelList (re_document ve body))
           | _ \<Rightarrow> None))"

definition probeLlamaResidency :: "residency_env \<Rightarrow> Registry \<Rightarrow> string \<Rightarrow> residency" where
  "probeLlamaResidency ve registry rawUpstream =
     (let y = unknownLlamaResidency registry ''llama.cpp router model status is unavailable'' in
      case router_list ve rawUpstream of
        None \<Rightarrow> y
      | Some listed \<Rightarrow>
          (let y = fold (note_listed (re_format ve) registry) listed y in
           y\<lparr>ry_diagnostics := foldl (\<lambda>ds i. if i \<in> set (ry_seen y) then ds
                else upsert i ''llama.cpp router did not report this frozen model'' ds)
              (ry_diagnostics y) (map fst (ry_states y))\<rparr>))"

definition new_status :: "Model \<Rightarrow> StatusModel" where
  "new_status m = \<lparr>sd_ID = mo_ID m, sd_Application = mo_Application m, sd_ConfiguredContext = mo_Context m,
     sd_State = ModelUnloaded, sd_Runtime = None, sd_Diagnostic = []\<rparr>"

text \<open>A missing entry of a map is its zero value; every model of the llama.cpp backend has a state.\<close>

definition probed :: "residency \<Rightarrow> StatusModel \<Rightarrow> StatusModel" where
  "probed y s =
     s\<lparr>sd_State := (case lookup (ry_states y) (sd_ID s) of Some st \<Rightarrow> st | None \<Rightarrow> ModelUnknown),
       sd_Diagnostic := (case lookup (ry_diagnostics y) (sd_ID s) of Some d \<Rightarrow> d | None \<Rightarrow> []),
       sd_Runtime := (case lookup (ry_runtimes y) (sd_ID s) of Some r \<Rightarrow> r | None \<Rightarrow> None)\<rparr>"

definition modelStatus :: "residency_env \<Rightarrow> Registry \<Rightarrow> status_reply \<Rightarrow> StatusModel list" where
  "modelStatus ve registry scheduler =
     (if st_allocation scheduler \<noteq> AllocationLlamaCPP then map new_status (rg_Models registry)
      else if st_upstream scheduler = []
      then map (\<lambda>m. if mo_Backend m = BackendLlamaCPP
          then (new_status m)\<lparr>sd_State := ModelUnknown,
            sd_Diagnostic := ''llama.cpp router residency is unavailable while the backend changes state''\<rparr>
          else new_status m) (rg_Models registry)
      else (let y = probeLlamaResidency ve registry (st_upstream scheduler) in
        map (\<lambda>m. if mo_Backend m = BackendLlamaCPP then probed y (new_status m) else new_status m) (rg_Models registry)))"

section \<open>The handlers\<close>

text \<open>\<open>ss_upstream\<close> of the scheduler's status is never written to a client.\<close>

record 'r gateway_status =
  gs_Gateway :: string
  gs_InventoryFingerprint :: string
  gs_StartedAt :: string
  gs_InstanceID :: string
  gs_Applications :: "string list"
  gs_Models :: "StatusModel list"
  gs_Scheduler :: status_reply
  gs_Usage :: UsageSummary
  gs_RecentRequests :: "RequestRecord list"
  gs_Resources :: "'r option"
  gs_AuthenticationEnabled :: bool

definition gateway_state :: "server \<Rightarrow> string" where
  "gateway_state s = (if sv_accepting s then ''ready'' else ''shutting_down'')"

fun first_seen :: "string list \<Rightarrow> string list \<Rightarrow> string list" where
  "first_seen seen [] = []"
| "first_seen seen (a # as) = (if a \<in> set seen then first_seen seen as else a # first_seen (a # seen) as)"

definition masked :: "status_reply \<Rightarrow> status_reply" where
  "masked r = (if st_lastError r \<noteq> [] then r\<lparr>st_lastError := ''backend operation failed; inspect gateway stderr''\<rparr> else r)"

text \<open>\<open>reply\<close> is the answer of the scheduler, with its error if there is one.\<close>

definition status ::
  "residency_env \<Rightarrow> (string \<Rightarrow> string list table option) \<Rightarrow> 'r option \<Rightarrow> string \<Rightarrow> server \<Rightarrow> requestLedger
     \<Rightarrow> status_reply \<times> gerror option \<Rightarrow> http_request \<Rightarrow> api_error + 'r gateway_status" where
  "status ve query resources startedAt s ledger reply r =
     (case recentRequestLimit query (hq_RawQuery r) of
        Inl e \<Rightarrow> Inl (writeAPIError 400 ''invalid_request_error'' ''invalid_requests'' e)
      | Inr limit \<Rightarrow>
          (case reply of (scheduler, err) \<Rightarrow>
             (if (case err of Some e \<Rightarrow> \<not> errorsIs e ErrShuttingDown | None \<Rightarrow> False)
              then Inl (writeAPIError 503 ''gateway_error'' ''status_unavailable'' ''Gateway status is unavailable'')
              else (case Snapshot ledger limit of (recent, summary) \<Rightarrow>
                Inr \<lparr>gs_Gateway = gateway_state s, gs_InventoryFingerprint = rg_Fingerprint (sv_registry s),
                  gs_StartedAt = startedAt, gs_InstanceID = sv_instanceID s,
                  gs_Applications = first_seen [] (map mo_Application (rg_Models (sv_registry s))),
                  gs_Models = modelStatus ve (sv_registry s) (masked scheduler), gs_Scheduler = masked scheduler,
                  gs_Usage = summary, gs_RecentRequests = recent, gs_Resources = resources,
                  gs_AuthenticationEnabled = ba_enabled (sv_auth s)\<rparr>))))"

definition statisticsHandler ::
  "(string \<Rightarrow> string list table option) \<Rightarrow> int \<Rightarrow> bool \<Rightarrow> string option \<Rightarrow> statistics option \<Rightarrow> http_request
     \<Rightarrow> (api_error + StatisticsSnapshot) \<times> statistics option" where
  "statisticsHandler query now ctxDone txError so r =
     (let unavailable = Inl (writeAPIError 503 ''gateway_error'' ''statistics_unavailable'' ''Gateway statistics are unavailable'') in
      case statisticsDays query (hq_RawQuery r) of
        Inl e \<Rightarrow> (Inl (writeAPIError 400 ''invalid_request_error'' ''invalid_days'' e), so)
      | Inr days \<Rightarrow>
          (case statisticsSnapshot now ctxDone txError days so of
             Inl _ \<Rightarrow> (unavailable, so)
           | Inr (so', Some _, _) \<Rightarrow> (unavailable, so')
           | Inr (so', None, snapshot) \<Rightarrow> (Inr snapshot, so')))"

record webModel =
  wm_Model :: Model
  wm_Name :: string
  wm_Family :: string
  wm_Publisher :: string
  wm_State :: ModelState
  wm_Runtime :: "ModelRuntime option"
  wm_MakiReasoningDefault :: string
  wm_RequestSlots :: int

record webSnapshot =
  ws_Gateway :: string
  ws_DefaultModel :: string
  ws_Models :: "webModel list"

definition modelPresentation :: "string \<Rightarrow> string \<times> string \<times> string" where
  "modelPresentation i =
     (let (publisher, name) =
        (case find (\<lambda>p. hasPrefix i (p @ ''-''))
            [''huihui-ai'', ''ggml-org'', ''mradermacher'', ''unsloth'', ''bartowski'', ''tencent'', ''qwen''] of
           Some p \<Rightarrow> (p, trimPrefix i (p @ ''-'')) | None \<Rightarrow> (''Unspecified'', i)) in
      case find (\<lambda>(p, _). hasPrefix name p)
          [(''qwen3.8-flash-next-'', ''Qwen 3.8 Flash-Next''), (''qwen3.8-27b-'', ''Qwen 3.8 27B''),
           (''gemma4-'', ''Gemma 4''), (''qwen3-'', ''Qwen 3'')] of
        Some (p, family) \<Rightarrow>
          (family @ '' '' @ [byte 194, byte 183] @ '' '' @ map (\<lambda>c. if c = CHR ''-'' then CHR '' '' else c) (trimPrefix name p),
           family, publisher)
      | None \<Rightarrow> (i, ''Other models'', publisher))"

definition web_model :: "server \<Rightarrow> Model \<Rightarrow> StatusModel \<Rightarrow> webModel" where
  "web_model s m st =
     (case modelPresentation (mo_ID m) of (name, family, publisher) \<Rightarrow>
        \<lparr>wm_Model = m, wm_Name = name, wm_Family = family, wm_Publisher = publisher, wm_State = sd_State st,
         wm_Runtime = sd_Runtime st,
         wm_MakiReasoningDefault = (if mo_AgentTools m then ClientReasoningDefault (clientModel m) else []),
         wm_RequestSlots = (if mo_Backend m = ''llama-cpp'' then sv_llamaSlots s else 1)\<rparr>)"

definition webData ::
  "residency_env \<Rightarrow> server \<Rightarrow> status_reply \<times> gerror option \<Rightarrow> http_request \<Rightarrow> api_error + webSnapshot" where
  "webData ve s reply r =
     (if hq_RawQuery r \<noteq> []
      then Inl (writeAPIError 400 ''invalid_request_error'' ''invalid_query'' ''Page data does not accept query parameters'')
      else case reply of
        (_, Some _) \<Rightarrow> Inl (writeAPIError 503 ''gateway_error'' ''status_unavailable'' ''Gateway snapshot is unavailable'')
      | (scheduler, None) \<Rightarrow>
          Inr \<lparr>ws_Gateway = gateway_state s,
            ws_DefaultModel = (case DefaultModel (filter tm_AgentTools (clientModels s)) of Inr m \<Rightarrow> tm_ID m | Inl _ \<Rightarrow> []),
            ws_Models = map2 (web_model s) (rg_Models (sv_registry s)) (modelStatus ve (sv_registry s) scheduler)\<rparr>)"

section \<open>Properties\<close>

text \<open>What the entries for one model say, all taken together.\<close>

definition verdict :: "(nat \<Rightarrow> bool) \<Rightarrow> listed_model list \<Rightarrow> ModelState \<times> string \<times> ModelRuntime option" where
  "verdict isCf ls =
     (case ls of
        [] \<Rightarrow> (ModelUnknown, ''llama.cpp router did not report this frozen model'', None)
      | [l] \<Rightarrow>
          (let d = decodeRouterModelStatus (lm_Status l) in
           (fst d, snd d, if fst d = ModelLoaded \<or> fst d = ModelSleeping then decodeRouterModelRuntime isCf (lm_Meta l) else None))
      | _ \<Rightarrow> (ModelUnknown, ''llama.cpp router reported the model more than once'', None))"

definition followed_by :: "(nat \<Rightarrow> bool) \<Rightarrow> string \<Rightarrow> listed_model list \<Rightarrow> residency \<Rightarrow> bool" where
  "followed_by isCf i ls y \<longleftrightarrow>
     (i \<in> set (ry_seen y) \<longleftrightarrow> ls \<noteq> []) \<and> lookup (ry_states y) i = Some (fst (verdict isCf ls)) \<and>
     (ls \<noteq> [] \<longrightarrow> lookup (ry_diagnostics y) i = Some (fst (snd (verdict isCf ls)))) \<and>
     (case lookup (ry_runtimes y) i of Some r \<Rightarrow> r | None \<Rightarrow> None) = snd (snd (verdict isCf ls))"

lemma note_listed_other: "lm_ID l \<noteq> i \<Longrightarrow> followed_by isCf i ls (note_listed isCf registry l y) = followed_by isCf i ls y"
  by (auto simp: note_listed_def followed_by_def Let_def split: option.splits prod.splits)

lemma note_listed_same:
  assumes "TextModel.Lookup registry (lm_ID l) = Some model" "mo_Backend model = BackendLlamaCPP"
    and "followed_by isCf (lm_ID l) ls y"
  shows "followed_by isCf (lm_ID l) (ls @ [l]) (note_listed isCf registry l y)"
proof (cases ls)
  case Nil
  with assms have "lm_ID l \<notin> set (ry_seen y)" "(case lookup (ry_runtimes y) (lm_ID l) of Some r \<Rightarrow> r | None \<Rightarrow> None) = None"
    by (simp_all add: followed_by_def verdict_def)
  with assms(1,2) Nil show ?thesis
    by (auto simp: note_listed_def followed_by_def verdict_def Let_def split: prod.splits)
next
  case (Cons k ks)
  with assms have "lm_ID l \<in> set (ry_seen y)" by (simp add: followed_by_def)
  moreover have "verdict isCf (ls @ [l]) = (ModelUnknown, ''llama.cpp router reported the model more than once'', None)"
    using Cons by (cases ks) (simp_all add: verdict_def)
  ultimately show ?thesis using assms(1,2) Cons by (simp add: note_listed_def followed_by_def Let_def)
qed

lemma note_all:
  assumes "TextModel.Lookup registry i = Some model" "mo_Backend model = BackendLlamaCPP" "followed_by isCf i [] y"
  shows "followed_by isCf i (filter (\<lambda>l. lm_ID l = i) listed) (fold (note_listed isCf registry) listed y)"
proof (induction listed rule: rev_induct)
  case (snoc l listed)
  show ?case
  proof (cases "lm_ID l = i")
    case True
    then show ?thesis using note_listed_same [of registry l model isCf _ _] assms(1,2) snoc by simp
  next
    case False
    then show ?thesis using snoc note_listed_other [OF False] by simp
  qed
qed (use assms(3) in simp)

lemma followed_key: "followed_by isCf i ls y \<Longrightarrow> i \<in> set (map fst (ry_states y))"
proof -
  assume "followed_by isCf i ls y"
  then have "lookup (ry_states y) i = Some (fst (verdict isCf ls))" by (simp add: followed_by_def)
  from map_of_SomeD [OF this] show ?thesis by (force intro: image_eqI)
qed

lemma lookup_mark:
  "lookup (foldl (\<lambda>ds i. if i \<in> S then ds else upsert i d ds) ds is) k =
     (if k \<in> set is \<and> k \<notin> S then Some d else lookup ds k)"
  by (induction "is" arbitrary: ds) auto

lemma lookup_const: "lookup (map ((\<lambda>i. (i, d)) \<circ> f) xs) k = (if k \<in> f ` set xs then Some d else None)"
  by (induction xs) auto

lemma unknown_followed:
  assumes "m \<in> set (rg_Models registry)" "mo_Backend m = BackendLlamaCPP"
  shows "followed_by isCf (mo_ID m) [] (unknownLlamaResidency registry d)"
    and "lookup (ry_diagnostics (unknownLlamaResidency registry d)) (mo_ID m) = Some d"
  using assms by (auto simp: followed_by_def unknownLlamaResidency_def Let_def verdict_def lookup_const)

text \<open>
  C28: the gateway says about a model what the router says, or that it does not know. While the llama.cpp
  backend serves, the status lists the models of the registry in their order; a model's state, diagnostic and
  runtime data are those of its entry in the router's list if the list could be read and has exactly
  one entry for it. With no list, no entry, or several, the state is unknown.
\<close>

theorem residency_verdict:
  assumes serving: "st_allocation scheduler = AllocationLlamaCPP" "st_upstream scheduler \<noteq> []"
    and m: "m \<in> set (rg_Models registry)" "mo_Backend m = BackendLlamaCPP" "TextModel.Lookup registry (mo_ID m) = Some m"
  shows "map sd_ID (modelStatus ve registry scheduler) = map mo_ID (rg_Models registry) \<and>
    (new_status m)\<lparr>
      sd_State := (case router_list ve (st_upstream scheduler) of None \<Rightarrow> ModelUnknown
        | Some listed \<Rightarrow> fst (verdict (re_format ve) (filter (\<lambda>l. lm_ID l = mo_ID m) listed))),
      sd_Diagnostic := (case router_list ve (st_upstream scheduler) of
          None \<Rightarrow> ''llama.cpp router model status is unavailable''
        | Some listed \<Rightarrow> fst (snd (verdict (re_format ve) (filter (\<lambda>l. lm_ID l = mo_ID m) listed)))),
      sd_Runtime := (case router_list ve (st_upstream scheduler) of None \<Rightarrow> None
        | Some listed \<Rightarrow> snd (snd (verdict (re_format ve) (filter (\<lambda>l. lm_ID l = mo_ID m) listed))))\<rparr>
      \<in> set (modelStatus ve registry scheduler)"
proof -
  let ?u = "unknownLlamaResidency registry ''llama.cpp router model status is unavailable''"
  let ?y = "probeLlamaResidency ve registry (st_upstream scheduler)"
  note start = unknown_followed [OF m(1,2)]
  have "probed ?y (new_status m) \<in> set (modelStatus ve registry scheduler)"
    using serving m by (auto simp: modelStatus_def Let_def)
  moreover have "map sd_ID (modelStatus ve registry scheduler) = map mo_ID (rg_Models registry)"
    using serving by (simp add: modelStatus_def Let_def probed_def new_status_def)
  moreover have "probed ?y (new_status m) = (new_status m)\<lparr>
      sd_State := (case router_list ve (st_upstream scheduler) of None \<Rightarrow> ModelUnknown
        | Some listed \<Rightarrow> fst (verdict (re_format ve) (filter (\<lambda>l. lm_ID l = mo_ID m) listed))),
      sd_Diagnostic := (case router_list ve (st_upstream scheduler) of
          None \<Rightarrow> ''llama.cpp router model status is unavailable''
        | Some listed \<Rightarrow> fst (snd (verdict (re_format ve) (filter (\<lambda>l. lm_ID l = mo_ID m) listed)))),
      sd_Runtime := (case router_list ve (st_upstream scheduler) of None \<Rightarrow> None
        | Some listed \<Rightarrow> snd (snd (verdict (re_format ve) (filter (\<lambda>l. lm_ID l = mo_ID m) listed))))\<rparr>"
  proof (cases "router_list ve (st_upstream scheduler)")
    case None
    then show ?thesis using start
      by (simp add: probeLlamaResidency_def Let_def probed_def new_status_def followed_by_def verdict_def)
  next
    case (Some listed)
    let ?ls = "filter (\<lambda>l. lm_ID l = mo_ID m) listed" and ?n = "fold (note_listed (re_format ve) registry) listed ?u"
    have f: "followed_by (re_format ve) (mo_ID m) ?ls ?n" by (rule note_all [OF m(3,2) start(1)])
    then have key: "mo_ID m \<in> set (map fst (ry_states ?n))"
      by (rule followed_key)
    have "lookup (ry_diagnostics ?y) (mo_ID m) = Some (fst (snd (verdict (re_format ve) ?ls)))"
      using f key Some unfolding followed_by_def
      by (cases "?ls = []") (simp_all add: probeLlamaResidency_def Let_def lookup_mark verdict_def)
    with f Some show ?thesis
      by (simp add: probeLlamaResidency_def Let_def probed_def new_status_def followed_by_def)
  qed
  ultimately show ?thesis by simp
qed

section \<open>A loaded model\<close>

definition sample_router_urls :: url_library where
  "sample_router_urls = \<lparr>url_Parse = (\<lambda>_. Some \<lparr>url_Opaque = [], url_Scheme = ''http'', url_Hostname = ''h'',
     url_Host = ''h'', url_User = False, url_RawQuery = [], url_ForceQuery = False, url_Fragment = [],
     url_Port = [], url_EscapedPath = [], url_Path = []\<rparr>), url_render = (\<lambda>_ s. s)\<rparr>"

definition demo_residency :: residency_env where
  "demo_residency = \<lparr>re_urls = sample_router_urls, re_get = (\<lambda>_. Some (200, Some ''list'')),
     re_document = (\<lambda>_. Whole (JObj [(''data'', JArr [JObj [(''id'', JStr ''m''),
       (''status'', JObj [(''value'', JStr ''Loaded'')]), (''meta'', JObj [(''n_ctx'', JNum ''4096'')])]])])),
     re_format = (\<lambda>_. False)\<rparr>"

definition demo_registry :: Registry where
  "demo_registry = \<lparr>rg_Models = [demo_model], rg_Fingerprint = [], rg_byID = [(''m'', demo_model)]\<rparr>"

definition demo_serving :: status_reply where
  "demo_serving = unloaded_status\<lparr>st_allocation := AllocationLlamaCPP, st_upstream := ''http://h''\<rparr>"

definition demo_listed :: listed_model where
  "demo_listed = \<lparr>lm_ID = ''m'', lm_Status = Some (JObj [(''value'', JStr ''Loaded'')]),
     lm_Meta = Some (JObj [(''n_ctx'', JNum ''4096'')])\<rparr>"

lemma demo_list: "routerModelList (re_document demo_residency ''list'') = Some [demo_listed]"
  by code_simp

lemma demo_router_list: "router_list demo_residency (st_upstream demo_serving) = Some [demo_listed]"
proof -
  have "router_list demo_residency (st_upstream demo_serving) = routerModelList (re_document demo_residency ''list'')"
    by (simp add: router_list_def demo_residency_def sample_router_urls_def maxResidencyResponseBytes_def)
  then show ?thesis unfolding demo_list .
qed

lemma demo_state: "fst (verdict (re_format demo_residency) [demo_listed]) = ModelLoaded"
  by code_simp

theorem residency_verdict_witness:
  "\<exists>s \<in> set (modelStatus demo_residency demo_registry demo_serving). sd_ID s = ''m'' \<and> sd_State s = ModelLoaded"
proof -
  have a: "st_allocation demo_serving = AllocationLlamaCPP" "st_upstream demo_serving \<noteq> []"
      "demo_model \<in> set (rg_Models demo_registry)" "mo_Backend demo_model = BackendLlamaCPP"
      "TextModel.Lookup demo_registry (mo_ID demo_model) = Some demo_model"
    by (simp_all add: demo_serving_def demo_registry_def demo_model_def BackendLlamaCPP_def TextModel.Lookup_def)
  have "filter (\<lambda>l. lm_ID l = mo_ID demo_model) [demo_listed] = [demo_listed]"
    by (simp add: demo_listed_def demo_model_def)
  with residency_verdict [OF a, of demo_residency] demo_router_list demo_state
  have "(new_status demo_model)\<lparr>sd_State := ModelLoaded,
      sd_Diagnostic := fst (snd (verdict (re_format demo_residency) [demo_listed])),
      sd_Runtime := snd (snd (verdict (re_format demo_residency) [demo_listed]))\<rparr>
      \<in> set (modelStatus demo_residency demo_registry demo_serving)"
    by simp
  then show ?thesis by (rule bexI [rotated]) (simp add: new_status_def demo_model_def)
qed

end
