(* ===== verification/GatewayClient.thy ===== *)
theory GatewayClient
  imports Residency
begin

text \<open>
  The metadata client of the command line (\<^verbatim>\<open>internal/gateway/client.go\<close>, \<^verbatim>\<open>client_reports.go\<close>) and what it
  learns from the server of \<open>Server\<close>. The HTTP library carries a request to an answer; encoding and
  decoding of JSON bodies are arguments.
\<close>

section \<open>Requests for metadata\<close>

definition IdentityHeader :: string where "IdentityHeader = ''X-Paracetamol-Gateway''"
definition IdentityValue :: string where "IdentityValue = ''paracetamol.gateway.v1''"
definition StatusSchema :: string where "StatusSchema = ''paracetamol.gateway-status.v7''"
definition RequestReportSchema :: string where "RequestReportSchema = ''paracetamol.request-report.v1''"

record http_answer =
  ha_StatusCode :: int
  ha_Header :: "string \<Rightarrow> string list"
  ha_Body :: "string option"

datatype client_error = ClientError string | MetadataHTTPError int | ErrRequestNotRetained

definition metadata_limit :: nat where "metadata_limit = 2097152"

definition client_header :: "string \<Rightarrow> string \<Rightarrow> string list" where
  "client_header k = (\<lambda>h. if h = ''Accept'' then [''application/json'']
     else if h = ''Authorization'' \<and> k \<noteq> [] then [''Bearer '' @ k] else [])"

definition fetchMetadata ::
  "url_library \<Rightarrow> (URL \<Rightarrow> (string \<Rightarrow> string list) \<Rightarrow> string + http_answer) \<Rightarrow> string \<Rightarrow> string \<Rightarrow> string \<Rightarrow> string
     \<Rightarrow> client_error + string" where
  "fetchMetadata lib do endpoint k path query =
     (case NormalizeGatewayURL lib endpoint of
        Inl e \<Rightarrow> Inl (ClientError e)
      | Inr normalized \<Rightarrow>
          (case (if k \<noteq> [] then ValidateGatewayKey k else None) of
             Some e \<Rightarrow> Inl (ClientError e)
           | None \<Rightarrow>
               (case do ((the (url_Parse lib normalized))\<lparr>url_Path := path, url_RawQuery := query\<rparr>) (client_header k) of
                  Inl e \<Rightarrow> Inl (ClientError (''cannot reach gateway at '' @ endpoint @ '': '' @ e))
                | Inr a \<Rightarrow>
                    (if ha_Header a IdentityHeader \<noteq> [IdentityValue]
                     then Inl (ClientError (endpoint @ '' is not a '' @ DisplayName @ '' gateway (HTTP '' @ format_int (ha_StatusCode a) @ '')''))
                     else if ha_StatusCode a = 401
                     then Inl (ClientError (''gateway authentication failed (HTTP 401). Configure --gateway-api-key-file or '' @
                            ''[gateway.client].api_key_file with the matching key''))
                     else if ha_StatusCode a \<noteq> 200 then Inl (MetadataHTTPError (ha_StatusCode a))
                     else (case ha_Body a of
                         Some b \<Rightarrow> (if metadata_limit < length b then Inl (ClientError ''gateway metadata is unreadable or too large'')
                                    else Inr b)
                       | None \<Rightarrow> Inl (ClientError ''gateway metadata is unreadable or too large''))))))"

text \<open>The decoded model list: \<^const>\<open>None\<close> when the body or its data does not decode.\<close>

definition FetchModelIDs ::
  "url_library \<Rightarrow> (URL \<Rightarrow> (string \<Rightarrow> string list) \<Rightarrow> string + http_answer) \<Rightarrow> (string \<Rightarrow> string list option) \<Rightarrow> string \<Rightarrow> string
     \<Rightarrow> client_error + string list" where
  "FetchModelIDs lib do decode endpoint k =
     bind_res (fetchMetadata lib do endpoint k ''/v1/models'' []) (\<lambda>b.
     case decode b of
       None \<Rightarrow> Inl (ClientError ''gateway returned an invalid model inventory'')
     | Some is \<Rightarrow> Inr (first_seen [] (filter (\<lambda>i. i \<noteq> []) is)))"

definition FetchStatus ::
  "url_library \<Rightarrow> (URL \<Rightarrow> (string \<Rightarrow> string list) \<Rightarrow> string + http_answer) \<Rightarrow> (string \<Rightarrow> (string \<times> 'r gateway_status) option)
     \<Rightarrow> string \<Rightarrow> string \<Rightarrow> int \<Rightarrow> client_error + 'r gateway_status" where
  "FetchStatus lib do decode endpoint k recent =
     (if recent < 0 \<or> int RecentRequestLimit < recent then Inl (ClientError ''invalid recent request count'')
      else bind_res (fetchMetadata lib do endpoint k ''/paracetamol/v1/status''
          (if 0 < recent then ''requests='' @ format_int recent else [])) (\<lambda>b.
        case decode b of
          None \<Rightarrow> Inl (ClientError ''cannot decode gateway status'')
        | Some (schema, st) \<Rightarrow>
            (if schema \<noteq> StatusSchema
             then Inl (ClientError (''gateway returned unsupported status schema '' @ quoted schema)) else Inr st)))"

section \<open>Request reports\<close>

record RequestReport =
  rq_Schema :: string
  rq_InstanceID :: string
  rq_InventoryFingerprint :: string
  rq_Retention :: "int \<times> int"
  rq_State :: string
  rq_Phase :: string
  rq_Active :: "ActiveRequestReport option"
  rq_Record :: "RequestRecord option"

definition phases :: "string list" where
  "phases = [''receiving'', ''waiting'', ''upstream'']"

definition check_report :: "string \<Rightarrow> RequestReport \<Rightarrow> string option" where
  "check_report i r =
     (if rq_Schema r \<noteq> RequestReportSchema then Some ''gateway returned unsupported request report schema''
      else if rq_InstanceID r \<noteq> take 32 (drop 1 i) then Some ''gateway returned request report for a different instance''
      else if rq_State r = ''active'' then
        (if rq_Record r \<noteq> None \<or> (case rq_Active r of None \<Rightarrow> True | Some a \<Rightarrow> ar_ID a \<noteq> i)
         then Some ''gateway returned an inconsistent active request report''
         else if rq_Phase r \<notin> set phases then Some ''gateway returned an invalid active request phase'' else None)
      else if rq_State r = ''completed'' then
        (if (case rq_Record r of None \<Rightarrow> True | Some q \<Rightarrow> rr_ID q \<noteq> i) \<or> rq_Active r \<noteq> None \<or> rq_Phase r \<noteq> []
         then Some ''gateway returned an inconsistent completed request report'' else None)
      else Some ''gateway returned an invalid request report state'')"

definition FetchRequestReport ::
  "url_library \<Rightarrow> (URL \<Rightarrow> (string \<Rightarrow> string list) \<Rightarrow> string + http_answer) \<Rightarrow> (string \<Rightarrow> RequestReport option) \<Rightarrow> string \<Rightarrow> string
     \<Rightarrow> string \<Rightarrow> client_error + RequestReport" where
  "FetchRequestReport lib do decode endpoint k i =
     (if \<not> validRequestReportID i then Inl (ClientError ''request report requires one canonical request ID'')
      else case fetchMetadata lib do endpoint k (requestReportPath @ i) [] of
        Inl (MetadataHTTPError n) \<Rightarrow> Inl (if n = 404 then ErrRequestNotRetained else MetadataHTTPError n)
      | Inl e \<Rightarrow> Inl e
      | Inr b \<Rightarrow>
          (case decode b of
             None \<Rightarrow> Inl (ClientError ''cannot decode gateway request report'')
           | Some r \<Rightarrow> (case check_report i r of Some e \<Rightarrow> Inl (ClientError e) | None \<Rightarrow> Inr r)))"

section \<open>The server's side\<close>

definition wire_report :: "server \<Rightarrow> report \<Rightarrow> RequestReport" where
  "wire_report s r =
     \<lparr>rq_Schema = RequestReportSchema, rq_InstanceID = sv_instanceID s,
      rq_InventoryFingerprint = rg_Fingerprint (sv_registry s),
      rq_Retention = (int RecentRequestLimit, int ActiveRequestLimit),
      rq_State = (case r of Completed _ \<Rightarrow> ''completed'' | Active _ _ \<Rightarrow> ''active'' | NotRetained \<Rightarrow> []),
      rq_Phase = (case r of Active p _ \<Rightarrow> p | _ \<Rightarrow> []),
      rq_Active = (case r of Active _ a \<Rightarrow> Some a | _ \<Rightarrow> None),
      rq_Record = (case r of Completed q \<Rightarrow> Some q | _ \<Rightarrow> None)\<rparr>"

definition get_request :: "URL \<Rightarrow> (string \<Rightarrow> string list) \<Rightarrow> http_request" where
  "get_request u header = \<lparr>hq_Method = ''GET'', hq_Path = url_Path u, hq_RawQuery = url_RawQuery u,
     hq_ForceQuery = False, hq_Header = header, hq_RemoteAddr = [], hq_UserAgent = []\<rparr>"

text \<open>The answer of the server to a request for a report; every answer carries the identity header.\<close>

definition answer :: "int \<Rightarrow> string \<Rightarrow> http_answer" where
  "answer n body = \<lparr>ha_StatusCode = n,
     ha_Header = (\<lambda>h. if h = IdentityHeader then [IdentityValue] else []), ha_Body = Some body\<rparr>"

definition serve_report ::
  "(string \<Rightarrow> string) \<Rightarrow> (RequestReport \<Rightarrow> string) \<Rightarrow> (api_error \<Rightarrow> string) \<Rightarrow> server \<Rightarrow> requestLedger \<Rightarrow> http_request \<Rightarrow> http_answer" where
  "serve_report sha256 encode encodeError s ledger r =
     (case ServeHTTP sha256 s r of
        ReportRoute \<Rightarrow>
          (case requestReport s ledger r of
             Inr report \<Rightarrow> answer 200 (encode (wire_report s report))
           | Inl e \<Rightarrow> answer (ap_status e) (encodeError e))
      | Unauthorized \<Rightarrow> answer 401 []
      | _ \<Rightarrow> answer 404 [])"

section \<open>Properties\<close>

lemma fields_from_visible:
  "list_all visible v \<Longrightarrow> fields_from acc (v @ rest) = fields_from (rev v @ acc) rest"
proof (induction v arbitrary: acc)
  case (Cons c v)
  have "\<not> hasPrefix (c # v @ rest) t" if "t \<in> set space_tokens" for t
    using space_token_ends [OF that] Cons.prems by (cases t) (auto simp: hasPrefix_def)
  then have "find (\<lambda>t. t \<noteq> [] \<and> hasPrefix (c # v @ rest) t) space_tokens = None"
    by (auto simp: find_None_iff)
  then have "fields_from acc ((c # v) @ rest) = fields_from (c # acc) (v @ rest)"
    by (subst fields_from.simps) simp
  also have "\<dots> = fields_from (rev v @ c # acc) rest" using Cons by simp
  finally show ?case by simp
qed simp

lemma Fields_bearer:
  assumes "list_all visible k" "k \<noteq> []"
  shows "Fields (''Bearer '' @ k) = [''Bearer'', k]"
proof -
  have "find (\<lambda>t. t \<noteq> [] \<and> hasPrefix ('' '' @ k) t) space_tokens = Some '' ''"
    by (simp add: space_tokens_def byte_is_space byte_32 hasPrefix_def)
  then have "fields_from (rev ''Bearer'') ('' '' @ k) = ''Bearer'' # fields_from [] k"
    by (subst fields_from.simps) simp
  moreover have "fields_from [] (''Bearer'' @ '' '' @ k) = fields_from (rev ''Bearer'' @ []) ('' '' @ k)"
    by (rule fields_from_visible) (simp add: visible_def code_def)
  moreover have "fields_from [] k = [k]"
    using fields_from_visible [OF assms(1), of "[]" "[]"] assms(2) by (simp add: fields_from.simps [of _ "[]"])
  ultimately show ?thesis by (simp add: Fields_def)
qed

lemma key_visible: "ValidateGatewayKey k = None \<Longrightarrow> list_all visible k \<and> k \<noteq> []"
  by (auto simp: ValidateGatewayKey_def key_char_def is_letter_def is_digit_def visible_def code_def list_all_iff split: if_splits)

lemma client_allowed:
  assumes "newBearerAuth sha256 k = Inr auth"
  shows "allow sha256 auth (client_header k)"
proof (cases "k = []")
  case True
  then show ?thesis using assms by (auto simp: newBearerAuth_def allow_def)
next
  case False
  then have "ValidateGatewayKey k = None" "auth = \<lparr>ba_enabled = True, ba_digest = sha256 k\<rparr>"
    using assms by (auto simp: newBearerAuth_def split: option.splits)
  with key_visible [OF this(1)] Fields_bearer [of k] False show ?thesis
    by (simp add: allow_def client_header_def equalFold_def)
qed

lemma report_route:
  assumes "allow sha256 (sv_auth s) header" "url_Path u = requestReportPath @ i"
  shows "ServeHTTP sha256 s (get_request u header) = ReportRoute"
  using assms by (simp add: ServeHTTP_def serveWeb_def get_request_def requestReportPath_def hasPrefix_def)

text \<open>The active table of a running gateway: every entry is under its own identifier, in a known phase.\<close>

definition active_ok :: "requestLedger \<Rightarrow> bool" where
  "active_ok l \<longleftrightarrow> (\<forall>i e. lookup (rl_active l) i = Some e \<longrightarrow> ar_ID (ae_report e) = i \<and> ae_phase e \<in> set phases)"

definition phase_ok :: "chat_action \<Rightarrow> bool" where
  "phase_ok a = (case a of TrackCall _ p \<Rightarrow> p \<in> set phases | _ \<Rightarrow> True)"

lemma ledger_call_active_ok: "active_ok l \<Longrightarrow> phase_ok a \<Longrightarrow> active_ok (ledger_call a l)"
  by (cases a) (auto simp: active_ok_def phase_ok_def ledger_call_def Track_def Untrack_def Add_def Let_def addUsage_active)

lemma Lookup_shape:
  assumes "active_ok l"
  shows "case Ledger.Lookup l i of Completed q \<Rightarrow> rr_ID q = i | Active p a \<Rightarrow> ar_ID a = i \<and> p \<in> set phases | NotRetained \<Rightarrow> True"
  using assms unfolding Ledger.Lookup_def active_ok_def
  by (auto split: option.splits dest!: find_Some_iff [THEN iffD1])

lemma phase_ok_complete: "list_all phase_ok (completeRequest s w a b r)"
  by (simp add: completeRequest_def Let_def phase_ok_def split: option.splits)

lemma phase_ok_chat: "list_all phase_ok (chat s q n w)"
  by (auto simp: chat_def Let_def decoded_def admitted_def proxied_def not_acquired_def reject_def phase_ok_complete
      phase_ok_def [of "TrackCall _ _"] phase_ok_def [of "UntrackCall _"] phase_ok_def [of "ErrorResponse _"]
      phase_ok_def [of "AcquireCall _"] phase_ok_def [of "ForwardCall _ _ _"] phase_ok_def [of "FailCall _"]
      phase_ok_def [of ReleaseCall] phase_ok_def [of Abort] phases_def split: sum.splits option.splits prod.splits)

lemma active_ok_run:
  assumes "active_ok l" "\<forall>a \<in> set acts. \<exists>s q n w. a \<in> set (chat s q n w)"
  shows "active_ok (fold ledger_call acts l)"
  using assms
proof (induction acts arbitrary: l)
  case (Cons a acts)
  then obtain s q n w where "a \<in> set (chat s q n w)" by auto
  then have "phase_ok a" using phase_ok_chat [of s q n w] by (simp add: list_all_iff)
  with Cons show ?case using ledger_call_active_ok by simp
qed simp

lemma requestReport_answer:
  assumes "validRequestReportID i" "url_Path u = requestReportPath @ i" "url_RawQuery u = []"
  shows "requestReport s l (get_request u header) =
    (if take 32 (drop 1 i) \<noteq> sv_instanceID s \<or> Ledger.Lookup l i = NotRetained then Inl not_retained
     else Inr (Ledger.Lookup l i))"
  using assms by (auto simp: requestReport_def get_request_def trimPrefix_def Let_def split: report.splits)

lemma check_wire_report:
  assumes "active_ok l" "take 32 (drop 1 i) = sv_instanceID s" "Ledger.Lookup l i \<noteq> NotRetained"
  shows "check_report i (wire_report s (Ledger.Lookup l i)) = None"
  using Lookup_shape [OF assms(1), of i] assms(2,3)
  by (cases "Ledger.Lookup l i") (simp_all add: check_report_def wire_report_def)

text \<open>
  C29: a report travels unchanged. Whatever chat requests have interleaved on the ledger, the report
  command with the gateway's key gets, for a canonical identifier, exactly what the ledger holds for
  it, completed or active, and otherwise (unknown, expired, or of another gateway process) the error that it is not
  retained. The codec only needs to decode what it encoded, within the size limit of the client.
\<close>

theorem report_roundtrip:
  fixes i :: string
  assumes endpoint: "NormalizeGatewayURL lib endpoint = Inr normalized"
    and k: "newBearerAuth sha256 k = Inr (sv_auth s)"
    and ledger: "ledger = fold ledger_call acts l0" "active_ok l0" "\<forall>a \<in> set acts. \<exists>s q n w. a \<in> set (chat s q n w)"
    and codec: "decode (encode (wire_report s (Ledger.Lookup ledger i))) = Some (wire_report s (Ledger.Lookup ledger i))"
    and small: "length (encode (wire_report s (Ledger.Lookup ledger i))) \<le> metadata_limit"
    and i: "validRequestReportID i"
  shows "FetchRequestReport lib (\<lambda>u header. Inr (serve_report sha256 encode encodeError s ledger (get_request u header)))
      decode endpoint k i =
    (if take 32 (drop 1 i) \<noteq> sv_instanceID s \<or> Ledger.Lookup ledger i = NotRetained then Inl ErrRequestNotRetained
     else Inr (wire_report s (Ledger.Lookup ledger i)))"
proof -
  let ?u = "(the (url_Parse lib normalized))\<lparr>url_Path := requestReportPath @ i, url_RawQuery := []\<rparr>"
  let ?a = "serve_report sha256 encode encodeError s ledger (get_request ?u (client_header k))"
  have ok: "active_ok ledger" unfolding ledger(1) by (rule active_ok_run [OF ledger(2,3)])
  have valid: "(if k \<noteq> [] then ValidateGatewayKey k else None) = None"
    using k by (auto simp: newBearerAuth_def split: option.splits if_splits)
  have route: "ServeHTTP sha256 s (get_request ?u (client_header k)) = ReportRoute"
    by (rule report_route [OF client_allowed [OF k]]) simp
  have a: "?a = (if take 32 (drop 1 i) \<noteq> sv_instanceID s \<or> Ledger.Lookup ledger i = NotRetained
      then answer 404 (encodeError not_retained) else answer 200 (encode (wire_report s (Ledger.Lookup ledger i))))"
    using requestReport_answer [OF i, of ?u s ledger "client_header k"]
    by (simp add: serve_report_def route not_retained_def writeAPIError_def)
  show ?thesis
  proof (cases "take 32 (drop 1 i) \<noteq> sv_instanceID s \<or> Ledger.Lookup ledger i = NotRetained")
    case True
    then show ?thesis using i endpoint valid a
      by (simp add: FetchRequestReport_def fetchMetadata_def answer_def)
  next
    case False
    then have "check_report i (wire_report s (Ledger.Lookup ledger i)) = None"
      using check_wire_report [OF ok] by simp
    then show ?thesis using False i endpoint valid a small codec
      by (simp add: FetchRequestReport_def fetchMetadata_def answer_def)
  qed
qed

section \<open>A request in progress\<close>

definition client_urls :: url_library where
  "client_urls = \<lparr>url_Parse = (\<lambda>_. Some \<lparr>url_Opaque = [], url_Scheme = ''http'', url_Hostname = ''h'',
     url_Host = ''h'', url_User = False, url_RawQuery = [], url_ForceQuery = False, url_Fragment = [],
     url_Port = [], url_EscapedPath = ''/v1'', url_Path = ''/v1''\<rparr>), url_render = (\<lambda>_ s. ''http://h'' @ s)\<rparr>"

definition report_server :: server where
  "report_server = demo_server\<lparr>sv_instanceID := replicate 32 (CHR ''0''), sv_auth := \<lparr>ba_enabled = False, ba_digest = []\<rparr>\<rparr>"

definition report_id :: string where "report_id = request_id report_server 1"

definition report_ledger :: requestLedger where
  "report_ledger = fold ledger_call [TrackCall (first_record report_server demo_request 1 demo_world) ''receiving''] empty_ledger"

lemma report_id_eq: "report_id = CHR ''r'' # replicate 32 (CHR ''0'') @ CHR ''-'' # replicate 15 (CHR ''0'') @ ''1''"
  by code_simp

lemma report_id_valid: "validRequestReportID report_id" "take 32 (drop 1 report_id) = sv_instanceID report_server"
  by code_simp+

lemma report_lookup_demo:
  "\<exists>a. Ledger.Lookup report_ledger report_id = Active ''receiving'' a"
proof -
  have "rl_entries report_ledger = replicate 64 None"
    by (simp add: report_ledger_def ledger_call_def Track_def empty_ledger_def RecentRequestLimit_def Let_def)
  then have "find (\<lambda>e. case e of None \<Rightarrow> False | Some (s, r) \<Rightarrow> s \<noteq> 0 \<and> rr_ID r = report_id) (rl_entries report_ledger) = None"
    by (auto simp: find_None_iff)
  moreover have "\<exists>e. lookup (rl_active report_ledger) report_id = Some e \<and> ae_phase e = ''receiving''"
    by (simp add: report_ledger_def ledger_call_def Track_def empty_ledger_def ActiveRequestLimit_def Let_def
        first_record_def report_id_def)
  ultimately show ?thesis by (auto simp: Ledger.Lookup_def)
qed

theorem report_roundtrip_witness:
  "FetchRequestReport client_urls (\<lambda>u header. Inr (serve_report id (\<lambda>_. ''x'') (\<lambda>_. []) report_server report_ledger (get_request u header)))
     (\<lambda>_. Some (wire_report report_server (Ledger.Lookup report_ledger report_id))) ''http://h/v1'' [] report_id =
   Inr (wire_report report_server (Ledger.Lookup report_ledger report_id))"
proof -
  obtain normalized where n: "NormalizeGatewayURL client_urls ''http://h/v1'' = Inr normalized"
  proof -
    have "NormalizeGatewayURL client_urls ''http://h/v1'' = Inr ''http://h/v1''" by code_simp
    then show thesis by (rule that)
  qed
  have k: "newBearerAuth id [] = Inr (sv_auth report_server)" by (simp add: newBearerAuth_def report_server_def)
  have acts: "\<forall>a \<in> set [TrackCall (first_record report_server demo_request 1 demo_world) ''receiving''].
      \<exists>s q n w. a \<in> set (chat s q n w)"
    by (auto simp: chat_def Let_def)
  have e: "active_ok empty_ledger" by (simp add: active_ok_def empty_ledger_def)
  have "length ''x'' \<le> metadata_limit" by (simp add: metadata_limit_def)
  from report_roundtrip [where encode = "\<lambda>_. ''x''" and encodeError = "\<lambda>_. []"
      and decode = "\<lambda>_. Some (wire_report report_server (Ledger.Lookup report_ledger report_id))",
      OF n k report_ledger_def e acts _ this report_id_valid(1)] report_id_valid(2) report_lookup_demo
  show ?thesis by auto
qed

end
