(* ===== verification/Control.thy ===== *)
theory Control
  imports Podman
begin

text \<open>
  The local stop path of the gateway (\<^verbatim>\<open>internal/gateway/control.go\<close>): gateways and stop commands of one
  user share a lock file and a socket path. Each system call is one step, so that any number of
  processes may interleave and die at any point; what the kernel keeps (the lock, the file at the
  path, the listeners) is part of the state. The private directory and the lock file themselves are
  never removed.
\<close>

section \<open>The path\<close>

definition localControlPath :: "(string \<Rightarrow> string) \<Rightarrow> string + string" where
  "localControlPath environment =
     (let runtime = environment ''XDG_RUNTIME_DIR''; home = environment ''HOME'' in
      if runtime \<noteq> [] then
        (if \<not> IsAbs runtime then Inl ''XDG_RUNTIME_DIR must be an absolute path''
         else Inr (Join [Join [runtime, StateNamespace], ''gateway.sock'']))
      else if home = [] \<or> \<not> IsAbs home then Inl ''HOME must be an absolute path when XDG_RUNTIME_DIR is unset''
      else Inr (Join [Join [home, ''.local'', ''share'', StateNamespace, ''run''], ''gateway.sock'']))"

datatype ctl_kind = CtlDirectory | CtlSocket | CtlRegular | CtlOther

record ctl_info =
  cx_kind :: ctl_kind
  cx_perm :: nat
  cx_owned :: bool

definition private_directory :: "ctl_info \<Rightarrow> bool" where
  "private_directory f \<longleftrightarrow> cx_kind f = CtlDirectory \<and> cx_perm f mod 64 = 0 \<and> cx_owned f"

definition private_lock :: "ctl_info \<Rightarrow> bool" where
  "private_lock f \<longleftrightarrow> cx_kind f = CtlRegular \<and> cx_perm f mod 64 = 0 \<and> cx_owned f"

definition owned_socket :: "ctl_info \<Rightarrow> bool" where
  "owned_socket f \<longleftrightarrow> cx_kind f = CtlSocket \<and> cx_owned f"

section \<open>Processes\<close>

text \<open>
  Where a gateway is: before \<^verbatim>\<open>Flock\<close>, with the lock, having seen a file at the path, with a free path, listening,
  serving; then closing the listener, removing the path and releasing the lock (the flag says that
  \<^verbatim>\<open>Finish\<close> follows), giving its result, gone.
\<close>

datatype gateway_pc = Idle | Locked | Stale | Cleared | Bound nat | Serving nat
  | Unlistened bool | Unlinked bool | Closed | Answering | Ended

text \<open>
  Where a stop command is: with the inode that it saw, refused by it, with the lock, having seen the same
  inode again, having removed it, waiting for the gateway's reply, with the reply, done.
\<close>

datatype client_pc = Off | Saw nat | Refused nat | Holding nat | Rechecked nat | Removed
  | Waiting nat | Replied string | Done "bool \<times> gerror option"

datatype lock_holder = HeldByGateway nat | HeldByClient nat

record control_world =
  kw_lock :: "lock_holder option"
  kw_directory :: ctl_info
  kw_lockFile :: ctl_info
  kw_path :: "nat option"
  kw_info :: "nat \<Rightarrow> ctl_info"
  kw_listener :: "nat \<Rightarrow> nat option"
  kw_gateway :: "nat \<Rightarrow> gateway_pc"
  kw_result :: "nat \<Rightarrow> gerror option option"
  kw_backlog :: "nat \<Rightarrow> nat list"
  kw_handlers :: "nat \<Rightarrow> nat list"
  kw_stop :: "nat \<Rightarrow> bool"
  kw_client :: "nat \<Rightarrow> client_pc"

definition at_gateway :: "nat \<Rightarrow> gateway_pc \<Rightarrow> control_world \<Rightarrow> control_world" where
  "at_gateway p pc w = w\<lparr>kw_gateway := (kw_gateway w)(p := pc)\<rparr>"

definition at_client :: "nat \<Rightarrow> client_pc \<Rightarrow> control_world \<Rightarrow> control_world" where
  "at_client c pc w = w\<lparr>kw_client := (kw_client w)(c := pc)\<rparr>"

text \<open>The reply of a handler, and how the stop command reads it: one line of at most 4096 bytes.\<close>

definition control_reply :: "gerror option \<Rightarrow> string" where
  "control_reply r = (case r of Some e \<Rightarrow> ''error '' @ errText e @ [NL] | None \<Rightarrow> ''stopped'' @ [NL])"

definition read_reply :: "string \<Rightarrow> bool \<times> gerror option" where
  "read_reply t =
     (let line = takeWhile (\<lambda>c. c \<noteq> NL) (take 4096 t) in
      if NL \<notin> set (take 4096 t) then (True, Some (Wrapped ''wait for gateway stop: '' (ErrorText ''EOF'')))
      else if line = ''stopped'' then (True, None)
      else if hasPrefix line ''error ''
      then (True, Some (ErrorText (''gateway shutdown failed: '' @ trimSpace (trimPrefix line ''error ''))))
      else (True, Some (ErrorText ''unexpected gateway control reply'')))"

text \<open>\<^verbatim>\<open>StartLocalControl\<close>, \<^verbatim>\<open>Close\<close>, \<^verbatim>\<open>Finish\<close>, \<^verbatim>\<open>accept\<close> and \<^verbatim>\<open>handle\<close>. A start that fails gives up the lock.\<close>

inductive gateway_step :: "control_world \<Rightarrow> control_world \<Rightarrow> bool" where
  start_refused: "kw_gateway w p = Idle \<Longrightarrow> \<not> private_directory (kw_directory w) \<or> \<not> private_lock (kw_lockFile w) \<Longrightarrow>
    gateway_step w (at_gateway p Ended w)"
| start_fails: "kw_gateway w p = Idle \<Longrightarrow> gateway_step w (at_gateway p Ended w)"
| flock: "kw_gateway w p = Idle \<Longrightarrow> private_directory (kw_directory w) \<Longrightarrow> private_lock (kw_lockFile w) \<Longrightarrow> kw_lock w = None \<Longrightarrow>
    gateway_step w (at_gateway p Locked (w\<lparr>kw_lock := Some (HeldByGateway p)\<rparr>))"
| flock_busy: "kw_gateway w p = Idle \<Longrightarrow> kw_lock w \<noteq> None \<Longrightarrow> gateway_step w (at_gateway p Ended w)"
| seen_none: "kw_gateway w p = Locked \<Longrightarrow> kw_path w = None \<Longrightarrow> gateway_step w (at_gateway p Cleared w)"
| seen_stale: "kw_gateway w p = Locked \<Longrightarrow> kw_path w = Some i \<Longrightarrow> owned_socket (kw_info w i) \<Longrightarrow>
    gateway_step w (at_gateway p Stale w)"
| seen_foreign: "kw_gateway w p = Locked \<Longrightarrow> kw_path w = Some i \<Longrightarrow> \<not> owned_socket (kw_info w i) \<Longrightarrow>
    gateway_step w (at_gateway p Ended (w\<lparr>kw_lock := None\<rparr>))"
| inspect_fails: "kw_gateway w p = Locked \<Longrightarrow> gateway_step w (at_gateway p Ended (w\<lparr>kw_lock := None\<rparr>))"
| remove_stale: "kw_gateway w p = Stale \<Longrightarrow> gateway_step w (at_gateway p Cleared (w\<lparr>kw_path := None\<rparr>))"
| remove_stale_fails: "kw_gateway w p = Stale \<Longrightarrow> gateway_step w (at_gateway p Ended (w\<lparr>kw_lock := None\<rparr>))"
| listen: "kw_gateway w p = Cleared \<Longrightarrow> kw_path w = None \<Longrightarrow> kw_listener w i = None \<Longrightarrow>
    gateway_step w (at_gateway p (Bound i) (w\<lparr>kw_path := Some i, kw_listener := (kw_listener w)(i \<mapsto> p),
      kw_info := (kw_info w)(i := \<lparr>cx_kind = CtlSocket, cx_perm = 384, cx_owned = True\<rparr>)\<rparr>))"
| listen_fails: "kw_gateway w p = Cleared \<Longrightarrow> gateway_step w (at_gateway p Ended (w\<lparr>kw_lock := None\<rparr>))"
| chmod: "kw_gateway w p = Bound i \<Longrightarrow> gateway_step w (at_gateway p (Serving i) w)"
| chmod_fails: "kw_gateway w p = Bound i \<Longrightarrow>
    gateway_step w (at_gateway p (Unlistened False) (w\<lparr>kw_listener := (kw_listener w)(i := None)\<rparr>))"
| accepted: "kw_gateway w p = Serving i \<Longrightarrow> kw_backlog w p = c # cs \<Longrightarrow>
    gateway_step w (w\<lparr>kw_backlog := (kw_backlog w)(p := cs), kw_handlers := (kw_handlers w)(p := kw_handlers w p @ [c])\<rparr>)"
| stop_read: "c \<in> set (kw_handlers w p) \<Longrightarrow> gateway_step w (w\<lparr>kw_stop := (kw_stop w)(p := True)\<rparr>)"
| close_listener: "kw_gateway w p = Serving i \<Longrightarrow>
    gateway_step w (at_gateway p (Unlistened True) (w\<lparr>kw_listener := (kw_listener w)(i := None),
      kw_backlog := (kw_backlog w)(p := [])\<rparr>))"
| remove_path: "kw_gateway w p = Unlistened finishing \<Longrightarrow> gateway_step w (at_gateway p (Unlinked finishing) (w\<lparr>kw_path := None\<rparr>))"
| remove_path_fails: "kw_gateway w p = Unlistened finishing \<Longrightarrow> gateway_step w (at_gateway p (Unlinked finishing) w)"
| close_lock: "kw_gateway w p = Unlinked finishing \<Longrightarrow>
    gateway_step w (at_gateway p (if finishing then Closed else Ended) (w\<lparr>kw_lock := None\<rparr>))"
| finish_begin: "kw_gateway w p = Closed \<Longrightarrow>
    gateway_step w (at_gateway p Answering (w\<lparr>kw_result := (kw_result w)(p := Some r)\<rparr>))"
| replied: "c \<in> set (kw_handlers w p) \<Longrightarrow> kw_result w p = Some r \<Longrightarrow> kw_client w c = Waiting p \<Longrightarrow>
    gateway_step w (at_client c (Replied (control_reply r)) (w\<lparr>kw_handlers := (kw_handlers w)(p := remove1 c (kw_handlers w p))\<rparr>))"
| reply_lost: "c \<in> set (kw_handlers w p) \<Longrightarrow> kw_result w p = Some r \<Longrightarrow> kw_client w c \<noteq> Waiting p \<Longrightarrow>
    gateway_step w (w\<lparr>kw_handlers := (kw_handlers w)(p := remove1 c (kw_handlers w p))\<rparr>)"
| finish_end: "kw_gateway w p = Answering \<Longrightarrow> kw_handlers w p = [] \<Longrightarrow> gateway_step w (at_gateway p Ended w)"

text \<open>\<^verbatim>\<open>StopLocalGateway\<close> and \<^verbatim>\<open>clearStaleControl\<close>.\<close>

inductive client_step :: "control_world \<Rightarrow> control_world \<Rightarrow> bool" where
  no_socket: "kw_client w c = Off \<Longrightarrow> kw_path w = None \<Longrightarrow> client_step w (at_client c (Done (False, None)) w)"
| saw: "kw_client w c = Off \<Longrightarrow> kw_path w = Some i \<Longrightarrow> owned_socket (kw_info w i) \<Longrightarrow> client_step w (at_client c (Saw i) w)"
| saw_foreign: "kw_client w c = Off \<Longrightarrow> kw_path w = Some i \<Longrightarrow> \<not> owned_socket (kw_info w i) \<Longrightarrow>
    client_step w (at_client c (Done (False, Some (ErrorText ''refusing non-owned or non-socket gateway control path''))) w)"
| inspect_control_fails: "kw_client w c = Off \<Longrightarrow> client_step w (at_client c (Done (False, Some e)) w)"
| vanished: "kw_client w c = Saw j \<Longrightarrow> kw_path w = None \<Longrightarrow> client_step w (at_client c (Done (False, None)) w)"
| connected: "kw_client w c = Saw j \<Longrightarrow> kw_path w = Some i \<Longrightarrow> kw_listener w i = Some p \<Longrightarrow>
    client_step w (at_client c (Waiting p) (w\<lparr>kw_backlog := (kw_backlog w)(p := kw_backlog w p @ [c])\<rparr>))"
| refused: "kw_client w c = Saw j \<Longrightarrow> kw_path w = Some i \<Longrightarrow> kw_listener w i = None \<Longrightarrow> client_step w (at_client c (Refused j) w)"
| connect_fails: "kw_client w c = Saw j \<Longrightarrow>
    client_step w (at_client c (Done (False, Some (Wrapped ''connect to gateway control socket: '' e))) w)"
| locked: "kw_client w c = Refused j \<Longrightarrow> kw_lock w = None \<Longrightarrow>
    client_step w (at_client c (Holding j) (w\<lparr>kw_lock := Some (HeldByClient c)\<rparr>))"
| lock_busy: "kw_client w c = Refused j \<Longrightarrow> kw_lock w \<noteq> None \<Longrightarrow>
    client_step w (at_client c (Done (False, Some (ErrorText
      ''gateway control socket refused connection while gateway lock is held''))) w)"
| lock_unreadable: "kw_client w c = Refused j \<Longrightarrow>
    client_step w (at_client c (Done (False, Some (Wrapped ''inspect stale gateway control lock: '' e))) w)"
| gone: "kw_client w c = Holding j \<Longrightarrow> kw_path w = None \<Longrightarrow>
    client_step w (at_client c (Done (False, None)) (w\<lparr>kw_lock := None\<rparr>))"
| same: "kw_client w c = Holding j \<Longrightarrow> kw_path w = Some j \<Longrightarrow> owned_socket (kw_info w j) \<Longrightarrow>
    client_step w (at_client c (Rechecked j) w)"
| changed: "kw_client w c = Holding j \<Longrightarrow> kw_path w = Some i \<Longrightarrow> i \<noteq> j \<or> \<not> owned_socket (kw_info w i) \<Longrightarrow>
    client_step w (at_client c (Done (False, Some (ErrorText
      ''gateway control socket changed during stale-state inspection''))) (w\<lparr>kw_lock := None\<rparr>))"
| remove: "kw_client w c = Rechecked j \<Longrightarrow> client_step w (at_client c Removed (w\<lparr>kw_path := None\<rparr>))"
| remove_fails: "kw_client w c = Rechecked j \<Longrightarrow>
    client_step w (at_client c (Done (False, Some (Wrapped ''remove stale gateway control socket: '' e))) (w\<lparr>kw_lock := None\<rparr>))"
| recheck_fails: "kw_client w c = Holding j \<Longrightarrow> client_step w (at_client c (Done (False, Some e)) (w\<lparr>kw_lock := None\<rparr>))"
| unlock: "kw_client w c = Removed \<Longrightarrow> client_step w (at_client c (Done (False, None)) (w\<lparr>kw_lock := None\<rparr>))"
| reset: "kw_client w c = Waiting p \<Longrightarrow> c \<notin> set (kw_backlog w p) \<Longrightarrow> c \<notin> set (kw_handlers w p) \<Longrightarrow>
    client_step w (at_client c (Done (True, Some (Wrapped ''wait for gateway stop: '' (ErrorText ''EOF'')))) w)"
| request_fails: "kw_client w c = Waiting p \<Longrightarrow>
    client_step w (at_client c (Done (False, Some (Wrapped ''request gateway stop: '' e))) w)"
| canceled: "kw_client w c = Waiting p \<Longrightarrow> client_step w (at_client c (Done (True, Some ContextCanceled)) w)"
| read: "kw_client w c = Replied t \<Longrightarrow> client_step w (at_client c (Done (read_reply t)) w)"

text \<open>A process that dies loses its lock and its listener; the file at the path stays.\<close>

inductive crash_step :: "control_world \<Rightarrow> control_world \<Rightarrow> bool" where
  gateway_dies: "kw_gateway w p \<noteq> Idle \<Longrightarrow>
    crash_step w (at_gateway p Ended (w\<lparr>kw_lock := (if kw_lock w = Some (HeldByGateway p) then None else kw_lock w),
      kw_listener := (\<lambda>i. if kw_listener w i = Some p then None else kw_listener w i),
      kw_backlog := (kw_backlog w)(p := []), kw_handlers := (kw_handlers w)(p := [])\<rparr>))"
| client_dies: "kw_client w c \<noteq> Off \<Longrightarrow>
    crash_step w (at_client c (Done (False, Some ContextCanceled))
      (w\<lparr>kw_lock := (if kw_lock w = Some (HeldByClient c) then None else kw_lock w)\<rparr>))"

definition control_step :: "control_world \<Rightarrow> control_world \<Rightarrow> bool" where
  "control_step w w' \<longleftrightarrow> gateway_step w w' \<or> client_step w w' \<or> crash_step w w'"

text \<open>At the start no process runs; an old file may lie at the path.\<close>

definition control_init :: "control_world \<Rightarrow> bool" where
  "control_init w \<longleftrightarrow> kw_lock w = None \<and> kw_listener w = Map.empty \<and> kw_gateway w = (\<lambda>_. Idle) \<and>
     kw_result w = (\<lambda>_. None) \<and> kw_backlog w = (\<lambda>_. []) \<and> kw_handlers w = (\<lambda>_. []) \<and> kw_stop w = (\<lambda>_. False) \<and>
     kw_client w = (\<lambda>_. Off)"

section \<open>Who holds what\<close>

fun holds_lock :: "gateway_pc \<Rightarrow> bool" where
  "holds_lock Locked = True"
| "holds_lock Stale = True"
| "holds_lock Cleared = True"
| "holds_lock (Bound _) = True"
| "holds_lock (Serving _) = True"
| "holds_lock (Unlistened _) = True"
| "holds_lock (Unlinked _) = True"
| "holds_lock _ = False"

fun client_holds :: "client_pc \<Rightarrow> bool" where
  "client_holds (Holding _) = True"
| "client_holds (Rechecked _) = True"
| "client_holds Removed = True"
| "client_holds _ = False"

fun listens_on :: "gateway_pc \<Rightarrow> nat option" where
  "listens_on (Bound i) = Some i"
| "listens_on (Serving i) = Some i"
| "listens_on _ = None"

definition truthful :: "control_world \<Rightarrow> client_pc \<Rightarrow> bool" where
  "truthful w pc \<longleftrightarrow> (case pc of
     Replied t \<Rightarrow> (\<exists>p r. kw_result w p = Some r \<and> t = control_reply r)
   | Done (True, None) \<Rightarrow> (\<exists>p. kw_result w p = Some None)
   | _ \<Rightarrow> True)"

definition control_inv :: "control_world \<Rightarrow> bool" where
  "control_inv w \<longleftrightarrow>
     (\<forall>p. holds_lock (kw_gateway w p) \<longleftrightarrow> kw_lock w = Some (HeldByGateway p)) \<and>
     (\<forall>c. client_holds (kw_client w c) \<longleftrightarrow> kw_lock w = Some (HeldByClient c)) \<and>
     (\<forall>p i. listens_on (kw_gateway w p) = Some i \<longleftrightarrow> kw_listener w i = Some p) \<and>
     (\<forall>p i. listens_on (kw_gateway w p) = Some i \<longrightarrow> kw_path w = Some i) \<and>
     (\<forall>p. kw_result w p \<noteq> None \<longrightarrow> kw_gateway w p = Answering \<or> kw_gateway w p = Ended) \<and>
     (\<forall>c. truthful w (kw_client w c))"

lemma control_inv_init: "control_init w \<Longrightarrow> control_inv w"
  by (simp add: control_init_def control_inv_def truthful_def)

lemmas control_defs = control_inv_def at_gateway_def at_client_def truthful_def

text \<open>The parts of the invariant, as facts about one process.\<close>

lemma control_invI:
  assumes "\<And>p. holds_lock (kw_gateway w p) \<longleftrightarrow> kw_lock w = Some (HeldByGateway p)"
    and "\<And>c. client_holds (kw_client w c) \<longleftrightarrow> kw_lock w = Some (HeldByClient c)"
    and "\<And>p i. listens_on (kw_gateway w p) = Some i \<longleftrightarrow> kw_listener w i = Some p"
    and "\<And>p i. listens_on (kw_gateway w p) = Some i \<Longrightarrow> kw_path w = Some i"
    and "\<And>p. kw_result w p \<noteq> None \<Longrightarrow> kw_gateway w p = Answering \<or> kw_gateway w p = Ended"
    and "\<And>c. truthful w (kw_client w c)"
  shows "control_inv w"
  using assms unfolding control_inv_def by blast

lemma control_invD:
  assumes "control_inv w"
  shows "holds_lock (kw_gateway w p) \<longleftrightarrow> kw_lock w = Some (HeldByGateway p)"
    and "client_holds (kw_client w c) \<longleftrightarrow> kw_lock w = Some (HeldByClient c)"
    and "listens_on (kw_gateway w p) = Some i \<longleftrightarrow> kw_listener w i = Some p"
    and "listens_on (kw_gateway w p) = Some i \<Longrightarrow> kw_path w = Some i"
    and "kw_result w p \<noteq> None \<Longrightarrow> kw_gateway w p = Answering \<or> kw_gateway w p = Ended"
    and "truthful w (kw_client w c)"
  using assms unfolding control_inv_def by blast+

text \<open>Only the holder of the lock can be listening.\<close>

lemma listens_holds: "listens_on pc = Some i \<Longrightarrow> holds_lock pc"
  by (cases pc) simp_all

lemma listening_alone:
  assumes "control_inv w" "listens_on (kw_gateway w p) = Some i" "holds_lock (kw_gateway w q) \<or> client_holds (kw_client w c)"
  shows "q = p \<and> holds_lock (kw_gateway w q)"
  using assms listens_holds [OF assms(2)] control_invD(1,2) [OF assms(1)] by auto

lemma truthful_mono:
  "truthful w pc \<Longrightarrow> (\<And>p r. kw_result w p = Some r \<Longrightarrow> kw_result w' p = Some r) \<Longrightarrow> truthful w' pc"
  by (fastforce simp: truthful_def split: client_pc.splits bool.splits option.splits)

text \<open>One process moves: what it needs to keep the invariant.\<close>

lemma gateway_moves:
  assumes inv: "control_inv w"
    and g: "kw_gateway w' = (kw_gateway w)(p := pc)" "kw_client w' = kw_client w"
    and lock: "kw_lock w' = (if holds_lock pc then Some (HeldByGateway p)
      else if kw_lock w = Some (HeldByGateway p) then None else kw_lock w)"
    and free: "holds_lock pc \<Longrightarrow> kw_lock w = None \<or> kw_lock w = Some (HeldByGateway p)"
    and lis: "\<And>i. kw_listener w' i = (if listens_on pc = Some i then Some p
      else if kw_listener w i = Some p then None else kw_listener w i)"
    and path: "\<And>i. listens_on pc = Some i \<Longrightarrow> kw_path w' = Some i"
    and others: "\<And>q i. q \<noteq> p \<Longrightarrow> listens_on (kw_gateway w q) = Some i \<Longrightarrow> kw_path w' = Some i"
    and fresh: "\<And>q i. q \<noteq> p \<Longrightarrow> listens_on pc = Some i \<Longrightarrow> kw_listener w i \<noteq> Some q"
    and res: "\<And>q r. kw_result w q = Some r \<Longrightarrow> kw_result w' q = Some r" "\<And>q. q \<noteq> p \<Longrightarrow> kw_result w' q = kw_result w q"
      "kw_result w' p \<noteq> None \<Longrightarrow> pc = Answering \<or> pc = Ended"
  shows "control_inv w'"
proof (rule control_invI)
  note I = control_invD [OF inv]
  fix q c i
  show "holds_lock (kw_gateway w' q) \<longleftrightarrow> kw_lock w' = Some (HeldByGateway q)"
    using I(1) [of q] free by (auto simp: g lock)
  show "client_holds (kw_client w' c) \<longleftrightarrow> kw_lock w' = Some (HeldByClient c)"
    using I(2) [of c] free by (auto simp: g lock)
  show "listens_on (kw_gateway w' q) = Some i \<longleftrightarrow> kw_listener w' i = Some q"
    using I(3) [of q i] fresh [of q i] by (auto simp: g lis)
  show "kw_path w' = Some i" if "listens_on (kw_gateway w' q) = Some i"
    using that path others [of q i] by (auto simp: g split: if_splits)
  show "kw_gateway w' q = Answering \<or> kw_gateway w' q = Ended" if "kw_result w' q \<noteq> None"
  proof (cases "q = p")
    case True
    then show ?thesis using that res(3) by (simp add: g)
  next
    case False
    then show ?thesis using that I(5) [of q] res(2) [of q] by (simp add: g)
  qed
  show "truthful w' (kw_client w' c)"
    using truthful_mono [OF I(6) [of c]] res(1) by (simp add: g)
qed

lemma client_moves:
  assumes inv: "control_inv w"
    and c: "kw_client w' = (kw_client w)(c := pc)" "kw_gateway w' = kw_gateway w"
    and lock: "kw_lock w' = (if client_holds pc then Some (HeldByClient c)
      else if kw_lock w = Some (HeldByClient c) then None else kw_lock w)"
    and free: "client_holds pc \<Longrightarrow> kw_lock w = None \<or> kw_lock w = Some (HeldByClient c)"
    and same: "kw_listener w' = kw_listener w" "kw_result w' = kw_result w"
    and path: "kw_path w' = kw_path w \<or> kw_lock w = Some (HeldByClient c)"
    and ok: "truthful w pc"
  shows "control_inv w'"
proof (rule control_invI)
  note I = control_invD [OF inv]
  have alone: "kw_path w' = kw_path w" if "listens_on (kw_gateway w q) = Some i" for q i
    using that path listens_holds [OF that] I(1) [of q] by auto
  have t: "truthful w' x = truthful w x" for x using same by (auto intro: truthful_mono)
  fix q d i
  show "holds_lock (kw_gateway w' q) \<longleftrightarrow> kw_lock w' = Some (HeldByGateway q)"
    using I(1) [of q] free by (auto simp: c lock)
  show "client_holds (kw_client w' d) \<longleftrightarrow> kw_lock w' = Some (HeldByClient d)"
    using I(2) [of d] free by (auto simp: c lock)
  show "listens_on (kw_gateway w' q) = Some i \<longleftrightarrow> kw_listener w' i = Some q"
    using I(3) [of q i] by (simp add: c same)
  show "kw_path w' = Some i" if "listens_on (kw_gateway w' q) = Some i"
    using that alone [of q i] I(4) [of q i] by (simp add: c)
  show "kw_gateway w' q = Answering \<or> kw_gateway w' q = Ended" if "kw_result w' q \<noteq> None"
    using that I(5) [of q] by (simp add: c same)
  show "truthful w' (kw_client w' d)" using I(6) [of d] ok by (simp add: c t)
qed

lemma read_reply_stopped: "read_reply (control_reply r) = (True, None) \<Longrightarrow> r = None"
proof (cases r)
  case (Some e)
  assume a: "read_reply (control_reply r) = (True, None)"
  have "takeWhile (\<lambda>c. c \<noteq> NL) (take 4096 (''error '' @ errText e @ [NL])) \<noteq> ''stopped''" by simp
  then show ?thesis using a Some by (simp add: read_reply_def control_reply_def Let_def split: if_splits)
qed simp

text \<open>A step that moves neither a program counter nor the lock, the path or a result.\<close>

lemma bookkeeping_moves:
  assumes "control_inv w" "kw_gateway w' = kw_gateway w" "kw_client w' = kw_client w" "kw_lock w' = kw_lock w"
    "kw_listener w' = kw_listener w" "kw_path w' = kw_path w" "kw_result w' = kw_result w"
  shows "control_inv w'"
proof (rule client_moves [OF assms(1), where c = 0 and pc = "kw_client w 0"])
  show "kw_lock w' = (if client_holds (kw_client w 0) then Some (HeldByClient 0)
      else if kw_lock w = Some (HeldByClient 0) then None else kw_lock w)"
    using control_invD(2) [OF assms(1), of 0] assms(4) by auto
  show "client_holds (kw_client w 0) \<Longrightarrow> kw_lock w = None \<or> kw_lock w = Some (HeldByClient 0)"
    using control_invD(2) [OF assms(1), of 0] by simp
qed (simp_all add: assms control_invD(6) [OF assms(1)])

text \<open>
  A gateway that goes to a new point: either it held the lock, so that nobody else listens, or it neither
  listens nor touches the path.
\<close>

lemma gateway_at:
  assumes inv: "control_inv w"
    and old: "kw_gateway w p = pc0"
    and v: "kw_gateway v = kw_gateway w" "kw_client v = kw_client w" "kw_result v = kw_result w"
    and lock: "kw_lock v = (if holds_lock pc = holds_lock pc0 then kw_lock w else if holds_lock pc then Some (HeldByGateway p) else None)"
    and free: "holds_lock pc \<Longrightarrow> holds_lock pc0 \<or> kw_lock w = None"
    and lis: "kw_listener v = (if listens_on pc = listens_on pc0 then kw_listener w
      else (\<lambda>i. if listens_on pc = Some i then Some p else if listens_on pc0 = Some i then None else kw_listener w i))"
    and path: "\<And>i. listens_on pc = Some i \<Longrightarrow> kw_path v = Some i \<or> kw_path v = kw_path w \<and> listens_on pc0 = Some i"
    and alone: "holds_lock pc0 \<or> listens_on pc = None \<and> kw_path v = kw_path w"
    and res: "pc0 \<noteq> Answering \<and> pc0 \<noteq> Ended \<or> pc = Ended"
  shows "control_inv (at_gateway p pc v)"
proof (rule gateway_moves [OF inv, where p = p and pc = pc])
  note I = control_invD [OF inv]
  have other: "holds_lock pc0 \<Longrightarrow> listens_on (kw_gateway w q) \<noteq> Some i" if "q \<noteq> p" for q i
    using that listens_holds [of "kw_gateway w q" i] I(1) [of q] I(1) [of p] old by auto
  show "kw_lock (at_gateway p pc v) = (if holds_lock pc then Some (HeldByGateway p)
      else if kw_lock w = Some (HeldByGateway p) then None else kw_lock w)"
    using I(1) [of p] by (auto simp: at_gateway_def lock old)
  show "kw_lock w = None \<or> kw_lock w = Some (HeldByGateway p)" if "holds_lock pc"
    using free [OF that] I(1) [of p] by (auto simp: old)
  show "kw_path (at_gateway p pc v) = Some i" if "q \<noteq> p" "listens_on (kw_gateway w q) = Some i" for q i
    using alone that(2) other [OF that(1), of i] I(4) [of q i] by (auto simp: at_gateway_def)
  show "kw_listener w i \<noteq> Some q" if "q \<noteq> p" "listens_on pc = Some i" for q i
    using alone that(2) other [OF that(1), of i] I(3) [of q i] by auto
  show "kw_listener (at_gateway p pc v) i = (if listens_on pc = Some i then Some p
      else if kw_listener w i = Some p then None else kw_listener w i)" for i
    using I(3) [of p i] by (auto simp: at_gateway_def lis old)
  show "pc = Answering \<or> pc = Ended" if "kw_result (at_gateway p pc v) p \<noteq> None"
    using that res I(5) [of p] by (auto simp: at_gateway_def v old)
  show "kw_path (at_gateway p pc v) = Some i" if "listens_on pc = Some i" for i
    using path [OF that] I(4) [of p i] by (auto simp: at_gateway_def old)
qed (simp_all add: at_gateway_def v)

lemma control_inv_gateway: "gateway_step w w' \<Longrightarrow> control_inv w \<Longrightarrow> control_inv w'"
proof (induction rule: gateway_step.induct)
  case (replied c w p r)
  show ?case
    by (rule client_moves [OF replied(4), where c = c and pc = "Replied (control_reply r)"])
      (use replied control_invD(2) [OF replied(4), of c] in \<open>auto simp: at_client_def truthful_def\<close>)
next
  case (accepted w p i c cs)
  show ?case by (rule bookkeeping_moves [OF accepted(3)]) simp_all
next
  case (stop_read c w p)
  show ?case by (rule bookkeeping_moves [OF stop_read(2)]) simp_all
next
  case (reply_lost c w p r)
  show ?case by (rule bookkeeping_moves [OF reply_lost(4)]) simp_all
next
  case (finish_begin w p r)
  note I = control_invD [OF finish_begin(2)]
  have none: "kw_result w p = None" using I(5) [of p] finish_begin(1) by (rule_tac ccontr) simp
  show ?case
    by (rule gateway_moves [OF finish_begin(2), where p = p and pc = Answering])
      (use finish_begin(1) none I(1) [of p] I(3) [of p] I(4) in \<open>auto simp: at_gateway_def\<close>)
qed ((rule gateway_at, assumption, assumption, auto simp: fun_eq_iff split: if_splits)[1])+

text \<open>A stop command that goes to a new point; only the holder of the lock removes the path.\<close>

lemma client_at:
  assumes inv: "control_inv w"
    and old: "kw_client w c = pc0"
    and v: "kw_gateway v = kw_gateway w" "kw_client v = kw_client w" "kw_result v = kw_result w" "kw_listener v = kw_listener w"
    and lock: "kw_lock v = (if client_holds pc = client_holds pc0 then kw_lock w else if client_holds pc then Some (HeldByClient c) else None)"
    and free: "client_holds pc \<Longrightarrow> client_holds pc0 \<or> kw_lock w = None"
    and path: "kw_path v = kw_path w \<or> client_holds pc0"
    and ok: "truthful w pc"
  shows "control_inv (at_client c pc v)"
  by (rule client_moves [OF inv, where c = c and pc = pc])
    (use control_invD(2) [OF inv, of c] lock free path ok in \<open>auto simp: at_client_def v old\<close>)

lemma control_inv_client: "client_step w w' \<Longrightarrow> control_inv w \<Longrightarrow> control_inv w'"
proof (induction rule: client_step.induct)
  case (read w c t)
  obtain p r where r: "kw_result w p = Some r" "t = control_reply r"
    using control_invD(6) [OF read(2), of c] read(1) by (auto simp: truthful_def)
  have "truthful w (Done (read_reply t))"
    using r read_reply_stopped [of r] by (auto simp: truthful_def split: bool.splits option.splits)
  then show ?case by (rule_tac client_at [OF read(2,1)]) simp_all
qed ((rule client_at, assumption, assumption, simp_all add: truthful_def)[1])+

lemma control_inv_crash: "crash_step w w' \<Longrightarrow> control_inv w \<Longrightarrow> control_inv w'"
proof (induction rule: crash_step.induct)
  case (gateway_dies w p)
  note I = control_invD [OF gateway_dies(2)]
  show ?case
    by (rule gateway_at [OF gateway_dies(2) refl])
      (use I(1) [of p] I(3) [of p] in auto)
next
  case (client_dies w c)
  show ?case
    by (rule client_at [OF client_dies(2) refl])
      (use control_invD(2) [OF client_dies(2), of c] in \<open>auto simp: truthful_def\<close>)
qed

interpretation control: state_machine control_init control_step control_inv
  by unfold_locales
    (auto simp: control_step_def intro: control_inv_init control_inv_gateway control_inv_client control_inv_crash)

section \<open>What the lock and the reply are worth\<close>

text \<open>
  C30: Whatever the interleaving of gateways, stop commands and crashes, a gateway that serves holds the lock, the file
  at the control path is its own listening socket, and no other process is
  starting, serving or clearing a stale socket.
\<close>

lemma control_exclusive:
  assumes "reachable control_init control_step w" "kw_gateway w p = Serving i"
  shows "kw_lock w = Some (HeldByGateway p) \<and> kw_path w = Some i \<and> kw_listener w i = Some p \<and>
    {q. holds_lock (kw_gateway w q)} = {p} \<and> {c. client_holds (kw_client w c)} = {}"
proof -
  note I = control_invD [OF control.reachable_inv [OF assms(1)]]
  have lock: "kw_lock w = Some (HeldByGateway p)" using I(1) [of p] assms(2) by simp
  show ?thesis using lock I(3,4) [of p i] I(1,2) assms(2) by auto
qed

text \<open>A world with one private directory, and how gateway 0 comes to serve there and is stopped by command 7.\<close>

definition idle_control :: "nat option \<Rightarrow> control_world" where
  "idle_control old = \<lparr>kw_lock = None, kw_directory = \<lparr>cx_kind = CtlDirectory, cx_perm = 448, cx_owned = True\<rparr>,
     kw_lockFile = \<lparr>cx_kind = CtlRegular, cx_perm = 384, cx_owned = True\<rparr>, kw_path = old,
     kw_info = (\<lambda>_. \<lparr>cx_kind = CtlSocket, cx_perm = 384, cx_owned = True\<rparr>), kw_listener = Map.empty,
     kw_gateway = (\<lambda>_. Idle), kw_result = (\<lambda>_. None), kw_backlog = (\<lambda>_. []), kw_handlers = (\<lambda>_. []),
     kw_stop = (\<lambda>_. False), kw_client = (\<lambda>_. Off)\<rparr>"

lemma idle_control_init: "control_init (idle_control old)"
  by (simp add: control_init_def idle_control_def)

lemma gateway_control: "gateway_step w w' \<Longrightarrow> control_step w w'"
  by (simp add: control_step_def)

lemma client_control: "client_step w w' \<Longrightarrow> control_step w w'"
  by (simp add: control_step_def)

text \<open>A gateway that finds the lock free starts, whether or not an owned socket was left behind.\<close>

lemma start_path:
  assumes "kw_gateway w p = Idle" "private_directory (kw_directory w)" "private_lock (kw_lockFile w)" "kw_lock w = None"
    "\<forall>j. kw_path w = Some j \<longrightarrow> owned_socket (kw_info w j)" "kw_listener w i = None"
  shows "\<exists>w'. control_step\<^sup>*\<^sup>* w w' \<and> kw_gateway w' p = Serving i \<and> kw_client w' = kw_client w \<and>
    kw_listener w' = (kw_listener w)(i \<mapsto> p) \<and> kw_path w' = Some i \<and> owned_socket (kw_info w' i) \<and>
    kw_backlog w' = kw_backlog w \<and> kw_handlers w' = kw_handlers w"
proof -
  define a where "a = at_gateway p Locked (w\<lparr>kw_lock := Some (HeldByGateway p)\<rparr>)"
  define b where "b = at_gateway p Cleared (a\<lparr>kw_path := None\<rparr>)"
  define d where "d = at_gateway p (Bound i) (b\<lparr>kw_path := Some i, kw_listener := (kw_listener b)(i \<mapsto> p),
      kw_info := (kw_info b)(i := \<lparr>cx_kind = CtlSocket, cx_perm = 384, cx_owned = True\<rparr>)\<rparr>)"
  have 1: "control_step w a" unfolding a_def using assms(1-4) by (intro gateway_control flock)
  have 2: "control_step\<^sup>*\<^sup>* a b"
  proof (cases "kw_path w")
    case None
    then have "b = at_gateway p Cleared a" by (simp add: b_def a_def at_gateway_def)
    moreover have "control_step a (at_gateway p Cleared a)"
      using None by (intro gateway_control seen_none) (simp_all add: a_def at_gateway_def)
    ultimately show ?thesis by simp
  next
    case (Some j)
    have "control_step a (at_gateway p Stale a)"
      using Some assms(5) by (intro gateway_control seen_stale [where i = j]) (simp_all add: a_def at_gateway_def)
    moreover have "control_step (at_gateway p Stale a) (at_gateway p Cleared ((at_gateway p Stale a)\<lparr>kw_path := None\<rparr>))"
      by (intro gateway_control remove_stale) (simp add: at_gateway_def)
    moreover have "at_gateway p Cleared ((at_gateway p Stale a)\<lparr>kw_path := None\<rparr>) = b"
      by (simp add: b_def at_gateway_def)
    ultimately show ?thesis by (metis converse_rtranclp_into_rtranclp r_into_rtranclp)
  qed
  have 3: "control_step b d" unfolding d_def
    using assms(6) by (intro gateway_control listen) (simp_all add: b_def a_def at_gateway_def)
  have 4: "control_step d (at_gateway p (Serving i) d)"
    by (intro gateway_control chmod) (simp add: d_def at_gateway_def)
  have "control_step\<^sup>*\<^sup>* w (at_gateway p (Serving i) d)"
    using 1 2 3 4 by (meson converse_rtranclp_into_rtranclp rtranclp.rtrancl_into_rtrancl)
  then show ?thesis
    by (intro exI [of _ "at_gateway p (Serving i) d"]) (simp add: d_def b_def a_def at_gateway_def owned_socket_def)
qed

lemma reachable_star: "step\<^sup>*\<^sup>* s t \<Longrightarrow> reachable init step s \<Longrightarrow> reachable init step t"
  by (induction rule: rtranclp_induct) (auto intro: reachable_step)

lemmas step_then = converse_rtranclp_into_rtranclp [of control_step]

text \<open>A stop command that finds a serving gateway reaches it and reads its reply, when the shutdown ends without an error.\<close>

lemma stop_path:
  assumes "kw_gateway w p = Serving i" "kw_path w = Some i" "owned_socket (kw_info w i)" "kw_listener w i = Some p"
    "kw_client w c = Off" "kw_backlog w p = []" "kw_handlers w p = []"
  shows "\<exists>w'. control_step\<^sup>*\<^sup>* w w' \<and> kw_client w' c = Done (True, None) \<and> kw_gateway w' p = Ended \<and> kw_stop w' p"
proof -
  define a where "a = at_client c (Waiting p) ((at_client c (Saw i) w)\<lparr>kw_backlog := (kw_backlog w)(p := [c])\<rparr>)"
  define b where "b = a\<lparr>kw_backlog := (kw_backlog a)(p := []), kw_handlers := (kw_handlers a)(p := [c])\<rparr>"
  define d where "d = b\<lparr>kw_stop := (kw_stop b)(p := True)\<rparr>"
  define e where "e = at_gateway p (Unlistened True) (d\<lparr>kw_listener := (kw_listener d)(i := None), kw_backlog := (kw_backlog d)(p := [])\<rparr>)"
  define f where "f = at_gateway p (Unlinked True) (e\<lparr>kw_path := None\<rparr>)"
  define g where "g = at_gateway p Closed (f\<lparr>kw_lock := None\<rparr>)"
  define h where "h = at_gateway p Answering (g\<lparr>kw_result := (kw_result g)(p := Some None)\<rparr>)"
  define k where "k = at_client c (Replied (control_reply None)) (h\<lparr>kw_handlers := (kw_handlers h)(p := [])\<rparr>)"
  define l where "l = at_gateway p Ended k"
  note defs = a_def b_def d_def e_def f_def g_def h_def k_def l_def at_gateway_def at_client_def
  have 1: "control_step w (at_client c (Saw i) w)" using assms by (intro client_control saw)
  have 2: "control_step (at_client c (Saw i) w) a"
    using connected [of "at_client c (Saw i) w" c i i p] assms by (intro client_control) (simp add: defs)
  have 3: "control_step a b" using accepted [of a p i c "[]"] assms by (intro gateway_control) (simp add: defs)
  have 4: "control_step b d" unfolding d_def by (intro gateway_control stop_read [where c = c]) (simp add: defs)
  have 5: "control_step d e" unfolding e_def using assms by (intro gateway_control close_listener) (simp add: defs)
  have 6: "control_step e f" unfolding f_def by (intro gateway_control remove_path) (simp add: defs)
  have 7: "control_step f g" using close_lock [of f p True] by (intro gateway_control) (simp add: defs)
  have 8: "control_step g h" unfolding h_def by (intro gateway_control finish_begin) (simp add: defs)
  have 9: "control_step h k" using replied [of c h p None] by (intro gateway_control) (simp add: defs)
  have 10: "control_step k l" unfolding l_def by (intro gateway_control finish_end) (simp_all add: defs)
  have 11: "control_step l (at_client c (Done (read_reply (control_reply None))) l)"
    by (intro client_control read) (simp add: defs)
  have run: "control_step\<^sup>*\<^sup>* w (at_client c (Done (read_reply (control_reply None))) l)"
    by (rule step_then [OF 1 step_then [OF 2 step_then [OF 3 step_then [OF 4 step_then [OF 5 step_then [OF 6 step_then [OF 7
      step_then [OF 8 step_then [OF 9 step_then [OF 10 r_into_rtranclp [where r = control_step, OF 11]]]]]]]]]]])
  have "read_reply (control_reply None) = (True, None)" by code_simp
  then show ?thesis
    by (intro exI [of _ "at_client c (Done (read_reply (control_reply None))) l"] conjI run) (simp_all add: defs)
qed

text \<open>
  Once no process holds the lock, the next gateway can start: a crash, at whatever point, leaves at most an owned socket
  that the new holder of the lock replaces.
\<close>

lemma control_recovers:
  assumes "reachable control_init control_step w" "kw_lock w = None" "kw_gateway w p = Idle"
    "private_directory (kw_directory w)" "private_lock (kw_lockFile w)"
    "\<forall>j. kw_path w = Some j \<longrightarrow> owned_socket (kw_info w j)"
  shows "\<exists>w' i. control_step\<^sup>*\<^sup>* w w' \<and> reachable control_init control_step w' \<and> kw_gateway w' p = Serving i"
proof -
  note I = control_invD [OF control.reachable_inv [OF assms(1)]]
  have "kw_listener w 0 = None"
    using I(1,3) assms(2) listens_holds by (metis not_None_eq)
  then obtain w' where w': "control_step\<^sup>*\<^sup>* w w'" "kw_gateway w' p = Serving 0"
    using start_path [OF assms(3-5,2,6)] by blast
  then show ?thesis using reachable_star [OF w'(1) assms(1)] by blast
qed

text \<open>
  A stop command that reports success is right: a gateway gave its result, without an error, and by then
  it no longer listens and no longer holds the lock.
\<close>

lemma stop_truthful:
  assumes "reachable control_init control_step w" "kw_client w c = Done (True, None)"
  shows "\<exists>p. kw_result w p = Some None \<and> \<not> holds_lock (kw_gateway w p) \<and> (\<forall>i. kw_listener w i \<noteq> Some p)"
proof -
  note I = control_invD [OF control.reachable_inv [OF assms(1)]]
  obtain p where p: "kw_result w p = Some None" using I(6) [of c] assms(2) by (auto simp: truthful_def)
  then have "kw_gateway w p = Answering \<or> kw_gateway w p = Ended" using I(5) [of p] by simp
  then show ?thesis using p I(3) [of p] by (intro exI [of _ p]) auto
qed

text \<open>Gateway 0 starts beside the socket that an earlier one left, and command 7 stops it.\<close>

lemma idle_control_serves:
  "\<exists>w. reachable control_init control_step w \<and> kw_gateway w 0 = Serving 4 \<and> kw_path w = Some 4 \<and>
    owned_socket (kw_info w 4) \<and> kw_listener w 4 = Some 0 \<and> kw_client w 7 = Off \<and> kw_backlog w 0 = [] \<and> kw_handlers w 0 = []"
proof -
  let ?w = "idle_control (Some 3)"
  obtain w' where w': "control_step\<^sup>*\<^sup>* ?w w'" "kw_gateway w' 0 = Serving 4" "kw_client w' = kw_client ?w"
    "kw_listener w' = (kw_listener ?w)(4 \<mapsto> 0)" "kw_path w' = Some 4" "owned_socket (kw_info w' 4)"
    "kw_backlog w' = kw_backlog ?w" "kw_handlers w' = kw_handlers ?w"
    using start_path [of ?w 0 4]
    by (auto simp: idle_control_def private_directory_def private_lock_def owned_socket_def)
  then show ?thesis
    using reachable_star [OF w'(1) reachable_init [where init = control_init, OF idle_control_init]]
    by (intro exI [of _ w']) (simp add: idle_control_def)
qed

lemma control_exclusive_witness:
  "\<exists>w :: control_world. kw_gateway w 0 = Serving 4 \<and> kw_lock w = Some (HeldByGateway 0) \<and> kw_path w = Some 4 \<and> kw_listener w 4 = Some 0 \<and>
    {q. holds_lock (kw_gateway w q)} = {0} \<and> {c. client_holds (kw_client w c)} = {}"
proof -
  obtain w where "reachable control_init control_step w" "kw_gateway w 0 = Serving 4"
    using idle_control_serves by blast
  from this(2) control_exclusive [OF this] show ?thesis by (intro exI [of _ w] conjI) simp_all
qed

lemma control_recovers_witness:
  "\<exists>w' i. control_step\<^sup>*\<^sup>* (idle_control (Some 3)) w' \<and> reachable control_init control_step w' \<and> kw_gateway w' 5 = Serving i"
proof (rule control_recovers)
  show "reachable control_init control_step (idle_control (Some 3))"
    by (rule reachable_init) (rule idle_control_init)
qed (simp_all add: idle_control_def private_directory_def private_lock_def owned_socket_def)

lemma stop_truthful_witness:
  "\<exists>(w :: control_world) p. kw_client w 7 = Done (True, None) \<and> kw_result w p = Some None \<and> \<not> holds_lock (kw_gateway w p)"
proof -
  obtain w where w: "reachable control_init control_step w" "kw_gateway w 0 = Serving 4" "kw_path w = Some 4"
    "owned_socket (kw_info w 4)" "kw_listener w 4 = Some 0" "kw_client w 7 = Off" "kw_backlog w 0 = []" "kw_handlers w 0 = []"
    using idle_control_serves by blast
  obtain w' where w': "control_step\<^sup>*\<^sup>* w w'" "kw_client w' 7 = Done (True, None)"
    using stop_path [OF w(2-8)] by blast
  obtain p where "kw_result w' p = Some None" "\<not> holds_lock (kw_gateway w' p)"
    using stop_truthful [OF reachable_star [OF w'(1) w(1)] w'(2)] by blast
  then show ?thesis using w'(2) by (intro exI [of _ w'] exI [of _ p] conjI)
qed

end
