(* ===== verification/ContentPack.thy ===== *)
theory ContentPack
  imports CatalogProps
begin

text \<open>
  Local content packs (\<^verbatim>\<open>internal/contentpack/pack.go\<close>): packs written by a remote import are checked and added to the
  catalog. A pack is its decoded document; reading the file and the JSON decoder, which refuses unknown
  fields and trailing text, are the argument \<open>decode\<close>.
\<close>

section \<open>The document\<close>

record pack_source =
  ps_Provider :: string
  ps_Repository :: string
  ps_Revision :: string
  ps_Path :: string
  ps_Host :: string
  ps_Filename :: string
  ps_DownloadURL :: string
  ps_ModelID :: int
  ps_ModelVersionID :: int
  ps_RequiresAuth :: bool

record pack_artifact =
  pf_Description :: string
  pf_Source :: pack_source
  pf_Target :: string
  pf_Destination :: string
  pf_Size :: int
  pf_SHA256 :: string
  pf_License :: License

record pack_bundle =
  pn_Description :: string
  pn_Application :: string
  pn_Artifacts :: "string list"
  pn_Groups :: "string list"

record pack_document =
  pm_Schema :: int
  pm_Artifacts :: "pack_artifact table"
  pm_Bundles :: "pack_bundle table"

section \<open>Checks\<close>

definition httpsURL :: "url_library \<Rightarrow> string \<Rightarrow> bool" where
  "httpsURL lib v = (case url_Parse lib v of
     None \<Rightarrow> False
   | Some u \<Rightarrow> url_Scheme u = ''https'' \<and> url_Hostname u \<noteq> [] \<and> \<not> url_User u \<and> url_Port u = [] \<and> url_Fragment u = [])"

definition exactCivitaiDownload :: "url_library \<Rightarrow> string \<Rightarrow> string \<Rightarrow> int \<Rightarrow> bool" where
  "exactCivitaiDownload lib v host version = (case url_Parse lib v of
     None \<Rightarrow> False
   | Some u \<Rightarrow> url_Scheme u = ''https'' \<and> url_Hostname u = host \<and> \<not> url_User u \<and> url_Port u = [] \<and>
       url_Path u = ''/api/download/models/'' @ format_int version \<and> url_Fragment u = [])"

definition exactGroups :: "string list \<Rightarrow> string list \<Rightarrow> bool" where
  "exactGroups values expected \<longleftrightarrow> length values = length expected \<and> set expected \<subseteq> set values \<and>
     length (remdups values) = length values"

definition safe_destination :: "string \<Rightarrow> bool" where
  "safe_destination d \<longleftrightarrow> Clean d = d \<and> \<not> hasPrefix d ''/'' \<and> \<not> hasPrefix d ''../'' \<and> d \<noteq> ''.''"

definition unverified_license :: "url_library \<Rightarrow> License \<Rightarrow> bool" where
  "unverified_license lib l \<longleftrightarrow> li_SPDX l = ''NOASSERTION'' \<and> li_Status l = ''unverified'' \<and> li_Warning l \<noteq> [] \<and>
     httpsURL lib (li_URL l) \<and> (li_UpstreamLicenseURL l = [] \<or> httpsURL lib (li_UpstreamLicenseURL l))"

definition pack_source_of :: "url_library \<Rightarrow> string \<Rightarrow> pack_source \<Rightarrow> string + Source" where
  "pack_source_of lib i s =
     (let empty = \<lparr>so_Provider = [], so_Repository = [], so_Revision = [], so_Path = [], so_ModelID = 0, so_ModelVersionID = 0,
        so_RequiresAuth = False, so_ProviderHost = [], so_DownloadURL = [], so_ArchiveMember = [], so_ArchiveMaxSize = 0\<rparr> in
      if ps_Provider s = ''civitai'' then
        (if ps_Host s \<noteq> ''civitai.com'' \<and> ps_Host s \<noteq> ''civitai.red'' \<or> ps_ModelID s \<le> 0 \<or> ps_ModelVersionID s \<le> 0 \<or>
            Base (ps_Filename s) \<noteq> ps_Filename s \<or> \<not> exactCivitaiDownload lib (ps_DownloadURL s) (ps_Host s) (ps_ModelVersionID s)
         then Inl (''content pack artifact '' @ i @ '' has invalid Civitai source'')
         else Inr (empty\<lparr>so_Provider := ''civitai'', so_ProviderHost := ps_Host s, so_ModelID := ps_ModelID s,
           so_ModelVersionID := ps_ModelVersionID s, so_Path := ps_Filename s, so_DownloadURL := ps_DownloadURL s,
           so_RequiresAuth := ps_RequiresAuth s\<rparr>))
      else if ps_Provider s \<noteq> [] \<and> ps_Provider s \<noteq> ''huggingface'' \<or> ps_Repository s = [] \<or> \<not> revisionPattern (ps_Revision s) \<or>
          \<not> safeRelative (ps_Path s)
      then Inl (''content pack artifact '' @ i @ '' has invalid Hugging Face source'')
      else Inr (empty\<lparr>so_Provider := ''huggingface'', so_Repository := ps_Repository s, so_Revision := ps_Revision s,
        so_Path := ps_Path s\<rparr>))"

definition pack_artifact_of :: "url_library \<Rightarrow> string \<Rightarrow> string \<Rightarrow> pack_artifact \<Rightarrow> string + Artifact" where
  "pack_artifact_of lib file i v =
     (if \<not> identifierPattern i \<or> pf_Description v = [] \<or> pf_Size v \<le> 0 \<or> \<not> sha256Pattern (pf_SHA256 v)
      then Inl (''content pack '' @ file @ '' has invalid artifact '' @ i)
      else if pf_Target v \<noteq> ''models'' \<and> pf_Target v \<noteq> ''llama-models'' \<and> pf_Target v \<noteq> ''workflows''
      then Inl (''content pack artifact '' @ i @ '' has unsupported target'')
      else if \<not> safe_destination (pf_Destination v) then Inl (''content pack artifact '' @ i @ '' has unsafe destination'')
      else if pf_Target v = ''workflows'' \<and> \<not> hasSuffix (pf_Destination v) ''.json''
      then Inl (''content pack workflow artifact '' @ i @ '' must be JSON'')
      else if \<not> unverified_license lib (pf_License v)
      then Inl (''content pack artifact '' @ i @ '' must retain explicit NOASSERTION metadata'')
      else bind_res (pack_source_of lib i (pf_Source v)) (\<lambda>source.
        Inr \<lparr>ar_ID = i, ar_Description = pf_Description v, ar_Source = source, ar_Destination = pf_Destination v,
          ar_Size = pf_Size v, ar_SHA256 = pf_SHA256 v, ar_License = pf_License v, ar_Agreements = [], ar_Target = pf_Target v\<rparr>))"

fun add_artifacts :: "url_library \<Rightarrow> string \<Rightarrow> (string \<times> pack_artifact) list \<Rightarrow> Artifact table \<Rightarrow> string + Artifact table" where
  "add_artifacts lib file [] t = Inr t"
| "add_artifacts lib file ((i, v) # es) t =
     bind_res (pack_artifact_of lib file i v) (\<lambda>a.
       if lookup t i \<noteq> None then Inl (''content pack artifact collides with catalog: '' @ i)
       else add_artifacts lib file es (upsert i a t))"

definition application_target :: "string \<Rightarrow> string \<Rightarrow> bool" where
  "application_target application target \<longleftrightarrow>
     \<not> (application = ''llama-cpp'' \<and> target \<noteq> ''llama-models'' \<or>
        application = ''comfyui'' \<and> target \<noteq> ''models'' \<and> target \<noteq> ''workflows'')"

fun check_members :: "pack_artifact table \<Rightarrow> string \<Rightarrow> string \<Rightarrow> string list \<Rightarrow> string list \<Rightarrow> string option" where
  "check_members raw i application seen [] = None"
| "check_members raw i application seen (a # as) =
     (if a \<in> set seen then Some (''content pack bundle '' @ i @ '' contains duplicate artifact '' @ a)
      else case lookup raw a of
        None \<Rightarrow> Some (''content pack bundle '' @ i @ '' references external artifact'')
      | Some v \<Rightarrow>
          (if \<not> application_target application (pf_Target v)
           then Some (''content pack bundle '' @ i @ '' has an artifact for another application'')
           else check_members raw i application (a # seen) as))"

definition pack_group :: "string \<Rightarrow> string" where
  "pack_group application = (if application = ''comfyui'' then ''comfyui'' else if application = ''llama-cpp'' then ''llama'' else [])"

definition pack_bundle_of :: "pack_artifact table \<Rightarrow> string \<Rightarrow> pack_bundle \<Rightarrow> string + Bundle" where
  "pack_bundle_of raw i v =
     (if \<not> identifierPattern i \<or> pn_Description v = [] \<or>
         pn_Application v \<noteq> ''comfyui'' \<and> pn_Application v \<noteq> ''llama-cpp'' \<or> pn_Artifacts v = []
      then Inl (''content pack has invalid bundle '' @ i)
      else if \<not> exactGroups (pn_Groups v) [''all'', pack_group (pn_Application v)]
      then Inl (''content pack bundle '' @ i @ '' has invalid selector groups'')
      else case check_members raw i (pn_Application v) [] (pn_Artifacts v) of
        Some e \<Rightarrow> Inl e
      | None \<Rightarrow> Inr \<lparr>bn_ID = i, bn_Description = pn_Description v, bn_Application = pn_Application v,
          bn_Artifacts = pn_Artifacts v, bn_Workflow = [], bn_Groups = pn_Groups v\<rparr>)"

fun add_bundles :: "pack_artifact table \<Rightarrow> (string \<times> pack_bundle) list \<Rightarrow> Bundle table \<Rightarrow> string + Bundle table" where
  "add_bundles raw [] t = Inr t"
| "add_bundles raw ((i, v) # es) t =
     bind_res (pack_bundle_of raw i v) (\<lambda>b.
       if lookup t i \<noteq> None then Inl (''content pack bundle collides with catalog: '' @ i)
       else add_bundles raw es (upsert i b t))"

section \<open>Loading\<close>

definition load_pack :: "url_library \<Rightarrow> string \<Rightarrow> pack_document \<Rightarrow> Catalog \<Rightarrow> string + Catalog \<times> string list" where
  "load_pack lib file d c =
     (if pm_Schema d \<noteq> 2 \<or> pm_Artifacts d = [] \<or> pm_Bundles d = []
      then Inl (''content pack '' @ file @ '' must use schema 2 and contain artifacts and bundles'')
      else bind_res (add_artifacts lib file (sort_key fst (pm_Artifacts d)) (ct_Artifacts c)) (\<lambda>artifacts.
        bind_res (add_bundles (pm_Artifacts d) (sort_key fst (pm_Bundles d)) (ct_Bundles c)) (\<lambda>bundles.
        Inr (c\<lparr>ct_Artifacts := artifacts, ct_Bundles := bundles\<rparr>, map fst (sort_key fst (pm_Bundles d))))))"

fun load_packs ::
  "url_library \<Rightarrow> (string \<Rightarrow> string + pack_document) \<Rightarrow> string list \<Rightarrow> Catalog \<Rightarrow> string list \<Rightarrow> string + Catalog \<times> string list" where
  "load_packs lib decode [] c selected = Inr (c, selected)"
| "load_packs lib decode (f # fs) c selected =
     bind_res (decode f) (\<lambda>d. bind_res (load_pack lib f d c) (\<lambda>(c', ids). load_packs lib decode fs c' (selected @ ids)))"

definition LoadPacks ::
  "url_library \<Rightarrow> (string \<Rightarrow> string + pack_document) \<Rightarrow> Catalog \<Rightarrow> string list \<Rightarrow> string + Catalog \<times> string list" where
  "LoadPacks lib decode base files = load_packs lib decode files base []"

section \<open>Properties\<close>

text \<open>What a pack may add.\<close>

definition pack_artifact_ok :: "url_library \<Rightarrow> Artifact \<Rightarrow> bool" where
  "pack_artifact_ok lib a \<longleftrightarrow> identifierPattern (ar_ID a) \<and> 0 < ar_Size a \<and> sha256Pattern (ar_SHA256 a) \<and>
     ar_Target a \<in> {''models'', ''llama-models'', ''workflows''} \<and> safe_destination (ar_Destination a) \<and>
     unverified_license lib (ar_License a)"

definition pack_bundle_ok :: "Catalog \<Rightarrow> Catalog \<Rightarrow> Bundle \<Rightarrow> bool" where
  "pack_bundle_ok base c b \<longleftrightarrow> bn_Artifacts b \<noteq> [] \<and> distinct (bn_Artifacts b) \<and>
     (\<forall>i \<in> set (bn_Artifacts b). lookup (ct_Artifacts base) i = None \<and>
       (\<exists>a. lookup (ct_Artifacts c) i = Some a \<and> application_target (bn_Application b) (ar_Target a)))"

definition keeps :: "'v table \<Rightarrow> 'v table \<Rightarrow> bool" where
  "keeps t t' \<longleftrightarrow> (\<forall>i v. lookup t i = Some v \<longrightarrow> lookup t' i = Some v)"

definition extends_catalog :: "url_library \<Rightarrow> Catalog \<Rightarrow> Catalog \<Rightarrow> string list \<Rightarrow> bool" where
  "extends_catalog lib base c ids \<longleftrightarrow>
     c\<lparr>ct_Artifacts := [], ct_Bundles := []\<rparr> = base\<lparr>ct_Artifacts := [], ct_Bundles := []\<rparr> \<and>
     keeps (ct_Artifacts base) (ct_Artifacts c) \<and> keeps (ct_Bundles base) (ct_Bundles c) \<and> distinct ids \<and>
     (\<forall>i a. lookup (ct_Artifacts c) i = Some a \<longrightarrow> lookup (ct_Artifacts base) i = None \<longrightarrow> ar_ID a = i \<and> pack_artifact_ok lib a) \<and>
     (\<forall>i b. lookup (ct_Bundles c) i = Some b \<longrightarrow> lookup (ct_Bundles base) i = None \<longrightarrow> i \<in> set ids) \<and>
     (\<forall>i \<in> set ids. lookup (ct_Bundles base) i = None \<and>
       (\<exists>b. lookup (ct_Bundles c) i = Some b \<and> bn_ID b = i \<and> pack_bundle_ok base c b))"

lemma pack_artifact_of_ok:
  "pack_artifact_of lib file i v = Inr a \<Longrightarrow> ar_ID a = i \<and> ar_Target a = pf_Target v \<and> pack_artifact_ok lib a"
  by (auto simp: pack_artifact_of_def pack_artifact_ok_def split: if_splits)

lemma keeps_refl: "keeps t t"
  by (simp add: keeps_def)

lemma keeps_trans: "keeps t u \<Longrightarrow> keeps u v \<Longrightarrow> keeps t v"
  by (simp add: keeps_def)

lemma keeps_upsert: "lookup t i = None \<Longrightarrow> keeps t (upsert i a t)"
  by (auto simp: keeps_def)

lemma keeps_None: "keeps t u \<Longrightarrow> lookup u i = None \<Longrightarrow> lookup t i = None"
  by (metis keeps_def not_None_eq)

lemma add_artifacts_ok:
  "add_artifacts lib f es t = Inr t' \<Longrightarrow> keeps t t' \<and>
    (\<forall>i a. lookup t' i = Some a \<longrightarrow> lookup t i = None \<longrightarrow> ar_ID a = i \<and> pack_artifact_ok lib a) \<and>
    (\<forall>(i, v) \<in> set es. lookup t i = None \<and> (\<exists>a. lookup t' i = Some a \<and> ar_Target a = pf_Target v))"
proof (induction lib f es t rule: add_artifacts.induct)
  case (2 lib f i v es t)
  obtain a where a: "pack_artifact_of lib f i v = Inr a" "lookup t i = None" "add_artifacts lib f es (upsert i a t) = Inr t'"
    using "2.prems" by (auto split: if_splits)
  note A = pack_artifact_of_ok [OF a(1)]
  have I: "keeps (upsert i a t) t'"
    "\<And>j b. lookup t' j = Some b \<Longrightarrow> lookup (upsert i a t) j = None \<Longrightarrow> ar_ID b = j \<and> pack_artifact_ok lib b"
    "\<And>j w. (j, w) \<in> set es \<Longrightarrow> lookup (upsert i a t) j = None \<and> (\<exists>b. lookup t' j = Some b \<and> ar_Target b = pf_Target w)"
    using "2.IH" [OF _ a(3)] a(2) by auto
  have k: "keeps t t'" by (rule keeps_trans [OF keeps_upsert [OF a(2)] I(1)])
  have i: "lookup t' i = Some a" using I(1) by (simp add: keeps_def)
  have new: "ar_ID b = j \<and> pack_artifact_ok lib b" if "lookup t' j = Some b" "lookup t j = None" for j b
    using I(2) [of j b] that i A by (cases "j = i") auto
  have "lookup t j = None \<and> (\<exists>b. lookup t' j = Some b \<and> ar_Target b = pf_Target w)" if "(j, w) \<in> set ((i, v) # es)" for j w
    using that I(3) [of j w] i A a(2) by (auto split: if_splits)
  with k new show ?case by blast
qed (simp add: keeps_refl)

lemma check_members_ok:
  "check_members raw i app seen as = None \<Longrightarrow> distinct as \<and> set as \<inter> set seen = {} \<and>
    (\<forall>a \<in> set as. \<exists>v. lookup raw a = Some v \<and> application_target app (pf_Target v))"
  by (induction raw i app seen as rule: check_members.induct) (auto split: if_splits option.splits)

lemma pack_bundle_of_ok:
  "pack_bundle_of raw i v = Inr b \<Longrightarrow> bn_ID b = i \<and> bn_Artifacts b \<noteq> [] \<and> distinct (bn_Artifacts b) \<and>
    (\<forall>a \<in> set (bn_Artifacts b). \<exists>w. lookup raw a = Some w \<and> application_target (bn_Application b) (pf_Target w))"
  by (auto simp: pack_bundle_of_def split: if_splits option.splits dest!: check_members_ok)

lemma add_bundles_ok:
  "add_bundles raw es t = Inr t' \<Longrightarrow> keeps t t' \<and> distinct (map fst es) \<and>
    (\<forall>i b. lookup t' i = Some b \<longrightarrow> lookup t i = None \<longrightarrow> i \<in> fst ` set es) \<and>
    (\<forall>(i, v) \<in> set es. lookup t i = None \<and> (\<exists>b. lookup t' i = Some b \<and> pack_bundle_of raw i v = Inr b))"
proof (induction raw es t rule: add_bundles.induct)
  case (2 raw i v es t)
  obtain b where b: "pack_bundle_of raw i v = Inr b" "lookup t i = None" "add_bundles raw es (upsert i b t) = Inr t'"
    using "2.prems" by (auto split: if_splits)
  have I: "keeps (upsert i b t) t'" "distinct (map fst es)"
    "\<And>j c. lookup t' j = Some c \<Longrightarrow> lookup (upsert i b t) j = None \<Longrightarrow> j \<in> fst ` set es"
    "\<And>j w. (j, w) \<in> set es \<Longrightarrow> lookup (upsert i b t) j = None \<and> (\<exists>c. lookup t' j = Some c \<and> pack_bundle_of raw j w = Inr c)"
    using "2.IH" [OF _ b(3)] b(2) by auto
  have k: "keeps t t'" by (rule keeps_trans [OF keeps_upsert [OF b(2)] I(1)])
  have i: "lookup t' i = Some b" using I(1) by (simp add: keeps_def)
  have d: "i \<notin> fst ` set es" using I(4) by fastforce
  have new: "j \<in> fst ` set ((i, v) # es)" if "lookup t' j = Some c" "lookup t j = None" for j c
    using I(3) [of j c] that by (cases "j = i") auto
  have "lookup t j = None \<and> (\<exists>c. lookup t' j = Some c \<and> pack_bundle_of raw j w = Inr c)" if "(j, w) \<in> set ((i, v) # es)" for j w
    using that I(4) [of j w] i b(1,2) by (auto split: if_splits)
  with k d I(2) new show ?case by (simp add: image_iff) blast
qed (simp add: keeps_refl)

lemma set_sort_table: "(\<forall>p \<in> set (sort_key fst t). P p) \<longleftrightarrow> (\<forall>p \<in> set t. P p)"
  by simp

lemma load_pack_extends:
  assumes "load_pack lib f d c = Inr (c', ids)"
  shows "extends_catalog lib c c' ids"
proof -
  obtain arts bundles where l: "add_artifacts lib f (sort_key fst (pm_Artifacts d)) (ct_Artifacts c) = Inr arts"
    "add_bundles (pm_Artifacts d) (sort_key fst (pm_Bundles d)) (ct_Bundles c) = Inr bundles"
    "c' = c\<lparr>ct_Artifacts := arts, ct_Bundles := bundles\<rparr>" "ids = map fst (sort_key fst (pm_Bundles d))"
    using assms by (auto simp: load_pack_def split: if_splits)
  note A = add_artifacts_ok [OF l(1)] and B = add_bundles_ok [OF l(2)]
  have t: "ct_Artifacts c' = arts" "ct_Bundles c' = bundles" by (simp_all add: l(3))
  have member: "lookup (ct_Artifacts c) a = None \<and> (\<exists>x. lookup arts a = Some x \<and> ar_Target x = pf_Target w)"
    if "lookup (pm_Artifacts d) a = Some w" for a w
    using A map_of_SomeD [OF that] by auto
  have closed: "pack_bundle_ok c c' b" if "pack_bundle_of (pm_Artifacts d) i v = Inr b" for i v b
    unfolding pack_bundle_ok_def t using pack_bundle_of_ok [OF that] member by metis
  have new: "lookup (ct_Bundles c) i = None \<and> (\<exists>b. lookup bundles i = Some b \<and> bn_ID b = i \<and> pack_bundle_ok c c' b)"
    if "i \<in> set ids" for i
  proof -
    from that obtain v where "(i, v) \<in> set (sort_key fst (pm_Bundles d))" by (auto simp: l(4))
    with B obtain b where b: "lookup (ct_Bundles c) i = None" "lookup bundles i = Some b"
      "pack_bundle_of (pm_Artifacts d) i v = Inr b" by blast
    with pack_bundle_of_ok [OF b(3)] closed [OF b(3)] show ?thesis by blast
  qed
  have ids: "set ids = fst ` set (sort_key fst (pm_Bundles d))" by (simp add: l(4))
  show ?thesis
    unfolding extends_catalog_def t
  proof (intro conjI)
    show "c'\<lparr>ct_Artifacts := [], ct_Bundles := []\<rparr> = c\<lparr>ct_Artifacts := [], ct_Bundles := []\<rparr>" by (simp add: l(3))
    show "distinct ids" using B by (simp only: l(4))
    show "\<forall>i b. lookup bundles i = Some b \<longrightarrow> lookup (ct_Bundles c) i = None \<longrightarrow> i \<in> set ids"
      unfolding ids using B by blast
    show "\<forall>i \<in> set ids. lookup (ct_Bundles c) i = None \<and> (\<exists>b. lookup bundles i = Some b \<and> bn_ID b = i \<and> pack_bundle_ok c c' b)"
      using new by blast
  qed (use A B in blast)+
qed

lemma extends_catalog_trans:
  assumes "extends_catalog lib a b ids" "extends_catalog lib b c ids'"
  shows "extends_catalog lib a c (ids @ ids')"
proof -
  note A = assms(1) [unfolded extends_catalog_def] and B = assms(2) [unfolded extends_catalog_def]
  have ka: "keeps (ct_Artifacts a) (ct_Artifacts b)" "keeps (ct_Bundles a) (ct_Bundles b)" using A by blast+
  have kb: "keeps (ct_Artifacts b) (ct_Artifacts c)" "keeps (ct_Bundles b) (ct_Bundles c)" using B by blast+
  have 1: "pack_bundle_ok a c x" if "pack_bundle_ok a b x" for x
    using that kb(1) unfolding pack_bundle_ok_def keeps_def by blast
  have 2: "pack_bundle_ok a c x" if "pack_bundle_ok b c x" for x
    using that keeps_None [OF ka(1)] unfolding pack_bundle_ok_def by blast
  have new: "lookup (ct_Bundles a) i = None \<and> (\<exists>x. lookup (ct_Bundles c) i = Some x \<and> bn_ID x = i \<and> pack_bundle_ok a c x)"
    if "i \<in> set (ids @ ids')" for i
  proof (cases "i \<in> set ids")
    case True
    then obtain x where "lookup (ct_Bundles a) i = None" "lookup (ct_Bundles b) i = Some x" "bn_ID x = i" "pack_bundle_ok a b x"
      using A by blast
    with kb(2) 1 show ?thesis unfolding keeps_def by blast
  next
    case False
    then have "i \<in> set ids'" using that by simp
    with B keeps_None [OF ka(2)] 2 show ?thesis by blast
  qed
  have "set ids \<inter> set ids' = {}"
  proof (rule ccontr)
    assume "set ids \<inter> set ids' \<noteq> {}"
    then obtain i where i: "i \<in> set ids" "i \<in> set ids'" by blast
    then obtain x where "lookup (ct_Bundles b) i = Some x" using A by blast
    moreover have "lookup (ct_Bundles b) i = None" using B i(2) by blast
    ultimately show False by simp
  qed
  then have d: "distinct (ids @ ids')" using A B by simp
  have fresh: "ar_ID x = i \<and> pack_artifact_ok lib x" if x: "lookup (ct_Artifacts c) i = Some x" "lookup (ct_Artifacts a) i = None" for i x
  proof (cases "lookup (ct_Artifacts b) i")
    case None
    then show ?thesis using B x(1) by blast
  next
    case (Some y)
    then have "y = x" using kb(1) x(1) by (simp add: keeps_def)
    then show ?thesis using A Some x(2) by blast
  qed
  have bundles: "i \<in> set (ids @ ids')" if "lookup (ct_Bundles c) i = Some x" "lookup (ct_Bundles a) i = None" for i x
    using that A B by (cases "lookup (ct_Bundles b) i") auto
  have "c\<lparr>ct_Artifacts := [], ct_Bundles := []\<rparr> = a\<lparr>ct_Artifacts := [], ct_Bundles := []\<rparr>"
    using A B by (simp only:)
  with d fresh bundles new keeps_trans [OF ka(1) kb(1)] keeps_trans [OF ka(2) kb(2)] show ?thesis
    unfolding extends_catalog_def by blast
qed

lemma load_packs_extends:
  "load_packs lib decode fs c selected = Inr (c', ids) \<Longrightarrow> \<exists>new. ids = selected @ new \<and> extends_catalog lib c c' new"
proof (induction fs arbitrary: c selected)
  case Nil
  then show ?case by (auto simp: extends_catalog_def keeps_refl)
next
  case (Cons f fs)
  obtain d c1 new where s: "load_pack lib f d c = Inr (c1, new)" "load_packs lib decode fs c1 (selected @ new) = Inr (c', ids)"
    using Cons.prems by auto
  from Cons.IH [OF s(2)] obtain more where m: "ids = (selected @ new) @ more" "extends_catalog lib c1 c' more" by blast
  from m(1) extends_catalog_trans [OF load_pack_extends [OF s(1)] m(2)] show ?case by auto
qed

text \<open>
  C33: Loading packs never changes an entry of the catalog and adds only checked ones: every new
  artifact has a pinned digest and size, a known target and an explicitly unverified license, and
  the selected bundles are exactly the new ones, made of new artifacts of their application.
\<close>

lemma packs_only_add:
  assumes "LoadPacks lib decode base files = Inr (c, ids)"
  shows "extends_catalog lib base c ids"
  using load_packs_extends [OF assms [unfolded LoadPacks_def]] by simp

section \<open>A pack\<close>

definition no_catalog :: Catalog where
  "no_catalog = \<lparr>ct_Agreements = [], ct_Artifacts = [], ct_Bundles = [], ct_Workflows = [], ct_Benchmarks = [],
     ct_SamplingPolicies = [], ct_LlamaPresets = []\<rparr>"

definition pack_urls :: url_library where
  "pack_urls = \<lparr>url_Parse = (\<lambda>v. Some \<lparr>url_Opaque = [], url_Scheme = ''https'', url_Hostname = ''h'', url_Host = ''h'',
     url_User = False, url_RawQuery = [], url_ForceQuery = False, url_Fragment = [], url_Port = [], url_EscapedPath = v, url_Path = v\<rparr>),
     url_render = (\<lambda>u p. p)\<rparr>"

definition demo_pack_artifact :: "string \<Rightarrow> pack_artifact" where
  "demo_pack_artifact destination = \<lparr>pf_Description = ''d'', pf_Source = \<lparr>ps_Provider = [], ps_Repository = ''r'',
     ps_Revision = replicate 40 (CHR ''0''), ps_Path = ''f'', ps_Host = [], ps_Filename = [], ps_DownloadURL = [], ps_ModelID = 0,
     ps_ModelVersionID = 0, ps_RequiresAuth = False\<rparr>, pf_Target = ''models'', pf_Destination = destination, pf_Size = 1,
     pf_SHA256 = replicate 64 (CHR ''0''), pf_License = \<lparr>li_SPDX = ''NOASSERTION'', li_Status = ''unverified'', li_URL = ''u'',
     li_Warning = ''w'', li_UpstreamRepository = [], li_UpstreamLicense = [], li_UpstreamLicenseURL = []\<rparr>\<rparr>"

definition demo_pack :: pack_document where
  "demo_pack = \<lparr>pm_Schema = 2, pm_Artifacts = [(''a'', demo_pack_artifact ''..''), (''b'', demo_pack_artifact ''..'')],
     pm_Bundles = [(''set'', \<lparr>pn_Description = ''d'', pn_Application = ''comfyui'', pn_Artifacts = [''a'', ''b''],
       pn_Groups = [''comfyui'', ''all'']\<rparr>)]\<rparr>"

text \<open>
  The destination is checked alone: the path \<^verbatim>\<open>..\<close> passes, and so do two artifacts with one destination, which
  the catalog itself refuses.
\<close>

lemma pack_destinations_unchecked:
  "case LoadPacks pack_urls (\<lambda>_. Inr demo_pack) no_catalog [''p''] of
     Inl _ \<Rightarrow> False
   | Inr (c, ids) \<Rightarrow> ids = [''set''] \<and> map (\<lambda>(i, a). (i, ar_Destination a)) (ct_Artifacts c) = [(''a'', ''..''), (''b'', ''..'')]"
  by code_simp

lemma packs_only_add_witness:
  "\<exists>c. extends_catalog pack_urls no_catalog c [''set''] \<and> map fst (ct_Artifacts c) = [''a'', ''b'']"
proof -
  obtain c where c: "LoadPacks pack_urls (\<lambda>_. Inr demo_pack) no_catalog [''p''] = Inr (c, [''set''])"
    "map (\<lambda>(i, a). (i, ar_Destination a)) (ct_Artifacts c) = [(''a'', ''..''), (''b'', ''..'')]"
    using pack_destinations_unchecked by (auto split: sum.splits prod.splits)
  then have "map fst (map (\<lambda>(i, a). (i, ar_Destination a)) (ct_Artifacts c)) = [''a'', ''b'']" by simp
  then have "map fst (ct_Artifacts c) = [''a'', ''b'']" by (simp add: comp_def case_prod_beta)
  with packs_only_add [OF c(1)] show ?thesis by (intro exI [of _ c] conjI)
qed

end
