(* ===== verification/AtomicFile.thy ===== *)
theory AtomicFile
  imports Catalog
begin

text \<open>
  Durable files that never appear half written (\<^verbatim>\<open>internal/atomicfile/file.go\<close>). The disk maps paths to inodes; an
  inode keeps its bytes and those that survive a power loss. Other processes change the disk before every
  system call, and any call may fail. Directories are not part of the disk: creating one may only fail.
\<close>

section \<open>The disk\<close>

record inode =
  in_regular :: bool
  in_perm :: nat
  in_nlink :: nat
  in_bytes :: string
  in_durable :: string

record disk =
  dk_entries :: "string \<Rightarrow> nat option"
  dk_nodes :: "nat \<Rightarrow> inode"

text \<open>
  \<open>vo_others\<close> is what other processes will do, \<open>vo_moves\<close> what this one did, \<open>vo_trace\<close> every disk so far, and
  \<open>vo_synced\<close> the number of disks that a synced directory has made history: a power loss may
  bring back the entries of any later one.
\<close>

record volume =
  vo_disk :: disk
  vo_others :: "(disk \<Rightarrow> disk) list"
  vo_moves :: "(disk \<times> disk) list"
  vo_trace :: "disk list"
  vo_synced :: nat

definition others :: "volume \<Rightarrow> volume" where
  "others v =
     (let d = (case vo_others v of [] \<Rightarrow> vo_disk v | f # _ \<Rightarrow> f (vo_disk v)) in
      v\<lparr>vo_disk := d, vo_others := tl (vo_others v), vo_trace := vo_trace v @ [d]\<rparr>)"

definition own :: "(disk \<Rightarrow> disk) \<Rightarrow> volume \<Rightarrow> volume" where
  "own f v = (let d = f (vo_disk v) in
     v\<lparr>vo_disk := d, vo_moves := vo_moves v @ [(vo_disk v, d)], vo_trace := vo_trace v @ [d]\<rparr>)"

text \<open>The operating system: a call at a time may fail, a failed write leaves a prefix; the random part of a temporary name and its inode.\<close>

record io_env =
  io_fail :: "string \<Rightarrow> nat \<Rightarrow> string option"
  io_partial :: "nat \<Rightarrow> nat"
  io_temp :: string
  io_inode :: nat
  io_cwd :: string

definition failing :: "io_env \<Rightarrow> string \<Rightarrow> volume \<Rightarrow> string option" where
  "failing io call v = io_fail io call (length (vo_trace v))"

text \<open>A call that changes the disk, unless it fails.\<close>

definition syscall :: "io_env \<Rightarrow> string \<Rightarrow> (disk \<Rightarrow> disk) \<Rightarrow> volume \<Rightarrow> string option \<times> volume" where
  "syscall io call f v =
     (let v1 = others v in case failing io call v1 of Some e \<Rightarrow> (Some e, v1) | None \<Rightarrow> (None, own f v1))"

datatype lookup_result = NotExist | StatError string | Found inode

definition stat_path :: "io_env \<Rightarrow> string \<Rightarrow> volume \<Rightarrow> lookup_result \<times> volume" where
  "stat_path io p v =
     (let v1 = others v in
      case failing io ''lstat'' v1 of
        Some e \<Rightarrow> (StatError e, v1)
      | None \<Rightarrow> (case dk_entries (vo_disk v1) p of None \<Rightarrow> (NotExist, v1) | Some i \<Rightarrow> (Found (dk_nodes (vo_disk v1) i), v1)))"

definition set_node :: "nat \<Rightarrow> (inode \<Rightarrow> inode) \<Rightarrow> disk \<Rightarrow> disk" where
  "set_node n f d = d\<lparr>dk_nodes := (dk_nodes d)(n := f (dk_nodes d n))\<rparr>"

definition create_node :: "string \<Rightarrow> nat \<Rightarrow> disk \<Rightarrow> disk" where
  "create_node t n d = d\<lparr>dk_entries := (dk_entries d)(t \<mapsto> n),
     dk_nodes := (dk_nodes d)(n := \<lparr>in_regular = True, in_perm = 384, in_nlink = 1, in_bytes = [], in_durable = []\<rparr>)\<rparr>"

definition link_path :: "string \<Rightarrow> string \<Rightarrow> disk \<Rightarrow> disk" where
  "link_path t p d = (case dk_entries d t of
     None \<Rightarrow> d
   | Some n \<Rightarrow> set_node n (\<lambda>x. x\<lparr>in_nlink := in_nlink x + 1\<rparr>) (d\<lparr>dk_entries := (dk_entries d)(p \<mapsto> n)\<rparr>))"

definition unlink_path :: "string \<Rightarrow> disk \<Rightarrow> disk" where
  "unlink_path t d = (case dk_entries d t of
     None \<Rightarrow> d
   | Some n \<Rightarrow> set_node n (\<lambda>x. x\<lparr>in_nlink := in_nlink x - 1\<rparr>) (d\<lparr>dk_entries := (dk_entries d)(t := None)\<rparr>))"

definition rename_path :: "string \<Rightarrow> string \<Rightarrow> disk \<Rightarrow> disk" where
  "rename_path t p d = (case dk_entries d t of
     None \<Rightarrow> d
   | Some n \<Rightarrow> (let d1 = unlink_path p d in d1\<lparr>dk_entries := (dk_entries d1)(p \<mapsto> n, t := None)\<rparr>))"

section \<open>Publication\<close>

datatype Policy = Create | ReplaceRegular | OtherPolicy nat

definition singlyLinkedRegular :: "inode \<Rightarrow> bool" where
  "singlyLinkedRegular x \<longleftrightarrow> in_regular x \<and> in_nlink x = 1"

definition syncDirectory :: "io_env \<Rightarrow> volume \<Rightarrow> string option \<times> volume" where
  "syncDirectory io v =
     (let v1 = others v in
      case failing io ''syncdir'' v1 of
        Some e \<Rightarrow> (Some e, v1)
      | None \<Rightarrow> (None, v1\<lparr>vo_synced := length (vo_trace v1) - 1\<rparr>))"

definition sync_output :: "io_env \<Rightarrow> string \<Rightarrow> volume \<Rightarrow> string option \<times> volume" where
  "sync_output io path v =
     (case syncDirectory io v of
        (Some e, v1) \<Rightarrow> (Some (''sync output directory '' @ Dir path @ '': '' @ e), v1)
      | (None, v1) \<Rightarrow> (None, v1))"

definition rename_output :: "io_env \<Rightarrow> string \<Rightarrow> string \<Rightarrow> volume \<Rightarrow> string option \<times> volume" where
  "rename_output io path temporary v =
     (let v1 = others v in
      if dk_entries (vo_disk v1) temporary = None then (Some (''replace output '' @ path @ '': file does not exist''), v1)
      else case failing io ''rename'' v1 of
        Some e \<Rightarrow> (Some (''replace output '' @ path @ '': '' @ e), v1)
      | None \<Rightarrow> sync_output io path (own (rename_path temporary path) v1))"

text \<open>\<^verbatim>\<open>link\<close> fails when the name is taken or the source is gone; \<^verbatim>\<open>rename\<close> when the source is gone.\<close>

definition publishSynced :: "io_env \<Rightarrow> string \<Rightarrow> string \<Rightarrow> Policy \<Rightarrow> volume \<Rightarrow> string option \<times> volume" where
  "publishSynced io path temporary policy v =
     (case policy of
        Create \<Rightarrow>
          (let v1 = others v in
           if dk_entries (vo_disk v1) path \<noteq> None then (Some (''refusing to replace existing file: '' @ path), v1)
           else if dk_entries (vo_disk v1) temporary = None then (Some (''publish output '' @ path @ '': file does not exist''), v1)
           else (case failing io ''link'' v1 of
             Some e \<Rightarrow> (Some (''publish output '' @ path @ '': '' @ e), v1)
           | None \<Rightarrow> sync_output io path (own (link_path temporary path) v1)))
      | ReplaceRegular \<Rightarrow>
          (case stat_path io path v of
             (Found x, v1) \<Rightarrow>
               (if \<not> singlyLinkedRegular x
                then (Some (''refusing to replace file that is not a singly linked regular file: '' @ path), v1)
                else rename_output io path temporary v1)
           | (NotExist, v1) \<Rightarrow> rename_output io path temporary v1
           | (StatError e, v1) \<Rightarrow> (Some (''inspect output '' @ path @ '': '' @ e), v1))
      | OtherPolicy _ \<Rightarrow> (Some ''invalid atomic-file policy'', v))"

section \<open>Writing\<close>

definition temp_path :: "io_env \<Rightarrow> string \<Rightarrow> string" where
  "temp_path io path = Join [Dir path, ''.'' @ Base path @ ''.'' @ io_temp io @ ''.tmp'']"

text \<open>The deferred removal of the temporary file.\<close>

definition remove_temp :: "io_env \<Rightarrow> string \<Rightarrow> string option \<times> volume \<Rightarrow> string option \<times> volume" where
  "remove_temp io t rv = (fst rv, snd (syscall io ''remove'' (unlink_path t) (snd rv)))"

text \<open>The steps on the open temporary file; a failed write leaves a part of the contents.\<close>

definition fill_temp :: "io_env \<Rightarrow> nat \<Rightarrow> string \<Rightarrow> nat \<Rightarrow> volume \<Rightarrow> string option \<times> volume" where
  "fill_temp io n contents mode v =
     (case syscall io ''chmod'' (set_node n (\<lambda>x. x\<lparr>in_perm := mode\<rparr>)) v of
        (Some e, v1) \<Rightarrow> (Some (''set output mode: '' @ e), v1)
      | (None, v1) \<Rightarrow>
          (let v2 = others v1 in
           case failing io ''write'' v2 of
             Some e \<Rightarrow> (Some (''write temporary output: '' @ e),
               own (set_node n (\<lambda>x. x\<lparr>in_bytes := take (io_partial io (length (vo_trace v2))) contents\<rparr>)) v2)
           | None \<Rightarrow>
               (case syscall io ''sync'' (set_node n (\<lambda>x. x\<lparr>in_durable := in_bytes x\<rparr>))
                   (own (set_node n (\<lambda>x. x\<lparr>in_bytes := contents\<rparr>)) v2) of
                  (Some e, v3) \<Rightarrow> (Some (''sync temporary output: '' @ e), v3)
                | (None, v3) \<Rightarrow>
                    (case syscall io ''close'' id v3 of
                       (Some e, v4) \<Rightarrow> (Some (''close temporary output: '' @ e), v4)
                     | (None, v4) \<Rightarrow> (None, v4)))))"

definition write_checked :: "io_env \<Rightarrow> string \<Rightarrow> string \<Rightarrow> nat \<Rightarrow> Policy \<Rightarrow> volume \<Rightarrow> string option \<times> volume" where
  "write_checked io path contents mode policy v =
     (case syscall io ''mkdir'' id v of
        (Some e, v1) \<Rightarrow> (Some (''prepare output directory '' @ Dir path @ '': '' @ e), v1)
      | (None, v1) \<Rightarrow>
          (let v2 = others v1; t = temp_path io path; n = io_inode io in
           case (if dk_entries (vo_disk v2) t \<noteq> None then Some ''file exists'' else failing io ''createtemp'' v2) of
             Some e \<Rightarrow> (Some (''create temporary output in '' @ Dir path @ '': '' @ e), v2)
           | None \<Rightarrow>
               remove_temp io t
                 (case fill_temp io n contents mode (own (create_node t n) v2) of
                    (Some e, v3) \<Rightarrow> (Some e, v3)
                  | (None, v3) \<Rightarrow> publishSynced io path t policy v3)))"

definition Write :: "io_env \<Rightarrow> string \<Rightarrow> string \<Rightarrow> nat \<Rightarrow> Policy \<Rightarrow> volume \<Rightarrow> string option \<times> volume" where
  "Write io name contents mode policy v =
     (let path = Abs (io_cwd io) name in
      case stat_path io path v of
        (r, v1) \<Rightarrow>
          (case policy of
             OtherPolicy _ \<Rightarrow> (Some ''invalid atomic-file policy'', v1)
           | _ \<Rightarrow>
               (case r of
                  StatError e \<Rightarrow> (Some (''inspect output '' @ path @ '': '' @ e), v1)
                | Found x \<Rightarrow>
                    (if policy = Create then (Some (''refusing to replace existing file: '' @ path), v1)
                     else if \<not> singlyLinkedRegular x
                     then (Some (''refusing to replace file that is not a singly linked regular file: '' @ path), v1)
                     else write_checked io path contents mode policy v1)
                | NotExist \<Rightarrow> write_checked io path contents mode policy v1)))"

text \<open>\<open>marshal\<close> is the encoder of the value.\<close>

definition WriteJSON ::
  "io_env \<Rightarrow> ('a \<Rightarrow> string + string) \<Rightarrow> string \<Rightarrow> 'a \<Rightarrow> nat \<Rightarrow> Policy \<Rightarrow> volume \<Rightarrow> string option \<times> volume" where
  "WriteJSON io marshal name x mode policy v =
     (case marshal x of
        Inl e \<Rightarrow> (Some (''encode '' @ name @ '': '' @ e), v)
      | Inr contents \<Rightarrow> Write io name (contents @ [NL]) mode policy v)"

section \<open>Ensuring and publishing\<close>

definition read_path :: "io_env \<Rightarrow> string \<Rightarrow> volume \<Rightarrow> (string + string) \<times> volume" where
  "read_path io p v =
     (let v1 = others v in
      case failing io ''read'' v1 of
        Some e \<Rightarrow> (Inl e, v1)
      | None \<Rightarrow> (case dk_entries (vo_disk v1) p of
          None \<Rightarrow> (Inl ''file does not exist'', v1) | Some i \<Rightarrow> (Inr (in_bytes (dk_nodes (vo_disk v1) i)), v1)))"

definition Ensure :: "io_env \<Rightarrow> string \<Rightarrow> string \<Rightarrow> nat \<Rightarrow> volume \<Rightarrow> string option \<times> volume" where
  "Ensure io name contents mode v =
     (let path = Abs (io_cwd io) name in
      case stat_path io path v of
        (Found x, v1) \<Rightarrow>
          (if \<not> singlyLinkedRegular x then (Some (''existing output is not a singly linked regular file: '' @ path), v1)
           else (case read_path io path v1 of
             (Inl e, v2) \<Rightarrow> (Some e, v2)
           | (Inr current, v2) \<Rightarrow>
               (if current \<noteq> contents then (Some (''refusing to replace differing existing file: '' @ path), v2)
                else if in_perm x \<noteq> mode then (Some (''existing output has unexpected permissions: '' @ path), v2)
                else (None, v2))))
      | (StatError e, v1) \<Rightarrow> (Some e, v1)
      | (NotExist, v1) \<Rightarrow>
          (case Write io name contents mode Create v1 of
             (None, v2) \<Rightarrow> (None, v2)
           | (Some publishErr, v2) \<Rightarrow>
               (case stat_path io path v2 of
                  (NotExist, v3) \<Rightarrow> (Some publishErr, v3)
                | (StatError e, v3) \<Rightarrow> (Some (''cannot publish immutable output: '' @ path), v3)
                | (Found x, v3) \<Rightarrow>
                    (if \<not> singlyLinkedRegular x then (Some (''cannot publish immutable output: '' @ path), v3)
                     else (case read_path io path v3 of
                       (Inl e, v4) \<Rightarrow> (Some (''refusing differing concurrently created file: '' @ path), v4)
                     | (Inr current, v4) \<Rightarrow>
                         (if current \<noteq> contents then (Some (''refusing differing concurrently created file: '' @ path), v4)
                          else if in_perm x \<noteq> mode
                          then (Some (''concurrently created output has unexpected permissions: '' @ path), v4)
                          else (None, v4)))))))"

text \<open>A call that resolves a name, and fails when there is none.\<close>

definition syscall_at :: "io_env \<Rightarrow> string \<Rightarrow> string \<Rightarrow> (inode \<Rightarrow> inode) \<Rightarrow> volume \<Rightarrow> string option \<times> volume" where
  "syscall_at io call p f v =
     (let v1 = others v in
      case dk_entries (vo_disk v1) p of
        None \<Rightarrow> (Some ''file does not exist'', v1)
      | Some n \<Rightarrow> (case failing io call v1 of Some e \<Rightarrow> (Some e, v1) | None \<Rightarrow> (None, own (set_node n f) v1)))"

definition Publish :: "io_env \<Rightarrow> string \<Rightarrow> string \<Rightarrow> nat \<Rightarrow> Policy \<Rightarrow> volume \<Rightarrow> string option \<times> volume" where
  "Publish io name temporaryName mode policy v =
     (let path = Abs (io_cwd io) name; temporary = Abs (io_cwd io) temporaryName in
      if Dir path \<noteq> Dir temporary
      then (Some (''temporary output must share destination directory: '' @ temporary), v)
      else (case stat_path io temporary v of
        (Found x, v1) \<Rightarrow>
          (if \<not> singlyLinkedRegular x then (Some (''temporary output is not a singly linked regular file: '' @ temporary), v1)
           else (case syscall_at io ''chmod'' temporary (\<lambda>x. x\<lparr>in_perm := mode\<rparr>) v1 of
             (Some e, v2) \<Rightarrow> (Some (''set temporary output mode: '' @ e), v2)
           | (None, v2) \<Rightarrow>
               (case syscall_at io ''sync'' temporary (\<lambda>x. x\<lparr>in_durable := in_bytes x\<rparr>) v2 of
                  (Some e, v3) \<Rightarrow> (Some (''sync temporary output: '' @ e), v3)
                | (None, v3) \<Rightarrow>
                    (case syscall io ''close'' id v3 of
                       (Some e, v4) \<Rightarrow> (Some (''close temporary output: '' @ e), v4)
                     | (None, v4) \<Rightarrow> publishSynced io path temporary policy v4))))
      | (_, v1) \<Rightarrow> (Some (''temporary output is not a singly linked regular file: '' @ temporary), v1)))"

section \<open>Properties\<close>

text \<open>The file to be published: its path, its temporary name and inode, what it must hold.\<close>

record target =
  tg_path :: string
  tg_temp :: string
  tg_inode :: nat
  tg_contents :: string
  tg_mode :: nat
  tg_policy :: Policy

definition complete :: "target \<Rightarrow> inode \<Rightarrow> bool" where
  "complete g x \<longleftrightarrow> in_regular x \<and> in_bytes x = tg_contents g \<and> in_durable x = tg_contents g \<and> in_perm x = tg_mode g"

text \<open>
  What this process may do to the disk: apart from the temporary name, it changes no entry but the
  path, which it gives the complete file (creating it only where there was none), and no file but its own, except
  for the number of links. A published file stays complete.
\<close>

definition good_move :: "target \<Rightarrow> disk \<times> disk \<Rightarrow> bool" where
  "good_move g m \<longleftrightarrow> (case m of (d, d') \<Rightarrow>
     (\<forall>q. q \<noteq> tg_temp g \<longrightarrow> dk_entries d' q = dk_entries d q \<or>
        q = tg_path g \<and> dk_entries d' q = Some (tg_inode g) \<and> complete g (dk_nodes d' (tg_inode g)) \<and>
        (tg_policy g = Create \<longrightarrow> dk_entries d q = None)) \<and>
     (\<forall>i. i \<noteq> tg_inode g \<longrightarrow> in_regular (dk_nodes d' i) = in_regular (dk_nodes d i) \<and>
        in_bytes (dk_nodes d' i) = in_bytes (dk_nodes d i) \<and> in_durable (dk_nodes d' i) = in_durable (dk_nodes d i) \<and>
        in_perm (dk_nodes d' i) = in_perm (dk_nodes d i)) \<and>
     (dk_entries d (tg_path g) = Some (tg_inode g) \<and> tg_path g \<noteq> tg_temp g \<longrightarrow>
        dk_entries d' (tg_path g) = Some (tg_inode g) \<and>
        in_durable (dk_nodes d' (tg_inode g)) = in_durable (dk_nodes d (tg_inode g))))"

text \<open>Other processes leave the temporary name and its inode alone.\<close>

definition undisturbed :: "target \<Rightarrow> (disk \<Rightarrow> disk) set \<Rightarrow> bool" where
  "undisturbed g F \<longleftrightarrow> (\<forall>f \<in> F. \<forall>d. dk_entries (f d) (tg_temp g) = dk_entries d (tg_temp g) \<and>
     dk_nodes (f d) (tg_inode g) = dk_nodes d (tg_inode g) \<and>
     (\<forall>q. dk_entries (f d) q = Some (tg_inode g) \<longrightarrow> dk_entries d q = Some (tg_inode g)))"

definition linked :: "(disk \<Rightarrow> disk) set \<Rightarrow> (disk \<times> disk) list \<Rightarrow> disk list \<Rightarrow> bool" where
  "linked F moves tr \<longleftrightarrow> (\<forall>i. Suc i < length tr \<longrightarrow>
     tr ! Suc i = tr ! i \<or> (tr ! i, tr ! Suc i) \<in> set moves \<or> (\<exists>f \<in> F. tr ! Suc i = f (tr ! i)))"

definition sound :: "target \<Rightarrow> (disk \<Rightarrow> disk) set \<Rightarrow> volume \<Rightarrow> bool" where
  "sound g F v \<longleftrightarrow> vo_trace v \<noteq> [] \<and> last (vo_trace v) = vo_disk v \<and> set (vo_others v) \<subseteq> F \<and>
     linked F (vo_moves v) (vo_trace v) \<and> list_all (good_move g) (vo_moves v)"

text \<open>The open temporary file: nothing else leads to it.\<close>

definition opened :: "target \<Rightarrow> (disk \<Rightarrow> disk) set \<Rightarrow> inode \<Rightarrow> volume \<Rightarrow> bool" where
  "opened g F x v \<longleftrightarrow> sound g F v \<and> dk_entries (vo_disk v) (tg_temp g) = Some (tg_inode g) \<and>
     dk_nodes (vo_disk v) (tg_inode g) = x \<and>
     (\<forall>q. q \<noteq> tg_temp g \<longrightarrow> dk_entries (vo_disk v) q \<noteq> Some (tg_inode g))"

lemma linked_mono: "linked F moves tr \<Longrightarrow> set moves \<subseteq> set moves' \<Longrightarrow> linked F moves' tr"
  unfolding linked_def by blast

lemma linked_snoc:
  assumes "linked F moves tr" "tr \<noteq> []"
    "d = last tr \<or> (last tr, d) \<in> set moves \<or> (\<exists>f \<in> F. d = f (last tr))"
  shows "linked F moves (tr @ [d])"
  unfolding linked_def
proof (intro allI impI)
  fix i assume i: "Suc i < length (tr @ [d])"
  show "(tr @ [d]) ! Suc i = (tr @ [d]) ! i \<or> ((tr @ [d]) ! i, (tr @ [d]) ! Suc i) \<in> set moves \<or>
      (\<exists>f \<in> F. (tr @ [d]) ! Suc i = f ((tr @ [d]) ! i))"
  proof (cases "Suc i < length tr")
    case True
    then show ?thesis using assms(1) by (simp add: linked_def nth_append)
  next
    case False
    then have "Suc i = length tr" using i by simp
    then show ?thesis using assms(2,3) by (simp add: nth_append last_conv_nth) (metis Suc_inject Suc_pred length_greater_0_conv)
  qed
qed

lemma others_disk:
  assumes "sound g F v"
  shows "vo_disk (others v) = vo_disk v \<or> (\<exists>f \<in> F. vo_disk (others v) = f (vo_disk v))"
  using assms by (cases "vo_others v") (auto simp: sound_def others_def Let_def)

lemma sound_others:
  assumes "sound g F v"
  shows "sound g F (others v)"
proof -
  have "linked F (vo_moves v) (vo_trace v @ [vo_disk (others v)])"
    by (rule linked_snoc) (use assms others_disk [OF assms] in \<open>auto simp: sound_def\<close>)
  moreover have "set (tl (vo_others v)) \<subseteq> F"
    using assms by (cases "vo_others v") (auto simp: sound_def)
  ultimately show ?thesis using assms by (simp add: sound_def others_def Let_def)
qed

lemma sound_own:
  assumes "sound g F v" "good_move g (vo_disk v, f (vo_disk v))"
  shows "sound g F (own f v)"
proof -
  have "linked F (vo_moves v @ [(vo_disk v, f (vo_disk v))]) (vo_trace v @ [f (vo_disk v)])"
  proof (rule linked_snoc)
    show "linked F (vo_moves v @ [(vo_disk v, f (vo_disk v))]) (vo_trace v)"
      by (rule linked_mono [of F "vo_moves v"]) (use assms(1) in \<open>simp_all add: sound_def subset_iff\<close>)
  qed (use assms(1) in \<open>simp_all add: sound_def\<close>)
  then show ?thesis using assms by (simp add: sound_def own_def Let_def)
qed

lemma others_private:
  assumes "sound g F v" "undisturbed g F"
  shows "dk_entries (vo_disk (others v)) (tg_temp g) = dk_entries (vo_disk v) (tg_temp g)"
    "dk_nodes (vo_disk (others v)) (tg_inode g) = dk_nodes (vo_disk v) (tg_inode g)"
    "dk_entries (vo_disk (others v)) q = Some (tg_inode g) \<Longrightarrow> dk_entries (vo_disk v) q = Some (tg_inode g)"
proof -
  from others_disk [OF assms(1)] consider "vo_disk (others v) = vo_disk v" | f where "f \<in> F" "vo_disk (others v) = f (vo_disk v)"
    by blast
  then have "dk_entries (vo_disk (others v)) (tg_temp g) = dk_entries (vo_disk v) (tg_temp g) \<and>
    dk_nodes (vo_disk (others v)) (tg_inode g) = dk_nodes (vo_disk v) (tg_inode g) \<and>
    (dk_entries (vo_disk (others v)) q = Some (tg_inode g) \<longrightarrow> dk_entries (vo_disk v) q = Some (tg_inode g))"
  proof cases
    case 2
    show ?thesis unfolding 2(2) using assms(2) [unfolded undisturbed_def, rule_format, OF 2(1), of "vo_disk v"] by blast
  qed simp
  then show "dk_entries (vo_disk (others v)) (tg_temp g) = dk_entries (vo_disk v) (tg_temp g)"
    "dk_nodes (vo_disk (others v)) (tg_inode g) = dk_nodes (vo_disk v) (tg_inode g)"
    "dk_entries (vo_disk (others v)) q = Some (tg_inode g) \<Longrightarrow> dk_entries (vo_disk v) q = Some (tg_inode g)"
    by blast+
qed

lemma opened_others: "opened g F x v \<Longrightarrow> undisturbed g F \<Longrightarrow> opened g F x (others v)"
  unfolding opened_def using others_private [of g F v] sound_others [of g F v] by metis

lemma opened_set:
  assumes "opened g F x v"
  shows "opened g F (f x) (own (set_node (tg_inode g) f) v)"
proof -
  have "good_move g (vo_disk v, set_node (tg_inode g) f (vo_disk v))"
    using assms by (auto simp: good_move_def set_node_def opened_def)
  from sound_own [where f = "set_node (tg_inode g) f", OF _ this] assms show ?thesis by (simp add: opened_def own_def Let_def set_node_def)
qed

lemma opened_id: "opened g F x v \<Longrightarrow> opened g F x (own id v)"
  using opened_set [of g F x v "\<lambda>x. x"] by (simp add: own_def set_node_def)

lemma opened_syscall:
  assumes "opened g F x v" "undisturbed g F" "syscall io c (set_node (tg_inode g) f) v = (r, v')"
  shows "opened g F (if r = None then f x else x) v'"
proof -
  have o: "opened g F x (others v)" by (rule opened_others [OF assms(1,2)])
  show ?thesis
  proof (cases "failing io c (others v)")
    case None
    then show ?thesis using assms(3) opened_set [OF o, of f] by (auto simp: syscall_def Let_def)
  next
    case (Some e)
    then show ?thesis using assms(3) o by (auto simp: syscall_def Let_def)
  qed
qed

lemma opened_syscall_id:
  assumes "opened g F x v" "undisturbed g F" "syscall io c id v = (r, v')"
  shows "opened g F x v'"
proof -
  have "set_node (tg_inode g) (\<lambda>x. x) = id" by (simp add: set_node_def fun_eq_iff)
  then show ?thesis using opened_syscall [OF assms(1,2), of io c "\<lambda>x. x" r v'] assms(3) by simp
qed

lemma fill_temp_opened:
  assumes "opened g F x v" "undisturbed g F" "in_regular x"
    and "fill_temp io (tg_inode g) (tg_contents g) (tg_mode g) v = (r, v')"
  shows "\<exists>x'. opened g F x' v' \<and> (r = None \<longrightarrow> complete g x')"
proof -
  let ?n = "tg_inode g" and ?mode = "\<lambda>x. x\<lparr>in_perm := tg_mode g\<rparr>"
  obtain r1 v1 where 1: "syscall io ''chmod'' (set_node ?n ?mode) v = (r1, v1)" by fastforce
  note o1 = opened_syscall [OF assms(1,2) 1]
  show ?thesis
  proof (cases r1)
    case (Some e)
    then show ?thesis using assms(4) 1 o1 by (auto simp: fill_temp_def)
  next
    case None
    let ?x1 = "?mode x" and ?v2 = "others v1"
    have o2: "opened g F ?x1 ?v2" using opened_others [OF _ assms(2)] o1 None by simp
    show ?thesis
    proof (cases "failing io ''write'' ?v2")
      case (Some e)
      then show ?thesis using assms(4) 1 None opened_set [OF o2] by (auto simp: fill_temp_def Let_def)
    next
      case w: None
      let ?x3 = "?x1\<lparr>in_bytes := tg_contents g\<rparr>"
      have o3: "opened g F ?x3 (own (set_node ?n (\<lambda>x. x\<lparr>in_bytes := tg_contents g\<rparr>)) ?v2)"
        by (rule opened_set [OF o2])
      obtain r4 v4 where 4: "syscall io ''sync'' (set_node ?n (\<lambda>x. x\<lparr>in_durable := in_bytes x\<rparr>))
          (own (set_node ?n (\<lambda>x. x\<lparr>in_bytes := tg_contents g\<rparr>)) ?v2) = (r4, v4)" by fastforce
      note o4 = opened_syscall [OF o3 assms(2) 4]
      show ?thesis
      proof (cases r4)
        case (Some e)
        then show ?thesis using assms(4) 1 None w 4 o4 by (auto simp: fill_temp_def Let_def)
      next
        case s: None
        obtain r5 v5 where 5: "syscall io ''close'' id v4 = (r5, v5)" by fastforce
        note o5 = opened_syscall_id [OF o4 assms(2) 5]
        have "v' = v5" using assms(4) 1 None w 4 s 5 by (auto simp: fill_temp_def Let_def split: option.splits)
        then show ?thesis using o5 s assms(3) by (auto simp: complete_def)
      qed
    qed
  qed
qed

text \<open>The temporary name is its own inode or gone, and a success is on the disk since a directory sync.\<close>

definition finished :: "target \<Rightarrow> (disk \<Rightarrow> disk) set \<Rightarrow> string option \<Rightarrow> volume \<Rightarrow> bool" where
  "finished g F r v \<longleftrightarrow> sound g F v \<and> dk_entries (vo_disk v) (tg_temp g) \<in> {None, Some (tg_inode g)} \<and>
     (r = None \<longrightarrow> vo_synced v < length (vo_trace v) \<and>
       (\<exists>i \<le> vo_synced v. dk_entries (vo_trace v ! i) (tg_path g) = Some (tg_inode g) \<and>
          complete g (dk_nodes (vo_trace v ! i) (tg_inode g))))"

lemma opened_finished: "opened g F x v \<Longrightarrow> finished g F (Some e) v"
  by (simp add: opened_def finished_def)

lemma link_good:
  assumes "opened g F x v" "complete g x" "dk_entries (vo_disk v) (tg_path g) = None"
  shows "good_move g (vo_disk v, link_path (tg_temp g) (tg_path g) (vo_disk v))"
    "dk_entries (link_path (tg_temp g) (tg_path g) (vo_disk v)) (tg_path g) = Some (tg_inode g)"
    "complete g (dk_nodes (link_path (tg_temp g) (tg_path g) (vo_disk v)) (tg_inode g))"
  using assms by (auto simp: opened_def good_move_def link_path_def set_node_def complete_def)

lemma rename_good:
  assumes "opened g F x v" "complete g x" "tg_policy g \<noteq> Create" "tg_path g \<noteq> tg_temp g"
  shows "good_move g (vo_disk v, rename_path (tg_temp g) (tg_path g) (vo_disk v))"
    "dk_entries (rename_path (tg_temp g) (tg_path g) (vo_disk v)) (tg_path g) = Some (tg_inode g)"
    "complete g (dk_nodes (rename_path (tg_temp g) (tg_path g) (vo_disk v)) (tg_inode g))"
  using assms by (auto simp: opened_def good_move_def rename_path_def unlink_path_def set_node_def complete_def Let_def
      split: option.splits)

lemma published_sync:
  assumes "sound g F v" "undisturbed g F" "dk_entries (vo_disk v) (tg_path g) = Some (tg_inode g)"
    "complete g (dk_nodes (vo_disk v) (tg_inode g))" "dk_entries (vo_disk v) (tg_temp g) \<in> {None, Some (tg_inode g)}"
    and r: "sync_output io path v = (r, v')"
  shows "finished g F r v'"
proof -
  have s: "sound g F (others v)" by (rule sound_others [OF assms(1)])
  have t: "dk_entries (vo_disk (others v)) (tg_temp g) \<in> {None, Some (tg_inode g)}"
    using others_private(1) [OF assms(1,2)] assms(5) by simp
  have tr: "vo_trace (others v) = vo_trace v @ [vo_disk (others v)]" by (simp add: others_def Let_def)
  have ne: "vo_trace v \<noteq> []" "last (vo_trace v) = vo_disk v" using assms(1) by (simp_all add: sound_def)
  then have at: "vo_trace (others v) ! (length (vo_trace v) - 1) = vo_disk v"
    by (simp add: tr nth_append last_conv_nth)
  show ?thesis
  proof (cases "failing io ''syncdir'' (others v)")
    case (Some e)
    then show ?thesis using r s t by (auto simp: sync_output_def syncDirectory_def finished_def Let_def)
  next
    case None
    then have v': "r = None" "v' = (others v)\<lparr>vo_synced := length (vo_trace (others v)) - 1\<rparr>"
      using r by (auto simp: sync_output_def syncDirectory_def Let_def)
    have "sound g F v'" using s by (simp add: v' sound_def)
    moreover have "\<exists>i \<le> vo_synced v'. dk_entries (vo_trace v' ! i) (tg_path g) = Some (tg_inode g) \<and>
        complete g (dk_nodes (vo_trace v' ! i) (tg_inode g))"
      by (rule exI [of _ "length (vo_trace v) - 1"]) (use at assms(3,4) in \<open>simp add: v' tr\<close>)
    ultimately show ?thesis using t by (simp add: finished_def v' tr)
  qed
qed

lemma rename_finished:
  assumes o: "opened g F x v" and u: "undisturbed g F" and g: "complete g x" "tg_policy g \<noteq> Create" "tg_path g \<noteq> tg_temp g"
    and r: "rename_output io (tg_path g) (tg_temp g) v = (r, v')"
  shows "finished g F r v'"
proof -
  let ?v1 = "others v" and ?f = "rename_path (tg_temp g) (tg_path g)"
  have o1: "opened g F x ?v1" by (rule opened_others [OF o u])
  note R = rename_good [OF o1 g]
  have t: "dk_entries (vo_disk ?v1) (tg_temp g) \<noteq> None" using o1 by (simp add: opened_def)
  have so: "sound g F (own ?f ?v1)" by (rule sound_own [where f = ?f, OF _ R(1)]) (use o1 in \<open>simp add: opened_def\<close>)
  have gone: "dk_entries (vo_disk (own ?f ?v1)) (tg_temp g) \<in> {None, Some (tg_inode g)}"
    using g(3) t by (auto simp: own_def rename_path_def Let_def)
  show ?thesis
  proof (cases "failing io ''rename'' ?v1")
    case (Some e)
    then have "v' = ?v1" "r \<noteq> None" using r t by (auto simp: rename_output_def Let_def)
    then show ?thesis using opened_finished [OF o1] by auto
  next
    case None
    then have "sync_output io (tg_path g) (own ?f ?v1) = (r, v')" using r t by (auto simp: rename_output_def Let_def)
    then show ?thesis using R(2,3) by (intro published_sync [OF so u _ _ gone]) (simp_all add: own_def Let_def)
  qed
qed

lemma publish_finished:
  assumes o: "opened g F x v" and u: "undisturbed g F" and c: "complete g x" and pt: "tg_path g \<noteq> tg_temp g"
    and r: "publishSynced io (tg_path g) (tg_temp g) (tg_policy g) v = (r, v')"
  shows "finished g F r v'"
proof (cases "tg_policy g")
  case Create
  let ?v1 = "others v" and ?f = "link_path (tg_temp g) (tg_path g)"
  have o1: "opened g F x ?v1" by (rule opened_others [OF o u])
  have t: "dk_entries (vo_disk ?v1) (tg_temp g) = Some (tg_inode g)" using o1 by (simp add: opened_def)
  show ?thesis
  proof (cases "dk_entries (vo_disk ?v1) (tg_path g) = None \<and> failing io ''link'' ?v1 = None")
    case False
    then have "v' = ?v1" "r \<noteq> None" using r t Create by (auto simp: publishSynced_def Let_def split: option.splits if_splits)
    then show ?thesis using opened_finished [OF o1] by auto
  next
    case True
    note L = link_good [OF o1 c conjunct1 [OF True]]
    have so: "sound g F (own ?f ?v1)" by (rule sound_own [where f = ?f, OF _ L(1)]) (use o1 in \<open>simp add: opened_def\<close>)
    have gone: "dk_entries (vo_disk (own ?f ?v1)) (tg_temp g) \<in> {None, Some (tg_inode g)}"
      using t pt by (simp add: own_def link_path_def set_node_def Let_def)
    have "sync_output io (tg_path g) (own ?f ?v1) = (r, v')" using r t Create True by (simp add: publishSynced_def Let_def)
    then show ?thesis using L(2,3) by (intro published_sync [OF so u _ _ gone]) (simp_all add: own_def Let_def)
  qed
next
  case ReplaceRegular
  obtain l v1 where l: "stat_path io (tg_path g) v = (l, v1)" by fastforce
  then have v1: "v1 = others v" by (auto simp: stat_path_def Let_def split: option.splits)
  have o1: "opened g F x v1" unfolding v1 by (rule opened_others [OF o u])
  have ren: "finished g F r v'" if "rename_output io (tg_path g) (tg_temp g) v1 = (r, v')"
    by (rule rename_finished [OF o1 u c _ pt that]) (simp add: ReplaceRegular)
  have fail: "finished g F r v'" if "r = Some e" "v' = v1" for e
    using that opened_finished [OF o1] by simp
  show ?thesis
    using r l ReplaceRegular ren fail by (auto simp: publishSynced_def split: lookup_result.splits if_splits)
next
  case (OtherPolicy k)
  then show ?thesis using r opened_finished [OF o] by (auto simp: publishSynced_def)
qed

lemma unlink_good:
  assumes "dk_entries d (tg_temp g) \<in> {None, Some (tg_inode g)}" "tg_path g \<noteq> tg_temp g"
  shows "good_move g (d, unlink_path (tg_temp g) d)" "dk_entries (unlink_path (tg_temp g) d) (tg_temp g) = None"
  using assms by (auto simp: good_move_def unlink_path_def set_node_def)

lemma trace_others: "vo_trace (others v) = vo_trace v @ [vo_disk (others v)]" "vo_synced (others v) = vo_synced v"
  by (simp_all add: others_def Let_def)

lemma trace_own: "vo_trace (own f v) = vo_trace v @ [f (vo_disk v)]" "vo_synced (own f v) = vo_synced v"
  by (simp_all add: own_def Let_def)

lemma finished_longer:
  assumes "finished g F r v" "sound g F v'" "dk_entries (vo_disk v') (tg_temp g) \<in> {None, Some (tg_inode g)}"
    "vo_trace v' = vo_trace v @ later" "vo_synced v' = vo_synced v"
  shows "finished g F r v'"
proof -
  have "\<exists>i \<le> vo_synced v'. dk_entries (vo_trace v' ! i) (tg_path g) = Some (tg_inode g) \<and>
      complete g (dk_nodes (vo_trace v' ! i) (tg_inode g))" if "r = None"
  proof -
    obtain i where i: "vo_synced v < length (vo_trace v)" "i \<le> vo_synced v" "dk_entries (vo_trace v ! i) (tg_path g) = Some (tg_inode g)"
      "complete g (dk_nodes (vo_trace v ! i) (tg_inode g))"
      using assms(1) \<open>r = None\<close> by (auto simp: finished_def)
    then show ?thesis using assms(4,5) by (intro exI [of _ i]) (simp add: nth_append)
  qed
  moreover have "r = None \<Longrightarrow> vo_synced v' < length (vo_trace v')"
    using assms(1) by (auto simp: finished_def assms(4,5))
  ultimately show ?thesis using assms(2-5) by (simp add: finished_def)
qed

lemma remove_finished:
  assumes f: "finished g F r v" and u: "undisturbed g F" and pt: "tg_path g \<noteq> tg_temp g"
  shows "finished g F r (snd (syscall io c (unlink_path (tg_temp g)) v))"
proof -
  let ?v1 = "others v" and ?f = "unlink_path (tg_temp g)"
  have s: "sound g F v" "dk_entries (vo_disk v) (tg_temp g) \<in> {None, Some (tg_inode g)}" using f by (simp_all add: finished_def)
  have s1: "sound g F ?v1" "dk_entries (vo_disk ?v1) (tg_temp g) \<in> {None, Some (tg_inode g)}"
    using sound_others [OF s(1)] others_private(1) [OF s(1) u] s(2) by simp_all
  have f1: "finished g F r ?v1" by (rule finished_longer [OF f s1 trace_others])
  note U = unlink_good [OF s1(2) pt]
  have f2: "finished g F r (own ?f ?v1)"
    by (rule finished_longer [OF f1 sound_own [where f = ?f, OF s1(1) U(1)] _ trace_own]) (simp add: own_def U(2) Let_def)
  show ?thesis using f1 f2 by (simp add: syscall_def Let_def split: option.splits)
qed

text \<open>The target of one call of \<^verbatim>\<open>Write\<close>.\<close>

definition target_of :: "io_env \<Rightarrow> string \<Rightarrow> string \<Rightarrow> nat \<Rightarrow> Policy \<Rightarrow> target" where
  "target_of io name contents mode policy =
     (let path = Abs (io_cwd io) name in
      \<lparr>tg_path = path, tg_temp = temp_path io path, tg_inode = io_inode io, tg_contents = contents, tg_mode = mode,
       tg_policy = policy\<rparr>)"

text \<open>Before the temporary file exists, its inode is free.\<close>

definition free_inode :: "target \<Rightarrow> disk \<Rightarrow> bool" where
  "free_inode g d \<longleftrightarrow> (\<forall>q. dk_entries d q \<noteq> Some (tg_inode g))"

lemma free_others: "sound g F v \<Longrightarrow> undisturbed g F \<Longrightarrow> free_inode g (vo_disk v) \<Longrightarrow> free_inode g (vo_disk (others v))"
  unfolding free_inode_def using others_private(3) by metis

lemma sound_own_id: "sound g F v \<Longrightarrow> free_inode g (vo_disk v) \<Longrightarrow> sound g F (own id v)"
  by (rule sound_own) (simp_all add: good_move_def free_inode_def)

definition idle :: "target \<Rightarrow> (disk \<Rightarrow> disk) set \<Rightarrow> string option \<Rightarrow> volume \<Rightarrow> bool" where
  "idle g F r v \<longleftrightarrow> r \<noteq> None \<and> sound g F v"

lemma create_opened:
  assumes "sound g F v" "free_inode g (vo_disk v)" "dk_entries (vo_disk v) (tg_temp g) = None"
  shows "opened g F \<lparr>in_regular = True, in_perm = 384, in_nlink = 1, in_bytes = [], in_durable = []\<rparr>
    (own (create_node (tg_temp g) (tg_inode g)) v)"
proof -
  have "good_move g (vo_disk v, create_node (tg_temp g) (tg_inode g) (vo_disk v))"
    using assms(2) by (auto simp: good_move_def create_node_def free_inode_def)
  from sound_own [where f = "create_node (tg_temp g) (tg_inode g)", OF assms(1) this] assms(2)
  show ?thesis by (simp add: opened_def own_def create_node_def free_inode_def Let_def)
qed

lemma write_checked_finished:
  assumes s: "sound g F v" and u: "undisturbed g F" and fr: "free_inode g (vo_disk v)" and pt: "tg_path g \<noteq> tg_temp g"
    and g: "g = target_of io name contents mode policy"
    and r: "write_checked io (tg_path g) contents mode policy v = (r, v')"
  shows "finished g F r v' \<or> idle g F r v'"
proof -
  have tg: "tg_temp g = temp_path io (tg_path g)" "tg_inode g = io_inode io" "tg_contents g = contents" "tg_mode g = mode"
    "tg_policy g = policy" by (simp_all add: g target_of_def Let_def)
  have s1: "sound g F (others v)" "free_inode g (vo_disk (others v))"
    using sound_others [OF s] free_others [OF s u fr] by blast+
  obtain r1 v1 where 1: "syscall io ''mkdir'' id v = (r1, v1)" by fastforce
  have v1: "sound g F v1 \<and> free_inode g (vo_disk v1)"
    using 1 s1 sound_own_id [OF s1] by (auto simp: syscall_def Let_def own_def split: option.splits)
  show ?thesis
  proof (cases r1)
    case (Some e)
    then show ?thesis using r 1 v1 by (auto simp: write_checked_def idle_def)
  next
    case None
    let ?v2 = "others v1"
    have s2: "sound g F ?v2" "free_inode g (vo_disk ?v2)"
      using v1 sound_others free_others u by blast+
    let ?err = "if dk_entries (vo_disk ?v2) (tg_temp g) \<noteq> None then Some ''file exists'' else failing io ''createtemp'' ?v2"
    show ?thesis
    proof (cases ?err)
      case (Some e)
      then show ?thesis using r 1 None s2 by (auto simp: write_checked_def Let_def tg idle_def)
    next
      case ok: None
      have "dk_entries (vo_disk ?v2) (tg_temp g) = None" using ok by (simp split: if_splits)
      note o = create_opened [OF s2 this]
      obtain r3 v3 where 3: "fill_temp io (tg_inode g) (tg_contents g) (tg_mode g) (own (create_node (tg_temp g) (tg_inode g)) ?v2) = (r3, v3)"
        by fastforce
      obtain x' where x': "opened g F x' v3" "r3 = None \<longrightarrow> complete g x'"
        using fill_temp_opened [OF o u _ 3] by auto
      define rv where "rv = (case r3 of Some e \<Rightarrow> (Some e, v3) | None \<Rightarrow> publishSynced io (tg_path g) (tg_temp g) (tg_policy g) v3)"
      have "finished g F (fst rv) (snd rv)"
      proof (cases r3)
        case None
        obtain r4 v4 where 4: "publishSynced io (tg_path g) (tg_temp g) (tg_policy g) v3 = (r4, v4)" by fastforce
        show ?thesis using publish_finished [OF x'(1) u _ pt 4] x'(2) None 4 by (simp add: rv_def)
      qed (use opened_finished [OF x'(1)] in \<open>simp add: rv_def\<close>)
      from remove_finished [OF this u pt, of io "''remove''"] have
        "finished g F (fst (remove_temp io (tg_temp g) rv)) (snd (remove_temp io (tg_temp g) rv))"
        by (simp add: remove_temp_def)
      moreover have "(r, v') = remove_temp io (tg_temp g) rv"
      proof -
        have "(case fill_temp io (io_inode io) contents mode (own (create_node (temp_path io (tg_path g)) (io_inode io)) ?v2) of
            (Some e, v3) \<Rightarrow> (Some e, v3) | (None, v3) \<Rightarrow> publishSynced io (tg_path g) (temp_path io (tg_path g)) policy v3) = rv"
          using 3 by (simp add: rv_def tg split: option.splits)
        then show ?thesis using r 1 None ok by (simp add: write_checked_def Let_def tg)
      qed
      ultimately show ?thesis by (metis fst_conv snd_conv)
    qed
  qed
qed

lemma Write_finished:
  assumes s: "sound g F v" and u: "undisturbed g F" and fr: "free_inode g (vo_disk v)" and pt: "tg_path g \<noteq> tg_temp g"
    and g: "g = target_of io name contents mode policy"
    and r: "Write io name contents mode policy v = (r, v')"
  shows "finished g F r v' \<or> idle g F r v'"
proof -
  have path: "tg_path g = Abs (io_cwd io) name" by (simp add: g target_of_def Let_def)
  obtain l v1 where l: "stat_path io (tg_path g) v = (l, v1)" by fastforce
  then have v1: "v1 = others v" by (auto simp: stat_path_def Let_def split: option.splits)
  have s1: "sound g F v1" "free_inode g (vo_disk v1)"
    using sound_others [OF s] free_others [OF s u fr] by (simp_all add: v1)
  have w: "finished g F r v' \<or> idle g F r v'" if "write_checked io (tg_path g) contents mode policy v1 = (r, v')"
    by (rule write_checked_finished [OF s1(1) u s1(2) pt g that])
  have i: "idle g F r v'" if "r = Some e" "v' = v1" for e
    using that s1 by (simp add: idle_def)
  show ?thesis
    using r l w i unfolding Write_def Let_def path [symmetric]
    by (cases policy) (auto split: lookup_result.splits if_splits)
qed

section \<open>Losing power\<close>

text \<open>
  A power loss at the disk \<open>k\<close> of a history brings back the entries of an earlier disk \<open>j\<close>, and of every file
  the bytes that were synced by then. The survivors are what the path may then hold, when the directory
  was synced at disk \<open>s\<close>.
\<close>

definition crash_contents :: "disk list \<Rightarrow> nat \<Rightarrow> nat \<Rightarrow> string \<Rightarrow> string option" where
  "crash_contents tr j k p = map_option (\<lambda>i. in_durable (dk_nodes (tr ! k) i)) (dk_entries (tr ! j) p)"

definition survivors :: "disk list \<Rightarrow> nat \<Rightarrow> string \<Rightarrow> string option set" where
  "survivors tr s p = {crash_contents tr j k p | j k. s \<le> j \<and> j \<le> k \<and> k < length tr}"

text \<open>Other processes leave the path and the file there alone.\<close>

definition untouched :: "target \<Rightarrow> disk \<Rightarrow> (disk \<Rightarrow> disk) set \<Rightarrow> bool" where
  "untouched g d0 F \<longleftrightarrow> (\<forall>f \<in> F. \<forall>d. dk_entries (f d) (tg_path g) = dk_entries d (tg_path g) \<and>
     (\<forall>i. dk_entries d0 (tg_path g) = Some i \<longrightarrow> in_durable (dk_nodes (f d) i) = in_durable (dk_nodes d i)))"

definition follows :: "target \<Rightarrow> disk \<Rightarrow> disk \<Rightarrow> disk \<Rightarrow> bool" where
  "follows g d0 d d' \<longleftrightarrow>
     (dk_entries d' (tg_path g) = dk_entries d (tg_path g) \<or>
      dk_entries d' (tg_path g) = Some (tg_inode g) \<and> in_durable (dk_nodes d' (tg_inode g)) = tg_contents g) \<and>
     (\<forall>i. dk_entries d0 (tg_path g) = Some i \<longrightarrow> in_durable (dk_nodes d' i) = in_durable (dk_nodes d i)) \<and>
     (dk_entries d (tg_path g) = Some (tg_inode g) \<longrightarrow> dk_entries d' (tg_path g) = Some (tg_inode g) \<and>
        in_durable (dk_nodes d' (tg_inode g)) = in_durable (dk_nodes d (tg_inode g)))"

lemma good_move_follows:
  "good_move g (d, d') \<Longrightarrow> free_inode g d0 \<Longrightarrow> tg_path g \<noteq> tg_temp g \<Longrightarrow> follows g d0 d d'"
  unfolding good_move_def follows_def free_inode_def complete_def by (simp, metis)

lemma others_follows:
  assumes "undisturbed g F" "untouched g d0 F" "f \<in> F"
  shows "follows g d0 d (f d)"
  using assms(1) [unfolded undisturbed_def, rule_format, OF assms(3), of d]
    assms(2) [unfolded untouched_def, rule_format, OF assms(3), of d]
  unfolding follows_def by metis

lemma sound_follows:
  assumes "sound g F v" "undisturbed g F" "untouched g d0 F" "free_inode g d0" "tg_path g \<noteq> tg_temp g"
    "Suc i < length (vo_trace v)"
  shows "follows g d0 (vo_trace v ! i) (vo_trace v ! Suc i)"
proof -
  have "linked F (vo_moves v) (vo_trace v)" "list_all (good_move g) (vo_moves v)"
    using assms(1) by (simp_all add: sound_def)
  then consider "vo_trace v ! Suc i = vo_trace v ! i" | "good_move g (vo_trace v ! i, vo_trace v ! Suc i)"
    | f where "f \<in> F" "vo_trace v ! Suc i = f (vo_trace v ! i)"
    using assms(6) unfolding linked_def list_all_iff by blast
  then show ?thesis
  proof cases
    case 1
    then show ?thesis by (simp add: follows_def)
  next
    case 2
    then show ?thesis by (rule good_move_follows [OF _ assms(4,5)])
  next
    case 3
    show ?thesis unfolding 3(2) by (rule others_follows [OF assms(2,3) 3(1)])
  qed
qed

lemma history:
  assumes step: "\<And>i. Suc i < length tr \<Longrightarrow> follows g d0 (tr ! i) (tr ! Suc i)"
    and start: "tr ! 0 = d0" "free_inode g d0" and k: "k < length tr"
  shows "dk_entries (tr ! k) (tg_path g) \<in> {dk_entries d0 (tg_path g), Some (tg_inode g)} \<and>
    (\<forall>i. dk_entries d0 (tg_path g) = Some i \<longrightarrow> in_durable (dk_nodes (tr ! k) i) = in_durable (dk_nodes d0 i)) \<and>
    (dk_entries (tr ! k) (tg_path g) = Some (tg_inode g) \<longrightarrow> in_durable (dk_nodes (tr ! k) (tg_inode g)) = tg_contents g)"
  using k
proof (induction k)
  case 0
  then show ?case using start by (simp add: free_inode_def)
next
  case (Suc k)
  then show ?case using step [of k] unfolding follows_def by auto
qed

lemma history_published:
  assumes step: "\<And>i. Suc i < length tr \<Longrightarrow> follows g d0 (tr ! i) (tr ! Suc i)"
    and "j \<le> k" "k < length tr" "dk_entries (tr ! j) (tg_path g) = Some (tg_inode g)"
  shows "dk_entries (tr ! k) (tg_path g) = Some (tg_inode g)"
  using assms(2-)
proof (induction k rule: dec_induct)
  case (step n)
  then show ?case using assms(1) [of n] by (simp add: follows_def)
qed simp

lemma history_survivors:
  assumes step: "\<And>i. Suc i < length tr \<Longrightarrow> follows g d0 (tr ! i) (tr ! Suc i)"
    and start: "tr ! 0 = d0" "free_inode g d0" and jk: "j \<le> k" "k < length tr"
  shows "crash_contents tr j k (tg_path g) \<in> {crash_contents [d0] 0 0 (tg_path g), Some (tg_contents g)}"
    "dk_entries (tr ! j) (tg_path g) = Some (tg_inode g) \<Longrightarrow> crash_contents tr j k (tg_path g) = Some (tg_contents g)"
proof -
  have j: "j < length tr" using jk by simp
  note K = history [OF step start jk(2)] and J = history [OF step start j]
  have new: "crash_contents tr j k (tg_path g) = Some (tg_contents g)" if "dk_entries (tr ! j) (tg_path g) = Some (tg_inode g)"
    using history_published [OF step jk that] K that by (simp add: crash_contents_def)
  then show "dk_entries (tr ! j) (tg_path g) = Some (tg_inode g) \<Longrightarrow> crash_contents tr j k (tg_path g) = Some (tg_contents g)" .
  show "crash_contents tr j k (tg_path g) \<in> {crash_contents [d0] 0 0 (tg_path g), Some (tg_contents g)}"
  proof (cases "dk_entries (tr ! j) (tg_path g) = Some (tg_inode g)")
    case False
    then have "dk_entries (tr ! j) (tg_path g) = dk_entries d0 (tg_path g)" using J by auto
    then show ?thesis using K by (cases "dk_entries d0 (tg_path g)") (auto simp: crash_contents_def)
  qed (use new in simp)
qed

text \<open>The history only grows.\<close>

definition grows :: "volume \<Rightarrow> volume \<Rightarrow> bool" where
  "grows v v' \<longleftrightarrow> (\<exists>l. vo_trace v' = vo_trace v @ l)"

lemma grows_refl: "grows v v" "grows v (v\<lparr>vo_synced := k\<rparr>)"
  by (simp_all add: grows_def)

lemma grows_trans: "grows u v \<Longrightarrow> grows v w \<Longrightarrow> grows u w"
  by (auto simp: grows_def)

lemma grows_step: "grows v (others v)" "grows v (own f v)"
  by (simp_all add: grows_def trace_others trace_own)

lemma grows_own_others: "grows v (own f (others v))"
  by (rule grows_trans [OF grows_step])

lemma grows_syscall: "syscall io c f v = (r, v') \<Longrightarrow> grows v v'"
  by (auto simp: syscall_def Let_def intro: grows_step grows_own_others split: option.splits)

lemma grows_sync: "sync_output io path v = (r, v') \<Longrightarrow> grows v v'"
  by (auto simp: sync_output_def syncDirectory_def Let_def intro: grows_step grows_trans [OF grows_step(1) grows_refl(2)] split: option.splits)

lemma grows_stat: "stat_path io p v = (l, v') \<Longrightarrow> grows v v'"
  by (auto simp: stat_path_def Let_def intro: grows_step split: option.splits)

lemma grows_rename: "rename_output io path t v = (r, v') \<Longrightarrow> grows v v'"
  by (auto simp: rename_output_def Let_def intro: grows_step grows_trans [OF grows_own_others grows_sync] split: option.splits if_splits)

lemma grows_publish: "publishSynced io path t policy v = (r, v') \<Longrightarrow> grows v v'"
  by (cases policy)
    (auto simp: publishSynced_def Let_def intro: grows_refl grows_step grows_trans [OF grows_own_others grows_sync]
      grows_trans [OF grows_stat grows_rename] grows_stat split: option.splits if_splits prod.splits lookup_result.splits)

lemma grows_fill: "fill_temp io n contents mode v = (r, v') \<Longrightarrow> grows v v'"
proof -
  assume r: "fill_temp io n contents mode v = (r, v')"
  obtain r1 v1 where 1: "syscall io ''chmod'' (set_node n (\<lambda>x. x\<lparr>in_perm := mode\<rparr>)) v = (r1, v1)" by fastforce
  obtain r3 v3 where 3: "syscall io ''sync'' (set_node n (\<lambda>x. x\<lparr>in_durable := in_bytes x\<rparr>))
      (own (set_node n (\<lambda>x. x\<lparr>in_bytes := contents\<rparr>)) (others v1)) = (r3, v3)" by fastforce
  obtain r4 v4 where 4: "syscall io ''close'' id v3 = (r4, v4)" by fastforce
  note g1 = grows_syscall [OF 1]
  note g2 = grows_trans [OF g1 grows_own_others]
  note g3 = grows_trans [OF g2 grows_syscall [OF 3]]
  note g4 = grows_trans [OF g3 grows_syscall [OF 4]]
  show ?thesis using r 1 3 4 g1 g2 g3 g4 by (auto simp: fill_temp_def Let_def split: option.splits)
qed

lemma grows_remove: "remove_temp io t (r0, v) = (r, v') \<Longrightarrow> grows v v'"
  using grows_syscall [of io "''remove''" "unlink_path t" v] by (cases "syscall io ''remove'' (unlink_path t) v") (auto simp: remove_temp_def)

lemma grows_checked: "write_checked io path contents mode policy v = (r, v') \<Longrightarrow> grows v v'"
proof -
  assume r: "write_checked io path contents mode policy v = (r, v')"
  obtain r1 v1 where 1: "syscall io ''mkdir'' id v = (r1, v1)" by fastforce
  obtain r3 v3 where 3: "fill_temp io (io_inode io) contents mode
      (own (create_node (temp_path io path) (io_inode io)) (others v1)) = (r3, v3)" by fastforce
  obtain r4 v4 where 4: "publishSynced io path (temp_path io path) policy v3 = (r4, v4)" by fastforce
  note g1 = grows_syscall [OF 1]
  note g2 = grows_trans [OF g1 grows_step(1)]
  note g3 = grows_trans [OF grows_trans [OF g1 grows_own_others] grows_fill [OF 3]]
  note g4 = grows_trans [OF g3 grows_publish [OF 4]]
  show ?thesis
    using r 1 3 4 g1 g2 grows_trans [OF g3 grows_remove] grows_trans [OF g4 grows_remove]
    by (auto simp: write_checked_def Let_def split: option.splits if_splits)
qed

lemma Write_starts:
  assumes "Write io name contents mode policy v = (r, v')" "vo_trace v \<noteq> []"
  shows "vo_trace v' ! 0 = vo_trace v ! 0"
proof -
  obtain l v1 where l: "stat_path io (Abs (io_cwd io) name) v = (l, v1)" by fastforce
  note g = grows_stat [OF l]
  have "grows v v'"
    using assms(1) l g grows_trans [OF g grows_checked]
    by (cases policy) (auto simp: Write_def Let_def split: lookup_result.splits if_splits)
  then show ?thesis using assms(2) by (auto simp: grows_def nth_append)
qed

definition fresh_volume :: "disk \<Rightarrow> (disk \<Rightarrow> disk) list \<Rightarrow> volume" where
  "fresh_volume d fs = \<lparr>vo_disk = d, vo_others = fs, vo_moves = [], vo_trace = [d], vo_synced = 0\<rparr>"

lemma fresh_sound: "sound g (set fs) (fresh_volume d fs)"
  by (simp add: sound_def fresh_volume_def linked_def)

text \<open>
  Whatever fails and whatever other processes do elsewhere, writing changes no entry but the temporary name and
  the path, and the path only to the complete file with its mode; it creates only where there was nothing, and changes
  the bytes of no other file.
\<close>

lemma write_moves:
  assumes "undisturbed g (set fs)" "free_inode g d" "tg_path g \<noteq> tg_temp g"
    and "g = target_of io name contents mode policy"
    and "Write io name contents mode policy (fresh_volume d fs) = (r, v)"
  shows "list_all (good_move g) (vo_moves v)"
proof -
  have "finished g (set fs) r v \<or> idle g (set fs) r v"
    by (rule Write_finished [OF fresh_sound assms(1) _ assms(3-5)]) (simp add: fresh_volume_def assms(2))
  then show ?thesis by (auto simp: finished_def idle_def sound_def)
qed


text \<open>A path has held exactly these bytes.\<close>

definition was_there :: "target \<Rightarrow> volume \<Rightarrow> bool" where
  "was_there g v \<longleftrightarrow> (\<exists>d \<in> set (vo_trace v). \<exists>i. dk_entries d (tg_path g) = Some i \<and> in_bytes (dk_nodes d i) = tg_contents g)"

lemma last_in_trace: "vo_disk (others v) \<in> set (vo_trace (others v))"
  by (simp add: trace_others)

lemma read_there:
  assumes "read_path io (tg_path g) v = (Inr (tg_contents g), v')"
  shows "was_there g v'"
proof -
  have "v' = others v" "\<exists>i. dk_entries (vo_disk (others v)) (tg_path g) = Some i \<and>
      in_bytes (dk_nodes (vo_disk (others v)) i) = tg_contents g"
    using assms by (auto simp: read_path_def Let_def split: option.splits)
  then show ?thesis using last_in_trace [of v] unfolding was_there_def by blast
qed

lemma finished_there: "finished g F None v \<Longrightarrow> was_there g v"
  unfolding finished_def was_there_def complete_def by (meson le_less_trans nth_mem)

lemma read_disk: "read_path io p v = (l, v') \<Longrightarrow> v' = others v"
  by (auto simp: read_path_def Let_def split: option.splits)

lemma stat_disk: "stat_path io p v = (l, v') \<Longrightarrow> v' = others v"
  by (auto simp: stat_path_def Let_def split: option.splits)

text \<open>
  \<^verbatim>\<open>Ensure\<close> never replaces a file, and a success means that the path has held exactly the wanted bytes, whoever created it.
\<close>

lemma ensure_exact:
  assumes u: "undisturbed g (set fs)" and fr: "free_inode g d" and pt: "tg_path g \<noteq> tg_temp g"
    and g: "g = target_of io name contents mode Create"
    and e: "Ensure io name contents mode (fresh_volume d fs) = (r, v)"
  shows "list_all (good_move g) (vo_moves v) \<and> (r = None \<longrightarrow> was_there g v)"
proof -
  let ?F = "set fs" and ?v = "fresh_volume d fs"
  have tg: "Abs (io_cwd io) name = tg_path g" "contents = tg_contents g" by (simp_all add: g target_of_def Let_def)
  obtain l v1 where l: "stat_path io (tg_path g) ?v = (l, v1)" by fastforce
  have s1: "sound g ?F v1" unfolding stat_disk [OF l] by (rule sound_others [OF fresh_sound])
  have f1: "free_inode g (vo_disk v1)" unfolding stat_disk [OF l]
    by (rule free_others [OF fresh_sound u]) (simp add: fresh_volume_def fr)
  obtain r1 v2 where 2: "read_path io (tg_path g) v1 = (r1, v2)" by fastforce
  have s2: "sound g ?F v2" unfolding read_disk [OF 2] by (rule sound_others [OF s1])
  obtain rw vw where w: "Write io name contents mode Create v1 = (rw, vw)" by fastforce
  note W = Write_finished [OF s1 u f1 pt g w]
  have sw: "sound g ?F vw" using W by (auto simp: finished_def idle_def)
  obtain l3 v3 where 3: "stat_path io (tg_path g) vw = (l3, v3)" by fastforce
  have s3: "sound g ?F v3" unfolding stat_disk [OF 3] by (rule sound_others [OF sw])
  obtain r4 v4 where 4: "read_path io (tg_path g) v3 = (r4, v4)" by fastforce
  have s4: "sound g ?F v4" unfolding read_disk [OF 4] by (rule sound_others [OF s3])
  have there: "was_there g vw" if "rw = None"
    using W that finished_there [of g ?F vw] by (auto simp: idle_def)
  have "sound g ?F v \<and> (r = None \<longrightarrow> was_there g v)"
    using e l 2 w 3 4 s1 s2 sw s3 s4 there read_there [of io g v1 v2] read_there [of io g v3 v4]
    unfolding Ensure_def Let_def tg(1)
    by (auto simp: tg(2) split: lookup_result.splits option.splits sum.splits if_splits)
  then show ?thesis by (simp add: sound_def)
qed

section \<open>A write\<close>

definition quiet_io :: io_env where
  "quiet_io = \<lparr>io_fail = (\<lambda>_ _. None), io_partial = (\<lambda>_. 0), io_temp = ''1'', io_inode = 9, io_cwd = ''/d''\<rparr>"

definition old_disk :: disk where
  "old_disk = \<lparr>dk_entries = (\<lambda>p. if p = ''/d/f'' then Some 5 else None),
     dk_nodes = (\<lambda>_. \<lparr>in_regular = True, in_perm = 384, in_nlink = 1, in_bytes = ''old'', in_durable = ''old''\<rparr>)\<rparr>"

text \<open>Another process that drops a file elsewhere.\<close>

definition elsewhere :: "disk \<Rightarrow> disk" where
  "elsewhere d = d\<lparr>dk_entries := (dk_entries d)(''/d/x'' := None)\<rparr>"

lemma demo_target:
  "target_of quiet_io ''f'' ''new'' 420 ReplaceRegular = \<lparr>tg_path = ''/d/f'', tg_temp = ''/d/.f.1.tmp'', tg_inode = 9,
     tg_contents = ''new'', tg_mode = 420, tg_policy = ReplaceRegular\<rparr>"
  by code_simp

lemma demo_names: "Abs ''/d'' ''f'' = ''/d/f''" "temp_path quiet_io ''/d/f'' = ''/d/.f.1.tmp''"
  by code_simp+

lemma quiet_simps: "io_cwd quiet_io = ''/d''" "io_inode quiet_io = 9" "failing quiet_io c v = None"
  by (simp_all add: quiet_io_def failing_def)

lemma own_parts: "vo_disk (own f v) = f (vo_disk v)" "vo_others (own f v) = vo_others v"
  by (simp_all add: own_def Let_def)

lemma others_parts: "vo_disk (others v) = (case vo_others v of [] \<Rightarrow> vo_disk v | f # _ \<Rightarrow> f (vo_disk v))"
  "vo_others (others v) = tl (vo_others v)"
  by (simp_all add: others_def Let_def)

lemma quiet_syscall: "syscall quiet_io c f v = (None, own f (others v))"
  by (simp add: syscall_def quiet_simps Let_def)

lemma demo_volume: "vo_disk (fresh_volume d fs) = d" "vo_others (fresh_volume d fs) = fs"
  by (simp_all add: fresh_volume_def)

lemma demo_write: "fst (Write quiet_io ''f'' ''new'' 420 ReplaceRegular (fresh_volume old_disk [elsewhere, elsewhere])) = None"
  by (simp add: quiet_simps quiet_syscall demo_names own_parts others_parts demo_volume Write_def write_checked_def stat_path_def
      singlyLinkedRegular_def remove_temp_def fill_temp_def publishSynced_def rename_output_def sync_output_def
      syncDirectory_def set_node_def create_node_def old_disk_def elsewhere_def Let_def)

lemma demo_law:
  "undisturbed (target_of quiet_io ''f'' ''new'' 420 policy) {elsewhere}"
  "untouched (target_of quiet_io ''f'' ''new'' 420 policy) old_disk {elsewhere}"
  "free_inode (target_of quiet_io ''f'' ''new'' 420 policy) old_disk"
  "tg_path (target_of quiet_io ''f'' ''new'' 420 policy) = ''/d/f''"
  "tg_path (target_of quiet_io ''f'' ''new'' 420 policy) \<noteq> tg_temp (target_of quiet_io ''f'' ''new'' 420 policy)"
  by (simp_all add: target_of_def quiet_simps demo_names undisturbed_def untouched_def free_inode_def elsewhere_def old_disk_def Let_def)


lemma write_moves_witness:
  "\<exists>v. Write quiet_io ''f'' ''new'' 420 ReplaceRegular (fresh_volume old_disk [elsewhere, elsewhere]) = (None, v) \<and>
    list_all (good_move (target_of quiet_io ''f'' ''new'' 420 ReplaceRegular)) (vo_moves v)"
proof -
  obtain v where w: "Write quiet_io ''f'' ''new'' 420 ReplaceRegular (fresh_volume old_disk [elsewhere, elsewhere]) = (None, v)"
    using demo_write by (metis prod.collapse)
  have F: "set [elsewhere, elsewhere] = {elsewhere}" by simp
  from w write_moves [OF _ demo_law(3,5) refl w, unfolded F, OF demo_law(1)] show ?thesis by simp
qed

lemma ensure_exact_witness:
  "\<exists>r v. Ensure quiet_io ''f'' ''new'' 420 (fresh_volume old_disk [elsewhere]) = (r, v) \<and>
    list_all (good_move (target_of quiet_io ''f'' ''new'' 420 Create)) (vo_moves v)"
proof -
  obtain r v where e: "Ensure quiet_io ''f'' ''new'' 420 (fresh_volume old_disk [elsewhere]) = (r, v)" by fastforce
  have F: "set [elsewhere] = {elsewhere}" by simp
  from e ensure_exact [OF _ demo_law(3,5) refl e, unfolded F, OF demo_law(1)] show ?thesis by simp
qed

end
