(* ===== verification/ImageArchive.thy ===== *)
theory ImageArchive
  imports Completion
begin

text \<open>
  The check of an image archive before podman loads it (\<^verbatim>\<open>internal/imagearchive/archive.go\<close>). The archive is the
  sequence of members that the tar reader yields; decompression, SHA-256 and the JSON parser are
  arguments. Error messages leave out the names that they quote.
\<close>

section \<open>Members\<close>

datatype typeflag = TypeReg | TypeRegA | TypeDir | TypeSymlink | TypeLink | TypeOther

text \<open>A header of the tar reader with the bytes of the member, or none when reading them fails.\<close>

record tar_header =
  th_Name :: string
  th_Typeflag :: typeflag
  th_Linkname :: string
  th_Size :: int
  th_contents :: "string option"

record member =
  mb_typeflag :: typeflag
  mb_link :: string
  mb_size :: int
  mb_data :: string

definition maxManifestSize :: int where "maxManifestSize = 4194304"
definition maxConfigSize :: int where "maxConfigSize = 16777216"
definition maxMembers :: nat where "maxMembers = 10000"
definition maxEntries :: nat where "maxEntries = 64"

definition safeName :: "string \<Rightarrow> bool" where
  "safeName name \<longleftrightarrow> name \<noteq> [] \<and> BS \<notin> set name \<and> \<not> hasPrefix name ''/'' \<and> Clean name = name \<and>
     \<not> contains_sub name ''../'' \<and> name \<noteq> ''..''"

definition regular_member :: "member \<Rightarrow> bool" where
  "regular_member m \<longleftrightarrow> mb_typeflag m = TypeReg \<or> mb_typeflag m = TypeRegA"

definition link_target :: "string \<Rightarrow> member \<Rightarrow> string" where
  "link_target name m =
     Clean (if mb_typeflag m = TypeSymlink then Join [Dir name, mb_link m] else mb_link m)"

definition validLayerLink :: "string \<Rightarrow> member \<Rightarrow> member table \<Rightarrow> bool" where
  "validLayerLink name m ms \<longleftrightarrow>
     (mb_typeflag m = TypeSymlink \<or> mb_typeflag m = TypeLink) \<and> hasSuffix name ''/layer.tar'' \<and>
     mb_link m \<noteq> [] \<and> BS \<notin> set (mb_link m) \<and> safeName (link_target name m) \<and>
     hasSuffix (link_target name m) ''.tar'' \<and>
     (case lookup ms (link_target name m) of Some v \<Rightarrow> regular_member v | None \<Rightarrow> False)"

text \<open>One turn of the loop over the members; JSON members are read within their limit.\<close>

definition read_member :: "tar_header \<Rightarrow> string + member" where
  "read_member th =
     (let m = \<lparr>mb_typeflag = th_Typeflag th, mb_link = th_Linkname th, mb_size = th_Size th, mb_data = []\<rparr> in
      if th_Typeflag th = TypeOther then Inl ''image archive contains unsupported member type''
      else if hasSuffix (th_Name th) ''.json'' \<and> regular_member m
      then (let limit = (if th_Name th = ''manifest.json'' then maxManifestSize else maxConfigSize) in
        if th_Size th \<le> 0 \<or> limit < th_Size th then Inl ''image archive JSON member has unsafe size''
        else case th_contents th of
          None \<Rightarrow> Inl ''image archive member is truncated''
        | Some b \<Rightarrow>
            (let d = take (nat (limit + 1)) b in
             if int (length d) \<noteq> th_Size th then Inl ''image archive member is truncated''
             else Inr (m\<lparr>mb_data := d\<rparr>)))
      else Inr m)"

fun read_members :: "nat \<Rightarrow> member table \<Rightarrow> tar_header list \<Rightarrow> bool \<Rightarrow> string + member table" where
  "read_members count ms [] broken = (if broken then Inl ''read image archive'' else Inr ms)"
| "read_members count ms (th # ths) broken =
     (if maxMembers < count then Inl ''image archive contains too many members''
      else if \<not> safeName (th_Name th) then Inl ''image archive contains unsafe member''
      else if lookup ms (th_Name th) \<noteq> None then Inl ''image archive repeats member''
      else bind_res (read_member th) (\<lambda>m. read_members (count + 1) ((th_Name th, m) # ms) ths broken))"

section \<open>The manifest\<close>

record archive_image =
  im_Reference :: string
  im_ID :: string
  im_Architecture :: string
  im_OperatingSystem :: string

record Archive =
  ir_Path :: string
  ir_Size :: int
  ir_Images :: "archive_image list"

record manifestEntry =
  me_Config :: string
  me_RepoTags :: "string list"
  me_Layers :: "string list"

definition string_list_field :: "string \<Rightarrow> (string \<times> json) list \<Rightarrow> string list option" where
  "string_list_field name kvs =
     Option.bind (list_field name kvs) (\<lambda>xs. all_some (map (\<lambda>x. unmarshal_string (Some x)) xs))"

definition manifest_entry :: "json \<Rightarrow> manifestEntry option" where
  "manifest_entry j =
     Option.bind (element_fields j) (\<lambda>kvs. Option.bind (string_field ''config'' kvs) (\<lambda>c.
     Option.bind (string_list_field ''repotags'' kvs) (\<lambda>ts. Option.bind (string_list_field ''layers'' kvs) (\<lambda>ls.
     Some \<lparr>me_Config = c, me_RepoTags = ts, me_Layers = ls\<rparr>))))"

definition decode_manifest :: "document \<Rightarrow> manifestEntry list option" where
  "decode_manifest d =
     (case d of Whole j \<Rightarrow> Option.bind (unmarshal_list (Some j)) (\<lambda>xs. all_some (map manifest_entry xs)) | _ \<Rightarrow> None)"

text \<open>Architecture and operating system of an image configuration.\<close>

definition decode_platform :: "document \<Rightarrow> (string \<times> string) option" where
  "decode_platform d =
     (case d of
        Whole j \<Rightarrow> Option.bind (element_fields j) (\<lambda>kvs. Option.bind (string_field ''architecture'' kvs) (\<lambda>a.
          Option.bind (string_field ''os'' kvs) (\<lambda>s. Some (a, s))))
      | _ \<Rightarrow> None)"

record archive_env =
  av_sha256 :: "string \<Rightarrow> string"
  av_document :: "string \<Rightarrow> document"
  av_gunzip :: "string \<Rightarrow> string option"
  av_tar :: "string \<Rightarrow> tar_header list \<times> bool"

fun add_tags :: "string \<Rightarrow> string \<times> string \<Rightarrow> string list \<Rightarrow> archive_image list \<Rightarrow> string + archive_image list" where
  "add_tags i pf [] images = Inr images"
| "add_tags i pf (t # ts) images =
     (if t = [] \<or> t \<in> im_Reference ` set images then Inl ''image archive repeats or contains an empty tag''
      else add_tags i pf ts (images @ [\<lparr>im_Reference = t, im_ID = i, im_Architecture = fst pf, im_OperatingSystem = snd pf\<rparr>]))"

definition layer_ok :: "member table \<Rightarrow> string \<Rightarrow> bool" where
  "layer_ok ms layer \<longleftrightarrow> safeName layer \<and>
     (case lookup ms layer of Some m \<Rightarrow> regular_member m \<or> validLayerLink layer m ms | None \<Rightarrow> False)"

definition add_entry :: "archive_env \<Rightarrow> member table \<Rightarrow> manifestEntry \<Rightarrow> archive_image list \<Rightarrow> string + archive_image list" where
  "add_entry av ms e images =
     (if \<not> safeName (me_Config e) \<or> me_RepoTags e = [] then Inl ''image archive manifest has invalid config or tags''
      else case lookup ms (me_Config e) of
        None \<Rightarrow> Inl ''image archive config is missing''
      | Some c \<Rightarrow>
          (if mb_data c = [] then Inl ''image archive config is missing''
           else if \<not> list_all (layer_ok ms) (me_Layers e) then Inl ''image archive layer is missing or invalid''
           else case decode_platform (av_document av (mb_data c)) of
             None \<Rightarrow> Inl ''image config is invalid''
           | Some pf \<Rightarrow>
               (if fst pf = [] \<or> snd pf = [] then Inl ''image config is invalid''
                else if me_Config e \<noteq> av_sha256 av (mb_data c) @ ''.json''
                then Inl ''image config filename does not match its digest''
                else add_tags (''sha256:'' @ av_sha256 av (mb_data c)) pf (me_RepoTags e) images)))"

fun add_entries :: "archive_env \<Rightarrow> member table \<Rightarrow> manifestEntry list \<Rightarrow> archive_image list \<Rightarrow> string + archive_image list" where
  "add_entries av ms [] images = Inr images"
| "add_entries av ms (e # es) images = bind_res (add_entry av ms e images) (add_entries av ms es)"

definition links_ok :: "member table \<Rightarrow> bool" where
  "links_ok ms \<longleftrightarrow> list_all (\<lambda>(n, m). (mb_typeflag m = TypeSymlink \<or> mb_typeflag m = TypeLink) \<longrightarrow> validLayerLink n m ms) ms"

text \<open>The images of a table of members.\<close>

definition archive_images :: "archive_env \<Rightarrow> member table \<Rightarrow> string + archive_image list" where
  "archive_images av ms =
     (case lookup ms ''manifest.json'' of
        None \<Rightarrow> Inl ''image archive must contain one manifest.json''
      | Some m \<Rightarrow>
          (if mb_data m = [] then Inl ''image archive must contain one manifest.json''
           else if \<not> links_ok ms then Inl ''image archive contains unsafe link''
           else case decode_manifest (av_document av (mb_data m)) of
             None \<Rightarrow> Inl ''image archive manifest is invalid or has an unsafe entry count''
           | Some es \<Rightarrow>
               (if es = [] \<or> maxEntries < length es
                then Inl ''image archive manifest is invalid or has an unsafe entry count''
                else map_sum id (sort_key im_Reference) (add_entries av ms es []))))"

text \<open>\<open>bytes\<close> is the content of the file, if it is a regular one that can be opened.\<close>

definition InspectArchive :: "archive_env \<Rightarrow> string \<Rightarrow> string option \<Rightarrow> string + Archive" where
  "InspectArchive av file bytes =
     (case bytes of
        None \<Rightarrow> Inl ''image archive is not a non-empty regular file''
      | Some b \<Rightarrow>
          (if b = [] then Inl ''image archive is not a non-empty regular file''
           else if length b < 2 then Inl ''read image archive''
           else bind_res
             (if take 2 b = [byte 31, byte 139]
              then (case av_gunzip av b of Some d \<Rightarrow> Inr d | None \<Rightarrow> Inl ''read compressed image archive'') else Inr b) (\<lambda>d.
             bind_res (case av_tar av d of (ths, broken) \<Rightarrow> read_members 1 [] ths broken) (\<lambda>ms.
             bind_res (archive_images av ms) (\<lambda>images.
             Inr \<lparr>ir_Path = file, ir_Size = int (length b), ir_Images = images\<rparr>)))))"

section \<open>Managed archives\<close>

definition managed_image :: "string \<Rightarrow> string" where
  "managed_image i = (case BuildUnitByID units i of Some u \<Rightarrow> bu_Image u | None \<Rightarrow> [])"

definition ROCmRuntimeImage :: string where "ROCmRuntimeImage = managed_image ''runtime''"
definition ROCmBaseImage :: string where "ROCmBaseImage = managed_image ''pytorch-base''"
definition ContentToolsImage :: string where "ContentToolsImage = managed_image ''content-tools''"

definition ManagedReferences :: "string list" where
  "ManagedReferences = [ContentToolsImage, ROCmRuntimeImage, ROCmBaseImage] @ map sp_Image specs"

definition SelectedReferences :: "string \<Rightarrow> string + string list" where
  "SelectedReferences target =
     (case BuildClosure units (if target = ''all'' then [''content-tools'', ''comfyui'', ''llama-cpp''] else [target]) of
        Inl _ \<Rightarrow> Inl (''unknown image export target '' @ quoted target)
      | Inr us \<Rightarrow> Inr (map bu_Image us))"

definition containsApplicationImage :: "string list \<Rightarrow> bool" where
  "containsApplicationImage actual \<longleftrightarrow> list_ex (\<lambda>a. sp_Image a \<in> set actual) specs"

fun check_images :: "string \<Rightarrow> archive_image list \<Rightarrow> string option" where
  "check_images arch [] = None"
| "check_images arch (i # is) =
     (if im_Reference i \<notin> set ManagedReferences
      then Some (''image archive contains unmanaged or obsolete tag: '' @ im_Reference i)
      else if im_OperatingSystem i \<noteq> ''linux'' \<or> im_Architecture i \<noteq> arch
      then Some (''image '' @ im_Reference i @ '' targets '' @ im_OperatingSystem i @ ''/'' @ im_Architecture i @ '', not linux/'' @ arch)
      else check_images arch is)"

definition ValidateManaged :: "string \<Rightarrow> Archive \<Rightarrow> string list \<Rightarrow> string option" where
  "ValidateManaged arch a expected =
     (case check_images arch (ir_Images a) of
        Some e \<Rightarrow> Some e
      | None \<Rightarrow>
          (let actual = remdups (map im_Reference (ir_Images a)) in
           if actual = [] then Some ''image archive is empty''
           else if (ROCmBaseImage \<in> set actual \<or> containsApplicationImage actual) \<and> ROCmRuntimeImage \<notin> set actual
           then Some ''image archive is missing the managed ROCm runtime tag''
           else if list_ex (\<lambda>a. sp_PyTorchBase a \<and> sp_Image a \<in> set actual \<and> ROCmBaseImage \<notin> set actual) specs
           then Some ''image archive is missing the managed ROCm/PyTorch base tag''
           else if expected = [] then None
           else if length expected \<noteq> length actual then Some ''image archive has the wrong managed tag set''
           else (case find (\<lambda>r. r \<notin> set actual) expected of
             Some r \<Rightarrow> Some (''image archive is missing expected tag '' @ r) | None \<Rightarrow> None)))"

section \<open>Properties\<close>

definition members_ok :: "member table \<Rightarrow> bool" where
  "members_ok ms \<longleftrightarrow> distinct (map fst ms) \<and> length ms \<le> maxMembers \<and>
     (\<forall>(n, m) \<in> set ms. safeName n \<and> mb_typeflag m \<noteq> TypeOther \<and> (mb_data m \<noteq> [] \<longrightarrow> regular_member m))"

lemma read_member_ok: "read_member th = Inr m \<Longrightarrow> mb_typeflag m \<noteq> TypeOther \<and> (mb_data m \<noteq> [] \<longrightarrow> regular_member m)"
  by (auto simp: read_member_def Let_def regular_member_def split: if_splits option.splits)

lemma members_ok_Cons:
  "members_ok ms \<Longrightarrow> length ms < maxMembers \<Longrightarrow> safeName n \<Longrightarrow> lookup ms n = None \<Longrightarrow>
    mb_typeflag m \<noteq> TypeOther \<and> (mb_data m \<noteq> [] \<longrightarrow> regular_member m) \<Longrightarrow> members_ok ((n, m) # ms)"
  by (auto simp: members_ok_def map_of_eq_None_iff)

lemma read_members_ok:
  "read_members count ms ths broken = Inr ms' \<Longrightarrow> members_ok ms \<Longrightarrow> count = length ms + 1 \<Longrightarrow> members_ok ms'"
proof (induction count ms ths broken rule: read_members.induct)
  case (2 count ms th ths broken)
  obtain m where m: "read_member th = Inr m" "read_members (count + 1) ((th_Name th, m) # ms) ths broken = Inr ms'"
    using "2.prems"(1) by (auto simp: bind_res_def split: if_splits sum.splits)
  have g: "\<not> maxMembers < count" "safeName (th_Name th)" "lookup ms (th_Name th) = None"
    using "2.prems"(1) by (auto split: if_splits)
  show ?case
    by (rule "2.IH" [OF _ _ _ m(2)]) (use g "2.prems"(2,3) members_ok_Cons read_member_ok [OF m(1)] in auto)
qed (simp split: if_splits)

text \<open>An image that an archive really holds.\<close>

definition archived :: "archive_env \<Rightarrow> member table \<Rightarrow> archive_image \<Rightarrow> bool" where
  "archived av ms i \<longleftrightarrow> im_Reference i \<noteq> [] \<and> im_Architecture i \<noteq> [] \<and> im_OperatingSystem i \<noteq> [] \<and>
     (\<exists>m. lookup ms (av_sha256 av (mb_data m) @ ''.json'') = Some m \<and> mb_data m \<noteq> [] \<and>
       im_ID i = ''sha256:'' @ av_sha256 av (mb_data m) \<and>
       decode_platform (av_document av (mb_data m)) = Some (im_Architecture i, im_OperatingSystem i))"

lemma add_tags_ok:
  "add_tags i pf ts images = Inr images' \<Longrightarrow> distinct (map im_Reference images) \<Longrightarrow>
    distinct (map im_Reference images') \<and>
    (\<forall>x \<in> set images'. x \<in> set images \<or> im_Reference x \<noteq> [] \<and> im_ID x = i \<and> (im_Architecture x, im_OperatingSystem x) = pf)"
proof (induction ts arbitrary: images)
  case (Cons t ts)
  let ?new = "images @ [\<lparr>im_Reference = t, im_ID = i, im_Architecture = fst pf, im_OperatingSystem = snd pf\<rparr>]"
  have t: "t \<noteq> []" "t \<notin> im_Reference ` set images" "add_tags i pf ts ?new = Inr images'"
    using Cons.prems(1) by (auto split: if_splits)
  have "distinct (map im_Reference ?new)" using t(2) Cons.prems(2) by simp
  from Cons.IH [OF t(3) this] show ?case using t(1) by auto
qed simp

lemma add_entry_ok:
  assumes "add_entry av ms e images = Inr images'" "distinct (map im_Reference images)" "\<forall>x \<in> set images. archived av ms x"
  shows "distinct (map im_Reference images') \<and> (\<forall>x \<in> set images'. archived av ms x)"
proof -
  obtain c pf where c: "lookup ms (me_Config e) = Some c" "mb_data c \<noteq> []"
    "decode_platform (av_document av (mb_data c)) = Some pf" "fst pf \<noteq> []" "snd pf \<noteq> []"
    "me_Config e = av_sha256 av (mb_data c) @ ''.json''"
    "add_tags (''sha256:'' @ av_sha256 av (mb_data c)) pf (me_RepoTags e) images = Inr images'"
    using assms(1) by (auto simp: add_entry_def split: if_splits option.splits)
  note T = add_tags_ok [OF c(7) assms(2)]
  have "archived av ms x" if x: "x \<in> set images'" for x
  proof (cases "x \<in> set images")
    case False
    with T x have "im_Reference x \<noteq> []" "im_ID x = ''sha256:'' @ av_sha256 av (mb_data c)"
      "(im_Architecture x, im_OperatingSystem x) = pf" by auto
    with c show ?thesis by (auto simp: archived_def)
  qed (use assms(3) in auto)
  with T show ?thesis by blast
qed

lemma add_entries_ok:
  "add_entries av ms es images = Inr images' \<Longrightarrow> distinct (map im_Reference images) \<Longrightarrow>
    \<forall>x \<in> set images. archived av ms x \<Longrightarrow> distinct (map im_Reference images') \<and> (\<forall>x \<in> set images'. archived av ms x)"
proof (induction es arbitrary: images)
  case (Cons e es)
  then obtain i2 where i2: "add_entry av ms e images = Inr i2" "add_entries av ms es i2 = Inr images'"
    by (auto simp: bind_res_def split: sum.splits)
  from add_entry_ok [OF i2(1) Cons.prems(2,3)] Cons.IH [OF i2(2)] show ?case by blast
qed simp

text \<open>Every member has a safe name, and every link of the archive leads to a regular tar member of the archive.\<close>

definition archive_safe :: "member table \<Rightarrow> bool" where
  "archive_safe ms \<longleftrightarrow> (\<forall>n m. lookup ms n = Some m \<longrightarrow> safeName n \<and>
     (mb_typeflag m = TypeSymlink \<or> mb_typeflag m = TypeLink \<longrightarrow>
       (\<exists>v. lookup ms (link_target n m) = Some v \<and> regular_member v \<and> hasSuffix (link_target n m) ''.tar'')))"

lemma archive_safeI: "members_ok ms \<Longrightarrow> links_ok ms \<Longrightarrow> archive_safe ms"
  unfolding archive_safe_def
proof (intro allI impI conjI)
  fix n m
  assume a: "members_ok ms" "links_ok ms" "lookup ms n = Some m"
  then have i: "(n, m) \<in> set ms" by (simp add: map_of_SomeD)
  from a i show "safeName n" by (auto simp: members_ok_def)
  assume "mb_typeflag m = TypeSymlink \<or> mb_typeflag m = TypeLink"
  with a i have "validLayerLink n m ms" by (auto simp: links_ok_def list_all_iff)
  then show "\<exists>v. lookup ms (link_target n m) = Some v \<and> regular_member v \<and> hasSuffix (link_target n m) ''.tar''"
    by (auto simp: validLayerLink_def split: option.splits)
qed

lemma archive_images_ok:
  assumes "archive_images av ms = Inr images" "members_ok ms"
  shows "archive_safe ms \<and> sorted (map im_Reference images) \<and> distinct (map im_Reference images) \<and>
    (\<forall>x \<in> set images. archived av ms x)"
proof -
  obtain es found where e: "links_ok ms" "add_entries av ms es [] = Inr found" "images = sort_key im_Reference found"
  proof -
    obtain m es where "links_ok ms" "map_sum id (sort_key im_Reference) (add_entries av ms es []) = Inr images"
      using assms(1) by (auto simp: archive_images_def split: option.splits if_splits)
    then show ?thesis by (cases "add_entries av ms es []") (auto intro: that)
  qed
  from add_entries_ok [OF e(2)] have "distinct (map im_Reference found)" "\<forall>x \<in> set found. archived av ms x" by auto
  with e(1,3) archive_safeI [OF assms(2)] show ?thesis
    by (simp add: distinct_map)
qed

lemma InspectArchive_InrD:
  assumes "InspectArchive av file (Some b) = Inr a"
  obtains d ms where "read_members 1 [] (fst (av_tar av d)) (snd (av_tar av d)) = Inr ms"
    "archive_images av ms = Inr (ir_Images a)" "ir_Size a = int (length b)"
proof -
  from assms obtain d where d: "bind_res (read_members 1 [] (fst (av_tar av d)) (snd (av_tar av d))) (\<lambda>ms.
      bind_res (archive_images av ms) (\<lambda>images. Inr \<lparr>ir_Path = file, ir_Size = int (length b), ir_Images = images\<rparr>)) = Inr a"
    unfolding InspectArchive_def option.case prod.case_eq_if by (simp only: bind_res_eq_Inr split: if_splits) blast+
  then show ?thesis by (auto intro: that)
qed


section \<open>Closure of managed archives\<close>

lemma check_images_None:
  "check_images arch is = None \<longleftrightarrow>
    (\<forall>i \<in> set is. im_Reference i \<in> set ManagedReferences \<and> im_OperatingSystem i = ''linux'' \<and> im_Architecture i = arch)"
  by (induction "is") auto

lemma managed_images:
  "ROCmRuntimeImage = Image ''runtime-ubuntu26.04-rocm10.1-r5''"
  "ROCmBaseImage = Image ''base-ubuntu26.04-rocm10.1-torch2.14-r8''"
  "ContentToolsImage = Image ''content-ubuntu26.04-huggingface2.4-r2''"
  by (simp_all add: ROCmRuntimeImage_def ROCmBaseImage_def ContentToolsImage_def managed_image_def BuildUnitByID_def units_def)

lemma closure_units:
  assumes "BuildClosure units ts = Inr us"
  shows "distinct (map bu_ID us)" "set us \<subseteq> set units" "set ts \<subseteq> bu_ID ` set us"
    "\<And>u p. u \<in> set us \<Longrightarrow> p \<in> set (bu_Prerequisites u) \<Longrightarrow> p \<in> bu_ID ` set us"
proof -
  have e: "extends units [] [] ts us"
    using assms visit_extends(2) [OF build_order_empty] by (simp add: BuildClosure_def)
  then have o: "build_order us" by (simp add: extends_def)
  show "distinct (map bu_ID us)" using o by (simp add: build_order_def)
  show "set ts \<subseteq> bu_ID ` set us" using e by (simp add: extends_def)
  have "\<forall>u \<in> set us. unit_index units (bu_ID u) = Some u" using e by (simp add: extends_def)
  then show "set us \<subseteq> set units" by (meson subsetI unit_index_Some)
  fix u p assume "u \<in> set us" and p: "p \<in> set (bu_Prerequisites u)"
  then obtain i where i: "i < length us" "us ! i = u" by (metis in_set_conv_nth)
  from o i(1) have "set (bu_Prerequisites (us ! i)) \<subseteq> bu_ID ` set (take i us)" by (simp add: build_order_def)
  then have "p \<in> bu_ID ` set (take i us)" using p i(2) by blast
  then show "p \<in> bu_ID ` set us" by (rule subsetD [OF image_mono [OF set_take_subset]])
qed

lemma units_distinct: "distinct (map bu_ID units)" "distinct (map bu_Image units)"
  by (simp_all add: units_def comfyui_spec_def llama_cpp_spec_def Image_def)

lemma image_of_unit:
  assumes "set us \<subseteq> set units" "u \<in> set units"
  shows "bu_Image u \<in> bu_Image ` set us \<longleftrightarrow> bu_ID u \<in> bu_ID ` set us"
proof
  assume "bu_Image u \<in> bu_Image ` set us"
  then obtain v where v: "v \<in> set us" "bu_Image u = bu_Image v" by blast
  have "inj_on bu_Image (set units)" using units_distinct(2) by (simp add: distinct_map)
  from inj_onD [OF this v(2)] assms v(1) have "u = v" by blast
  with v(1) show "bu_ID u \<in> bu_ID ` set us" by blast
next
  assume "bu_ID u \<in> bu_ID ` set us"
  then obtain v where v: "v \<in> set us" "bu_ID u = bu_ID v" by blast
  have "inj_on bu_ID (set units)" using units_distinct(1) by (simp add: distinct_map)
  from inj_onD [OF this v(2)] assms v(1) have "u = v" by blast
  with v(1) show "bu_Image u \<in> bu_Image ` set us" by blast
qed

text \<open>The table by its names.\<close>

definition unit_of :: "string \<Rightarrow> BuildUnit" where
  "unit_of i = the (BuildUnitByID units i)"

lemma unit_of:
  "unit_of ''runtime'' = units ! 0" "unit_of ''pytorch-base'' = units ! 1" "unit_of ''content-tools'' = units ! 2"
  "unit_of ''comfyui'' = units ! 3" "unit_of ''llama-cpp'' = units ! 4"
  by (simp_all add: unit_of_def BuildUnitByID_def units_def)

lemma unit_ids [simp]:
  "bu_ID (units ! 0) = ''runtime''" "bu_ID (units ! Suc 0) = ''pytorch-base''" "bu_ID (units ! 2) = ''content-tools''"
  "bu_ID (units ! 3) = ''comfyui''" "bu_ID (units ! 4) = ''llama-cpp''"
  by (simp_all add: units_def)

lemma set_units: "set units = {units ! 0, units ! 1, units ! 2, units ! 3, units ! 4}"
  by (simp add: units_def insert_commute)

lemma references_of_units:
  "ROCmRuntimeImage = bu_Image (units ! 0)" "ROCmBaseImage = bu_Image (units ! 1)" "ContentToolsImage = bu_Image (units ! 2)"
  "sp_Image comfyui_spec = bu_Image (units ! 3)" "sp_Image llama_cpp_spec = bu_Image (units ! 4)"
  by (simp_all add: managed_images units_def)

lemma prerequisites_of_units:
  "bu_Prerequisites (units ! 0) = []" "bu_Prerequisites (units ! Suc 0) = [''runtime'']" "bu_Prerequisites (units ! 2) = []"
  "bu_Prerequisites (units ! 3) = [''pytorch-base'']" "bu_Prerequisites (units ! 4) = [''runtime'']"
  by (simp_all add: units_def)

lemma managed_references: "set ManagedReferences = bu_Image ` set units"
  by (simp add: ManagedReferences_def specs_def references_of_units set_units insert_commute)

text \<open>What the check of the tags asks for: with each image those of its prerequisites.\<close>

definition closed_references :: "string set \<Rightarrow> bool" where
  "closed_references refs \<longleftrightarrow>
     (\<forall>u \<in> set units. \<forall>q \<in> set units. bu_Image u \<in> refs \<and> bu_ID q \<in> set (bu_Prerequisites u) \<longrightarrow> bu_Image q \<in> refs)"

lemma pytorch_specs: "sp_PyTorchBase comfyui_spec" "\<not> sp_PyTorchBase llama_cpp_spec"
  by (simp_all add: comfyui_spec_def llama_cpp_spec_def)

lemma tag_checks:
  "closed_references (set actual) \<longleftrightarrow>
     \<not> ((ROCmBaseImage \<in> set actual \<or> containsApplicationImage actual) \<and> ROCmRuntimeImage \<notin> set actual) \<and>
     \<not> list_ex (\<lambda>a. sp_PyTorchBase a \<and> sp_Image a \<in> set actual \<and> ROCmBaseImage \<notin> set actual) specs"
  by (simp add: closed_references_def set_units prerequisites_of_units containsApplicationImage_def specs_def
      pytorch_specs references_of_units) auto

lemma ValidateManaged_iff:
  "ValidateManaged arch a expected = None \<longleftrightarrow>
    (let refs = im_Reference ` set (ir_Images a) in
     ir_Images a \<noteq> [] \<and> refs \<subseteq> set ManagedReferences \<and> closed_references refs \<and>
     (\<forall>i \<in> set (ir_Images a). im_OperatingSystem i = ''linux'' \<and> im_Architecture i = arch) \<and>
     (expected = [] \<or> length expected = card refs \<and> set expected \<subseteq> refs))"
proof -
  let ?actual = "remdups (map im_Reference (ir_Images a))"
  have card: "length ?actual = card (im_Reference ` set (ir_Images a))"
    by (metis length_remdups_card_conv list.set_map)
  have closed: "closed_references (im_Reference ` set (ir_Images a)) \<longleftrightarrow>
      \<not> ((ROCmBaseImage \<in> set ?actual \<or> containsApplicationImage ?actual) \<and> ROCmRuntimeImage \<notin> set ?actual) \<and>
      \<not> list_ex (\<lambda>x. sp_PyTorchBase x \<and> sp_Image x \<in> set ?actual \<and> ROCmBaseImage \<notin> set ?actual) specs"
    using tag_checks [of ?actual] by simp
  have checks: "check_images arch (ir_Images a) = None \<longleftrightarrow> im_Reference ` set (ir_Images a) \<subseteq> set ManagedReferences \<and>
      (\<forall>i \<in> set (ir_Images a). im_OperatingSystem i = ''linux'' \<and> im_Architecture i = arch)"
    by (auto simp: check_images_None)
  have found: "find (\<lambda>r. r \<notin> set ?actual) expected = None \<longleftrightarrow> set expected \<subseteq> im_Reference ` set (ir_Images a)"
    by (auto simp: find_None_iff)
  have empty: "?actual = [] \<longleftrightarrow> ir_Images a = []" by simp
  show ?thesis
    unfolding ValidateManaged_def Let_def closed
    using card checks found empty
    by (cases "check_images arch (ir_Images a)"; cases "find (\<lambda>r. r \<notin> set ?actual) expected") auto
qed

text \<open>
  C32: The selection of an export and the check of an import agree: an archive passes the check against the references
  of a selected target exactly when it holds these images, all of them and no others, for
  this platform. In particular the selection is closed under the prerequisites of its images.
\<close>

lemma selection_roundtrip:
  assumes "SelectedReferences target = Inr refs"
  shows "ValidateManaged arch a refs = None \<longleftrightarrow>
    im_Reference ` set (ir_Images a) = set refs \<and>
    list_all (\<lambda>i. im_OperatingSystem i = ''linux'' \<and> im_Architecture i = arch) (ir_Images a)"
proof -
  obtain ts us where u: "BuildClosure units ts = Inr us" "refs = map bu_Image us" "ts \<noteq> []"
    using assms by (auto simp: SelectedReferences_def split: sum.splits if_splits)
  note C = closure_units [OF u(1)]
  have refs: "set refs = bu_Image ` set us" by (simp add: u(2))
  have ne: "refs \<noteq> []" using C(3) u(2,3) by (cases ts) auto
  have "inj_on bu_Image (set us)"
    using units_distinct(2) C(2) by (metis distinct_map inj_on_subset)
  then have d: "distinct refs" using C(1) by (simp add: u(2) distinct_map)
  have sub: "set refs \<subseteq> set ManagedReferences" using C(2) by (simp add: refs managed_references image_mono)
  have closed: "closed_references (set refs)"
    unfolding closed_references_def refs
  proof (intro ballI impI)
    fix x q
    assume x: "x \<in> set units" "q \<in> set units" "bu_Image x \<in> bu_Image ` set us \<and> bu_ID q \<in> set (bu_Prerequisites x)"
    have "inj_on bu_Image (set units)" using units_distinct(2) by (simp add: distinct_map)
    then have "x \<in> set us" using x(1,3) C(2) by (metis imageE inj_onD subsetD)
    from C(4) [OF this] x(3) have "bu_ID q \<in> bu_ID ` set us" by blast
    then show "bu_Image q \<in> bu_Image ` set us" by (simp add: image_of_unit [OF C(2) x(2)])
  qed
  have card: "card (im_Reference ` set (ir_Images a)) = length refs \<and> set refs \<subseteq> im_Reference ` set (ir_Images a) \<longleftrightarrow>
      im_Reference ` set (ir_Images a) = set refs"
    by (metis List.finite_set card_subset_eq d distinct_card finite_imageI order_refl)
  show ?thesis
    unfolding ValidateManaged_iff Let_def list_all_iff using card sub closed ne by (cases "ir_Images a") auto
qed

section \<open>Witnesses\<close>

text \<open>An archive with one image: its configuration \<open>C\<close> and the manifest \<open>M\<close>.\<close>

definition demo_header :: "string \<Rightarrow> string \<Rightarrow> tar_header" where
  "demo_header name contents = \<lparr>th_Name = name, th_Typeflag = TypeReg, th_Linkname = [], th_Size = int (length contents),
     th_contents = Some contents\<rparr>"

definition demo_archive_env :: archive_env where
  "demo_archive_env = \<lparr>av_sha256 = (\<lambda>_. ''d1''),
     av_document = (\<lambda>t. if t = ''M'' then Whole (JArr [JObj [(''Config'', JStr ''d1.json''), (''RepoTags'', JArr [JStr ''t''])]])
       else Whole (JObj [(''architecture'', JStr ''amd64''), (''os'', JStr ''linux'')])),
     av_gunzip = (\<lambda>_. None), av_tar = (\<lambda>_. ([demo_header ''manifest.json'' ''M'', demo_header ''d1.json'' ''C''], False))\<rparr>"

lemma archive_demo_names: "safeName ''manifest.json''" "safeName ''d1.json''" "\<not> safeName ''d1/''" "\<not> safeName ''a/../b''"
  by code_simp+

lemma demo_manifest: "decode_manifest (av_document demo_archive_env ''M'') =
    Some [\<lparr>me_Config = ''d1.json'', me_RepoTags = [''t''], me_Layers = []\<rparr>]"
  by code_simp

lemma demo_platform: "decode_platform (av_document demo_archive_env ''C'') = Some (''amd64'', ''linux'')"
  by code_simp

lemma demo_members:
  "read_members 1 [] (fst (av_tar demo_archive_env b)) (snd (av_tar demo_archive_env b)) =
    Inr [(''d1.json'', \<lparr>mb_typeflag = TypeReg, mb_link = [], mb_size = 1, mb_data = ''C''\<rparr>),
         (''manifest.json'', \<lparr>mb_typeflag = TypeReg, mb_link = [], mb_size = 1, mb_data = ''M''\<rparr>)]"
  by (simp add: demo_archive_env_def demo_header_def archive_demo_names maxMembers_def read_member_def Let_def regular_member_def
      hasSuffix_def maxManifestSize_def maxConfigSize_def)

lemma demo_inspected:
  "InspectArchive demo_archive_env ''f'' (Some ''xy'') =
    Inr \<lparr>ir_Path = ''f'', ir_Size = 2, ir_Images = [\<lparr>im_Reference = ''t'', im_ID = ''sha256:d1'', im_Architecture = ''amd64'',
      im_OperatingSystem = ''linux''\<rparr>]\<rparr>"
proof -
  have x: "CHR ''x'' \<noteq> byte 31" by code_simp
  have i: "archive_images demo_archive_env
      [(''d1.json'', \<lparr>mb_typeflag = TypeReg, mb_link = [], mb_size = 1, mb_data = ''C''\<rparr>),
       (''manifest.json'', \<lparr>mb_typeflag = TypeReg, mb_link = [], mb_size = 1, mb_data = ''M''\<rparr>)] =
    Inr [\<lparr>im_Reference = ''t'', im_ID = ''sha256:d1'', im_Architecture = ''amd64'', im_OperatingSystem = ''linux''\<rparr>]"
    by (simp add: archive_images_def links_ok_def demo_manifest demo_platform add_entry_def archive_demo_names maxEntries_def,
        simp add: demo_archive_env_def)
  show ?thesis
    using x i by (simp add: InspectArchive_def case_prod_beta demo_members del: One_nat_def)
qed


lemma demo_selection: "SelectedReferences ''content-tools'' = Inr [ContentToolsImage]"
  by (simp add: SelectedReferences_def BuildClosure_def visit.simps unit_index_def units_def managed_images)

lemma selection_roundtrip_witness:
  "ValidateManaged ''amd64'' \<lparr>ir_Path = [], ir_Size = 1, ir_Images = [\<lparr>im_Reference = ContentToolsImage, im_ID = [],
     im_Architecture = ''amd64'', im_OperatingSystem = ''linux''\<rparr>]\<rparr> [ContentToolsImage] = None"
  using selection_roundtrip [OF demo_selection] by simp

end
