(* ===== verification/Cleanup.thy ===== *)
theory Cleanup
  imports Install ImageArchive "HOL-Library.Multiset"
begin

text \<open>
  The cleanup command (\<^verbatim>\<open>internal/cli/commands_cleanup.go\<close>, with \<^verbatim>\<open>resolveDataDir\<close> of
  \<^verbatim>\<open>commands_basic.go\<close> and \<^verbatim>\<open>promptLine\<close>, \<^verbatim>\<open>requireChoice\<close> of \<^verbatim>\<open>app.go\<close>): the choice of the resources of a
  scope, the plan, its confirmation and the removal, on a host that others change before every system
  call. Output is left out, but the paths, containers and images that the command sets out to remove
  are returned in order. The table of flags, the configuration of the host and the listing of a
  directory tree are arguments; one walk of a tree is one moment. Error texts of the operating system
  and of the configuration are shortened.
\<close>

section \<open>Environment\<close>

text \<open>What reading a line from the terminal gives; a read may also be cut off by a signal.\<close>

datatype reading = Line string | EndOfInput string | ReadFailed gerror | Interrupted

record cleanup_options =
  cp_Args :: "string list"
  cp_Yes :: bool
  cp_NonInteractive :: bool
  cp_DataDir :: string
  cp_ImageTag :: string

record 'h cleanup_app =
  ca_Runner :: "'h runner"
  ca_Environment :: environment
  ca_Configuration :: "config_error + Configuration"
  ca_Flags :: "string \<Rightarrow> string list \<Rightarrow> gerror + cleanup_options"
  ca_Terminal :: bool
  ca_Reading :: reading

record os_env =
  oe_content :: content_env
  oe_below :: "fs \<Rightarrow> string \<Rightarrow> string list"

section \<open>Paths\<close>

definition promptLine :: "reading \<Rightarrow> gerror + string" where
  "promptLine input = (case input of
     Interrupted \<Rightarrow> Inl ContextCanceled
   | Line line \<Rightarrow> Inr (trimSpace line)
   | EndOfInput line \<Rightarrow> (if line = [] then Inl (New ''input closed; cancelled'') else Inr (trimSpace line))
   | ReadFailed e \<Rightarrow> Inl e)"

definition confirmCleanup :: "'h cleanup_app \<Rightarrow> string \<Rightarrow> bool \<Rightarrow> bool \<Rightarrow> gerror option" where
  "confirmCleanup app scope yes nonInteractive =
     (if yes then None
      else if nonInteractive \<or> \<not> ca_Terminal app
      then Some (New (scope @ '' cleanup requires confirmation; repeat with --yes''))
      else (case promptLine (ca_Reading app) of
        Inl e \<Rightarrow> Some e
      | Inr line \<Rightarrow>
          (let normalized = map lower_char line in
           if normalized \<noteq> ''y'' \<and> normalized \<noteq> ''yes'' then Some (New (scope @ '' cleanup declined'')) else None)))"

text \<open>\<^verbatim>\<open>filepath.WalkDir\<close> over the entries below a directory, and the sum of the sizes of all non-directories.\<close>

definition shown :: "dirent \<Rightarrow> bool" where
  "shown d = (case d of Entry _ \<Rightarrow> True | _ \<Rightarrow> False)"

definition entry_size :: "dirent \<Rightarrow> int" where
  "entry_size d = (case d of Entry f \<Rightarrow> (if fl_kind f = KDirectory then 0 else fl_size f) | _ \<Rightarrow> 0)"

definition directorySize :: "os_env \<Rightarrow> string \<Rightarrow> host \<Rightarrow> (gerror + int) \<times> host" where
  "directorySize oe folder h =
     (let h1 = interfere h; visited = folder # oe_below oe (ho_fs h1) folder in
      (case find (\<lambda>q. \<not> shown (ho_fs h1 q)) visited of
         Some q \<Rightarrow> Inl (ErrorText (''lstat '' @ q))
       | None \<Rightarrow> Inr (foldl (\<lambda>total q. wrap64 (total + entry_size (ho_fs h1 q))) 0 visited), h1))"

text \<open>\<^verbatim>\<open>os.RemoveAll\<close>: what cannot be removed stays, with the directories above it.\<close>

definition stuck :: "fs \<Rightarrow> string list \<Rightarrow> string list" where
  "stuck fs qs = filter (\<lambda>q. case fs q of Denied _ \<Rightarrow> True | _ \<Rightarrow> False) qs"

definition RemoveAll :: "os_env \<Rightarrow> string \<Rightarrow> host \<Rightarrow> gerror option \<times> host" where
  "RemoveAll oe p h =
     (let h1 = interfere h; qs = p # oe_below oe (ho_fs h1) p; held = stuck (ho_fs h1) qs in
      (if held = [] then None else Some (ErrorText (''unlinkat '' @ hd held)),
       h1\<lparr>ho_fs := (\<lambda>q. if q \<in> set qs \<and> \<not> list_ex (\<lambda>s. s = q \<or> hasPrefix s (q @ ''/'')) held
                         then NoEntry else ho_fs h1 q)\<rparr>))"

fun reject_components :: "string list \<Rightarrow> host \<Rightarrow> gerror option \<times> host" where
  "reject_components [] h = (None, h)"
| "reject_components (current # rest) h =
     (case lstat current h of
        (NoEntry, h1) \<Rightarrow> (None, h1)
      | (Denied e, h1) \<Rightarrow> (Some (ErrorText e), h1)
      | (Entry f, h1) \<Rightarrow>
          (if fl_kind f = KSymlink
           then (Some (New (''refusing cleanup through symlinked path: '' @ current)), h1)
           else reject_components rest h1))"

definition trim_prefix :: "string \<Rightarrow> string" where
  "trim_prefix p = (if hasPrefix p ''/'' then drop 1 p else p)"

definition components_of :: "string \<Rightarrow> string list" where
  "components_of p = path_components ''/'' (split_on SL (trim_prefix (Clean p)))"

definition rejectSymlinkComponents :: "string \<Rightarrow> host \<Rightarrow> gerror option \<times> host" where
  "rejectSymlinkComponents p h = reject_components (components_of p) h"

definition resolveDataDir ::
  "os_env \<Rightarrow> 'h cleanup_app \<Rightarrow> string \<Rightarrow> bool \<Rightarrow> host \<Rightarrow> (gerror + string) \<times> host" where
  "resolveDataDir oe app value prepare h =
     (case bind_res (ca_Configuration app) (SelectDataDir value (ca_Environment app)) of
        Inl e \<Rightarrow> (Inl (ErrorText ''cannot select a data directory''), h)
      | Inr chosen \<Rightarrow>
          (let expanded = (if hasPrefix chosen ''~/''
                           then Join [env_get (ca_Environment app) ''HOME'', drop 2 chosen] else chosen);
               selected = Abs (ce_cwd (oe_content oe)) expanded in
           if prepare then
             (case MkdirAll selected h of
                (Some e, h1) \<Rightarrow> (Inl (Wrapped (''prepare data directory '' @ selected @ '': '') e), h1)
              | (None, h1) \<Rightarrow>
                  (let h2 = interfere h1 in
                   (case ce_resolve (oe_content oe) (ho_fs h2) selected of
                      Inl e \<Rightarrow> Inl (ErrorText e)
                    | Inr p \<Rightarrow> Inr p, h2)))
           else (Inr (Clean selected), h)))"

definition protected_roots :: "string \<Rightarrow> string list" where
  "protected_roots home = [''/'', ''/etc'', ''/home'', ''/opt'', ''/tmp'', ''/usr'', ''/var'', home, Dir home]"

definition trim_slashes :: "string \<Rightarrow> string" where
  "trim_slashes p = rev (dropWhile (\<lambda>c. c = SL) (rev (dropWhile (\<lambda>c. c = SL) p)))"

definition broad_root :: "string \<Rightarrow> string \<Rightarrow> bool" where
  "broad_root home folder \<longleftrightarrow> folder \<in> set (protected_roots home) \<or> length (split_on SL (trim_slashes folder)) < 2"

definition cleanupDataRoot :: "os_env \<Rightarrow> 'h cleanup_app \<Rightarrow> string \<Rightarrow> host \<Rightarrow> (gerror + string) \<times> host" where
  "cleanupDataRoot oe app value h =
     (let cwd = ce_cwd (oe_content oe) in
      case resolveDataDir oe app value False h of
        (Inl e, h1) \<Rightarrow> (Inl e, h1)
      | (Inr resolved, h1) \<Rightarrow>
          (let folder = Abs cwd resolved; home = Abs cwd (env_get (ca_Environment app) ''HOME'') in
           if broad_root home folder then (Inl (New (''refusing broad data directory: '' @ folder)), h1)
           else (case rejectSymlinkComponents folder h1 of
             (Some e, h2) \<Rightarrow> (Inl e, h2)
           | (None, h2) \<Rightarrow> (Inr folder, h2))))"

section \<open>Removing paths\<close>

record cleanupTarget =
  cg_kind :: string
  cg_path :: string
  cg_size :: int

fun plan_targets ::
  "os_env \<Rightarrow> string \<Rightarrow> string list \<Rightarrow> host \<Rightarrow> (gerror + cleanupTarget list) \<times> host" where
  "plan_targets oe scope [] h = (Inr [], h)"
| "plan_targets oe scope (p # ps) h =
     (case lstat p h of
        (NoEntry, h1) \<Rightarrow> plan_targets oe scope ps h1
      | (Denied e, h1) \<Rightarrow> (Inl (ErrorText e), h1)
      | (Entry f, h1) \<Rightarrow>
          (if fl_kind f \<noteq> KDirectory
           then (Inl (New (''cleanup target is not a real directory: '' @ p)), h1)
           else (case directorySize oe p h1 of
             (Inl e, h2) \<Rightarrow> (Inl e, h2)
           | (Inr n, h2) \<Rightarrow>
               (case plan_targets oe scope ps h2 of
                  (Inl e, h3) \<Rightarrow> (Inl e, h3)
                | (Inr ts, h3) \<Rightarrow> (Inr (\<lparr>cg_kind = scope, cg_path = p, cg_size = n\<rparr> # ts), h3)))))"

fun remove_targets ::
  "os_env \<Rightarrow> bool \<Rightarrow> cleanupTarget list \<Rightarrow> host \<Rightarrow> gerror option \<times> string list \<times> host" where
  "remove_targets oe removeDataRoot [] h = (None, [], h)"
| "remove_targets oe removeDataRoot (t # ts) h =
     (case (if removeDataRoot then (None, h) else rejectSymlinkComponents (cg_path t) h) of
        (Some e, h1) \<Rightarrow> (Some e, [], h1)
      | (None, h1) \<Rightarrow>
          (case RemoveAll oe (cg_path t) h1 of
             (Some e, h2) \<Rightarrow> (Some (Wrapped (''remove '' @ cg_path t @ '': '') e), [cg_path t], h2)
           | (None, h2) \<Rightarrow>
               (case remove_targets oe removeDataRoot ts h2 of
                  (r, removed, h3) \<Rightarrow> (r, cg_path t # removed, h3))))"

definition cleanupPaths ::
  "os_env \<Rightarrow> 'h cleanup_app \<Rightarrow> string \<Rightarrow> string list \<Rightarrow> bool \<Rightarrow> bool \<Rightarrow> bool \<Rightarrow> host
     \<Rightarrow> gerror option \<times> string list \<times> host" where
  "cleanupPaths oe app scope paths yes nonInteractive removeDataRoot h =
     (case plan_targets oe scope paths h of
        (Inl e, h1) \<Rightarrow> (Some e, [], h1)
      | (Inr targets, h1) \<Rightarrow>
          (if targets = [] then (None, [], h1)
           else (case confirmCleanup app scope yes nonInteractive of
             Some e \<Rightarrow> (Some e, [], h1)
           | None \<Rightarrow> remove_targets oe removeDataRoot targets h1)))"

section \<open>Containers and images\<close>

text \<open>The insertion sort of \<^verbatim>\<open>sortStrings\<close>: a value moves left while it is below its neighbour.\<close>

fun move_left :: "string \<Rightarrow> string list \<Rightarrow> string list" where
  "move_left v [] = [v]"
| "move_left v (u # us) = (if v < u then u # move_left v us else v # u # us)"

definition sortStrings :: "string list \<Rightarrow> string list" where
  "sortStrings values = rev (fold move_left values [])"

definition comfyBenchmarkContainer :: string where
  "comfyBenchmarkContainer = Container ''comfyui-benchmark''"
definition speculativeBenchmarkContainer :: string where
  "speculativeBenchmarkContainer = Container ''llama-cpp-speculative-benchmark''"

definition transient_containers :: "(string \<times> string) list" where
  "transient_containers = [(comfyBenchmarkContainer, ''comfyui''), (LlamaBenchmarkContainer, ''llama-cpp''),
     (speculativeBenchmarkContainer, ''llama-cpp'')]"

text \<open>The exact names of an application, in the order of a list; the program ranges over a map here.\<close>

definition exact_names :: "string \<Rightarrow> string list" where
  "exact_names application =
     map sp_ContainerName (filter (\<lambda>s. application = ''all'' \<or> application = sp_ID s) specs)
     @ map fst (filter (\<lambda>t. application = ''all'' \<or> application = snd t) transient_containers)"

fun add_present :: "'h runner \<Rightarrow> string list \<Rightarrow> string list \<Rightarrow> 'h \<Rightarrow> (gerror + string list) \<times> 'h" where
  "add_present R [] seen h = (Inr seen, h)"
| "add_present R (name # names) seen h =
     (if name \<in> set seen then add_present R names seen h
      else (case Exists R CallerContext ''container'' name h of
        (Inl e, h1) \<Rightarrow> (Inl e, h1)
      | (Inr present, h1) \<Rightarrow> add_present R names (if present then seen @ [name] else seen) h1))"

fun add_new :: "string list \<Rightarrow> string list \<Rightarrow> string list" where
  "add_new [] seen = seen"
| "add_new (name # names) seen = add_new names (if name \<in> set seen then seen else seen @ [name])"

definition managedContainers :: "'h runner \<Rightarrow> string \<Rightarrow> 'h \<Rightarrow> (gerror + string list) \<times> 'h" where
  "managedContainers R application h =
     (case ManagedContainerNames R CallerContext (if application = ''all'' then [] else application) h of
        (Inl e, h1) \<Rightarrow> (Inl e, h1)
      | (Inr labelled, h1) \<Rightarrow>
          (case add_present R (exact_names application) [] h1 of
             (Inl e, h2) \<Rightarrow> (Inl e, h2)
           | (Inr seen, h2) \<Rightarrow> (Inr (sortStrings (add_new labelled seen)), h2)))"

fun remove_each ::
  "('h \<Rightarrow> string \<Rightarrow> gerror option \<times> 'h) \<Rightarrow> 'h runner \<Rightarrow> string \<Rightarrow> string list \<Rightarrow> 'h
     \<Rightarrow> gerror option \<times> string list \<times> 'h" where
  "remove_each rm R kind [] h = (None, [], h)"
| "remove_each rm R kind (name # names) h =
     (case rm h name of
        (None, h1) \<Rightarrow> (case remove_each rm R kind names h1 of (r, removed, h2) \<Rightarrow> (r, name # removed, h2))
      | (Some e, h1) \<Rightarrow>
          (case Exists R CallerContext kind name h1 of
             (Inr False, h2) \<Rightarrow> (case remove_each rm R kind names h2 of (r, removed, h3) \<Rightarrow> (r, name # removed, h3))
           | (_, h2) \<Rightarrow> (Some e, [name], h2)))"

definition cleanupContainers ::
  "'h cleanup_app \<Rightarrow> string \<Rightarrow> bool \<Rightarrow> bool \<Rightarrow> 'h \<Rightarrow> gerror option \<times> string list \<times> 'h" where
  "cleanupContainers app application yes nonInteractive h =
     (let R = ca_Runner app in
      case RequireRootless R CallerContext h of
        (Some e, h1) \<Rightarrow> (Some e, [], h1)
      | (None, h1) \<Rightarrow>
          (case managedContainers R application h1 of
             (Inl e, h2) \<Rightarrow> (Some e, [], h2)
           | (Inr names, h2) \<Rightarrow>
               (if names = [] then (None, [], h2)
                else (case confirmCleanup app ''containers'' yes nonInteractive of
                  Some e \<Rightarrow> (Some e, [], h2)
                | None \<Rightarrow> remove_each (\<lambda>h name. RemoveContainer R CallerContext name 0 h) R ''container'' names h2))))"

fun present_images :: "'h runner \<Rightarrow> string list \<Rightarrow> 'h \<Rightarrow> (gerror + string list) \<times> 'h" where
  "present_images R [] h = (Inr [], h)"
| "present_images R (img # images) h =
     (case Exists R CallerContext ''image'' img h of
        (Inl e, h1) \<Rightarrow> (Inl e, h1)
      | (Inr present, h1) \<Rightarrow>
          (case present_images R images h1 of
             (Inl e, h2) \<Rightarrow> (Inl e, h2)
           | (Inr rest, h2) \<Rightarrow> (Inr (if present then img # rest else rest), h2)))"

definition selected_images :: "string \<Rightarrow> string \<Rightarrow> string list" where
  "selected_images application exact =
     (if exact \<noteq> [] then [exact]
      else map sp_Image (filter (\<lambda>s. application = ''all'' \<or> application = sp_ID s) specs)
        @ (if application = ''all'' then [ROCmBaseImage, ROCmRuntimeImage, ContentToolsImage] else []))"

definition cleanupImages ::
  "'h cleanup_app \<Rightarrow> string \<Rightarrow> string \<Rightarrow> bool \<Rightarrow> bool \<Rightarrow> 'h \<Rightarrow> gerror option \<times> string list \<times> 'h" where
  "cleanupImages app application exact yes nonInteractive h =
     (let R = ca_Runner app in
      if exact \<noteq> [] \<and> application \<noteq> ''all''
      then (Some (Usage ''--image-tag cannot be combined with an application scope''), [], h)
      else (case RequireRootless R CallerContext h of
        (Some e, h1) \<Rightarrow> (Some e, [], h1)
      | (None, h1) \<Rightarrow>
          (case managedContainers R application h1 of
             (Inl e, h2) \<Rightarrow> (Some e, [], h2)
           | (Inr containers, h2) \<Rightarrow>
               (if containers \<noteq> []
                then (Some (New (''managed containers are still present: '' @ join_with '', '' containers)), [], h2)
                else (case present_images R (selected_images application exact) h2 of
                  (Inl e, h3) \<Rightarrow> (Some e, [], h3)
                | (Inr present, h3) \<Rightarrow>
                    (if present = [] then (None, [], h3)
                     else (case confirmCleanup app ''images'' yes nonInteractive of
                       Some e \<Rightarrow> (Some e, [], h3)
                     | None \<Rightarrow> remove_each (\<lambda>h img. RemoveImage R CallerContext img h) R ''image'' present h3)))))))"

section \<open>The command\<close>

definition requireChoice :: "string \<Rightarrow> string \<Rightarrow> string list \<Rightarrow> gerror option" where
  "requireChoice value description allowed =
     (if value \<in> set allowed then None
      else Some (Usage (description @ '' must be one of '' @ join_with '', '' allowed)))"

definition groupHelpRequested :: "string list \<Rightarrow> bool" where
  "groupHelpRequested args \<longleftrightarrow> (\<exists>a. args = [a] \<and> a \<in> {''-h'', ''--help'', ''help''})"

definition cleanup_scopes :: "string list" where
  "cleanup_scopes = [''containers'', ''caches'', ''build-cache'', ''downloads'', ''images'', ''data'']"

definition scope_paths :: "string \<Rightarrow> string \<Rightarrow> string list" where
  "scope_paths scope dataRoot =
     (if scope = ''data'' then [dataRoot]
      else if scope = ''downloads''
      then [Join [dataRoot, ''staging''], Join [dataRoot, ''apps'', ''comfyui'', ''benchmarks'', ''.cache'']]
      else concat (map (\<lambda>s. let base = Join [dataRoot, ''apps'', sp_ID s] in
        [Join [base, ''cache''], Join [base, ''home'', ''.cache''], Join [base, ''home'', ''.miopen''],
         Join [base, ''home'', ''.triton'']]) specs))"

definition cleanup_data ::
  "os_env \<Rightarrow> host cleanup_app \<Rightarrow> string \<Rightarrow> cleanup_options \<Rightarrow> host \<Rightarrow> gerror option \<times> string list \<times> host" where
  "cleanup_data oe app scope opts h =
     (case cleanupDataRoot oe app (cp_DataDir opts) h of
        (Inl e, h1) \<Rightarrow> (Some e, [], h1)
      | (Inr dataRoot, h1) \<Rightarrow>
          (case lstat dataRoot h1 of
             (NoEntry, h2) \<Rightarrow> (None, [], h2)
           | (_, h2) \<Rightarrow>
               (case RequireRootless (ca_Runner app) CallerContext h2 of
                  (Some e, h3) \<Rightarrow> (Some e, [], h3)
                | (None, h3) \<Rightarrow>
                    (case managedContainers (ca_Runner app) ''all'' h3 of
                       (Inl e, h4) \<Rightarrow> (Some e, [], h4)
                     | (Inr containers, h4) \<Rightarrow>
                         (if containers \<noteq> []
                          then (Some (New (''managed containers are still present: '' @ join_with '', '' containers
                            @ ''; clean up containers first'')), [], h4)
                          else cleanupPaths oe app scope (scope_paths scope dataRoot) (cp_Yes opts)
                                 (cp_NonInteractive opts) (scope = ''data'') h4)))))"

definition cleanup_scope ::
  "os_env \<Rightarrow> host cleanup_app \<Rightarrow> string \<Rightarrow> cleanup_options \<Rightarrow> host \<Rightarrow> gerror option \<times> string list \<times> host" where
  "cleanup_scope oe app scope opts h =
     (let named = (scope = ''containers'' \<or> scope = ''images''); args = cp_Args opts;
          application = (if named \<and> args \<noteq> [] then hd args else ''all'') in
      if named \<and> 1 < length args
      then (Some (Usage (''cleanup '' @ scope @ '' accepts at most one application'')), [], h)
      else if \<not> named \<and> args \<noteq> []
      then (Some (Usage (''cleanup '' @ scope @ '' accepts no positional arguments'')), [], h)
      else if application \<noteq> ''all'' \<and> ByID application = None
      then (Some (Usage (''unknown application '' @ quoted application)), [], h)
      else if scope = ''containers''
      then cleanupContainers app application (cp_Yes opts) (cp_NonInteractive opts) h
      else if scope = ''images''
      then cleanupImages app application (cp_ImageTag opts) (cp_Yes opts) (cp_NonInteractive opts) h
      else if scope = ''build-cache'' then
        (case CacheDir (ca_Environment app) of
           Inl e \<Rightarrow> (Some (ErrorText ''cannot locate the build cache''), [], h)
         | Inr cache \<Rightarrow> cleanupPaths oe app scope [cache] (cp_Yes opts) (cp_NonInteractive opts) False h)
      else cleanup_data oe app scope opts h)"

definition commandCleanup ::
  "os_env \<Rightarrow> host cleanup_app \<Rightarrow> string list \<Rightarrow> host \<Rightarrow> gerror option \<times> string list \<times> host" where
  "commandCleanup oe app args h =
     (if groupHelpRequested args then (None, [], h)
      else if args = [] \<or> hasPrefix (hd args) ''-''
      then (Some (Usage ''choose containers, caches, build-cache, downloads, images, or data''), [], h)
      else (case requireChoice (hd args) ''cleanup scope'' cleanup_scopes of
        Some e \<Rightarrow> (Some e, [], h)
      | None \<Rightarrow>
          (case ca_Flags app (hd args) (tl args) of
             Inl e \<Rightarrow> (Some e, [], h)
           | Inr opts \<Rightarrow> cleanup_scope oe app (hd args) opts h)))"

section \<open>What the checks have seen\<close>

text \<open>
  A walk along the components of a path, each in the directory entries of its own moment: no
  component is a symbolic link, up to the first that does not exist.
\<close>

fun walked :: "fs list \<Rightarrow> string list \<Rightarrow> bool" where
  "walked past [] \<longleftrightarrow> True"
| "walked [] (c # cs) \<longleftrightarrow> False"
| "walked (s # past) (c # cs) \<longleftrightarrow> (case s c of
     NoEntry \<Rightarrow> True
   | Denied _ \<Rightarrow> False
   | Entry f \<Rightarrow> fl_kind f \<noteq> KSymlink \<and> walked past cs)"

definition seen_directory :: "fs list \<Rightarrow> string \<Rightarrow> bool" where
  "seen_directory past p \<longleftrightarrow> (\<exists>s\<in>set past. \<exists>f. s p = Entry f \<and> fl_kind f = KDirectory)"

definition path_walked :: "fs list \<Rightarrow> string \<Rightarrow> bool" where
  "path_walked past p \<longleftrightarrow> (\<exists>v. sublist v past \<and> walked v (components_of p))"

definition confirmed :: "'h cleanup_app \<Rightarrow> bool \<Rightarrow> bool \<Rightarrow> bool" where
  "confirmed app yes nonInteractive \<longleftrightarrow> yes \<or> (\<not> nonInteractive \<and> ca_Terminal app \<and>
     (\<exists>line. promptLine (ca_Reading app) = Inr line \<and> map lower_char line \<in> {''y'', ''yes''}))"

lemma confirmCleanup_iff: "confirmCleanup app scope yes ni = None \<longleftrightarrow> confirmed app yes ni"
  by (auto simp: confirmCleanup_def confirmed_def Let_def split: sum.splits)

lemma seen_directory_mono: "seen_directory past p \<Longrightarrow> set past \<subseteq> set past' \<Longrightarrow> seen_directory past' p"
  unfolding seen_directory_def by blast

lemma path_walked_mono: "path_walked past p \<Longrightarrow> sublist past past' \<Longrightarrow> path_walked past' p"
  unfolding path_walked_def by (blast intro: sublist_order.order.trans)

lemma reject_components_walked:
  "reject_components cs h = (None, h') \<Longrightarrow> \<exists>mid. ho_past h' = ho_past h @ mid \<and> walked mid cs"
proof (induction cs arbitrary: h)
  case (Cons c cs)
  obtain d h1 where l: "lstat c h = (d, h1)" by fastforce
  note seen = lstat_seen [OF l]
  show ?case
  proof (cases d)
    case NoEntry
    with Cons.prems l seen show ?thesis by (intro exI [of _ "[ho_fs h1]"]) simp
  next
    case (Denied e)
    with Cons.prems l show ?thesis by simp
  next
    case (Entry f)
    with Cons.prems l have "fl_kind f \<noteq> KSymlink" "reject_components cs h1 = (None, h')"
      by (simp_all split: if_splits)
    with Cons.IH obtain mid where "ho_past h' = ho_past h1 @ mid" "walked mid cs" by blast
    with seen Entry \<open>fl_kind f \<noteq> KSymlink\<close> show ?thesis by (intro exI [of _ "ho_fs h1 # mid"]) simp
  qed
qed simp

lemma reject_components_past: "reject_components cs h = (r, h') \<Longrightarrow> \<exists>mid. ho_past h' = ho_past h @ mid"
proof (induction cs arbitrary: h)
  case (Cons c cs)
  obtain d h1 where l: "lstat c h = (d, h1)" by fastforce
  note seen = lstat_seen [OF l]
  show ?case
  proof (cases d)
    case (Entry f)
    show ?thesis
    proof (cases "fl_kind f = KSymlink")
      case False
      with Cons.prems l Entry have "reject_components cs h1 = (r, h')" by simp
      with Cons.IH seen show ?thesis by fastforce
    qed (use Cons.prems l Entry seen in simp)
  qed (use Cons.prems l seen in simp_all)
qed simp

lemma rejectSymlinkComponents_walked:
  "rejectSymlinkComponents p h = (None, h') \<Longrightarrow> \<exists>mid. ho_past h' = ho_past h @ mid \<and> path_walked mid p"
  unfolding rejectSymlinkComponents_def path_walked_def using reject_components_walked by blast

lemma directorySize_past: "directorySize oe p h = (r, h') \<Longrightarrow> \<exists>mid. ho_past h' = ho_past h @ mid"
  by (auto simp: directorySize_def Let_def)

lemma RemoveAll_past: "RemoveAll oe p h = (r, h') \<Longrightarrow> \<exists>mid. ho_past h' = ho_past h @ mid"
  by (auto simp: RemoveAll_def Let_def)

lemma plan_targets_seen:
  "plan_targets oe scope ps h = (Inr ts, h') \<Longrightarrow>
     subseq (map cg_path ts) ps \<and>
     (\<exists>mid. ho_past h' = ho_past h @ mid \<and> (\<forall>t\<in>set ts. seen_directory mid (cg_path t)))"
proof (induction ps arbitrary: h ts)
  case (Cons p ps)
  obtain d h1 where l: "lstat p h = (d, h1)" by fastforce
  note seen = lstat_seen [OF l]
  show ?case
  proof (cases d)
    case NoEntry
    with Cons.prems l have "plan_targets oe scope ps h1 = (Inr ts, h')" by simp
    from Cons.IH [OF this] obtain mid where mid: "subseq (map cg_path ts) ps" "ho_past h' = ho_past h1 @ mid"
      "\<forall>t\<in>set ts. seen_directory mid (cg_path t)" by blast
    from mid(3) have "\<forall>t\<in>set ts. seen_directory (ho_fs h1 # mid) (cg_path t)"
      by (auto simp: seen_directory_def)
    with mid(1,2) seen show ?thesis by auto
  next
    case (Denied e)
    with Cons.prems l show ?thesis by simp
  next
    case (Entry f)
    with Cons.prems l have dir: "fl_kind f = KDirectory" by (auto split: if_splits)
    obtain n h2 where size: "directorySize oe p h1 = (Inr n, h2)"
      using Cons.prems l Entry dir by (auto split: prod.splits sum.splits)
    obtain us where us: "plan_targets oe scope ps h2 = (Inr us, h')"
        "ts = \<lparr>cg_kind = scope, cg_path = p, cg_size = n\<rparr> # us"
      using Cons.prems l Entry dir size by (auto split: prod.splits sum.splits)
    from Cons.IH [OF us(1)] obtain mid where mid: "subseq (map cg_path us) ps" "ho_past h' = ho_past h2 @ mid"
      "\<forall>t\<in>set us. seen_directory mid (cg_path t)" by blast
    obtain m where m: "ho_past h2 = ho_past h1 @ m" using directorySize_past [OF size] by blast
    have "seen_directory (ho_fs h1 # m @ mid) p"
      using seen(2) Entry dir by (auto simp: seen_directory_def)
    moreover have "\<forall>t\<in>set us. seen_directory (ho_fs h1 # m @ mid) (cg_path t)"
      using mid(3) by (auto simp: seen_directory_def)
    ultimately show ?thesis using mid(1,2) m seen(1) us(2) by auto
  qed
qed simp

lemma remove_targets_walked:
  "remove_targets oe flag ts h = (r, removed, h') \<Longrightarrow>
     prefix removed (map cg_path ts) \<and> (r = None \<longrightarrow> removed = map cg_path ts) \<and>
     (\<exists>mid. ho_past h' = ho_past h @ mid \<and> (flag \<or> (\<forall>p\<in>set removed. path_walked mid p)))"
proof (induction ts arbitrary: h r removed)
  case (Cons t ts)
  define check where "check = (if flag then (None, h) else rejectSymlinkComponents (cg_path t) h)"
  obtain c h1 where c: "check = (c, h1)" by fastforce
  have past1: "\<exists>mid. ho_past h1 = ho_past h @ mid"
  proof (cases flag)
    case False
    with c show ?thesis using reject_components_past by (simp add: check_def rejectSymlinkComponents_def)
  qed (use c in \<open>simp add: check_def\<close>)
  show ?case
  proof (cases c)
    case (Some e)
    with Cons.prems c past1 show ?thesis by (auto simp: check_def [symmetric])
  next
    case None
    obtain m where m: "ho_past h1 = ho_past h @ m" "flag \<or> path_walked m (cg_path t)"
    proof (cases flag)
      case False
      with c None show ?thesis using rejectSymlinkComponents_walked that by (simp add: check_def) blast
    qed (use past1 that in blast)
    obtain rr h2 where rm: "RemoveAll oe (cg_path t) h1 = (rr, h2)" by fastforce
    obtain n where n: "ho_past h2 = ho_past h1 @ n" using RemoveAll_past [OF rm] by blast
    show ?thesis
    proof (cases rr)
      case (Some e)
      with Cons.prems c None rm have "removed = [cg_path t]" "r \<noteq> None" "h' = h2"
        by (auto simp: check_def [symmetric])
      moreover have "path_walked (m @ n) (cg_path t)" if "path_walked m (cg_path t)"
        using path_walked_mono [OF that] by simp
      ultimately show ?thesis using m n by auto
    next
      case None2: None
      obtain removed2 where rest: "remove_targets oe flag ts h2 = (r, removed2, h')" "removed = cg_path t # removed2"
        using Cons.prems c None rm None2 by (auto simp: check_def [symmetric] split: prod.splits)
      from Cons.IH [OF rest(1)] obtain mid where mid: "prefix removed2 (map cg_path ts)"
          "r = None \<longrightarrow> removed2 = map cg_path ts" "ho_past h' = ho_past h2 @ mid"
          "flag \<or> (\<forall>p\<in>set removed2. path_walked mid p)" by blast
      have "path_walked (m @ n @ mid) (cg_path t)" if "path_walked m (cg_path t)"
        using path_walked_mono [OF that] by simp
      moreover have "path_walked (m @ n @ mid) p" if "path_walked mid p" for p
        using path_walked_mono [OF that, of "m @ n @ mid"] sublist_appendI [of mid "m @ n" "[]"] by simp
      ultimately show ?thesis using mid m n rest(2) by auto
    qed
  qed
qed simp

lemma cleanupPaths_guarded:
  assumes "cleanupPaths oe app scope paths yes ni flag h = (r, removed, h')" and that: "removed \<noteq> []"
  shows "subseq removed paths \<and> confirmed app yes ni \<and>
    (\<exists>mid. ho_past h' = ho_past h @ mid \<and>
       (\<forall>p\<in>set removed. seen_directory mid p \<and> (flag \<or> path_walked mid p)))"
proof -
  obtain ts h1 where plan: "plan_targets oe scope paths h = (Inr ts, h1)"
    using assms that by (auto simp: cleanupPaths_def split: prod.splits sum.splits)
  have ok: "confirmed app yes ni" and rm: "remove_targets oe flag ts h1 = (r, removed, h')"
    using assms that plan
    by (auto simp: cleanupPaths_def confirmCleanup_iff split: if_splits option.splits)
  from plan_targets_seen [OF plan] obtain m where m: "subseq (map cg_path ts) paths" "ho_past h1 = ho_past h @ m"
    "\<forall>t\<in>set ts. seen_directory m (cg_path t)" by blast
  from remove_targets_walked [OF rm] obtain n where n: "prefix removed (map cg_path ts)" "ho_past h' = ho_past h1 @ n"
    "flag \<or> (\<forall>p\<in>set removed. path_walked n p)" by blast
  have sub: "subseq removed paths"
    using n(1) m(1) by (blast intro: subseq_order.order_trans prefix_imp_subseq)
  have "\<forall>p\<in>set removed. seen_directory (m @ n) p \<and> (flag \<or> path_walked (m @ n) p)"
  proof
    fix p assume p: "p \<in> set removed"
    with n(1) obtain t where "t \<in> set ts" "p = cg_path t" using set_mono_prefix by fastforce
    with m(3) have "seen_directory (m @ n) p" by (auto intro: seen_directory_mono)
    moreover have "flag \<or> path_walked (m @ n) p"
      using n(3) p by (auto intro: path_walked_mono)
    ultimately show "seen_directory (m @ n) p \<and> (flag \<or> path_walked (m @ n) p)" ..
  qed
  with sub ok m(2) n(2) show ?thesis by auto
qed

section \<open>Paths below the data root\<close>

lemma proper_literals [simp]: "proper ''staging''" "proper ''apps''" "proper ''comfyui''" "proper ''llama-cpp''"
    "proper ''benchmarks''" "proper ''.cache''" "proper ''cache''" "proper ''home''" "proper ''.miopen''"
    "proper ''.triton''"
  by (simp_all add: proper_def)

lemma cleanupDataRoot_seen:
  assumes "cleanupDataRoot oe app value h = (Inr folder, h1)"
  shows "\<not> broad_root (Abs (ce_cwd (oe_content oe)) (env_get (ca_Environment app) ''HOME'')) folder"
    "\<exists>mid. ho_past h1 = ho_past h @ mid \<and> path_walked mid folder"
proof -
  obtain resolved h0 where res: "resolveDataDir oe app value False h = (Inr resolved, h0)"
    using assms by (auto simp: cleanupDataRoot_def Let_def split: prod.splits sum.splits)
  then have h0: "h0 = h" by (auto simp: resolveDataDir_def Let_def split: sum.splits)
  from assms res h0 show "\<not> broad_root (Abs (ce_cwd (oe_content oe)) (env_get (ca_Environment app) ''HOME'')) folder"
    by (auto simp: cleanupDataRoot_def Let_def split: if_splits prod.splits option.splits)
  from assms res h0 have "rejectSymlinkComponents folder h = (None, h1)"
    by (auto simp: cleanupDataRoot_def Let_def split: if_splits prod.splits option.splits)
  from rejectSymlinkComponents_walked [OF this] show "\<exists>mid. ho_past h1 = ho_past h @ mid \<and> path_walked mid folder" .
qed

lemma Join_literal:
  assumes "IsAbs folder" "vs \<noteq> []" "\<forall>v\<in>set vs. proper v"
  shows "clean_parts True (Join (folder # vs)) = clean_parts True folder @ vs \<and> IsAbs (Join (folder # vs))"
proof -
  have "split_on SL (join_with ''/'' vs) = vs"
    using split_on_join_with [OF assms(2), of SL] assms(3) by (auto simp: proper_def)
  moreover have "vs ! 0 \<noteq> []" using assms(2,3) by (cases vs) (auto simp: proper_def)
  ultimately have ne: "join_with ''/'' vs \<noteq> []" using assms(2) by (cases vs; cases "tl vs") auto
  have folder: "folder \<noteq> []" using assms(1) by (auto simp: IsAbs_def hasPrefix_def)
  have vs: "filter (\<lambda>e. e \<noteq> []) vs = vs"
    by (rule filter_True) (use assms(3) in \<open>auto simp: proper_def\<close>)
  have "Join (folder # vs) = Join [folder, join_with ''/'' vs]"
    using ne folder vs assms(2) by (cases vs) (simp_all add: Join_def)
  with Join_parts [OF assms(1) ne] \<open>split_on SL (join_with ''/'' vs) = vs\<close> assms(3) show ?thesis by simp
qed

lemma scope_paths_within:
  assumes "IsAbs folder" "p \<in> set (scope_paths scope folder)"
  shows "\<exists>zs. clean_parts True p = clean_parts True folder @ zs \<and> (scope \<noteq> ''data'' \<longrightarrow> zs \<noteq> [])"
proof -
  let ?below = "\<lambda>p. \<exists>zs. clean_parts True p = clean_parts True folder @ zs \<and> zs \<noteq> []"
  have direct: "?below (Join (folder # vs))" if "vs \<noteq> []" "\<forall>v\<in>set vs. proper v" for vs
    using Join_literal [OF assms(1) that] that(1) by auto
  have app: "?below (Join (Join [folder, ''apps'', a] # vs))" if "proper a" "vs \<noteq> []" "\<forall>v\<in>set vs. proper v" for a vs
  proof -
    from that(1) have base: "clean_parts True (Join [folder, ''apps'', a]) = clean_parts True folder @ [''apps'', a]"
        "IsAbs (Join [folder, ''apps'', a])"
      using Join_literal [OF assms(1), of "[''apps'', a]"] by simp_all
    show ?thesis using Join_literal [OF base(2) that(2,3)] base(1) that(2) by auto
  qed
  have ids: "sp_ID s = ''comfyui'' \<or> sp_ID s = ''llama-cpp''" if "s \<in> set specs" for s
    using that by (auto simp: specs_def comfyui_spec_def llama_cpp_spec_def)
  have "?below p" if "scope \<noteq> ''data''"
  proof (cases "scope = ''downloads''")
    case True
    with assms(2) that consider "p = Join (folder # [''staging''])"
      | "p = Join (folder # [''apps'', ''comfyui'', ''benchmarks'', ''.cache''])"
      by (auto simp: scope_paths_def)
    then show ?thesis by cases (simp_all only:, (rule direct; simp)+)
  next
    case False
    with assms(2) that obtain s where s: "s \<in> set specs" and
      p: "p \<in> {Join (Join [folder, ''apps'', sp_ID s] # vs) | vs. vs \<noteq> [] \<and> (\<forall>v\<in>set vs. proper v)}"
      by (fastforce simp: scope_paths_def Let_def)
    from ids [OF s] have "proper (sp_ID s)" by auto
    with p app show ?thesis by blast
  qed
  moreover have "p = folder" if "scope = ''data''" using assms(2) that by (simp add: scope_paths_def)
  ultimately show ?thesis by auto
qed

lemma cleanupDataRoot_abs:
  assumes "cleanupDataRoot oe app value h = (Inr folder, h1)" "IsAbs (ce_cwd (oe_content oe))"
  shows "IsAbs folder"
proof -
  have abs: "IsAbs (Abs cwd p)" if cwd: "IsAbs cwd" for cwd p
  proof (cases "IsAbs p")
    case False
    obtain c where c: "cwd = SL # c" using cwd by (auto simp: IsAbs_def hasPrefix_iff)
    have clean: "IsAbs (Clean (SL # q))" for q
      using Clean_clean [of "SL # q"] by (simp add: IsAbs_def hasPrefix_def)
    have "Abs cwd p = Clean (SL # (if p = [] then c else c @ ''/'' @ p))" using False by (simp add: Abs_def Join_def c)
    with clean show ?thesis by simp
  qed (simp add: Abs_def Clean_clean)
  from assms obtain resolved where "folder = Abs (ce_cwd (oe_content oe)) resolved"
    by (auto simp: cleanupDataRoot_def Let_def split: if_splits prod.splits option.splits sum.splits)
  with abs assms(2) show ?thesis by simp
qed

text \<open>
  C35: What removing application caches, downloads or the whole data root rests on: the data root is none
  of the protected directories and its own components were seen without symbolic links; podman listed
  no managed container; the user confirmed; and every path that is removed lies in the data root, was
  seen as a real directory and, unless it is the root itself, walked again without a symbolic link.
\<close>

theorem cleanup_guarded:
  assumes "commandCleanup oe app (scope # args) h = (r, removed, h')" "p \<in> set removed"
    "scope = ''caches'' \<or> scope = ''downloads'' \<or> scope = ''data''" "IsAbs (ce_cwd (oe_content oe))"
  shows "\<exists>opts folder h1 before checks mid ha hb.
    ca_Flags app scope args = Inr opts \<and>
    cleanupDataRoot oe app (cp_DataDir opts) h = (Inr folder, h1) \<and>
    \<not> broad_root (Abs (ce_cwd (oe_content oe)) (env_get (ca_Environment app) ''HOME'')) folder \<and>
    ho_past h1 = ho_past h @ checks \<and> path_walked checks folder \<and>
    managedContainers (ca_Runner app) ''all'' ha = (Inr [], hb) \<and>
    confirmed app (cp_Yes opts) (cp_NonInteractive opts) \<and>
    (\<exists>zs. clean_parts True p = clean_parts True folder @ zs \<and> (scope \<noteq> ''data'' \<longrightarrow> zs \<noteq> [])) \<and>
    ho_past h' = before @ mid \<and> seen_directory mid p \<and> (scope = ''data'' \<or> path_walked mid p)"
proof -
  obtain opts where opts: "ca_Flags app scope args = Inr opts" and run: "cleanup_scope oe app scope opts h = (r, removed, h')"
    using assms(1,2) by (auto simp: commandCleanup_def split: if_splits option.splits sum.splits)
  have data: "cleanup_data oe app scope opts h = (r, removed, h')"
    using run assms(2,3) unfolding cleanup_scope_def Let_def by (auto split: if_splits)
  obtain folder h1 where rt: "cleanupDataRoot oe app (cp_DataDir opts) h = (Inr folder, h1)"
    using data assms(2) by (auto simp: cleanup_data_def split: prod.splits sum.splits)
  obtain h3 h4 where none: "managedContainers (ca_Runner app) ''all'' h3 = (Inr [], h4)"
    and paths: "cleanupPaths oe app scope (scope_paths scope folder) (cp_Yes opts) (cp_NonInteractive opts)
      (scope = ''data'') h4 = (r, removed, h')"
    using data assms(2) rt
    by (auto simp: cleanup_data_def split: prod.splits sum.splits dirent.splits option.splits if_splits)
  have "removed \<noteq> []" using assms(2) by auto
  from cleanupPaths_guarded [OF paths this] obtain mid where g: "subseq removed (scope_paths scope folder)"
      "confirmed app (cp_Yes opts) (cp_NonInteractive opts)" "ho_past h' = ho_past h4 @ mid"
      "seen_directory mid p" "scope = ''data'' \<or> path_walked mid p"
    using assms(2) by blast
  have p: "p \<in> set (scope_paths scope folder)" by (rule list_emb_set [OF g(1) assms(2)]) simp
  from cleanupDataRoot_seen(2) [OF rt] obtain checks where ch: "ho_past h1 = ho_past h @ checks" "path_walked checks folder"
    by blast
  have "IsAbs folder" using rt assms(4) by (rule cleanupDataRoot_abs)
  with opts rt cleanupDataRoot_seen(1) [OF rt] ch none g p scope_paths_within [OF this p] show ?thesis by blast
qed

section \<open>The effect on an undisturbed host\<close>

lemma interfere_alone: "ho_steps h = [] \<Longrightarrow> ho_fs (interfere h) = ho_fs h \<and> ho_steps (interfere h) = []"
  by (simp add: interfere_def)

lemma lstat_alone:
  "ho_steps h = [] \<Longrightarrow> lstat p h = (d, h1) \<Longrightarrow> ho_fs h p = d \<and> ho_fs h1 = ho_fs h \<and> ho_steps h1 = []"
  by (auto simp: lstat_def Let_def interfere_alone)

lemma reject_alone:
  "ho_steps h = [] \<Longrightarrow> reject_components cs h = (r, h') \<Longrightarrow> ho_fs h' = ho_fs h \<and> ho_steps h' = []"
proof (induction cs arbitrary: h)
  case (Cons c cs)
  obtain d h1 where l: "lstat c h = (d, h1)" by fastforce
  note a = lstat_alone [OF Cons.prems(1) l]
  show ?case
  proof (cases "\<exists>f. d = Entry f \<and> fl_kind f \<noteq> KSymlink")
    case True
    with Cons.prems(2) l have "reject_components cs h1 = (r, h')" by auto
    with Cons.IH a show ?thesis by metis
  next
    case False
    with Cons.prems(2) l have "h' = h1" by (cases d) (auto split: if_splits)
    with a show ?thesis by simp
  qed
qed simp

lemma directorySize_alone:
  "ho_steps h = [] \<Longrightarrow> directorySize oe p h = (r, h') \<Longrightarrow> ho_fs h' = ho_fs h \<and> ho_steps h' = []"
  by (auto simp: directorySize_def Let_def interfere_alone)

lemma plan_targets_alone:
  "ho_steps h = [] \<Longrightarrow> plan_targets oe scope ps h = (r, h') \<Longrightarrow>
     ho_fs h' = ho_fs h \<and> ho_steps h' = [] \<and>
     (\<forall>ts. r = Inr ts \<longrightarrow> (\<forall>p\<in>set ps. ho_fs h p = NoEntry \<or> p \<in> cg_path ` set ts))"
proof (induction ps arbitrary: h r h')
  case (Cons p ps)
  obtain d h1 where l: "lstat p h = (d, h1)" by fastforce
  note a = lstat_alone [OF Cons.prems(1) l]
  show ?case
  proof (cases d)
    case NoEntry
    with Cons.prems(2) l have "plan_targets oe scope ps h1 = (r, h')" by simp
    from Cons.IH [OF _ this] a NoEntry show ?thesis by simp
  next
    case (Denied e)
    with Cons.prems(2) l a show ?thesis by auto
  next
    case (Entry f)
    show ?thesis
    proof (cases "fl_kind f = KDirectory")
      case True
      obtain n h2 where size: "directorySize oe p h1 = (n, h2)" by fastforce
      have b: "ho_fs h2 = ho_fs h" "ho_steps h2 = []" using directorySize_alone [OF _ size] a by simp_all
      obtain ts h3 where rest: "plan_targets oe scope ps h2 = (ts, h3)" by fastforce
      note c = Cons.IH [OF b(2) rest]
      from Cons.prems(2) l Entry True size rest b c show ?thesis by (cases n; cases ts) auto
    qed (use Cons.prems(2) l a Entry in auto)
  qed
qed simp

definition lists_below :: "os_env \<Rightarrow> bool" where
  "lists_below oe \<longleftrightarrow> (\<forall>fs p q. q \<in> set (oe_below oe fs p) \<longrightarrow> hasPrefix q (p @ ''/''))"

definition at_or_below :: "string \<Rightarrow> string \<Rightarrow> bool" where
  "at_or_below q p \<longleftrightarrow> q = p \<or> hasPrefix q (p @ ''/'')"

lemma RemoveAll_alone:
  assumes "ho_steps h = []" "RemoveAll oe p h = (r, h')" "lists_below oe"
  shows "ho_steps h' = []" "ho_fs h' q = ho_fs h q \<or> ho_fs h' q = NoEntry \<and> at_or_below q p"
    "r = None \<Longrightarrow> ho_fs h' p = NoEntry"
  using assms by (auto simp: RemoveAll_def Let_def interfere_alone lists_below_def at_or_below_def split: if_splits)

lemma remove_targets_alone:
  "ho_steps h = [] \<Longrightarrow> remove_targets oe flag ts h = (r, removed, h') \<Longrightarrow> lists_below oe \<Longrightarrow>
     (\<forall>q. ho_fs h' q = ho_fs h q \<or> ho_fs h' q = NoEntry \<and> (\<exists>p\<in>set removed. at_or_below q p)) \<and>
     (r = None \<longrightarrow> (\<forall>t\<in>set ts. ho_fs h' (cg_path t) = NoEntry))"
proof (induction ts arbitrary: h r removed h')
  case (Cons t ts)
  obtain c h1 where c: "(if flag then (None, h) else rejectSymlinkComponents (cg_path t) h) = (c, h1)" by fastforce
  then have a: "ho_fs h1 = ho_fs h" "ho_steps h1 = []"
    using reject_alone [OF Cons.prems(1), of "components_of (cg_path t)" c h1] Cons.prems(1)
    by (auto simp: rejectSymlinkComponents_def split: if_splits)
  obtain x h2 where rm: "RemoveAll oe (cg_path t) h1 = (x, h2)" by fastforce
  note b = RemoveAll_alone [OF a(2) rm Cons.prems(3)]
  obtain r3 removed3 h3 where rest: "remove_targets oe flag ts h2 = (r3, removed3, h3)" by (metis prod_cases3)
  note d = Cons.IH [OF b(1) rest Cons.prems(3)]
  show ?case
  proof (cases c)
    case (Some e)
    with Cons.prems(2) c a show ?thesis by auto
  next
    case None
    show ?thesis
    proof (cases x)
      case (Some e)
      with Cons.prems(2) c None rm have "r \<noteq> None" "removed = [cg_path t]" "h' = h2" by auto
      with b(2) a(1) show ?thesis by auto
    next
      case None2: None
      with Cons.prems(2) c None rm rest have eqs: "r = r3" "removed = cg_path t # removed3" "h' = h3" by auto
      have "ho_fs h' q = ho_fs h q \<or> ho_fs h' q = NoEntry \<and> (\<exists>p\<in>set removed. at_or_below q p)" for q
        using b(2) [of q] conjunct1 [OF d, THEN spec, of q] unfolding eqs(2,3) a(1) by fastforce
      moreover have "ho_fs h' (cg_path t) = NoEntry"
        using b(3) [OF None2] d eqs(3) by metis
      ultimately show ?thesis using d eqs by auto
    qed
  qed
qed simp

text \<open>
  C36: On a host that nobody else changes, cleaning paths changes nothing but the removed paths and what
  lies below them, which is then absent; a cleanup that succeeds leaves none of the requested paths,
  and one that fails before the first removal leaves everything as it was.
\<close>

theorem cleanup_effect:
  assumes "cleanupPaths oe app scope paths yes ni flag h = (r, removed, h')" "ho_steps h = []" "lists_below oe"
  shows "(\<forall>q. ho_fs h' q = ho_fs h q \<or> ho_fs h' q = NoEntry \<and> (\<exists>p\<in>set removed. at_or_below q p)) \<and>
    (r = None \<longrightarrow> (\<forall>p\<in>set paths. ho_fs h' p = NoEntry)) \<and> (\<not> confirmed app yes ni \<longrightarrow> ho_fs h' = ho_fs h)"
proof -
  obtain res h1 where plan: "plan_targets oe scope paths h = (res, h1)" by fastforce
  note a = plan_targets_alone [OF assms(2) plan]
  show ?thesis
  proof (cases res)
    case (Inl e)
    with assms(1) plan a show ?thesis by (auto simp: cleanupPaths_def)
  next
    case (Inr ts)
    show ?thesis
    proof (cases "ts = [] \<or> \<not> confirmed app yes ni")
      case True
      with assms(1) plan a Inr show ?thesis
        by (auto simp: cleanupPaths_def confirmCleanup_iff split: if_splits option.splits)
    next
      case False
      then have "confirmCleanup app scope yes ni = None" by (simp add: confirmCleanup_iff)
      with assms(1) plan Inr False have "remove_targets oe flag ts h1 = (r, removed, h')"
        by (simp add: cleanupPaths_def)
      from remove_targets_alone [OF _ this assms(3)] a have rm:
        "\<forall>q. ho_fs h' q = ho_fs h q \<or> ho_fs h' q = NoEntry \<and> (\<exists>p\<in>set removed. at_or_below q p)"
        "r = None \<longrightarrow> (\<forall>t\<in>set ts. ho_fs h' (cg_path t) = NoEntry)" by simp_all
      moreover have "ho_fs h' p = NoEntry" if "r = None" "p \<in> set paths" for p
      proof (cases "ho_fs h p = NoEntry")
        case True
        with rm(1) show ?thesis by metis
      next
        case no: False
        with a Inr that(2) have "p \<in> cg_path ` set ts" by blast
        with rm(2) that(1) show ?thesis by auto
      qed
      ultimately show ?thesis using False by blast
    qed
  qed
qed

section \<open>Calls of podman\<close>

text \<open>A runner that also keeps the arguments of every call.\<close>

definition logged :: "'h runner \<Rightarrow> ('h \<times> string list list) runner" where
  "logged R = \<lparr>rn_Run = (\<lambda>ctx name args hl. case rn_Run R ctx name args (fst hl) of
       (r, h1) \<Rightarrow> (r, (h1, snd hl @ [args]))), rn_LookPath = rn_LookPath R\<rparr>"

definition podman_query :: "string list \<Rightarrow> bool" where
  "podman_query args \<longleftrightarrow> args \<noteq> [] \<and> hd args \<in> {''info'', ''ps'', ''container''}"

definition queried :: "string list list \<Rightarrow> string list list \<Rightarrow> bool" where
  "queried cl cl' \<longleftrightarrow> (\<exists>new. cl' = cl @ new \<and> (\<forall>a\<in>set new. podman_query a))"

lemma queried_refl [simp]: "queried cl cl"
  by (simp add: queried_def)

lemma queried_trans: "queried a b \<Longrightarrow> queried b c \<Longrightarrow> queried a c"
  by (auto simp: queried_def)

lemma logged_Run:
  "rn_Run (logged R) ctx name args hl = (r, hl') \<Longrightarrow> snd hl' = snd hl @ [args]"
  by (auto simp: logged_def split: prod.splits)

lemma RequireRootless_queried: "RequireRootless (logged R) ctx hl = (r, hl') \<Longrightarrow> queried (snd hl) (snd hl')"
  by (auto simp: RequireRootless_def queried_def podman_query_def dest: logged_Run split: if_splits prod.splits sum.splits)

lemma Exists_queried: "Exists (logged R) ctx ''container'' n hl = (r, hl') \<Longrightarrow> queried (snd hl) (snd hl')"
  by (auto simp: Exists_def queried_def podman_query_def dest: logged_Run split: if_splits prod.splits sum.splits)

lemma ManagedContainerNames_queried:
  "ManagedContainerNames (logged R) ctx a hl = (r, hl') \<Longrightarrow> queried (snd hl) (snd hl')"
  by (auto simp: ManagedContainerNames_def ps_arguments_def queried_def podman_query_def dest: logged_Run
      split: if_splits prod.splits sum.splits)

lemma add_present_queried:
  "add_present (logged R) names seen hl = (r, hl') \<Longrightarrow> queried (snd hl) (snd hl') \<and>
     (\<forall>out. r = Inr out \<longrightarrow> set out \<subseteq> set seen \<union> set names)"
proof (induction names arbitrary: seen hl)
  case (Cons n ns)
  obtain b hl1 where ex: "Exists (logged R) CallerContext ''container'' n hl = (b, hl1)" by (meson surj_pair)
  note q = Exists_queried [OF ex]
  show ?case
  proof (cases "n \<in> set seen")
    case True
    with Cons.prems Cons.IH [of seen hl] show ?thesis by auto
  next
    case False
    show ?thesis
    proof (cases b)
      case (Inl e)
      with Cons.prems False ex q show ?thesis by auto
    next
      case (Inr p)
      with Cons.prems False ex have "add_present (logged R) ns (if p then seen @ [n] else seen) hl1 = (r, hl')" by simp
      from Cons.IH [OF this] q show ?thesis by (auto intro: queried_trans split: if_splits)
    qed
  qed
qed auto

lemma set_add_new: "set (add_new names seen) = set names \<union> set seen"
  by (induction names seen rule: add_new.induct) auto

lemma move_left_sorted:
  "sorted_wrt (\<ge>) us \<Longrightarrow> sorted_wrt (\<ge>) (move_left v us) \<and> mset (move_left v us) = add_mset v (mset us)"
proof (induction us)
  case (Cons u us)
  then have ih: "sorted_wrt (\<ge>) (move_left v us)" "mset (move_left v us) = add_mset v (mset us)" by simp_all
  from ih(2) have "set (move_left v us) = insert v (set us)" by (metis set_mset_add_mset_insert set_mset_mset)
  with Cons.prems ih show ?case by auto
qed simp

lemma sortStrings_sort: "sortStrings xs = sort xs"
proof -
  have "sorted_wrt (\<ge>) (fold move_left xs us) \<and> mset (fold move_left xs us) = mset us + mset xs"
    if "sorted_wrt (\<ge>) us" for us
    using that by (induction xs arbitrary: us) (simp_all add: move_left_sorted)
  from this [of "[]"] have "sorted_wrt (\<ge>) (fold move_left xs [])" "mset (fold move_left xs []) = mset xs" by simp_all
  then show ?thesis unfolding sortStrings_def
    by (intro properties_for_sort [symmetric]) (simp_all add: sorted_wrt_rev)
qed

lemma managedContainers_queried:
  assumes "managedContainers (logged R) application hl = (r, hl')"
  shows "queried (snd hl) (snd hl')"
    "r = Inr names \<Longrightarrow> \<exists>labelled hl1. ManagedContainerNames (logged R) CallerContext
        (if application = ''all'' then [] else application) hl = (Inr labelled, hl1) \<and>
        set names \<subseteq> set (exact_names application) \<union> set labelled \<and> sorted names"
proof -
  obtain l hl1 where l: "ManagedContainerNames (logged R) CallerContext
      (if application = ''all'' then [] else application) hl = (l, hl1)" by (meson surj_pair)
  note q = ManagedContainerNames_queried [OF l]
  obtain s hl2 where s: "add_present (logged R) (exact_names application) [] hl1 = (s, hl2)" by (meson surj_pair)
  note p = add_present_queried [OF s]
  from assms l s q p show "queried (snd hl) (snd hl')"
    by (cases l; cases s) (auto simp: managedContainers_def intro: queried_trans)
  assume "r = Inr names"
  with assms l s obtain labelled seen where "l = Inr labelled" "s = Inr seen" "names = sortStrings (add_new labelled seen)"
    by (cases l; cases s) (auto simp: managedContainers_def)
  with l p show "\<exists>labelled hl1. ManagedContainerNames (logged R) CallerContext
        (if application = ''all'' then [] else application) hl = (Inr labelled, hl1) \<and>
        set names \<subseteq> set (exact_names application) \<union> set labelled \<and> sorted names"
    by (auto simp: sortStrings_sort set_add_new)
qed

definition removal_call :: "string list \<Rightarrow> string list \<Rightarrow> bool" where
  "removal_call removed args \<longleftrightarrow> podman_query args \<or> (\<exists>n\<in>set removed. args = rm_arguments n 0)"

lemma RemoveContainer_logged:
  "RemoveContainer (logged R) ctx n 0 hl = (r, hl') \<Longrightarrow> snd hl' = snd hl \<or> snd hl' = snd hl @ [rm_arguments n 0]"
  by (auto simp: RemoveContainer_def execute_def dest: logged_Run split: if_splits prod.splits sum.splits)

lemma remove_containers_logged:
  "remove_each (\<lambda>h n. RemoveContainer (logged R) CallerContext n 0 h) (logged R) ''container'' names hl = (r, removed, hl') \<Longrightarrow>
     prefix removed names \<and> (r = None \<longrightarrow> removed = names) \<and>
     (\<exists>new. snd hl' = snd hl @ new \<and> (\<forall>a\<in>set new. removal_call removed a))"
proof (induction names arbitrary: hl r removed)
  case (Cons n ns)
  obtain e hl1 where rm: "RemoveContainer (logged R) CallerContext n 0 hl = (e, hl1)" by (meson surj_pair)
  from RemoveContainer_logged [OF rm] obtain c where c: "snd hl1 = snd hl @ c" "set c \<subseteq> {rm_arguments n 0}" by fastforce
  obtain b hl2 where ex: "Exists (logged R) CallerContext ''container'' n hl1 = (b, hl2)" by (meson surj_pair)
  from Exists_queried [OF ex] obtain q where q: "snd hl2 = snd hl1 @ q" "\<forall>a\<in>set q. podman_query a"
    by (auto simp: queried_def)
  have step: ?case if d: "snd hl3 = snd hl @ d" "\<forall>a\<in>set d. removal_call [n] a"
      "remove_each (\<lambda>h n. RemoveContainer (logged R) CallerContext n 0 h) (logged R) ''container'' ns hl3 = (r, rest, hl')"
      "removed = n # rest" for d hl3 rest
  proof -
    from Cons.IH [OF d(3)] obtain new where new: "prefix rest ns" "r = None \<longrightarrow> rest = ns" "snd hl' = snd hl3 @ new"
      "\<forall>a\<in>set new. removal_call rest a" by blast
    have "snd hl' = snd hl @ d @ new" using d(1) new(3) by simp
    moreover have "\<forall>a\<in>set (d @ new). removal_call removed a"
      using d(2,4) new(4) by (auto simp: removal_call_def)
    ultimately show ?thesis using new(1,2) d(4) by auto
  qed
  have first: "\<forall>a\<in>set (c @ q). removal_call [n] a" "\<forall>a\<in>set c. removal_call [n] a"
    using c(2) q(2) by (auto simp: removal_call_def)
  show ?case
  proof (cases e)
    case None
    obtain rest where "remove_each (\<lambda>h n. RemoveContainer (logged R) CallerContext n 0 h) (logged R) ''container'' ns hl1
        = (r, rest, hl')" "removed = n # rest"
      using Cons.prems rm None by (auto split: prod.splits)
    from step [OF c(1) first(2) this] show ?thesis .
  next
    case (Some err)
    show ?thesis
    proof (cases "b = Inr False")
      case True
      obtain rest where "remove_each (\<lambda>h n. RemoveContainer (logged R) CallerContext n 0 h) (logged R) ''container'' ns hl2
          = (r, rest, hl')" "removed = n # rest"
        using Cons.prems rm Some ex True by (auto split: prod.splits)
      from step [OF _ first(1) this] c(1) q(1) show ?thesis by simp
    next
      case False
      with Cons.prems rm Some ex have "r = Some err" "removed = [n]" "hl' = hl2"
        by (auto split: prod.splits sum.splits bool.splits)
      with first(1) c(1) q(1) show ?thesis by auto
    qed
  qed
qed simp

text \<open>
  Cleaning up containers asks podman only questions, and otherwise only force-removes single
  containers by name: those that it returns as removed. They begin the sorted plan, all of it when the
  command succeeds, and each is one of the exact names of the application or was listed by podman with
  the label of the program; and the user has confirmed the plan.
\<close>

theorem container_cleanup_planned:
  assumes "cleanupContainers app application yes ni (h, []) = (r, removed, (h', calls))"
    "ca_Runner app = logged R"
  shows "(\<forall>call\<in>set calls. podman_query call \<or> (\<exists>n\<in>set removed. call = rm_arguments n 0)) \<and>
    (removed = [] \<or> confirmed app yes ni \<and>
      (\<exists>names labelled ha hb. ManagedContainerNames (logged R) CallerContext
          (if application = ''all'' then [] else application) ha = (Inr labelled, hb) \<and>
        prefix removed names \<and> (r = None \<longrightarrow> removed = names) \<and> sorted names \<and>
        set names \<subseteq> set (exact_names application) \<union> set labelled))"
proof -
  obtain e hl1 where root: "RequireRootless (logged R) CallerContext (h, []) = (e, hl1)" by (meson surj_pair)
  note q1 = RequireRootless_queried [OF root]
  obtain m hl2 where m: "managedContainers (logged R) application hl1 = (m, hl2)" by (meson surj_pair)
  note q2 = managedContainers_queried [OF m]
  have queries: "\<forall>call\<in>set (snd hl2). podman_query call" "\<forall>call\<in>set (snd hl1). podman_query call"
    using q1 q2(1) by (auto simp: queried_def)
  note run = assms(1) [unfolded cleanupContainers_def Let_def assms(2) root]
  show ?thesis
  proof (cases "e = None \<and> (\<exists>names. m = Inr names \<and> names \<noteq> []) \<and> confirmed app yes ni")
    case False
    then have "removed = [] \<and> (calls = snd hl1 \<or> calls = snd hl2)"
      using run m confirmCleanup_iff [of app "''containers''" yes ni]
      by (auto split: option.splits sum.splits if_splits)
    with queries show ?thesis by auto
  next
    case True
    then obtain names where names: "e = None" "m = Inr names" "names \<noteq> []" "confirmed app yes ni" by blast
    then have each: "remove_each (\<lambda>h n. RemoveContainer (logged R) CallerContext n 0 h) (logged R) ''container'' names hl2
        = (r, removed, (h', calls))"
      using run m confirmCleanup_iff [of app "''containers''" yes ni] by simp
    from remove_containers_logged [OF each] obtain new where new: "prefix removed names" "r = None \<longrightarrow> removed = names"
      "calls = snd hl2 @ new" "\<forall>a\<in>set new. removal_call removed a" by auto
    from q2(2) [OF names(2)] obtain labelled hb where "ManagedContainerNames (logged R) CallerContext
        (if application = ''all'' then [] else application) hl1 = (Inr labelled, hb)"
        "set names \<subseteq> set (exact_names application) \<union> set labelled" "sorted names" by blast
    moreover have "\<forall>call\<in>set calls. podman_query call \<or> (\<exists>n\<in>set removed. call = rm_arguments n 0)"
      using queries(1) new(3,4) by (auto simp: removal_call_def)
    ultimately show ?thesis using new(1,2) names(4) by blast
  qed
qed

section \<open>Examples\<close>

definition demo_node :: "kind \<Rightarrow> string \<Rightarrow> dirent" where
  "demo_node k bytes = Entry \<lparr>fl_kind = k, fl_dev = 1, fl_ino = 1, fl_mtime = 0, fl_ctime = 0, fl_nlink = 1, fl_bytes = bytes\<rparr>"

definition demo_tree :: fs where
  "demo_tree p = (if p \<in> {''/srv'', ''/srv/data'', ''/srv/data/staging''} then demo_node KDirectory []
     else if p = ''/srv/data/staging/part'' then demo_node KRegular ''abc'' else NoEntry)"

definition demo_cleanup_host :: host where
  "demo_cleanup_host = \<lparr>ho_fs = demo_tree, ho_clock = 0, ho_steps = [], ho_past = []\<rparr>"

definition demo_os :: os_env where
  "demo_os = \<lparr>oe_content = \<lparr>ce_sha256 = id, ce_resolve = (\<lambda>fs p. Inr p), ce_cwd = ''/''\<rparr>,
     oe_below = (\<lambda>fs p. if p = ''/srv/data/staging'' then [''/srv/data/staging/part''] else [])\<rparr>"

definition demo_podman :: "string \<Rightarrow> 'h runner" where
  "demo_podman names = \<lparr>rn_Run = (\<lambda>ctx name args h. (Inr \<lparr>rs_Stdout = (if hd args = ''info'' then ''true'' else names),
     rs_Stderr = [], rs_Status = (if hd args = ''container'' then 1 else 0)\<rparr>, h)), rn_LookPath = Some\<rparr>"

definition demo_app :: "'h runner \<Rightarrow> 'h cleanup_app" where
  "demo_app R = \<lparr>ca_Runner = R, ca_Environment = [''HOME'' \<mapsto> ''/home/ann''], ca_Configuration = Inr empty_configuration,
     ca_Flags = (\<lambda>scope args. Inr \<lparr>cp_Args = [], cp_Yes = False, cp_NonInteractive = False,
       cp_DataDir = ''/srv/data'', cp_ImageTag = []\<rparr>),
     ca_Terminal = True, ca_Reading = Line ''Yes''\<rparr>"

lemma demo_words: "trimSpace ''true'' = ''true''" "trimSpace ''Yes'' = ''Yes''"
  by (simp_all add: trim_text)

lemma cleanup_fields: "Fields [] = []" "Fields ''dl-1'' = [''dl-1'']" "map lower_char ''Yes'' = ''yes''"
  by code_simp+

lemmas demo_trim = demo_words cleanup_fields

lemma demo_confirmed: "confirmCleanup (demo_app R) scope False False = None"
  by (simp add: confirmCleanup_def demo_app_def promptLine_def demo_trim del: list.map)

lemmas demo_path_defs = Join_def Clean_def render_path_def clean_parts_def clean_step_def IsAbs_def hasPrefix_def
  Abs_def Dir_def trim_slashes_def components_of_def trim_prefix_def

lemma cleanup_root:
  "cleanupDataRoot demo_os (demo_app R) ''/srv/data'' demo_cleanup_host =
     (Inr ''/srv/data'', demo_cleanup_host\<lparr>ho_clock := 2, ho_past := [demo_tree, demo_tree]\<rparr>)"
  by (simp add: cleanupDataRoot_def resolveDataDir_def SelectDataDir_def broad_root_def protected_roots_def
      rejectSymlinkComponents_def demo_path_defs demo_os_def demo_app_def env_get_def lstat_def interfere_def Let_def
      demo_cleanup_host_def demo_tree_def demo_node_def)

lemma demo_rootless: "RequireRootless (demo_podman names) ctx h = (None, h)"
  by (simp add: RequireRootless_def demo_podman_def demo_trim)

lemma demo_listed: "ManagedContainerNames (demo_podman names) ctx a h = (Inr (sort (remdups (Fields names))), h)"
  by (simp add: ManagedContainerNames_def demo_podman_def ps_arguments_def)

lemma demo_absent: "add_present (demo_podman names) ns seen h = (Inr seen, h)"
  by (induction ns) (simp_all add: Exists_def demo_podman_def)

lemma cleanup_managed: "managedContainers (demo_podman []) a h = (Inr [], h)"
  by (simp add: managedContainers_def demo_listed demo_absent demo_trim sortStrings_def)

lemma demo_downloads:
  "fst (snd (commandCleanup demo_os (demo_app (demo_podman [])) [''downloads''] demo_cleanup_host)) = [''/srv/data/staging'']"
proof -
  let ?fs = demo_tree
  have flags: "ca_Flags (demo_app R) scope args = Inr \<lparr>cp_Args = [], cp_Yes = False, cp_NonInteractive = False,
      cp_DataDir = ''/srv/data'', cp_ImageTag = []\<rparr>" "ca_Runner (demo_app R) = R" for scope args and R :: "'h runner"
    by (simp_all add: demo_app_def)
  have paths: "scope_paths ''downloads'' ''/srv/data'' = [''/srv/data/staging'', ''/srv/data/apps/comfyui/benchmarks/.cache'']"
    by (simp add: scope_paths_def demo_path_defs)
  have host: "demo_cleanup_host\<lparr>ho_clock := 2, ho_past := [demo_tree, demo_tree]\<rparr> =
      \<lparr>ho_fs = ?fs, ho_clock = 2, ho_steps = [], ho_past = [?fs, ?fs]\<rparr>" by (simp add: demo_cleanup_host_def)
  have look: "lstat p \<lparr>ho_fs = ?fs, ho_clock = c, ho_steps = [], ho_past = past\<rparr> =
      (?fs p, \<lparr>ho_fs = ?fs, ho_clock = c + 1, ho_steps = [], ho_past = past @ [?fs]\<rparr>)" for p c past
    by (simp add: lstat_def interfere_def Let_def)
  have dirs: "?fs ''/srv/data'' = demo_node KDirectory []" "?fs ''/srv'' = demo_node KDirectory []"
      "?fs ''/srv/data/staging'' = demo_node KDirectory []" "?fs ''/srv/data/staging/part'' = demo_node KRegular ''abc''"
      "?fs ''/srv/data/apps/comfyui/benchmarks/.cache'' = NoEntry"
    by (simp_all add: demo_tree_def)
  have size: "\<exists>n. directorySize demo_os ''/srv/data/staging'' \<lparr>ho_fs = ?fs, ho_clock = c, ho_steps = [], ho_past = past\<rparr> =
      (Inr n, \<lparr>ho_fs = ?fs, ho_clock = c + 1, ho_steps = [], ho_past = past @ [?fs]\<rparr>)" for c past
    by (simp add: directorySize_def interfere_def Let_def demo_os_def dirs shown_def demo_node_def)
  obtain n where n: "directorySize demo_os ''/srv/data/staging'' \<lparr>ho_fs = ?fs, ho_clock = 2 + 1 + 1, ho_steps = [],
      ho_past = [?fs, ?fs] @ [?fs] @ [?fs]\<rparr> = (Inr n, \<lparr>ho_fs = ?fs, ho_clock = 5, ho_steps = [], ho_past = [?fs, ?fs, ?fs, ?fs, ?fs]\<rparr>)"
    using size [of "2 + 1 + 1" "[?fs, ?fs] @ [?fs] @ [?fs]"] by auto
  have walk: "rejectSymlinkComponents ''/srv/data/staging'' \<lparr>ho_fs = ?fs, ho_clock = c, ho_steps = [], ho_past = past\<rparr> =
      (None, \<lparr>ho_fs = ?fs, ho_clock = c + 3, ho_steps = [], ho_past = past @ [?fs, ?fs, ?fs]\<rparr>)" for c past
    by (simp add: rejectSymlinkComponents_def demo_path_defs look dirs demo_node_def)
  show ?thesis
    by (simp add: commandCleanup_def groupHelpRequested_def hasPrefix_def requireChoice_def cleanup_scopes_def flags
        cleanup_scope_def cleanup_data_def cleanup_root host look dirs demo_node_def demo_rootless cleanup_managed
        cleanupPaths_def paths n [unfolded add.assoc, simplified] demo_confirmed walk RemoveAll_def Let_def
        split: prod.splits option.splits)
qed

lemma demo_downloads_run:
  "\<exists>r h'. commandCleanup demo_os (demo_app (demo_podman [] :: host runner)) (''downloads'' # []) demo_cleanup_host =
     (r, [''/srv/data/staging''], h')"
  using demo_downloads by (metis fst_conv snd_conv surj_pair)

theorem cleanup_guarded_witness:
  "\<exists>r h' past. commandCleanup demo_os (demo_app (demo_podman [] :: host runner)) (''downloads'' # []) demo_cleanup_host =
     (r, [''/srv/data/staging''], h') \<and> \<not> broad_root ''/home/ann'' ''/srv/data'' \<and>
     path_walked past ''/srv/data/staging''"
proof -
  obtain r h' where run: "commandCleanup demo_os (demo_app (demo_podman [] :: host runner)) (''downloads'' # []) demo_cleanup_host =
     (r, [''/srv/data/staging''], h')" using demo_downloads_run by blast
  have abs: "IsAbs (ce_cwd (oe_content demo_os))" by (simp add: demo_os_def IsAbs_def hasPrefix_def)
  have home: "Abs (ce_cwd (oe_content demo_os)) (env_get (ca_Environment (demo_app R)) ''HOME'') = ''/home/ann''" for R :: "host runner"
    by (simp add: demo_path_defs demo_os_def demo_app_def env_get_def)
  have dir: "cp_DataDir opts = ''/srv/data''" if "ca_Flags (demo_app R) sc args = Inr opts" for opts sc args and R :: "host runner"
    using that by (auto simp: demo_app_def)
  have mem: "''/srv/data/staging'' \<in> set [''/srv/data/staging'']"
    and scope: "''downloads'' = ''caches'' \<or> ''downloads'' = ''downloads'' \<or> ''downloads'' = ''data''" by simp_all
  from cleanup_guarded [OF run mem scope abs]
  obtain opts folder h1 mid where g: "ca_Flags (demo_app (demo_podman [] :: host runner)) ''downloads'' [] = Inr opts"
     "cleanupDataRoot demo_os (demo_app (demo_podman [] :: host runner)) (cp_DataDir opts) demo_cleanup_host = (Inr folder, h1)"
     "\<not> broad_root ''/home/ann'' folder" "path_walked mid ''/srv/data/staging''"
    unfolding home by (elim exE conjE disjE) (rule that; assumption | simp)+
  from g(2) cleanup_root [of "demo_podman [] :: host runner"] dir [OF g(1)] have "folder = ''/srv/data''" by simp
  with run g show ?thesis by blast
qed

theorem cleanup_effect_witness:
  "ho_fs (snd (snd (cleanupPaths demo_os (demo_app (demo_podman [] :: host runner)) ''data'' [''/srv/data''] False True True demo_cleanup_host)))
     = demo_tree"
proof -
  obtain r removed h' where run: "cleanupPaths demo_os (demo_app (demo_podman [] :: host runner)) ''data'' [''/srv/data''] False True True
      demo_cleanup_host = (r, removed, h')" by (metis prod_cases3)
  have "lists_below demo_os" by (simp add: lists_below_def demo_os_def hasPrefix_def)
  moreover have "\<not> confirmed (demo_app (demo_podman [] :: host runner)) False True" by (simp add: confirmed_def)
  moreover have "ho_steps demo_cleanup_host = []" by (simp add: demo_cleanup_host_def)
  ultimately have "ho_fs h' = ho_fs demo_cleanup_host" using cleanup_effect [OF run] by blast
  then show ?thesis by (simp add: run) (simp add: demo_cleanup_host_def)
qed

lemma demo_container_run:
  "\<exists>r h' calls. cleanupContainers (demo_app (logged (demo_podman ''dl-1''))) ''all'' False False ((), []) =
     (r, [''dl-1''], (h', calls))"
proof -
  let ?R = "logged (demo_podman ''dl-1'')"
  have app: "ca_Runner (demo_app R) = R" for R :: "'h runner" by (simp add: demo_app_def)
  have info: "\<exists>c. RequireRootless ?R ctx ((), calls) = (None, ((), c))" for ctx calls
    by (simp add: RequireRootless_def logged_def demo_podman_def demo_trim)
  have ps: "\<exists>c. ManagedContainerNames ?R ctx a ((), calls) = (Inr [''dl-1''], ((), c))" for ctx a calls
    by (simp add: ManagedContainerNames_def logged_def demo_podman_def ps_arguments_def demo_trim)
  have absent: "\<exists>c. add_present ?R ns seen ((), calls) = (Inr seen, ((), c))" for ns seen calls
    by (induction ns arbitrary: calls) (auto simp: Exists_def logged_def demo_podman_def)
  have rm: "\<exists>c. RemoveContainer ?R ctx ''dl-1'' 0 ((), calls) = (None, ((), c))" for ctx calls
    by (simp add: RemoveContainer_def execute_def logged_def demo_podman_def rm_arguments_def)
  obtain c1 where c1: "RequireRootless ?R CallerContext ((), []) = (None, ((), c1))" using info by blast
  obtain c2 where c2: "ManagedContainerNames ?R CallerContext [] ((), c1) = (Inr [''dl-1''], ((), c2))" using ps by blast
  obtain c3 where c3: "add_present ?R (exact_names ''all'') [] ((), c2) = (Inr [], ((), c3))" using absent by blast
  obtain c4 where c4: "RemoveContainer ?R CallerContext ''dl-1'' 0 ((), c3) = (None, ((), c4))" using rm by blast
  have "managedContainers ?R ''all'' ((), c1) = (Inr [''dl-1''], ((), c3))"
    by (simp add: managedContainers_def c2 c3 sortStrings_def)
  then show ?thesis by (simp add: cleanupContainers_def app c1 demo_confirmed c4)
qed

theorem container_cleanup_planned_witness:
  "\<exists>r removed h' calls. cleanupContainers (demo_app (logged (demo_podman ''dl-1''))) ''all'' False False ((), []) =
     (r, removed, (h', calls)) \<and> confirmed (demo_app (logged (demo_podman ''dl-1'' :: unit runner))) False False \<and> removed \<noteq> []"
proof -
  obtain r h' calls where run: "cleanupContainers (demo_app (logged (demo_podman ''dl-1''))) ''all'' False False ((), []) =
     (r, [''dl-1''], (h', calls))" using demo_container_run by blast
  have "confirmed (demo_app (logged (demo_podman ''dl-1'' :: unit runner))) False False"
    using container_cleanup_planned [OF run] by (simp add: demo_app_def)
  with run show ?thesis by blast
qed

text \<open>
  The test for a broad data root protects the home directory and its parent, but not the directories
  further up.
\<close>

lemma root_above_home_accepted: "\<not> broad_root ''/srv/users/team/ann'' ''/srv/users''"
  by (simp add: broad_root_def protected_roots_def trim_slashes_def Dir_def Clean_def render_path_def clean_parts_def
      clean_step_def IsAbs_def hasPrefix_def)

text \<open>No exact name is in the name space of the downloaders: those are found by their label only.\<close>

lemma downloaders_by_label: "n \<in> set (exact_names a) \<Longrightarrow> \<not> hasPrefix n (Container ''download-'')"
  by (auto simp: exact_names_def specs_def comfyui_spec_def llama_cpp_spec_def transient_containers_def
      comfyBenchmarkContainer_def LlamaBenchmarkContainer_def speculativeBenchmarkContainer_def Container_def
      StateNamespace_def hasPrefix_def split: if_splits)

end
