(* ===== verification/ModelInventory.thy ===== *)
theory ModelInventory
  imports Inventory Runtime "HOL-Library.Product_Lexorder"
begin

text \<open>
  The list of text models on disk (\<^verbatim>\<open>internal/modelinventory/inventory.go\<close>): the models of the catalog
  with the state of their files, and the loose GGUF files of the managed directory and of further
  paths, sets of shards as one model each. Symbolic links, the listing of a directory tree, the home
  directory and the lower case of letters outside ASCII are arguments; one walk of a tree is one
  moment. Maps keep the order of insertion; where the program ranges over a map, it sorts afterwards,
  and values that the comparison does not tell apart stay in that order here.
\<close>

section \<open>Environment and data\<close>

record scan_env =
  sn_content :: content_env
  sn_below :: "fs \<Rightarrow> string \<Rightarrow> string list"
  sn_home :: "string option"
  sn_lower :: "string \<Rightarrow> string"

record LlamaModel =
  gm_Path :: string
  gm_Size :: int
  gm_State :: string
  gm_Source :: string
  gm_Presets :: "string list"
  gm_Bundles :: "string list"
  gm_Artifacts :: "string list"
  gm_ShardCount :: int
  gm_ExpectedShards :: int

definition local_model :: "string \<Rightarrow> int \<Rightarrow> string \<Rightarrow> int \<Rightarrow> int \<Rightarrow> LlamaModel" where
  "local_model p bytes st shards tot =
     \<lparr>gm_Path = p, gm_Size = bytes, gm_State = st, gm_Source = ''local'', gm_Presets = [], gm_Bundles = [],
      gm_Artifacts = [], gm_ShardCount = shards, gm_ExpectedShards = tot\<rparr>"

section \<open>The catalog\<close>

definition aggregate :: "state list \<Rightarrow> string" where
  "aggregate states =
     (if count_list states Missing = length states then ''missing''
      else if Unexpected \<in> set states then ''user-file''
      else if HashMismatch \<in> set states then state_name HashMismatch
      else if SizeMismatch \<in> set states then state_name SizeMismatch
      else if Missing \<in> set states then ''partial''
      else if Unverified \<in> set states then ''unverified''
      else ''ready'')"

text \<open>The identity of a path: what its symbolic links lead to, or the absolute path.\<close>

definition path_identity :: "scan_env \<Rightarrow> string \<Rightarrow> host \<Rightarrow> string \<times> host" where
  "path_identity sn p h =
     (let h1 = interfere h in
      (case ce_resolve (sn_content sn) (ho_fs h1) p of
         Inl e \<Rightarrow> Abs (ce_cwd (sn_content sn)) p
       | Inr target \<Rightarrow> target, h1))"

record group_sum =
  gr_states :: "state list"
  gr_expected :: int
  gr_observed :: int
  gr_shards :: int
  gr_claimed :: "string list"

fun inspect_group ::
  "scan_env \<Rightarrow> string \<Rightarrow> Catalog \<Rightarrow> string list \<Rightarrow> string list \<Rightarrow> Store option \<Rightarrow> group_sum \<Rightarrow> host
     \<Rightarrow> (gerror + group_sum) \<times> Store option \<times> host" where
  "inspect_group sn dataRoot managed auxiliary [] store g h = (Inr g, store, h)"
| "inspect_group sn dataRoot managed auxiliary (i # ids) store g h =
     (let artifact = artifact_of managed i in
      case InspectArtifact (sn_content sn) store dataRoot artifact False h of
        (Inl e, store1, h1) \<Rightarrow> (Inl e, store1, h1)
      | (Inr status, store1, h1) \<Rightarrow>
          (let (entry, h2) = lstat (as_Path status) h1;
               (identity, h3) = path_identity sn (as_Path status) h2 in
           inspect_group sn dataRoot managed auxiliary ids store1
             \<lparr>gr_states = gr_states g @ [as_State status],
              gr_expected = wrap64 (gr_expected g + ar_Size artifact),
              gr_observed = (case entry of Entry f \<Rightarrow> wrap64 (gr_observed g + fl_size f) | _ \<Rightarrow> gr_observed g),
              gr_shards = (if i \<in> set auxiliary then gr_shards g else gr_shards g + 1),
              gr_claimed = gr_claimed g @ [identity]\<rparr> h3))"

definition preset_groups :: "Catalog \<Rightarrow> (string \<times> string) list" where
  "preset_groups managed = sort (remdups (map (\<lambda>(i, p). (lp_Artifact p, lp_Bundle p)) (ct_LlamaPresets managed)))"

definition group_presets :: "Catalog \<Rightarrow> string \<times> string \<Rightarrow> string list" where
  "group_presets managed gk =
     sort (map fst (filter (\<lambda>(i, p). (lp_Artifact p, lp_Bundle p) = gk) (ct_LlamaPresets managed)))"

definition auxiliary_artifacts :: "Catalog \<Rightarrow> string list \<Rightarrow> string list" where
  "auxiliary_artifacts managed presets =
     concat (map (\<lambda>i. case lookup (ct_LlamaPresets managed) i of
        None \<Rightarrow> []
      | Some p \<Rightarrow> filter (\<lambda>a. a \<noteq> []) [lp_MMProjArtifact p, lp_DraftArtifact p]) presets)"

definition required_artifacts :: "Catalog \<Rightarrow> string \<Rightarrow> string list" where
  "required_artifacts managed bundle =
     (case lookup (ct_Bundles managed) bundle of
        None \<Rightarrow> []
      | Some b \<Rightarrow> sort (remdups (filter (\<lambda>i. ar_Target (artifact_of managed i) = ''llama-models'') (bn_Artifacts b))))"

fun group_models ::
  "scan_env \<Rightarrow> string \<Rightarrow> Catalog \<Rightarrow> (string \<times> string) list \<Rightarrow> Store option \<Rightarrow> host
     \<Rightarrow> (gerror + LlamaModel list \<times> string list) \<times> host" where
  "group_models sn dataRoot managed [] store h = (Inr ([], []), h)"
| "group_models sn dataRoot managed (gk # gks) store h =
     (let presets = group_presets managed gk; ids = required_artifacts managed (snd gk) in
      case inspect_group sn dataRoot managed (auxiliary_artifacts managed presets) ids store
             \<lparr>gr_states = [], gr_expected = 0, gr_observed = 0, gr_shards = 0, gr_claimed = []\<rparr> h of
        (Inl e, store1, h1) \<Rightarrow> (Inl e, h1)
      | (Inr g, store1, h1) \<Rightarrow>
          (let st = aggregate (gr_states g) in
           case group_models sn dataRoot managed gks store1 h1 of
             (Inl e, h2) \<Rightarrow> (Inl e, h2)
           | (Inr (models, claimed), h2) \<Rightarrow>
               (Inr (\<lparr>gm_Path = ArtifactPath dataRoot (artifact_of managed (fst gk)),
                      gm_Size = (if st = ''missing'' then gr_expected g else gr_observed g), gm_State = st,
                      gm_Source = ''catalog'', gm_Presets = presets, gm_Bundles = [snd gk], gm_Artifacts = ids,
                      gm_ShardCount = gr_shards g, gm_ExpectedShards = gr_shards g\<rparr> # models,
                     gr_claimed g @ claimed), h2)))"

definition catalogLlamaModels ::
  "scan_env \<Rightarrow> Catalog \<Rightarrow> string \<Rightarrow> Store \<Rightarrow> host \<Rightarrow> (gerror + LlamaModel list \<times> string list) \<times> host" where
  "catalogLlamaModels sn managed dataRoot store h =
     group_models sn dataRoot managed (preset_groups managed) (Some store) h"

section \<open>Scanning\<close>

definition gguf_name :: "string \<Rightarrow> bool" where
  "gguf_name p \<longleftrightarrow> map lower_char (Ext p) = ''.gguf''"

definition directoryGGUFs :: "scan_env \<Rightarrow> string \<Rightarrow> host \<Rightarrow> (gerror + string list) \<times> host" where
  "directoryGGUFs sn base h =
     (let h1 = interfere h; visited = base # sn_below sn (ho_fs h1) base in
      (if list_ex (\<lambda>p. case ho_fs h1 p of Entry f \<Rightarrow> False | _ \<Rightarrow> True) visited
       then Inl (ErrorText (''scan model directory '' @ base))
       else Inr (sort (filter (\<lambda>p. (case ho_fs h1 p of Entry f \<Rightarrow> regular f | _ \<Rightarrow> False) \<and> gguf_name p) visited)), h1))"

definition scanPath :: "scan_env \<Rightarrow> string \<Rightarrow> host \<Rightarrow> (gerror + string list) \<times> host" where
  "scanPath sn value h =
     (if hasPrefix value ''~/'' \<and> sn_home sn = None
      then (Inl (ErrorText (''resolve model scan path '' @ value)), h)
      else
        (let expanded = (case sn_home sn of
               Some home \<Rightarrow> if hasPrefix value ''~/'' then Join [home, drop 2 value] else value
             | None \<Rightarrow> value);
             path = Abs (ce_cwd (sn_content sn)) expanded in
         case read_entry (sn_content sn) path h of
           (NoEntry, h1) \<Rightarrow> (Inl (ErrorText (''model scan path does not exist: '' @ path)), h1)
         | (Denied e, h1) \<Rightarrow> (Inl (Wrapped (''inspect model scan path '' @ path @ '': '') (ErrorText e)), h1)
         | (Entry f, h1) \<Rightarrow>
             (if regular f then
                ((if \<not> gguf_name path then Inl (ErrorText (''model scan file is not a .gguf file: '' @ path))
                  else Inr [path]), h1)
              else if fl_kind f \<noteq> KDirectory
              then (Inl (ErrorText (''model scan path is not a file or directory: '' @ path)), h1)
              else
                (let h2 = interfere h1 in
                 case ce_resolve (sn_content sn) (ho_fs h2) path of
                   Inl e \<Rightarrow> (Inl (Wrapped (''resolve model scan path '' @ path @ '': '') (ErrorText e)), h2)
                 | Inr resolved \<Rightarrow> directoryGGUFs sn resolved h2))))"

text \<open>The first path of every identity is kept.\<close>

fun remember :: "scan_env \<Rightarrow> string list \<Rightarrow> string table \<Rightarrow> host \<Rightarrow> string table \<times> host" where
  "remember sn [] paths h = (paths, h)"
| "remember sn (p # ps) paths h =
     (let (identity, h1) = path_identity sn p h in
      remember sn ps (if lookup paths identity = None then upsert identity p paths else paths) h1)"

fun scan_paths :: "scan_env \<Rightarrow> string list \<Rightarrow> string table \<Rightarrow> host \<Rightarrow> (gerror + string table) \<times> host" where
  "scan_paths sn [] paths h = (Inr paths, h)"
| "scan_paths sn (v # vs) paths h =
     (case scanPath sn v h of
        (Inl e, h1) \<Rightarrow> (Inl e, h1)
      | (Inr found, h1) \<Rightarrow> (case remember sn found paths h1 of (paths1, h2) \<Rightarrow> scan_paths sn vs paths1 h2))"

definition scan_managed :: "scan_env \<Rightarrow> string \<Rightarrow> host \<Rightarrow> (gerror + string table) \<times> host" where
  "scan_managed sn dataRoot h =
     (let base = LlamaModels \<lparr>Root = dataRoot\<rparr> in
      case lstat base h of
        (NoEntry, h1) \<Rightarrow> (Inr [], h1)
      | (Denied e, h1) \<Rightarrow> (Inl (Wrapped (''inspect llama.cpp model root '' @ base @ '': '') (ErrorText e)), h1)
      | (Entry f, h1) \<Rightarrow>
          (if fl_kind f \<noteq> KDirectory
           then (Inl (ErrorText (''llama.cpp model root is not a real directory: '' @ base)), h1)
           else (case directoryGGUFs sn base h1 of
             (Inl e, h2) \<Rightarrow> (Inl e, h2)
           | (Inr found, h2) \<Rightarrow> (case remember sn found [] h2 of (paths, h3) \<Rightarrow> (Inr paths, h3)))))"

section \<open>Loose files\<close>

text \<open>The numbers of a shard; the pattern is that of \<open>localGGUFShard\<close>.\<close>

definition ggufShard :: "string \<Rightarrow> (string \<times> int \<times> int) option" where
  "ggufShard base = map_option (\<lambda>(stem, part, num, ext). (stem, decimal part, decimal num)) (localGGUFShard base)"

record shardKey =
  sk_directory :: string
  sk_prefix :: string
  sk_total :: int

text \<open>\<^verbatim>\<open>os.Stat\<close> of a file: its bytes when it is a regular file.\<close>

definition file_size :: "scan_env \<Rightarrow> string \<Rightarrow> host \<Rightarrow> int option \<times> host" where
  "file_size sn p h = (case read_entry (sn_content sn) p h of
     (Entry f, h1) \<Rightarrow> (if regular f then Some (fl_size f) else None, h1)
   | (_, h1) \<Rightarrow> (None, h1))"

definition any_size :: "scan_env \<Rightarrow> string \<Rightarrow> host \<Rightarrow> int \<times> host" where
  "any_size sn p h = (case read_entry (sn_content sn) p h of
     (Entry f, h1) \<Rightarrow> (fl_size f, h1)
   | (_, h1) \<Rightarrow> (0, h1))"

type_synonym shard_groups = "(shardKey \<times> (int \<times> string) list) list"

definition add_shard :: "shardKey \<Rightarrow> int \<Rightarrow> string \<Rightarrow> shard_groups \<Rightarrow> shard_groups" where
  "add_shard gk part p groups =
     upsert gk (upsert part p (case lookup groups gk of None \<Rightarrow> [] | Some parts \<Rightarrow> parts)) groups"

definition shard_key :: "scan_env \<Rightarrow> string \<Rightarrow> string \<Rightarrow> int \<Rightarrow> shardKey" where
  "shard_key sn p stem tot = \<lparr>sk_directory = Dir p, sk_prefix = sn_lower sn stem, sk_total = tot\<rparr>"

fun sort_files ::
  "scan_env \<Rightarrow> string list \<Rightarrow> LlamaModel list \<Rightarrow> shard_groups \<Rightarrow> host \<Rightarrow> (LlamaModel list \<times> shard_groups) \<times> host" where
  "sort_files sn [] standalone groups h = ((standalone, groups), h)"
| "sort_files sn (p # ps) standalone groups h =
     (case ggufShard (Base p) of
        None \<Rightarrow>
          (let (bytes, h1) = file_size sn p h in
           sort_files sn ps (standalone @ [case bytes of
               None \<Rightarrow> local_model p 0 ''broken'' 1 1
             | Some n \<Rightarrow> local_model p n ''ready'' 1 1]) groups h1)
      | Some (stem, part, tot) \<Rightarrow>
          (if tot < 1 \<or> part < 1 \<or> tot < part
           then (let (n, h1) = any_size sn p h in
                 sort_files sn ps (standalone @ [local_model p n ''broken'' 1 1]) groups h1)
           else sort_files sn ps standalone (add_shard (shard_key sn p stem tot) part p groups) h))"

text \<open>The state and the bytes of a group after looking at its parts in order; \<open>n\<close> parts are left.\<close>

fun size_parts ::
  "scan_env \<Rightarrow> (int \<times> string) list \<Rightarrow> nat \<Rightarrow> int \<Rightarrow> string \<times> int \<Rightarrow> host \<Rightarrow> (string \<times> int) \<times> host" where
  "size_parts sn parts 0 part acc h = (acc, h)"
| "size_parts sn parts (Suc n) part (st, bytes) h =
     (case lookup parts part of
        None \<Rightarrow> size_parts sn parts n (part + 1) (''partial'', bytes) h
      | Some p \<Rightarrow>
          (case file_size sn p h of
             (None, h1) \<Rightarrow> size_parts sn parts n (part + 1) (''broken'', bytes) h1
           | (Some m, h1) \<Rightarrow> size_parts sn parts n (part + 1) (st, wrap64 (bytes + m)) h1))"

definition first_part :: "(int \<times> string) list \<Rightarrow> string" where
  "first_part parts = (case lookup parts 1 of
     Some p \<Rightarrow> p
   | None \<Rightarrow> (case sort (map fst parts) of [] \<Rightarrow> [] | i # is \<Rightarrow> (case lookup parts i of Some p \<Rightarrow> p | None \<Rightarrow> [])))"

definition group_model :: "scan_env \<Rightarrow> shardKey \<Rightarrow> (int \<times> string) list \<Rightarrow> host \<Rightarrow> LlamaModel \<times> host" where
  "group_model sn gk parts h =
     (let start_state = (if int (length parts) \<noteq> sk_total gk then ''partial'' else ''ready'') in
      case size_parts sn parts (nat (sk_total gk)) 1 (start_state, 0) h of
        ((st, bytes), h1) \<Rightarrow> (local_model (first_part parts) bytes st (int (length parts)) (sk_total gk), h1))"

fun group_list :: "scan_env \<Rightarrow> shard_groups \<Rightarrow> host \<Rightarrow> LlamaModel list \<times> host" where
  "group_list sn [] h = ([], h)"
| "group_list sn ((gk, parts) # gs) h =
     (let (model, h1) = group_model sn gk parts h; (models, h2) = group_list sn gs h1 in (model # models, h2))"

definition looseModels :: "scan_env \<Rightarrow> string list \<Rightarrow> host \<Rightarrow> LlamaModel list \<times> host" where
  "looseModels sn paths h =
     (case sort_files sn (sort paths) [] [] h of
        ((standalone, groups), h1) \<Rightarrow>
          (case group_list sn (sort_key (\<lambda>(gk, parts). sk_directory gk @ sk_prefix gk) groups) h1 of
             (models, h2) \<Rightarrow> (standalone @ models, h2)))"

section \<open>The inventory\<close>

definition model_order :: "scan_env \<Rightarrow> LlamaModel \<Rightarrow> nat \<times> string \<times> string" where
  "model_order sn model = (if gm_Source model = ''catalog'' then 0 else 1, sn_lower sn (gm_Path model),
     join_with [CHR 0x00] (gm_Presets model))"

definition unclaimed :: "string list \<Rightarrow> string table \<Rightarrow> string list" where
  "unclaimed claimed paths = map snd (filter (\<lambda>(identity, p). identity \<notin> set claimed) paths)"

definition Llama ::
  "scan_env \<Rightarrow> (string \<Rightarrow> (int \<times> Record table option) option) \<Rightarrow> Catalog \<Rightarrow> string \<Rightarrow> string list \<Rightarrow> host
     \<Rightarrow> (gerror + LlamaModel list) \<times> host" where
  "Llama sn decode managed dataRoot scanPaths h =
     (case LoadReceipts (sn_content sn) decode dataRoot h of
        (Inl e, h1) \<Rightarrow> (Inl e, h1)
      | (Inr store, h1) \<Rightarrow>
          (case catalogLlamaModels sn managed dataRoot store h1 of
             (Inl e, h2) \<Rightarrow> (Inl e, h2)
           | (Inr (models, claimed), h2) \<Rightarrow>
               (case scan_managed sn dataRoot h2 of
                  (Inl e, h3) \<Rightarrow> (Inl e, h3)
                | (Inr paths, h3) \<Rightarrow>
                    (case scan_paths sn scanPaths paths h3 of
                       (Inl e, h4) \<Rightarrow> (Inl e, h4)
                     | (Inr paths1, h4) \<Rightarrow>
                         (case looseModels sn (unclaimed claimed paths1) h4 of
                            (loose, h5) \<Rightarrow> (Inr (sort_key (model_order sn) (models @ loose)), h5))))))"

section \<open>Loose files are complete and accounted for\<close>

definition file_seen :: "scan_env \<Rightarrow> fs list \<Rightarrow> string \<Rightarrow> int \<Rightarrow> bool" where
  "file_seen sn past p n \<longleftrightarrow>
     (\<exists>s\<in>set past. \<exists>f. open_entry (sn_content sn) s p = Entry f \<and> regular f \<and> fl_size f = n)"

lemma file_seen_mono: "file_seen sn past p n \<Longrightarrow> file_seen sn (past @ new) p n"
  by (auto simp: file_seen_def)

lemma file_size_seen:
  assumes "file_size sn p h = (r, h')"
  shows "\<exists>new. ho_past h' = ho_past h @ new" "r = Some n \<Longrightarrow> file_seen sn (ho_past h') p n"
proof -
  obtain d h1 where re: "read_entry (sn_content sn) p h = (d, h1)" by fastforce
  note seen = read_entry_seen(1) [OF re] read_entry_seen(2) [OF re, symmetric]
  from assms re seen show "\<exists>new. ho_past h' = ho_past h @ new"
    by (cases d) (auto simp: file_size_def)
  from assms re seen show "r = Some n \<Longrightarrow> file_seen sn (ho_past h') p n"
    by (cases d) (auto simp: file_size_def file_seen_def split: if_splits)
qed

lemma any_size_past: "any_size sn p h = (n, h') \<Longrightarrow> \<exists>new. ho_past h' = ho_past h @ new"
proof -
  assume run: "any_size sn p h = (n, h')"
  obtain d h1 where re: "read_entry (sn_content sn) p h = (d, h1)" by fastforce
  from run re read_entry_seen(1) [OF re] show ?thesis by (cases d) (auto simp: any_size_def)
qed

definition wrapped_sum :: "int \<Rightarrow> int list \<Rightarrow> int" where
  "wrapped_sum = foldl (\<lambda>tot m. wrap64 (tot + m))"

lemma size_parts_ready:
  "size_parts sn parts n part (st, sz) h = ((st', tot), h') \<Longrightarrow>
     (\<exists>new. ho_past h' = ho_past h @ new) \<and>
     (st' = ''ready'' \<longrightarrow> st = ''ready'' \<and>
       (\<exists>ps ms. map (\<lambda>i. lookup parts (part + int i)) [0..<n] = map Some ps \<and>
          list_all2 (file_seen sn (ho_past h')) ps ms \<and> tot = wrapped_sum sz ms))"
proof (induction n arbitrary: part st sz h)
  case 0
  then show ?case by (auto simp: wrapped_sum_def)
next
  case (Suc n)
  have shift: "map (\<lambda>i. lookup parts (part + int i)) [0..<Suc n] =
      lookup parts part # map (\<lambda>i. lookup parts (part + 1 + int i)) [0..<n]"
    by (simp add: upt_conv_Cons map_Suc_upt [symmetric] del: upt_Suc) (simp add: ac_simps)
  show ?case
  proof (cases "lookup parts part")
    case None
    with Suc.prems have "size_parts sn parts n (part + 1) (''partial'', sz) h = ((st', tot), h')" by simp
    from Suc.IH [OF this] show ?thesis by auto
  next
    case (Some p)
    obtain r h1 where fs: "file_size sn p h = (r, h1)" by fastforce
    obtain new1 where new1: "ho_past h1 = ho_past h @ new1" using file_size_seen(1) [OF fs] by blast
    show ?thesis
    proof (cases r)
      case None
      with Suc.prems Some fs have "size_parts sn parts n (part + 1) (''broken'', sz) h1 = ((st', tot), h')" by simp
      from Suc.IH [OF this] new1 show ?thesis by auto
    next
      case (Some m)
      with Suc.prems \<open>lookup parts part = Some p\<close> fs
      have "size_parts sn parts n (part + 1) (st, wrap64 (sz + m)) h1 = ((st', tot), h')" by simp
      note ih = Suc.IH [OF this]
      then obtain new where new: "ho_past h' = ho_past h1 @ new" by blast
      have seen: "file_seen sn (ho_past h') p m"
        using file_size_seen(2) [OF fs Some] file_seen_mono by (simp add: new)
      have "st = ''ready'' \<and> (\<exists>ps ms. map (\<lambda>i. lookup parts (part + int i)) [0..<Suc n] = map Some ps \<and>
          list_all2 (file_seen sn (ho_past h')) ps ms \<and> tot = wrapped_sum sz ms)" if "st' = ''ready''"
      proof -
        from ih that obtain ps ms where ps: "map (\<lambda>i. lookup parts (part + 1 + int i)) [0..<n] = map Some ps"
          "list_all2 (file_seen sn (ho_past h')) ps ms" "tot = wrapped_sum (wrap64 (sz + m)) ms" "st = ''ready''"
          by blast
        show ?thesis
          by (intro conjI ps(4) exI [of _ "p # ps"] exI [of _ "m # ms"])
             (simp_all only: shift list.map ps(1,2) \<open>lookup parts part = Some p\<close> list.rel_inject seen,
              simp add: ps(3) wrapped_sum_def)
      qed
      with new new1 show ?thesis by auto
    qed
  qed
qed

definition shard_at :: "scan_env \<Rightarrow> string \<Rightarrow> (shardKey \<times> int) option" where
  "shard_at sn p = (case ggufShard (Base p) of
     None \<Rightarrow> None
   | Some (stem, part, tot) \<Rightarrow>
       (if tot < 1 \<or> part < 1 \<or> tot < part then None else Some (shard_key sn p stem tot, part)))"

definition groups_ok :: "scan_env \<Rightarrow> string set \<Rightarrow> shard_groups \<Rightarrow> bool" where
  "groups_ok sn files groups \<longleftrightarrow> wf_map groups \<and>
     (\<forall>(gk, parts)\<in>set groups. wf_map parts \<and> (\<forall>(i, p)\<in>set parts. p \<in> files \<and> shard_at sn p = Some (gk, i)))"

definition single_ready :: "scan_env \<Rightarrow> string set \<Rightarrow> fs list \<Rightarrow> LlamaModel \<Rightarrow> bool" where
  "single_ready sn files past m \<longleftrightarrow> gm_ShardCount m = 1 \<and> gm_ExpectedShards m = 1 \<and> gm_Source m = ''local'' \<and>
     gm_Path m \<in> files \<and> (gm_State m = ''ready'' \<longrightarrow> file_seen sn past (gm_Path m) (gm_Size m))"

lemma upsert_set: "wf_map m \<Longrightarrow> set (upsert k v m) = insert (k, v) (set m - {(k, w) | w. True})"
proof (induction m)
  case (Cons a m)
  obtain k' v' where a: "a = (k', v')" by (cases a)
  from Cons.prems a have wf: "wf_map m" and new: "k' \<notin> fst ` set m" by (auto simp: wf_map_def)
  show ?case
  proof (cases "k' = k")
    case True
    with new have "set m - {(k, w) | w. True} = set m" by (auto simp: image_iff)
    with a True show ?thesis by auto
  next
    case False
    with a Cons.IH [OF wf] show ?thesis by auto
  qed
qed simp

lemma add_shard_ok:
  assumes "groups_ok sn files groups" "shard_at sn p = Some (gk, i)" "p \<in> files"
  shows "groups_ok sn files (add_shard gk i p groups)"
proof -
  define parts where "parts = (case lookup groups gk of None \<Rightarrow> [] | Some ps \<Rightarrow> ps)"
  have parts: "wf_map parts \<and> (\<forall>(j, q)\<in>set parts. q \<in> files \<and> shard_at sn q = Some (gk, j))"
  proof (cases "lookup groups gk")
    case None
    then show ?thesis by (simp add: parts_def wf_map_def)
  next
    case (Some ps)
    then have "(gk, ps) \<in> set groups" by (rule map_of_SomeD)
    with assms(1) Some show ?thesis by (auto simp: groups_ok_def parts_def)
  qed
  have wf: "wf_map groups" using assms(1) by (simp add: groups_ok_def)
  have "wf_map (upsert i p parts) \<and> (\<forall>(j, q)\<in>set (upsert i p parts). q \<in> files \<and> shard_at sn q = Some (gk, j))"
    using parts assms(2,3) upsert_set [of parts i p] by auto
  with assms(1) wf show ?thesis
    unfolding groups_ok_def add_shard_def parts_def [symmetric] upsert_set [OF wf] by auto
qed

lemma sort_files_ok:
  "sort_files sn ps standalone groups h = ((standalone', groups'), h') \<Longrightarrow> set ps \<subseteq> files \<Longrightarrow>
     groups_ok sn files groups \<Longrightarrow> \<forall>m\<in>set standalone. single_ready sn files (ho_past h) m \<Longrightarrow>
     (\<exists>new. ho_past h' = ho_past h @ new) \<and> groups_ok sn files groups' \<and>
     (\<forall>m\<in>set standalone'. single_ready sn files (ho_past h') m)"
proof (induction ps arbitrary: standalone groups h)
  case (Cons p ps)
  have mono: "single_ready sn files (past @ new) m" if "single_ready sn files past m" for past new m
    using that file_seen_mono unfolding single_ready_def by blast
  have step: ?case if run: "sort_files sn ps (standalone @ [m]) groups h1 = ((standalone', groups'), h')"
      and new: "ho_past h1 = ho_past h @ new" and m: "single_ready sn files (ho_past h1) m" for m h1 new
  proof -
    have "\<forall>m\<in>set (standalone @ [m]). single_ready sn files (ho_past h1) m"
      using Cons.prems(4) mono m unfolding new by auto
    from Cons.IH [OF run _ Cons.prems(3) this] Cons.prems(2) new show ?thesis by auto
  qed
  show ?case
  proof (cases "ggufShard (Base p)")
    case None
    obtain r h1 where fs: "file_size sn p h = (r, h1)" by fastforce
    obtain new where new: "ho_past h1 = ho_past h @ new" using file_size_seen(1) [OF fs] by blast
    define m where "m = (case r of None \<Rightarrow> local_model p 0 ''broken'' 1 1 | Some n \<Rightarrow> local_model p n ''ready'' 1 1)"
    have "single_ready sn files (ho_past h1) m"
      using Cons.prems(2) file_size_seen(2) [OF fs] unfolding m_def
      by (cases r) (simp_all add: single_ready_def local_model_def)
    moreover have "sort_files sn ps (standalone @ [m]) groups h1 = ((standalone', groups'), h')"
      using Cons.prems(1) None fs by (simp add: m_def)
    ultimately show ?thesis using step new by blast
  next
    case (Some t)
    obtain stem part tot where t: "t = (stem, part, tot)" by (cases t)
    show ?thesis
    proof (cases "tot < 1 \<or> part < 1 \<or> tot < part")
      case True
      obtain n h1 where fs: "any_size sn p h = (n, h1)" by fastforce
      obtain new where new: "ho_past h1 = ho_past h @ new" using any_size_past [OF fs] by blast
      have "single_ready sn files (ho_past h1) (local_model p n ''broken'' 1 1)"
        using Cons.prems(2) by (simp add: single_ready_def local_model_def)
      moreover have "sort_files sn ps (standalone @ [local_model p n ''broken'' 1 1]) groups h1 = ((standalone', groups'), h')"
        using Cons.prems(1) Some t True fs by simp
      ultimately show ?thesis using step new by blast
    next
      case False
      then have at: "shard_at sn p = Some (shard_key sn p stem tot, part)" using Some t by (simp add: shard_at_def)
      have "p \<in> files" using Cons.prems(2) by simp
      note ok = add_shard_ok [OF Cons.prems(3) at this]
      have run: "sort_files sn ps standalone (add_shard (shard_key sn p stem tot) part p groups) h = ((standalone', groups'), h')"
        using Cons.prems(1) Some t False by simp
      from Cons.IH [OF run _ ok Cons.prems(4)] Cons.prems(2) show ?thesis by simp
    qed
  qed
qed simp

text \<open>The files of a set: all parts, in order, of one directory, one stem and one number of parts.\<close>

definition complete_set :: "scan_env \<Rightarrow> string set \<Rightarrow> fs list \<Rightarrow> LlamaModel \<Rightarrow> bool" where
  "complete_set sn files past m \<longleftrightarrow> (\<exists>gk ps ms.
     int (length ps) = gm_ExpectedShards m \<and> gm_ShardCount m = gm_ExpectedShards m \<and> gm_ExpectedShards m = sk_total gk \<and>
     set ps \<subseteq> files \<and> map (shard_at sn) ps = map (\<lambda>i. Some (gk, 1 + int i)) [0..<length ps] \<and>
     list_all2 (file_seen sn past) ps ms \<and> gm_Size m = wrapped_sum 0 ms \<and> ps \<noteq> [] \<and> gm_Path m = hd ps)"

lemma group_model_ready:
  assumes "group_model sn gk parts h = (m, h')" "wf_map parts"
    "\<forall>(i, p)\<in>set parts. p \<in> files \<and> shard_at sn p = Some (gk, i)" "parts \<noteq> []"
  shows "(\<exists>new. ho_past h' = ho_past h @ new) \<and> gm_Source m = ''local'' \<and> gm_ShardCount m = int (length parts) \<and>
    (gm_State m = ''ready'' \<longrightarrow> complete_set sn files (ho_past h') m)"
proof -
  define st0 where "st0 = (if int (length parts) \<noteq> sk_total gk then ''partial'' else ''ready'')"
  obtain st tot where run: "size_parts sn parts (nat (sk_total gk)) 1 (st0, 0) h = ((st, tot), h')"
    and m: "m = local_model (first_part parts) tot st (int (length parts)) (sk_total gk)"
    using assms(1) by (auto simp: group_model_def st0_def Let_def split: prod.splits)
  note r = size_parts_ready [OF run]
  have "complete_set sn files (ho_past h') m" if "gm_State m = ''ready''"
  proof -
    from that m have "st = ''ready''" by (simp add: local_model_def)
    with r obtain ps ms where ps: "map (\<lambda>i. lookup parts (1 + int i)) [0..<nat (sk_total gk)] = map Some ps"
      "list_all2 (file_seen sn (ho_past h')) ps ms" "tot = wrapped_sum 0 ms" "st0 = ''ready''" by blast
    from ps(4) have len: "int (length parts) = sk_total gk" by (simp add: st0_def split: if_splits)
    from ps(1) have lps: "length ps = nat (sk_total gk)" by (metis length_map length_upt minus_nat.diff_0)
    moreover have "0 < length parts" using assms(4) by simp
    ultimately have ne: "ps \<noteq> []" using len by (cases ps) auto
    have part: "lookup parts (1 + int i) = Some (ps ! i)" if "i < length ps" for i
      using arg_cong [OF ps(1), of "\<lambda>l. l ! i"] that lps by simp
    have each: "ps ! i \<in> files \<and> shard_at sn (ps ! i) = Some (gk, 1 + int i)" if "i < length ps" for i
      using assms(3) map_of_SomeD [OF part [OF that]] by auto
    have "set ps \<subseteq> files" using each by (auto simp: in_set_conv_nth)
    moreover have "map (shard_at sn) ps = map (\<lambda>i. Some (gk, 1 + int i)) [0..<length ps]"
      by (rule nth_equalityI) (simp_all add: each)
    moreover have "first_part parts = hd ps"
      using part [of 0] ne by (simp add: first_part_def hd_conv_nth)
    ultimately show ?thesis unfolding complete_set_def
      using ps(2,3) ne lps len m by (intro exI [of _ gk] exI [of _ ps] exI [of _ ms]) (simp add: local_model_def)
  qed
  with r m show ?thesis by (simp add: local_model_def)
qed

lemma complete_set_mono: "complete_set sn files past m \<Longrightarrow> complete_set sn files (past @ new) m"
  unfolding complete_set_def using file_seen_mono list.rel_mono_strong by (metis (no_types, lifting))

lemma group_list_ready:
  "group_list sn groups h = (models, h') \<Longrightarrow>
     \<forall>(gk, parts)\<in>set groups. wf_map parts \<and> parts \<noteq> [] \<and> (\<forall>(i, p)\<in>set parts. p \<in> files \<and> shard_at sn p = Some (gk, i)) \<Longrightarrow>
     (\<exists>new. ho_past h' = ho_past h @ new) \<and> map gm_ShardCount models = map (int \<circ> length \<circ> snd) groups \<and>
     (\<forall>m\<in>set models. gm_Source m = ''local'' \<and> (gm_State m = ''ready'' \<longrightarrow> complete_set sn files (ho_past h') m))"
proof (induction groups arbitrary: h models)
  case (Cons g gs)
  obtain gk parts where g: "g = (gk, parts)" by (cases g)
  obtain m h1 where m: "group_model sn gk parts h = (m, h1)" by fastforce
  obtain ms where rest: "group_list sn gs h1 = (ms, h')" "models = m # ms"
    using Cons.prems(1) g m by (auto split: prod.splits)
  have ok: "wf_map parts" "parts \<noteq> []" "\<forall>(i, p)\<in>set parts. p \<in> files \<and> shard_at sn p = Some (gk, i)"
    using Cons.prems(2) g by auto
  note a = group_model_ready [OF m ok(1,3,2)]
  note b = Cons.IH [OF rest(1)]
  have b': "(\<exists>new. ho_past h' = ho_past h1 @ new) \<and> map gm_ShardCount ms = map (int \<circ> length \<circ> snd) gs \<and>
     (\<forall>m\<in>set ms. gm_Source m = ''local'' \<and> (gm_State m = ''ready'' \<longrightarrow> complete_set sn files (ho_past h') m))"
    by (rule b) (use Cons.prems(2) in simp)
  then obtain new where "ho_past h' = ho_past h1 @ new" by blast
  with a b' g rest(2) show ?case using complete_set_mono by auto
qed simp

lemma single_complete:
  "single_ready sn files past m \<Longrightarrow> single_ready sn files (past @ new) m"
  unfolding single_ready_def using file_seen_mono by blast

definition nonempty_groups :: "shard_groups \<Rightarrow> bool" where
  "nonempty_groups groups \<longleftrightarrow> (\<forall>(gk, parts)\<in>set groups. parts \<noteq> [])"

lemma upsert_nonempty: "upsert k v m \<noteq> []"
  by (cases m) (auto split: if_splits)

lemma nonempty_upsert: "nonempty_groups groups \<Longrightarrow> parts \<noteq> [] \<Longrightarrow> nonempty_groups (upsert gk parts groups)"
  by (induction gk parts groups rule: upsert.induct) (auto simp: nonempty_groups_def)

lemma sort_files_nonempty:
  "sort_files sn ps standalone groups h = ((standalone', groups'), h') \<Longrightarrow> nonempty_groups groups \<Longrightarrow> nonempty_groups groups'"
  by (induction sn ps standalone groups h rule: sort_files.induct)
     (auto simp: add_shard_def nonempty_upsert upsert_nonempty split: option.splits prod.splits if_splits)


definition group_files :: "shard_groups \<Rightarrow> nat" where
  "group_files groups = sum_list (map (length \<circ> snd) groups)"

lemma length_upsert_new: "k \<notin> fst ` set m \<Longrightarrow> length (upsert k v m) = Suc (length m)"
  by (induction k v m rule: upsert.induct) auto

lemma group_files_upsert:
  "wf_map groups \<Longrightarrow> group_files (upsert gk parts groups) + (case lookup groups gk of None \<Rightarrow> 0 | Some ps \<Rightarrow> length ps)
     = group_files groups + length parts"
proof (induction groups)
  case (Cons g gs)
  obtain k ps where g: "g = (k, ps)" by (cases g)
  show ?case
  proof (cases "k = gk")
    case False
    with Cons g show ?thesis by (simp add: group_files_def wf_map_def)
  qed (use Cons g in \<open>simp add: group_files_def\<close>)
qed (simp add: group_files_def)

definition held_at :: "shard_groups \<Rightarrow> (shardKey \<times> int) set" where
  "held_at groups = {(gk, i). \<exists>parts. (gk, parts) \<in> set groups \<and> i \<in> fst ` set parts}"

lemma lookup_in: "wf_map m \<Longrightarrow> (k, v) \<in> set m \<longleftrightarrow> lookup m k = Some v"
  by (auto simp: wf_map_def)

lemma add_shard_files:
  assumes "wf_map groups" "(gk, i) \<notin> held_at groups"
  shows "group_files (add_shard gk i p groups) = Suc (group_files groups)"
    "held_at (add_shard gk i p groups) = insert (gk, i) (held_at groups)"
proof -
  define parts where "parts = (case lookup groups gk of None \<Rightarrow> [] | Some ps \<Rightarrow> ps)"
  have new: "i \<notin> fst ` set parts"
  proof (cases "lookup groups gk")
    case (Some ps)
    then have "(gk, ps) \<in> set groups" by (rule map_of_SomeD)
    with assms(2) Some show ?thesis by (auto simp: parts_def held_at_def)
  qed (simp add: parts_def)
  have "(case lookup groups gk of None \<Rightarrow> 0 | Some ps \<Rightarrow> length ps) = length parts"
    by (simp add: parts_def split: option.splits)
  then show "group_files (add_shard gk i p groups) = Suc (group_files groups)"
    using group_files_upsert [OF assms(1), of gk "upsert i p parts"] length_upsert_new [OF new, of p]
    by (simp add: add_shard_def parts_def [symmetric])
  have lookups: "held_at gs = {(gk, i). \<exists>parts. lookup gs gk = Some parts \<and> i \<in> fst ` set parts}" if "wf_map gs" for gs
    unfolding held_at_def lookup_in [OF that] ..
  have wf: "wf_map (add_shard gk i p groups)" using assms(1) by (simp add: add_shard_def)
  show "held_at (add_shard gk i p groups) = insert (gk, i) (held_at groups)"
  proof (rule set_eqI)
    fix x :: "shardKey \<times> int"
    obtain g j where x: "x = (g, j)" by (cases x)
    show "x \<in> held_at (add_shard gk i p groups) \<longleftrightarrow> x \<in> insert (gk, i) (held_at groups)"
    proof (cases "g = gk")
      case True
      then show ?thesis unfolding lookups [OF assms(1)] lookups [OF wf] x
        by (cases "lookup groups gk") (simp_all add: add_shard_def keys_upsert)
    next
      case False
      then show ?thesis unfolding lookups [OF assms(1)] lookups [OF wf] x by (simp add: add_shard_def)
    qed
  qed
qed

lemma sort_files_count:
  "sort_files sn ps standalone groups h = ((standalone', groups'), h') \<Longrightarrow> wf_map groups \<Longrightarrow>
     distinct (filter (\<lambda>x. x \<noteq> None) (map (shard_at sn) ps)) \<Longrightarrow>
     Some ` held_at groups \<inter> shard_at sn ` set ps = {} \<Longrightarrow>
     length standalone' + group_files groups' = length standalone + group_files groups + length ps \<and>
     (\<forall>m\<in>set standalone'. m \<in> set standalone \<or> gm_ShardCount m = 1)"
proof (induction ps arbitrary: standalone groups h)
  case (Cons p ps)
  have single: ?case if "sort_files sn ps (standalone @ [m]) groups h1 = ((standalone', groups'), h')"
    "gm_ShardCount m = 1" for m h1
  proof -
    have "distinct (filter (\<lambda>x. x \<noteq> None) (map (shard_at sn) ps))" "Some ` held_at groups \<inter> shard_at sn ` set ps = {}"
      using Cons.prems(3,4) by (auto split: if_splits)
    from Cons.IH [OF that(1) Cons.prems(2) this] that(2) show ?thesis by auto
  qed
  show ?case
  proof (cases "ggufShard (Base p)")
    case None
    obtain r h1 where fs: "file_size sn p h = (r, h1)" by fastforce
    from Cons.prems(1) None fs show ?thesis
      by (intro single [of "case r of None \<Rightarrow> local_model p 0 ''broken'' 1 1 | Some n \<Rightarrow> local_model p n ''ready'' 1 1" h1])
         (simp_all add: local_model_def split: option.splits)
  next
    case (Some t)
    obtain stem part tot where t: "t = (stem, part, tot)" by (cases t)
    show ?thesis
    proof (cases "tot < 1 \<or> part < 1 \<or> tot < part")
      case True
      obtain n h1 where fs: "any_size sn p h = (n, h1)" by fastforce
      from Cons.prems(1) Some t True fs show ?thesis
        by (intro single [of "local_model p n ''broken'' 1 1" h1]) (simp_all add: local_model_def)
    next
      case False
      define gk where "gk = shard_key sn p stem tot"
      have at: "shard_at sn p = Some (gk, part)" using Some t False by (simp add: shard_at_def gk_def)
      have new: "(gk, part) \<notin> held_at groups" using Cons.prems(4) at by auto
      note add = add_shard_files [OF Cons.prems(2) new, of p]
      have run: "sort_files sn ps standalone (add_shard gk part p groups) h = ((standalone', groups'), h')"
        using Cons.prems(1) Some t False by (simp add: gk_def)
      have wf: "wf_map (add_shard gk part p groups)" using Cons.prems(2) by (simp add: add_shard_def)
      have d: "distinct (filter (\<lambda>x. x \<noteq> None) (map (shard_at sn) ps))" "Some (gk, part) \<notin> shard_at sn ` set ps"
        using Cons.prems(3) at by (auto simp: image_iff)
      have "Some ` held_at (add_shard gk part p groups) \<inter> shard_at sn ` set ps = {}"
        using Cons.prems(4) d(2) unfolding add(2) by auto
      from Cons.IH [OF run wf d(1) this] add(1) show ?thesis by simp
    qed
  qed
qed simp

text \<open>
  every loose file is counted in exactly one model, as long as no two of them are the same part of the
  same set: then the numbers of shards of all loose models add up to the number of files.
\<close>

theorem loose_files_counted:
  assumes "looseModels sn paths h = (models, h')" "distinct (filter (\<lambda>x. x \<noteq> None) (map (shard_at sn) paths))"
  shows "sum_list (map gm_ShardCount models) = int (length paths)"
proof -
  obtain standalone groups h1 where files: "sort_files sn (sort paths) [] [] h = ((standalone, groups), h1)"
    by (metis surj_pair)
  have "mset (filter (\<lambda>x. x \<noteq> None) (map (shard_at sn) (sort paths))) = mset (filter (\<lambda>x. x \<noteq> None) (map (shard_at sn) paths))"
    by (simp only: mset_filter mset_map mset_sort)
  then have d: "distinct (filter (\<lambda>x. x \<noteq> None) (map (shard_at sn) (sort paths)))"
    using assms(2) mset_eq_imp_distinct_iff by blast
  have count: "length standalone + group_files groups = length (sort paths)" "\<forall>m\<in>set standalone. gm_ShardCount m = 1"
    using sort_files_count [OF files _ d] by (simp_all add: wf_map_def held_at_def group_files_def)
  let ?gs = "sort_key (\<lambda>(gk, parts). sk_directory gk @ sk_prefix gk) groups"
  obtain sets where sets: "group_list sn ?gs h1 = (sets, h')" "models = standalone @ sets"
    using assms(1) files by (auto simp: looseModels_def split: prod.splits)
  have ok: "groups_ok sn (set paths) groups"
    using sort_files_ok [OF files, of "set paths"] by (simp add: groups_ok_def wf_map_def)
  have ne: "nonempty_groups groups" by (rule sort_files_nonempty [OF files]) (simp add: nonempty_groups_def)
  have "(\<exists>new. ho_past h' = ho_past h1 @ new) \<and> map gm_ShardCount sets = map (int \<circ> length \<circ> snd) ?gs \<and>
     (\<forall>m\<in>set sets. gm_Source m = ''local'' \<and> (gm_State m = ''ready'' \<longrightarrow> complete_set sn (set paths) (ho_past h') m))"
    by (rule group_list_ready [OF sets(1)]) (use ok ne in \<open>auto simp: groups_ok_def nonempty_groups_def\<close>)
  then have "sum_list (map gm_ShardCount sets) = sum_list (map (int \<circ> length \<circ> snd) ?gs)" by simp
  also have "\<dots> = sum_mset (mset (map (int \<circ> length \<circ> snd) ?gs))" by (rule sum_mset_sum_list [symmetric])
  also have "\<dots> = sum_mset (mset (map (int \<circ> length \<circ> snd) groups))" by (simp only: mset_map mset_sort)
  also have "\<dots> = int (group_files groups)"
    by (induction groups) (simp_all add: group_files_def)
  finally have "sum_list (map gm_ShardCount sets) = int (group_files groups)" .
  moreover have "sum_list (map gm_ShardCount standalone) = int (length standalone)"
    using count(2) by (induction standalone) simp_all
  ultimately show ?thesis using count(1) sets(2) by simp
qed

section \<open>The whole list\<close>

definition local_only :: "LlamaModel \<Rightarrow> bool" where
  "local_only m \<longleftrightarrow> gm_Source m = ''local'' \<and> gm_Presets m = []"

lemma local_model_only [simp]: "local_only (local_model p n st a b)"
  by (simp add: local_only_def local_model_def)

lemma sort_files_local:
  "sort_files sn ps standalone groups h = ((standalone', groups'), h') \<Longrightarrow> list_all local_only standalone \<Longrightarrow>
     list_all local_only standalone'"
  by (induction sn ps standalone groups h rule: sort_files.induct)
     (auto split: option.splits prod.splits if_splits)

lemma group_list_local: "group_list sn gs h = (models, h') \<Longrightarrow> list_all local_only models"
  by (induction gs arbitrary: h models) (auto simp: group_model_def Let_def split: prod.splits)

lemma looseModels_local: "looseModels sn paths h = (models, h') \<Longrightarrow> list_all local_only models"
  by (auto simp: looseModels_def dest!: sort_files_local group_list_local split: prod.splits)

definition verified_at :: "scan_env \<Rightarrow> string \<Rightarrow> Catalog \<Rightarrow> string \<Rightarrow> bool" where
  "verified_at sn dataRoot managed i \<longleftrightarrow> (\<exists>store ha status store' hb.
     InspectArtifact (sn_content sn) store dataRoot (artifact_of managed i) False ha = (Inr status, store', hb) \<and>
     as_State status = Verified)"

lemma aggregate_ready: "aggregate states = ''ready'' \<Longrightarrow> states \<noteq> [] \<and> (\<forall>s\<in>set states. s = Verified)"
proof -
  assume a: "aggregate states = ''ready''"
  then have "states \<noteq> []" by (auto simp: aggregate_def)
  moreover from a have no: "Missing \<notin> set states" "Unexpected \<notin> set states" "HashMismatch \<notin> set states"
      "SizeMismatch \<notin> set states" "Unverified \<notin> set states"
    by (auto simp: aggregate_def split: if_splits)
  have "s = Verified" if "s \<in> set states" for s
    using no that by (cases s) auto
  ultimately show ?thesis by blast
qed

lemma inspect_group_states:
  "inspect_group sn dataRoot managed aux ids store g h = (Inr g', store', h') \<Longrightarrow>
     \<exists>new. gr_states g' = gr_states g @ new \<and> length new = length ids \<and>
       (\<forall>(i, s)\<in>set (zip ids new). s = Verified \<longrightarrow> verified_at sn dataRoot managed i)"
proof (induction ids arbitrary: store g h)
  case (Cons i ids)
  obtain status store1 h1 where ia: "InspectArtifact (sn_content sn) store dataRoot (artifact_of managed i) False h
      = (Inr status, store1, h1)"
    using Cons.prems by (auto simp: Let_def split: prod.splits sum.splits)
  obtain g1 h2 where run: "inspect_group sn dataRoot managed aux ids store1 g1 h2 = (Inr g', store', h')"
    and g1: "gr_states g1 = gr_states g @ [as_State status]"
    using Cons.prems ia by (auto simp: Let_def split: prod.splits)
  from Cons.IH [OF run] obtain new where new: "gr_states g' = gr_states g1 @ new" "length new = length ids"
    "\<forall>(i, s)\<in>set (zip ids new). s = Verified \<longrightarrow> verified_at sn dataRoot managed i" by blast
  have "as_State status = Verified \<longrightarrow> verified_at sn dataRoot managed i"
    using ia unfolding verified_at_def by blast
  with new g1 show ?case by (intro exI [of _ "as_State status # new"]) auto
qed simp

lemma group_models_listed:
  "group_models sn dataRoot managed gks store h = (Inr (models, claimed), h') \<Longrightarrow>
     map gm_Presets models = map (group_presets managed) gks \<and>
     (\<forall>m\<in>set models. gm_Source m = ''catalog'' \<and> (gm_State m = ''ready'' \<longrightarrow>
        gm_Artifacts m \<noteq> [] \<and> list_all (verified_at sn dataRoot managed) (gm_Artifacts m)))"
proof (induction gks arbitrary: store h models claimed)
  case (Cons gk gks)
  let ?ids = "required_artifacts managed (snd gk)"
  let ?aux = "auxiliary_artifacts managed (group_presets managed gk)"
  let ?g0 = "\<lparr>gr_states = [], gr_expected = 0, gr_observed = 0, gr_shards = 0, gr_claimed = []\<rparr>"
  obtain g store1 h1 where ig: "inspect_group sn dataRoot managed ?aux ?ids store ?g0 h = (Inr g, store1, h1)"
    using Cons.prems by (auto simp: Let_def split: prod.splits sum.splits)
  obtain m ms cs where rest: "group_models sn dataRoot managed gks store1 h1 = (Inr (ms, cs), h')" "models = m # ms"
    "gm_Presets m = group_presets managed gk" "gm_Source m = ''catalog''" "gm_State m = aggregate (gr_states g)"
    "gm_Artifacts m = ?ids"
    using Cons.prems ig by (auto simp: Let_def split: prod.splits sum.splits)
  from inspect_group_states [OF ig] obtain new where new: "gr_states g = new" "length new = length ?ids"
    "\<forall>(i, s)\<in>set (zip ?ids new). s = Verified \<longrightarrow> verified_at sn dataRoot managed i" by auto
  have "?ids \<noteq> [] \<and> list_all (verified_at sn dataRoot managed) ?ids" if "gm_State m = ''ready''"
  proof -
    from that rest(5) new(1) have a: "new \<noteq> []" "\<forall>s\<in>set new. s = Verified" using aggregate_ready by auto
    have "verified_at sn dataRoot managed (?ids ! j)" if "j < length ?ids" for j
    proof -
      have "(?ids ! j, new ! j) \<in> set (zip ?ids new)"
        using nth_mem [of j "zip ?ids new"] that new(2) by simp
      moreover have "new ! j = Verified" using a(2) nth_mem [of j new] that new(2) by simp
      ultimately show ?thesis using new(3) by auto
    qed
    with a(1) new(2) show ?thesis by (auto simp: list_all_length)
  qed
  with Cons.IH [OF rest(1)] rest show ?case by simp
qed simp

lemma filter_groups:
  "distinct ks \<Longrightarrow> (\<Sum>k\<leftarrow>ks. mset (filter (\<lambda>x. f x = k) xs)) = mset (filter (\<lambda>x. f x \<in> set ks) xs)"
proof (induction ks)
  case (Cons k ks)
  have "mset (filter (\<lambda>x. f x \<in> set (k # ks)) xs) = mset (filter (\<lambda>x. f x = k) xs) + mset (filter (\<lambda>x. f x \<in> set ks) xs)"
    using Cons.prems by (induction xs) auto
  with Cons show ?case by simp
qed simp

lemma sum_image_mset: "(\<Sum>k\<leftarrow>ks. image_mset g (F k)) = image_mset g (\<Sum>k\<leftarrow>ks. F k)"
  by (induction ks) simp_all

lemma mset_concat_map: "mset (concat (map f xs)) = (\<Sum>\<^sub># (image_mset (\<lambda>x. mset (f x)) (mset xs)))"
  by (induction xs) simp_all

lemma presets_partitioned:
  "mset (concat (map (group_presets managed) (preset_groups managed))) = mset (map fst (ct_LlamaPresets managed))"
proof -
  let ?f = "\<lambda>(i, p). (lp_Artifact p, lp_Bundle p)" and ?ps = "ct_LlamaPresets managed"
  have d: "distinct (preset_groups managed)" by (simp add: preset_groups_def)
  have all: "filter (\<lambda>x. ?f x \<in> set (preset_groups managed)) ?ps = ?ps"
    by (rule filter_True) (auto simp: preset_groups_def)
  have group: "mset (group_presets managed k) = image_mset fst (mset (filter (\<lambda>x. ?f x = k) ?ps))" for k
    by (simp add: group_presets_def case_prod_unfold)
  have "mset (concat (map (group_presets managed) (preset_groups managed))) =
      (\<Sum>k\<leftarrow>preset_groups managed. image_mset fst (mset (filter (\<lambda>x. ?f x = k) ?ps)))"
    by (simp add: mset_concat comp_def group)
  also have "\<dots> = image_mset fst (\<Sum>k\<leftarrow>preset_groups managed. mset (filter (\<lambda>x. ?f x = k) ?ps))"
    by (rule sum_image_mset)
  also have "\<dots> = image_mset fst (mset ?ps)" unfolding filter_groups [OF d] all ..
  finally show ?thesis by simp
qed


section \<open>Examples\<close>

definition demo_scan :: scan_env where
  "demo_scan = \<lparr>sn_content = \<lparr>ce_sha256 = id, ce_resolve = (\<lambda>fs p. Inr p), ce_cwd = ''/''\<rparr>,
     sn_below = (\<lambda>fs p. []), sn_home = None, sn_lower = map lower_char\<rparr>"

definition gguf_fs :: "string list \<Rightarrow> fs" where
  "gguf_fs files p = (if p \<in> set files then Entry \<lparr>fl_kind = KRegular, fl_dev = 1, fl_ino = 1, fl_mtime = 0, fl_ctime = 0,
     fl_nlink = 1, fl_bytes = ''gguf''\<rparr> else NoEntry)"

definition gguf_host :: "string list \<Rightarrow> host" where
  "gguf_host files = \<lparr>ho_fs = gguf_fs files, ho_clock = 0, ho_steps = [], ho_past = []\<rparr>"

definition single_file :: "string list" where "single_file = [''/m/x.gguf'']"

definition mixed_shards :: "string list" where
  "mixed_shards = [''/m/A-00001-of-00002.gguf'', ''/m/a-00002-of-00002.gguf'']"

lemma single_run: "fst (looseModels demo_scan single_file (gguf_host single_file)) = [local_model ''/m/x.gguf'' 4 ''ready'' 1 1]"
  by code_simp

text \<open>
  The stem of a set is compared in lower case, although file names differ in case: parts of two sets
  whose names differ in case only are taken for one set, and the same part of both is counted once.
\<close>

lemma shards_mixed:
  "fst (looseModels demo_scan mixed_shards (gguf_host mixed_shards)) = [local_model ''/m/A-00001-of-00002.gguf'' 8 ''ready'' 2 2]"
  by code_simp

lemma single_ready_run:
  "\<exists>h'. looseModels demo_scan single_file (gguf_host single_file) = ([local_model ''/m/x.gguf'' 4 ''ready'' 1 1], h')"
  using single_run by (metis prod.collapse)


theorem loose_files_counted_witness:
  "\<exists>models h'. looseModels demo_scan single_file (gguf_host single_file) = (models, h') \<and> sum_list (map gm_ShardCount models) = 1"
proof -
  obtain h' where run: "looseModels demo_scan single_file (gguf_host single_file) = ([local_model ''/m/x.gguf'' 4 ''ready'' 1 1], h')"
    using single_ready_run by blast
  have "distinct (filter (\<lambda>x. x \<noteq> None) (map (shard_at demo_scan) single_file))" by (simp add: single_file_def)
  from loose_files_counted [OF run this] run show ?thesis by (auto simp: single_file_def)
qed

lemma sample_listed:
  "is_ok (fst (Llama demo_scan (iv_decode sample_inventory) sample_catalog ''/d'' [] sample_host))"
  by code_simp


end
