(* ===== verification/RemoteImport.thy ===== *)
theory RemoteImport
  imports ContentPack Requests
begin

text \<open>
  Importing one remote file (\<^verbatim>\<open>internal/remoteimport/remote.go\<close>): which provider a URL names, what its
  metadata offers, which file and kind are chosen, and the local content pack of the plan. URL parsing and
  rendering, \<^verbatim>\<open>strings.ToLower\<close>, parsing of decimals, the HTTP transport and the text of JSON are
  arguments; the text of their own errors is left out. A pack is its decoded document (\<^verbatim>\<open>internal/contentpack\<close>); conversions of floating point numbers out of
  range give the smallest integer, as on amd64.
\<close>

section \<open>Library\<close>

record import_lib =
  il_urls :: url_library
  il_lower :: "string \<Rightarrow> string"
  il_float :: "string \<Rightarrow> float64 option"
  il_query :: "string \<Rightarrow> string \<Rightarrow> string list"
  il_hf_url :: "string \<Rightarrow> string"
  il_decode :: "string \<Rightarrow> document"

text \<open>One GET: the transport fails, or gives a status and, unless reading fails, the body.\<close>

type_synonym 'h transport = "string \<Rightarrow> string \<Rightarrow> 'h \<Rightarrow> (string + int \<times> string option) \<times> 'h"

record Kind =
  kd_ID :: string
  kd_Label :: string
  kd_Application :: string
  kd_Target :: string
  kd_Prefix :: string
  kd_Suffixes :: "string list"

definition weightSuffixes :: "string list" where
  "weightSuffixes = [''.safetensors'', ''.ckpt'', ''.pt'', ''.pth'', ''.bin'']"

definition comfy_kind :: "string \<Rightarrow> string \<Rightarrow> string \<Rightarrow> string \<Rightarrow> string list \<Rightarrow> Kind" where
  "comfy_kind i label target p suffixes = \<lparr>kd_ID = ''comfyui:'' @ i, kd_Label = label, kd_Application = ''comfyui'',
     kd_Target = target, kd_Prefix = p, kd_Suffixes = suffixes\<rparr>"

definition Kinds :: "Kind list" where
  "Kinds =
    [comfy_kind ''checkpoint'' ''ComfyUI checkpoint'' ''models'' ''checkpoints/imported'' [''.safetensors'', ''.ckpt''],
     comfy_kind ''diffusion-model'' ''ComfyUI diffusion model'' ''models'' ''diffusion_models/imported'' weightSuffixes,
     comfy_kind ''lora'' ''ComfyUI LoRA'' ''models'' ''loras/imported'' weightSuffixes,
     comfy_kind ''vae'' ''ComfyUI VAE'' ''models'' ''vae/imported'' weightSuffixes,
     comfy_kind ''text-encoder'' ''ComfyUI text encoder'' ''models'' ''text_encoders/imported'' weightSuffixes,
     comfy_kind ''controlnet'' ''ComfyUI ControlNet model'' ''models'' ''controlnet/imported'' weightSuffixes,
     comfy_kind ''upscaler'' ''ComfyUI upscaler'' ''models'' ''upscale_models/imported'' weightSuffixes,
     comfy_kind ''workflow'' ''exact imported ComfyUI workflow'' ''workflows'' ''remote'' [''.json''],
     \<lparr>kd_ID = ''llama-cpp:model'', kd_Label = ''llama.cpp GGUF model'', kd_Application = ''llama-cpp'',
      kd_Target = ''llama-models'', kd_Prefix = ''imported'', kd_Suffixes = [''.gguf'']\<rparr>]"

definition kind_by_id :: "string \<Rightarrow> Kind option" where
  "kind_by_id i = find (\<lambda>k. kd_ID k = i) Kinds"

record File =
  fi_ID :: string
  fi_Name :: string
  fi_Size :: int
  fi_SHA256 :: string
  fi_Primary :: bool
  fi_DownloadURL :: string

record Discovery =
  dy_Provider :: string
  dy_SourceURL :: string
  dy_Title :: string
  dy_Repository :: string
  dy_Revision :: string
  dy_DeclaredLicense :: string
  dy_ModelType :: string
  dy_Host :: string
  dy_Files :: "File list"
  dy_ModelID :: int
  dy_VersionID :: int
  dy_RequiresAuth :: bool

record import_plan =
  pl_Discovery :: Discovery
  pl_File :: File
  pl_Kind :: Kind
  pl_Artifact :: Artifact
  pl_Bundle :: Bundle
  pl_Pack :: pack_document

section \<open>Text\<close>

definition has_suffix_of :: "import_lib \<Rightarrow> string \<Rightarrow> string list \<Rightarrow> bool" where
  "has_suffix_of lib name suffixes \<longleftrightarrow> list_ex (hasSuffix (il_lower lib name)) suffixes"

definition recognized :: "import_lib \<Rightarrow> string \<Rightarrow> bool" where
  "recognized lib name \<longleftrightarrow> has_suffix_of lib name (weightSuffixes @ [''.gguf'', ''.json''])"

definition safeHFPath :: "string \<Rightarrow> bool" where
  "safeHFPath v \<longleftrightarrow> v \<noteq> [] \<and> Clean v = v \<and> \<not> hasPrefix v ''/'' \<and> v \<noteq> ''.'' \<and> \<not> hasPrefix v ''../'' \<and> \<not> contains_sub v ''/../''"

definition shaPattern :: "string \<Rightarrow> bool" where
  "shaPattern v \<longleftrightarrow> length v = 64 \<and> list_all hex_digit v"

definition slug_char :: "char \<Rightarrow> bool" where
  "slug_char c \<longleftrightarrow> ident_start c \<or> c \<in> set ''._-''"

text \<open>Every run of other bytes becomes one dash; \<open>pending\<close> says that the last byte was one of them.\<close>

fun dash_runs :: "bool \<Rightarrow> string \<Rightarrow> string" where
  "dash_runs pending [] = []"
| "dash_runs pending (c # s) =
     (if slug_char c then c # dash_runs False s
      else if pending then dash_runs True s else CHR ''-'' # dash_runs True s)"

definition trim_right_marks :: "string \<Rightarrow> string" where
  "trim_right_marks s = rev (dropWhile (\<lambda>c. c \<in> set ''._-'') (rev s))"

definition slug :: "import_lib \<Rightarrow> string \<Rightarrow> nat \<Rightarrow> string" where
  "slug lib v limit =
     (let rendered = trim_right_marks (dropWhile (\<lambda>c. c \<in> set ''._-'') (dash_runs False (il_lower lib v)));
          short = (if limit < length rendered then trim_right_marks (take limit rendered) else rendered) in
      if short = [] then ''content'' else short)"

definition replace_char :: "char \<Rightarrow> string \<Rightarrow> string \<Rightarrow> string" where
  "replace_char c new s = concat (map (\<lambda>x. if x = c then new else [x]) s)"

section \<open>URLs\<close>

definition normalizedURL :: "import_lib \<Rightarrow> string \<Rightarrow> gerror + URL" where
  "normalizedURL lib raw = (case url_Parse (il_urls lib) raw of
     None \<Rightarrow> Inl (ErrorText ''content import requires a plain HTTPS provider URL'')
   | Some u \<Rightarrow>
       (if url_Scheme u \<noteq> ''https'' \<or> url_Hostname u = [] \<or> url_User u \<or> url_Port u \<noteq> [] \<or> url_Fragment u \<noteq> []
        then Inl (ErrorText ''content import requires a plain HTTPS provider URL'') else Inr u))"

definition provider_host :: "import_lib \<Rightarrow> URL \<Rightarrow> string" where
  "provider_host lib u = (let host = il_lower lib (url_Hostname u) in if hasPrefix host ''www.'' then drop 4 host else host)"

definition Provider :: "import_lib \<Rightarrow> string \<Rightarrow> gerror + string" where
  "Provider lib raw = bind_res (normalizedURL lib raw) (\<lambda>u.
     let host = provider_host lib u in
     if host = ''civitai.com'' \<or> host = ''civitai.red'' then Inr ''civitai''
     else if host = ''huggingface.co'' then Inr ''huggingface''
     else Inl (ErrorText (''unsupported import host '' @ quoted host)))"

text \<open>The value of \<^verbatim>\<open>strconv.ParseInt\<close> when its error is ignored: out of range it is the nearest bound.\<close>

definition parse_int_value :: "string \<Rightarrow> int" where
  "parse_int_value s =
     (let neg = hasPrefix s ''-''; ds = (if neg \<or> hasPrefix s ''+'' then tl s else s);
          n = (if neg then - decimal ds else decimal ds) in
      if ds = [] \<or> \<not> list_all is_digit ds then 0 else max (- (2 ^ 63)) (min (2 ^ 63 - 1) n))"

definition trim_path :: "string \<Rightarrow> string" where
  "trim_path p = rev (dropWhile (\<lambda>c. c = SL) (rev (dropWhile (\<lambda>c. c = SL) p)))"

definition path_ids :: "string list \<Rightarrow> (int \<times> int) option" where
  "path_ids segments =
     (if (length segments = 2 \<or> length segments = 3) \<and> segments ! 0 = ''models'' then Some (parse_int_value (segments ! 1), 0)
      else if length segments = 4 \<and> take 3 segments = [''api'', ''download'', ''models'']
      then Some (0, parse_int_value (segments ! 3))
      else None)"

definition query_version :: "string list \<Rightarrow> int \<Rightarrow> gerror + int" where
  "query_version values version = (case values of
     [] \<Rightarrow> Inr version
   | [v] \<Rightarrow> (case parseInt64 v of
       None \<Rightarrow> Inl (ErrorText ''invalid modelVersionId'')
     | Some q \<Rightarrow>
         (if q \<le> 0 then Inl (ErrorText ''invalid modelVersionId'')
          else if 0 < version \<and> version \<noteq> q then Inl (ErrorText ''conflicting version IDs'')
          else Inr q))
   | _ \<Rightarrow> Inl (ErrorText ''several modelVersionId values''))"

definition civitaiIdentity :: "import_lib \<Rightarrow> string \<Rightarrow> gerror + string \<times> int \<times> int" where
  "civitaiIdentity lib raw = bind_res (normalizedURL lib raw) (\<lambda>u.
     let host = provider_host lib u in
     if host \<noteq> ''civitai.com'' \<and> host \<noteq> ''civitai.red'' then Inl (ErrorText (''unsupported Civitai host '' @ quoted host))
     else (case path_ids (split_on SL (trim_path (url_Path u))) of
       None \<Rightarrow> Inl (ErrorText ''Civitai import requires a model page or download URL'')
     | Some (model, version) \<Rightarrow>
         (if model \<le> 0 \<and> version \<le> 0 then Inl (ErrorText ''Civitai import requires a positive model or version ID'')
          else bind_res (query_version (il_query lib (url_RawQuery u) ''modelVersionId'') version) (\<lambda>v. Inr (host, model, v)))))"

text \<open>\<^verbatim>\<open>url.PathUnescape\<close> and \<^verbatim>\<open>url.PathEscape\<close>\<close>

fun PathUnescape :: "string \<Rightarrow> string option" where
  "PathUnescape [] = Some []"
| "PathUnescape (c # s) =
     (if c = CHR ''%'' then
        (case s of
           a # b # r \<Rightarrow> (if hex_digit a \<and> hex_digit b
             then map_option (\<lambda>t. byte (16 * hex_value a + hex_value b) # t) (PathUnescape r) else None)
         | _ \<Rightarrow> None)
      else map_option (\<lambda>t. c # t) (PathUnescape s))"

definition plain_char :: "char \<Rightarrow> bool" where
  "plain_char c \<longleftrightarrow> is_letter c \<or> is_digit c \<or> c \<in> set ''-_.~$&+=:@''"

definition upper_hex :: "nat \<Rightarrow> char" where
  "upper_hex n = (if n < 10 then byte (48 + n) else byte (55 + n))"

definition PathEscape :: "string \<Rightarrow> string" where
  "PathEscape s = concat (map (\<lambda>c. if plain_char c then [c]
     else [CHR ''%'', upper_hex (code c div 16), upper_hex (code c mod 16)]) s)"

fun decoded_segments :: "string list \<Rightarrow> gerror + string list" where
  "decoded_segments [] = Inr []"
| "decoded_segments (item # items) =
     (if item = [] then decoded_segments items
      else (case PathUnescape item of
        None \<Rightarrow> Inl (ErrorText ''Hugging Face URL contains an invalid path segment'')
      | Some d \<Rightarrow>
          (if d = [] \<or> SL \<in> set d then Inl (ErrorText ''Hugging Face URL contains an invalid path segment'')
           else bind_res (decoded_segments items) (\<lambda>ds. Inr (d # ds)))))"

definition hf_parts :: "string list \<Rightarrow> gerror + string \<times> string \<times> string" where
  "hf_parts parts =
     (if length parts < 2 \<or> parts ! 0 = ''datasets'' \<or> parts ! 0 = ''spaces''
      then Inl (ErrorText ''Hugging Face URL must name a model repository'')
      else if parts ! 0 \<in> {''.'', ''..''} \<or> parts ! 1 \<in> {''.'', ''..''}
      then Inl (ErrorText ''Hugging Face URL contains an unsafe repository path'')
      else
        (let repository = parts ! 0 @ ''/'' @ parts ! 1 in
         if length parts = 2 then Inr (repository, [], [])
         else if length parts < 5 \<or> parts ! 2 \<noteq> ''blob'' \<and> parts ! 2 \<noteq> ''resolve''
         then Inl (ErrorText ''unsupported Hugging Face URL'')
         else
           (let filePath = join_with ''/'' (drop 4 parts) in
            if \<not> safeHFPath filePath then Inl (ErrorText ''unsafe Hugging Face path'')
            else Inr (repository, parts ! 3, filePath))))"

definition hfIdentity :: "import_lib \<Rightarrow> string \<Rightarrow> gerror + string \<times> string \<times> string" where
  "hfIdentity lib raw = bind_res (normalizedURL lib raw) (\<lambda>u.
     if provider_host lib u \<noteq> ''huggingface.co''
     then Inl (ErrorText (''unsupported Hugging Face host '' @ quoted (url_Hostname u)))
     else bind_res (decoded_segments (split_on SL (url_EscapedPath u))) hf_parts)"

section \<open>Metadata\<close>

definition maximumMetadataSize :: nat where "maximumMetadataSize = 16 * 1024 * 1024"

text \<open>The policy for redirects: refuse, or go on with or without the token.\<close>

datatype redirect = Refuse string | Follow (with_token: bool)

definition CheckRedirect :: "URL \<Rightarrow> URL list \<Rightarrow> redirect" where
  "CheckRedirect next_url via =
     (if url_Scheme next_url \<noteq> ''https'' then Refuse ''refusing non-HTTPS metadata redirect''
      else if 10 \<le> length via then Refuse ''too many redirects''
      else Follow (\<not> (via \<noteq> [] \<and> url_Hostname next_url \<noteq> url_Hostname (hd via))))"

definition decode_object :: "string \<Rightarrow> document \<Rightarrow> gerror + json table" where
  "decode_object provider d = (case d of
     Whole (JObj kvs) \<Rightarrow> Inr (object_of kvs)
   | Whole JNull \<Rightarrow> Inr []
   | Trailing (JObj kvs) \<Rightarrow> Inl (ErrorText (provider @ '' metadata response contains trailing data''))
   | Trailing JNull \<Rightarrow> Inl (ErrorText (provider @ '' metadata response contains trailing data''))
   | _ \<Rightarrow> Inl (ErrorText (provider @ '' metadata response is invalid'')))"

definition requestJSON ::
  "import_lib \<Rightarrow> 'h transport \<Rightarrow> string \<Rightarrow> string \<Rightarrow> string \<Rightarrow> 'h \<Rightarrow> (gerror + json table) \<times> 'h" where
  "requestJSON lib get endpoint token provider h = (case get endpoint token h of
     (Inl e, h1) \<Rightarrow> (Inl (ErrorText (provider @ '' metadata request failed: '' @ e)), h1)
   | (Inr (status, body), h1) \<Rightarrow>
       ((if status < 200 \<or> 300 \<le> status
         then Inl (ErrorText (provider @ '' metadata request returned HTTP '' @ format_int status))
         else case body of
           None \<Rightarrow> Inl (ErrorText (provider @ '' metadata response could not be read''))
         | Some contents \<Rightarrow>
             (if maximumMetadataSize < length contents
              then Inl (ErrorText (provider @ '' metadata response exceeds 16777216 bytes''))
              else decode_object provider (il_decode lib contents))), h1))"

definition str_of :: "raw \<Rightarrow> string" where
  "str_of r = (case r of Some (JStr s) \<Rightarrow> s | _ \<Rightarrow> [])"

definition obj_of :: "raw \<Rightarrow> json table" where
  "obj_of r = (case r of Some (JObj kvs) \<Rightarrow> object_of kvs | _ \<Rightarrow> [])"

definition arr_of :: "raw \<Rightarrow> json list" where
  "arr_of r = (case r of Some (JArr xs) \<Rightarrow> xs | _ \<Rightarrow> [])"

definition bool_of :: "raw \<Rightarrow> bool" where
  "bool_of r = (r = Some (JBool True))"

text \<open>With \<^verbatim>\<open>UseNumber\<close> every number is kept as its text.\<close>

definition jsonInt :: "raw \<Rightarrow> int option" where
  "jsonInt r = (case r of Some (JNum s) \<Rightarrow> parseInt64 s | _ \<Rightarrow> None)"

definition jsonNumber :: "import_lib \<Rightarrow> raw \<Rightarrow> float64 option" where
  "jsonNumber lib r = (case r of Some (JNum s) \<Rightarrow> il_float lib s | _ \<Rightarrow> None)"

text \<open>\<^verbatim>\<open>int64(math.Round(x))\<close> and \<^verbatim>\<open>math.Abs\<close>\<close>

definition round_int64 :: "float64 \<Rightarrow> int" where
  "round_int64 x =
     (let v = fl_val x; n = (if 0 \<le> v then \<lfloor>v + 1 / 2\<rfloor> else \<lceil>v - 1 / 2\<rceil>) in
      if IsNaN x \<or> IsInf x \<or> n < - (2 ^ 63) \<or> 2 ^ 63 \<le> n then - (2 ^ 63) else n)"

definition fl_abs :: "float64 \<Rightarrow> float64" where
  "fl_abs x = (if fl_negative x then fl_neg x else x)"

definition exact_size :: "float64 \<Rightarrow> int option" where
  "exact_size sizeKB =
     (let exactSize = fl_mul sizeKB (fl_of_rat 1024); n = round_int64 exactSize in
      if n \<le> 0 \<or> fl_less (fl_of_rat (1 / 1000)) (fl_abs (fl_sub exactSize (fl_of_rat (of_int n)))) then None else Some n)"

definition civitaiFile :: "import_lib \<Rightarrow> json table \<Rightarrow> string \<Rightarrow> int \<Rightarrow> File option" where
  "civitaiFile lib v host versionID =
     (let name = str_of (lookup v ''name''); digest = str_of (lookup (obj_of (lookup v ''hashes'')) ''SHA256'');
          download = str_of (lookup v ''downloadUrl'') in
      if name = [] \<or> Base name \<noteq> name then None
      else (case (jsonInt (lookup v ''id''), jsonNumber lib (lookup v ''sizeKB'')) of
        (Some i, Some sizeKB) \<Rightarrow>
          (if i \<le> 0 \<or> \<not> fl_less fl_zero sizeKB \<or> \<not> shaPattern digest \<or>
              \<not> exactCivitaiDownload (il_urls lib) download host versionID \<or> \<not> recognized lib name
           then None
           else map_option (\<lambda>n. \<lparr>fi_ID = format_int i, fi_Name = name, fi_Size = n, fi_SHA256 = il_lower lib digest,
             fi_Primary = bool_of (lookup v ''primary''), fi_DownloadURL = download\<rparr>) (exact_size sizeKB))
      | _ \<Rightarrow> None))"

abbreviation em_dash :: string where "em_dash \<equiv> [CHR '' '', CHR 0xE2, CHR 0x80, CHR 0x94, CHR '' '']"

definition civitai_endpoint :: "string \<Rightarrow> string \<Rightarrow> int \<Rightarrow> string" where
  "civitai_endpoint host collection n = ''https://'' @ host @ ''/api/v1/'' @ collection @ ''/'' @ format_int n"

definition objects_in :: "json list \<Rightarrow> json table list" where
  "objects_in xs = concat (map (\<lambda>x. case x of JObj kvs \<Rightarrow> [object_of kvs] | _ \<Rightarrow> []) xs)"

definition civitai_discovery ::
  "import_lib \<Rightarrow> string \<Rightarrow> int \<Rightarrow> int \<Rightarrow> json table \<Rightarrow> json table \<Rightarrow> gerror + Discovery" where
  "civitai_discovery lib host modelID versionID version model =
     (let files = List.map_filter (\<lambda>v. civitaiFile lib v host versionID) (objects_in (arr_of (lookup version ''files'')));
          name = str_of (lookup version ''name''); title = str_of (lookup model ''name'');
          availability = str_of (lookup version ''availability'') in
      if files = [] then Inl (ErrorText ''Civitai version has no supported file with exact size and SHA-256'')
      else Inr \<lparr>dy_Provider = ''civitai'',
        dy_SourceURL = ''https://'' @ host @ ''/models/'' @ format_int modelID @ ''?modelVersionId='' @ format_int versionID,
        dy_Title = (if name \<noteq> [] then title @ em_dash @ name else title),
        dy_Repository = host @ ''/models/'' @ format_int modelID, dy_Revision = format_int versionID,
        dy_DeclaredLicense = ''Civitai model-page permissions'', dy_ModelType = str_of (lookup model ''type''),
        dy_Host = host, dy_Files = files, dy_ModelID = modelID, dy_VersionID = versionID,
        dy_RequiresAuth = (host = ''civitai.red'' \<or> availability \<noteq> [] \<and> il_lower lib availability \<noteq> ''public'')\<rparr>)"

definition discoverCivitai ::
  "import_lib \<Rightarrow> 'h transport \<Rightarrow> string \<Rightarrow> int \<Rightarrow> string \<Rightarrow> 'h \<Rightarrow> (gerror + Discovery) \<times> 'h" where
  "discoverCivitai lib get raw requested token h =
     (case civitaiIdentity lib raw of
        Inl e \<Rightarrow> (Inl e, h)
      | Inr (host, modelID, urlVersion) \<Rightarrow>
          (let versionID = (if requested = 0 then urlVersion else requested) in
           if 0 < requested \<and> 0 < urlVersion \<and> requested \<noteq> urlVersion
           then (Inl (ErrorText ''Civitai URL and --version disagree''), h)
           else if versionID = 0 then (Inl (ErrorText ''Civitai URL does not select a version''), h)
           else (case requestJSON lib get (civitai_endpoint host ''model-versions'' versionID) token ''Civitai'' h of
             (Inl e, h1) \<Rightarrow> (Inl e, h1)
           | (Inr version, h1) \<Rightarrow>
               (if jsonInt (lookup version ''id'') \<noteq> Some versionID
                then (Inl (ErrorText ''Civitai returned inconsistent version metadata''), h1)
                else (case jsonInt (lookup version ''modelId'') of
                  None \<Rightarrow> (Inl (ErrorText ''Civitai returned inconsistent model metadata''), h1)
                | Some returnedModel \<Rightarrow>
                    (if 0 < modelID \<and> returnedModel \<noteq> modelID
                     then (Inl (ErrorText ''Civitai returned inconsistent model metadata''), h1)
                     else (case requestJSON lib get (civitai_endpoint host ''models'' returnedModel) token ''Civitai'' h1 of
                       (Inl e, h2) \<Rightarrow> (Inl e, h2)
                     | (Inr model, h2) \<Rightarrow> (civitai_discovery lib host returnedModel versionID version model, h2))))))))"

definition CivitaiVersions ::
  "import_lib \<Rightarrow> 'h transport \<Rightarrow> string \<Rightarrow> string \<Rightarrow> 'h \<Rightarrow> (gerror + (string \<times> string) list) \<times> 'h" where
  "CivitaiVersions lib get raw token h =
     (case civitaiIdentity lib raw of
        Inl e \<Rightarrow> (Inl e, h)
      | Inr (host, model, version) \<Rightarrow>
          (if 0 < version then (Inr [(format_int version, ''version from URL'')], h)
           else if model = 0 then (Inr [], h)
           else (case requestJSON lib get (civitai_endpoint host ''models'' model) token ''Civitai'' h of
             (Inl e, h1) \<Rightarrow> (Inl e, h1)
           | (Inr metadata, h1) \<Rightarrow>
               (let entry = (\<lambda>x. let v = obj_of (Some x) in case jsonInt (lookup v ''id'') of
                      None \<Rightarrow> None
                    | Some i \<Rightarrow>
                        (let name = str_of (lookup v ''name''); base = str_of (lookup v ''baseModel'') in
                         Some (format_int i, (if name = [] then ''unnamed version'' else name)
                           @ (if base \<noteq> [] then em_dash @ base else []))));
                    found = List.map_filter entry (arr_of (lookup metadata ''modelVersions'')) in
                (if found = [] then Inl (ErrorText ''Civitai model has no selectable versions'') else Inr found, h1)))))"

definition hf_file :: "import_lib \<Rightarrow> string \<Rightarrow> json table \<Rightarrow> File option" where
  "hf_file lib requestedPath v =
     (let filePath = str_of (lookup v ''rfilename''); lfs = obj_of (lookup v ''lfs'');
          digest = str_of (lookup lfs ''sha256'') in
      if \<not> recognized lib filePath \<or> \<not> safeHFPath filePath \<or> requestedPath \<noteq> [] \<and> filePath \<noteq> requestedPath then None
      else (case jsonInt (lookup lfs ''size'') of
        None \<Rightarrow> None
      | Some n \<Rightarrow>
          (if n \<le> 0 \<or> \<not> shaPattern digest then None
           else Some \<lparr>fi_ID = filePath, fi_Name = Base filePath, fi_Size = n, fi_SHA256 = il_lower lib digest,
             fi_Primary = (requestedPath = filePath), fi_DownloadURL = []\<rparr>)))"

definition hf_endpoint :: "string \<Rightarrow> string \<Rightarrow> string" where
  "hf_endpoint repository requestedRevision =
     (let parts = split_on SL repository; encoded = PathEscape (parts ! 0) @ ''/'' @ PathEscape (parts ! 1) in
      ''https://huggingface.co/api/models/'' @ encoded
        @ (if requestedRevision \<noteq> [] then ''/revision/'' @ PathEscape requestedRevision else []) @ ''?blobs=true'')"

definition hf_discovery ::
  "import_lib \<Rightarrow> string \<Rightarrow> string \<Rightarrow> json table \<Rightarrow> gerror + Discovery" where
  "hf_discovery lib repository requestedPath metadata =
     (let revision = str_of (lookup metadata ''sha'');
          files = List.map_filter (hf_file lib requestedPath) (objects_in (arr_of (lookup metadata ''siblings'')));
          declared = str_of (lookup (obj_of (lookup metadata ''cardData'')) ''license'');
          gated = (lookup metadata ''gated'' \<notin> {None, Some JNull, Some (JBool False)}) in
      if \<not> revisionPattern revision then Inl (ErrorText ''Hugging Face did not resolve to a full commit'')
      else if files = [] then Inl (ErrorText ''Hugging Face repository has no supported LFS model file'')
      else Inr \<lparr>dy_Provider = ''huggingface'',
        dy_SourceURL = il_hf_url lib (if requestedPath \<noteq> []
          then ''/'' @ repository @ ''/blob/'' @ revision @ ''/'' @ requestedPath
          else ''/'' @ repository @ ''/tree/'' @ revision),
        dy_Title = repository, dy_Repository = repository, dy_Revision = revision,
        dy_DeclaredLicense = (if declared \<noteq> [] then declared else ''not declared by provider metadata''),
        dy_ModelType = [], dy_Host = [], dy_Files = files, dy_ModelID = 0, dy_VersionID = 0,
        dy_RequiresAuth = (bool_of (lookup metadata ''private'') \<or> gated)\<rparr>)"

definition discoverHF ::
  "import_lib \<Rightarrow> 'h transport \<Rightarrow> string \<Rightarrow> string \<Rightarrow> 'h \<Rightarrow> (gerror + Discovery) \<times> 'h" where
  "discoverHF lib get raw token h =
     (case hfIdentity lib raw of
        Inl e \<Rightarrow> (Inl e, h)
      | Inr (repository, requestedRevision, requestedPath) \<Rightarrow>
          (case requestJSON lib get (hf_endpoint repository requestedRevision) token ''Hugging Face'' h of
             (Inl e, h1) \<Rightarrow> (Inl e, h1)
           | (Inr metadata, h1) \<Rightarrow> (hf_discovery lib repository requestedPath metadata, h1)))"

definition Discover ::
  "import_lib \<Rightarrow> 'h transport \<Rightarrow> string \<Rightarrow> int \<Rightarrow> string \<Rightarrow> string \<Rightarrow> 'h \<Rightarrow> (gerror + Discovery) \<times> 'h" where
  "Discover lib get raw version hfToken civitaiToken h =
     (case Provider lib raw of
        Inl e \<Rightarrow> (Inl e, h)
      | Inr provider \<Rightarrow>
          (if provider = ''civitai'' then discoverCivitai lib get raw version civitaiToken h
           else discoverHF lib get raw hfToken h))"

section \<open>Choices\<close>

definition CompatibleKinds :: "import_lib \<Rightarrow> File \<Rightarrow> Kind list" where
  "CompatibleKinds lib file = filter (\<lambda>k. has_suffix_of lib (fi_Name file) (kd_Suffixes k)) (sort_key kd_ID Kinds)"

definition civitai_types :: "(string \<times> string list) list" where
  "civitai_types = [(''checkpoint'', [''comfyui:checkpoint'', ''comfyui:diffusion-model'']), (''lora'', [''comfyui:lora'']),
     (''locon'', [''comfyui:lora'']), (''dora'', [''comfyui:lora'']), (''controlnet'', [''comfyui:controlnet'']),
     (''vae'', [''comfyui:vae'']), (''upscaler'', [''comfyui:upscaler'']), (''workflows'', [''comfyui:workflow'']),
     (''workflow'', [''comfyui:workflow''])]"

definition refused_types :: "string list" where
  "refused_types = [''aestheticgradient'', ''embedding'', ''hypernetwork'', ''motionmodule'', ''poses'', ''textualinversion'', ''wildcards'']"

definition CandidateKinds :: "import_lib \<Rightarrow> Discovery \<Rightarrow> File \<Rightarrow> Kind list" where
  "CandidateKinds lib d file =
     (let compatible = CompatibleKinds lib file;
          typeKey = replace_char CHR '' '' [] (il_lower lib (dy_ModelType d)) in
      if hasSuffix (il_lower lib (fi_Name file)) ''.gguf'' \<or> dy_Provider d \<noteq> ''civitai'' then compatible
      else if typeKey \<in> set refused_types then []
      else (case lookup civitai_types typeKey of
        None \<Rightarrow> compatible
      | Some ids \<Rightarrow>
          (if typeKey = ''checkpoint'' \<and> ''comfyui:checkpoint'' \<notin> kd_ID ` set compatible then []
           else List.map_filter (\<lambda>i. find (\<lambda>k. kd_ID k = i) compatible) ids)))"

definition SelectFile :: "Discovery \<Rightarrow> string \<Rightarrow> gerror + File" where
  "SelectFile d selector = (case filter (\<lambda>f. fi_ID f = selector \<or> fi_Name f = selector) (dy_Files d) of
     [f] \<Rightarrow> Inr f
   | _ \<Rightarrow> Inl (ErrorText (''remote file '' @ quoted selector @ '' did not select exactly one file'')))"

definition AutomaticFile :: "Discovery \<Rightarrow> File option" where
  "AutomaticFile d = (case dy_Files d of [f] \<Rightarrow> Some f | fs \<Rightarrow> (case filter fi_Primary fs of [f] \<Rightarrow> Some f | _ \<Rightarrow> None))"

definition SelectKind :: "import_lib \<Rightarrow> string \<Rightarrow> File \<Rightarrow> gerror + Kind" where
  "SelectKind lib i file = (case kind_by_id i of
     None \<Rightarrow> Inl (ErrorText (''unknown import type '' @ quoted i))
   | Some k \<Rightarrow>
       (if \<not> has_suffix_of lib (fi_Name file) (kd_Suffixes k)
        then Inl (ErrorText (kd_Label k @ '' cannot install '' @ quoted (fi_Name file))) else Inr k))"

section \<open>The plan\<close>

definition civitai_ok :: "import_lib \<Rightarrow> Discovery \<Rightarrow> File \<Rightarrow> bool" where
  "civitai_ok lib d file \<longleftrightarrow> (\<exists>i. parseInt64 (fi_ID file) = Some i \<and> 0 < i) \<and> 0 < dy_ModelID d \<and> 0 < dy_VersionID d \<and>
     dy_Host d \<in> {''civitai.com'', ''civitai.red''} \<and>
     exactCivitaiDownload (il_urls lib) (fi_DownloadURL file) (dy_Host d) (dy_VersionID d)"

definition hf_ok :: "Discovery \<Rightarrow> File \<Rightarrow> bool" where
  "hf_ok d file \<longleftrightarrow> (case split_on SL (dy_Repository d) of [a, b] \<Rightarrow> a \<noteq> [] \<and> b \<noteq> [] | _ \<Rightarrow> False) \<and>
     revisionPattern (dy_Revision d) \<and> safeHFPath (fi_ID file)"

definition validatePlanInputs :: "import_lib \<Rightarrow> Discovery \<Rightarrow> File \<Rightarrow> gerror option" where
  "validatePlanInputs lib d file =
     (if dy_Provider d \<noteq> ''civitai'' \<and> dy_Provider d \<noteq> ''huggingface''
      then Some (ErrorText (''unsupported remote provider '' @ quoted (dy_Provider d)))
      else (case normalizedURL lib (dy_SourceURL d) of
        Inl e \<Rightarrow> Some (Wrapped ''invalid remote source URL: '' e)
      | Inr u \<Rightarrow>
          (if fi_Name file = [] \<or> Base (fi_Name file) \<noteq> fi_Name file \<or> \<not> recognized lib (fi_Name file) \<or> fi_Size file \<le> 0 \<or>
              \<not> shaPattern (fi_SHA256 file) \<or> fi_SHA256 file \<noteq> il_lower lib (fi_SHA256 file)
           then Some (ErrorText ''remote file metadata is invalid'')
           else if dy_Provider d = ''civitai'' then
             (if civitai_ok lib d file then None else Some (ErrorText ''Civitai discovery metadata is invalid''))
           else if hf_ok d file then None else Some (ErrorText ''Hugging Face discovery metadata is invalid''))))"

definition DisplayName :: string where "DisplayName = ''Paracetamol''"

definition import_warning :: string where
  "import_warning = DisplayName @ '' imported this remote file on request but did not independently verify that its '' @
     ''declared permissions cover the hosted bytes.''"

definition plan_license :: "Discovery \<Rightarrow> License" where
  "plan_license d = \<lparr>li_SPDX = ''NOASSERTION'', li_Status = ''unverified'', li_URL = dy_SourceURL d, li_Warning = import_warning,
     li_UpstreamRepository = dy_Repository d, li_UpstreamLicense = dy_DeclaredLicense d,
     li_UpstreamLicenseURL = dy_SourceURL d\<rparr>"

definition no_source :: Source where
  "no_source = \<lparr>so_Provider = [], so_Repository = [], so_Revision = [], so_Path = [], so_ModelID = 0, so_ModelVersionID = 0,
     so_RequiresAuth = False, so_ProviderHost = [], so_DownloadURL = [], so_ArchiveMember = [], so_ArchiveMaxSize = 0\<rparr>"

definition plan_source :: "Discovery \<Rightarrow> File \<Rightarrow> Source" where
  "plan_source d file =
     (if dy_Provider d = ''civitai''
      then no_source\<lparr>so_Provider := ''civitai'', so_ProviderHost := dy_Host d, so_ModelID := dy_ModelID d,
        so_ModelVersionID := dy_VersionID d, so_Path := fi_Name file, so_DownloadURL := fi_DownloadURL file,
        so_RequiresAuth := dy_RequiresAuth d\<rparr>
      else no_source\<lparr>so_Provider := ''huggingface'', so_Repository := dy_Repository d, so_Revision := dy_Revision d,
        so_Path := fi_ID file\<rparr>)"

definition raw_source :: "Discovery \<Rightarrow> File \<Rightarrow> pack_source" where
  "raw_source d file =
     (let none = \<lparr>ps_Provider = [], ps_Repository = [], ps_Revision = [], ps_Path = [], ps_Host = [], ps_Filename = [],
        ps_DownloadURL = [], ps_ModelID = 0, ps_ModelVersionID = 0, ps_RequiresAuth = False\<rparr> in
      if dy_Provider d = ''civitai''
      then none\<lparr>ps_Provider := ''civitai'', ps_Host := dy_Host d, ps_ModelID := dy_ModelID d, ps_ModelVersionID := dy_VersionID d,
        ps_Filename := fi_Name file, ps_DownloadURL := fi_DownloadURL file, ps_RequiresAuth := dy_RequiresAuth d\<rparr>
      else none\<lparr>ps_Repository := dy_Repository d, ps_Revision := dy_Revision d, ps_Path := fi_ID file\<rparr>)"

definition source_identity :: "import_lib \<Rightarrow> Discovery \<Rightarrow> File \<Rightarrow> string" where
  "source_identity lib d file =
     (if dy_Provider d = ''civitai'' then ''civitai-v'' @ format_int (dy_VersionID d) @ ''-f'' @ fi_ID file
      else ''hf-'' @ slug lib (replace_char SL ''-'' (dy_Repository d)) 32 @ ''-'' @ take 12 (fi_SHA256 file))"

definition plan_id :: "import_lib \<Rightarrow> Discovery \<Rightarrow> File \<Rightarrow> Kind \<Rightarrow> string" where
  "plan_id lib d file kind = ''import-'' @ slug lib (source_identity lib d file) 56 @ ''-''
     @ slug lib (replace_char CHR '':'' ''-'' (kd_ID kind)) 32"

definition BuildPlan :: "import_lib \<Rightarrow> Discovery \<Rightarrow> File \<Rightarrow> Kind \<Rightarrow> gerror + import_plan" where
  "BuildPlan lib d file kind =
     (case validatePlanInputs lib d file of
        Some e \<Rightarrow> Inl e
      | None \<Rightarrow>
          (if \<not> list_ex (\<lambda>k. kd_ID k = kd_ID kind) (CompatibleKinds lib file)
           then Inl (ErrorText (kd_Label kind @ '' cannot install '' @ quoted (fi_Name file)))
           else
             (let i = plan_id lib d file kind; destination = kd_Prefix kind @ ''/'' @ fi_Name file;
                  description = fi_Name file @ '' from '' @ dy_Title d;
                  grp = (if kd_Application kind = ''llama-cpp'' then ''llama'' else ''comfyui'');
                  bundleText = fi_Name file @ '' imported from '' @ dy_Provider d in
              Inr \<lparr>pl_Discovery = d, pl_File = file, pl_Kind = kind,
                pl_Artifact = \<lparr>ar_ID = i, ar_Description = description, ar_Source = plan_source d file,
                  ar_Destination = destination, ar_Size = fi_Size file, ar_SHA256 = fi_SHA256 file,
                  ar_License = plan_license d, ar_Agreements = [], ar_Target = kd_Target kind\<rparr>,
                pl_Bundle = \<lparr>bn_ID = i, bn_Description = bundleText, bn_Application = kd_Application kind,
                  bn_Artifacts = [i], bn_Workflow = [], bn_Groups = [''all'', grp]\<rparr>,
                pl_Pack = \<lparr>pm_Schema = 2,
                  pm_Artifacts = [(i, \<lparr>pf_Description = description, pf_Source = raw_source d file, pf_Target = kd_Target kind,
                    pf_Destination = destination, pf_Size = fi_Size file, pf_SHA256 = fi_SHA256 file,
                    pf_License = plan_license d\<rparr>)],
                  pm_Bundles = [(i, \<lparr>pn_Description = bundleText, pn_Application = kd_Application kind,
                    pn_Artifacts = [i], pn_Groups = [''all'', grp]\<rparr>)]\<rparr>\<rparr>)))"

section \<open>The pack of a plan loads\<close>

text \<open>\<^verbatim>\<open>strings.ToLower\<close>: byte by byte on ASCII text, and rune by rune, so around every slash on its own.\<close>

definition lower_law :: "import_lib \<Rightarrow> bool" where
  "lower_law lib \<longleftrightarrow> (\<forall>s. list_all (\<lambda>c. code c < 128) s \<longrightarrow> il_lower lib s = map lower_char s) \<and>
     (\<forall>a b. il_lower lib (a @ SL # b) = il_lower lib a @ SL # il_lower lib b)"

lemma dash_runs_chars: "list_all slug_char (dash_runs pending s)"
  by (induction pending s rule: dash_runs.induct) (simp_all add: slug_char_def)

lemma trim_right_marks_set: "set (trim_right_marks s) \<subseteq> set s"
  unfolding trim_right_marks_def using set_dropWhileD by fastforce

lemma slug_chars: "list_all slug_char (slug lib v n)"
proof -
  define r where "r = trim_right_marks (dropWhile (\<lambda>c. c \<in> set ''._-'') (dash_runs False (il_lower lib v)))"
  have r: "set r \<subseteq> set (dash_runs False (il_lower lib v))"
    unfolding r_def using trim_right_marks_set set_dropWhileD by fastforce
  define s where "s = (if n < length r then trim_right_marks (take n r) else r)"
  have "set s \<subseteq> set r"
    unfolding s_def using trim_right_marks_set [of "take n r"] set_take_subset [of n r] by auto
  with r have "list_all slug_char s"
    using dash_runs_chars [of False "il_lower lib v"] unfolding list_all_iff by blast
  moreover have "list_all slug_char ''content''" by (simp add: slug_char_def ident_start_def is_digit_def code_def)
  moreover have "slug lib v n = (if s = [] then ''content'' else s)"
    by (simp only: slug_def Let_def r_def s_def)
  ultimately show ?thesis by simp
qed

lemma plan_id_pattern: "identifierPattern (plan_id lib d file kind)"
proof -
  have "list_all slug_char ''mport-''" "slug_char CHR ''-''" "ident_start CHR ''i''"
    by (simp_all add: slug_char_def ident_start_def is_digit_def code_def)
  then show ?thesis using slug_chars
    unfolding identifierPattern_def plan_id_def slug_char_def [abs_def] by simp
qed

lemma Base_no_slash:
  assumes "Base v = v" "v \<noteq> ''/''"
  shows "SL \<notin> set v"
proof (cases "v = [] \<or> rev (dropWhile (\<lambda>c. c = SL) (rev v)) = []")
  case True
  have "v = []" if "v \<noteq> []"
  proof -
    from True that have "Base v = ''/''" by (simp only: Base_def Let_def if_True if_False simp_thms)
    with assms show ?thesis by simp
  qed
  then have "v = []" by blast
  then show ?thesis by simp
next
  case False
  then have "Base v = rev (takeWhile (\<lambda>c. c \<noteq> SL) (dropWhile (\<lambda>c. c = SL) (rev v)))"
    by (simp only: Base_def Let_def if_False rev_rev_ident de_Morgan_disj)
  with assms(1) have "set v = set (takeWhile (\<lambda>c. c \<noteq> SL) (dropWhile (\<lambda>c. c = SL) (rev v)))"
    using arg_cong [of _ _ set] set_rev by metis
  then show ?thesis by (auto dest: set_takeWhileD)
qed

lemma recognized_name:
  assumes "lower_law lib" "recognized lib v" "v \<noteq> []" "Base v = v"
  shows "proper v"
proof -
  have lit: "il_lower lib w = map lower_char w" if "list_all (\<lambda>c. code c < 128) w" for w
    using assms(1) that unfolding lower_law_def by blast
  have low: "il_lower lib ''.'' = ''.''" "il_lower lib ''..'' = ''..''" "il_lower lib ''/'' = ''/''"
    by (simp_all add: lit code_def lower_char_def)
  from assms(2) low have "v \<noteq> ''.''" "v \<noteq> ''..''" "v \<noteq> ''/''"
    by (auto simp: recognized_def has_suffix_of_def weightSuffixes_def hasSuffix_def hasPrefix_def)
  with Base_no_slash [OF assms(4)] assms(3) show ?thesis by (simp add: proper_def)
qed

lemma safe_destination_join:
  assumes "\<forall>c\<in>set ps. proper c" "ps \<noteq> []"
  shows "safe_destination (join_with ''/'' ps)"
proof -
  have shape: "clean_shape False ps" using clean_shapeI [OF assms(1), of False 0] by simp
  note parts = clean_parts_split [OF shape assms(2)] and split = split_join_parts [OF shape assms(2)]
    and rel = join_relative [OF shape assms(2)]
  have "Clean (join_with ''/'' ps) = join_with ''/'' ps"
    using parts rel assms(2) by (simp add: Clean_def render_path_def)
  moreover have "\<not> hasPrefix (join_with ''/'' ps) ''/''" using rel by (simp add: IsAbs_def)
  moreover have "\<not> hasPrefix (join_with ''/'' ps) ''../''"
  proof
    assume "hasPrefix (join_with ''/'' ps) ''../''"
    then obtain r where "join_with ''/'' ps = ''..'' @ SL # r" by (auto simp: hasPrefix_iff)
    then have "hd ps = ''..''" using split split_on_append [of SL "''..''" r] by auto
    with assms show False by (cases ps) (auto simp: proper_def)
  qed
  moreover have "join_with ''/'' ps \<noteq> ''.''"
  proof
    assume "join_with ''/'' ps = ''.''"
    with split have "ps = [''.'']" by simp
    with assms(1) show False by (simp add: proper_def)
  qed
  ultimately show ?thesis by (simp add: safe_destination_def)
qed

lemma kind_prefix:
  assumes "k \<in> set Kinds" "proper name"
  shows "safe_destination (kd_Prefix k @ ''/'' @ name)"
proof -
  have two: "safe_destination (a @ ''/'' @ b @ ''/'' @ name)" if "proper a" "proper b" for a b
    using safe_destination_join [of "[a, b, name]"] that assms(2) by simp
  have one: "safe_destination (a @ ''/'' @ name)" if "proper a" for a
    using safe_destination_join [of "[a, name]"] that assms(2) by simp
  have imported: "proper ''imported''" "proper ''remote''" by (simp_all add: proper_def)
  have "kd_Prefix k \<in> {''imported'', ''remote''} \<union>
      (\<lambda>a. a @ ''/imported'') ` {''checkpoints'', ''diffusion_models'', ''loras'', ''vae'', ''text_encoders'', ''controlnet'', ''upscale_models''}"
    using assms(1) by (auto simp: Kinds_def comfy_kind_def)
  then consider "kd_Prefix k \<in> {''imported'', ''remote''}"
    | a where "kd_Prefix k = a @ ''/'' @ ''imported''" "proper a"
    by (auto simp: proper_def)
  then show ?thesis
  proof cases
    case 1
    then show ?thesis by (elim insertE emptyE; simp only:; intro one imported)
  next
    case 2
    with two [OF 2(2) imported(1)] show ?thesis by simp
  qed
qed

lemma sha_lower:
  assumes "lower_law lib" "shaPattern v" "v = il_lower lib v"
  shows "sha256Pattern v"
proof -
  have hex: "list_all hex_digit v" "length v = 64" using assms(2) by (simp_all add: shaPattern_def)
  have "list_all (\<lambda>c. code c < 128) v"
    using hex(1) unfolding list_all_iff hex_digit_def is_digit_def by fastforce
  with assms(1,3) have "map lower_char v = v" unfolding lower_law_def by metis
  then have "lower_char c = c" if "c \<in> set v" for c using that by (metis map_eq_conv map_idI list.map_ident)
  moreover have "hex_lower c" if "hex_digit c" "lower_char c = c" for c
  proof -
    have "\<not> (65 \<le> code c \<and> code c \<le> 70)"
    proof
      assume u: "65 \<le> code c \<and> code c \<le> 70"
      then have "c = char_of (code c + 32)" using that(2) by (simp add: lower_char_def code_def)
      then have "code c = (code c + 32) mod 256" by (metis code_def of_char_of)
      with u show False by simp
    qed
    with that(1) show ?thesis by (auto simp: hex_digit_def hex_lower_def is_digit_def)
  qed
  ultimately show ?thesis using hex by (auto simp: sha256Pattern_def list_all_iff)
qed

lemma normalized_https: "normalizedURL lib raw = Inr u \<Longrightarrow> httpsURL (il_urls lib) raw"
  by (auto simp: normalizedURL_def httpsURL_def split: option.splits if_splits)

lemma validated_inputs:
  assumes "validatePlanInputs lib d file = None" "lower_law lib"
  shows "dy_Provider d = ''civitai'' \<or> dy_Provider d = ''huggingface''" "httpsURL (il_urls lib) (dy_SourceURL d)"
    "proper (fi_Name file)" "Base (fi_Name file) = fi_Name file" "0 < fi_Size file" "sha256Pattern (fi_SHA256 file)"
    "dy_Provider d = ''civitai'' \<Longrightarrow> civitai_ok lib d file"
    "dy_Provider d \<noteq> ''civitai'' \<Longrightarrow> hf_ok d file"
proof -
  obtain u where u: "normalizedURL lib (dy_SourceURL d) = Inr u"
    and ok: "fi_Name file \<noteq> []" "Base (fi_Name file) = fi_Name file" "recognized lib (fi_Name file)" "0 < fi_Size file"
      "shaPattern (fi_SHA256 file)" "fi_SHA256 file = il_lower lib (fi_SHA256 file)"
    using assms(1) by (auto simp: validatePlanInputs_def split: if_splits sum.splits)
  show "httpsURL (il_urls lib) (dy_SourceURL d)" by (rule normalized_https [OF u])
  show "proper (fi_Name file)" by (rule recognized_name [OF assms(2) ok(3,1,2)])
  show "sha256Pattern (fi_SHA256 file)" by (rule sha_lower [OF assms(2) ok(5,6)])
  show "Base (fi_Name file) = fi_Name file" "0 < fi_Size file" by fact+
  show "dy_Provider d = ''civitai'' \<or> dy_Provider d = ''huggingface''"
    "dy_Provider d = ''civitai'' \<Longrightarrow> civitai_ok lib d file" "dy_Provider d \<noteq> ''civitai'' \<Longrightarrow> hf_ok d file"
    using assms(1) u by (auto simp: validatePlanInputs_def split: if_splits)
qed

lemma pack_source_plan:
  assumes "validatePlanInputs lib d file = None" "lower_law lib"
  shows "pack_source_of (il_urls lib) i (raw_source d file) = Inr (plan_source d file)"
proof (cases "dy_Provider d = ''civitai''")
  case True
  from validated_inputs(7) [OF assms True] validated_inputs(4) [OF assms] True show ?thesis
    by (auto simp: pack_source_of_def raw_source_def plan_source_def no_source_def civitai_ok_def Let_def)
next
  case False
  from validated_inputs(8) [OF assms False] have hf: "revisionPattern (dy_Revision d)" "safeHFPath (fi_ID file)" "dy_Repository d \<noteq> []"
    by (auto simp: hf_ok_def)
  from hf(2) have "safeRelative (fi_ID file)" by (auto simp: safeHFPath_def safeRelative_def)
  with hf False show ?thesis
    by (simp add: pack_source_of_def raw_source_def plan_source_def no_source_def Let_def)
qed

lemma built_plan:
  assumes "BuildPlan lib d file kind = Inr plan"
  shows "validatePlanInputs lib d file = None" "pl_Kind plan = kind" "pl_File plan = file" "pl_Discovery plan = d"
    "pl_Artifact plan = \<lparr>ar_ID = plan_id lib d file kind, ar_Description = fi_Name file @ '' from '' @ dy_Title d,
       ar_Source = plan_source d file, ar_Destination = kd_Prefix kind @ ''/'' @ fi_Name file, ar_Size = fi_Size file,
       ar_SHA256 = fi_SHA256 file, ar_License = plan_license d, ar_Agreements = [], ar_Target = kd_Target kind\<rparr>"
    "pl_Bundle plan = \<lparr>bn_ID = plan_id lib d file kind, bn_Description = fi_Name file @ '' imported from '' @ dy_Provider d,
       bn_Application = kd_Application kind, bn_Artifacts = [plan_id lib d file kind], bn_Workflow = [],
       bn_Groups = [''all'', if kd_Application kind = ''llama-cpp'' then ''llama'' else ''comfyui'']\<rparr>"
    "pl_Pack plan = \<lparr>pm_Schema = 2,
       pm_Artifacts = [(plan_id lib d file kind, \<lparr>pf_Description = fi_Name file @ '' from '' @ dy_Title d,
         pf_Source = raw_source d file, pf_Target = kd_Target kind, pf_Destination = kd_Prefix kind @ ''/'' @ fi_Name file,
         pf_Size = fi_Size file, pf_SHA256 = fi_SHA256 file, pf_License = plan_license d\<rparr>)],
       pm_Bundles = [(plan_id lib d file kind, \<lparr>pn_Description = fi_Name file @ '' imported from '' @ dy_Provider d,
         pn_Application = kd_Application kind, pn_Artifacts = [plan_id lib d file kind],
         pn_Groups = [''all'', if kd_Application kind = ''llama-cpp'' then ''llama'' else ''comfyui'']\<rparr>)]\<rparr>"
  using assms unfolding BuildPlan_def Let_def by (auto split: option.splits if_splits)

lemma kind_targets:
  assumes "k \<in> set Kinds"
  shows "kd_Target k = ''models'' \<or> kd_Target k = ''llama-models'' \<or> kd_Target k = ''workflows''"
    "kd_Application k = ''comfyui'' \<or> kd_Application k = ''llama-cpp''" "application_target (kd_Application k) (kd_Target k)"
  using assms by (auto simp: Kinds_def comfy_kind_def application_target_def)

text \<open>
  the pack of every plan is accepted again: for a kind of the table it loads into any catalog that does
  not use its identifier, and adds exactly the artifact and the bundle of the plan. The one exception is
  a workflow whose name does not end in lower-case \<^verbatim>\<open>.json\<close>.
\<close>

lemma planned_pack_loads:
  assumes "BuildPlan lib d file kind = Inr plan" "kind \<in> set Kinds" "lower_law lib"
    "kd_Target kind = ''workflows'' \<longrightarrow> hasSuffix (fi_Name file) ''.json''"
    "lookup (ct_Artifacts base) (ar_ID (pl_Artifact plan)) = None" "lookup (ct_Bundles base) (ar_ID (pl_Artifact plan)) = None"
  shows "load_pack (il_urls lib) path (pl_Pack plan) base =
    Inr (base\<lparr>ct_Artifacts := upsert (ar_ID (pl_Artifact plan)) (pl_Artifact plan) (ct_Artifacts base),
              ct_Bundles := upsert (ar_ID (pl_Artifact plan)) (pl_Bundle plan) (ct_Bundles base)\<rparr>, [ar_ID (pl_Artifact plan)])"
proof -
  note b = built_plan [OF assms(1)] and v = validated_inputs [OF built_plan(1) [OF assms(1)] assms(3)]
  note t = kind_targets [OF assms(2)]
  let ?i = "plan_id lib d file kind"
  have dest: "safe_destination (kd_Prefix kind @ ''/'' @ fi_Name file)" by (rule kind_prefix [OF assms(2) v(3)])
  have json: "\<not> (kd_Target kind = ''workflows'' \<and> \<not> hasSuffix (kd_Prefix kind @ ''/'' @ fi_Name file) ''.json'')"
    using assms(4) by (auto simp: hasSuffix_iff)
  have license: "unverified_license (il_urls lib) (plan_license d)"
    using v(2) by (simp add: unverified_license_def plan_license_def import_warning_def DisplayName_def)
  have artifact: "pack_artifact_of (il_urls lib) path ?i (snd (hd (pm_Artifacts (pl_Pack plan)))) = Inr (pl_Artifact plan)"
    unfolding pack_artifact_of_def b(5,7)
    using plan_id_pattern v(5,6) t(1) dest json license pack_source_plan [OF b(1) assms(3)]
    by auto
  have grouped: "pack_bundle_of (pm_Artifacts (pl_Pack plan)) ?i (snd (hd (pm_Bundles (pl_Pack plan)))) = Inr (pl_Bundle plan)"
    unfolding pack_bundle_of_def b(6,7)
    using plan_id_pattern t(2,3) by (auto simp: exactGroups_def pack_group_def)
  show ?thesis
    using artifact grouped assms(5,6) b(5) unfolding load_pack_def b(7) by simp
qed

text \<open>A workflow with another spelling of the suffix is planned, and its pack is refused.\<close>

lemma uppercase_workflow_refused:
  assumes "BuildPlan lib d file kind = Inr plan" "kind \<in> set Kinds" "lower_law lib"
    "kd_Target kind = ''workflows''" "\<not> hasSuffix (kd_Prefix kind @ ''/'' @ fi_Name file) ''.json''"
  shows "load_pack (il_urls lib) path (pl_Pack plan) base =
    Inl (''content pack workflow artifact '' @ plan_id lib d file kind @ '' must be JSON'')"
proof -
  note b = built_plan [OF assms(1)] and v = validated_inputs [OF built_plan(1) [OF assms(1)] assms(3)]
  have dest: "safe_destination (kd_Prefix kind @ ''/'' @ fi_Name file)" by (rule kind_prefix [OF assms(2) v(3)])
  have "pack_artifact_of (il_urls lib) path (plan_id lib d file kind) (snd (hd (pm_Artifacts (pl_Pack plan)))) =
      Inl (''content pack workflow artifact '' @ plan_id lib d file kind @ '' must be JSON'')"
    unfolding pack_artifact_of_def b(7) using plan_id_pattern v(5,6) assms(4,5) dest by auto
  then show ?thesis unfolding load_pack_def b(7) by simp
qed

section \<open>What is discovered can be planned\<close>

definition url_law :: "import_lib \<Rightarrow> bool" where
  "url_law lib \<longleftrightarrow> (\<forall>p. httpsURL (il_urls lib) (il_hf_url lib p)) \<and>
     (\<forall>host m v. host \<in> {''civitai.com'', ''civitai.red''} \<longrightarrow> httpsURL (il_urls lib)
        (''https://'' @ host @ ''/models/'' @ format_int m @ ''?modelVersionId='' @ format_int v))"

lemma https_normalized: "httpsURL (il_urls lib) raw \<Longrightarrow> \<exists>u. normalizedURL lib raw = Inr u"
  by (auto simp: normalizedURL_def httpsURL_def split: option.splits)

lemma ascii_lower: "lower_law lib \<Longrightarrow> list_all (\<lambda>c. code c < 128) s \<Longrightarrow> il_lower lib s = map lower_char s"
  unfolding lower_law_def by blast

lemma sha_lowered:
  assumes "lower_law lib" "shaPattern v"
  shows "shaPattern (il_lower lib v)" "il_lower lib (il_lower lib v) = il_lower lib v"
proof -
  have hex: "list_all hex_digit v" "length v = 64" using assms(2) by (simp_all add: shaPattern_def)
  then have ascii: "list_all (\<lambda>c. code c < 128) v"
    unfolding list_all_iff hex_digit_def by fastforce
  note low = ascii_lower [OF assms(1) ascii]
  have char: "hex_digit (lower_char c) \<and> lower_char (lower_char c) = lower_char c" if "hex_digit c" for c
  proof (cases "65 \<le> code c \<and> code c \<le> 90")
    case True
    with that have u: "65 \<le> code c \<and> code c \<le> 70" by (auto simp: hex_digit_def)
    have "code (lower_char c) = code c + 32" using u by (simp add: lower_char_def code_def)
    with u show ?thesis by (simp add: hex_digit_def lower_char_def [of "lower_char c"] code_def)
  next
    case False
    then have "lower_char c = c" by (auto simp: lower_char_def code_def Let_def)
    with that show ?thesis by simp
  qed
  have hexl: "list_all hex_digit (map lower_char v)" using hex(1) char by (auto simp: list_all_iff)
  with hex(2) show "shaPattern (il_lower lib v)" by (simp add: shaPattern_def low)
  from hexl have "list_all (\<lambda>c. code c < 128) (map lower_char v)"
    unfolding list_all_iff hex_digit_def by fastforce
  from ascii_lower [OF assms(1) this] show "il_lower lib (il_lower lib v) = il_lower lib v"
    using hex(1) char by (auto simp: low list_all_iff)
qed

text \<open>The last element of a path with a recognized suffix has that suffix and is a name.\<close>

lemma suffix_after_slash:
  assumes "hasSuffix (a @ SL # b) suf" "SL \<notin> set suf"
  shows "hasSuffix b suf"
proof -
  from assms(1) obtain r where r: "a @ SL # b = r @ suf" by (auto simp: hasSuffix_iff)
  then consider us where "us @ SL # b = suf" | us where "SL # b = us @ suf"
    unfolding append_eq_append_conv2 by blast
  then show ?thesis
  proof cases
    case 1
    then have "SL \<in> set suf" by (metis in_set_conv_decomp)
    with assms(2) show ?thesis by blast
  next
    case 2
    with assms(2) show ?thesis by (cases us) (auto simp: hasSuffix_iff)
  qed
qed

lemma Base_name: "SL \<notin> set b \<Longrightarrow> b \<noteq> [] \<Longrightarrow> Base b = b"
proof -
  assume b: "SL \<notin> set b" "b \<noteq> []"
  have d: "dropWhile (\<lambda>c. c = SL) (rev b) = rev b"
    unfolding dropWhile_eq_self_iff hd_rev using b last_in_set [OF b(2)] by metis
  have t: "takeWhile (\<lambda>c. c \<noteq> SL) (rev b) = rev b"
    unfolding takeWhile_eq_all_conv using b by auto
  show ?thesis using b(2) by (simp only: Base_def Let_def d t rev_rev_ident if_False)
qed

lemma Base_last: "SL \<notin> set b \<Longrightarrow> b \<noteq> [] \<Longrightarrow> Base (a @ SL # b) = b"
proof -
  assume b: "SL \<notin> set b" "b \<noteq> []"
  then have hd: "hd (rev b) \<noteq> SL" by (metis hd_in_set rev_is_Nil_conv set_rev)
  have "dropWhile (\<lambda>c. c = SL) (rev (a @ SL # b)) = rev b @ SL # rev a"
    using hd b(2) by (cases "rev b") simp_all
  moreover have "takeWhile (\<lambda>c. c \<noteq> SL) (rev b @ SL # rev a) = rev b"
    using b(1) by (subst takeWhile_append2) auto
  ultimately show ?thesis by (simp add: Base_def Let_def del: rev_append)
qed

lemma recognized_Base:
  assumes "lower_law lib" "recognized lib p"
  shows "recognized lib (Base p)" "Base p \<noteq> []" "Base (Base p) = Base p"
proof -
  have nil: "il_lower lib [] = []" using ascii_lower [OF assms(1), of "[]"] by simp
  have no: "\<not> recognized lib []"
    by (simp add: recognized_def has_suffix_of_def nil weightSuffixes_def hasSuffix_def hasPrefix_def)
  have drop: "recognized lib b" if "recognized lib (a @ SL # b)" for a b
    using that suffix_after_slash [of "il_lower lib a" "il_lower lib b"] assms(1)
    unfolding recognized_def has_suffix_of_def lower_law_def weightSuffixes_def by auto
  have "recognized lib (Base p) \<and> Base p \<noteq> [] \<and> Base (Base p) = Base p"
  proof (cases "SL \<in> set p")
    case False
    with assms(2) no Base_name show ?thesis by metis
  next
    case True
    then obtain a b where p: "p = a @ SL # b" "SL \<notin> set b" by (metis split_list_last)
    with assms(2) drop have b: "recognized lib b" by blast
    with no have "b \<noteq> []" by blast
    with p b Base_last Base_name show ?thesis by metis
  qed
  then show "recognized lib (Base p)" "Base p \<noteq> []" "Base (Base p) = Base p" by blast+
qed

text \<open>Decimals are read back.\<close>

lemma base_digits_digit: "list_all is_digit (base_digits 10 n)"
  by (induction "10::nat" n rule: base_digits.induct)
    (subst base_digits.simps, auto simp: is_digit_def code_def byte_def)

lemma decimal_base_digits: "decimal (base_digits 10 n) = int n"
proof (induction n rule: less_induct)
  case (less n)
  then show ?case
    by (subst base_digits.simps) (auto simp: decimal_def code_def byte_def zdiv_int zmod_int)
qed

lemma base_digits_Nil: "base_digits b n \<noteq> []"
  by (subst base_digits.simps) simp

lemma parse_format: "0 \<le> i \<Longrightarrow> i < 2 ^ 63 \<Longrightarrow> parseInt64 (format_int i) = Some i"
proof -
  assume i: "0 \<le> i" "i < 2 ^ 63"
  let ?s = "base_digits 10 (nat i)"
  have "\<not> hasPrefix ?s ''-'' \<and> \<not> hasPrefix ?s ''+''"
    using base_digits_digit [of "nat i"] by (cases ?s) (auto simp: hasPrefix_def is_digit_def code_def)
  with i show ?thesis
    using base_digits_digit [of "nat i"] decimal_base_digits [of "nat i"] base_digits_Nil [of 10 "nat i"]
    by (simp add: parseInt64_def format_int_def Let_def)
qed

lemma parsed_bound: "parseInt64 s = Some i \<Longrightarrow> i < 2 ^ 63"
  by (auto simp: parseInt64_def Let_def split: if_splits)

lemma map_filter_elem: "y \<in> set (List.map_filter f xs) \<Longrightarrow> \<exists>x\<in>set xs. f x = Some y"
  by (induction xs) (auto simp: List.map_filter_simps split: option.splits)

lemma civitai_file_valid:
  assumes "civitaiFile lib v host version = Some f" "lower_law lib"
  shows "fi_Name f \<noteq> []" "Base (fi_Name f) = fi_Name f" "recognized lib (fi_Name f)" "0 < fi_Size f"
    "shaPattern (fi_SHA256 f)" "il_lower lib (fi_SHA256 f) = fi_SHA256 f"
    "\<exists>i. parseInt64 (fi_ID f) = Some i \<and> 0 < i" "exactCivitaiDownload (il_urls lib) (fi_DownloadURL f) host version"
proof -
  obtain i kb n digest where id: "jsonInt (lookup v ''id'') = Some i" "0 < i"
    and size: "exact_size kb = Some n" "fi_Size f = n" "fi_ID f = format_int i"
    and digest: "shaPattern digest" "fi_SHA256 f = il_lower lib digest"
    and rest: "fi_Name f \<noteq> []" "Base (fi_Name f) = fi_Name f" "recognized lib (fi_Name f)"
      "exactCivitaiDownload (il_urls lib) (fi_DownloadURL f) host version"
    using assms(1) by (auto simp: civitaiFile_def Let_def split: if_splits option.splits)
  show "fi_Name f \<noteq> []" "Base (fi_Name f) = fi_Name f" "recognized lib (fi_Name f)"
    "exactCivitaiDownload (il_urls lib) (fi_DownloadURL f) host version" by fact+
  show "0 < fi_Size f" using size by (auto simp: exact_size_def Let_def split: if_splits)
  show "shaPattern (fi_SHA256 f)" "il_lower lib (fi_SHA256 f) = fi_SHA256 f"
    using sha_lowered [OF assms(2) digest(1)] digest(2) by simp_all
  have "i < 2 ^ 63" using id(1) parsed_bound by (auto simp: jsonInt_def split: option.splits json.splits)
  then have "parseInt64 (fi_ID f) = Some i" using parse_format id(2) size(3) by simp
  with id(2) show "\<exists>i. parseInt64 (fi_ID f) = Some i \<and> 0 < i" by blast
qed

lemma hf_file_valid:
  assumes "hf_file lib path v = Some f" "lower_law lib"
  shows "fi_Name f \<noteq> []" "Base (fi_Name f) = fi_Name f" "recognized lib (fi_Name f)" "0 < fi_Size f"
    "shaPattern (fi_SHA256 f)" "il_lower lib (fi_SHA256 f) = fi_SHA256 f" "safeHFPath (fi_ID f)"
proof -
  obtain digest where digest: "shaPattern digest" "fi_SHA256 f = il_lower lib digest"
    and name: "fi_Name f = Base (fi_ID f)" "recognized lib (fi_ID f)"
    and rest: "safeHFPath (fi_ID f)" "0 < fi_Size f"
    using assms(1) by (auto simp: hf_file_def Let_def split: if_splits option.splits)
  show "safeHFPath (fi_ID f)" "0 < fi_Size f" by fact+
  show "fi_Name f \<noteq> []" "Base (fi_Name f) = fi_Name f" "recognized lib (fi_Name f)"
    using recognized_Base [OF assms(2) name(2)] name(1) by simp_all
  show "shaPattern (fi_SHA256 f)" "il_lower lib (fi_SHA256 f) = fi_SHA256 f"
    using sha_lowered [OF assms(2) digest(1)] digest(2) by simp_all
qed

lemma civitai_identity:
  assumes "civitaiIdentity lib raw = Inr (host, model, version)"
  shows "host \<in> {''civitai.com'', ''civitai.red''}" "0 \<le> version"
  using assms
  by (auto simp: civitaiIdentity_def path_ids_def query_version_def Let_def bind_res_def
      split: sum.splits if_splits option.splits list.splits prod.splits)

lemma decoded_no_slash: "decoded_segments items = Inr ds \<Longrightarrow> d \<in> set ds \<Longrightarrow> d \<noteq> [] \<and> SL \<notin> set d"
  by (induction items arbitrary: ds) (auto simp: bind_res_def split: if_splits option.splits sum.splits)

lemma hf_identity:
  assumes "hfIdentity lib raw = Inr (repository, revision, path)"
  shows "\<exists>a b. split_on SL repository = [a, b] \<and> a \<noteq> [] \<and> b \<noteq> []"
proof -
  obtain items ds where ds: "decoded_segments items = Inr ds" and parts: "hf_parts ds = Inr (repository, revision, path)"
    using assms by (auto simp: hfIdentity_def bind_res_def split: sum.splits if_splits)
  from parts have two: "2 \<le> length ds" and repo: "repository = ds ! 0 @ ''/'' @ ds ! 1"
    by (auto simp: hf_parts_def Let_def split: if_splits)
  from two have "ds ! 0 \<in> set ds" "ds ! 1 \<in> set ds" by (auto intro: nth_mem)
  with decoded_no_slash [OF ds] have "ds ! 0 \<noteq> [] \<and> SL \<notin> set (ds ! 0)" "ds ! 1 \<noteq> [] \<and> SL \<notin> set (ds ! 1)"
    by blast+
  with repo show ?thesis by (simp add: split_on_append split_on_no_char)
qed

lemma discovered_civitai:
  assumes "discoverCivitai lib get raw requested token h = (Inr d, h1)" "f \<in> set (dy_Files d)" "0 \<le> requested"
    "0 < dy_ModelID d" "lower_law lib" "url_law lib"
  shows "validatePlanInputs lib d f = None"
proof -
  obtain host model urlVersion where id: "civitaiIdentity lib raw = Inr (host, model, urlVersion)"
    using assms(1) by (auto simp: discoverCivitai_def split: sum.splits)
  note host = civitai_identity [OF id]
  define version where "version = (if requested = 0 then urlVersion else requested)"
  from assms(1) id obtain a b m where d: "civitai_discovery lib host m version a b = Inr d" and v: "version \<noteq> 0"
    by (auto simp: discoverCivitai_def version_def Let_def split: sum.splits if_splits option.splits prod.splits)
  from v host(2) assms(3) have pos: "0 < version" by (auto simp: version_def)
  from d have fields: "dy_Provider d = ''civitai''" "dy_Host d = host" "dy_VersionID d = version" "dy_ModelID d = m"
      "dy_SourceURL d = ''https://'' @ host @ ''/models/'' @ format_int m @ ''?modelVersionId='' @ format_int version"
      "dy_Files d = List.map_filter (\<lambda>v. civitaiFile lib v host version) (objects_in (arr_of (lookup a ''files'')))"
    by (auto simp: civitai_discovery_def Let_def split: if_splits)
  from assms(2) fields(6) obtain x where x: "civitaiFile lib x host version = Some f" by (auto dest: map_filter_elem)
  note fv = civitai_file_valid [OF x assms(5)]
  have "httpsURL (il_urls lib) (dy_SourceURL d)"
    using assms(6) host(1) unfolding fields(5) url_law_def by blast
  from https_normalized [OF this] obtain u where u: "normalizedURL lib (dy_SourceURL d) = Inr u" by blast
  have "civitai_ok lib d f"
    unfolding civitai_ok_def fields(2,3) using fv(7,8) assms(4) pos host(1) by blast
  with fv(1-6) u fields(1) show ?thesis by (simp add: validatePlanInputs_def)
qed

lemma discovered_hf:
  assumes "discoverHF lib get raw token h = (Inr d, h1)" "f \<in> set (dy_Files d)" "lower_law lib" "url_law lib"
  shows "validatePlanInputs lib d f = None" "dy_Provider d = ''huggingface''"
proof -
  obtain repository revision path where id: "hfIdentity lib raw = Inr (repository, revision, path)"
    using assms(1) by (auto simp: discoverHF_def split: sum.splits)
  from assms(1) id obtain m where d: "hf_discovery lib repository path m = Inr d"
    by (auto simp: discoverHF_def split: sum.splits prod.splits)
  obtain p where fields: "dy_Provider d = ''huggingface''" "dy_Repository d = repository" "dy_SourceURL d = il_hf_url lib p"
      "revisionPattern (dy_Revision d)"
      "dy_Files d = List.map_filter (hf_file lib path) (objects_in (arr_of (lookup m ''siblings'')))"
    using d by (auto simp: hf_discovery_def Let_def split: if_splits)
  from assms(2) fields(5) obtain x where x: "hf_file lib path x = Some f" by (auto dest: map_filter_elem)
  note fv = hf_file_valid [OF x assms(3)]
  have "httpsURL (il_urls lib) (dy_SourceURL d)"
    using assms(4) unfolding fields(3) url_law_def by blast
  from https_normalized [OF this] obtain u where u: "normalizedURL lib (dy_SourceURL d) = Inr u" by blast
  have "hf_ok d f"
    using hf_identity [OF id] fv(7) fields(2,4) by (auto simp: hf_ok_def)
  with fv(1-6) u fields(1) show "validatePlanInputs lib d f = None" by (simp add: validatePlanInputs_def)
  show "dy_Provider d = ''huggingface''" by fact
qed

lemma discovered_valid:
  assumes "Discover lib get raw version hfToken civitaiToken h = (Inr d, h1)" "f \<in> set (dy_Files d)"
    "lower_law lib" "url_law lib" "0 \<le> version" "dy_Provider d = ''civitai'' \<longrightarrow> 0 < dy_ModelID d"
  shows "validatePlanInputs lib d f = None"
proof (cases "Provider lib raw = Inr ''civitai''")
  case True
  with assms(1) have run: "discoverCivitai lib get raw version civitaiToken h = (Inr d, h1)"
    by (simp add: Discover_def)
  then have "dy_Provider d = ''civitai''"
    by (auto simp: discoverCivitai_def civitai_discovery_def Let_def split: sum.splits if_splits option.splits prod.splits)
  with discovered_civitai [OF run] assms(2-6) show ?thesis by blast
next
  case False
  with assms(1) have "discoverHF lib get raw hfToken h = (Inr d, h1)"
    by (auto simp: Discover_def split: sum.splits if_splits)
  then show ?thesis by (rule discovered_hf(1) [OF _ assms(2-4)])
qed

lemma compatible_kind: "k \<in> set (CompatibleKinds lib f) \<Longrightarrow> k \<in> set Kinds"
  by (simp add: CompatibleKinds_def)

lemma compatible_plan:
  assumes "validatePlanInputs lib d f = None" "k \<in> set (CompatibleKinds lib f)"
  shows "\<exists>plan. BuildPlan lib d f k = Inr plan"
proof -
  have "list_ex (\<lambda>x. kd_ID x = kd_ID k) (CompatibleKinds lib f)" using assms(2) by (auto simp: list_ex_iff)
  with assms(1) show ?thesis by (simp add: BuildPlan_def Let_def)
qed


section \<open>Where requests go\<close>

text \<open>A transport that also keeps the endpoint and the token of every request.\<close>

definition logged :: "'h transport \<Rightarrow> ('h \<times> (string \<times> string) list) transport" where
  "logged get = (\<lambda>endpoint token (h, done). let (r, h1) = get endpoint token h in (r, h1, done @ [(endpoint, token)]))"

definition provider_request :: "string \<Rightarrow> string \<Rightarrow> string \<times> string \<Rightarrow> bool" where
  "provider_request hfToken civitaiToken r \<longleftrightarrow>
     hasPrefix (fst r) ''https://civitai.com/api/v1/'' \<and> snd r = civitaiToken \<or>
     hasPrefix (fst r) ''https://civitai.red/api/v1/'' \<and> snd r = civitaiToken \<or>
     hasPrefix (fst r) ''https://huggingface.co/api/models/'' \<and> snd r = hfToken"

lemma request_logged:
  assumes "requestJSON lib (logged get) endpoint token provider (h, done) = (r, h1, done1)"
  shows "done1 = done @ [(endpoint, token)]"
  using assms by (auto simp: requestJSON_def logged_def split: prod.splits sum.splits)

lemma endpoint_prefix:
  "host \<in> {''civitai.com'', ''civitai.red''} \<Longrightarrow> provider_request hf c (civitai_endpoint host what n, c)"
  "provider_request hf c (hf_endpoint repository revision, hf)"
  by (auto simp: provider_request_def civitai_endpoint_def hf_endpoint_def hasPrefix_def Let_def)

lemma requests_civitai:
  "\<exists>new. snd (snd (discoverCivitai lib (logged get) raw requested c (h, done))) = done @ new \<and>
     length new \<le> 2 \<and> list_all (provider_request hf c) new"
proof (cases "civitaiIdentity lib raw")
  case (Inl e)
  then show ?thesis by (simp add: discoverCivitai_def)
next
  case (Inr b)
  then obtain host model urlVersion where id: "civitaiIdentity lib raw = Inr (host, model, urlVersion)" by (cases b) auto
  define version where "version = (if requested = 0 then urlVersion else requested)"
  let ?run = "discoverCivitai lib (logged get) raw requested c (h, done)"
    and ?a = "civitai_endpoint host ''model-versions'' version" and ?b = "civitai_endpoint host ''models''"
  note ok = endpoint_prefix(1) [OF civitai_identity(1) [OF id], of hf c]
  obtain r h1 done1 where one: "requestJSON lib (logged get) ?a c ''Civitai'' (h, done) = (r, h1, done1)" by (metis surj_pair)
  note first = request_logged [OF one]
  show ?thesis
  proof (cases "(0 < requested \<and> 0 < urlVersion \<and> requested \<noteq> urlVersion) \<or> version = 0")
    case True
    then have "snd (snd ?run) = done" by (auto simp: discoverCivitai_def id version_def)
    then show ?thesis by simp
  next
    case False
    show ?thesis
    proof (cases "\<exists>v m. r = Inr v \<and> jsonInt (lookup v ''id'') = Some version \<and> jsonInt (lookup v ''modelId'') = Some m
        \<and> \<not> (0 < model \<and> m \<noteq> model)")
      case True
      then obtain v m where ok1: "r = Inr v" "jsonInt (lookup v ''id'') = Some version"
        "jsonInt (lookup v ''modelId'') = Some m" "\<not> (0 < model \<and> m \<noteq> model)" by blast
      obtain r2 h2 done2 where two: "requestJSON lib (logged get) (?b m) c ''Civitai'' (h1, done1) = (r2, h2, done2)"
        by (metis surj_pair)
      from False ok1 one two have "snd (snd ?run) = done2"
        by (cases r2) (auto simp: discoverCivitai_def id version_def)
      with request_logged [OF two] first ok show ?thesis by simp
    next
      case other: False
      with False one have "snd (snd ?run) = done1"
        by (cases r) (auto simp: discoverCivitai_def id version_def split: option.splits)
      with first ok show ?thesis by simp
    qed
  qed
qed

lemma requests_hf:
  "\<exists>new. snd (snd (discoverHF lib (logged get) raw hf (h, done))) = done @ new \<and>
     length new \<le> 1 \<and> list_all (provider_request hf c) new"
proof (cases "hfIdentity lib raw")
  case (Inl e)
  then show ?thesis by (simp add: discoverHF_def)
next
  case (Inr b)
  then obtain repository revision path where id: "hfIdentity lib raw = Inr (repository, revision, path)" by (cases b) auto
  obtain r h1 done1 where one: "requestJSON lib (logged get) (hf_endpoint repository revision) hf ''Hugging Face'' (h, done)
      = (r, h1, done1)" by (metis surj_pair)
  from request_logged [OF one] id one endpoint_prefix(2) show ?thesis
    by (cases r) (auto simp: discoverHF_def)
qed


section \<open>An example\<close>

definition demo_parse :: "string \<Rightarrow> URL option" where
  "demo_parse v = (if \<not> hasPrefix v ''https://'' then None
     else
       (let r = drop 8 v; host = takeWhile (\<lambda>c. c \<noteq> SL) r; p = takeWhile (\<lambda>c. c \<noteq> CHR ''?'') (drop (length host) r) in
        Some \<lparr>url_Opaque = [], url_Scheme = ''https'', url_Hostname = host, url_Host = host, url_User = False,
          url_RawQuery = drop (length host + length p + 1) r, url_ForceQuery = False, url_Fragment = [], url_Port = [],
          url_EscapedPath = p, url_Path = p\<rparr>))"

definition demo_metadata :: json where
  "demo_metadata = JObj [(''sha'', JStr (replicate 40 CHR ''a'')),
     (''siblings'', JArr [JObj [(''rfilename'', JStr ''README.md'')],
        JObj [(''rfilename'', JStr ''q4/m.GGUF''), (''lfs'', JObj [(''sha256'', JStr (replicate 64 CHR ''B'')), (''size'', JNum ''7'')])]])]"

definition demo_import :: import_lib where
  "demo_import = \<lparr>il_urls = \<lparr>url_Parse = demo_parse, url_render = (\<lambda>_ v. v)\<rparr>, il_lower = map lower_char,
     il_float = (\<lambda>_. None), il_query = (\<lambda>_ _. []), il_hf_url = (\<lambda>p. ''https://huggingface.co'' @ p),
     il_decode = (\<lambda>_. Whole demo_metadata)\<rparr>"

definition demo_get :: "unit transport" where
  "demo_get _ _ h = (Inr (200, Some ''{}''), h)"

definition demo_remote :: File where
  "demo_remote = \<lparr>fi_ID = ''q4/m.GGUF'', fi_Name = ''m.GGUF'', fi_Size = 7, fi_SHA256 = replicate 64 CHR ''b'',
     fi_Primary = False, fi_DownloadURL = []\<rparr>"

definition demo_discovery :: Discovery where
  "demo_discovery = \<lparr>dy_Provider = ''huggingface'',
     dy_SourceURL = ''https://huggingface.co/o/r/tree/'' @ replicate 40 CHR ''a'', dy_Title = ''o/r'', dy_Repository = ''o/r'',
     dy_Revision = replicate 40 CHR ''a'', dy_DeclaredLicense = ''not declared by provider metadata'', dy_ModelType = [],
     dy_Host = [], dy_Files = [demo_remote], dy_ModelID = 0, dy_VersionID = 0, dy_RequiresAuth = False\<rparr>"

definition demo_kind :: Kind where
  "demo_kind = \<lparr>kd_ID = ''llama-cpp:model'', kd_Label = ''llama.cpp GGUF model'', kd_Application = ''llama-cpp'',
     kd_Target = ''llama-models'', kd_Prefix = ''imported'', kd_Suffixes = [''.gguf'']\<rparr>"

lemma demo_https: "host \<noteq> [] \<Longrightarrow> hd host \<noteq> SL \<Longrightarrow> httpsURL (il_urls demo_import) (''https://'' @ host @ p)"
  by (cases host) (simp_all add: httpsURL_def demo_import_def demo_parse_def hasPrefix_def Let_def)

lemma demo_laws: "lower_law demo_import" "url_law demo_import"
proof -
  show "lower_law demo_import" by (simp add: lower_law_def demo_import_def lower_char_def code_def)
  have hf: "il_hf_url demo_import p = ''https://'' @ ''huggingface.co'' @ p" for p by (simp add: demo_import_def)
  have "httpsURL (il_urls demo_import) (''https://'' @ ''huggingface.co'' @ p)" for p
    by (rule demo_https) simp_all
  moreover have "httpsURL (il_urls demo_import) (''https://'' @ host @ p)" if "host \<in> {''civitai.com'', ''civitai.red''}" for host p
    by (rule demo_https) (use that in auto)
  ultimately show "url_law demo_import" unfolding url_law_def hf by blast
qed

lemma demo_compatible: "demo_kind \<in> set (CompatibleKinds demo_import demo_remote)"
proof -
  have "demo_kind \<in> set Kinds" by (simp add: Kinds_def demo_kind_def)
  moreover have "has_suffix_of demo_import ''m.GGUF'' [''.gguf'']" by code_simp
  ultimately show ?thesis
    unfolding CompatibleKinds_def by (simp add: demo_remote_def) (simp add: demo_kind_def)
qed

lemma demo_identity: "Provider demo_import ''https://huggingface.co/o/r'' = Inr ''huggingface''"
    "hfIdentity demo_import ''https://huggingface.co/o/r'' = Inr (''o/r'', [], [])"
  by code_simp+

lemma demo_request: "requestJSON demo_import demo_get e t p () = (decode_object p (Whole demo_metadata), ())"
  by (simp add: requestJSON_def demo_get_def maximumMetadataSize_def) (simp add: demo_import_def)

lemma demo_decoded: "decode_object ''Hugging Face'' (Whole demo_metadata) = Inr (obj_of (Some demo_metadata))"
  by (simp add: decode_object_def demo_metadata_def obj_of_def)

lemma demo_files: "hf_discovery demo_import ''o/r'' [] (obj_of (Some demo_metadata)) = Inr demo_discovery"
  by code_simp

lemma demo_discovered:
  "Discover demo_import demo_get ''https://huggingface.co/o/r'' 0 [] [] () = (Inr demo_discovery, ())"
  by (simp add: Discover_def discoverHF_def demo_identity demo_request demo_decoded demo_files)


end
