(* ===== verification/Spec2Isabelle.thy ===== *)
theory Spec2Isabelle
  imports AllocationSpec Lifecycle Install Inventory GatewayClient Control ContentPack AtomicFile Cleanup ModelInventory RemoteImport
begin

text \<open>
  Verification of paracetamol, the controller of local inference and media containers under
  \<^verbatim>\<open>src/\<close>: a command line program that keeps pinned content below one data directory, builds
  and runs podman containers, and a gateway that shares one accelerator between the clients of a
  llama.cpp backend. This file is the root of the development; every other theory models one
  part of the program and holds its properties.

  \<^bold>\<open>The parts and their theories.\<close>

  \<^item> \<open>Prelude\<close>: 64-bit integers, byte strings and the functions of Go's \<^verbatim>\<open>strings\<close> package,
    association lists for Go maps. \<open>Interfaces\<close>: the contracts as locales (a state machine with an
    invariant, a refinement of machines, a stream consumer independent of read boundaries, a
    commutative accumulator), interpreted on the definitions below.
  \<^item> \<open>Scheduler\<close> (\<^verbatim>\<open>internal/gateway/scheduler.go\<close>): the state \<open>sched\<close> holds the local variables of
    \<^verbatim>\<open>run\<close>, one definition stands for each closure and each case of its \<^verbatim>\<open>select\<close>. \<open>SchedulerWorld\<close> adds
    the client calls (\<^verbatim>\<open>Acquire\<close>, \<^verbatim>\<open>Release\<close>, \<^verbatim>\<open>Fail\<close>, \<^verbatim>\<open>Shutdown\<close>) and the lifecycle calls in flight, as the
    step relation \<open>world_step\<close> in which goroutine, clients and lifecycle interleave freely.
    \<open>SchedulerProps\<close> proves the invariants, the service order and the absence of a lost wakeup;
    \<open>AllocationSpec\<close> states the abstract slot (vacant, loading, serving, unloading, stuck), the
    refinement to it, and that a shutdown ends.
  \<^item> \<open>Float64\<close>, \<open>Usage\<close> (\<^verbatim>\<open>usage.go\<close>, the data of \<^verbatim>\<open>observability.go\<close>): binary64 numbers as 64-bit words,
    request records and saturating totals. \<open>Ledger\<close> (\<^verbatim>\<open>requestLedger\<close> and \<^verbatim>\<open>request_reports.go\<close>): the ring of
    recent requests, totals by model, sessions in least-recently-used order, active requests; each
    is proved equal to a reference definition over the whole history.
  \<^item> \<open>Statistics\<close> (\<^verbatim>\<open>statistics.go\<close>, \<^verbatim>\<open>statistics_sqlite.go\<close>): retained usage by day; a transaction is
    one update of the tables.
  \<^item> \<open>Streams\<close> (\<^verbatim>\<open>stream_keepalive.go\<close>, \<^verbatim>\<open>log.go\<close>, the event framing of \<^verbatim>\<open>observability.go\<close>): what
    the streams deliver does not depend on how the network cuts them.
  \<^item> \<open>Paths\<close> (\<^verbatim>\<open>internal/storage/layout.go\<close>, \<^verbatim>\<open>safeRelative\<close> of the catalog): lexical paths and
    the check of managed parents.
  \<^item> \<open>Config\<close>, \<open>ConfigProps\<close> (\<^verbatim>\<open>internal/config\<close>, \<^verbatim>\<open>internal/identity\<close>): the parser of the
    configuration file, precedence of flags, environment and file, and key files.
  \<^item> \<open>Platform\<close> (\<^verbatim>\<open>internal/platform\<close>): accelerator profiles and device selection.
  \<^item> \<open>BuildPlan\<close> (\<^verbatim>\<open>internal/application\<close>, \<^verbatim>\<open>internal/buildplan\<close>): the tables of applications and
    build units and the plan of builds in dependency order.
  \<^item> \<open>Catalog\<close>, \<open>CatalogProps\<close> (\<^verbatim>\<open>internal/catalog\<close>): the loaders of every kind of entry with all
    their checks, and what a catalog that loads promises.
  \<^item> \<open>Podman\<close> (\<^verbatim>\<open>internal/podman\<close>, \<^verbatim>\<open>internal/process\<close>): every call of the podman client, over a runner that
    takes and returns the state of the host. \<open>Runtime\<close> (\<^verbatim>\<open>internal/runtime\<close>): the command lines of all
    containers; the properties read them back the way podman does and show the confinement.
  \<^item> \<open>TextModel\<close> (\<^verbatim>\<open>internal/textmodel\<close>, the data of \<^verbatim>\<open>internal/gateway/registry.go\<close>): the models that
    presets of the catalog describe. \<open>Lifecycle\<close> (\<^verbatim>\<open>internal/gateway/lifecycle.go\<close>): preflight, start and
    stop of the backend container. Over podman as documented they keep the contract that the
    scheduler relies on, and never touch a container of anyone else.
  \<^item> \<open>Content\<close> (\<^verbatim>\<open>internal/content/inspect.go\<close>, \<^verbatim>\<open>internal/verification\<close>), \<open>Install\<close>
    (\<^verbatim>\<open>internal/content/install.go\<close>): inspection and receipts of managed files, the installation plan and
    the publication of a payload, on a file system that other processes change before every call.
  \<^item> \<open>Requests\<close> (request part of \<^verbatim>\<open>observability.go\<close>, \<^verbatim>\<open>media.go\<close>, \<^verbatim>\<open>sampling.go\<close>): what the gateway reads
    from a chat request, over the syntax tree of its JSON: observed controls, the check of media parts,
    the defaults of the sampling policy. \<open>Completion\<close> (\<^verbatim>\<open>completion.go\<close>, the rest of \<^verbatim>\<open>observability.go\<close>):
    finish reasons, token counts and timings of a response, equal to a reference over the whole
    response. \<open>Server\<close> (\<^verbatim>\<open>server.go\<close>, \<^verbatim>\<open>auth.go\<close>, \<^verbatim>\<open>statistics_http.go\<close>): authentication, routes, and the chat
    handler as the sequence of calls that it makes to scheduler, ledger, statistics and upstream.
  \<^item> \<open>Inventory\<close> (\<^verbatim>\<open>internal/gateway/registry.go\<close>, \<^verbatim>\<open>internal/runtime/router.go\<close>): the frozen registry of
    verified models and the preset file of the llama.cpp router, which agree with each other.
  \<^item> \<open>ClientConfig\<close> (\<^verbatim>\<open>internal/clientconfig\<close>, \<^verbatim>\<open>internal/gateway/clientconfig.go\<close>): the files for a coding client,
    whose thinking fields the request inspection reads back. \<open>Residency\<close> (\<^verbatim>\<open>residency.go\<close>, the status,
    statistics and page data handlers): the state of every model from the answer of the router.
    \<open>GatewayClient\<close> (\<^verbatim>\<open>client.go\<close>, \<^verbatim>\<open>client_reports.go\<close>): the requests of the command line to a gateway, and
    that a report survives the way from the ledger to the client.
  \<^item> \<open>Control\<close> (\<^verbatim>\<open>internal/gateway/control.go\<close>): the lock and the control socket as steps of any number of
    gateways and stop commands that may die at any point.
  \<^item> \<open>ImageArchive\<close> (\<^verbatim>\<open>internal/imagearchive\<close>): the inspection of an image archive over the members that the tar
    reader yields, and the references of a selection. \<open>ContentPack\<close> (\<^verbatim>\<open>internal/contentpack\<close>): local packs,
    which only add checked entries to a catalog. \<open>AtomicFile\<close> (\<^verbatim>\<open>internal/atomicfile\<close>): writing and ensuring a
    file on a model of a disk with volatile and durable state, other processes and power loss.
  \<^item> \<open>Cleanup\<close> (\<^verbatim>\<open>internal/cli/commands_cleanup.go\<close>): the cleanup command with its prompt on a host that
    others change: the guards before anything is removed, and what a removal may change.
    \<open>ModelInventory\<close> (\<^verbatim>\<open>internal/modelinventory\<close>): the models of catalog and data root with sharded files.
    \<open>RemoteImport\<close> (\<^verbatim>\<open>internal/remoteimport\<close>): discovery of a file at a provider and the content pack of its
    plan, which loads again.
  \<^bold>\<open>How the parts interact.\<close> The gateway server acquires leases from the scheduler, which calls the
  container lifecycle to start and stop backends; finished requests go through the observer into
  the ledger and from there into the statistics. The command line loads the configuration, finds
  the platform profile, loads the catalog, and plans builds and installations below the storage
  layout.

  \<^bold>\<open>Arguments of the model.\<close> What the program gets from outside its own sources is an argument of
  the definitions that use it: decoded JSON documents and the JSON parser, the URL parser, the Unicode print and format tables,
  \<^verbatim>\<open>strconv.ParseFloat\<close>, SHA-256,
  the listing of directories and device files, the results of podman and of HTTP calls. Where a
  property relies on such a result, it names the assumption, and its witness shows a concrete
  function that satisfies it.

  \<^bold>\<open>Loops and bounds.\<close> No definition uses fuel as a cut-off: the recursions end structurally or by
  a measure. The loops that wait for the outside world (reading a stream, waiting for a backend)
  run over a list of what the outside does, whose end is the end of the stream or the deadline.
  Counters, durations and sizes that can wrap are 64-bit words; sizes read from JSON are
  integers, as the loaders check their sign.

  \<^bold>\<open>Not modelled.\<close> The command line front end (argument tables, most commands, output), terminal
  rendering, the acceptance, benchmark and probe commands, sockets, the reverse proxy and the
  assets of the web page are input and output around the parts above. SQLite, podman, git, curl and the HTTP
  library are foreign code. The manifest lists every part with its reason.
\<close>

end
